(* ===== verification/GW_Prelude.thy ===== *)
theory GW_Prelude
  imports Main "HOL-Library.AList" "HOL-Library.Sublist" "HOL-Library.Word"
begin

text \<open>
  Shared vocabulary of the development: the type names of the model, hash maps as association
  lists, the string and list operations of the Rust standard library that the code uses, and the
  fact collections the component theories fill.

  A \<open>HashMap<K, V>\<close> is an association list with distinct keys; its order stands for the (arbitrary)
  iteration order of the map, so a statement over all association lists holds for every
  iteration order. A \<open>VecDeque\<close> and a \<open>Vec\<close> are lists. Strings are lists of UTF-8 bytes, paths
  are strings. Wall-clock times (\<open>DateTime<Utc>\<close>) and monotonic instants (\<open>Instant\<close>) are integers
  (nanoseconds), always passed in as arguments.
\<close>

named_theorems gw_defs "definitions of the model, unfolded by the component proofs"
named_theorems gw_keeps "facts about what an operation leaves unchanged"

type_synonym path = string
type_synonym u64 = "64 word"
type_synonym instant = int
type_synonym utc = int

section \<open>Hash maps\<close>

type_synonym ('k, 'v) hash_map = "('k \<times> 'v) list"

abbreviation hm_get :: "('k, 'v) hash_map \<Rightarrow> 'k \<Rightarrow> 'v option" where
  "hm_get m k \<equiv> map_of m k"

abbreviation hm_insert :: "'k \<Rightarrow> 'v \<Rightarrow> ('k, 'v) hash_map \<Rightarrow> ('k, 'v) hash_map" where
  "hm_insert k v m \<equiv> AList.update k v m"

abbreviation hm_remove :: "'k \<Rightarrow> ('k, 'v) hash_map \<Rightarrow> ('k, 'v) hash_map" where
  "hm_remove k m \<equiv> AList.delete k m"

abbreviation hm_keys :: "('k, 'v) hash_map \<Rightarrow> 'k list" where
  "hm_keys m \<equiv> map fst m"

abbreviation hm_values :: "('k, 'v) hash_map \<Rightarrow> 'v list" where
  "hm_values m \<equiv> map snd m"

definition hm_ok :: "('k, 'v) hash_map \<Rightarrow> bool" where
  "hm_ok m \<longleftrightarrow> distinct (hm_keys m)"

lemma hm_get_insert [simp]: "hm_get (hm_insert k v m) k' = (if k' = k then Some v else hm_get m k')"
  by (simp add: update_conv')

lemma hm_get_remove [simp]: "hm_get (hm_remove k m) k' = (if k' = k then None else hm_get m k')"
  by (simp add: delete_conv')

lemma hm_ok_Nil [simp, intro]: "hm_ok []"
  by (simp add: hm_ok_def)

lemma hm_ok_insert [simp, intro]: "hm_ok m \<Longrightarrow> hm_ok (hm_insert k v m)"
  by (simp add: hm_ok_def distinct_update)

lemma hm_ok_remove [simp, intro]: "hm_ok m \<Longrightarrow> hm_ok (hm_remove k m)"
  by (simp add: hm_ok_def distinct_delete)

lemma hm_get_in_values: "hm_get m k = Some v \<Longrightarrow> v \<in> set (hm_values m)"
  by (force dest: map_of_SomeD)

lemma hm_values_get: "hm_ok m \<Longrightarrow> v \<in> set (hm_values m) \<Longrightarrow> \<exists>k. hm_get m k = Some v"
  by (auto simp: hm_ok_def intro: exI)

text \<open>The interface the components rely on: a keyed store, and its laws.\<close>

locale keyed_store =
  fixes get :: "'m \<Rightarrow> 'k \<Rightarrow> 'v option"
    and put :: "'k \<Rightarrow> 'v \<Rightarrow> 'm \<Rightarrow> 'm"
    and del :: "'k \<Rightarrow> 'm \<Rightarrow> 'm"
    and ok :: "'m \<Rightarrow> bool"
  assumes get_put: "get (put k v m) k' = (if k' = k then Some v else get m k')"
    and get_del: "get (del k m) k' = (if k' = k then None else get m k')"
    and ok_put: "ok m \<Longrightarrow> ok (put k v m)"
    and ok_del: "ok m \<Longrightarrow> ok (del k m)"
begin

lemma put_del_same: "get (del k (put k v m)) = get (del k m)"
  by (rule ext) (simp add: get_put get_del)

lemma put_commute: "k \<noteq> k' \<Longrightarrow> get (put k v (put k' v' m)) = get (put k' v' (put k v m))"
  by (rule ext) (simp add: get_put)

lemma fold_put_ok: "ok m \<Longrightarrow> ok (fold (\<lambda>(k, v). put k v) kvs m)"
  by (induction kvs arbitrary: m) (auto intro: ok_put)

lemma fold_put_get: "distinct (map fst kvs) \<Longrightarrow>
    get (fold (\<lambda>(k, v). put k v) kvs m) k = (case map_of kvs k of None \<Rightarrow> get m k | Some v \<Rightarrow> Some v)"
proof (induction kvs arbitrary: m)
  case Nil
  show ?case by simp
next
  case (Cons kv kvs)
  obtain k1 v1 where kv: "kv = (k1, v1)" by (cases kv)
  from Cons.prems kv have new: "map_of kvs k1 = None" and d: "distinct (map fst kvs)"
    by (simp_all add: map_of_eq_None_iff)
  from Cons.IH [OF d] new kv show ?case
    by (auto simp: get_put split: option.splits)
qed

end

interpretation hm: keyed_store map_of AList.update AList.delete hm_ok
  by unfold_locales auto

section \<open>Lists\<close>

text \<open>\<open>iter().position(p)\<close>: the index of the first element that satisfies \<open>p\<close>.\<close>

fun position_of :: "('a \<Rightarrow> bool) \<Rightarrow> 'a list \<Rightarrow> nat option" where
  "position_of p [] = None"
| "position_of p (x # xs) = (if p x then Some 0 else map_option Suc (position_of p xs))"

lemma position_None [simp]: "position_of p xs = None \<longleftrightarrow> (\<forall>x \<in> set xs. \<not> p x)"
  by (induction xs) auto

lemma position_Some_nth:
  "position_of p xs = Some i \<Longrightarrow> i < length xs \<and> p (xs ! i) \<and> (\<forall>j < i. \<not> p (xs ! j))"
proof (induction xs arbitrary: i)
  case Nil
  then show ?case by simp
next
  case (Cons x xs)
  show ?case
  proof (cases "p x")
    case True
    with Cons.prems show ?thesis by simp
  next
    case False
    with Cons.prems obtain k where k: "position_of p xs = Some k" and i: "i = Suc k" by auto
    from Cons.IH [OF k] have "k < length xs" "p (xs ! k)" "\<forall>j < k. \<not> p (xs ! j)" by auto
    with i False show ?thesis by (auto simp: less_Suc_eq_0_disj)
  qed
qed

lemma position_nth:
  "i < length xs \<Longrightarrow> p (xs ! i) \<Longrightarrow> (\<And>j. j < i \<Longrightarrow> \<not> p (xs ! j)) \<Longrightarrow> position_of p xs = Some i"
proof (induction xs arbitrary: i)
  case Nil
  then show ?case by simp
next
  case (Cons x xs)
  show ?case
  proof (cases i)
    case 0
    with Cons.prems show ?thesis by simp
  next
    case (Suc k)
    have "\<not> p x" using Cons.prems(3) [of 0] Suc by simp
    moreover have "position_of p xs = Some k"
    proof (rule Cons.IH)
      show "k < length xs" "p (xs ! k)" using Cons.prems(1,2) Suc by simp_all
      show "\<not> p (xs ! j)" if "j < k" for j
        using Cons.prems(3) [of "Suc j"] Suc that by simp
    qed
    ultimately show ?thesis using Suc by simp
  qed
qed

lemma position_eq_distinct:
  "distinct xs \<Longrightarrow> position_of (\<lambda>x. x = a) xs = Some i \<longleftrightarrow> i < length xs \<and> xs ! i = a"
proof
  assume "distinct xs" and "i < length xs \<and> xs ! i = a"
  then show "position_of (\<lambda>x. x = a) xs = Some i"
    by (intro position_nth) (auto simp: nth_eq_iff_index_eq)
qed (auto dest: position_Some_nth)

lemma count_list_distinct: "distinct xs \<Longrightarrow> count_list xs a \<le> 1"
  by (induction xs) auto

text \<open>\<open>iter().find(p)\<close> is the library's \<open>find\<close>.\<close>

lemma find_Some_split:
  "find p xs = Some x \<Longrightarrow> \<exists>us vs. xs = us @ x # vs \<and> p x \<and> (\<forall>u \<in> set us. \<not> p u)"
proof (induction xs)
  case Nil
  then show ?case by simp
next
  case (Cons y ys)
  show ?case
  proof (cases "p y")
    case True
    with Cons.prems show ?thesis by (intro exI [of _ "[]"] exI [of _ ys]) simp
  next
    case False
    with Cons.prems have "find p ys = Some x" by simp
    from Cons.IH [OF this] obtain us vs
      where "ys = us @ x # vs" "p x" "\<forall>u \<in> set us. \<not> p u" by blast
    with False show ?thesis by (intro exI [of _ "y # us"] exI [of _ vs]) simp
  qed
qed

lemma find_None_iff_all: "find p xs = None \<longleftrightarrow> (\<forall>x \<in> set xs. \<not> p x)"
  by (induction xs) auto

lemma find_SomeD: "find p xs = Some x \<Longrightarrow> x \<in> set xs \<and> p x"
  by (induction xs) (auto split: if_splits)

text \<open>\<open>iter().find_map(f)\<close>.\<close>

fun find_map :: "('a \<Rightarrow> 'b option) \<Rightarrow> 'a list \<Rightarrow> 'b option" where
  "find_map f [] = None"
| "find_map f (x # xs) = (case f x of Some y \<Rightarrow> Some y | None \<Rightarrow> find_map f xs)"

lemma find_map_None: "find_map f xs = None \<longleftrightarrow> (\<forall>x \<in> set xs. f x = None)"
  by (induction xs) (auto split: option.splits)

lemma find_map_SomeD: "find_map f xs = Some y \<Longrightarrow> \<exists>x \<in> set xs. f x = Some y"
  by (induction xs) (auto split: option.splits)

text \<open>The one element of a list that has exactly one.\<close>

definition the_only :: "'a list \<Rightarrow> 'a option" where
  "the_only xs = (case xs of [x] \<Rightarrow> Some x | _ \<Rightarrow> None)"

lemma the_only_Some [simp]: "the_only xs = Some x \<longleftrightarrow> xs = [x]"
  by (auto simp: the_only_def split: list.splits)


section \<open>Strings and paths\<close>

text \<open>The UTF-8 bytes of the two non-ASCII characters the code's literals use.\<close>

definition em_dash :: string where
  "em_dash = [CHR 0xE2, CHR 0x80, CHR 0x94]"

definition heavy_angle :: string where
  "heavy_angle = [CHR 0xE2, CHR 0x9D, CHR 0xAF]"

definition cross_mark :: string where
  "cross_mark = [CHR 0xE2, CHR 0x9D, CHR 0x8C]"

text \<open>\<open>str::contains\<close>: a substring, at any position.\<close>

fun str_contains :: "string \<Rightarrow> string \<Rightarrow> bool" where
  "str_contains pat [] = (pat = [])"
| "str_contains pat (c # cs) = (prefix pat (c # cs) \<or> str_contains pat cs)"

lemma str_contains_iff: "str_contains pat s \<longleftrightarrow> (\<exists>us vs. s = us @ pat @ vs)"
proof (induction s)
  case Nil
  show ?case by auto
next
  case (Cons c cs)
  have "(\<exists>us vs. c # cs = us @ pat @ vs) \<longleftrightarrow>
      prefix pat (c # cs) \<or> (\<exists>us vs. cs = us @ pat @ vs)"
    by (auto simp: prefix_def Cons_eq_append_conv)
  with Cons.IH show ?case by simp
qed

text \<open>\<open>str::strip_prefix\<close>.\<close>

definition strip_prefix :: "string \<Rightarrow> string \<Rightarrow> string option" where
  "strip_prefix pre s = (if prefix pre s then Some (drop (length pre) s) else None)"

lemma strip_prefix_Some [simp]: "strip_prefix pre s = Some t \<longleftrightarrow> s = pre @ t"
  by (auto simp: strip_prefix_def prefix_def)

text \<open>
  \<open>str::trim\<close> removes the characters with the Unicode property \<open>White_Space\<close> at both ends; they
  are listed by their UTF-8 encodings. In valid UTF-8 an encoding is recognised from either end.
\<close>

definition white_space :: "string list" where
  "white_space =
    [[CHR 0x09], [CHR 0x0A], [CHR 0x0B], [CHR 0x0C], [CHR 0x0D], [CHR 0x20],
     [CHR 0xC2, CHR 0x85], [CHR 0xC2, CHR 0xA0], [CHR 0xE1, CHR 0x9A, CHR 0x80],
     [CHR 0xE2, CHR 0x80, CHR 0x80], [CHR 0xE2, CHR 0x80, CHR 0x81], [CHR 0xE2, CHR 0x80, CHR 0x82],
     [CHR 0xE2, CHR 0x80, CHR 0x83], [CHR 0xE2, CHR 0x80, CHR 0x84], [CHR 0xE2, CHR 0x80, CHR 0x85],
     [CHR 0xE2, CHR 0x80, CHR 0x86], [CHR 0xE2, CHR 0x80, CHR 0x87], [CHR 0xE2, CHR 0x80, CHR 0x88],
     [CHR 0xE2, CHR 0x80, CHR 0x89], [CHR 0xE2, CHR 0x80, CHR 0x8A], [CHR 0xE2, CHR 0x80, CHR 0xA8],
     [CHR 0xE2, CHR 0x80, CHR 0xA9], [CHR 0xE2, CHR 0x80, CHR 0xAF], [CHR 0xE2, CHR 0x81, CHR 0x9F],
     [CHR 0xE3, CHR 0x80, CHR 0x80]]"

lemma white_space_nonempty: "w \<in> set white_space \<Longrightarrow> w \<noteq> []"
  by (auto simp: white_space_def)

text \<open>Drop the given non-empty words from the front, as long as one of them is there.\<close>

function drop_words :: "string list \<Rightarrow> string \<Rightarrow> string" where
  "drop_words ws s =
    (case find (\<lambda>w. w \<noteq> [] \<and> prefix w s) ws of
       None \<Rightarrow> s
     | Some w \<Rightarrow> drop_words ws (drop (length w) s))"
  by pat_completeness auto
termination
  by (relation "measure (\<lambda>(ws, s). length s)")
    (auto dest!: find_SomeD simp: prefix_def)

declare drop_words.simps [simp del]

definition trim_start :: "string \<Rightarrow> string" where
  "trim_start s = drop_words white_space s"

definition trim_end :: "string \<Rightarrow> string" where
  "trim_end s = rev (drop_words (map rev white_space) (rev s))"

definition trim :: "string \<Rightarrow> string" where
  "trim s = trim_end (trim_start s)"

lemma drop_words_suffix: "suffix (drop_words ws s) s"
proof (induction ws s rule: drop_words.induct)
  case (1 ws s)
  show ?case
  proof (cases "find (\<lambda>w. w \<noteq> [] \<and> prefix w s) ws")
    case None
    then show ?thesis by (simp add: drop_words.simps [of ws s])
  next
    case (Some w)
    with "1.IH" have "suffix (drop_words ws (drop (length w) s)) (drop (length w) s)" by blast
    with Some show ?thesis
      by (simp add: drop_words.simps [of ws s]) (meson suffix_drop suffix_order.trans)
  qed
qed

lemma drop_words_none:
  "(\<And>w. w \<in> set ws \<Longrightarrow> w \<noteq> [] \<Longrightarrow> \<not> prefix w s) \<Longrightarrow> drop_words ws s = s"
  by (subst drop_words.simps) (auto simp: find_None_iff_all split: option.split dest!: find_SomeD)

text \<open>
  \<open>str::lines\<close>: the pieces between line feeds, without a carriage return right before the line
  feed, and without an empty last piece.
\<close>

fun split_lf :: "string \<Rightarrow> string \<Rightarrow> string list" where
  "split_lf acc [] = (if acc = [] then [] else [rev acc])"
| "split_lf acc (c # cs) =
    (if c = CHR 0x0A
     then rev (case acc of [] \<Rightarrow> [] | a # as \<Rightarrow> if a = CHR 0x0D then as else acc) # split_lf [] cs
     else split_lf (c # acc) cs)"

definition str_lines :: "string \<Rightarrow> string list" where
  "str_lines s = split_lf [] s"

definition join_lines :: "string list \<Rightarrow> string" where
  "join_lines ls = concat (case ls of [] \<Rightarrow> [] | l # rest \<Rightarrow> l # map (\<lambda>x. CHR 0x0A # x) rest)"

text \<open>\<open>[T]::join\<close>: the pieces with a separator between them.\<close>

fun join_with :: "string \<Rightarrow> string list \<Rightarrow> string" where
  "join_with sep [] = []"
| "join_with sep [x] = x"
| "join_with sep (x # y # ys) = x @ sep @ join_with sep (y # ys)"

text \<open>\<open>Path::join\<close>: an absolute right-hand side replaces the left.\<close>

definition path_join :: "path \<Rightarrow> path \<Rightarrow> path" where
  "path_join a b =
    (if prefix ''/'' b then b
     else if a = [] \<or> suffix ''/'' a then a @ b
     else a @ ''/'' @ b)"

text \<open>Decimal output of an unsigned integer.\<close>

fun show_nat :: "nat \<Rightarrow> string" where
  "show_nat n =
    (if n < 10 then [char_of (48 + n)] else show_nat (n div 10) @ [char_of (48 + n mod 10)])"

declare show_nat.simps [simp del]

text \<open>
  \<open>str::parse::<u64>\<close>: an optional plus sign, then at least one digit, and a value that fits.
\<close>

definition digit_value :: "char \<Rightarrow> nat option" where
  "digit_value c = (let n = of_char c :: nat in if 48 \<le> n \<and> n \<le> 57 then Some (n - 48) else None)"

fun parse_digits :: "nat \<Rightarrow> string \<Rightarrow> nat option" where
  "parse_digits acc [] = Some acc"
| "parse_digits acc (c # cs) =
    (case digit_value c of None \<Rightarrow> None | Some d \<Rightarrow> parse_digits (10 * acc + d) cs)"

definition parse_u64 :: "string \<Rightarrow> nat option" where
  "parse_u64 s =
    (let t = (case s of c # cs \<Rightarrow> if c = CHR ''+'' then cs else s | [] \<Rightarrow> s) in
     if t = [] then None
     else case parse_digits 0 t of
       None \<Rightarrow> None
     | Some n \<Rightarrow> if n < 2 ^ 64 then Some n else None)"

lemma digit_value_digit: "d < 10 \<Longrightarrow> digit_value (char_of (48 + d)) = Some d"
  by (simp add: digit_value_def Let_def)

lemma parse_digits_append:
  "parse_digits acc (xs @ ys) = Option.bind (parse_digits acc xs) (\<lambda>n. parse_digits n ys)"
  by (induction xs arbitrary: acc) (auto split: option.split)

lemma show_nat_nonempty: "show_nat n \<noteq> []"
  by (subst show_nat.simps) simp

lemma parse_digits_show_nat: "parse_digits 0 (show_nat n) = Some n"
proof (induction n rule: less_induct)
  case (less n)
  show ?case
  proof (cases "n < 10")
    case True
    then show ?thesis by (subst show_nat.simps) (simp add: digit_value_digit)
  next
    case False
    then have "parse_digits 0 (show_nat (n div 10)) = Some (n div 10)" using less by simp
    moreover have "digit_value (char_of (48 + n mod 10)) = Some (n mod 10)"
      by (rule digit_value_digit) simp
    ultimately show ?thesis using False
      by (subst show_nat.simps) (simp add: parse_digits_append del: char_of_mod_256)
  qed
qed

lemma show_nat_digits: "c \<in> set (show_nat n) \<Longrightarrow> \<exists>d < 10. c = char_of (48 + d :: nat)"
proof (induction n rule: less_induct)
  case (less n)
  show ?case
  proof (cases "n < 10")
    case True
    with less.prems show ?thesis by (subst (asm) show_nat.simps) auto
  next
    case False
    with less.prems have "c \<in> set (show_nat (n div 10)) \<or> c = char_of (48 + n mod 10)"
      by (subst (asm) show_nat.simps) auto
    then show ?thesis
    proof
      assume "c \<in> set (show_nat (n div 10))"
      with less.IH [of "n div 10"] False show ?thesis by simp
    next
      assume "c = char_of (48 + n mod 10)"
      moreover have "n mod 10 < 10" by simp
      ultimately show ?thesis by blast
    qed
  qed
qed

lemma parse_u64_show_nat: "n < 2 ^ 64 \<Longrightarrow> parse_u64 (show_nat n) = Some n"
proof -
  assume n: "n < 2 ^ 64"
  have "CHR ''+'' \<notin> set (show_nat n)"
  proof
    assume "CHR ''+'' \<in> set (show_nat n)"
    then obtain d where "d < 10" "CHR ''+'' = char_of (48 + d :: nat)" using show_nat_digits by blast
    then have "(of_char (CHR ''+'') :: nat) = of_char (char_of (48 + d :: nat) :: char)" by simp
    with \<open>d < 10\<close> show False by simp
  qed
  then have "(case show_nat n of c # cs \<Rightarrow> if c = CHR ''+'' then cs else show_nat n | [] \<Rightarrow> show_nat n) = show_nat n"
    by (auto split: list.split)
  with n show ?thesis by (simp add: parse_u64_def Let_def show_nat_nonempty parse_digits_show_nat)
qed

text \<open>\<open>split_whitespace\<close>: the non-empty pieces between white space.\<close>

function split_ws :: "string \<Rightarrow> string \<Rightarrow> string list" where
  "split_ws acc [] = (if acc = [] then [] else [rev acc])"
| "split_ws acc (c # cs) =
    (case find (\<lambda>w. prefix w (c # cs)) white_space of
       Some w \<Rightarrow> (if acc = [] then [] else [rev acc]) @ split_ws [] (drop (length w - 1) cs)
     | None \<Rightarrow> split_ws (c # acc) cs)"
  by pat_completeness auto
termination
  by (relation "measure (\<lambda>(acc, s). length s)") auto

text \<open>
  \<open>str::to_lowercase\<close> as far as a search for ASCII text can see it: besides the ASCII capitals, two
  characters have an ASCII letter in their lower case, U+212A (Kelvin sign) and U+0130. Other
  characters are left as they are; their lower cases contain no ASCII.
\<close>

definition lower_byte :: "char \<Rightarrow> char" where
  "lower_byte c = (let n = (of_char c :: nat) in if 65 \<le> n \<and> n \<le> 90 then char_of (n + 32) else c)"

function to_lowercase :: "string \<Rightarrow> string" where
  "to_lowercase [] = []"
| "to_lowercase (c # cs) =
    (if prefix [CHR 0xE2, CHR 0x84, CHR 0xAA] (c # cs) then CHR ''k'' # to_lowercase (drop 2 cs)
     else if prefix [CHR 0xC4, CHR 0xB0] (c # cs)
       then CHR ''i'' # CHR 0xCC # CHR 0x87 # to_lowercase (drop 1 cs)
     else lower_byte c # to_lowercase cs)"
  by pat_completeness auto
termination
  by (relation "measure length") auto

section \<open>Texts that are measured\<close>

text \<open>
  What cutting a text to a size relies on: the size of a text (in bytes or in columns) is the sum of those
  of its parts.
\<close>

locale text_width =
  fixes width :: "'c list \<Rightarrow> nat"
  assumes width_append: "width (xs @ ys) = width xs + width ys"
begin

lemma width_Nil: "width [] = 0"
  using width_append [of "[]" "[]"] by simp

lemma width_prefix: "prefix xs ys \<Longrightarrow> width xs \<le> width ys"
  by (auto simp: prefix_def width_append)

text \<open>A beginning and an end of a text that together are smaller than the text do not overlap.\<close>

lemma ends_do_not_overlap:
  assumes "prefix a s" and "suffix b s" and "width a + width b < width s"
  shows "\<exists>m. s = a @ m @ b"
proof -
  from assms(1) obtain a' where a: "s = a @ a'" by (auto simp: prefix_def)
  from assms(2) obtain b' where b: "s = b' @ b" by (auto simp: suffix_def)
  from a b consider us where "a = b' @ us" | us where "b' = a @ us"
    by (auto simp: append_eq_append_conv2)
  then show ?thesis
  proof cases
    case (1 us)
    then have "width s \<le> width a + width b" by (simp add: b width_append)
    with assms(3) show ?thesis by simp
  next
    case (2 us)
    with b show ?thesis by auto
  qed
qed

end

section \<open>Files as the code sees them\<close>

text \<open>
  What a path gives when it is read: nothing there, a file of that size that cannot be opened or
  whose reads fail, or its contents.
\<close>

datatype file_view = Absent | NoOpen nat | NoRead nat | Readable string

type_synonym file_system = "path \<Rightarrow> file_view"

fun file_size :: "file_view \<Rightarrow> nat option" where
  "file_size Absent = None"
| "file_size (NoOpen n) = Some n"
| "file_size (NoRead n) = Some n"
| "file_size (Readable s) = Some (length s)"

definition file_exists :: "file_system \<Rightarrow> path \<Rightarrow> bool" where
  "file_exists fs p \<longleftrightarrow> fs p \<noteq> Absent"

section \<open>Path components\<close>

text \<open>
  \<open>Path::components\<close> on Unix: repeated separators and \<open>.\<close> components are dropped, except a
  leading \<open>.\<close>; \<open>==\<close> on paths compares components, \<open>file_name\<close> is the last one when it is
  an ordinary name.
\<close>

fun split_on :: "char \<Rightarrow> string \<Rightarrow> string list" where
  "split_on d [] = [[]]"
| "split_on d (c # cs) =
    (if c = d then [] # split_on d cs
     else (case split_on d cs of [] \<Rightarrow> [[c]] | p # ps \<Rightarrow> (c # p) # ps))"

definition path_components :: "path \<Rightarrow> string list" where
  "path_components p =
    (let parts = split_on (CHR ''/'') p;
         names = filter (\<lambda>c. c \<noteq> [] \<and> c \<noteq> ''.'') parts
     in if prefix ''/'' p then ''/'' # names
        else if hd parts = ''.'' then ''.'' # names
        else names)"

definition path_eq :: "path \<Rightarrow> path \<Rightarrow> bool" where
  "path_eq a b \<longleftrightarrow> path_components a = path_components b"

definition path_file_name :: "path \<Rightarrow> string option" where
  "path_file_name p =
    (case rev (path_components p) of
       [] \<Rightarrow> None
     | c # _ \<Rightarrow> if c = ''/'' \<or> c = ''.'' \<or> c = ''..'' then None else Some c)"

definition path_is_absolute :: "path \<Rightarrow> bool" where
  "path_is_absolute p \<longleftrightarrow> prefix ''/'' p"

lemma path_eq_refl [simp]: "path_eq p p"
  by (simp add: path_eq_def)

section \<open>Outcomes of the operating system\<close>

text \<open>An I/O action either succeeds or fails with the message of its error report.\<close>

type_synonym io_result = "string option"

abbreviation (input) io_ok :: io_result where "io_ok \<equiv> None"

end
