(* ===== verification/Phase_Order.thy ===== *)
theory Phase_Order
  imports GW_Prelude
begin

text \<open>
  The canonical order of the 41 arc phases, their 13 checkpoint groups, and the monitoring
  category and profile of each phase (\<open>checkpoint/phase_order.rs\<close>, \<open>engine/phase_profile.rs\<close>).
\<close>

section \<open>The phase table\<close>

definition PHASE_ORDER :: "string list" where
  "PHASE_ORDER =
    [''forge'', ''forge_qa'',
     ''plan_review'', ''plan_refine'',
     ''verification'', ''semantic_verification'',
     ''design_extraction'', ''design_prototype'',
     ''task_decomposition'', ''work'', ''work_qa'', ''drift_review'',
     ''storybook_verification'', ''design_verification'', ''design_verification_qa'', ''ux_verification'',
     ''gap_analysis'', ''gap_analysis_qa'', ''codex_gap_analysis'', ''gap_remediation'',
     ''inspect'', ''inspect_fix'', ''verify_inspect'', ''goldmask_verification'',
     ''code_review'', ''code_review_qa'', ''goldmask_correlation'',
     ''mend'', ''mend_qa'', ''verify_mend'', ''design_iteration'',
     ''test'', ''test_qa'', ''test_coverage_critique'',
     ''deploy_verify'', ''pre_ship_validation'', ''release_quality_check'',
     ''ship'', ''bot_review_wait'', ''pr_comment_resolution'', ''merge'']"

definition PHASE_COUNT :: nat where
  "PHASE_COUNT = length PHASE_ORDER"

definition PHASE_GROUPS :: "(nat \<times> nat \<times> string) list" where
  "PHASE_GROUPS =
    [(0, 2, ''forge''), (2, 4, ''plan_review''), (4, 6, ''verification''), (6, 8, ''design''),
     (8, 12, ''work''), (12, 16, ''design_verify''), (16, 20, ''gap_analysis''),
     (20, 24, ''inspect''), (24, 27, ''code_review''), (27, 31, ''mend''), (31, 34, ''test''),
     (34, 37, ''deploy''), (37, 41, ''ship'')]"

definition phase_index :: "string \<Rightarrow> nat option" where
  "phase_index phase_name = position_of (\<lambda>p. p = phase_name) PHASE_ORDER"

definition phase_at :: "nat \<Rightarrow> string option" where
  "phase_at index = (if index < length PHASE_ORDER then Some (PHASE_ORDER ! index) else None)"

definition group_for_phase :: "string \<Rightarrow> string option" where
  "group_for_phase phase_name =
    (case phase_index phase_name of
       None \<Rightarrow> None
     | Some idx \<Rightarrow>
         map_option (\<lambda>(_, _, name). name)
           (find (\<lambda>(start, stop, _). start \<le> idx \<and> idx < stop) PHASE_GROUPS))"

lemma PHASE_COUNT_eq [simp]: "PHASE_COUNT = 41"
  by (simp add: PHASE_COUNT_def PHASE_ORDER_def)

lemma length_PHASE_ORDER [simp]: "length PHASE_ORDER = 41"
  by (simp add: PHASE_ORDER_def)

lemma distinct_PHASE_ORDER [simp]: "distinct PHASE_ORDER"
  by (simp add: PHASE_ORDER_def)

lemma phase_index_iff: "phase_index p = Some i \<longleftrightarrow> i < 41 \<and> PHASE_ORDER ! i = p"
  by (simp add: phase_index_def position_eq_distinct)

lemma phase_index_less: "phase_index p = Some i \<Longrightarrow> i < 41"
  by (simp add: phase_index_iff)

lemma phase_index_None: "phase_index p = None \<longleftrightarrow> p \<notin> set PHASE_ORDER"
  by (auto simp: phase_index_def)

text \<open>
  The two lookups of the phase table are inverse to each other on its 41 entries:
  \<open>phase_index\<close> returns exactly the index at which \<open>phase_at\<close> returns the phase.
\<close>
theorem phase_index_phase_at: "phase_index p = Some i \<longleftrightarrow> phase_at i = Some p"
  by (auto simp: phase_index_iff phase_at_def)


section \<open>Groups\<close>

text \<open>The group table is a partition: consecutive ranges from 0 to 41.\<close>

fun consecutive :: "nat \<Rightarrow> (nat \<times> nat \<times> string) list \<Rightarrow> nat \<Rightarrow> bool" where
  "consecutive lo [] hi = (lo = hi)"
| "consecutive lo ((start, stop, _) # gs) hi =
     (start = lo \<and> start < stop \<and> consecutive stop gs hi)"

lemma consecutive_start_le: "consecutive lo gs hi \<Longrightarrow> lo \<le> hi"
  by (induction lo gs hi rule: consecutive.induct) auto

lemma consecutive_bounds:
  "consecutive lo gs hi \<Longrightarrow> (start, stop, name) \<in> set gs \<Longrightarrow> lo \<le> start \<and> stop \<le> hi"
  by (induction lo gs hi rule: consecutive.induct) (auto dest: consecutive_start_le)

lemma consecutive_find:
  "consecutive lo gs hi \<Longrightarrow> lo \<le> idx \<Longrightarrow> idx < hi \<Longrightarrow>
    \<exists>start stop name. find (\<lambda>(start, stop, _). start \<le> idx \<and> idx < stop) gs = Some (start, stop, name)"
  by (induction lo gs hi rule: consecutive.induct) auto

lemma PHASE_GROUPS_consecutive: "consecutive 0 PHASE_GROUPS 41"
  by (simp add: PHASE_GROUPS_def)

lemma group_for_phase_Some_iff_known: "(\<exists>g. group_for_phase p = Some g) \<longleftrightarrow> p \<in> set PHASE_ORDER"
proof (cases "phase_index p")
  case None
  then have "p \<notin> set PHASE_ORDER" by (simp add: phase_index_None)
  with None show ?thesis by (simp add: group_for_phase_def)
next
  case (Some idx)
  then have "p \<in> set PHASE_ORDER"
    by (metis phase_index_None option.distinct(1))
  moreover from consecutive_find [OF PHASE_GROUPS_consecutive, of idx] phase_index_less [OF Some]
  obtain start stop name
    where "find (\<lambda>(start, stop, _). start \<le> idx \<and> idx < stop) PHASE_GROUPS = Some (start, stop, name)"
    by auto
  ultimately show ?thesis using Some by (simp add: group_for_phase_def)
qed

section \<open>Categories and profiles (\<open>engine/phase_profile.rs\<close>)\<close>

definition GRACE_BUFFER_SECS :: nat where
  "GRACE_BUFFER_SECS = 5 * 60"

datatype RecoveryStrategy = FreshStart | Resume | ResumeCheckPR

datatype PhaseCategory = Planning | Work | Quality | Remediation | Testing | Deploy | Ship

record PhaseProfile =
  pp_category :: PhaseCategory
  pp_idle_nudge_secs :: nat
  pp_idle_kill_secs :: nat
  pp_phase_timeout_secs :: nat
  pp_has_agent_teams :: bool
  pp_recovery :: RecoveryStrategy
  pp_typical_duration_min :: "nat \<times> nat"
  pp_description :: string

fun category_profile :: "PhaseCategory \<Rightarrow> PhaseProfile" where
  "category_profile Planning =
     \<lparr>pp_category = Planning, pp_idle_nudge_secs = 180, pp_idle_kill_secs = 600,
      pp_phase_timeout_secs = 15 * 60 + GRACE_BUFFER_SECS, pp_has_agent_teams = False,
      pp_recovery = Resume, pp_typical_duration_min = (5, 15), pp_description = ''Planning & forge''\<rparr>"
| "category_profile Work =
     \<lparr>pp_category = Work, pp_idle_nudge_secs = 600, pp_idle_kill_secs = 3600,
      pp_phase_timeout_secs = 90 * 60 + GRACE_BUFFER_SECS, pp_has_agent_teams = True,
      pp_recovery = Resume, pp_typical_duration_min = (30, 90), pp_description = ''Work execution (swarm)''\<rparr>"
| "category_profile Quality =
     \<lparr>pp_category = Quality, pp_idle_nudge_secs = 300, pp_idle_kill_secs = 1800,
      pp_phase_timeout_secs = 30 * 60 + GRACE_BUFFER_SECS, pp_has_agent_teams = True,
      pp_recovery = Resume, pp_typical_duration_min = (10, 20),
      pp_description = ''Quality analysis (agent teams)''\<rparr>"
| "category_profile Remediation =
     \<lparr>pp_category = Remediation, pp_idle_nudge_secs = 300, pp_idle_kill_secs = 1800,
      pp_phase_timeout_secs = 20 * 60 + GRACE_BUFFER_SECS, pp_has_agent_teams = True,
      pp_recovery = Resume, pp_typical_duration_min = (5, 15),
      pp_description = ''Remediation (mend-fixers)''\<rparr>"
| "category_profile Testing =
     \<lparr>pp_category = Testing, pp_idle_nudge_secs = 300, pp_idle_kill_secs = 1800,
      pp_phase_timeout_secs = 30 * 60 + GRACE_BUFFER_SECS, pp_has_agent_teams = False,
      pp_recovery = Resume, pp_typical_duration_min = (10, 30), pp_description = ''Testing''\<rparr>"
| "category_profile Deploy =
     \<lparr>pp_category = Deploy, pp_idle_nudge_secs = 120, pp_idle_kill_secs = 600,
      pp_phase_timeout_secs = 10 * 60 + GRACE_BUFFER_SECS, pp_has_agent_teams = False,
      pp_recovery = Resume, pp_typical_duration_min = (2, 5), pp_description = ''Deploy verification''\<rparr>"
| "category_profile Ship =
     \<lparr>pp_category = Ship, pp_idle_nudge_secs = 300, pp_idle_kill_secs = 1800,
      pp_phase_timeout_secs = 20 * 60 + GRACE_BUFFER_SECS, pp_has_agent_teams = False,
      pp_recovery = ResumeCheckPR, pp_typical_duration_min = (2, 10), pp_description = ''Ship & merge''\<rparr>"

definition phase_category :: "string \<Rightarrow> PhaseCategory option" where
  "phase_category phase_name =
    (case phase_index phase_name of
       None \<Rightarrow> None
     | Some idx \<Rightarrow>
         if idx \<le> 7 then Some Planning
         else if 8 \<le> idx \<and> idx \<le> 11 then Some Work
         else if 12 \<le> idx \<and> idx \<le> 26 then Some Quality
         else if 27 \<le> idx \<and> idx \<le> 30 then Some Remediation
         else if 31 \<le> idx \<and> idx \<le> 33 then Some Testing
         else if 34 \<le> idx \<and> idx \<le> 36 then Some Deploy
         else if 37 \<le> idx \<and> idx \<le> 40 then Some Ship
         else None)"

definition profile_for_phase :: "string \<Rightarrow> PhaseProfile option" where
  "profile_for_phase phase_name = map_option category_profile (phase_category phase_name)"

definition default_profile :: PhaseProfile where
  "default_profile =
     \<lparr>pp_category = Work, pp_idle_nudge_secs = 300, pp_idle_kill_secs = 1800,
      pp_phase_timeout_secs = 90 * 60 + GRACE_BUFFER_SECS, pp_has_agent_teams = True,
      pp_recovery = Resume, pp_typical_duration_min = (10, 60),
      pp_description = ''Unknown phase (conservative defaults)''\<rparr>"

lemma phase_category_known: "(\<exists>c. phase_category p = Some c) \<longleftrightarrow> p \<in> set PHASE_ORDER"
proof (cases "phase_index p")
  case None
  then have "p \<notin> set PHASE_ORDER" by (simp add: phase_index_None)
  with None show ?thesis by (simp add: phase_category_def)
next
  case (Some idx)
  then have "p \<in> set PHASE_ORDER"
    by (metis phase_index_None option.distinct(1))
  with Some phase_index_less [OF Some] show ?thesis by (simp add: phase_category_def)
qed

lemma profile_nudge_before_kill:
  "profile_for_phase p = Some prof \<Longrightarrow> pp_idle_nudge_secs prof < pp_idle_kill_secs prof"
proof -
  assume "profile_for_phase p = Some prof"
  then obtain c where "prof = category_profile c" by (auto simp: profile_for_phase_def)
  then show ?thesis by (cases c) simp_all
qed

text \<open>The category of each group, read off the two tables: the groups refine the categories.\<close>

definition group_categories :: "(string \<times> PhaseCategory) list" where
  "group_categories =
    [(''forge'', Planning), (''plan_review'', Planning), (''verification'', Planning),
     (''design'', Planning), (''work'', Work), (''design_verify'', Quality),
     (''gap_analysis'', Quality), (''inspect'', Quality), (''code_review'', Quality),
     (''mend'', Remediation), (''test'', Testing), (''deploy'', Deploy), (''ship'', Ship)]"

lemma phase_table_categories:
  assumes "p \<in> set PHASE_ORDER"
  shows "phase_category p = Option.bind (group_for_phase p) (map_of group_categories)"
proof -
  from assms obtain idx where idx: "phase_index p = Some idx"
    by (metis phase_index_None not_None_eq)
  note table = idx phase_category_def group_for_phase_def PHASE_GROUPS_def group_categories_def
  have "idx < 41" by (rule phase_index_less [OF idx])
  then consider "idx < 12" | "12 \<le> idx" "idx < 27" | "27 \<le> idx" "idx < 41" by linarith
  then show ?thesis
  proof cases
    case 1
    then consider "idx < 2" | "2 \<le> idx" "idx < 4" | "4 \<le> idx" "idx < 6" | "6 \<le> idx" "idx < 8"
      | "8 \<le> idx" "idx < 12" by linarith
    then show ?thesis by cases (simp_all add: table)
  next
    case 2
    then consider "12 \<le> idx" "idx < 16" | "16 \<le> idx" "idx < 20" | "20 \<le> idx" "idx < 24"
      | "24 \<le> idx" "idx < 27" by linarith
    then show ?thesis by cases (simp_all add: table)
  next
    case 3
    then consider "27 \<le> idx" "idx < 31" | "31 \<le> idx" "idx < 34" | "34 \<le> idx" "idx < 37"
      | "37 \<le> idx" "idx < 41" by linarith
    then show ?thesis by cases (simp_all add: table)
  qed
qed

text \<open>
  The two groupings of the pipeline agree. The 13 checkpoint groups cover exactly the 41
  phases, a phase has a monitoring category exactly when it has a group, and the category is a
  function of the group (so no checkpoint group straddles two monitoring categories).
\<close>
theorem groups_refine_categories:
  "phase_category p = Option.bind (group_for_phase p) (map_of group_categories)
   \<and> (group_for_phase p = None \<longleftrightarrow> p \<notin> set PHASE_ORDER)
   \<and> (phase_category p = None \<longleftrightarrow> p \<notin> set PHASE_ORDER)"
proof -
  have g: "group_for_phase p = None \<longleftrightarrow> p \<notin> set PHASE_ORDER"
    using group_for_phase_Some_iff_known [of p] by (metis not_None_eq)
  have c: "phase_category p = None \<longleftrightarrow> p \<notin> set PHASE_ORDER"
    using phase_category_known [of p] by (metis not_None_eq)
  have "phase_category p = Option.bind (group_for_phase p) (map_of group_categories)"
  proof (cases "p \<in> set PHASE_ORDER")
    case True
    with phase_table_categories show ?thesis by blast
  next
    case False
    with g c have "group_for_phase p = None" "phase_category p = None" by simp_all
    then show ?thesis by simp
  qed
  with g c show ?thesis by simp
qed

end
