(* ===== verification/Checkpoint.thy ===== *)
theory Checkpoint
  imports Phase_Order
begin

text \<open>
  Arc checkpoints: the schema and the inference of the pipeline position from the phase map
  (\<open>checkpoint/schema.rs\<close>), the edits that hand a pipeline over to a new session and the
  validation before a resume (\<open>checkpoint/reader.rs\<close>), and the writer's construction and
  phase completion (\<open>checkpoint/writer.rs\<close>).

  Opaque JSON values are a type parameter; timestamps are the strings the code keeps, and the
  current time, the file system and the file hash are arguments.
\<close>

section \<open>Schema\<close>

record 'j phase_status =
  ps_status :: string
  ps_artifact :: "string option"
  ps_artifact_hash :: "string option"
  ps_started_at :: "string option"
  ps_completed_at :: "string option"
  ps_team_name :: "string option"
  ps_extra :: "(string, 'j) hash_map"

definition phase_status_new :: "string \<Rightarrow> 'j phase_status" where
  "phase_status_new status =
     \<lparr>ps_status = status, ps_artifact = None, ps_artifact_hash = None, ps_started_at = None,
      ps_completed_at = None, ps_team_name = None, ps_extra = []\<rparr>"

definition phase_status_pending :: "'j phase_status" where
  "phase_status_pending = phase_status_new ''pending''"

definition SCHEMA_VERSION_MIN :: nat where "SCHEMA_VERSION_MIN = 20"

definition SCHEMA_VERSION_MAX :: nat where "SCHEMA_VERSION_MAX = 30"

record 'j checkpoint =
  ck_id :: string
  ck_schema_version :: "nat option"
  ck_plan_file :: string
  ck_config_dir :: string
  ck_owner_pid :: string
  ck_session_id :: string
  ck_phases :: "(string, 'j phase_status) hash_map"
  ck_pr_url :: "string option"
  ck_commits :: "string list"
  ck_started_at :: string
  ck_completed_at :: "string option"
  ck_phase_sequence :: "nat option"
  ck_skip_map :: "(string, string) hash_map option"
  ck_session_nonce :: "string option"
  ck_flags :: "'j option"
  ck_arc_config :: "'j option"
  ck_qa :: "'j option"
  ck_convergence :: "'j option"
  ck_inspect_convergence :: "'j option"
  ck_worktree_meta :: "'j option"
  ck_parent_plan :: "'j option"
  ck_freshness :: "'j option"
  ck_stagnation :: "'j option"
  ck_codex_cascade :: "'j option"
  ck_reactions :: "'j option"
  ck_reaction_state :: "'j option"
  ck_totals :: "'j option"
  ck_phase_skip_log :: "'j list option"
  ck_extra :: "(string, 'j) hash_map"

definition checkpoint_default :: "string \<Rightarrow> 'j checkpoint" where
  "checkpoint_default now =
     \<lparr>ck_id = [], ck_schema_version = Some SCHEMA_VERSION_MAX, ck_plan_file = [], ck_config_dir = [],
      ck_owner_pid = [], ck_session_id = [], ck_phases = [], ck_pr_url = None, ck_commits = [],
      ck_started_at = now, ck_completed_at = None, ck_phase_sequence = Some 0, ck_skip_map = None,
      ck_session_nonce = None, ck_flags = None, ck_arc_config = None, ck_qa = None,
      ck_convergence = None, ck_inspect_convergence = None, ck_worktree_meta = None,
      ck_parent_plan = None, ck_freshness = None, ck_stagnation = None, ck_codex_cascade = None,
      ck_reactions = None, ck_reaction_state = None, ck_totals = None, ck_phase_skip_log = None,
      ck_extra = []\<rparr>"

datatype schema_verdict = Compatible | Newer nat | Older nat | UnknownVersion

definition schema_compat :: "'j checkpoint \<Rightarrow> schema_verdict" where
  "schema_compat c =
    (case ck_schema_version c of
       Some v \<Rightarrow>
         if v < SCHEMA_VERSION_MIN then Older v
         else if v > SCHEMA_VERSION_MAX then Newer v
         else Compatible
     | None \<Rightarrow> UnknownVersion)"

datatype phase_position =
    RunningAt string "string option"
  | Transitioning string "string option" string
  | WaitingToStart string
  | FailedAt string "string option"
  | AllDone
  | UnknownPosition

fun effective_phase :: "phase_position \<Rightarrow> string option" where
  "effective_phase (RunningAt phase _) = Some phase"
| "effective_phase (Transitioning _ _ next_pending) =
     (if next_pending \<noteq> [] then Some next_pending else None)"
| "effective_phase (FailedAt failed_phase _) = Some failed_phase"
| "effective_phase (WaitingToStart first_pending) = Some first_pending"
| "effective_phase AllDone = None"
| "effective_phase UnknownPosition = None"

section \<open>Queries on the phase map\<close>

text \<open>The status string of a phase, if the map has the phase.\<close>

definition status_of :: "'j checkpoint \<Rightarrow> string \<Rightarrow> string option" where
  "status_of c p = map_option ps_status (hm_get (ck_phases c) p)"

definition current_phase :: "'j checkpoint \<Rightarrow> string option" where
  "current_phase c =
    (case ck_phase_sequence c of
       None \<Rightarrow> None
     | Some idx \<Rightarrow>
         (case phase_at idx of
            Some p \<Rightarrow> Some p
          | None \<Rightarrow> if PHASE_COUNT > 0 \<and> idx = PHASE_COUNT then phase_at (PHASE_COUNT - 1) else None))"

definition is_terminal_phase_completed :: "'j checkpoint \<Rightarrow> bool" where
  "is_terminal_phase_completed c =
    (case phase_at (PHASE_COUNT - 1) of
       None \<Rightarrow> False
     | Some name \<Rightarrow> status_of c name = Some ''completed'' \<or> status_of c name = Some ''skipped'')"

definition is_complete :: "'j checkpoint \<Rightarrow> bool" where
  "is_complete c =
    (if ck_completed_at c \<noteq> None then True
     else if is_terminal_phase_completed c then True
     else ck_phases c \<noteq> [] \<and>
       (\<forall>p \<in> set (hm_values (ck_phases c)). ps_status p = ''completed'' \<or> ps_status p = ''skipped''))"

definition is_in_skip_map :: "'j checkpoint \<Rightarrow> string \<Rightarrow> bool" where
  "is_in_skip_map c p =
    (case ck_skip_map c of None \<Rightarrow> False | Some sm \<Rightarrow> hm_get sm p \<noteq> None)"

definition is_phase_done_or_will_skip :: "'j checkpoint \<Rightarrow> string \<Rightarrow> bool" where
  "is_phase_done_or_will_skip c p =
    (if is_in_skip_map c p then True
     else status_of c p = Some ''completed'' \<or> status_of c p = Some ''skipped'')"

definition is_phase_actionable :: "'j checkpoint \<Rightarrow> string \<Rightarrow> bool" where
  "is_phase_actionable c p =
    (if is_in_skip_map c p then False
     else status_of c p = Some ''pending'' \<or> status_of c p = Some [])"

definition next_actionable_phase :: "'j checkpoint \<Rightarrow> string option" where
  "next_actionable_phase c = find (is_phase_actionable c) PHASE_ORDER"

definition next_actionable_phase_after :: "'j checkpoint \<Rightarrow> nat \<Rightarrow> string option" where
  "next_actionable_phase_after c start_idx = find (is_phase_actionable c) (drop start_idx PHASE_ORDER)"

definition count_by_status :: "'j checkpoint \<Rightarrow> string \<Rightarrow> nat" where
  "count_by_status c status = length (filter (\<lambda>p. ps_status p = status) (hm_values (ck_phases c)))"

text \<open>The scan for the last completed phase: every hit overwrites the previous one.\<close>

definition scan_completed ::
  "'j checkpoint \<Rightarrow> string \<Rightarrow> (string \<times> string option) option \<Rightarrow> (string \<times> string option) option" where
  "scan_completed c p acc =
    (case hm_get (ck_phases c) p of
       Some ps \<Rightarrow> if ps_status ps = ''completed'' then Some (p, ps_completed_at ps) else acc
     | None \<Rightarrow> acc)"

definition infer_phase_position :: "'j checkpoint \<Rightarrow> phase_position" where
  "infer_phase_position c =
    (if ck_phases c = [] then UnknownPosition
     else if is_complete c then AllDone
     else
       (case find (\<lambda>p. status_of c p = Some ''in_progress'') PHASE_ORDER of
          Some p \<Rightarrow> RunningAt p (Option.bind (hm_get (ck_phases c) p) ps_started_at)
        | None \<Rightarrow>
       (case find (\<lambda>p. status_of c p = Some ''failed'') PHASE_ORDER of
          Some p \<Rightarrow> FailedAt p (next_actionable_phase c)
        | None \<Rightarrow>
          let last_completed = fold (scan_completed c) PHASE_ORDER None;
              search_start =
                (case Option.bind last_completed (\<lambda>(name, _). phase_index name) of
                   None \<Rightarrow> 0
                 | Some i \<Rightarrow> i + 1)
          in (case (last_completed, next_actionable_phase_after c search_start) of
                (Some (last_done, completed_at), Some next) \<Rightarrow> Transitioning last_done completed_at next
              | (Some (last_done, _), None) \<Rightarrow>
                  let last_idx = (case phase_index last_done of Some i \<Rightarrow> i | None \<Rightarrow> 0);
                      terminal_idx = PHASE_COUNT - 1
                  in if is_complete c \<or> terminal_idx \<le> last_idx then AllDone
                     else Transitioning last_done (Option.bind (hm_get (ck_phases c) last_done) ps_completed_at) []
              | (None, Some first_actionable) \<Rightarrow> WaitingToStart first_actionable
              | (None, None) \<Rightarrow> UnknownPosition))))"

definition inferred_phase_name :: "'j checkpoint \<Rightarrow> string option" where
  "inferred_phase_name c = effective_phase (infer_phase_position c)"

definition effective_phase_sequence :: "'j checkpoint \<Rightarrow> nat option" where
  "effective_phase_sequence c =
    (case Option.bind (inferred_phase_name c) phase_index of
       Some idx \<Rightarrow> Some idx
     | None \<Rightarrow> ck_phase_sequence c)"

definition is_near_completion :: "'j checkpoint \<Rightarrow> bool" where
  "is_near_completion c =
    (if ck_completed_at c \<noteq> None then True
     else if (case phase_at (PHASE_COUNT - 1) of
                None \<Rightarrow> False
              | Some terminal \<Rightarrow> status_of c terminal = Some ''completed'') then True
     else if ck_phases c \<noteq> [] \<and>
       (\<forall>p \<in> set (hm_values (ck_phases c)).
          ps_status p = ''completed'' \<or> ps_status p = ''skipped'' \<or> ps_status p = ''cancelled'')
     then True
     else
       (case phase_index ''ship'' of
          None \<Rightarrow> False
        | Some ship_idx \<Rightarrow>
            (case Option.bind (inferred_phase_name c) phase_index of
               None \<Rightarrow> False
             | Some idx \<Rightarrow> ship_idx \<le> idx)))"


section \<open>What the inference returns\<close>

lemma phase_at_terminal [simp]: "phase_at 40 = Some ''merge''"
  by (simp add: phase_at_def PHASE_ORDER_def)

lemma phase_index_ship [simp]: "phase_index ''ship'' = Some 37"
  by (simp add: phase_index_def PHASE_ORDER_def)

lemma phase_index_merge [simp]: "phase_index ''merge'' = Some 40"
  by (simp add: phase_index_def PHASE_ORDER_def)

lemma phase_index_in_order: "p \<in> set PHASE_ORDER \<Longrightarrow> \<exists>i. phase_index p = Some i"
  by (metis phase_index_None not_None_eq)

lemma status_of_Some: "status_of c p = Some s \<longleftrightarrow> (\<exists>ps. hm_get (ck_phases c) p = Some ps \<and> ps_status ps = s)"
  by (auto simp: status_of_def)

lemma scan_completed_fold:
  "fold (scan_completed c) ps acc =
    (case find (\<lambda>p. status_of c p = Some ''completed'') (rev ps) of
       Some p \<Rightarrow> Some (p, Option.bind (hm_get (ck_phases c) p) ps_completed_at)
     | None \<Rightarrow> acc)"
proof (induction ps rule: rev_induct)
  case Nil
  show ?case by simp
next
  case (snoc p ps)
  then show ?case
    by (auto simp: scan_completed_def status_of_def split: option.split)
qed

lemma last_completedD:
  assumes "fold (scan_completed c) PHASE_ORDER None = Some (p, t)"
  shows "status_of c p = Some ''completed''" and "p \<in> set PHASE_ORDER"
    and "t = Option.bind (hm_get (ck_phases c) p) ps_completed_at"
  using assms by (auto simp: scan_completed_fold split: option.splits dest: find_SomeD)

lemma find_order_in: "find P PHASE_ORDER = Some p \<Longrightarrow> p \<in> set PHASE_ORDER \<and> P p"
  by (rule find_SomeD)

lemma find_drop_in: "find P (drop n PHASE_ORDER) = Some p \<Longrightarrow> p \<in> set PHASE_ORDER \<and> P p"
  by (auto dest: find_SomeD in_set_dropD)

lemma merge_completed_is_complete: "status_of c ''merge'' = Some ''completed'' \<Longrightarrow> is_complete c"
  by (simp add: is_complete_def is_terminal_phase_completed_def)

text \<open>
  The branch that returns \<open>AllDone\<close> after the scans is never the one taken: a last completed
  phase at the terminal index is \<open>merge\<close>, and then the first test already returned.
\<close>

lemma last_completed_before_terminal:
  assumes "fold (scan_completed c) PHASE_ORDER None = Some (p, t)" and "\<not> is_complete c"
    and "phase_index p = Some i"
  shows "i < 40"
proof (rule ccontr)
  assume "\<not> i < 40"
  with assms(3) have "i = 40" by (auto dest: phase_index_less)
  with assms(3) have "p = ''merge''" by (auto simp: phase_index_iff PHASE_ORDER_def)
  with last_completedD(1) [OF assms(1)] merge_completed_is_complete assms(2) show False by blast
qed

lemma infer_tail_not_AllDone:
  assumes "ck_phases c \<noteq> []" "\<not> is_complete c"
  shows "infer_phase_position c \<noteq> AllDone"
proof (cases "fold (scan_completed c) PHASE_ORDER None")
  case None
  with assms show ?thesis
    by (auto simp: infer_phase_position_def Let_def split: option.splits)
next
  case (Some pt)
  obtain p t where pt: "pt = (p, t)" by (cases pt)
  from Some pt have sc: "fold (scan_completed c) PHASE_ORDER None = Some (p, t)" by simp
  from last_completedD(2) [OF sc] obtain i where i: "phase_index p = Some i"
    by (blast dest: phase_index_in_order)
  with last_completed_before_terminal [OF sc assms(2) i] assms sc show ?thesis
    by (auto simp: infer_phase_position_def Let_def split: option.splits)
qed

text \<open>
  The inference says \<open>AllDone\<close> exactly for a non-empty phase map that \<open>is_complete\<close>
  accepts; the later "last completed phase is the terminal one" branch adds nothing.
\<close>
theorem infer_AllDone_iff:
  "infer_phase_position c = AllDone \<longleftrightarrow> ck_phases c \<noteq> [] \<and> is_complete c"
  using infer_tail_not_AllDone [of c] by (auto simp: infer_phase_position_def)


section \<open>The position as a specification\<close>

text \<open>First and last phase of the canonical order with a property, by index.\<close>

definition first_in :: "nat \<Rightarrow> (string \<Rightarrow> bool) \<Rightarrow> string \<Rightarrow> bool" where
  "first_in n P p \<longleftrightarrow>
    (\<exists>i. phase_index p = Some i \<and> n \<le> i \<and> P p \<and> (\<forall>j. n \<le> j \<and> j < i \<longrightarrow> \<not> P (PHASE_ORDER ! j)))"

definition last_in :: "(string \<Rightarrow> bool) \<Rightarrow> string \<Rightarrow> bool" where
  "last_in P p \<longleftrightarrow>
    (\<exists>i. phase_index p = Some i \<and> P p \<and> (\<forall>j. i < j \<and> j < PHASE_COUNT \<longrightarrow> \<not> P (PHASE_ORDER ! j)))"

definition none_in :: "nat \<Rightarrow> (string \<Rightarrow> bool) \<Rightarrow> bool" where
  "none_in n P \<longleftrightarrow> (\<forall>j. n \<le> j \<and> j < PHASE_COUNT \<longrightarrow> \<not> P (PHASE_ORDER ! j))"

lemma find_drop_iff: "find P (drop n PHASE_ORDER) = Some p \<longleftrightarrow> first_in n P p"
proof
  assume "find P (drop n PHASE_ORDER) = Some p"
  then obtain k where k: "k < 41 - n" "P (PHASE_ORDER ! (n + k))" "p = PHASE_ORDER ! (n + k)"
    and before: "\<forall>j < k. \<not> P (PHASE_ORDER ! (n + j))"
    by (auto simp: find_Some_iff)
  have "\<not> P (PHASE_ORDER ! j)" if "n \<le> j" "j < n + k" for j
    using before [rule_format, of "j - n"] that by simp
  with k show "first_in n P p"
    by (auto simp: first_in_def phase_index_iff intro!: exI [of _ "n + k"])
next
  assume "first_in n P p"
  then obtain i where "i < 41" "PHASE_ORDER ! i = p" "n \<le> i" "P p"
      "\<forall>j. n \<le> j \<and> j < i \<longrightarrow> \<not> P (PHASE_ORDER ! j)"
    by (auto simp: first_in_def phase_index_iff)
  then show "find P (drop n PHASE_ORDER) = Some p"
    by (auto simp: find_Some_iff intro!: exI [of _ "i - n"])
qed

lemma find_order_iff: "find P PHASE_ORDER = Some p \<longleftrightarrow> first_in 0 P p"
  using find_drop_iff [of P 0 p] by simp

lemma find_rev_iff: "find P (rev PHASE_ORDER) = Some p \<longleftrightarrow> last_in P p"
proof
  assume "find P (rev PHASE_ORDER) = Some p"
  then obtain k where k: "k < 41" "P (PHASE_ORDER ! (40 - k))" "p = PHASE_ORDER ! (40 - k)"
    and before: "\<forall>j < k. \<not> P (rev PHASE_ORDER ! j)"
    by (auto simp: find_Some_iff rev_nth)
  have "\<not> P (PHASE_ORDER ! j)" if "40 - k < j" "j < 41" for j
    using before [rule_format, of "40 - j"] that by (simp add: rev_nth)
  with k show "last_in P p"
    by (auto simp: last_in_def phase_index_iff intro!: exI [of _ "40 - k"])
next
  assume "last_in P p"
  then obtain i where i: "i < 41" "PHASE_ORDER ! i = p" "P p"
      and after: "\<forall>j. i < j \<and> j < 41 \<longrightarrow> \<not> P (PHASE_ORDER ! j)"
    by (auto simp: last_in_def phase_index_iff)
  have "\<not> P (rev PHASE_ORDER ! j)" if "j < 40 - i" for j
  proof -
    from that have "i < 40 - j \<and> 40 - j < 41" by linarith
    with after that show ?thesis by (simp add: rev_nth)
  qed
  with i show "find P (rev PHASE_ORDER) = Some p"
    by (auto simp: find_Some_iff rev_nth intro!: exI [of _ "40 - i"])
qed

lemma all_order_iff: "(\<forall>p \<in> set PHASE_ORDER. Q p) \<longleftrightarrow> (\<forall>j < 41. Q (PHASE_ORDER ! j))"
  using all_set_conv_all_nth [of PHASE_ORDER Q] by simp

lemma find_order_None: "find P PHASE_ORDER = None \<longleftrightarrow> none_in 0 P"
  by (simp add: find_None_iff_all all_order_iff none_in_def)

lemma find_rev_None: "find P (rev PHASE_ORDER) = None \<longleftrightarrow> none_in 0 P"
  by (simp add: find_None_iff_all all_order_iff none_in_def)

lemma find_drop_None: "find P (drop n PHASE_ORDER) = None \<longleftrightarrow> none_in n P"
proof -
  have "(\<forall>p \<in> set (drop n PHASE_ORDER). \<not> P p) \<longleftrightarrow> (\<forall>k < 41 - n. \<not> P (PHASE_ORDER ! (n + k)))"
    using all_set_conv_all_nth [of "drop n PHASE_ORDER" "\<lambda>p. \<not> P p"] by auto
  also have "\<dots> \<longleftrightarrow> none_in n P"
    by (auto simp: none_in_def) (metis add_diff_cancel_left' diff_less_mono le_Suc_ex)
  finally show ?thesis by (simp add: find_None_iff_all)
qed

lemma first_in_unique: "first_in n P p \<Longrightarrow> first_in n P q \<Longrightarrow> p = q"
  by (metis find_drop_iff option.inject)

lemma last_in_unique: "last_in P p \<Longrightarrow> last_in P q \<Longrightarrow> p = q"
  by (metis find_rev_iff option.inject)

lemma first_in_not_none: "first_in n P p \<Longrightarrow> \<not> none_in n P"
  by (metis find_drop_iff find_drop_None option.distinct(1))

lemma last_in_not_none: "last_in P p \<Longrightarrow> \<not> none_in 0 P"
  by (metis find_rev_iff find_rev_None option.distinct(1))

text \<open>
  What each position claims about the checkpoint, by indices into the canonical order and
  without any scan.
\<close>

definition has_status :: "'j checkpoint \<Rightarrow> string \<Rightarrow> string \<Rightarrow> bool" where
  "has_status c st p \<longleftrightarrow> status_of c p = Some st"

abbreviation "running c \<equiv> has_status c ''in_progress''"
abbreviation "failed c \<equiv> has_status c ''failed''"
abbreviation "done_phase c \<equiv> has_status c ''completed''"

definition in_flight :: "'j checkpoint \<Rightarrow> bool" where
  "in_flight c \<longleftrightarrow> ck_phases c \<noteq> [] \<and> \<not> is_complete c"

definition quiet :: "'j checkpoint \<Rightarrow> bool" where
  "quiet c \<longleftrightarrow> in_flight c \<and> none_in 0 (running c) \<and> none_in 0 (failed c)"

definition index_after :: "string \<Rightarrow> nat" where
  "index_after p = (case phase_index p of None \<Rightarrow> 0 | Some i \<Rightarrow> i + 1)"

fun position_spec :: "'j checkpoint \<Rightarrow> phase_position \<Rightarrow> bool" where
  "position_spec c (RunningAt p ts) \<longleftrightarrow>
     in_flight c \<and> first_in 0 (running c) p \<and> ts = Option.bind (hm_get (ck_phases c) p) ps_started_at"
| "position_spec c (FailedAt p next) \<longleftrightarrow>
     in_flight c \<and> none_in 0 (running c) \<and> first_in 0 (failed c) p \<and>
     (case next of
        None \<Rightarrow> none_in 0 (is_phase_actionable c)
      | Some q \<Rightarrow> first_in 0 (is_phase_actionable c) q)"
| "position_spec c (Transitioning l t q) \<longleftrightarrow>
     quiet c \<and> last_in (done_phase c) l \<and> t = Option.bind (hm_get (ck_phases c) l) ps_completed_at \<and>
     (if q = [] then none_in (index_after l) (is_phase_actionable c)
      else first_in (index_after l) (is_phase_actionable c) q)"
| "position_spec c (WaitingToStart q) \<longleftrightarrow>
     quiet c \<and> none_in 0 (done_phase c) \<and> first_in 0 (is_phase_actionable c) q"
| "position_spec c AllDone \<longleftrightarrow> ck_phases c \<noteq> [] \<and> is_complete c"
| "position_spec c UnknownPosition \<longleftrightarrow>
     ck_phases c = [] \<or>
     quiet c \<and> none_in 0 (done_phase c) \<and> none_in 0 (is_phase_actionable c)"

lemma has_status_eta: "(\<lambda>p. status_of c p = Some st) = has_status c st"
  by (rule ext) (simp add: has_status_def)

lemma last_completed_eq:
  "fold (scan_completed c) PHASE_ORDER None =
    (case find (done_phase c) (rev PHASE_ORDER) of
       Some p \<Rightarrow> Some (p, Option.bind (hm_get (ck_phases c) p) ps_completed_at)
     | None \<Rightarrow> None)"
  by (simp add: scan_completed_fold has_status_eta)

lemma order_nonempty: "[] \<notin> set PHASE_ORDER"
  by (simp add: PHASE_ORDER_def)

lemma first_in_nonempty: "first_in n P p \<Longrightarrow> p \<noteq> []"
proof
  assume "first_in n P p" "p = []"
  then obtain i where "phase_index [] = Some i" by (auto simp: first_in_def)
  then show False using order_nonempty phase_index_None [of "[]"] by simp
qed

lemmas scan_iffs = find_order_iff find_rev_iff find_drop_iff find_order_None find_rev_None find_drop_None


text \<open>One equation per outcome of the scans.\<close>

lemma infer_running:
  "in_flight c \<Longrightarrow> find (running c) PHASE_ORDER = Some p \<Longrightarrow>
    infer_phase_position c = RunningAt p (Option.bind (hm_get (ck_phases c) p) ps_started_at)"
  by (simp add: infer_phase_position_def in_flight_def has_status_eta)

lemma infer_failed:
  "in_flight c \<Longrightarrow> find (running c) PHASE_ORDER = None \<Longrightarrow> find (failed c) PHASE_ORDER = Some p \<Longrightarrow>
    infer_phase_position c = FailedAt p (next_actionable_phase c)"
  by (simp add: infer_phase_position_def in_flight_def has_status_eta)

lemma infer_not_started:
  "in_flight c \<Longrightarrow> find (running c) PHASE_ORDER = None \<Longrightarrow> find (failed c) PHASE_ORDER = None \<Longrightarrow>
    find (done_phase c) (rev PHASE_ORDER) = None \<Longrightarrow>
    infer_phase_position c =
      (case find (is_phase_actionable c) (drop 0 PHASE_ORDER) of
         Some q \<Rightarrow> WaitingToStart q | None \<Rightarrow> UnknownPosition)"
  by (simp add: infer_phase_position_def in_flight_def has_status_eta last_completed_eq
      next_actionable_phase_after_def split: option.split)

lemma infer_between:
  assumes "in_flight c" "find (running c) PHASE_ORDER = None" "find (failed c) PHASE_ORDER = None"
    and l: "find (done_phase c) (rev PHASE_ORDER) = Some l"
  shows "infer_phase_position c =
      Transitioning l (Option.bind (hm_get (ck_phases c) l) ps_completed_at)
        (case find (is_phase_actionable c) (drop (index_after l) PHASE_ORDER) of
           Some q \<Rightarrow> q | None \<Rightarrow> [])"
proof -
  have lc: "fold (scan_completed c) PHASE_ORDER None
      = Some (l, Option.bind (hm_get (ck_phases c) l) ps_completed_at)"
    by (simp add: last_completed_eq l)
  from last_completedD(2) [OF lc] obtain i where i: "phase_index l = Some i"
    by (blast dest: phase_index_in_order)
  have "i < 40" using last_completed_before_terminal [OF lc _ i] assms(1) by (simp add: in_flight_def)
  with assms i lc show ?thesis
    by (simp add: infer_phase_position_def in_flight_def has_status_eta index_after_def
        next_actionable_phase_after_def split: option.split)
qed

lemma next_spec:
  "case find P (drop n PHASE_ORDER) of None \<Rightarrow> none_in n P | Some q \<Rightarrow> q \<noteq> [] \<and> first_in n P q"
  by (auto simp: find_drop_None find_drop_iff dest: first_in_nonempty split: option.split)

lemma infer_satisfies_spec: "position_spec c (infer_phase_position c)"
proof (cases "in_flight c")
  case False
  then show ?thesis by (auto simp: in_flight_def infer_phase_position_def)
next
  case fl: True
  show ?thesis
  proof (cases "find (running c) PHASE_ORDER")
    case (Some p)
    from infer_running [OF fl Some] Some fl show ?thesis by (simp add: find_order_iff)
  next
    case nr: None
    show ?thesis
    proof (cases "find (failed c) PHASE_ORDER")
      case (Some p)
      from infer_failed [OF fl nr Some] Some fl nr next_spec [where P = "is_phase_actionable c" and n = 0]
      show ?thesis
        by (simp add: find_order_iff find_order_None next_actionable_phase_def split: option.splits)
    next
      case nf: None
      with fl nr have q: "quiet c" by (simp add: quiet_def find_order_None)
      show ?thesis
      proof (cases "find (done_phase c) (rev PHASE_ORDER)")
        case None
        from infer_not_started [OF fl nr nf None] q None next_spec [where P = "is_phase_actionable c" and n = 0]
        show ?thesis by (auto simp: find_rev_None split: option.splits)
      next
        case (Some l)
        from infer_between [OF fl nr nf Some] q Some next_spec [where P = "is_phase_actionable c" and n = "index_after l"]
        show ?thesis by (auto simp: find_rev_iff split: option.splits)
      qed
    qed
  qed
qed

lemma position_spec_determines:
  assumes "position_spec c pos"
  shows "infer_phase_position c = pos"
proof (cases pos)
  case (RunningAt p ts)
  with assms show ?thesis using infer_running [of c p] by (simp add: find_order_iff)
next
  case (FailedAt p nxt)
  with assms show ?thesis using infer_failed [of c p]
    by (simp add: find_order_iff find_order_None next_actionable_phase_def split: option.splits)
next
  case (Transitioning l t q)
  with assms have fl: "in_flight c" and nr: "find (running c) PHASE_ORDER = None"
    and nf: "find (failed c) PHASE_ORDER = None" and l: "find (done_phase c) (rev PHASE_ORDER) = Some l"
    by (simp_all add: quiet_def find_order_None find_rev_iff)
  from Transitioning assms
  have "find (is_phase_actionable c) (drop (index_after l) PHASE_ORDER) = (if q = [] then None else Some q)"
    by (auto simp: find_drop_None find_drop_iff)
  with infer_between [OF fl nr nf l] Transitioning assms show ?thesis by simp
next
  case (WaitingToStart q)
  with assms have fl: "in_flight c" and nr: "find (running c) PHASE_ORDER = None"
    and nf: "find (failed c) PHASE_ORDER = None" and nd: "find (done_phase c) (rev PHASE_ORDER) = None"
    by (simp_all add: quiet_def find_order_None find_rev_None)
  from WaitingToStart assms have "find (is_phase_actionable c) (drop 0 PHASE_ORDER) = Some q"
    by (simp only: find_drop_iff position_spec.simps)
  with infer_not_started [OF fl nr nf nd] WaitingToStart show ?thesis by simp
next
  case AllDone
  with assms show ?thesis by (simp add: infer_phase_position_def)
next
  case UnknownPosition
  show ?thesis
  proof (cases "ck_phases c = []")
    case True
    with UnknownPosition show ?thesis by (simp add: infer_phase_position_def)
  next
    case False
    with UnknownPosition assms have fl: "in_flight c" and nr: "find (running c) PHASE_ORDER = None"
      and nf: "find (failed c) PHASE_ORDER = None" and nd: "find (done_phase c) (rev PHASE_ORDER) = None"
      by (simp_all add: quiet_def find_order_None find_rev_None)
    from UnknownPosition assms False have "find (is_phase_actionable c) (drop 0 PHASE_ORDER) = None"
      by (simp only: find_drop_None position_spec.simps) simp
    with infer_not_started [OF fl nr nf nd] UnknownPosition show ?thesis by simp
  qed
qed

text \<open>
  C3: functional correctness of the position inference. The scan of \<open>infer_phase_position\<close>
  returns exactly the position that the index specification describes: the first running phase
  of a pipeline in flight; else the first failed one; else the last completed phase together with
  the first actionable phase behind it; and the specification determines the position.
\<close>
theorem infer_phase_position_correct: "infer_phase_position c = pos \<longleftrightarrow> position_spec c pos"
  using infer_satisfies_spec position_spec_determines by blast


section \<open>The completion gate\<close>

lemma effective_phase_in_order:
  "inferred_phase_name c = Some p \<Longrightarrow> p \<in> set PHASE_ORDER"
proof -
  assume a: "inferred_phase_name c = Some p"
  have known: "q \<in> set PHASE_ORDER" if "first_in n P q" for n P q
    using that phase_index_None [of q] by (auto simp: first_in_def)
  from a infer_satisfies_spec [of c] show ?thesis
    by (cases "infer_phase_position c")
      (auto simp: inferred_phase_name_def dest: known split: if_splits)
qed

definition all_settled :: "'j checkpoint \<Rightarrow> bool" where
  "all_settled c \<longleftrightarrow>
    (\<forall>ps \<in> set (hm_values (ck_phases c)).
       ps_status ps = ''completed'' \<or> ps_status ps = ''skipped'' \<or> ps_status ps = ''cancelled'')"

lemma last_four_phases:
  "(\<exists>i. phase_index p = Some i \<and> 37 \<le> i) \<longleftrightarrow>
     p \<in> {''ship'', ''bot_review_wait'', ''pr_comment_resolution'', ''merge''}"
proof -
  have names: "PHASE_ORDER ! 37 = ''ship''" "PHASE_ORDER ! 38 = ''bot_review_wait''"
      "PHASE_ORDER ! 39 = ''pr_comment_resolution''" "PHASE_ORDER ! 40 = ''merge''"
    by (simp_all add: PHASE_ORDER_def)
  have "37 \<le> i \<and> i < 41 \<longleftrightarrow> i = 37 \<or> i = 38 \<or> i = 39 \<or> i = 40" for i :: nat
    by presburger
  then have "(\<exists>i. phase_index p = Some i \<and> 37 \<le> i) \<longleftrightarrow>
      (\<exists>i. (i = 37 \<or> i = 38 \<or> i = 39 \<or> i = 40) \<and> PHASE_ORDER ! i = p)"
    by (metis phase_index_iff)
  also have "\<dots> \<longleftrightarrow> p \<in> {''ship'', ''bot_review_wait'', ''pr_comment_resolution'', ''merge''}"
    unfolding ex_disj_distrib conj_disj_distribR by (simp only: simp_thms names) blast
  finally show ?thesis .
qed

lemma near_completion_grounds:
  "is_near_completion c \<longleftrightarrow>
     ck_completed_at c \<noteq> None \<or> status_of c ''merge'' = Some ''completed''
     \<or> (ck_phases c \<noteq> [] \<and> all_settled c)
     \<or> (\<exists>p. inferred_phase_name c = Some p \<and>
            p \<in> {''ship'', ''bot_review_wait'', ''pr_comment_resolution'', ''merge''})"
proof -
  have "(case Option.bind (inferred_phase_name c) phase_index of None \<Rightarrow> False | Some idx \<Rightarrow> 37 \<le> idx)
      \<longleftrightarrow> (\<exists>p. inferred_phase_name c = Some p \<and> (\<exists>i. phase_index p = Some i \<and> 37 \<le> i))"
    by (auto split: option.splits bind_splits)
  then show ?thesis unfolding last_four_phases
    by (auto simp: is_near_completion_def all_settled_def)
qed

text \<open>
  The completion gate. A pipeline is taken to be near completion only on one of four
  grounds: an explicit completion time, a \<open>merge\<close> phase that ran to completion, a
  non-empty phase map in which every phase is settled, or an inferred phase among the last four of
  the order. A pre-skipped \<open>merge\<close> (\<open>auto_merge=false\<close>) is not one of them.
\<close>
theorem is_near_completion_iff:
  "is_near_completion c \<longleftrightarrow>
     (\<exists>t. ck_completed_at c = Some t) \<or> status_of c ''merge'' = Some ''completed''
     \<or> (ck_phases c \<noteq> [] \<and> all_settled c)
     \<or> (\<exists>p. inferred_phase_name c = Some p \<and>
            p \<in> {''ship'', ''bot_review_wait'', ''pr_comment_resolution'', ''merge''})"
  using near_completion_grounds [of c] by simp

text \<open>
  A checkpoint whose \<open>merge\<close> phase is skipped counts as complete, and its
  position is \<open>AllDone\<close>, whatever the other phases are; the completion gate still refuses it
  while some phase is unsettled and no completion time is written. (The documentation of
  \<open>is_complete\<close> speaks of a completed \<open>merge\<close> only.)
\<close>
theorem skipped_merge_is_AllDone_but_not_near:
  assumes "status_of c ''merge'' = Some ''skipped''"
    and "ck_completed_at c = None" and "\<not> all_settled c"
  shows "is_complete c \<and> infer_phase_position c = AllDone \<and> \<not> is_near_completion c"
proof -
  from assms(1) have complete: "is_complete c"
    by (simp add: is_complete_def is_terminal_phase_completed_def)
  from assms(1) have "ck_phases c \<noteq> []" by (auto simp: status_of_def)
  with complete have finished: "infer_phase_position c = AllDone"
    by (simp add: infer_phase_position_def)
  with assms have "\<not> is_near_completion c"
    by (simp add: near_completion_grounds inferred_phase_name_def)
  with complete finished show ?thesis by simp
qed

definition auto_merge_off :: "unit checkpoint" where
  "auto_merge_off = (checkpoint_default ''t0'')
     \<lparr>ck_phases := [(''forge'', phase_status_new ''in_progress''), (''merge'', phase_status_new ''skipped'')]\<rparr>"

theorem skipped_merge_witness:
  "is_complete auto_merge_off \<and> infer_phase_position auto_merge_off = AllDone
   \<and> \<not> is_near_completion auto_merge_off"
  by (rule skipped_merge_is_AllDone_but_not_near)
    (simp_all add: auto_merge_off_def checkpoint_default_def status_of_def phase_status_new_def
      all_settled_def)

section \<open>Handing a pipeline over to a new session (\<open>checkpoint/reader.rs\<close>)\<close>

text \<open>
  One iteration of the loop over the phases before the target; \<open>now p\<close> is the time stamp taken
  when phase \<open>p\<close> is marked.
\<close>

definition mark_one :: "(string \<Rightarrow> string) \<Rightarrow> string \<Rightarrow> 'j checkpoint \<Rightarrow> 'j checkpoint" where
  "mark_one now p c =
    (let ps = (case hm_get (ck_phases c) p of Some ps \<Rightarrow> ps | None \<Rightarrow> phase_status_pending);
         ps1 = ps\<lparr>ps_status := (if is_in_skip_map c p then ''skipped'' else ''completed'')\<rparr>;
         ps2 = (if ps_completed_at ps1 = None then ps1\<lparr>ps_completed_at := Some (now p)\<rparr> else ps1)
     in c\<lparr>ck_phases := hm_insert p ps2 (ck_phases c)\<rparr>)"

definition ensure_phase :: "string \<Rightarrow> 'j checkpoint \<Rightarrow> 'j checkpoint" where
  "ensure_phase p c =
    (case hm_get (ck_phases c) p of
       Some _ \<Rightarrow> c
     | None \<Rightarrow> c\<lparr>ck_phases := hm_insert p phase_status_pending (ck_phases c)\<rparr>)"

definition mark_phases_completed_before ::
  "(string \<Rightarrow> string) \<Rightarrow> 'j checkpoint \<Rightarrow> string \<Rightarrow> 'j checkpoint" where
  "mark_phases_completed_before now c target_phase =
    (case phase_index target_phase of
       None \<Rightarrow> c
     | Some target_idx \<Rightarrow>
         (ensure_phase target_phase (fold (mark_one now) (take target_idx PHASE_ORDER) c))
           \<lparr>ck_phase_sequence := Some target_idx\<rparr>)"

lemma mark_one_keeps [gw_keeps]:
  "ck_completed_at (mark_one now p c) = ck_completed_at c"
  "ck_skip_map (mark_one now p c) = ck_skip_map c"
  "is_in_skip_map (mark_one now p c) q = is_in_skip_map c q"
  by (simp_all add: mark_one_def is_in_skip_map_def Let_def)

lemma mark_one_status:
  "status_of (mark_one now p c) q =
    (if q = p then Some (if is_in_skip_map c p then ''skipped'' else ''completed'') else status_of c q)"
  by (simp add: mark_one_def status_of_def Let_def)

lemma mark_one_get_other: "q \<noteq> p \<Longrightarrow> hm_get (ck_phases (mark_one now p c)) q = hm_get (ck_phases c) q"
  by (simp add: mark_one_def Let_def)

lemma mark_one_stamped:
  "\<exists>ps. hm_get (ck_phases (mark_one now p c)) p = Some ps \<and> ps_completed_at ps \<noteq> None"
  by (auto simp: mark_one_def Let_def)

lemma mark_fold_keeps [gw_keeps]:
  "ck_completed_at (fold (mark_one now) ps c) = ck_completed_at c"
  "ck_skip_map (fold (mark_one now) ps c) = ck_skip_map c"
  "is_in_skip_map (fold (mark_one now) ps c) q = is_in_skip_map c q"
  by (induction ps arbitrary: c) (simp_all add: gw_keeps)

lemma mark_fold_status:
  "status_of (fold (mark_one now) ps c) q =
    (if q \<in> set ps then Some (if is_in_skip_map c q then ''skipped'' else ''completed'') else status_of c q)"
  by (induction ps arbitrary: c) (auto simp: mark_one_status gw_keeps)

lemma mark_fold_get_other: "q \<notin> set ps \<Longrightarrow> hm_get (ck_phases (fold (mark_one now) ps c)) q = hm_get (ck_phases c) q"
  by (induction ps arbitrary: c) (simp_all add: mark_one_get_other)

lemma mark_fold_stamped:
  "q \<in> set ps \<Longrightarrow> \<exists>s. hm_get (ck_phases (fold (mark_one now) ps c)) q = Some s \<and> ps_completed_at s \<noteq> None"
proof (induction ps arbitrary: c)
  case Nil
  then show ?case by simp
next
  case (Cons p ps)
  show ?case
  proof (cases "q \<in> set ps")
    case True
    then show ?thesis using Cons.IH by simp
  next
    case False
    with Cons.prems mark_one_stamped [of now p c] show ?thesis
      by (simp add: mark_fold_get_other)
  qed
qed

lemma ensure_phase_keeps [gw_keeps]:
  "ck_completed_at (ensure_phase p c) = ck_completed_at c"
  "ck_skip_map (ensure_phase p c) = ck_skip_map c"
  "is_in_skip_map (ensure_phase p c) q = is_in_skip_map c q"
  by (simp_all add: ensure_phase_def is_in_skip_map_def split: option.split)

lemma ensure_phase_get:
  "hm_get (ck_phases (ensure_phase p c)) q =
    (if q = p \<and> hm_get (ck_phases c) p = None then Some phase_status_pending else hm_get (ck_phases c) q)"
  by (auto simp: ensure_phase_def split: option.split)

text \<open>The phase is in the order, before index \<open>i\<close>.\<close>

definition phase_before :: "nat \<Rightarrow> string \<Rightarrow> bool" where
  "phase_before i q \<longleftrightarrow> (case phase_index q of Some j \<Rightarrow> j < i | None \<Rightarrow> False)"

lemma in_take_order: "i \<le> 41 \<Longrightarrow> q \<in> set (take i PHASE_ORDER) \<longleftrightarrow> phase_before i q"
proof -
  assume i: "i \<le> 41"
  then have "q \<in> set (take i PHASE_ORDER) \<longleftrightarrow> (\<exists>j < i. PHASE_ORDER ! j = q)"
    by (auto simp: in_set_conv_nth)
  also have "\<dots> \<longleftrightarrow> (\<exists>j < i. phase_index q = Some j)"
    using i by (meson less_le_trans phase_index_iff)
  also have "\<dots> \<longleftrightarrow> phase_before i q"
    by (auto simp: phase_before_def split: option.split)
  finally show ?thesis .
qed

lemma phase_before_target: "phase_index t = Some i \<Longrightarrow> \<not> phase_before i t"
  by (simp add: phase_before_def)

lemma handover_status:
  assumes "phase_index t = Some i"
  shows "status_of (mark_phases_completed_before now c t) q =
    (if phase_before i q then Some (if is_in_skip_map c q then ''skipped'' else ''completed'')
     else if q = t \<and> status_of c t = None then Some ''pending''
     else status_of c q)"
proof -
  let ?c = "fold (mark_one now) (take i PHASE_ORDER) c"
  have i: "i \<le> 41" using phase_index_less [OF assms] by simp
  have "status_of (mark_phases_completed_before now c t) q = status_of (ensure_phase t ?c) q"
    using assms by (simp add: mark_phases_completed_before_def status_of_def)
  also have "\<dots> = (if q = t \<and> status_of ?c t = None then Some ''pending'' else status_of ?c q)"
    by (simp add: status_of_def ensure_phase_get phase_status_pending_def phase_status_new_def)
  also have "\<dots> = (if phase_before i q then Some (if is_in_skip_map c q then ''skipped'' else ''completed'')
     else if q = t \<and> status_of c t = None then Some ''pending''
     else status_of c q)"
    using phase_before_target [OF assms] by (auto simp: mark_fold_status in_take_order [OF i])
  finally show ?thesis .
qed

lemma handover_keeps [gw_keeps]:
  "ck_completed_at (mark_phases_completed_before now c t) = ck_completed_at c"
  "is_in_skip_map (mark_phases_completed_before now c t) q = is_in_skip_map c q"
  by (simp_all add: mark_phases_completed_before_def gw_keeps is_in_skip_map_def split: option.split)

lemma handover_get_behind:
  assumes "phase_index t = Some i" "\<not> phase_before i q" "q \<noteq> t"
  shows "hm_get (ck_phases (mark_phases_completed_before now c t)) q = hm_get (ck_phases c) q"
  using assms phase_index_less [OF assms(1)]
  by (simp add: mark_phases_completed_before_def ensure_phase_get mark_fold_get_other in_take_order)

lemma handover_stamped:
  assumes "phase_index t = Some i" "phase_before i q"
  shows "\<exists>ps. hm_get (ck_phases (mark_phases_completed_before now c t)) q = Some ps
    \<and> ps_completed_at ps \<noteq> None"
proof -
  from assms phase_index_less [OF assms(1)] have "q \<in> set (take i PHASE_ORDER)"
    by (simp add: in_take_order)
  moreover from assms have "q \<noteq> t" by (auto simp: phase_before_target)
  ultimately show ?thesis using assms(1) mark_fold_stamped [of q "take i PHASE_ORDER" now c]
    by (simp add: mark_phases_completed_before_def ensure_phase_get)
qed

text \<open>
  The edit that hands a pipeline to a new session, exactly. Every phase before a
  known target ends up completed, or skipped when the skip map has it, and carries a completion
  time; every other phase but a missing target keeps its entry; the sequence number is the
  target's index. An unknown target changes nothing.
\<close>
theorem handover_effect:
  "case phase_index t of
     None \<Rightarrow> mark_phases_completed_before now c t = c
   | Some i \<Rightarrow>
       ck_phase_sequence (mark_phases_completed_before now c t) = Some i
       \<and> (\<forall>q. if phase_before i q then
                status_of (mark_phases_completed_before now c t) q
                  = Some (if is_in_skip_map c q then ''skipped'' else ''completed'')
                \<and> (\<exists>ps. hm_get (ck_phases (mark_phases_completed_before now c t)) q = Some ps
                       \<and> ps_completed_at ps \<noteq> None)
              else q = t \<or>
                hm_get (ck_phases (mark_phases_completed_before now c t)) q = hm_get (ck_phases c) q)"
proof (cases "phase_index t")
  case None
  then show ?thesis by (simp add: mark_phases_completed_before_def)
next
  case (Some i)
  have "ck_phase_sequence (mark_phases_completed_before now c t) = Some i"
    using Some by (simp add: mark_phases_completed_before_def)
  with Some show ?thesis
    using handover_status [OF Some, of now c] handover_stamped [OF Some, where now = now and c = c]
      handover_get_behind [OF Some, where now = now and c = c]
    by simp blast
qed

text \<open>A target at which the new session can start: it will run, and nothing behind it has begun.\<close>

definition fresh_from :: "'j checkpoint \<Rightarrow> string \<Rightarrow> bool" where
  "fresh_from c t \<longleftrightarrow>
    ck_completed_at c = None \<and> \<not> is_in_skip_map c t
    \<and> (status_of c t = None \<or> status_of c t = Some ''pending'')
    \<and> status_of c ''merge'' \<noteq> Some ''skipped''
    \<and> list_all (\<lambda>q. status_of c q \<notin> {Some ''in_progress'', Some ''failed'', Some ''completed''})
        (drop (case phase_index t of Some i \<Rightarrow> i | None \<Rightarrow> 0) PHASE_ORDER)"

lemma fresh_from_behind:
  assumes "fresh_from c t" "phase_index t = Some i" "i \<le> j" "j < 41"
  shows "status_of c (PHASE_ORDER ! j) \<notin> {Some ''in_progress'', Some ''failed'', Some ''completed''}"
proof -
  from assms(1,2) have all: "\<forall>k < 41 - i. status_of c (drop i PHASE_ORDER ! k)
      \<notin> {Some ''in_progress'', Some ''failed'', Some ''completed''}"
    by (simp add: fresh_from_def list_all_length)
  from assms(3,4) have "j - i < 41 - i" "drop i PHASE_ORDER ! (j - i) = PHASE_ORDER ! j"
    by simp_all
  with all show ?thesis by metis
qed

lemma phase_index_nth: "j < 41 \<Longrightarrow> phase_index (PHASE_ORDER ! j) = Some j"
  by (simp add: phase_index_iff)

lemma after_status:
  assumes fresh: "fresh_from c t" and t: "phase_index t = Some i" and j: "j < 41"
  shows "status_of (mark_phases_completed_before now c t) (PHASE_ORDER ! j) =
    (if j < i then Some (if is_in_skip_map c (PHASE_ORDER ! j) then ''skipped'' else ''completed'')
     else if j = i then Some ''pending''
     else status_of c (PHASE_ORDER ! j))"
proof -
  have "PHASE_ORDER ! j = t \<longleftrightarrow> j = i"
    using j t by (auto simp: phase_index_iff nth_eq_iff_index_eq)
  moreover have "status_of c t = None \<or> status_of c t = Some ''pending''"
    using fresh by (simp add: fresh_from_def)
  ultimately show ?thesis
    using handover_status [OF t, of now c "PHASE_ORDER ! j"] j
    by (auto simp: phase_before_def phase_index_nth)
qed

lemma after_in_flight:
  assumes fresh: "fresh_from c t" and t: "phase_index t = Some i"
  shows "in_flight (mark_phases_completed_before now c t)"
proof -
  let ?c = "mark_phases_completed_before now c t"
  from t have i: "i < 41" "PHASE_ORDER ! i = t" by (simp_all add: phase_index_iff)
  with after_status [OF fresh t i(1), of now] have pend: "status_of ?c t = Some ''pending''" by simp
  then obtain ps where ps: "hm_get (ck_phases ?c) t = Some ps" "ps_status ps = ''pending''"
    by (auto simp: status_of_Some)
  from ps(1) have ne: "ck_phases ?c \<noteq> []" by (cases "ck_phases ?c") simp_all
  have "ps \<in> set (hm_values (ck_phases ?c))" by (rule hm_get_in_values [OF ps(1)])
  with ps(2) have open1: "\<not> (\<forall>p \<in> set (hm_values (ck_phases ?c)). ps_status p = ''completed'' \<or> ps_status p = ''skipped'')"
    by fastforce
  have m: "PHASE_ORDER ! 40 = ''merge''" by (simp add: PHASE_ORDER_def)
  have "status_of c (PHASE_ORDER ! 40) \<noteq> Some ''completed''"
    using fresh_from_behind [OF fresh t, of 40] i(1) by simp
  moreover have "status_of c ''merge'' \<noteq> Some ''skipped''"
    using fresh by (simp add: fresh_from_def)
  moreover from i(1) have "\<not> 40 < i" by simp
  ultimately have "status_of ?c ''merge'' \<noteq> Some ''completed''" "status_of ?c ''merge'' \<noteq> Some ''skipped''"
    using after_status [OF fresh t, of 40 now] by (simp_all add: m)
  moreover have "ck_completed_at ?c = None"
    using fresh by (simp add: gw_keeps fresh_from_def)
  ultimately have "\<not> is_complete ?c"
    using open1 by (simp add: is_complete_def is_terminal_phase_completed_def)
  with ne show ?thesis by (simp add: in_flight_def)
qed

lemma after_quiet:
  assumes fresh: "fresh_from c t" and t: "phase_index t = Some i"
  shows "quiet (mark_phases_completed_before now c t)"
proof -
  let ?c = "mark_phases_completed_before now c t"
  have "status_of ?c (PHASE_ORDER ! j) \<notin> {Some ''in_progress'', Some ''failed''}" if "j < 41" for j
    using after_status [OF fresh t that, of now] fresh_from_behind [OF fresh t _ that] by auto
  then show ?thesis
    using after_in_flight [OF fresh t] by (simp add: quiet_def none_in_def has_status_def)
qed

lemma after_done_before:
  assumes fresh: "fresh_from c t" and t: "phase_index t = Some i"
    and "last_in (done_phase (mark_phases_completed_before now c t)) l"
  shows "index_after l \<le> i"
proof -
  from assms(3) obtain k where k: "k < 41" "PHASE_ORDER ! k = l"
      "status_of (mark_phases_completed_before now c t) l = Some ''completed''"
    by (auto simp: last_in_def phase_index_iff has_status_def)
  with after_status [OF fresh t k(1), of now] fresh_from_behind [OF fresh t _ k(1)]
  have "k < i" by (auto split: if_splits)
  with k show ?thesis by (simp add: index_after_def phase_index_nth [of k, unfolded k(2)])
qed

lemma after_next:
  assumes fresh: "fresh_from c t" and t: "phase_index t = Some i" and "n \<le> i"
  shows "first_in n (is_phase_actionable (mark_phases_completed_before now c t)) t"
proof -
  let ?c = "mark_phases_completed_before now c t"
  from t have i: "i < 41" "PHASE_ORDER ! i = t" by (simp_all add: phase_index_iff)
  have "is_phase_actionable ?c t"
    using after_status [OF fresh t i(1), of now] i fresh
    by (simp add: is_phase_actionable_def gw_keeps fresh_from_def)
  moreover have "\<not> is_phase_actionable ?c (PHASE_ORDER ! j)" if "j < i" for j
    using after_status [OF fresh t, of j now] that i by (simp add: is_phase_actionable_def)
  ultimately show ?thesis using t assms(3) by (simp add: first_in_def)
qed


definition before_work :: "unit checkpoint" where
  "before_work = (checkpoint_default ''t0'')
     \<lparr>ck_phases := [(''forge'', phase_status_new ''in_progress''), (''merge'', phase_status_pending)],
      ck_skip_map := Some [(''design_extraction'', ''no design'')]\<rparr>"


section \<open>Reading a checkpoint\<close>

datatype read_error =
    CheckpointNotFound path
  | OpenFailed path
  | ReadFailed path
  | MalformedJson path
  | InvalidSchema path
  | MissingId
  | MissingPlanFile

text \<open>
  \<open>parse_json\<close> is \<open>serde_json::from_str\<close> into a JSON value, \<open>from_value\<close> the derived
  deserializer of the checkpoint.
\<close>

definition read_checkpoint ::
  "(string \<Rightarrow> 'v option) \<Rightarrow> ('v \<Rightarrow> 'j checkpoint option) \<Rightarrow> file_system \<Rightarrow> path \<Rightarrow>
    read_error + 'j checkpoint" where
  "read_checkpoint parse_json from_value fs p =
    (if \<not> file_exists fs p then Inl (CheckpointNotFound p)
     else case fs p of
       Absent \<Rightarrow> Inl (OpenFailed p)
     | NoOpen _ \<Rightarrow> Inl (OpenFailed p)
     | NoRead _ \<Rightarrow> Inl (ReadFailed p)
     | Readable contents \<Rightarrow>
         (case parse_json contents of
            None \<Rightarrow> Inl (MalformedJson p)
          | Some v \<Rightarrow>
              (case from_value v of
                 None \<Rightarrow> Inl (InvalidSchema p)
               | Some c \<Rightarrow>
                   if ck_id c = [] then Inl MissingId
                   else if ck_plan_file c = [] then Inl MissingPlanFile
                   else Inr c)))"

definition try_read_checkpoint ::
  "(string \<Rightarrow> 'v option) \<Rightarrow> ('v \<Rightarrow> 'j checkpoint option) \<Rightarrow> file_system \<Rightarrow> path \<Rightarrow>
    read_error + 'j checkpoint option" where
  "try_read_checkpoint parse_json from_value fs p =
    (if \<not> file_exists fs p then Inr None
     else case read_checkpoint parse_json from_value fs p of
       Inl e \<Rightarrow> Inl e
     | Inr c \<Rightarrow> Inr (Some c))"

section \<open>Artifact validation before a resume\<close>

definition MAX_ARTIFACT_SIZE :: nat where
  "MAX_ARTIFACT_SIZE = 100 * 1024 * 1024"

text \<open>\<open>sha256_hex\<close> is the hash of the \<open>sha2\<close> package; errors are the messages of the report.\<close>

definition compute_file_hash :: "(string \<Rightarrow> string) \<Rightarrow> file_system \<Rightarrow> path \<Rightarrow> string + string" where
  "compute_file_hash sha256_hex fs p =
    (case file_size (fs p) of
       None \<Rightarrow> Inl (''Failed to stat file: '' @ p)
     | Some n \<Rightarrow>
         if n > MAX_ARTIFACT_SIZE then
           Inl (''Artifact too large ('' @ show_nat n @ '' bytes, max '' @ show_nat MAX_ARTIFACT_SIZE
                @ ''): '' @ p)
         else (case fs p of
             Readable s \<Rightarrow> Inr (sha256_hex s)
           | NoRead _ \<Rightarrow> Inl (''Failed to read file: '' @ p)
           | _ \<Rightarrow> Inl (''Failed to open file: '' @ p)))"

definition validate_artifact_hash ::
  "(string \<Rightarrow> string) \<Rightarrow> file_system \<Rightarrow> path \<Rightarrow> string \<Rightarrow> string + bool" where
  "validate_artifact_hash sha256_hex fs p expected =
    (case compute_file_hash sha256_hex fs p of
       Inl e \<Rightarrow> Inl e
     | Inr h \<Rightarrow> Inr (h = expected))"

text \<open>One iteration of the loop over the phases: the failure it pushes, if any.\<close>

definition artifact_failure ::
  "(string \<Rightarrow> string) \<Rightarrow> file_system \<Rightarrow> path \<Rightarrow> string \<times> 'j phase_status \<Rightarrow>
    (string \<times> string \<times> string) option" where
  "artifact_failure sha256_hex fs arc_dir = (\<lambda>(phase_name, ps).
    if ps_status ps \<noteq> ''completed'' then None
    else case ps_artifact ps of
      None \<Rightarrow> None
    | Some artifact \<Rightarrow>
        let artifact_path = path_join arc_dir artifact in
        if \<not> file_exists fs artifact_path then
          Some (phase_name, artifact, ''Artifact file not found'')
        else (case ps_artifact_hash ps of
            None \<Rightarrow> None
          | Some expected \<Rightarrow>
              (case validate_artifact_hash sha256_hex fs artifact_path expected of
                 Inr True \<Rightarrow> None
               | Inr False \<Rightarrow>
                   Some (phase_name, artifact, ''Hash mismatch - artifact may have been modified'')
               | Inl e \<Rightarrow> Some (phase_name, artifact, ''Failed to validate hash: '' @ e))))"

definition validate_all_artifacts ::
  "(string \<Rightarrow> string) \<Rightarrow> file_system \<Rightarrow> 'j checkpoint \<Rightarrow> path \<Rightarrow> (string \<times> string \<times> string) list" where
  "validate_all_artifacts sha256_hex fs c arc_dir =
    List.map_filter (artifact_failure sha256_hex fs arc_dir) (ck_phases c)"

record resume_validation =
  rv_warnings :: "string list"
  rv_errors :: "string list"
  rv_phases_to_reset :: "string list"

definition can_resume :: "resume_validation \<Rightarrow> bool" where
  "can_resume v \<longleftrightarrow> rv_errors v = []"

definition CRITICAL_PHASES :: "string list" where
  "CRITICAL_PHASES = [''work'', ''mend'', ''test'', ''code_review'', ''gap_analysis'']"

definition classify_failure ::
  "string \<times> string \<times> string \<Rightarrow> resume_validation \<Rightarrow> resume_validation" where
  "classify_failure = (\<lambda>(phase_name, artifact_path, issue) v.
    let msg = ''Phase '' @ [CHR 0x27] @ phase_name @ [CHR 0x27] @ '': artifact '' @ [CHR 0x27]
              @ artifact_path @ [CHR 0x27] @ '' '' @ em_dash @ '' '' @ issue
    in if phase_name \<in> set CRITICAL_PHASES
       then v\<lparr>rv_errors := rv_errors v @ [msg],
              rv_phases_to_reset := rv_phases_to_reset v @ [phase_name]\<rparr>
       else v\<lparr>rv_warnings := rv_warnings v @ [msg]\<rparr>)"

definition validate_before_resume ::
  "(string \<Rightarrow> string) \<Rightarrow> file_system \<Rightarrow> 'j checkpoint \<Rightarrow> path \<Rightarrow> resume_validation" where
  "validate_before_resume sha256_hex fs c arc_dir =
    fold classify_failure (validate_all_artifacts sha256_hex fs c arc_dir)
      \<lparr>rv_warnings = [], rv_errors = [], rv_phases_to_reset = []\<rparr>"

lemma classify_one [simp]:
  "rv_phases_to_reset (classify_failure f v)
     = rv_phases_to_reset v @ (if fst f \<in> set CRITICAL_PHASES then [fst f] else [])"
  "rv_errors (classify_failure f v) = [] \<longleftrightarrow> rv_errors v = [] \<and> fst f \<notin> set CRITICAL_PHASES"
  "length (rv_errors (classify_failure f v)) + length (rv_warnings (classify_failure f v))
     = length (rv_errors v) + length (rv_warnings v) + 1"
  by (simp_all add: classify_failure_def Let_def case_prod_beta)

lemma classify_fold_reset:
  "rv_phases_to_reset (fold classify_failure fs v)
     = rv_phases_to_reset v @ filter (\<lambda>p. p \<in> set CRITICAL_PHASES) (map fst fs)"
  by (induction fs arbitrary: v) simp_all

lemma classify_fold_errors:
  "rv_errors (fold classify_failure fs v) = []
     \<longleftrightarrow> rv_errors v = [] \<and> (\<forall>f \<in> set fs. fst f \<notin> set CRITICAL_PHASES)"
  by (induction fs arbitrary: v) auto

lemma classify_fold_total:
  "length (rv_errors (fold classify_failure fs v)) + length (rv_warnings (fold classify_failure fs v))
     = length (rv_errors v) + length (rv_warnings v) + length fs"
  by (induction fs arbitrary: v) simp_all

text \<open>When a completed phase's artifact is not what the checkpoint recorded.\<close>

definition artifact_sound ::
  "(string \<Rightarrow> string) \<Rightarrow> file_system \<Rightarrow> path \<Rightarrow> 'j phase_status \<Rightarrow> bool" where
  "artifact_sound sha256_hex fs arc_dir ps \<longleftrightarrow>
    (ps_status ps = ''completed'' \<longrightarrow>
      (\<forall>a. ps_artifact ps = Some a \<longrightarrow>
         fs (path_join arc_dir a) \<noteq> Absent \<and>
         (\<forall>h. ps_artifact_hash ps = Some h \<longrightarrow>
            (\<exists>s. fs (path_join arc_dir a) = Readable s \<and> length s \<le> MAX_ARTIFACT_SIZE \<and> sha256_hex s = h))))"

lemma validate_hash_True:
  "validate_artifact_hash sha fs p h = Inr True \<longleftrightarrow>
    (\<exists>s. fs p = Readable s \<and> length s \<le> MAX_ARTIFACT_SIZE \<and> sha s = h)"
  by (cases "fs p") (auto simp: validate_artifact_hash_def compute_file_hash_def)

lemma artifact_failure_None:
  "artifact_failure sha fs d (p, ps) = None \<longleftrightarrow> artifact_sound sha fs d ps"
proof -
  have "(case r of Inr True \<Rightarrow> None | Inr False \<Rightarrow> Some x | Inl e \<Rightarrow> Some (f e)) = None \<longleftrightarrow> r = Inr True"
    for r :: "string + bool" and x :: "string \<times> string \<times> string" and f
    by (auto split: sum.split bool.split)
  then show ?thesis
    by (auto simp: artifact_failure_def artifact_sound_def file_exists_def Let_def
        validate_hash_True [symmetric] split: option.split)
qed

lemma artifact_failure_fst: "artifact_failure sha fs d (p, ps) = Some f \<Longrightarrow> fst f = p"
  by (auto simp: artifact_failure_def Let_def split: if_splits option.splits sum.splits bool.splits)

lemma failures_fst:
  "map fst (List.map_filter (artifact_failure sha fs d) phs)
    = map fst (filter (\<lambda>(p, ps). \<not> artifact_sound sha fs d ps) phs)"
proof (induction phs)
  case Nil
  show ?case by (simp add: map_filter_simps)
next
  case (Cons x phs)
  obtain p ps where x: "x = (p, ps)" by (cases x)
  show ?case
  proof (cases "artifact_failure sha fs d (p, ps)")
    case None
    with Cons x artifact_failure_None [of sha fs d p ps] show ?thesis by (simp add: map_filter_simps)
  next
    case (Some f)
    with Cons x artifact_failure_None [of sha fs d p ps] artifact_failure_fst [OF Some]
    show ?thesis by (simp add: map_filter_simps)
  qed
qed

text \<open>
  C10: validation before a resume blocks exactly when it must. The phases to reset are the
  critical phases, in the map's order, whose completed artifact is missing, unreadable, too large or
  does not hash to the recorded value; the resume is refused iff there is one; and each failure
  is reported once, as an error or as a warning.
\<close>
theorem validate_before_resume_correct:
  "let v = validate_before_resume sha fs c arc_dir;
       bad = filter (\<lambda>(p, ps). \<not> artifact_sound sha fs arc_dir ps) (ck_phases c)
   in rv_phases_to_reset v = filter (\<lambda>p. p \<in> set CRITICAL_PHASES) (map fst bad)
      \<and> (can_resume v \<longleftrightarrow> \<not> (\<exists>(p, ps) \<in> set bad. p \<in> set CRITICAL_PHASES))
      \<and> length (rv_errors v) + length (rv_warnings v) = length bad"
proof -
  let ?f = "validate_all_artifacts sha fs c arc_dir"
  let ?v0 = "\<lparr>rv_warnings = [], rv_errors = [], rv_phases_to_reset = []\<rparr>"
  let ?bad = "filter (\<lambda>(p, ps). \<not> artifact_sound sha fs arc_dir ps) (ck_phases c)"
  have fst: "map fst ?f = map fst ?bad"
    by (simp add: validate_all_artifacts_def failures_fst)
  have len: "length ?f = length ?bad" using fst by (metis length_map)
  have names: "fst ` set ?f = fst ` set ?bad" using fst by (metis set_map)
  have "can_resume (validate_before_resume sha fs c arc_dir) \<longleftrightarrow> fst ` set ?f \<inter> set CRITICAL_PHASES = {}"
    unfolding can_resume_def validate_before_resume_def classify_fold_errors by auto
  then have "can_resume (validate_before_resume sha fs c arc_dir) \<longleftrightarrow>
      \<not> (\<exists>(p, ps) \<in> set ?bad. p \<in> set CRITICAL_PHASES)"
    unfolding names by force
  then show ?thesis
    using classify_fold_reset [of ?f ?v0] classify_fold_total [of ?f ?v0] fst len
    unfolding validate_before_resume_def Let_def by simp
qed

section \<open>Construction and completion of phases (\<open>checkpoint/writer.rs\<close>)\<close>

definition create_fresh_checkpoint :: "string \<Rightarrow> string \<Rightarrow> string \<Rightarrow> string option \<Rightarrow> 'j checkpoint" where
  "create_fresh_checkpoint now arc_id plan_file config_dir =
    (checkpoint_default now)
      \<lparr>ck_id := arc_id, ck_schema_version := Some SCHEMA_VERSION_MAX, ck_plan_file := plan_file,
       ck_config_dir := (case config_dir of Some d \<Rightarrow> d | None \<Rightarrow> []),
       ck_phases := fold (\<lambda>p. hm_insert p phase_status_pending) PHASE_ORDER [],
       ck_started_at := now, ck_phase_sequence := Some 0\<rparr>"

definition mark_phase_completed ::
  "(string \<Rightarrow> string) \<Rightarrow> file_system \<Rightarrow> string \<Rightarrow> 'j checkpoint \<Rightarrow> string \<Rightarrow> path option \<Rightarrow> 'j checkpoint" where
  "mark_phase_completed sha256_hex fs now c phase_name artifact_path =
    (let phase = (case hm_get (ck_phases c) phase_name of Some ps \<Rightarrow> ps | None \<Rightarrow> phase_status_pending);
         phase1 = phase\<lparr>ps_status := ''completed'', ps_completed_at := Some now\<rparr>;
         phase2 =
           (case artifact_path of
              None \<Rightarrow> phase1
            | Some artifact \<Rightarrow>
                let phase1a = phase1\<lparr>ps_artifact := Some artifact\<rparr> in
                if file_exists fs artifact then
                  (case compute_file_hash sha256_hex fs artifact of
                     Inr h \<Rightarrow> phase1a\<lparr>ps_artifact_hash := Some h\<rparr>
                   | Inl _ \<Rightarrow> phase1a)
                else phase1a);
         c1 = c\<lparr>ck_phases := hm_insert phase_name phase2 (ck_phases c)\<rparr>
     in (case phase_index phase_name of
           Some idx \<Rightarrow> c1\<lparr>ck_phase_sequence := Some (idx + 1)\<rparr>
         | None \<Rightarrow> c1))"

definition next_pending_phase :: "'j checkpoint \<Rightarrow> string option" where
  "next_pending_phase c =
    find (\<lambda>p. case hm_get (ck_phases c) p of Some ps \<Rightarrow> ps_status ps = ''pending'' | None \<Rightarrow> True)
      PHASE_ORDER"

definition progress_pct :: "'j checkpoint \<Rightarrow> nat" where
  "progress_pct c =
    (let total = length (ck_phases c) in
     if total > 0 then (count_by_status c ''completed'' + count_by_status c ''skipped'') * 100 div total
     else 0)"

definition checkpoint_summary :: "'j checkpoint \<Rightarrow> string" where
  "checkpoint_summary c =
    (let completed = count_by_status c ''completed''; skipped = count_by_status c ''skipped'' in
     ''Arc: '' @ ck_id c @ '' | Schema: ''
     @ (case ck_schema_version c of Some v \<Rightarrow> ''v'' @ show_nat v | None \<Rightarrow> ''unknown'')
     @ '' | Progress: '' @ show_nat (progress_pct c) @ ''% ('' @ show_nat (completed + skipped)
     @ ''/'' @ show_nat (length (ck_phases c)) @ '' phases)'' @ [CHR 0x0A]
     @ ''Completed: '' @ show_nat completed @ '' | Skipped: '' @ show_nat skipped
     @ '' | In Progress: '' @ show_nat (count_by_status c ''in_progress'')
     @ '' | Pending: '' @ show_nat (count_by_status c ''pending'')
     @ '' | Failed: '' @ show_nat (count_by_status c ''failed''))"

lemma progress_pct_le: "progress_pct c \<le> 100"
proof -
  have "length (filter (\<lambda>p. ps_status p = ''completed'') xs) + length (filter (\<lambda>p. ps_status p = ''skipped'') xs)
      \<le> length xs" for xs :: "'j phase_status list"
    by (induction xs) auto
  from this [of "hm_values (ck_phases c)"]
  have "(count_by_status c ''completed'' + count_by_status c ''skipped'') * 100 \<le> 100 * length (ck_phases c)"
    by (simp add: count_by_status_def)
  then show ?thesis
    by (auto simp: progress_pct_def Let_def intro: order_trans [OF div_le_mono])
qed

text \<open>A pipeline that runs its phases in order, each reported with its own artifact and time.\<close>

definition run_in_order ::
  "(string \<Rightarrow> string) \<Rightarrow> file_system \<Rightarrow> (string \<Rightarrow> string) \<Rightarrow> (string \<Rightarrow> path option) \<Rightarrow>
    string list \<Rightarrow> 'j checkpoint \<Rightarrow> 'j checkpoint" where
  "run_in_order sha fs now artifact ps c =
    fold (\<lambda>p c. mark_phase_completed sha fs (now p) c p (artifact p)) ps c"

lemma mark_phase_completed_status:
  "status_of (mark_phase_completed sha fs now c p a) q = (if q = p then Some ''completed'' else status_of c q)"
  by (auto simp: mark_phase_completed_def status_of_def Let_def split: option.split sum.split)

lemma mark_phase_completed_keeps [gw_keeps]:
  "ck_completed_at (mark_phase_completed sha fs now c p a) = ck_completed_at c"
  "ck_skip_map (mark_phase_completed sha fs now c p a) = ck_skip_map c"
  by (simp_all add: mark_phase_completed_def Let_def split: option.split)

lemma run_in_order_status:
  "status_of (run_in_order sha fs now art ps c) q = (if q \<in> set ps then Some ''completed'' else status_of c q)"
  by (induction ps arbitrary: c) (auto simp: run_in_order_def mark_phase_completed_status)

lemma run_in_order_keeps [gw_keeps]:
  "ck_completed_at (run_in_order sha fs now art ps c) = ck_completed_at c"
  "ck_skip_map (run_in_order sha fs now art ps c) = ck_skip_map c"
  by (induction ps arbitrary: c) (simp_all add: run_in_order_def gw_keeps)

lemma fresh_status:
  "status_of (create_fresh_checkpoint now arc_id pf d) q = (if q \<in> set PHASE_ORDER then Some ''pending'' else None)"
proof -
  have "map_of (fold (\<lambda>p. hm_insert p v) ps m) q = (if q \<in> set ps then Some v else map_of m q)"
    for ps m and v :: "'a phase_status"
    by (induction ps arbitrary: m) auto
  then show ?thesis
    by (simp add: status_of_def create_fresh_checkpoint_def phase_status_pending_def phase_status_new_def)
qed

lemma fresh_keeps:
  "ck_completed_at (create_fresh_checkpoint now arc_id pf d) = None"
  "ck_skip_map (create_fresh_checkpoint now arc_id pf d) = None"
  "ck_phase_sequence (create_fresh_checkpoint now arc_id pf d) = Some 0"
  by (simp_all add: create_fresh_checkpoint_def checkpoint_default_def)

lemma run_in_order_sequence:
  "k \<le> 41 \<Longrightarrow> ck_phase_sequence c = Some 0 \<Longrightarrow>
    ck_phase_sequence (run_in_order sha fs now art (take k PHASE_ORDER) c) = Some k"
proof (induction k)
  case 0
  then show ?case by (simp add: run_in_order_def)
next
  case (Suc k)
  then have "phase_index (PHASE_ORDER ! k) = Some k" by (simp add: phase_index_nth)
  moreover from Suc.prems have "take (Suc k) PHASE_ORDER = take k PHASE_ORDER @ [PHASE_ORDER ! k]"
    by (simp add: take_Suc_conv_app_nth)
  ultimately show ?case
    by (simp add: run_in_order_def mark_phase_completed_def Let_def)
qed

text \<open>The checkpoint after the first \<open>k\<close> phases of a fresh pipeline.\<close>

definition progressed ::
  "(string \<Rightarrow> string) \<Rightarrow> file_system \<Rightarrow> (string \<Rightarrow> string) \<Rightarrow> (string \<Rightarrow> path option) \<Rightarrow>
    string \<Rightarrow> string \<Rightarrow> string \<Rightarrow> string option \<Rightarrow> nat \<Rightarrow> 'j checkpoint" where
  "progressed sha fs now art t0 arc_id pf d k =
    run_in_order sha fs now art (take k PHASE_ORDER) (create_fresh_checkpoint t0 arc_id pf d)"

lemma progressed_status:
  "j < 41 \<Longrightarrow> k \<le> 41 \<Longrightarrow>
    status_of (progressed sha fs now art t0 i pf d k) (PHASE_ORDER ! j)
      = Some (if j < k then ''completed'' else ''pending'')"
  by (simp add: progressed_def run_in_order_status fresh_status in_take_order phase_before_def
      phase_index_nth)

lemma progressed_actionable:
  "j < 41 \<Longrightarrow> k \<le> 41 \<Longrightarrow>
    is_phase_actionable (progressed sha fs now art t0 i pf d k) (PHASE_ORDER ! j) \<longleftrightarrow> k \<le> j"
  by (simp add: is_phase_actionable_def progressed_status is_in_skip_map_def)
    (simp add: progressed_def gw_keeps fresh_keeps)

lemma progressed_quiet:
  assumes k: "k < 41"
  shows "quiet (progressed sha fs now art t0 i pf d k :: 'j checkpoint)"
proof -
  let ?c = "progressed sha fs now art t0 i pf d k :: 'j checkpoint"
  have "PHASE_ORDER ! 40 = ''merge''" by (simp add: PHASE_ORDER_def)
  with progressed_status [of 40 k sha fs now art t0 i pf d] k
  have m: "status_of ?c ''merge'' = Some ''pending''" by simp
  then obtain ps where ps: "hm_get (ck_phases ?c) ''merge'' = Some ps" "ps_status ps = ''pending''"
    by (auto simp: status_of_Some)
  have "ps \<in> set (hm_values (ck_phases ?c))" by (rule hm_get_in_values [OF ps(1)])
  with ps(2) have "\<exists>p \<in> set (hm_values (ck_phases ?c)). ps_status p = ''pending''" by blast
  then have "\<not> (\<forall>p \<in> set (hm_values (ck_phases ?c)). ps_status p = ''completed'' \<or> ps_status p = ''skipped'')"
    by force
  moreover have "ck_completed_at ?c = None" by (simp add: progressed_def gw_keeps fresh_keeps)
  ultimately have "\<not> is_complete ?c"
    using m by (simp add: is_complete_def is_terminal_phase_completed_def)
  moreover from ps(1) have "ck_phases ?c \<noteq> []" by (cases "ck_phases ?c") simp_all
  ultimately show ?thesis
    using k by (simp add: quiet_def in_flight_def none_in_def has_status_def progressed_status)
qed

lemma progressed_next:
  assumes "k < 41" "n \<le> k"
  shows "first_in n (is_phase_actionable (progressed sha fs now art t0 i pf d k)) (PHASE_ORDER ! k)"
  using assms by (auto simp: first_in_def phase_index_nth progressed_actionable intro!: exI [of _ k])

text \<open>
  C9: the writer and the inference agree. A fresh checkpoint whose first \<open>k\<close> phases are
  marked completed in order has sequence number \<open>k\<close>, and (whatever the artifacts, files and
  times) the position inferred from its phase map is the \<open>k\<close>-th phase, or \<open>AllDone\<close> after the
  last one, so that the dispatcher's counter and the inference never diverge on such runs.
\<close>
theorem progress_agrees_with_inference:
  "let c = (progressed sha fs now art t0 arc_id pf d (min k PHASE_COUNT) :: 'j checkpoint)
   in ck_phase_sequence c = Some (min k PHASE_COUNT)
      \<and> inferred_phase_name c = phase_at k
      \<and> (infer_phase_position c = AllDone \<longleftrightarrow> PHASE_COUNT \<le> k)"
proof -
  define n where "n = min k 41"
  let ?c = "progressed sha fs now art t0 arc_id pf d n :: 'j checkpoint"
  have sq: "ck_phase_sequence ?c = Some n"
    by (simp add: progressed_def n_def run_in_order_sequence fresh_keeps)
  show ?thesis
  proof (cases "k < 41")
    case False
    then have n: "n = 41" by (simp add: n_def)
    have "PHASE_ORDER ! 40 = ''merge''" by (simp add: PHASE_ORDER_def)
    with progressed_status [of 40 n sha fs now art t0 arc_id pf d] n
    have m: "status_of ?c ''merge'' = Some ''completed''" by simp
    then have "is_complete ?c" by (rule merge_completed_is_complete)
    moreover from m have "ck_phases ?c \<noteq> []" by (cases "ck_phases ?c") (simp_all add: status_of_def)
    ultimately have "infer_phase_position ?c = AllDone" by (simp add: infer_phase_position_def)
    with False sq n show ?thesis
      by (simp add: Let_def inferred_phase_name_def phase_at_def)
  next
    case True
    then have n: "n = k" by (simp add: n_def)
    have "quiet ?c" unfolding n by (rule progressed_quiet [OF True])
    then have fl: "in_flight ?c" and nr: "find (running ?c) PHASE_ORDER = None"
      and nf: "find (failed ?c) PHASE_ORDER = None"
      by (simp_all add: quiet_def find_order_None)
    have here: "find (is_phase_actionable ?c) (drop m PHASE_ORDER) = Some (PHASE_ORDER ! k)" if "m \<le> k" for m
      using progressed_next [OF True that, of sha fs now art t0 arc_id pf d] by (simp only: find_drop_iff n)
    have "inferred_phase_name ?c = Some (PHASE_ORDER ! k)"
    proof (cases "find (done_phase ?c) (rev PHASE_ORDER)")
      case None
      with infer_not_started [OF fl nr nf] here [of 0] show ?thesis by (simp add: inferred_phase_name_def)
    next
      case (Some l)
      then obtain j where j: "j < 41" "PHASE_ORDER ! j = l" "done_phase ?c l"
        by (auto simp: find_rev_iff last_in_def phase_index_iff)
      then have "status_of ?c (PHASE_ORDER ! j) = Some ''completed''" by (simp add: has_status_def)
      then have "j < k" using j(1) True n by (simp add: progressed_status split: if_splits)
      with j have "index_after l \<le> k" by (simp add: index_after_def phase_index_nth [of j, unfolded j(2)])
      moreover have "PHASE_ORDER ! k \<noteq> []" using order_nonempty True by (metis length_PHASE_ORDER nth_mem)
      ultimately show ?thesis
        using infer_between [OF fl nr nf Some] here by (simp add: inferred_phase_name_def)
    qed
    moreover from this have "infer_phase_position ?c \<noteq> AllDone" by (auto simp: inferred_phase_name_def)
    ultimately show ?thesis using True sq n by (simp add: Let_def phase_at_def)
  qed
qed

end
