(* ===== verification/Daemon_Types.thy ===== *)
theory Daemon_Types
  imports GW_Prelude
begin

text \<open>
  The types the daemon's components share: run status, run entries and pending runs
  (\<open>daemon/protocol.rs\<close>, \<open>daemon/registry.rs\<close>), the repository hash, and the comparison of
  plan paths (\<open>daemon/reconciler.rs\<close>).
\<close>

section \<open>Statuses\<close>

datatype RunStatus = Queued | Running | Succeeded | Failed | Stopped

definition is_terminal :: "RunStatus \<Rightarrow> bool" where
  "is_terminal s \<longleftrightarrow> s = Succeeded \<or> s = Failed \<or> s = Stopped"

lemma is_terminal_simps [simp]:
  "\<not> is_terminal Queued" "\<not> is_terminal Running"
  "is_terminal Succeeded" "is_terminal Failed" "is_terminal Stopped"
  by (simp_all add: is_terminal_def)

text \<open>The stage of a run's life: waiting, active, over.\<close>

fun life_stage :: "RunStatus \<Rightarrow> nat" where
  "life_stage Queued = 0"
| "life_stage Running = 1"
| "life_stage Succeeded = 2"
| "life_stage Failed = 2"
| "life_stage Stopped = 2"

text \<open>Statuses are preordered by life stage: \<open>s \<le> t\<close> says that \<open>t\<close> is not an earlier stage.\<close>

instantiation RunStatus :: preorder
begin

definition less_eq_RunStatus :: "RunStatus \<Rightarrow> RunStatus \<Rightarrow> bool" where
  "less_eq_RunStatus s t \<longleftrightarrow> life_stage s \<le> life_stage t"

definition less_RunStatus :: "RunStatus \<Rightarrow> RunStatus \<Rightarrow> bool" where
  "less_RunStatus s t \<longleftrightarrow> life_stage s < life_stage t"

instance
  by standard (auto simp: less_eq_RunStatus_def less_RunStatus_def)

end

lemma terminal_is_last: "is_terminal s \<Longrightarrow> s \<le> t \<longleftrightarrow> is_terminal t"
  by (cases s; cases t) (simp_all add: less_eq_RunStatus_def)

lemma backward_iff:
  "\<not> s \<le> t \<longleftrightarrow> (is_terminal s \<and> \<not> is_terminal t) \<or> (s = Running \<and> t = Queued)"
  by (cases s; cases t) (simp_all add: less_eq_RunStatus_def)

datatype ErrorCode =
    RepoLocked | RunNotFound | DaemonBusy | InvalidRequest | InternalError | QueueFull
  | ScheduleNotFound

section \<open>The operating system's view of paths\<close>

text \<open>
  What the daemon asks of the file system and of the \<open>sha2\<close> and \<open>hex\<close> packages:
  \<open>env_canonicalize\<close> is \<open>std::fs::canonicalize\<close> and \<open>env_hash16\<close> the hexadecimal first 16 bytes
  of the SHA-256 digest. The file tree is taken as fixed while one history of the registry is
  considered.
\<close>

record env =
  env_canonicalize :: "path \<Rightarrow> path option"
  env_hash16 :: "string \<Rightarrow> string"

definition canonical_or_self :: "env \<Rightarrow> path \<Rightarrow> path" where
  "canonical_or_self E p = (case env_canonicalize E p of Some c \<Rightarrow> c | None \<Rightarrow> p)"

definition repo_hash :: "env \<Rightarrow> path \<Rightarrow> string" where
  "repo_hash E repo_dir = env_hash16 E (canonical_or_self E repo_dir)"

definition plan_norm :: "env \<Rightarrow> path \<Rightarrow> path \<Rightarrow> path" where
  "plan_norm E repo_dir s =
    (if path_is_absolute s then canonical_or_self E s
     else canonical_or_self E (path_join repo_dir s))"

definition plans_match :: "env \<Rightarrow> path \<Rightarrow> path \<Rightarrow> path \<Rightarrow> bool" where
  "plans_match E a b repo_dir =
    (let a_n = plan_norm E repo_dir a; b_n = plan_norm E repo_dir b in
     if path_eq a_n b_n then True
     else path_file_name a_n = path_file_name b_n \<and> path_file_name a_n \<noteq> None)"

lemma plans_match_refl [simp]: "plans_match E a a d"
  by (simp add: plans_match_def Let_def)

lemma plans_match_sym: "plans_match E a b d \<longleftrightarrow> plans_match E b a d"
  unfolding plans_match_def Let_def path_eq_def by metis

text \<open>
  The paths a client may give (\<open>daemon/server.rs\<close>): no parent components, an existing target, and
  for a plan a target inside the repository. \<open>is_dir\<close> tells directories.
\<close>

definition validate_repo_dir :: "env \<Rightarrow> path \<Rightarrow> string + path" where
  "validate_repo_dir E repo_dir =
    (if ''..'' \<in> set (path_components repo_dir) then
       Inl (''repo_dir contains '' @ [CHR 0x27] @ ''..'' @ [CHR 0x27] @ '' component'')
     else case env_canonicalize E repo_dir of
       None \<Rightarrow> Inl (''repo_dir does not exist: '' @ repo_dir)
     | Some c \<Rightarrow> Inr c)"

definition path_starts_with :: "path \<Rightarrow> path \<Rightarrow> bool" where
  "path_starts_with p root \<longleftrightarrow> prefix (path_components root) (path_components p)"

definition validate_plan_path :: "env \<Rightarrow> path \<Rightarrow> path \<Rightarrow> string + path" where
  "validate_plan_path E plan_path allowed_root =
    (if ''..'' \<in> set (path_components plan_path) then
       Inl (''plan_path contains '' @ [CHR 0x27] @ ''..'' @ [CHR 0x27] @ '' component'')
     else case env_canonicalize E plan_path of
       None \<Rightarrow> Inl (''plan_path does not exist: '' @ plan_path)
     | Some c \<Rightarrow>
         if \<not> path_starts_with c allowed_root then
           Inl (''plan_path '' @ c @ '' is outside allowed root '' @ allowed_root)
         else Inr c)"

definition validate_config_dir :: "env \<Rightarrow> (path \<Rightarrow> bool) \<Rightarrow> path \<Rightarrow> string + path" where
  "validate_config_dir E is_dir config_dir =
    (if ''..'' \<in> set (path_components config_dir) then
       Inl (''config_dir contains '' @ [CHR 0x27] @ ''..'' @ [CHR 0x27] @ '' component'')
     else case env_canonicalize E config_dir of
       None \<Rightarrow> Inl (''config_dir does not exist: '' @ config_dir)
     | Some c \<Rightarrow>
         if \<not> is_dir c then Inl (''config_dir is not a directory: '' @ c)
         else Inr c)"

lemma validate_plan_path_inside:
  "validate_plan_path E p root = Inr c \<Longrightarrow>
    ''..'' \<notin> set (path_components p) \<and> env_canonicalize E p = Some c \<and> path_starts_with c root"
  by (auto simp: validate_plan_path_def split: if_splits option.splits)

section \<open>Runs\<close>

record pending_run =
  pr_run_id :: string
  pr_plan_path :: path
  pr_repo_dir :: path
  pr_session_name :: "string option"
  pr_config_dir :: "path option"
  pr_verbose :: nat
  pr_queued_at :: utc

record run_entry =
  re_run_id :: string
  re_plan_path :: path
  re_repo_dir :: path
  re_session_name :: string
  re_tmux_session :: "string option"
  re_status :: RunStatus
  re_current_phase :: "string option"
  re_started_at :: utc
  re_finished_at :: "utc option"
  re_crash_restarts :: nat
  re_config_dir :: "path option"
  re_error_message :: "string option"
  re_restartable :: bool
  re_claude_pid :: "nat option"
  re_schedule_id :: "string option"
  re_last_recovery_at :: "utc option"
  re_write_epoch :: u64

record run_info =
  ri_run_id :: string
  ri_plan_path :: path
  ri_repo_dir :: path
  ri_session_name :: string
  ri_status :: RunStatus
  ri_current_phase :: "string option"
  ri_started_at :: utc
  ri_uptime_secs :: nat
  ri_schedule_id :: "string option"
  ri_waiting_for_network :: bool

text \<open>
  \<open>num_seconds\<close> of the difference of two times truncates towards zero; with \<open>max 0\<close> only the
  non-negative part matters.
\<close>

definition secs_between :: "utc \<Rightarrow> utc \<Rightarrow> nat" where
  "secs_between later earlier = nat (max 0 ((later - earlier) div 1000000000))"

definition to_run_info :: "utc \<Rightarrow> run_entry \<Rightarrow> run_info" where
  "to_run_info now e =
    (let uptime =
       (if re_status e = Running \<or> re_status e = Queued then secs_between now (re_started_at e)
        else case re_finished_at e of
          Some f \<Rightarrow> secs_between f (re_started_at e)
        | None \<Rightarrow> 0)
     in \<lparr>ri_run_id = re_run_id e, ri_plan_path = re_plan_path e, ri_repo_dir = re_repo_dir e,
         ri_session_name = re_session_name e, ri_status = re_status e,
         ri_current_phase = re_current_phase e, ri_started_at = re_started_at e,
         ri_uptime_secs = uptime, ri_schedule_id = re_schedule_id e,
         ri_waiting_for_network = False\<rparr>)"

end
