(* ===== verification/Registry.thy ===== *)
theory Registry
  imports Daemon_Types
begin

text \<open>
  The run registry (\<open>daemon/registry.rs\<close>): all runs, the per-repository locks, the pending queues
  with their circuit breakers, and the epoch counter of queue snapshots. The disk appears as the
  outcome of each write, an argument of the operation.
\<close>

section \<open>State\<close>

definition MAX_QUEUE_SIZE :: nat where "MAX_QUEUE_SIZE = 50"

definition MAX_CONSECUTIVE_FAILURES :: nat where "MAX_CONSECUTIVE_FAILURES = 3"

text \<open>A held lock file, and the on-disk form of the queues.\<close>

datatype lock_file = LockFile

record queue_wire =
  qw_queues :: "(string, pending_run list) hash_map"
  qw_consecutive_failures :: "(string, nat) hash_map"

definition queue_wire_default :: queue_wire where
  "queue_wire_default = \<lparr>qw_queues = [], qw_consecutive_failures = []\<rparr>"

record queue_snapshot =
  qs_wire :: queue_wire
  qs_epoch :: u64

record staged_status =
  ss_entry :: run_entry
  ss_epoch :: u64

record registry =
  reg_runs :: "(string, run_entry) hash_map"
  reg_repo_locks :: "(string, lock_file) hash_map"
  reg_pending_queues :: "(string, pending_run list) hash_map"
  reg_repo_insertion_order :: "string list"
  reg_consecutive_failures :: "(string, nat) hash_map"
  reg_queue_epoch :: u64

definition registry_new :: registry where
  "registry_new =
     \<lparr>reg_runs = [], reg_repo_locks = [], reg_pending_queues = [], reg_repo_insertion_order = [],
      reg_consecutive_failures = [], reg_queue_epoch = 0\<rparr>"

text \<open>The queue of a repository hash, and its failure count, with the defaults the code uses.\<close>

definition queue_of :: "registry \<Rightarrow> string \<Rightarrow> pending_run list" where
  "queue_of r h = (case hm_get (reg_pending_queues r) h of Some q \<Rightarrow> q | None \<Rightarrow> [])"

definition failures_of :: "registry \<Rightarrow> string \<Rightarrow> nat" where
  "failures_of r h = (case hm_get (reg_consecutive_failures r) h of Some n \<Rightarrow> n | None \<Rightarrow> 0)"

definition has_repo_lock :: "env \<Rightarrow> registry \<Rightarrow> path \<Rightarrow> bool" where
  "has_repo_lock E r repo_dir \<longleftrightarrow> hm_get (reg_repo_locks r) (repo_hash E repo_dir) \<noteq> None"

section \<open>Loading\<close>

text \<open>
  What reading one entry of the runs directory gives: no \<open>meta.json\<close>, one that cannot be read or
  parsed, or a run.
\<close>

datatype meta_read = NoMeta | UnreadableMeta | MalformedMeta | MetaRun run_entry

definition load_meta :: "meta_read \<Rightarrow> registry \<Rightarrow> registry" where
  "load_meta m r =
    (case m of
       MetaRun e \<Rightarrow> r\<lparr>reg_runs := hm_insert (re_run_id e) e (reg_runs r)\<rparr>
     | _ \<Rightarrow> r)"

text \<open>The directory is missing, cannot be read, or gives entries in some order.\<close>

datatype runs_dir = NoRunsDir | RunsDirError string | RunsDir "meta_read list"

definition load_from_disk :: "runs_dir \<Rightarrow> string + registry" where
  "load_from_disk d =
    (case d of
       NoRunsDir \<Rightarrow> Inr registry_new
     | RunsDirError e \<Rightarrow> Inl ''failed to read runs directory''
     | RunsDir ms \<Rightarrow> Inr (fold load_meta ms registry_new))"

section \<open>Locks\<close>

datatype lock_io = LockDirFailed | LockFileFailed | LockedElsewhere | LockTaken

definition take_lock_file :: "lock_io \<Rightarrow> path \<Rightarrow> string option" where
  "take_lock_file io repo_dir =
    (case io of
       LockDirFailed \<Rightarrow> Some ''failed to create repo lock directory''
     | LockFileFailed \<Rightarrow> Some ''failed to create repo lock file''
     | LockedElsewhere \<Rightarrow> Some (''repository is locked by another daemon instance: '' @ repo_dir)
     | LockTaken \<Rightarrow> None)"

definition acquire_repo_lock :: "env \<Rightarrow> lock_io \<Rightarrow> path \<Rightarrow> registry \<Rightarrow> string + registry" where
  "acquire_repo_lock E io repo_dir r =
    (let h = repo_hash E repo_dir in
     if hm_get (reg_repo_locks r) h \<noteq> None then
       Inl (''repository already has an active run: '' @ repo_dir)
     else case take_lock_file io repo_dir of
       Some e \<Rightarrow> Inl e
     | None \<Rightarrow> Inr (r\<lparr>reg_repo_locks := hm_insert h LockFile (reg_repo_locks r)\<rparr>))"

definition acquire_repo_lock_for_adopt :: "env \<Rightarrow> lock_io \<Rightarrow> path \<Rightarrow> registry \<Rightarrow> string + registry" where
  "acquire_repo_lock_for_adopt E io repo_dir r =
    (let h = repo_hash E repo_dir in
     if hm_get (reg_repo_locks r) h \<noteq> None then Inr r
     else case take_lock_file io repo_dir of
       Some e \<Rightarrow> Inl e
     | None \<Rightarrow> Inr (r\<lparr>reg_repo_locks := hm_insert h LockFile (reg_repo_locks r)\<rparr>))"

text \<open>\<open>RepoLockGuard\<close>: a lock taken for an operation is given back unless it was committed.\<close>

record repo_lock_guard =
  rg_repo_hash :: string
  rg_committed :: bool

definition guard_new :: "string \<Rightarrow> repo_lock_guard" where
  "guard_new h = \<lparr>rg_repo_hash = h, rg_committed = False\<rparr>"

definition release_from :: "repo_lock_guard \<Rightarrow> registry \<Rightarrow> registry" where
  "release_from g r =
    (if \<not> rg_committed g then r\<lparr>reg_repo_locks := hm_remove (rg_repo_hash g) (reg_repo_locks r)\<rparr> else r)"

section \<open>Registration\<close>

text \<open>
  \<open>run_id\<close> is what \<open>generate_id\<close> returned, \<open>now\<close> the clock, \<open>meta\<close> the outcome of writing
  \<open>meta.json\<close>. The state is returned on failure too: that the guard gave the lock back is part
  of the behaviour.
\<close>

definition fresh_entry ::
  "string \<Rightarrow> utc \<Rightarrow> path \<Rightarrow> path \<Rightarrow> string option \<Rightarrow> path option \<Rightarrow> string option \<Rightarrow> run_entry" where
  "fresh_entry run_id now plan_path repo_dir session_name config_dir schedule_id =
     \<lparr>re_run_id = run_id, re_plan_path = plan_path, re_repo_dir = repo_dir,
      re_session_name = (case session_name of Some s \<Rightarrow> s | None \<Rightarrow> ''gw-'' @ run_id),
      re_tmux_session = None, re_status = Queued, re_current_phase = None, re_started_at = now,
      re_finished_at = None, re_crash_restarts = 0, re_config_dir = config_dir,
      re_error_message = None, re_restartable = True, re_claude_pid = None,
      re_schedule_id = schedule_id, re_last_recovery_at = None, re_write_epoch = 0\<rparr>"

definition register_run_with_schedule ::
  "env \<Rightarrow> lock_io \<Rightarrow> io_result \<Rightarrow> string \<Rightarrow> utc \<Rightarrow> path \<Rightarrow> path \<Rightarrow> string option \<Rightarrow> path option \<Rightarrow>
    string option \<Rightarrow> registry \<Rightarrow> (string + string) \<times> registry" where
  "register_run_with_schedule E lock_result meta run_id now plan_path repo_dir session_name config_dir
      schedule_id r =
    (case acquire_repo_lock E lock_result repo_dir r of
       Inl e \<Rightarrow> (Inl e, r)
     | Inr r1 \<Rightarrow>
         let guard = guard_new (repo_hash E repo_dir);
             entry = fresh_entry run_id now plan_path repo_dir session_name config_dir schedule_id
         in (case meta of
               Some e \<Rightarrow> (Inl e, release_from guard r1)
             | None \<Rightarrow> (Inr run_id, r1\<lparr>reg_runs := hm_insert run_id entry (reg_runs r1)\<rparr>)))"

definition register_run ::
  "env \<Rightarrow> lock_io \<Rightarrow> io_result \<Rightarrow> string \<Rightarrow> utc \<Rightarrow> path \<Rightarrow> path \<Rightarrow> string option \<Rightarrow> path option \<Rightarrow>
    registry \<Rightarrow> (string + string) \<times> registry" where
  "register_run E lock_result meta run_id now plan_path repo_dir session_name config_dir r =
    register_run_with_schedule E lock_result meta run_id now plan_path repo_dir session_name config_dir
      None r"

section \<open>Status transitions\<close>

datatype update_status_error =
    NotFound string
  | InvalidTransition RunStatus RunStatus
  | Io string

text \<open>The entry after an accepted transition.\<close>

definition staged_entry ::
  "utc \<Rightarrow> RunStatus \<Rightarrow> string option \<Rightarrow> string option \<Rightarrow> run_entry \<Rightarrow> run_entry" where
  "staged_entry now status phase error e =
     e\<lparr>re_status := status,
       re_write_epoch := re_write_epoch e + 1,
       re_current_phase := (case phase of Some p \<Rightarrow> Some p | None \<Rightarrow> re_current_phase e),
       re_error_message := (case error of Some m \<Rightarrow> Some m | None \<Rightarrow> re_error_message e),
       re_finished_at := (if is_terminal status then Some now else re_finished_at e)\<rparr>"

definition stage_status_locked ::
  "env \<Rightarrow> utc \<Rightarrow> string \<Rightarrow> RunStatus \<Rightarrow> string option \<Rightarrow> string option \<Rightarrow> registry \<Rightarrow>
    update_status_error + staged_status \<times> registry" where
  "stage_status_locked E now run_id status phase error r =
    (case hm_get (reg_runs r) run_id of
       None \<Rightarrow> Inl (NotFound run_id)
     | Some entry \<Rightarrow>
         if is_terminal (re_status entry) \<and> \<not> is_terminal status then
           Inl (InvalidTransition (re_status entry) status)
         else if re_status entry = Running \<and> status = Queued then
           Inl (InvalidTransition (re_status entry) status)
         else
           let entry1 = staged_entry now status phase error entry;
               r1 = r\<lparr>reg_runs := hm_insert run_id entry1 (reg_runs r)\<rparr>;
               r2 = (if is_terminal status
                     then r1\<lparr>reg_repo_locks := hm_remove (repo_hash E (re_repo_dir entry1)) (reg_repo_locks r1)\<rparr>
                     else r1)
           in Inr (\<lparr>ss_entry = entry1, ss_epoch = re_write_epoch entry1\<rparr>, r2))"

text \<open>
  Stage and flush in one call. The in-memory change stays when the write fails; the error is
  reported.
\<close>

definition update_status ::
  "env \<Rightarrow> utc \<Rightarrow> io_result \<Rightarrow> string \<Rightarrow> RunStatus \<Rightarrow> string option \<Rightarrow> string option \<Rightarrow> registry \<Rightarrow>
    (update_status_error + unit) \<times> registry" where
  "update_status E now meta run_id status phase error r =
    (case stage_status_locked E now run_id status phase error r of
       Inl e \<Rightarrow> (Inl e, r)
     | Inr (staged, r1) \<Rightarrow> (case meta of Some e \<Rightarrow> (Inl (Io e), r1) | None \<Rightarrow> (Inr (), r1)))"

text \<open>\<open>dir_removal\<close> is the outcome of removing the run's directory, when it exists.\<close>

definition remove_run :: "env \<Rightarrow> io_result \<Rightarrow> string \<Rightarrow> registry \<Rightarrow> (string + unit) \<times> registry" where
  "remove_run E dir_removal run_id r =
    (case hm_get (reg_runs r) run_id of
       None \<Rightarrow> (Inr (), r)
     | Some entry \<Rightarrow>
         let r1 = r\<lparr>reg_runs := hm_remove run_id (reg_runs r)\<rparr> in
         (case dir_removal of
            Some e \<Rightarrow> (Inl e, r1)
          | None \<Rightarrow>
              (Inr (), r1\<lparr>reg_repo_locks := hm_remove (repo_hash E (re_repo_dir entry)) (reg_repo_locks r1)\<rparr>)))"

text \<open>The entry is adopted whether or not it could be persisted.\<close>

definition adopt :: "io_result \<Rightarrow> run_entry \<Rightarrow> registry \<Rightarrow> registry" where
  "adopt meta entry r = r\<lparr>reg_runs := hm_insert (re_run_id entry) entry (reg_runs r)\<rparr>"

section \<open>Queries\<close>

definition is_active :: "run_entry \<Rightarrow> bool" where
  "is_active e \<longleftrightarrow> re_status e = Queued \<or> re_status e = Running"

definition list_runs :: "utc \<Rightarrow> bool \<Rightarrow> registry \<Rightarrow> run_info list" where
  "list_runs now include_finished r =
    map (to_run_info now)
      (sort_key (\<lambda>e. - re_started_at e)
        (filter (\<lambda>e. include_finished \<or> is_active e) (hm_values (reg_runs r))))"

definition count_runs :: "bool \<Rightarrow> registry \<Rightarrow> nat" where
  "count_runs include_finished r =
    length (filter (\<lambda>e. include_finished \<or> is_active e) (hm_values (reg_runs r)))"

definition find_by_prefix :: "string \<Rightarrow> registry \<Rightarrow> run_entry option" where
  "find_by_prefix pre r =
    (if pre = [] then None
     else the_only (filter (\<lambda>e. prefix pre (re_run_id e)) (hm_values (reg_runs r))))"

definition count_running :: "registry \<Rightarrow> nat" where
  "count_running r = length (filter (\<lambda>e. re_status e = Running) (hm_values (reg_runs r)))"

definition total_pending_count :: "registry \<Rightarrow> nat" where
  "total_pending_count r = sum_list (map length (hm_values (reg_pending_queues r)))"

definition pending_entries :: "registry \<Rightarrow> pending_run list" where
  "pending_entries r = concat (hm_values (reg_pending_queues r))"

definition is_in_pending_queue :: "registry \<Rightarrow> string \<Rightarrow> bool" where
  "is_in_pending_queue r run_id \<longleftrightarrow>
    (\<exists>q \<in> set (hm_values (reg_pending_queues r)). \<exists>p \<in> set q. pr_run_id p = run_id)"

definition find_pending_by_prefix :: "string \<Rightarrow> registry \<Rightarrow> (string \<times> string) option" where
  "find_pending_by_prefix pre r =
    the_only
      (concat (map (\<lambda>(h, q). map (\<lambda>p. (pr_run_id p, h)) (filter (\<lambda>p. prefix pre (pr_run_id p)) q))
        (reg_pending_queues r)))"

section \<open>Queues\<close>

text \<open>\<open>stage_queue_locked\<close>: the next epoch, and a copy of the queues and failure counts.\<close>

definition stage_queue_locked :: "registry \<Rightarrow> queue_snapshot \<times> registry" where
  "stage_queue_locked r =
    (let epoch = reg_queue_epoch r + 1 in
     (\<lparr>qs_wire = \<lparr>qw_queues = reg_pending_queues r,
                 qw_consecutive_failures = reg_consecutive_failures r\<rparr>,
       qs_epoch = epoch\<rparr>,
      r\<lparr>reg_queue_epoch := epoch\<rparr>))"

datatype enqueue_error =
    QueueFullError nat
  | PlanAlready string path

definition queued_entry :: "pending_run \<Rightarrow> run_entry" where
  "queued_entry p =
     \<lparr>re_run_id = pr_run_id p, re_plan_path = pr_plan_path p, re_repo_dir = pr_repo_dir p,
      re_session_name = ''gw-'' @ pr_run_id p, re_tmux_session = None, re_status = Queued,
      re_current_phase = None, re_started_at = pr_queued_at p, re_finished_at = None,
      re_crash_restarts = 0, re_config_dir = pr_config_dir p, re_error_message = None,
      re_restartable = False, re_claude_pid = None, re_schedule_id = None,
      re_last_recovery_at = None, re_write_epoch = 0\<rparr>"

text \<open>An unfinished run of the same repository whose plan is the same file.\<close>

definition same_plan_active :: "env \<Rightarrow> pending_run \<Rightarrow> run_entry \<Rightarrow> bool" where
  "same_plan_active E p e \<longleftrightarrow>
     \<not> is_terminal (re_status e) \<and> repo_hash E (re_repo_dir e) = repo_hash E (pr_repo_dir p)
     \<and> plans_match E (re_plan_path e) (pr_plan_path p) (pr_repo_dir p)"

definition enqueue_run_without_snapshot ::
  "env \<Rightarrow> pending_run \<Rightarrow> registry \<Rightarrow> enqueue_error + (nat \<times> run_entry) \<times> registry" where
  "enqueue_run_without_snapshot E pending r =
    (let total = total_pending_count r in
     if total \<ge> MAX_QUEUE_SIZE then Inl (QueueFullError total)
     else case find (same_plan_active E pending) (hm_values (reg_runs r)) of
       Some existing \<Rightarrow>
         Inl (PlanAlready
           (case re_status existing of Queued \<Rightarrow> ''queued'' | Running \<Rightarrow> ''running'' | _ \<Rightarrow> ''active'')
           (pr_plan_path pending))
     | None \<Rightarrow>
         let h = repo_hash E (pr_repo_dir pending);
             entry = queued_entry pending;
             queue = queue_of r h @ [pending]
         in Inr ((length queue, entry),
              r\<lparr>reg_runs := hm_insert (pr_run_id pending) entry (reg_runs r),
                reg_repo_insertion_order :=
                  (if h \<in> set (reg_repo_insertion_order r) then reg_repo_insertion_order r
                   else reg_repo_insertion_order r @ [h]),
                reg_pending_queues := hm_insert h queue (reg_pending_queues r)\<rparr>))"

definition enqueue_run_staged ::
  "env \<Rightarrow> pending_run \<Rightarrow> registry \<Rightarrow> enqueue_error + (nat \<times> run_entry \<times> queue_snapshot) \<times> registry" where
  "enqueue_run_staged E pending r =
    (case enqueue_run_without_snapshot E pending r of
       Inl e \<Rightarrow> Inl e
     | Inr ((position, entry), r1) \<Rightarrow>
         let (snap, r2) = stage_queue_locked r1 in Inr ((position, entry, snap), r2))"

text \<open>
  \<open>pop_from_pending_queues\<close>: the first entry with the run id, in the first queue that has one
  (in the map's order).
\<close>

fun pop_from_pending_queues ::
  "string \<Rightarrow> (string, pending_run list) hash_map \<Rightarrow>
    (pending_run \<times> (string, pending_run list) hash_map) option" where
  "pop_from_pending_queues run_id [] = None"
| "pop_from_pending_queues run_id ((h, q) # rest) =
    (case position_of (\<lambda>p. pr_run_id p = run_id) q of
       Some pos \<Rightarrow> Some (q ! pos, (h, take pos q @ drop (Suc pos) q) # rest)
     | None \<Rightarrow> map_option (\<lambda>(p, qs). (p, (h, q) # qs)) (pop_from_pending_queues run_id rest))"

definition dequeue_run_without_snapshot_no_flush ::
  "string \<Rightarrow> registry \<Rightarrow> (pending_run \<times> registry) option" where
  "dequeue_run_without_snapshot_no_flush run_id r =
    map_option (\<lambda>(p, qs). (p, r\<lparr>reg_pending_queues := qs\<rparr>))
      (pop_from_pending_queues run_id (reg_pending_queues r))"

text \<open>The queue entry stays popped when the status cannot be staged, and nothing is returned.\<close>

definition dequeue_run_staged ::
  "env \<Rightarrow> utc \<Rightarrow> string \<Rightarrow> registry \<Rightarrow> (pending_run \<times> staged_status \<times> queue_snapshot) option \<times> registry" where
  "dequeue_run_staged E now run_id r =
    (case dequeue_run_without_snapshot_no_flush run_id r of
       None \<Rightarrow> (None, r)
     | Some (pending, r1) \<Rightarrow>
         (case stage_status_locked E now run_id Stopped None (Some ''removed from queue'') r1 of
            Inl _ \<Rightarrow> (None, r1)
          | Inr (staged, r2) \<Rightarrow>
              let (snap, r3) = stage_queue_locked r2 in (Some (pending, staged, snap), r3)))"

datatype promote_error =
    PromoteNotFound string
  | NotQueued string RunStatus
  | PromoteLock string
  | PromoteWrite string

definition promoted_entry :: "utc \<Rightarrow> run_entry \<Rightarrow> run_entry" where
  "promoted_entry now e = e\<lparr>re_started_at := now, re_restartable := True\<rparr>"

definition promote_queued ::
  "env \<Rightarrow> lock_io \<Rightarrow> io_result \<Rightarrow> utc \<Rightarrow> string \<Rightarrow> registry \<Rightarrow> (promote_error + unit) \<times> registry" where
  "promote_queued E lock_result meta now run_id r =
    (case hm_get (reg_runs r) run_id of
       None \<Rightarrow> (Inl (PromoteNotFound run_id), r)
     | Some entry \<Rightarrow>
         if re_status entry \<noteq> Queued then (Inl (NotQueued run_id (re_status entry)), r)
         else (case acquire_repo_lock E lock_result (re_repo_dir entry) r of
             Inl e \<Rightarrow> (Inl (PromoteLock e), r)
           | Inr r1 \<Rightarrow>
               let guard = guard_new (repo_hash E (re_repo_dir entry));
                   r2 = r1\<lparr>reg_runs := hm_insert run_id (promoted_entry now entry) (reg_runs r1)\<rparr>
               in (case meta of
                     None \<Rightarrow> (Inr (), r2)
                   | Some e \<Rightarrow> (Inl (PromoteWrite e), release_from guard r2))))"

definition pop_front :: "string \<Rightarrow> registry \<Rightarrow> (pending_run \<times> registry) option" where
  "pop_front h r =
    (case queue_of r h of
       [] \<Rightarrow> None
     | p # rest \<Rightarrow> Some (p, r\<lparr>reg_pending_queues := hm_insert h rest (reg_pending_queues r)\<rparr>))"

definition drain_next_without_snapshot ::
  "env \<Rightarrow> path \<Rightarrow> registry \<Rightarrow> (pending_run \<times> registry) option" where
  "drain_next_without_snapshot E repo_dir r =
    (let h = repo_hash E repo_dir in
     if failures_of r h \<ge> MAX_CONSECUTIVE_FAILURES then None else pop_front h r)"

definition drain_next_staged ::
  "env \<Rightarrow> path \<Rightarrow> registry \<Rightarrow> (pending_run \<times> queue_snapshot \<times> registry) option" where
  "drain_next_staged E repo_dir r =
    (case drain_next_without_snapshot E repo_dir r of
       None \<Rightarrow> None
     | Some (pending, r1) \<Rightarrow> let (snap, r2) = stage_queue_locked r1 in Some (pending, snap, r2))"

definition is_ready :: "registry \<Rightarrow> string \<Rightarrow> bool" where
  "is_ready r h \<longleftrightarrow> failures_of r h < MAX_CONSECUTIVE_FAILURES \<and> queue_of r h \<noteq> []"

definition drain_any_ready_without_snapshot :: "registry \<Rightarrow> (pending_run \<times> registry) option" where
  "drain_any_ready_without_snapshot r =
    (case find (is_ready r) (reg_repo_insertion_order r) of
       None \<Rightarrow> None
     | Some h \<Rightarrow> pop_front h r)"

text \<open>Stage \<open>Stopped\<close> for each run of a list; a run that cannot be staged is only logged.\<close>

fun stage_stopped_all ::
  "env \<Rightarrow> utc \<Rightarrow> string \<Rightarrow> string list \<Rightarrow> registry \<Rightarrow> staged_status list \<times> registry" where
  "stage_stopped_all E now reason [] r = ([], r)"
| "stage_stopped_all E now reason (run_id # ids) r =
    (case stage_status_locked E now run_id Stopped None (Some reason) r of
       Inl _ \<Rightarrow> stage_stopped_all E now reason ids r
     | Inr (staged, r1) \<Rightarrow>
         let (batch, r2) = stage_stopped_all E now reason ids r1 in (staged # batch, r2))"

definition record_queue_failure_without_snapshot ::
  "env \<Rightarrow> utc \<Rightarrow> path \<Rightarrow> registry \<Rightarrow> staged_status list \<times> registry" where
  "record_queue_failure_without_snapshot E now repo_dir r =
    (let h = repo_hash E repo_dir;
         count = failures_of r h + 1;
         r1 = r\<lparr>reg_consecutive_failures := hm_insert h count (reg_consecutive_failures r)\<rparr>
     in if count \<ge> MAX_CONSECUTIVE_FAILURES then
          let run_ids = map pr_run_id (queue_of r1 h);
              r2 = (case hm_get (reg_pending_queues r1) h of
                      Some _ \<Rightarrow> r1\<lparr>reg_pending_queues := hm_insert h [] (reg_pending_queues r1)\<rparr>
                    | None \<Rightarrow> r1);
              (batch, r3) = stage_stopped_all E now ''circuit breaker tripped'' run_ids r2
          in (batch, r3\<lparr>reg_consecutive_failures := hm_remove h (reg_consecutive_failures r3)\<rparr>)
        else ([], r1))"

definition record_queue_success_without_snapshot :: "env \<Rightarrow> path \<Rightarrow> registry \<Rightarrow> registry" where
  "record_queue_success_without_snapshot E repo_dir r =
     r\<lparr>reg_consecutive_failures := hm_remove (repo_hash E repo_dir) (reg_consecutive_failures r)\<rparr>"

definition remove_pending_without_snapshot :: "string \<Rightarrow> registry \<Rightarrow> registry" where
  "remove_pending_without_snapshot run_id r =
     r\<lparr>reg_pending_queues :=
         map (\<lambda>(h, q). (h, filter (\<lambda>p. pr_run_id p \<noteq> run_id) q)) (reg_pending_queues r)\<rparr>"

definition remove_pending_staged :: "string \<Rightarrow> registry \<Rightarrow> queue_snapshot \<times> registry" where
  "remove_pending_staged run_id r = stage_queue_locked (remove_pending_without_snapshot run_id r)"

text \<open>The entries a filter selects: all of them, or those of one repository directory.\<close>

definition filter_selects :: "env \<Rightarrow> path option \<Rightarrow> pending_run \<Rightarrow> bool" where
  "filter_selects E repo_filter p =
    (case repo_filter of
       None \<Rightarrow> True
     | Some f \<Rightarrow> path_eq (pr_repo_dir p) (canonical_or_self E f) \<or> path_eq (pr_repo_dir p) f)"

definition clear_queue_staged ::
  "env \<Rightarrow> utc \<Rightarrow> path option \<Rightarrow> registry \<Rightarrow> (nat \<times> staged_status list \<times> queue_snapshot) \<times> registry" where
  "clear_queue_staged E now repo_filter r =
    (let removed_ids = map pr_run_id (filter (filter_selects E repo_filter) (pending_entries r));
         r1 = r\<lparr>reg_pending_queues :=
                  map (\<lambda>(h, q). (h, filter (\<lambda>p. \<not> filter_selects E repo_filter p) q))
                    (reg_pending_queues r)\<rparr>;
         (batch, r2) = stage_stopped_all E now ''cleared by user'' removed_ids r1;
         (snap, r3) = stage_queue_locked r2
     in ((length removed_ids, batch, snap), r3))"

record queued_run_info =
  qi_run_id :: string
  qi_plan_path :: path
  qi_repo_dir :: path
  qi_position :: nat
  qi_queued_at :: utc
  qi_session_name :: "string option"

text \<open>Positions number all pending entries; a filter leaves gaps.\<close>

definition list_queue :: "env \<Rightarrow> path option \<Rightarrow> registry \<Rightarrow> queued_run_info list" where
  "list_queue E repo_filter r =
    List.map_filter
      (\<lambda>(p, position).
         if filter_selects E repo_filter p then
           Some \<lparr>qi_run_id = pr_run_id p, qi_plan_path = pr_plan_path p, qi_repo_dir = pr_repo_dir p,
                 qi_position = position, qi_queued_at = pr_queued_at p,
                 qi_session_name = pr_session_name p\<rparr>
         else None)
      (zip (pending_entries r) [1..<length (pending_entries r) + 1])"

text \<open>
  \<open>restore_queue\<close>: the loop over the loaded queues inserts each one and notes the repositories
  that have entries, in the order of the loaded map.
\<close>

definition restore_one :: "string \<times> pending_run list \<Rightarrow> registry \<Rightarrow> registry" where
  "restore_one = (\<lambda>(h, entries) r.
     r\<lparr>reg_repo_insertion_order :=
         (if entries \<noteq> [] \<and> h \<notin> set (reg_repo_insertion_order r)
          then reg_repo_insertion_order r @ [h] else reg_repo_insertion_order r),
       reg_pending_queues := hm_insert h entries (reg_pending_queues r)\<rparr>)"

definition restore_queue :: "queue_wire \<Rightarrow> registry \<Rightarrow> registry" where
  "restore_queue w r =
     (fold restore_one (qw_queues w) r)\<lparr>reg_consecutive_failures := qw_consecutive_failures w\<rparr>"

text \<open>\<open>load_queue\<close>: a missing, unreadable or corrupt file counts as no queues.\<close>

definition load_queue :: "(string \<Rightarrow> queue_wire option) \<Rightarrow> file_view \<Rightarrow> queue_wire" where
  "load_queue parse_wire f =
    (case f of
       Readable s \<Rightarrow> (case parse_wire s of Some w \<Rightarrow> w | None \<Rightarrow> queue_wire_default)
     | _ \<Rightarrow> queue_wire_default)"

end
