(* ===== verification/Registry_Steps.thy ===== *)
theory Registry_Steps
  imports Registry
begin

text \<open>
  The registry as a transition system: one step per operation the daemon performs under the
  registry mutex, the traces of such steps, and what holds along every trace (the invariant of the
  state, the direction of run statuses, mutual exclusion per repository).
\<close>

section \<open>Operations as steps\<close>

datatype reg_op =
    Register lock_io io_result string utc path path "string option" "path option" "string option"
  | Stage utc string RunStatus "string option" "string option"
  | Touch string "nat option" "utc option" "string option"
  | Enqueue pending_run
  | Dequeue utc string
  | Promote lock_io io_result utc string
  | DrainNext path
  | DrainAny
  | RecordFailure utc path
  | RecordSuccess path
  | RemovePending string
  | ClearQueue utc "path option"
  | Adopt io_result run_entry
  | AdoptLock lock_io path
  | RemoveRun io_result string
  | Snapshot
  | Progress string string bool

text \<open>The edits made through \<open>get_mut\<close>: process id, recovery time and tmux session.\<close>

definition touch_entry :: "nat option \<Rightarrow> utc option \<Rightarrow> string option \<Rightarrow> run_entry \<Rightarrow> run_entry" where
  "touch_entry pid recovery tmux e =
     e\<lparr>re_claude_pid := (case pid of Some x \<Rightarrow> Some x | None \<Rightarrow> re_claude_pid e),
       re_last_recovery_at := (case recovery of Some x \<Rightarrow> Some x | None \<Rightarrow> re_last_recovery_at e),
       re_tmux_session := (case tmux of Some x \<Rightarrow> Some x | None \<Rightarrow> re_tmux_session e)\<rparr>"

definition touch_run ::
  "string \<Rightarrow> nat option \<Rightarrow> utc option \<Rightarrow> string option \<Rightarrow> registry \<Rightarrow> registry" where
  "touch_run run_id pid recovery tmux r =
    (case hm_get (reg_runs r) run_id of
       None \<Rightarrow> r
     | Some e \<Rightarrow> r\<lparr>reg_runs := hm_insert run_id (touch_entry pid recovery tmux e) (reg_runs r)\<rparr>)"

text \<open>The other edit through \<open>get_mut\<close>: the current phase, and a recovery to be counted.\<close>

definition progress_entry :: "string \<Rightarrow> bool \<Rightarrow> run_entry \<Rightarrow> run_entry" where
  "progress_entry phase recovered e =
     e\<lparr>re_current_phase := Some phase,
       re_crash_restarts :=
         (if recovered then min (re_crash_restarts e + 1) (2 ^ 32 - 1) else re_crash_restarts e)\<rparr>"

definition progress_run :: "string \<Rightarrow> string \<Rightarrow> bool \<Rightarrow> registry \<Rightarrow> registry" where
  "progress_run run_id phase recovered r =
    (case hm_get (reg_runs r) run_id of
       None \<Rightarrow> r
     | Some e \<Rightarrow> r\<lparr>reg_runs := hm_insert run_id (progress_entry phase recovered e) (reg_runs r)\<rparr>)"

fun apply_op :: "env \<Rightarrow> reg_op \<Rightarrow> registry \<Rightarrow> registry" where
  "apply_op E (Register l m run_id now plan repo sess cfg sched) r =
     snd (register_run_with_schedule E l m run_id now plan repo sess cfg sched r)"
| "apply_op E (Stage now run_id status phase error) r =
     (case stage_status_locked E now run_id status phase error r of Inl _ \<Rightarrow> r | Inr (_, r1) \<Rightarrow> r1)"
| "apply_op E (Touch run_id pid recovery tmux) r = touch_run run_id pid recovery tmux r"
| "apply_op E (Enqueue p) r =
     (case enqueue_run_without_snapshot E p r of Inl _ \<Rightarrow> r | Inr (_, r1) \<Rightarrow> r1)"
| "apply_op E (Dequeue now run_id) r = snd (dequeue_run_staged E now run_id r)"
| "apply_op E (Promote l m now run_id) r = snd (promote_queued E l m now run_id r)"
| "apply_op E (DrainNext repo) r =
     (case drain_next_without_snapshot E repo r of None \<Rightarrow> r | Some (_, r1) \<Rightarrow> r1)"
| "apply_op E DrainAny r =
     (case drain_any_ready_without_snapshot r of None \<Rightarrow> r | Some (_, r1) \<Rightarrow> r1)"
| "apply_op E (RecordFailure now repo) r = snd (record_queue_failure_without_snapshot E now repo r)"
| "apply_op E (RecordSuccess repo) r = record_queue_success_without_snapshot E repo r"
| "apply_op E (RemovePending run_id) r = snd (remove_pending_staged run_id r)"
| "apply_op E (ClearQueue now f) r = snd (clear_queue_staged E now f r)"
| "apply_op E (Adopt m e) r = adopt m e r"
| "apply_op E (AdoptLock l repo) r =
     (case acquire_repo_lock_for_adopt E l repo r of Inl _ \<Rightarrow> r | Inr r1 \<Rightarrow> r1)"
| "apply_op E (RemoveRun m run_id) r = snd (remove_run E m run_id r)"
| "apply_op E Snapshot r = snd (stage_queue_locked r)"
| "apply_op E (Progress run_id phase recovered) r = progress_run run_id phase recovered r"

text \<open>
  Operations that introduce a run use a new id: \<open>generate_id\<close> hashes the clock, the process id
  and random bits, and adoption looks the id up first.
\<close>

fun op_fresh :: "reg_op \<Rightarrow> registry \<Rightarrow> bool" where
  "op_fresh (Register l m run_id now plan repo sess cfg sched) r = (hm_get (reg_runs r) run_id = None)"
| "op_fresh (Enqueue p) r = (hm_get (reg_runs r) (pr_run_id p) = None)"
| "op_fresh (Adopt m e) r = (hm_get (reg_runs r) (re_run_id e) = None)"
| "op_fresh _ r = True"

inductive reg_trace :: "env \<Rightarrow> registry \<Rightarrow> reg_op list \<Rightarrow> registry \<Rightarrow> bool" for E where
  reg_trace_Nil: "reg_trace E r [] r"
| reg_trace_Cons: "op_fresh op r \<Longrightarrow> reg_trace E (apply_op E op r) ops r' \<Longrightarrow> reg_trace E r (op # ops) r'"

inductive_cases reg_trace_NilE: "reg_trace E r [] r'"
inductive_cases reg_trace_ConsE: "reg_trace E r (op # ops) r'"
inductive_simps reg_trace_simps: "reg_trace E r [] r'" "reg_trace E r (op # ops) r'"

lemma reg_trace_preserves:
  assumes "reg_trace E r ops r'" and "P r"
    and step: "\<And>op r. op \<in> set ops \<Longrightarrow> op_fresh op r \<Longrightarrow> P r \<Longrightarrow> P (apply_op E op r)"
  shows "P r'"
  using assms(1,2) step
proof (induction rule: reg_trace.induct)
  case (reg_trace_Nil r)
  then show ?case by simp
next
  case (reg_trace_Cons op r ops r')
  then show ?case by simp
qed

section \<open>Transitions of one run\<close>

text \<open>The code's guard is the preorder of life stages.\<close>

lemma stage_status_cases:
  "stage_status_locked E now run_id status phase error r =
    (case hm_get (reg_runs r) run_id of
       None \<Rightarrow> Inl (NotFound run_id)
     | Some e \<Rightarrow>
         if re_status e \<le> status then
           Inr (\<lparr>ss_entry = staged_entry now status phase error e, ss_epoch = re_write_epoch e + 1\<rparr>,
                r\<lparr>reg_runs := hm_insert run_id (staged_entry now status phase error e) (reg_runs r),
                  reg_repo_locks :=
                    (if is_terminal status then hm_remove (repo_hash E (re_repo_dir e)) (reg_repo_locks r)
                     else reg_repo_locks r)\<rparr>)
         else Inl (InvalidTransition (re_status e) status))"
proof (cases "hm_get (reg_runs r) run_id")
  case None
  then show ?thesis by (simp add: stage_status_locked_def)
next
  case (Some e)
  show ?thesis
  proof (cases "re_status e \<le> status")
    case True
    then have "\<not> (is_terminal (re_status e) \<and> \<not> is_terminal status)"
      and "\<not> (re_status e = Running \<and> status = Queued)"
      using backward_iff [of "re_status e" status] by auto
    with Some True show ?thesis
      by (simp add: stage_status_locked_def Let_def staged_entry_def del: de_Morgan_conj)
  next
    case False
    with Some show ?thesis
      using backward_iff [of "re_status e" status]
      by (auto simp: stage_status_locked_def Let_def)
  qed
qed

lemma staged_entry_sel [simp]:
  "re_run_id (staged_entry now s ph er e) = re_run_id e"
  "re_repo_dir (staged_entry now s ph er e) = re_repo_dir e"
  "re_plan_path (staged_entry now s ph er e) = re_plan_path e"
  "re_restartable (staged_entry now s ph er e) = re_restartable e"
  "re_status (staged_entry now s ph er e) = s"
  "re_write_epoch (staged_entry now s ph er e) = re_write_epoch e + 1"
  by (simp_all add: staged_entry_def)

text \<open>
  The transition guard. A staged change is accepted exactly when the run exists and the
  new status is not an earlier stage of its life (a finished run stays finished, a running one does
  not go back to the queue); then the run has the new status and a bumped write epoch, no other run
  changes, and the repository's lock is given up iff the new status is terminal. A rejected
  change reports why.
\<close>
theorem stage_status_exact:
  "case stage_status_locked E now run_id status phase error r of
     Inl err \<Rightarrow>
       (hm_get (reg_runs r) run_id = None \<and> err = NotFound run_id)
       \<or> (\<exists>e. hm_get (reg_runs r) run_id = Some e \<and> \<not> re_status e \<le> status
            \<and> err = InvalidTransition (re_status e) status)
   | Inr (staged, r') \<Rightarrow>
       \<exists>e. hm_get (reg_runs r) run_id = Some e \<and> re_status e \<le> status
         \<and> re_status (ss_entry staged) = status \<and> ss_epoch staged = re_write_epoch e + 1
         \<and> hm_get (reg_runs r') run_id = Some (ss_entry staged)
         \<and> (\<forall>other. other \<noteq> run_id \<longrightarrow> hm_get (reg_runs r') other = hm_get (reg_runs r) other)
         \<and> (\<forall>h. hm_get (reg_repo_locks r') h =
              (if is_terminal status \<and> h = repo_hash E (re_repo_dir e) then None
               else hm_get (reg_repo_locks r) h))"
  by (auto simp: stage_status_cases split: option.split)

text \<open>What every operation grants a run that is there: it only moves forward.\<close>

definition run_grows :: "run_entry \<Rightarrow> run_entry \<Rightarrow> bool" where
  "run_grows e e' \<longleftrightarrow>
     re_status e \<le> re_status e' \<and> re_run_id e' = re_run_id e \<and> re_repo_dir e' = re_repo_dir e
     \<and> re_plan_path e' = re_plan_path e \<and> (re_restartable e \<longrightarrow> re_restartable e')"

lemma run_grows_refl [simp]: "run_grows e e"
  by (simp add: run_grows_def)

lemma run_grows_touched [simp]: "run_grows e (touch_entry pid rec tmux e)"
  by (simp add: run_grows_def touch_entry_def)

lemma run_grows_progressed [simp]: "run_grows e (progress_entry phase b e)"
  by (simp add: run_grows_def progress_entry_def)

lemma run_grows_trans: "run_grows e e' \<Longrightarrow> run_grows e' e'' \<Longrightarrow> run_grows e e''"
  by (auto simp: run_grows_def intro: order_trans)

lemma run_grows_staged: "re_status e \<le> s \<Longrightarrow> run_grows e (staged_entry now s ph er e)"
  by (simp add: run_grows_def)

definition runs_grow :: "registry \<Rightarrow> registry \<Rightarrow> bool" where
  "runs_grow r r' \<longleftrightarrow>
    (\<forall>i e. hm_get (reg_runs r) i = Some e \<longrightarrow> (\<exists>e'. hm_get (reg_runs r') i = Some e' \<and> run_grows e e'))"

lemma runs_grow_refl [simp]: "runs_grow r r"
  by (simp add: runs_grow_def)

lemma runs_grow_trans: "runs_grow r r' \<Longrightarrow> runs_grow r' r'' \<Longrightarrow> runs_grow r r''"
  unfolding runs_grow_def by (meson run_grows_trans)

lemma runs_grow_same: "reg_runs r' = reg_runs r \<Longrightarrow> runs_grow r r'"
  by (simp add: runs_grow_def)

lemma runs_grow_update:
  "hm_get (reg_runs r) i = Some e \<Longrightarrow> run_grows e e' \<Longrightarrow> reg_runs r' = hm_insert i e' (reg_runs r) \<Longrightarrow>
    runs_grow r r'"
  by (auto simp: runs_grow_def)

lemma runs_grow_new:
  "hm_get (reg_runs r) i = None \<Longrightarrow> reg_runs r' = hm_insert i e' (reg_runs r) \<Longrightarrow> runs_grow r r'"
  by (auto simp: runs_grow_def)

lemma stage_grows: "stage_status_locked E now i s ph er r = Inr (st, r') \<Longrightarrow> runs_grow r r'"
  by (auto simp: stage_status_cases split: option.splits if_splits
      intro!: runs_grow_update run_grows_staged)

lemma stage_stopped_all_grows: "runs_grow r (snd (stage_stopped_all E now reason ids r))"
proof (induction ids arbitrary: r)
  case Nil
  show ?case by simp
next
  case (Cons i ids)
  show ?case
  proof (cases "stage_status_locked E now i Stopped None (Some reason) r")
    case (Inl e)
    with Cons.IH show ?thesis by simp
  next
    case (Inr p)
    obtain s r1 where p: "p = (s, r1)" by (cases p)
    from Inr p stage_grows have "runs_grow r r1" by blast
    with Cons.IH [of r1] Inr p show ?thesis
      by (auto simp: case_prod_beta intro: runs_grow_trans)
  qed
qed

lemma stage_keeps:
  assumes "stage_status_locked E now i s ph er r = Inr (st, r')"
  shows "reg_pending_queues r' = reg_pending_queues r"
    and "reg_repo_insertion_order r' = reg_repo_insertion_order r"
    and "reg_consecutive_failures r' = reg_consecutive_failures r"
    and "reg_queue_epoch r' = reg_queue_epoch r"
  using assms by (auto simp: stage_status_cases split: option.splits if_splits)

lemma stage_stopped_all_keeps [simp]:
  "reg_pending_queues (snd (stage_stopped_all E now reason ids r)) = reg_pending_queues r"
  "reg_repo_insertion_order (snd (stage_stopped_all E now reason ids r)) = reg_repo_insertion_order r"
  "reg_consecutive_failures (snd (stage_stopped_all E now reason ids r)) = reg_consecutive_failures r"
  "reg_queue_epoch (snd (stage_stopped_all E now reason ids r)) = reg_queue_epoch r"
proof (induction ids arbitrary: r)
  case (Cons i ids)
  { case 1 with Cons show ?case
      by (auto simp: case_prod_beta stage_keeps split: sum.split) }
  { case 2 with Cons show ?case
      by (auto simp: case_prod_beta stage_keeps split: sum.split) }
  { case 3 with Cons show ?case
      by (auto simp: case_prod_beta stage_keeps split: sum.split) }
  { case 4 with Cons show ?case
      by (auto simp: case_prod_beta stage_keeps split: sum.split) }
qed simp_all

lemma runs_of_stage_queue [simp]:
  "reg_runs (snd (stage_queue_locked r)) = reg_runs r"
  "reg_repo_locks (snd (stage_queue_locked r)) = reg_repo_locks r"
  "reg_pending_queues (snd (stage_queue_locked r)) = reg_pending_queues r"
  "reg_repo_insertion_order (snd (stage_queue_locked r)) = reg_repo_insertion_order r"
  "reg_consecutive_failures (snd (stage_queue_locked r)) = reg_consecutive_failures r"
  by (simp_all add: stage_queue_locked_def Let_def)

lemma acquire_Inr:
  "acquire_repo_lock E io d r = Inr r' \<Longrightarrow>
     hm_get (reg_repo_locks r) (repo_hash E d) = None
     \<and> r' = r\<lparr>reg_repo_locks := hm_insert (repo_hash E d) LockFile (reg_repo_locks r)\<rparr>"
  by (auto simp: acquire_repo_lock_def Let_def split: if_splits option.splits)

lemma acquire_adopt_Inr:
  "acquire_repo_lock_for_adopt E io d r = Inr r' \<Longrightarrow>
     r' = r \<or> (hm_get (reg_repo_locks r) (repo_hash E d) = None
       \<and> r' = r\<lparr>reg_repo_locks := hm_insert (repo_hash E d) LockFile (reg_repo_locks r)\<rparr>)"
  by (auto simp: acquire_repo_lock_for_adopt_def Let_def split: if_splits option.splits)

lemma release_runs [simp]:
  "reg_runs (release_from g r) = reg_runs r"
  "reg_pending_queues (release_from g r) = reg_pending_queues r"
  "reg_repo_insertion_order (release_from g r) = reg_repo_insertion_order r"
  "reg_consecutive_failures (release_from g r) = reg_consecutive_failures r"
  "reg_queue_epoch (release_from g r) = reg_queue_epoch r"
  by (simp_all add: release_from_def)

lemma pop_front_Some:
  "pop_front h r = Some (p, r') \<longleftrightarrow>
    (\<exists>rest. queue_of r h = p # rest
      \<and> r' = r\<lparr>reg_pending_queues := hm_insert h rest (reg_pending_queues r)\<rparr>)"
  by (auto simp: pop_front_def split: list.splits)

text \<open>The three outcomes of registering, and the two of promoting.\<close>

lemma register_cases:
  obtains (locked) e where "register_run_with_schedule E l m i now pl d sn cd sc r = (Inl e, r)"
  | (not_written) e where "m = Some e" "hm_get (reg_repo_locks r) (repo_hash E d) = None"
      "register_run_with_schedule E l m i now pl d sn cd sc r
        = (Inl e, release_from (guard_new (repo_hash E d))
            (r\<lparr>reg_repo_locks := hm_insert (repo_hash E d) LockFile (reg_repo_locks r)\<rparr>))"
  | (registered) "m = None" "hm_get (reg_repo_locks r) (repo_hash E d) = None"
      "register_run_with_schedule E l m i now pl d sn cd sc r
        = (Inr i, r\<lparr>reg_repo_locks := hm_insert (repo_hash E d) LockFile (reg_repo_locks r),
            reg_runs := hm_insert i (fresh_entry i now pl d sn cd sc) (reg_runs r)\<rparr>)"
proof (cases "acquire_repo_lock E l d r")
  case (Inl e)
  then show ?thesis using locked by (simp add: register_run_with_schedule_def)
next
  case (Inr r1)
  from acquire_Inr [OF this] Inr show ?thesis
    using not_written registered by (cases m) (auto simp: register_run_with_schedule_def)
qed

lemma promote_cases:
  obtains (refused) e where "promote_queued E l m now i r = (Inl e, r)"
  | (not_written) e entry where "m = Some e" "hm_get (reg_runs r) i = Some entry"
      "re_status entry = Queued" "hm_get (reg_repo_locks r) (repo_hash E (re_repo_dir entry)) = None"
      "promote_queued E l m now i r = (Inl (PromoteWrite e),
         release_from (guard_new (repo_hash E (re_repo_dir entry)))
           (r\<lparr>reg_repo_locks := hm_insert (repo_hash E (re_repo_dir entry)) LockFile (reg_repo_locks r),
              reg_runs := hm_insert i (promoted_entry now entry) (reg_runs r)\<rparr>))"
  | (promoted) entry where "m = None" "hm_get (reg_runs r) i = Some entry"
      "re_status entry = Queued" "hm_get (reg_repo_locks r) (repo_hash E (re_repo_dir entry)) = None"
      "promote_queued E l m now i r = (Inr (),
         r\<lparr>reg_repo_locks := hm_insert (repo_hash E (re_repo_dir entry)) LockFile (reg_repo_locks r),
           reg_runs := hm_insert i (promoted_entry now entry) (reg_runs r)\<rparr>)"
proof (cases "hm_get (reg_runs r) i")
  case None
  then show ?thesis using refused by (simp add: promote_queued_def)
next
  case (Some entry)
  show ?thesis
  proof (cases "re_status entry = Queued")
    case False
    with Some show ?thesis using refused by (simp add: promote_queued_def)
  next
    case True
    show ?thesis
    proof (cases "acquire_repo_lock E l (re_repo_dir entry) r")
      case (Inl e)
      with Some True show ?thesis using refused by (simp add: promote_queued_def)
    next
      case (Inr r1)
      from acquire_Inr [OF this] Inr Some True show ?thesis
        using not_written promoted by (cases m) (auto simp: promote_queued_def)
    qed
  qed
qed

lemma run_grows_promoted: "run_grows e (promoted_entry now e)"
  by (simp add: run_grows_def promoted_entry_def)

lemma dequeue_cases:
  obtains (none) "dequeue_run_staged E now i r = (None, r)"
  | (popped) p qs where "pop_from_pending_queues i (reg_pending_queues r) = Some (p, qs)"
      "dequeue_run_staged E now i r = (None, r\<lparr>reg_pending_queues := qs\<rparr>)"
  | (stopped) p qs st r2 where "pop_from_pending_queues i (reg_pending_queues r) = Some (p, qs)"
      "stage_status_locked E now i Stopped None (Some ''removed from queue'') (r\<lparr>reg_pending_queues := qs\<rparr>)
        = Inr (st, r2)"
      "snd (dequeue_run_staged E now i r) = snd (stage_queue_locked r2)"
proof (cases "pop_from_pending_queues i (reg_pending_queues r)")
  case None
  then show ?thesis using none
    by (simp add: dequeue_run_staged_def dequeue_run_without_snapshot_no_flush_def)
next
  case (Some pq)
  obtain p qs where pq: "pq = (p, qs)" by (cases pq)
  show ?thesis
  proof (cases "stage_status_locked E now i Stopped None (Some ''removed from queue'') (r\<lparr>reg_pending_queues := qs\<rparr>)")
    case (Inl e)
    with Some pq show ?thesis using popped [of p qs]
      by (simp add: dequeue_run_staged_def dequeue_run_without_snapshot_no_flush_def)
  next
    case (Inr s)
    obtain st r2 where s: "s = (st, r2)" by (cases s)
    from Inr Some pq s show ?thesis using stopped [of p qs st r2]
      by (simp add: dequeue_run_staged_def dequeue_run_without_snapshot_no_flush_def case_prod_beta)
  qed
qed

section \<open>Runs only move forward\<close>

lemma register_grows:
  assumes "hm_get (reg_runs r) i = None"
  shows "runs_grow r (snd (register_run_with_schedule E l m i now pl d sn cd sc r))"
proof (cases rule: register_cases [of E l m i now pl d sn cd sc r])
  case registered
  with assms show ?thesis by (auto intro: runs_grow_new)
qed (auto intro: runs_grow_same)

lemma promote_grows: "runs_grow r (snd (promote_queued E l m now i r))"
proof (cases rule: promote_cases [of E l m now i r])
  case (not_written e entry)
  then show ?thesis by (auto intro: runs_grow_update [OF _ run_grows_promoted])
next
  case (promoted entry)
  then show ?thesis by (auto intro: runs_grow_update [OF _ run_grows_promoted])
qed simp

lemma dequeue_grows: "runs_grow r (snd (dequeue_run_staged E now i r))"
proof (cases rule: dequeue_cases [of E now i r])
  case (popped p qs)
  then show ?thesis by (simp add: runs_grow_same)
next
  case (stopped p qs st r2)
  from stage_grows [OF stopped(2)] have "runs_grow r r2"
    by (auto simp: runs_grow_def)
  with stopped(3) show ?thesis by (simp add: runs_grow_def)
qed simp

lemma enqueue_cases:
  obtains (refused) e where "enqueue_run_without_snapshot E p r = Inl e"
  | (queued) "total_pending_count r < MAX_QUEUE_SIZE"
      "\<forall>e \<in> set (hm_values (reg_runs r)). \<not> same_plan_active E p e"
      "enqueue_run_without_snapshot E p r =
        Inr ((length (queue_of r (repo_hash E (pr_repo_dir p)) @ [p]), queued_entry p),
          r\<lparr>reg_runs := hm_insert (pr_run_id p) (queued_entry p) (reg_runs r),
            reg_repo_insertion_order :=
              (if repo_hash E (pr_repo_dir p) \<in> set (reg_repo_insertion_order r)
               then reg_repo_insertion_order r
               else reg_repo_insertion_order r @ [repo_hash E (pr_repo_dir p)]),
            reg_pending_queues :=
              hm_insert (repo_hash E (pr_repo_dir p))
                (queue_of r (repo_hash E (pr_repo_dir p)) @ [p]) (reg_pending_queues r)\<rparr>)"
proof (cases "total_pending_count r \<ge> MAX_QUEUE_SIZE")
  case True
  then show ?thesis using refused by (simp add: enqueue_run_without_snapshot_def)
next
  case False
  show ?thesis
  proof (cases "find (same_plan_active E p) (hm_values (reg_runs r))")
    case (Some e)
    with False show ?thesis using refused by (simp add: enqueue_run_without_snapshot_def)
  next
    case None
    then have "\<forall>e \<in> set (hm_values (reg_runs r)). \<not> same_plan_active E p e"
      by (simp add: find_None_iff_all)
    with None False show ?thesis using queued by (simp add: enqueue_run_without_snapshot_def Let_def)
  qed
qed

lemma record_failure_cases:
  obtains (counted) "failures_of r (repo_hash E d) + 1 < MAX_CONSECUTIVE_FAILURES"
      "record_queue_failure_without_snapshot E now d r
        = ([], r\<lparr>reg_consecutive_failures :=
                  hm_insert (repo_hash E d) (failures_of r (repo_hash E d) + 1) (reg_consecutive_failures r)\<rparr>)"
  | (tripped) r2 where "failures_of r (repo_hash E d) + 1 \<ge> MAX_CONSECUTIVE_FAILURES"
      "r2 = r\<lparr>reg_consecutive_failures :=
            hm_insert (repo_hash E d) (failures_of r (repo_hash E d) + 1) (reg_consecutive_failures r),
          reg_pending_queues :=
            (case hm_get (reg_pending_queues r) (repo_hash E d) of
               Some _ \<Rightarrow> hm_insert (repo_hash E d) [] (reg_pending_queues r)
             | None \<Rightarrow> reg_pending_queues r)\<rparr>"
      "record_queue_failure_without_snapshot E now d r
        = (fst (stage_stopped_all E now ''circuit breaker tripped'' (map pr_run_id (queue_of r (repo_hash E d))) r2),
           (snd (stage_stopped_all E now ''circuit breaker tripped'' (map pr_run_id (queue_of r (repo_hash E d))) r2))
             \<lparr>reg_consecutive_failures := hm_remove (repo_hash E d) (reg_consecutive_failures r2)\<rparr>)"
proof (cases "failures_of r (repo_hash E d) + 1 < MAX_CONSECUTIVE_FAILURES")
  case True
  then show ?thesis using counted by (simp add: record_queue_failure_without_snapshot_def Let_def)
next
  case False
  then show ?thesis
    using tripped [OF _ refl]
    by (auto simp: record_queue_failure_without_snapshot_def Let_def queue_of_def case_prod_beta
        split: option.split option.split_asm)
qed

lemma record_failure_grows: "runs_grow r (snd (record_queue_failure_without_snapshot E now d r))"
proof (cases rule: record_failure_cases [of r E d now])
  case counted
  then show ?thesis by (simp add: runs_grow_same)
next
  case (tripped r2)
  from tripped(2) have "runs_grow r r2" by (simp add: runs_grow_same)
  moreover have "runs_grow r2 (snd (record_queue_failure_without_snapshot E now d r))"
    using stage_stopped_all_grows [of r2 E now "''circuit breaker tripped''"
        "map pr_run_id (queue_of r (repo_hash E d))"] tripped(3)
    by (simp add: runs_grow_def)
  ultimately show ?thesis by (rule runs_grow_trans)
qed

lemma clear_grows: "runs_grow r (snd (clear_queue_staged E now f r))"
  using stage_stopped_all_grows
    [of "r\<lparr>reg_pending_queues := map (\<lambda>(h, q). (h, filter (\<lambda>p. \<not> filter_selects E f p) q)) (reg_pending_queues r)\<rparr>"
      E now "''cleared by user''" "map pr_run_id (filter (filter_selects E f) (pending_entries r))"]
  by (simp add: clear_queue_staged_def Let_def case_prod_beta runs_grow_def)

text \<open>Every operation but the removal of a run lets all runs that are there only move forward.\<close>

lemma apply_op_grows:
  assumes "op_fresh op r" and "\<forall>m i. op \<noteq> RemoveRun m i"
  shows "runs_grow r (apply_op E op r)"
proof (cases op)
  case (Register l m i now pl d sn cd sc)
  with assms show ?thesis by (simp add: register_grows)
next
  case (Stage now i s ph er)
  then show ?thesis by (auto split: sum.split dest: stage_grows)
next
  case (Touch i pid rec tmux)
  then show ?thesis
    by (auto simp: touch_run_def split: option.split intro!: runs_grow_update)
next
  case (Progress i phase b)
  then show ?thesis
    by (auto simp: progress_run_def split: option.split intro!: runs_grow_update)
next
  case (Enqueue p)
  show ?thesis
  proof (cases rule: enqueue_cases [of E p r])
    case (refused e)
    with Enqueue show ?thesis by simp
  next
    case queued
    with Enqueue assms(1) show ?thesis by (auto intro: runs_grow_new)
  qed
next
  case (Dequeue now i)
  then show ?thesis by (simp add: dequeue_grows)
next
  case (Promote l m now i)
  then show ?thesis by (simp add: promote_grows)
next
  case (DrainNext d)
  then show ?thesis
    by (auto simp: drain_next_without_snapshot_def Let_def pop_front_Some split: option.split
        intro: runs_grow_same)
next
  case DrainAny
  then show ?thesis
    by (auto simp: drain_any_ready_without_snapshot_def pop_front_Some split: option.split
        intro: runs_grow_same)
next
  case (RecordFailure now d)
  then show ?thesis by (simp add: record_failure_grows)
next
  case (ClearQueue now f)
  then show ?thesis by (simp add: clear_grows)
next
  case (Adopt m e)
  with assms(1) show ?thesis by (auto simp: adopt_def intro: runs_grow_new)
next
  case (AdoptLock l d)
  then show ?thesis by (auto split: sum.split dest!: acquire_adopt_Inr simp: runs_grow_same)
next
  case (RemoveRun m i)
  with assms(2) show ?thesis by simp
qed (simp_all add: record_queue_success_without_snapshot_def remove_pending_staged_def
    remove_pending_without_snapshot_def runs_grow_same)

text \<open>
  C4: the life of a run. Along any sequence of registry operations, in any interleaving and
  with any I/O outcomes, a run that is not removed keeps its id, repository and plan, and its status
  never goes back to an earlier stage: a finished run stays finished, and a run that has started
  is never queued again.
\<close>
theorem run_life_is_forward:
  assumes "reg_trace E r ops r'"
    and "hm_get (reg_runs r) run_id = Some e"
    and "\<forall>m i. RemoveRun m i \<notin> set ops"
  shows "\<exists>e'. hm_get (reg_runs r') run_id = Some e' \<and> re_status e \<le> re_status e'
    \<and> re_run_id e' = re_run_id e \<and> re_repo_dir e' = re_repo_dir e \<and> re_plan_path e' = re_plan_path e"
proof -
  have "runs_grow r r'"
  proof (rule reg_trace_preserves [OF assms(1)])
    show "runs_grow r r" by simp
    show "runs_grow r (apply_op E op r1)"
      if "op \<in> set ops" "op_fresh op r1" "runs_grow r r1" for op r1
    proof -
      from that(1) assms(3) have "\<forall>m i. op \<noteq> RemoveRun m i" by auto
      with that(2) have "runs_grow r1 (apply_op E op r1)" by (rule apply_op_grows)
      with that(3) show ?thesis by (rule runs_grow_trans)
    qed
  qed
  with assms(2) show ?thesis by (auto simp: runs_grow_def run_grows_def)
qed

text \<open>A concrete machine for the witnesses: paths are canonical, and hashes are the paths.\<close>

definition plain_env :: env where
  "plain_env = \<lparr>env_canonicalize = (\<lambda>p. Some p), env_hash16 = (\<lambda>s. s)\<rparr>"

lemma plain_env_simps [simp]:
  "repo_hash plain_env d = d" "canonical_or_self plain_env d = d"
  by (simp_all add: plain_env_def repo_hash_def canonical_or_self_def)

definition pend :: "string \<Rightarrow> path \<Rightarrow> path \<Rightarrow> pending_run" where
  "pend i plan repo = \<lparr>pr_run_id = i, pr_plan_path = plan, pr_repo_dir = repo, pr_session_name = None,
     pr_config_dir = None, pr_verbose = 0, pr_queued_at = 0\<rparr>"

definition one_run :: registry where
  "one_run = apply_op plain_env (Register LockTaken io_ok ''a1'' 0 ''/p.md'' ''/r'' None None None) registry_new"

lemma one_run_get: "hm_get (reg_runs one_run) ''a1'' = Some (fresh_entry ''a1'' 0 ''/p.md'' ''/r'' None None None)"
  by (simp add: one_run_def register_run_with_schedule_def acquire_repo_lock_def registry_new_def
      take_lock_file_def)

theorem run_life_is_forward_witness:
  "\<exists>e'. hm_get (reg_runs
        (apply_op plain_env (Stage 2 ''a1'' Queued None None)
          (apply_op plain_env (Stage 1 ''a1'' Failed None (Some ''x'')) one_run))) ''a1'' = Some e'
     \<and> re_status (fresh_entry ''a1'' 0 ''/p.md'' ''/r'' None None None) \<le> re_status e'
     \<and> re_run_id e' = ''a1'' \<and> re_repo_dir e' = ''/r'' \<and> re_plan_path e' = ''/p.md''"
proof -
  have tr: "reg_trace plain_env one_run [Stage 1 ''a1'' Failed None (Some ''x''), Stage 2 ''a1'' Queued None None]
      (apply_op plain_env (Stage 2 ''a1'' Queued None None)
        (apply_op plain_env (Stage 1 ''a1'' Failed None (Some ''x'')) one_run))"
    by (simp add: reg_trace_simps del: apply_op.simps)
  have none: "\<forall>m i. RemoveRun m i \<notin> set [Stage 1 ''a1'' Failed None (Some ''x''), Stage 2 ''a1'' Queued None None]"
    by simp
  show ?thesis
    using run_life_is_forward [OF tr one_run_get none] by (simp add: fresh_entry_def del: apply_op.simps)
qed

theorem stage_status_exact_witness:
  "case stage_status_locked plain_env 1 ''a1'' Failed None None one_run of
     Inl err \<Rightarrow> False
   | Inr (staged, r') \<Rightarrow> re_status (ss_entry staged) = Failed \<and> hm_get (reg_repo_locks r') ''/r'' = None"
proof -
  have "Queued \<le> Failed" by (simp add: less_eq_RunStatus_def)
  with one_run_get stage_status_exact [where E = plain_env and now = 1 and run_id = "''a1''" and status = Failed and phase = None
      and error = None and r = one_run] show ?thesis
    by (auto simp: fresh_entry_def split: sum.splits)
qed

section \<open>The invariant\<close>

definition hashes_ok :: "env \<Rightarrow> registry \<Rightarrow> bool" where
  "hashes_ok E r \<longleftrightarrow>
    (\<forall>(h, q) \<in> set (reg_pending_queues r). \<forall>p \<in> set q. repo_hash E (pr_repo_dir p) = h)"

definition order_ok :: "registry \<Rightarrow> bool" where
  "order_ok r \<longleftrightarrow> distinct (reg_repo_insertion_order r)
    \<and> (\<forall>(h, q) \<in> set (reg_pending_queues r). q \<noteq> [] \<longrightarrow> h \<in> set (reg_repo_insertion_order r))"

definition failures_ok :: "registry \<Rightarrow> bool" where
  "failures_ok r \<longleftrightarrow> hm_ok (reg_consecutive_failures r)
    \<and> (\<forall>(h, n) \<in> set (reg_consecutive_failures r). 0 < n \<and> n < MAX_CONSECUTIVE_FAILURES)"

definition runs_ok :: "registry \<Rightarrow> bool" where
  "runs_ok r \<longleftrightarrow> hm_ok (reg_runs r) \<and> (\<forall>(i, e) \<in> set (reg_runs r). re_run_id e = i)"

definition queues_ok :: "registry \<Rightarrow> bool" where
  "queues_ok r \<longleftrightarrow> hm_ok (reg_pending_queues r) \<and> total_pending_count r \<le> MAX_QUEUE_SIZE"

definition reg_inv :: "env \<Rightarrow> registry \<Rightarrow> bool" where
  "reg_inv E r \<longleftrightarrow> runs_ok r \<and> queues_ok r \<and> hashes_ok E r \<and> order_ok r \<and> failures_ok r"

text \<open>Facts about the entries of an updated map.\<close>

lemma set_update_in: "x \<in> set (AList.update k v m) \<Longrightarrow> x = (k, v) \<or> x \<in> set m"
  by (induction m) (auto split: if_splits)

lemma set_delete_in: "x \<in> set (AList.delete k m) \<Longrightarrow> x \<in> set m"
  by (auto simp: AList.delete_eq)

lemma total_length_update:
  "sum_list (map length (map snd (AList.update k v m)))
     + (case map_of m k of Some q \<Rightarrow> length q | None \<Rightarrow> 0)
   = sum_list (map length (map snd m)) + length v"
  by (induction m) auto

lemma total_with_queue:
  "sum_list (map length (hm_values (hm_insert h q (reg_pending_queues r)))) + length (queue_of r h)
     = total_pending_count r + length q"
  using total_length_update [of h q "reg_pending_queues r"]
  by (simp add: total_pending_count_def queue_of_def split: option.splits)

lemma queue_of_in: "queue_of r h \<noteq> [] \<Longrightarrow> (h, queue_of r h) \<in> set (reg_pending_queues r)"
  by (auto simp: queue_of_def split: option.splits dest: map_of_SomeD)

lemma runs_ok_insert:
  "runs_ok r \<Longrightarrow> re_run_id e = i \<Longrightarrow> reg_runs r' = hm_insert i e (reg_runs r) \<Longrightarrow> runs_ok r'"
  by (auto simp: runs_ok_def dest!: set_update_in)

lemma runs_ok_get: "runs_ok r \<Longrightarrow> hm_get (reg_runs r) i = Some e \<Longrightarrow> re_run_id e = i"
  by (auto simp: runs_ok_def dest: map_of_SomeD)

lemma runs_ok_remove: "runs_ok r \<Longrightarrow> reg_runs r' = hm_remove i (reg_runs r) \<Longrightarrow> runs_ok r'"
  by (auto simp: runs_ok_def dest!: set_delete_in)

lemma reg_inv_same:
  "reg_inv E r \<Longrightarrow> reg_runs r' = reg_runs r \<Longrightarrow> reg_pending_queues r' = reg_pending_queues r \<Longrightarrow>
    reg_repo_insertion_order r' = reg_repo_insertion_order r \<Longrightarrow>
    reg_consecutive_failures r' = reg_consecutive_failures r \<Longrightarrow> reg_inv E r'"
  by (simp add: reg_inv_def runs_ok_def queues_ok_def hashes_ok_def order_ok_def failures_ok_def
      total_pending_count_def)

lemma reg_inv_runs:
  "reg_inv E r \<Longrightarrow> runs_ok r' \<Longrightarrow> reg_pending_queues r' = reg_pending_queues r \<Longrightarrow>
    reg_repo_insertion_order r' = reg_repo_insertion_order r \<Longrightarrow>
    reg_consecutive_failures r' = reg_consecutive_failures r \<Longrightarrow> reg_inv E r'"
  by (simp add: reg_inv_def queues_ok_def hashes_ok_def order_ok_def failures_ok_def
      total_pending_count_def)

text \<open>Queues may shrink in place: same keys, each queue a subsequence of the old one.\<close>

definition shrinks ::
  "(string, pending_run list) hash_map \<Rightarrow> (string, pending_run list) hash_map \<Rightarrow> bool" where
  "shrinks m' m \<longleftrightarrow> list_all2 (\<lambda>x' x. fst x' = fst x \<and> subseq (snd x') (snd x)) m' m"

lemma shrinks_refl [simp]: "shrinks m m"
  by (simp add: shrinks_def list_all2_refl)

lemma shrinks_keys: "shrinks m' m \<Longrightarrow> hm_keys m' = hm_keys m"
  unfolding shrinks_def by (induction rule: list_all2_induct) auto

lemma shrinks_total:
  "shrinks m' m \<Longrightarrow> sum_list (map length (hm_values m')) \<le> sum_list (map length (hm_values m))"
  unfolding shrinks_def by (induction rule: list_all2_induct) (auto dest: list_emb_length)

lemma shrinks_entry:
  "shrinks m' m \<Longrightarrow> (h, q') \<in> set m' \<Longrightarrow> \<exists>q. (h, q) \<in> set m \<and> subseq q' q"
  unfolding shrinks_def by (induction rule: list_all2_induct) auto

lemma shrinks_update: "map_of m h = Some q \<Longrightarrow> subseq q' q \<Longrightarrow> shrinks (hm_insert h q' m) m"
  unfolding shrinks_def by (induction m) (auto simp: list_all2_refl split: if_splits)

lemma shrinks_map: "(\<And>q. subseq (f q) q) \<Longrightarrow> shrinks (map (\<lambda>(h, q). (h, f q)) m) m"
  unfolding shrinks_def by (induction m) auto

lemma shrinks_pop:
  "pop_from_pending_queues i m = Some (p, m') \<Longrightarrow> shrinks m' m"
proof (induction i m arbitrary: m' rule: pop_from_pending_queues.induct)
  case (1 i)
  then show ?case by simp
next
  case (2 i h q rest)
  show ?case
  proof (cases "position_of (\<lambda>p. pr_run_id p = i) q")
    case None
    then obtain m1 where "pop_from_pending_queues i rest = Some (p, m1)" "m' = (h, q) # m1"
      using "2.prems" by (auto simp del: position_None)
    with "2.IH" [OF None] show ?thesis by (simp add: shrinks_def)
  next
    case (Some pos)
    have "subseq (take pos q @ drop (Suc pos) q) (take pos q @ drop pos q)"
      by (rule list_emb_append_mono [OF subseq_order.refl])
        (metis drop_Suc drop_Suc_Cons subseq_drop_many tl_drop list.exhaust drop_Nil subseq_order.refl
          drop_Cons' subseq_order.order_refl suffix_drop suffix_imp_subseq suffix_tl)
    with Some "2.prems" show ?thesis by (auto simp: shrinks_def list_all2_refl)
  qed
qed

lemma reg_inv_shrink:
  assumes inv: "reg_inv E r" and sh: "shrinks (reg_pending_queues r') (reg_pending_queues r)"
    and ok: "runs_ok r'" "failures_ok r'"
    and ord: "reg_repo_insertion_order r' = reg_repo_insertion_order r"
  shows "reg_inv E r'"
proof -
  from inv have inv': "queues_ok r" "hashes_ok E r" "order_ok r" by (simp_all add: reg_inv_def)
  from inv'(1) have "queues_ok r'"
    using shrinks_keys [OF sh] shrinks_total [OF sh]
    by (simp add: queues_ok_def hm_ok_def total_pending_count_def)
  moreover have "hashes_ok E r'"
    unfolding hashes_ok_def
  proof (clarify)
    fix h q' p assume "(h, q') \<in> set (reg_pending_queues r')" "p \<in> set q'"
    moreover from shrinks_entry [OF sh this(1)]
    obtain q where "(h, q) \<in> set (reg_pending_queues r)" "subseq q' q" by blast
    ultimately have "(h, q) \<in> set (reg_pending_queues r)" "p \<in> set q"
      using list_emb_set [of "(=)" q' q p] by auto
    with inv'(2) show "repo_hash E (pr_repo_dir p) = h" by (auto simp: hashes_ok_def)
  qed
  moreover have "order_ok r'"
  proof -
    have "h \<in> set (reg_repo_insertion_order r)" if "(h, q') \<in> set (reg_pending_queues r')" "q' \<noteq> []" for h q'
    proof -
      from shrinks_entry [OF sh that(1)] obtain q where "(h, q) \<in> set (reg_pending_queues r)" "subseq q' q"
        by blast
      moreover with that(2) have "q \<noteq> []" by auto
      ultimately show ?thesis using inv'(3) by (auto simp: order_ok_def)
    qed
    with inv'(3) ord show ?thesis by (auto simp: order_ok_def)
  qed
  ultimately show ?thesis using ok by (simp add: reg_inv_def)
qed

lemma reg_inv_new: "reg_inv E registry_new"
  by (simp add: reg_inv_def runs_ok_def queues_ok_def hashes_ok_def order_ok_def failures_ok_def
      registry_new_def total_pending_count_def)

lemma reg_inv_runs_ok: "reg_inv E r \<Longrightarrow> runs_ok r"
  by (simp add: reg_inv_def)

lemma reg_inv_failures_ok: "reg_inv E r \<Longrightarrow> failures_ok r"
  by (simp add: reg_inv_def)

lemma runs_ok_same: "runs_ok r \<Longrightarrow> reg_runs r' = reg_runs r \<Longrightarrow> runs_ok r'"
  by (simp add: runs_ok_def)

lemma failures_ok_same:
  "failures_ok r \<Longrightarrow> reg_consecutive_failures r' = reg_consecutive_failures r \<Longrightarrow> failures_ok r'"
  by (simp add: failures_ok_def)

lemma stage_runs_ok:
  assumes "runs_ok r" and "stage_status_locked E now i s ph er r = Inr (st, r')"
  shows "runs_ok r'"
proof -
  from assms(2) obtain e where e: "hm_get (reg_runs r) i = Some e"
    and r': "reg_runs r' = hm_insert i (staged_entry now s ph er e) (reg_runs r)"
    by (auto simp: stage_status_cases split: option.splits if_splits)
  from runs_ok_get [OF assms(1) e] show ?thesis
    by (intro runs_ok_insert [OF assms(1) _ r']) simp
qed

lemma stage_stopped_all_runs_ok:
  "runs_ok r \<Longrightarrow> runs_ok (snd (stage_stopped_all E now reason ids r))"
  by (induction ids arbitrary: r) (auto simp: case_prod_beta stage_runs_ok split: sum.split)

lemma failures_ok_remove:
  "failures_ok r \<Longrightarrow> reg_consecutive_failures r' = hm_remove h (reg_consecutive_failures r) \<Longrightarrow> failures_ok r'"
  by (auto simp: failures_ok_def dest!: set_delete_in)

lemma pop_front_inv:
  assumes inv: "reg_inv E r" and pop: "pop_front h r = Some (p, r')"
  shows "reg_inv E r'"
proof -
  from pop obtain rest where rest: "queue_of r h = p # rest"
    and r': "r' = r\<lparr>reg_pending_queues := hm_insert h rest (reg_pending_queues r)\<rparr>"
    by (auto simp: pop_front_Some)
  from rest have "hm_get (reg_pending_queues r) h = Some (p # rest)"
    by (simp add: queue_of_def split: option.splits)
  moreover have "subseq rest (p # rest)" by (rule list_emb_Cons) simp
  ultimately have "shrinks (reg_pending_queues r') (reg_pending_queues r)"
    using shrinks_update r' by simp
  from reg_inv_shrink [OF inv this] r' inv show ?thesis
    by (simp add: reg_inv_def runs_ok_def failures_ok_def)
qed

lemma enqueue_inv:
  assumes inv: "reg_inv E r" and ok: "enqueue_run_without_snapshot E p r = Inr (out, r')"
  shows "reg_inv E r'"
proof (cases rule: enqueue_cases [of E p r])
  case (refused e)
  with ok show ?thesis by simp
next
  case queued
  let ?h = "repo_hash E (pr_repo_dir p)"
  let ?q = "queue_of r ?h @ [p]"
  from queued(3) ok have runs: "reg_runs r' = hm_insert (pr_run_id p) (queued_entry p) (reg_runs r)"
    and pq: "reg_pending_queues r' = hm_insert ?h ?q (reg_pending_queues r)"
    and ord: "set (reg_repo_insertion_order r') = insert ?h (set (reg_repo_insertion_order r))"
      "distinct (reg_repo_insertion_order r) \<longrightarrow> distinct (reg_repo_insertion_order r')"
    and fl: "reg_consecutive_failures r' = reg_consecutive_failures r"
    by auto
  have "runs_ok r'"
    by (rule runs_ok_insert [OF reg_inv_runs_ok [OF inv] _ runs]) (simp add: queued_entry_def)
  moreover have "queues_ok r'"
  proof -
    from total_with_queue [of ?h ?q r] pq have "total_pending_count r' = total_pending_count r + 1"
      by (simp add: total_pending_count_def)
    with queued(1) inv pq show ?thesis by (simp add: queues_ok_def reg_inv_def)
  qed
  moreover have "hashes_ok E r'"
  proof -
    have new: "repo_hash E (pr_repo_dir x) = ?h" if "x \<in> set ?q" for x
    proof (cases "x = p")
      case False
      with that have x: "x \<in> set (queue_of r ?h)" by simp
      then have "queue_of r ?h \<noteq> []" by auto
      from queue_of_in [OF this] x inv show ?thesis by (auto simp: reg_inv_def hashes_ok_def)
    qed simp
    have old: "hashes_ok E r" using inv by (simp add: reg_inv_def)
    show ?thesis unfolding hashes_ok_def
    proof (clarify)
      fix h q x assume hq: "(h, q) \<in> set (reg_pending_queues r')" and x: "x \<in> set q"
      from hq have "(h, q) = (?h, ?q) \<or> (h, q) \<in> set (reg_pending_queues r)"
        unfolding pq by (rule set_update_in)
      then show "repo_hash E (pr_repo_dir x) = h"
      proof
        assume "(h, q) = (?h, ?q)"
        with new [of x] x show ?thesis by blast
      next
        assume "(h, q) \<in> set (reg_pending_queues r)"
        with old x show ?thesis by (auto simp: hashes_ok_def)
      qed
    qed
  qed
  moreover have "order_ok r'"
  proof -
    have old: "order_ok r" using inv by (simp add: reg_inv_def)
    have "h \<in> set (reg_repo_insertion_order r')" if "(h, q) \<in> set (reg_pending_queues r')" "q \<noteq> []" for h q
    proof -
      from that(1) have "(h, q) = (?h, ?q) \<or> (h, q) \<in> set (reg_pending_queues r)"
        unfolding pq by (rule set_update_in)
      with that(2) old ord(1) show ?thesis by (auto simp: order_ok_def)
    qed
    with old ord(2) show ?thesis by (auto simp: order_ok_def)
  qed
  moreover have "failures_ok r'" using inv fl by (simp add: reg_inv_def failures_ok_def)
  ultimately show ?thesis by (simp add: reg_inv_def)
qed

lemma failures_of_less: "failures_ok r \<Longrightarrow> failures_of r h < MAX_CONSECUTIVE_FAILURES"
  by (auto simp: failures_of_def failures_ok_def MAX_CONSECUTIVE_FAILURES_def split: option.split
      dest!: map_of_SomeD)

lemma record_failure_inv:
  assumes inv: "reg_inv E r"
  shows "reg_inv E (snd (record_queue_failure_without_snapshot E now d r))"
proof (cases rule: record_failure_cases [of r E d now])
  case counted
  have "failures_ok (snd (record_queue_failure_without_snapshot E now d r))"
    using reg_inv_failures_ok [OF inv] counted by (auto simp: failures_ok_def dest!: set_update_in)
  with inv counted show ?thesis
    by (simp add: reg_inv_def runs_ok_def queues_ok_def hashes_ok_def order_ok_def
        total_pending_count_def)
next
  case (tripped r2)
  let ?ids = "map pr_run_id (queue_of r (repo_hash E d))"
  let ?r3 = "snd (stage_stopped_all E now ''circuit breaker tripped'' ?ids r2)"
  let ?r' = "snd (record_queue_failure_without_snapshot E now d r)"
  have "runs_ok r2" using reg_inv_runs_ok [OF inv] tripped(2) by (simp add: runs_ok_def)
  from stage_stopped_all_runs_ok [OF this, of E now "''circuit breaker tripped''" ?ids] tripped(3)
  have "runs_ok ?r'" by (simp add: runs_ok_def)
  moreover have "failures_ok ?r'"
    unfolding failures_ok_def
  proof
    have fl: "reg_consecutive_failures ?r' = hm_remove (repo_hash E d)
        (hm_insert (repo_hash E d) (failures_of r (repo_hash E d) + 1) (reg_consecutive_failures r))"
      unfolding tripped(3) by (simp add: tripped(2))
    have ok: "failures_ok r" by (rule reg_inv_failures_ok [OF inv])
    then show "hm_ok (reg_consecutive_failures ?r')" unfolding fl failures_ok_def by blast
    have "x \<in> set (reg_consecutive_failures r)" if "x \<in> set (reg_consecutive_failures ?r')" for x
      using that unfolding fl AList.delete_eq by (auto dest!: set_update_in)
    with ok show "\<forall>(h, n) \<in> set (reg_consecutive_failures ?r'). 0 < n \<and> n < MAX_CONSECUTIVE_FAILURES"
      unfolding failures_ok_def by blast
  qed
  moreover have "shrinks (reg_pending_queues ?r') (reg_pending_queues r)"
  proof -
    have "reg_pending_queues ?r' = reg_pending_queues r2" unfolding tripped(3) by simp
    moreover have "shrinks (reg_pending_queues r2) (reg_pending_queues r)"
      using tripped(2) by (auto intro: shrinks_update split: option.split)
    ultimately show ?thesis by simp
  qed
  moreover have "reg_repo_insertion_order ?r' = reg_repo_insertion_order r"
    unfolding tripped(3) by (simp add: tripped(2))
  ultimately show ?thesis using reg_inv_shrink [OF inv] by blast
qed

lemma clear_inv:
  assumes inv: "reg_inv E r"
  shows "reg_inv E (snd (clear_queue_staged E now f r))"
proof -
  let ?m = "map (\<lambda>(h, q). (h, filter (\<lambda>p. \<not> filter_selects E f p) q)) (reg_pending_queues r)"
  have "runs_ok (r\<lparr>reg_pending_queues := ?m\<rparr>)"
    using reg_inv_runs_ok [OF inv] by (simp add: runs_ok_def)
  then have "runs_ok (snd (clear_queue_staged E now f r))"
    by (simp add: clear_queue_staged_def Let_def case_prod_beta runs_ok_same [OF stage_stopped_all_runs_ok])
  moreover have "shrinks ?m (reg_pending_queues r)"
    by (rule shrinks_map) simp
  ultimately show ?thesis
    using reg_inv_failures_ok [OF inv]
    by (intro reg_inv_shrink [OF inv])
      (simp_all add: clear_queue_staged_def Let_def case_prod_beta failures_ok_def)
qed

lemma dequeue_inv:
  assumes inv: "reg_inv E r"
  shows "reg_inv E (snd (dequeue_run_staged E now i r))"
proof (cases rule: dequeue_cases [of E now i r])
  case none
  with inv show ?thesis by simp
next
  case (popped p qs)
  with inv shrinks_pop [OF popped(1)] show ?thesis
    by (intro reg_inv_shrink [OF inv]) (simp_all add: reg_inv_def runs_ok_def failures_ok_def)
next
  case (stopped p qs st r2)
  have "runs_ok (r\<lparr>reg_pending_queues := qs\<rparr>)"
    using reg_inv_runs_ok [OF inv] by (simp add: runs_ok_def)
  from stage_runs_ok [OF this stopped(2)] have ok: "runs_ok r2" .
  note k = stage_keeps [OF stopped(2)]
  have "reg_inv E r2"
    using k ok shrinks_pop [OF stopped(1)] reg_inv_failures_ok [OF inv]
    by (intro reg_inv_shrink [OF inv]) (simp_all add: failures_ok_def)
  then show ?thesis unfolding stopped(3) by (rule reg_inv_same) simp_all
qed

lemma apply_op_inv:
  assumes inv: "reg_inv E r"
  shows "reg_inv E (apply_op E op r)"
proof (cases op)
  case (Register l m i now pl d sn cd sc)
  show ?thesis
  proof (cases rule: register_cases [of E l m i now pl d sn cd sc r])
    case registered
    moreover have "re_run_id (fresh_entry i now pl d sn cd sc) = i" by (simp add: fresh_entry_def)
    ultimately show ?thesis using Register
      by (intro reg_inv_runs [OF inv] runs_ok_insert [OF reg_inv_runs_ok [OF inv]]) auto
  qed (use Register inv in \<open>auto intro: reg_inv_same\<close>)
next
  case (Stage now i s ph er)
  then show ?thesis using inv stage_runs_ok [OF reg_inv_runs_ok [OF inv]]
    by (auto split: sum.split simp: stage_keeps intro: reg_inv_runs)
next
  case (Touch i pid rec tmux)
  have "re_run_id (touch_entry pid rec tmux e) = i" if "hm_get (reg_runs r) i = Some e" for e
    using runs_ok_get [OF reg_inv_runs_ok [OF inv] that] by (simp add: touch_entry_def)
  with Touch inv show ?thesis
    by (auto simp: touch_run_def split: option.split
        intro!: reg_inv_runs [OF inv] runs_ok_insert [OF reg_inv_runs_ok [OF inv]])
next
  case (Progress i phase b)
  have "re_run_id (progress_entry phase b e) = i" if "hm_get (reg_runs r) i = Some e" for e
    using runs_ok_get [OF reg_inv_runs_ok [OF inv] that] by (simp add: progress_entry_def)
  with Progress inv show ?thesis
    by (auto simp: progress_run_def split: option.split
        intro!: reg_inv_runs [OF inv] runs_ok_insert [OF reg_inv_runs_ok [OF inv]])
next
  case (Enqueue p)
  with inv show ?thesis by (auto split: sum.split dest: enqueue_inv)
next
  case (Promote l m now i)
  have ok: "re_run_id (promoted_entry now e) = i" if "hm_get (reg_runs r) i = Some e" for e
    using runs_ok_get [OF reg_inv_runs_ok [OF inv] that] by (simp add: promoted_entry_def)
  show ?thesis
    by (cases rule: promote_cases [of E l m now i r])
      (use Promote inv ok in \<open>auto intro!: reg_inv_runs [OF inv] runs_ok_insert [OF reg_inv_runs_ok [OF inv]]\<close>)
next
  case (DrainNext d)
  with inv show ?thesis
    by (auto simp: drain_next_without_snapshot_def Let_def split: option.split dest: pop_front_inv)
next
  case DrainAny
  with inv show ?thesis
    by (auto simp: drain_any_ready_without_snapshot_def split: option.split dest: pop_front_inv)
next
  case (RecordSuccess d)
  have "failures_ok (apply_op E op r)"
    by (rule failures_ok_remove [OF reg_inv_failures_ok [OF inv]])
      (simp add: RecordSuccess record_queue_success_without_snapshot_def)
  with RecordSuccess inv show ?thesis
    by (simp add: record_queue_success_without_snapshot_def reg_inv_def runs_ok_def queues_ok_def
        hashes_ok_def order_ok_def total_pending_count_def)
next
  case (RemovePending i)
  have "shrinks (map (\<lambda>(h, q). (h, filter (\<lambda>p. pr_run_id p \<noteq> i) q)) (reg_pending_queues r))
      (reg_pending_queues r)"
    by (rule shrinks_map) simp
  with RemovePending inv show ?thesis
    by (intro reg_inv_shrink [OF inv])
      (simp_all add: remove_pending_staged_def remove_pending_without_snapshot_def reg_inv_def
        runs_ok_def failures_ok_def)
next
  case (Adopt m e)
  with inv show ?thesis
    by (auto simp: adopt_def intro!: reg_inv_runs [OF inv] runs_ok_insert [OF reg_inv_runs_ok [OF inv]])
next
  case (AdoptLock l d)
  with inv show ?thesis
    by (auto split: sum.split dest!: acquire_adopt_Inr intro: reg_inv_same)
next
  case Snapshot
  with inv show ?thesis
    by (simp add: reg_inv_def runs_ok_def queues_ok_def hashes_ok_def order_ok_def failures_ok_def
        total_pending_count_def stage_queue_locked_def Let_def)
next
  case (RemoveRun m i)
  with inv show ?thesis
    by (auto simp: remove_run_def Let_def split: option.split
        intro!: reg_inv_runs [OF inv] runs_ok_remove [OF reg_inv_runs_ok [OF inv]])
qed (use inv in \<open>simp_all add: record_failure_inv clear_inv dequeue_inv\<close>)

lemma reg_trace_inv: "reg_trace E r ops r' \<Longrightarrow> reg_inv E r \<Longrightarrow> reg_inv E r'"
  by (rule reg_trace_preserves [of E r ops r' "reg_inv E"]) (simp_all add: apply_op_inv)

end
