(* ===== verification/Registry_Locks.thy ===== *)
theory Registry_Locks
  imports Registry_Steps
begin

text \<open>
  Properties of the registry over whole histories: the invariant of every reachable state, mutual
  exclusion of runs per repository and the discipline it needs, the handling of the lock on failed
  writes, and a reachable state with two active runs on one repository.
\<close>

section \<open>Every reachable state\<close>

text \<open>
  C2: in every state the daemon can reach from an empty registry by any sequence of its
  operations, at most 50 runs wait, no failure count reaches the breaker's threshold, each run is
  filed under its id, each waiting run is in the queue of its repository, and every repository with
  waiting runs occurs exactly once in the cross-repository order.
\<close>
theorem reachable_state_invariant:
  assumes "reg_trace E registry_new ops r"
  shows "total_pending_count r \<le> 50
    \<and> (\<forall>h. failures_of r h < 3)
    \<and> (\<forall>i e. hm_get (reg_runs r) i = Some e \<longrightarrow> re_run_id e = i)
    \<and> (\<forall>h. \<forall>p \<in> set (queue_of r h). repo_hash E (pr_repo_dir p) = h)
    \<and> (\<forall>h. queue_of r h \<noteq> [] \<longrightarrow> h \<in> set (reg_repo_insertion_order r))
    \<and> distinct (reg_repo_insertion_order r)"
proof -
  from reg_trace_inv [OF assms reg_inv_new] have inv: "reg_inv E r" .
  have q: "p \<in> set (queue_of r h) \<Longrightarrow> repo_hash E (pr_repo_dir p) = h" for h p
    using queue_of_in [of r h] inv by (fastforce simp: reg_inv_def hashes_ok_def)
  have o1: "queue_of r h \<noteq> [] \<Longrightarrow> h \<in> set (reg_repo_insertion_order r)" for h
    using queue_of_in [of r h] inv by (fastforce simp: reg_inv_def order_ok_def)
  have f: "failures_of r h < 3" for h
    using failures_of_less [OF reg_inv_failures_ok [OF inv], of h]
    by (simp add: MAX_CONSECUTIVE_FAILURES_def)
  have t: "total_pending_count r \<le> 50" and d: "distinct (reg_repo_insertion_order r)"
    using inv by (simp_all add: reg_inv_def queues_ok_def order_ok_def MAX_QUEUE_SIZE_def)
  show ?thesis using q o1 f t d runs_ok_get [OF reg_inv_runs_ok [OF inv]] by blast
qed

theorem reachable_state_invariant_witness:
  "total_pending_count (apply_op plain_env (Enqueue (pend ''b2'' ''/q.md'' ''/r'')) one_run) \<le> 50
   \<and> (\<forall>h. failures_of (apply_op plain_env (Enqueue (pend ''b2'' ''/q.md'' ''/r'')) one_run) h < 3)"
proof -
  have "reg_trace plain_env registry_new
      [Register LockTaken io_ok ''a1'' 0 ''/p.md'' ''/r'' None None None, Enqueue (pend ''b2'' ''/q.md'' ''/r'')]
      (apply_op plain_env (Enqueue (pend ''b2'' ''/q.md'' ''/r'')) one_run)"
    using one_run_get
    by (auto simp: reg_trace_simps one_run_def [symmetric] registry_new_def [symmetric] pend_def
        simp del: apply_op.simps)
      (simp_all add: registry_new_def one_run_def register_run_with_schedule_def
        acquire_repo_lock_def take_lock_file_def)
  from reachable_state_invariant [OF this] show ?thesis by blast
qed

section \<open>Mutual exclusion per repository\<close>

text \<open>
  A run that owns its repository's lock: registered or promoted (both make it restartable), and
  not finished.
\<close>

definition owns_lock :: "run_entry \<Rightarrow> bool" where
  "owns_lock e \<longleftrightarrow> re_restartable e \<and> \<not> is_terminal (re_status e)"

definition exclusive :: "env \<Rightarrow> registry \<Rightarrow> bool" where
  "exclusive E r \<longleftrightarrow>
    (\<forall>i e. hm_get (reg_runs r) i = Some e \<longrightarrow> re_status e = Running \<longrightarrow> re_restartable e)
    \<and> (\<forall>i e. hm_get (reg_runs r) i = Some e \<longrightarrow> owns_lock e \<longrightarrow>
          hm_get (reg_repo_locks r) (repo_hash E (re_repo_dir e)) \<noteq> None)
    \<and> (\<forall>i j e e'. hm_get (reg_runs r) i = Some e \<longrightarrow> hm_get (reg_runs r) j = Some e' \<longrightarrow>
          owns_lock e \<longrightarrow> owns_lock e' \<longrightarrow>
          repo_hash E (re_repo_dir e) = repo_hash E (re_repo_dir e') \<longrightarrow> i = j)"

text \<open>Finishing run \<open>i\<close> takes the lock from no other run.\<close>

definition may_release :: "env \<Rightarrow> registry \<Rightarrow> string \<Rightarrow> bool" where
  "may_release E r i =
    (case hm_get (reg_runs r) i of
       None \<Rightarrow> True
     | Some e \<Rightarrow>
         list_all (\<lambda>(j, e'). owns_lock e' \<and> repo_hash E (re_repo_dir e') = repo_hash E (re_repo_dir e)
           \<longrightarrow> j = i) (reg_runs r))"

text \<open>
  The discipline under which locking is sound: a run starts only after it was registered or
  promoted; a run is finished, stopped from the queue or removed only when no other run holds its
  repository; a promotion can be written; an adopted live run has its lock.
\<close>

fun disciplined :: "env \<Rightarrow> reg_op \<Rightarrow> registry \<Rightarrow> bool" where
  "disciplined E (Stage now i s ph er) r =
     (case hm_get (reg_runs r) i of
        None \<Rightarrow> True
      | Some e \<Rightarrow> (s = Running \<longrightarrow> re_restartable e) \<and> (is_terminal s \<longrightarrow> may_release E r i))"
| "disciplined E (Dequeue now i) r = may_release E r i"
| "disciplined E (RecordFailure now d) r =
     list_all (\<lambda>p. may_release E r (pr_run_id p)) (queue_of r (repo_hash E d))"
| "disciplined E (ClearQueue now f) r =
     list_all (\<lambda>p. may_release E r (pr_run_id p)) (filter (filter_selects E f) (pending_entries r))"
| "disciplined E (Promote l m now i) r = (m = None)"
| "disciplined E (Adopt m e) r =
     ((re_status e = Running \<longrightarrow> re_restartable e)
      \<and> (owns_lock e \<longrightarrow>
           hm_get (reg_repo_locks r) (repo_hash E (re_repo_dir e)) \<noteq> None
           \<and> list_all (\<lambda>(j, e'). \<not> (owns_lock e' \<and> repo_hash E (re_repo_dir e') = repo_hash E (re_repo_dir e)))
               (reg_runs r)))"
| "disciplined E (RemoveRun m i) r = may_release E r i"
| "disciplined E _ r = True"

fun disciplined_ops :: "env \<Rightarrow> registry \<Rightarrow> reg_op list \<Rightarrow> bool" where
  "disciplined_ops E r [] = True"
| "disciplined_ops E r (op # ops) =
     (op_fresh op r \<and> disciplined E op r \<and> disciplined_ops E (apply_op E op r) ops)"

definition run_ops :: "env \<Rightarrow> reg_op list \<Rightarrow> registry \<Rightarrow> registry" where
  "run_ops E ops r = fold (apply_op E) ops r"

lemma exclusive_same:
  "exclusive E r \<Longrightarrow> reg_runs r' = reg_runs r \<Longrightarrow> reg_repo_locks r' = reg_repo_locks r \<Longrightarrow> exclusive E r'"
  by (simp add: exclusive_def)

lemma exclusive_same_locks:
  "exclusive E r \<Longrightarrow> reg_runs r' = reg_runs r \<Longrightarrow>
    (\<And>h. hm_get (reg_repo_locks r') h = hm_get (reg_repo_locks r) h) \<Longrightarrow> exclusive E r'"
  by (simp add: exclusive_def)

lemma exclusive_more_locks:
  "exclusive E r \<Longrightarrow> reg_runs r' = reg_runs r \<Longrightarrow> reg_repo_locks r' = hm_insert h k (reg_repo_locks r) \<Longrightarrow>
    exclusive E r'"
  by (auto simp: exclusive_def)

text \<open>Replacing a run by one that owns nothing and is not active.\<close>

lemma exclusive_put_idle:
  "exclusive E r \<Longrightarrow> \<not> owns_lock e \<Longrightarrow> re_status e \<noteq> Running \<Longrightarrow>
    reg_runs r' = hm_insert i e (reg_runs r) \<Longrightarrow> reg_repo_locks r' = reg_repo_locks r \<Longrightarrow> exclusive E r'"
  by (auto simp: exclusive_def)

text \<open>A new owner, whose lock was free.\<close>

lemma no_owner_if_free:
  "exclusive E r \<Longrightarrow> hm_get (reg_repo_locks r) h = None \<Longrightarrow> hm_get (reg_runs r) j = Some e' \<Longrightarrow>
    owns_lock e' \<Longrightarrow> repo_hash E (re_repo_dir e') \<noteq> h"
  unfolding exclusive_def by metis

lemma exclusive_new_owner:
  assumes ex: "exclusive E r" and free: "hm_get (reg_repo_locks r) (repo_hash E (re_repo_dir e)) = None"
    and e: "re_restartable e"
    and r': "reg_runs r' = hm_insert i e (reg_runs r)"
      "reg_repo_locks r' = hm_insert (repo_hash E (re_repo_dir e)) LockFile (reg_repo_locks r)"
  shows "exclusive E r'"
proof -
  have "repo_hash E (re_repo_dir e') \<noteq> repo_hash E (re_repo_dir e)"
    if "hm_get (reg_runs r) j = Some e'" "owns_lock e'" for j e'
    by (rule no_owner_if_free [OF ex free that])
  with ex e r' show ?thesis by (fastforce simp: exclusive_def)
qed

text \<open>Finishing a run.\<close>

lemma may_release_other:
  "may_release E r i \<Longrightarrow> hm_get (reg_runs r) i = Some e \<Longrightarrow> hm_get (reg_runs r) j = Some e' \<Longrightarrow>
    owns_lock e' \<Longrightarrow> repo_hash E (re_repo_dir e') = repo_hash E (re_repo_dir e) \<Longrightarrow> j = i"
  by (force simp: may_release_def list_all_iff dest: map_of_SomeD)

lemma exclusive_finish:
  assumes ex: "exclusive E r" and rel: "may_release E r i" and e: "hm_get (reg_runs r) i = Some e"
    and fin: "is_terminal s"
    and r': "reg_runs r' = hm_insert i (staged_entry now s ph er e) (reg_runs r)"
      "reg_repo_locks r' = hm_remove (repo_hash E (re_repo_dir e)) (reg_repo_locks r)"
  shows "exclusive E r'"
proof -
  have idle: "\<not> owns_lock (staged_entry now s ph er e)" "re_status (staged_entry now s ph er e) \<noteq> Running"
    using fin by (auto simp: owns_lock_def)
  have "repo_hash E (re_repo_dir e') \<noteq> repo_hash E (re_repo_dir e)"
    if "hm_get (reg_runs r) j = Some e'" "owns_lock e'" "j \<noteq> i" for j e'
    using may_release_other [OF rel e that(1,2)] that(3) by blast
  with ex idle r' show ?thesis by (auto simp: exclusive_def)
qed

lemma exclusive_stage:
  assumes ex: "exclusive E r" and st: "stage_status_locked E now i s ph er r = Inr (st, r')"
    and ok: "disciplined E (Stage now i s ph er) r"
  shows "exclusive E r'"
proof -
  from st obtain e where e: "hm_get (reg_runs r) i = Some e" and le: "re_status e \<le> s"
    and r': "reg_runs r' = hm_insert i (staged_entry now s ph er e) (reg_runs r)"
      "reg_repo_locks r' = (if is_terminal s then hm_remove (repo_hash E (re_repo_dir e)) (reg_repo_locks r)
         else reg_repo_locks r)"
    by (auto simp: stage_status_cases split: option.splits if_splits)
  show ?thesis
  proof (cases "is_terminal s")
    case True
    with ok e have "may_release E r i" by simp
    from exclusive_finish [OF ex this e True r'(1)] r'(2) True show ?thesis by simp
  next
    case False
    with le have nt: "\<not> is_terminal (re_status e)" by (metis terminal_is_last)
    have "owns_lock (staged_entry now s ph er e) \<longleftrightarrow> owns_lock e"
      using False nt by (simp add: owns_lock_def)
    moreover from ok e have "s = Running \<longrightarrow> re_restartable e" by simp
    ultimately show ?thesis using ex e r' False unfolding exclusive_def
      by (auto split: if_splits)
  qed
qed

lemma disciplined_stop:
  "disciplined E (Stage now i Stopped ph er) r \<longleftrightarrow> may_release E r i"
  by (simp add: may_release_def split: option.split)

text \<open>Stopping one run leaves no less room to stop the others.\<close>

lemma may_release_after_stop:
  assumes "may_release E r j" and "stage_status_locked E now i Stopped ph er r = Inr (st, r')"
  shows "may_release E r' j"
proof -
  from assms(2) obtain e where e: "hm_get (reg_runs r) i = Some e"
    and r': "reg_runs r' = hm_insert i (staged_entry now Stopped ph er e) (reg_runs r)"
    by (auto simp: stage_status_cases split: option.splits if_splits)
  have idle: "\<not> owns_lock (staged_entry now Stopped ph er e)" by (simp add: owns_lock_def)
  show ?thesis
  proof (cases "hm_get (reg_runs r) j")
    case None
    with r' e show ?thesis by (auto simp: may_release_def)
  next
    case (Some ej)
    then obtain ej' where ej': "hm_get (reg_runs r') j = Some ej'"
      "repo_hash E (re_repo_dir ej') = repo_hash E (re_repo_dir ej)"
      using r' e by (cases "j = i") auto
    have "k = j" if "(k, e') \<in> set (reg_runs r')" "owns_lock e'"
        "repo_hash E (re_repo_dir e') = repo_hash E (re_repo_dir ej')" for k e'
    proof -
      from that(1) r' have "(k, e') = (i, staged_entry now Stopped ph er e) \<or> (k, e') \<in> set (reg_runs r)"
        using set_update_in by metis
      with idle that(2) have "(k, e') \<in> set (reg_runs r)" by auto
      with assms(1) Some that ej' show ?thesis by (auto simp: may_release_def list_all_iff)
    qed
    with ej' show ?thesis by (auto simp: may_release_def list_all_iff)
  qed
qed

lemma exclusive_stop_all:
  "exclusive E r \<Longrightarrow> (\<And>i. i \<in> set ids \<Longrightarrow> may_release E r i) \<Longrightarrow>
    exclusive E (snd (stage_stopped_all E now reason ids r))"
proof (induction ids arbitrary: r)
  case Nil
  then show ?case by simp
next
  case (Cons i ids)
  show ?case
  proof (cases "stage_status_locked E now i Stopped None (Some reason) r")
    case (Inl e)
    with Cons show ?thesis by simp
  next
    case (Inr p)
    obtain st r1 where p: "p = (st, r1)" by (cases p)
    with Inr have st: "stage_status_locked E now i Stopped None (Some reason) r = Inr (st, r1)" by simp
    have "exclusive E r1"
      using exclusive_stage [OF Cons.prems(1) st] Cons.prems(2) disciplined_stop by auto
    moreover have "may_release E r1 j" if "j \<in> set ids" for j
      using may_release_after_stop [OF _ st] Cons.prems(2) that by simp
    ultimately show ?thesis using Cons.IH st by (simp add: case_prod_beta)
  qed
qed

lemma may_release_same: "reg_runs r' = reg_runs r \<Longrightarrow> may_release E r' i = may_release E r i"
  by (simp add: may_release_def split: option.split)

lemma exclusive_step:
  assumes ex: "exclusive E r" and fresh: "op_fresh op r" and ok: "disciplined E op r"
  shows "exclusive E (apply_op E op r)"
proof (cases op)
  case (Register l m i now pl d sn cd sc)
  show ?thesis
  proof (cases rule: register_cases [of E l m i now pl d sn cd sc r])
    case (locked e)
    with Register ex show ?thesis by simp
  next
    case (not_written e)
    with Register show ?thesis
      by (intro exclusive_same_locks [OF ex]) (auto simp: release_from_def guard_new_def)
  next
    case registered
    then show ?thesis using Register
      by (intro exclusive_new_owner [OF ex, of "fresh_entry i now pl d sn cd sc"]) (simp_all add: fresh_entry_def)
  qed
next
  case (Stage now i s ph er)
  with ex ok show ?thesis by (auto split: sum.split intro: exclusive_stage simp del: disciplined.simps)
next
  case (Touch i pid rec tmux)
  have same: "owns_lock (touch_entry pid rec tmux e) = owns_lock e"
    "re_status (touch_entry pid rec tmux e) = re_status e"
    "re_restartable (touch_entry pid rec tmux e) = re_restartable e"
    "re_repo_dir (touch_entry pid rec tmux e) = re_repo_dir e" for e
    by (simp_all add: owns_lock_def touch_entry_def)
  from ex Touch show ?thesis
    by (auto simp: touch_run_def exclusive_def same split: option.split)
next
  case (Progress i phase b)
  have same: "owns_lock (progress_entry phase b e) = owns_lock e"
    "re_status (progress_entry phase b e) = re_status e"
    "re_restartable (progress_entry phase b e) = re_restartable e"
    "re_repo_dir (progress_entry phase b e) = re_repo_dir e" for e
    by (simp_all add: owns_lock_def progress_entry_def)
  from ex Progress show ?thesis
    by (auto simp: progress_run_def exclusive_def same split: option.split)
next
  case (Enqueue p)
  show ?thesis
  proof (cases rule: enqueue_cases [of E p r])
    case (refused e)
    with Enqueue ex show ?thesis by simp
  next
    case queued
    with Enqueue show ?thesis
      by (intro exclusive_put_idle [OF ex, of "queued_entry p"]) (simp_all add: owns_lock_def queued_entry_def)
  qed
next
  case (Dequeue now i)
  show ?thesis
  proof (cases rule: dequeue_cases [of E now i r])
    case none
    with Dequeue ex show ?thesis by simp
  next
    case (popped p qs)
    with Dequeue ex show ?thesis by (auto intro: exclusive_same)
  next
    case (stopped p qs st r2)
    have "exclusive E (r\<lparr>reg_pending_queues := qs\<rparr>)" by (rule exclusive_same [OF ex]) simp_all
    moreover have "may_release E (r\<lparr>reg_pending_queues := qs\<rparr>) i"
      using Dequeue ok may_release_same [of "r\<lparr>reg_pending_queues := qs\<rparr>" r E i] by simp
    ultimately have "exclusive E r2"
      using exclusive_stage [OF _ stopped(2)] disciplined_stop by blast
    with Dequeue stopped(3) show ?thesis by (auto intro: exclusive_same)
  qed
next
  case (Promote l m now i)
  show ?thesis
  proof (cases rule: promote_cases [of E l m now i r])
    case (refused e)
    with Promote ex show ?thesis by simp
  next
    case (not_written e entry)
    with Promote ok show ?thesis by simp
  next
    case (promoted entry)
    then show ?thesis using Promote
      by (intro exclusive_new_owner [OF ex, of "promoted_entry now entry"]) (simp_all add: promoted_entry_def)
  qed
next
  case (DrainNext d)
  with ex show ?thesis
    by (auto simp: drain_next_without_snapshot_def Let_def pop_front_Some split: option.split
        intro: exclusive_same)
next
  case DrainAny
  with ex show ?thesis
    by (auto simp: drain_any_ready_without_snapshot_def pop_front_Some split: option.split
        intro: exclusive_same)
next
  case (RecordFailure now d)
  show ?thesis
  proof (cases rule: record_failure_cases [of r E d now])
    case counted
    with RecordFailure ex show ?thesis by (auto intro: exclusive_same)
  next
    case (tripped r2)
    from tripped(2) have r2: "reg_runs r2 = reg_runs r" "reg_repo_locks r2 = reg_repo_locks r" by simp_all
    from exclusive_same [OF ex r2] have "exclusive E r2" .
    then have "exclusive E (snd (stage_stopped_all E now ''circuit breaker tripped''
        (map pr_run_id (queue_of r (repo_hash E d))) r2))"
      by (rule exclusive_stop_all)
        (use ok RecordFailure may_release_same [OF r2(1)] in \<open>auto simp: list_all_iff\<close>)
    then have "exclusive E (snd (record_queue_failure_without_snapshot E now d r))"
      unfolding tripped(3) by (rule exclusive_same) simp_all
    with RecordFailure show ?thesis by simp
  qed
next
  case (ClearQueue now f)
  let ?r1 = "r\<lparr>reg_pending_queues := map (\<lambda>(h, q). (h, filter (\<lambda>p. \<not> filter_selects E f p) q)) (reg_pending_queues r)\<rparr>"
  have "exclusive E ?r1" by (rule exclusive_same [OF ex]) simp_all
  then have "exclusive E (snd (stage_stopped_all E now ''cleared by user''
      (map pr_run_id (filter (filter_selects E f) (pending_entries r))) ?r1))"
    by (rule exclusive_stop_all)
      (use ok ClearQueue may_release_same [of ?r1 r E] in \<open>auto simp: list_all_iff\<close>)
  then have "exclusive E (snd (clear_queue_staged E now f r))"
    by (rule exclusive_same) (simp_all add: clear_queue_staged_def Let_def case_prod_beta)
  with ClearQueue show ?thesis by simp
next
  case (Adopt m e)
  have free: "\<not> (owns_lock e' \<and> repo_hash E (re_repo_dir e') = repo_hash E (re_repo_dir e))"
    if "hm_get (reg_runs r) j = Some e'" "owns_lock e" for j e'
    using ok Adopt that by (auto simp: list_all_iff dest: map_of_SomeD)
  have runs: "reg_runs (apply_op E op r) = hm_insert (re_run_id e) e (reg_runs r)"
    "reg_repo_locks (apply_op E op r) = reg_repo_locks r"
    by (simp_all add: Adopt adopt_def)
  show ?thesis
  proof (cases "owns_lock e")
    case True
    with ok Adopt have "hm_get (reg_repo_locks r) (repo_hash E (re_repo_dir e)) \<noteq> None"
        "re_status e = Running \<longrightarrow> re_restartable e" by simp_all
    with ex free [OF _ True] show ?thesis unfolding exclusive_def runs
      by (simp split: if_splits) (metis True)
  next
    case False
    moreover from False ok Adopt have "re_status e \<noteq> Running" by (auto simp: owns_lock_def)
    ultimately show ?thesis using exclusive_put_idle [OF ex] runs by blast
  qed
next
  case (AdoptLock l d)
  with ex show ?thesis
    by (auto split: sum.split dest!: acquire_adopt_Inr intro: exclusive_more_locks)
next
  case (RemoveRun m i)
  show ?thesis
  proof (cases "hm_get (reg_runs r) i")
    case None
    with RemoveRun ex show ?thesis by (simp add: remove_run_def)
  next
    case (Some e)
    have rel: "may_release E r i" using ok RemoveRun by simp
    have "repo_hash E (re_repo_dir e') \<noteq> repo_hash E (re_repo_dir e)"
      if "hm_get (reg_runs r) j = Some e'" "owns_lock e'" "j \<noteq> i" for j e'
      using may_release_other [OF rel Some that(1,2)] that(3) by blast
    with ex RemoveRun Some show ?thesis
      by (cases m) (auto simp: remove_run_def exclusive_def)
  qed
qed (use ex in \<open>simp_all add: record_queue_success_without_snapshot_def remove_pending_staged_def
    remove_pending_without_snapshot_def exclusive_same\<close>)

lemma disciplined_exclusive:
  "disciplined_ops E r ops \<Longrightarrow> exclusive E r \<Longrightarrow> exclusive E (run_ops E ops r)"
  by (induction ops arbitrary: r) (simp_all add: run_ops_def exclusive_step)

lemma exclusive_new: "exclusive E registry_new"
  by (simp add: exclusive_def registry_new_def)

text \<open>
  C1: mutual exclusion. From an empty registry, along any history that keeps the discipline,
  no two runs of the same repository are ever \<open>Running\<close> at the same time, and a running run's
  repository is locked.
\<close>
theorem one_active_run_per_repo:
  assumes "disciplined_ops E registry_new ops"
    and "hm_get (reg_runs (run_ops E ops registry_new)) i = Some e" and "re_status e = Running"
    and "hm_get (reg_runs (run_ops E ops registry_new)) j = Some e'" and "re_status e' = Running"
    and "repo_hash E (re_repo_dir e) = repo_hash E (re_repo_dir e')"
  shows "i = j \<and> has_repo_lock E (run_ops E ops registry_new) (re_repo_dir e)"
proof -
  let ?r = "run_ops E ops registry_new"
  have ex: "exclusive E ?r" using disciplined_exclusive [OF assms(1) exclusive_new] .
  have own: "owns_lock x" if "hm_get (reg_runs ?r) k = Some x" "re_status x = Running" for k x
    using ex that by (auto simp: exclusive_def owns_lock_def)
  from ex assms(2,4,6) own [OF assms(2,3)] own [OF assms(4,5)] show ?thesis
    unfolding exclusive_def has_repo_lock_def by metis
qed

text \<open>A disciplined day: register, start, queue a second plan, finish, promote and start it.\<close>

definition good_day :: "reg_op list" where
  "good_day =
    [Register LockTaken io_ok ''a'' 0 ''/p.md'' ''/r'' None None None, Stage 1 ''a'' Running None None,
     Enqueue (pend ''b'' ''/q.md'' ''/r''), Stage 2 ''a'' Succeeded None None, DrainNext ''/r'',
     Promote LockTaken io_ok 3 ''b'', Stage 4 ''b'' Running None None]"

text \<open>The same repository, with a queued run removed while another one is active.\<close>

definition bad_day :: "reg_op list" where
  "bad_day =
    [Register LockTaken io_ok ''a'' 0 ''/p.md'' ''/r'' None None None, Stage 1 ''a'' Running None None,
     Enqueue (pend ''b'' ''/q.md'' ''/r''), Dequeue 2 ''b'',
     Register LockTaken io_ok ''c'' 3 ''/q.md'' ''/r'' None None None, Stage 4 ''c'' Running None None]"

text \<open>What a state says of one run.\<close>

definition run_view :: "registry \<Rightarrow> string \<Rightarrow> (RunStatus \<times> path) option" where
  "run_view r i = map_option (\<lambda>e. (re_status e, re_repo_dir e)) (hm_get (reg_runs r) i)"

lemma run_viewD: "run_view r i = Some (s, d) \<Longrightarrow>
    \<exists>e. hm_get (reg_runs r) i = Some e \<and> re_status e = s \<and> re_repo_dir e = d"
  by (auto simp: run_view_def)

theorem one_active_run_per_repo_witness:
  "has_repo_lock plain_env (run_ops plain_env good_day registry_new) ''/r''"
proof -
  have "run_view (run_ops plain_env good_day registry_new) ''b'' = Some (Running, ''/r'')"
    by code_simp
  then obtain e where e: "hm_get (reg_runs (run_ops plain_env good_day registry_new)) ''b'' = Some e"
    "re_status e = Running" "re_repo_dir e = ''/r''"
    by (blast dest: run_viewD)
  have "disciplined_ops plain_env registry_new good_day" by code_simp
  from one_active_run_per_repo [OF this e(1,2) e(1,2) refl] e(3) show ?thesis by simp
qed

text \<open>
  The discipline is needed, and the daemon's own commands break it. Removing a queued run
  (the \<open>RemoveQueued\<close> request) stages it as \<open>Stopped\<close>, which gives up the repository lock
  that the running run holds; the next submission for the repository is then registered and
  started, and two runs work in one repository.
\<close>
theorem removing_a_queued_run_breaks_exclusion:
  "\<exists>e e'. hm_get (reg_runs (run_ops plain_env bad_day registry_new)) ''a'' = Some e
        \<and> hm_get (reg_runs (run_ops plain_env bad_day registry_new)) ''c'' = Some e'
        \<and> re_status e = Running \<and> re_status e' = Running
        \<and> repo_hash plain_env (re_repo_dir e) = repo_hash plain_env (re_repo_dir e')"
proof -
  have "run_view (run_ops plain_env bad_day registry_new) ''a'' = Some (Running, ''/r'')"
    and "run_view (run_ops plain_env bad_day registry_new) ''c'' = Some (Running, ''/r'')"
    by code_simp+
  then show ?thesis by (auto dest!: run_viewD)
qed

end
