(* ===== verification/Registry_Queues.thy ===== *)
theory Registry_Queues
  imports Registry_Steps
begin

text \<open>
  What the registry's queue operations promise: first-in first-out service per repository and
  across repositories, admission, the circuit breaker, clearing, lock handling on failed writes,
  and the round trip of a snapshot through \<open>queue.json\<close>.
\<close>

section \<open>The contract of a queue\<close>

datatype 'a queue_call = Put 'a | Get

text \<open>
  Serve a list of calls: the accepted items, the items handed out, and the last state. A refused
  or empty-handed call changes nothing.
\<close>

fun serve :: "('a \<Rightarrow> 'q \<Rightarrow> 'q option) \<Rightarrow> ('q \<Rightarrow> ('a \<times> 'q) option) \<Rightarrow> 'a queue_call list \<Rightarrow> 'q \<Rightarrow>
    'a list \<times> 'a list \<times> 'q" where
  "serve enq deq [] q = ([], [], q)"
| "serve enq deq (Put x # calls) q =
    (case enq x q of
       None \<Rightarrow> serve enq deq calls q
     | Some q1 \<Rightarrow> (let (ins, outs, q2) = serve enq deq calls q1 in (x # ins, outs, q2)))"
| "serve enq deq (Get # calls) q =
    (case deq q of
       None \<Rightarrow> serve enq deq calls q
     | Some (x, q1) \<Rightarrow> (let (ins, outs, q2) = serve enq deq calls q1 in (ins, x # outs, q2)))"

locale fifo_queue =
  fixes items :: "'q \<Rightarrow> 'a list"
    and enq :: "'a \<Rightarrow> 'q \<Rightarrow> 'q option"
    and deq :: "'q \<Rightarrow> ('a \<times> 'q) option"
    and ok :: "'q \<Rightarrow> bool"
  assumes enq_items: "ok q \<Longrightarrow> enq x q = Some q' \<Longrightarrow> items q' = items q @ [x] \<and> ok q'"
    and deq_None: "ok q \<Longrightarrow> deq q = None \<longleftrightarrow> items q = []"
    and deq_Some: "ok q \<Longrightarrow> deq q = Some (x, q') \<Longrightarrow> items q = x # items q' \<and> ok q'"
begin

lemma deq_hd: "ok q \<Longrightarrow> items q = x # xs \<Longrightarrow> \<exists>q'. deq q = Some (x, q') \<and> items q' = xs"
proof -
  assume q: "ok q" and xs: "items q = x # xs"
  with deq_None obtain y q' where "deq q = Some (y, q')" by fastforce
  with deq_Some [OF q this] xs show ?thesis by auto
qed

lemma serve_fifo:
  "ok q \<Longrightarrow> serve enq deq calls q = (ins, outs, q') \<Longrightarrow> items q @ ins = outs @ items q' \<and> ok q'"
proof (induction calls arbitrary: q ins outs)
  case Nil
  then show ?case by simp
next
  case (Cons c calls)
  show ?case
  proof (cases c)
    case (Put x)
    show ?thesis
    proof (cases "enq x q")
      case None
      with Put Cons show ?thesis by simp
    next
      case (Some q1)
      with Put Cons.prems(2) obtain ins1 where s: "serve enq deq calls q1 = (ins1, outs, q')" "ins = x # ins1"
        by (auto split: prod.splits)
      from enq_items [OF Cons.prems(1) Some] Cons.IH [OF _ s(1)] s(2) show ?thesis by simp
    qed
  next
    case Get
    show ?thesis
    proof (cases "deq q")
      case None
      with Get Cons show ?thesis by simp
    next
      case (Some xq)
      then obtain x q1 where xq: "deq q = Some (x, q1)" by (cases xq) simp
      with Get Cons.prems(2) obtain outs1 where s: "serve enq deq calls q1 = (ins, outs1, q')" "outs = x # outs1"
        by (auto split: prod.splits)
      from deq_Some [OF Cons.prems(1) xq] Cons.IH [OF _ s(1)] s(2) show ?thesis by simp
    qed
  qed
qed

lemma drain_all: "ok q \<Longrightarrow> length (items q) \<le> n \<Longrightarrow>
    \<exists>q'. serve enq deq (replicate n Get) q = ([], items q, q')"
proof (induction n arbitrary: q)
  case 0
  then show ?case by simp
next
  case (Suc n)
  show ?case
  proof (cases "items q")
    case Nil
    with Suc.IH [of q] Suc.prems(1) deq_None [OF Suc.prems(1)] show ?thesis by simp
  next
    case (Cons x xs)
    from deq_hd [OF Suc.prems(1) Cons] obtain q1 where q1: "deq q = Some (x, q1)" "items q1 = xs" by blast
    with deq_Some [OF Suc.prems(1) q1(1)] Suc.IH [of q1] Suc.prems(2) Cons
    obtain q' where "serve enq deq (replicate n Get) q1 = ([], xs, q')" by auto
    with q1 Cons show ?thesis by simp
  qed
qed

end

section \<open>The pending queue of a repository\<close>

text \<open>Submitting to and draining one repository's queue.\<close>

definition repo_enq :: "env \<Rightarrow> path \<Rightarrow> pending_run \<Rightarrow> registry \<Rightarrow> registry option" where
  "repo_enq E repo_dir p r =
    (if repo_hash E (pr_repo_dir p) = repo_hash E repo_dir then
       (case enqueue_run_without_snapshot E p r of Inl _ \<Rightarrow> None | Inr (_, r1) \<Rightarrow> Some r1)
     else None)"

lemma queue_of_update:
  "reg_pending_queues r' = hm_insert h q (reg_pending_queues r) \<Longrightarrow>
    queue_of r' h' = (if h' = h then q else queue_of r h')"
  by (simp add: queue_of_def)

lemma drain_next_inv_eq:
  "reg_inv E r \<Longrightarrow> drain_next_without_snapshot E d r = pop_front (repo_hash E d) r"
  using failures_of_less [OF reg_inv_failures_ok, of E r "repo_hash E d"]
  by (simp add: drain_next_without_snapshot_def Let_def)

lemma enqueue_queue_of:
  "enqueue_run_without_snapshot E p r = Inr (out, r') \<Longrightarrow>
    queue_of r' h = (if h = repo_hash E (pr_repo_dir p) then queue_of r h @ [p] else queue_of r h)"
  by (cases rule: enqueue_cases [of E p r]) (auto simp: queue_of_update)

interpretation rq: fifo_queue "\<lambda>r. queue_of r (repo_hash E d)" "repo_enq E d"
    "drain_next_without_snapshot E d" "reg_inv E" for E d
proof unfold_locales
  fix q q' and x :: pending_run
  assume inv: "reg_inv E q"
  show "queue_of q' (repo_hash E d) = queue_of q (repo_hash E d) @ [x] \<and> reg_inv E q'"
    if "repo_enq E d x q = Some q'"
    using that inv by (auto simp: repo_enq_def enqueue_queue_of split: if_splits sum.splits dest: enqueue_inv)
  show "drain_next_without_snapshot E d q = None \<longleftrightarrow> queue_of q (repo_hash E d) = []"
    using inv by (simp add: drain_next_inv_eq pop_front_def split: list.split)
  show "queue_of q (repo_hash E d) = x # queue_of q' (repo_hash E d) \<and> reg_inv E q'"
    if "drain_next_without_snapshot E d q = Some (x, q')"
    using that inv
    by (auto simp: drain_next_inv_eq queue_of_update pop_front_inv pop_front_Some intro: pop_front_inv)
qed

text \<open>
  C6: a repository is served in the order of submission. For any interleaving of accepted and
  refused submissions with drains, the runs waiting at first followed by the accepted ones are
  exactly the runs handed out followed by those still waiting: nothing is lost, duplicated or
  reordered.
\<close>
theorem repository_queue_is_fifo:
  assumes "reg_inv E r"
    and "serve (repo_enq E d) (drain_next_without_snapshot E d) calls r = (ins, outs, r')"
  shows "queue_of r (repo_hash E d) @ ins = outs @ queue_of r' (repo_hash E d)"
  using rq.serve_fifo [OF assms] by blast

theorem repository_queue_is_fifo_witness:
  "queue_of registry_new ''/r'' @ [pend ''a'' ''/p'' ''/r'', pend ''b'' ''/q'' ''/r'']
   = [pend ''a'' ''/p'' ''/r''] @
     queue_of (snd (snd (serve (repo_enq plain_env ''/r'') (drain_next_without_snapshot plain_env ''/r'')
       [Put (pend ''a'' ''/p'' ''/r''), Get, Put (pend ''b'' ''/q'' ''/r'')] registry_new))) ''/r''"
proof -
  let ?s = "serve (repo_enq plain_env ''/r'') (drain_next_without_snapshot plain_env ''/r'')
       [Put (pend ''a'' ''/p'' ''/r''), Get, Put (pend ''b'' ''/q'' ''/r'')] registry_new"
  have "fst ?s = [pend ''a'' ''/p'' ''/r'', pend ''b'' ''/q'' ''/r''] \<and> fst (snd ?s) = [pend ''a'' ''/p'' ''/r'']"
    by code_simp
  then have "?s = ([pend ''a'' ''/p'' ''/r'', pend ''b'' ''/q'' ''/r''], [pend ''a'' ''/p'' ''/r''], snd (snd ?s))"
    by (metis prod.collapse)
  from repository_queue_is_fifo [OF reg_inv_new this] show ?thesis by simp
qed

section \<open>Admission\<close>

lemma enqueue_Inl_cases:
  "enqueue_run_without_snapshot E p r = Inl err \<longleftrightarrow>
    (MAX_QUEUE_SIZE \<le> total_pending_count r \<and> err = QueueFullError (total_pending_count r))
    \<or> (total_pending_count r < MAX_QUEUE_SIZE \<and>
        (\<exists>e. find (same_plan_active E p) (hm_values (reg_runs r)) = Some e
           \<and> err = PlanAlready
               (case re_status e of Queued \<Rightarrow> ''queued'' | Running \<Rightarrow> ''running'' | _ \<Rightarrow> ''active'')
               (pr_plan_path p)))"
  by (auto simp: enqueue_run_without_snapshot_def Let_def split: option.split)

text \<open>
  Admission to the queue. A submission is refused as \<open>queue full\<close> exactly at 50 waiting
  runs, else as a duplicate exactly when an unfinished run of the same repository has the same plan
  file (and then the message says whether it is queued or running); otherwise it is appended to its
  repository's queue, the position returned is its place there, its run is listed as queued, and
  no other run or queue changes.
\<close>
theorem enqueue_exact:
  "case enqueue_run_without_snapshot E p r of
     Inl (QueueFullError n) \<Rightarrow> n = total_pending_count r \<and> 50 \<le> n
   | Inl (PlanAlready verb plan) \<Rightarrow>
       total_pending_count r < 50 \<and> plan = pr_plan_path p
       \<and> (\<exists>e \<in> set (hm_values (reg_runs r)). same_plan_active E p e
            \<and> verb = (if re_status e = Queued then ''queued'' else ''running''))
   | Inr ((position, entry), r') \<Rightarrow>
       total_pending_count r < 50
       \<and> (\<forall>e \<in> set (hm_values (reg_runs r)). \<not> same_plan_active E p e)
       \<and> (\<forall>h. queue_of r' h = (if h = repo_hash E (pr_repo_dir p) then queue_of r h @ [p] else queue_of r h))
       \<and> position = length (queue_of r' (repo_hash E (pr_repo_dir p)))
       \<and> hm_get (reg_runs r') (pr_run_id p) = Some entry \<and> re_status entry = Queued
       \<and> (\<forall>i. i \<noteq> pr_run_id p \<longrightarrow> hm_get (reg_runs r') i = hm_get (reg_runs r) i)
       \<and> reg_repo_locks r' = reg_repo_locks r"
proof (cases "enqueue_run_without_snapshot E p r")
  case (Inl err)
  from Inl [unfolded enqueue_Inl_cases] show ?thesis
  proof
    assume "MAX_QUEUE_SIZE \<le> total_pending_count r \<and> err = QueueFullError (total_pending_count r)"
    with Inl show ?thesis by (simp add: MAX_QUEUE_SIZE_def)
  next
    assume "total_pending_count r < MAX_QUEUE_SIZE \<and>
        (\<exists>e. find (same_plan_active E p) (hm_values (reg_runs r)) = Some e
           \<and> err = PlanAlready
               (case re_status e of Queued \<Rightarrow> ''queued'' | Running \<Rightarrow> ''running'' | _ \<Rightarrow> ''active'')
               (pr_plan_path p))"
    then obtain e where few: "total_pending_count r < MAX_QUEUE_SIZE"
      and e: "find (same_plan_active E p) (hm_values (reg_runs r)) = Some e"
      and err: "err = PlanAlready
               (case re_status e of Queued \<Rightarrow> ''queued'' | Running \<Rightarrow> ''running'' | _ \<Rightarrow> ''active'')
               (pr_plan_path p)" by blast
    from find_SomeD [OF e] have mem: "e \<in> set (hm_values (reg_runs r))" "same_plan_active E p e" by simp_all
    then have "\<not> is_terminal (re_status e)" by (simp add: same_plan_active_def)
    then have "(case re_status e of Queued \<Rightarrow> ''queued'' | Running \<Rightarrow> ''running'' | _ \<Rightarrow> ''active'')
        = (if re_status e = Queued then ''queued'' else ''running'')"
      by (cases "re_status e") simp_all
    with few err mem Inl show ?thesis by (auto simp: MAX_QUEUE_SIZE_def)
  qed
next
  case (Inr out)
  obtain position entry r' where out: "out = ((position, entry), r')" by (metis prod.collapse)
  with Inr have eq: "enqueue_run_without_snapshot E p r = Inr ((position, entry), r')" by simp
  note q = enqueue_queue_of [OF eq]
  show ?thesis
  proof (cases rule: enqueue_cases [of E p r])
    case (refused e)
    with eq show ?thesis by simp
  next
    case queued
    from queued(3) eq have "entry = queued_entry p"
      "reg_runs r' = hm_insert (pr_run_id p) (queued_entry p) (reg_runs r)"
      "reg_repo_locks r' = reg_repo_locks r"
      "position = length (queue_of r (repo_hash E (pr_repo_dir p)) @ [p])" by simp_all
    with queued(1,2) eq q show ?thesis by (simp add: MAX_QUEUE_SIZE_def queued_entry_def)
  qed
qed

definition one_waiting :: registry where
  "one_waiting = apply_op plain_env (Enqueue (pend ''a'' ''/p'' ''/r'')) registry_new"

lemma one_waiting_enqueue:
  "enqueue_run_without_snapshot plain_env (pend ''a'' ''/p'' ''/r'') registry_new
    = Inr ((1, queued_entry (pend ''a'' ''/p'' ''/r'')), one_waiting)"
  by (simp add: one_waiting_def enqueue_run_without_snapshot_def total_pending_count_def
      registry_new_def MAX_QUEUE_SIZE_def queue_of_def Let_def)

theorem enqueue_exact_witness:
  "queue_of one_waiting ''/r'' = [pend ''a'' ''/p'' ''/r''] \<and> queue_of one_waiting ''/s'' = []
   \<and> hm_get (reg_runs one_waiting) ''a'' = Some (queued_entry (pend ''a'' ''/p'' ''/r''))"
  using enqueue_exact [where E = plain_env and p = "pend ''a'' ''/p'' ''/r''" and r = registry_new]
  unfolding one_waiting_enqueue by (simp add: pend_def queue_of_def registry_new_def)

section \<open>Service across repositories\<close>

text \<open>
  The capacity freed by a run goes to the repository that has waited longest. In a state that
  satisfies the invariant, \<open>drain_any_ready\<close> is empty-handed only when nothing waits anywhere;
  otherwise it takes the head of the queue of the first repository, in the order of first
  submission, that has waiting runs, and leaves every other queue as it is.
\<close>
theorem drain_any_is_fair:
  assumes "reg_inv E r"
  shows "case drain_any_ready_without_snapshot r of
     None \<Rightarrow> (\<forall>h. queue_of r h = [])
   | Some (p, r') \<Rightarrow>
       (\<exists>before h after. reg_repo_insertion_order r = before @ h # after
          \<and> (\<forall>h' \<in> set before. queue_of r h' = [])
          \<and> queue_of r h = p # queue_of r' h
          \<and> (\<forall>h'. h' \<noteq> h \<longrightarrow> queue_of r' h' = queue_of r h'))"
proof -
  have ready: "is_ready r h \<longleftrightarrow> queue_of r h \<noteq> []" for h
    using failures_of_less [OF reg_inv_failures_ok [OF assms]] by (simp add: is_ready_def)
  have ordered: "queue_of r h \<noteq> [] \<Longrightarrow> h \<in> set (reg_repo_insertion_order r)" for h
    using queue_of_in [of r h] assms by (fastforce simp: reg_inv_def order_ok_def)
  show ?thesis
  proof (cases "find (is_ready r) (reg_repo_insertion_order r)")
    case None
    then have "\<forall>h \<in> set (reg_repo_insertion_order r). queue_of r h = []"
      by (simp add: find_None_iff_all ready)
    with ordered have "\<forall>h. queue_of r h = []" by blast
    with None show ?thesis by (simp add: drain_any_ready_without_snapshot_def)
  next
    case (Some h)
    from find_Some_split [OF Some] obtain before after
      where split: "reg_repo_insertion_order r = before @ h # after" "queue_of r h \<noteq> []"
        "\<forall>u \<in> set before. queue_of r u = []" by (auto simp: ready)
    then obtain p rest where q: "queue_of r h = p # rest" by (cases "queue_of r h") auto
    define r' where "r' = r\<lparr>reg_pending_queues := hm_insert h rest (reg_pending_queues r)\<rparr>"
    have pop: "drain_any_ready_without_snapshot r = Some (p, r')"
      using Some q by (simp add: drain_any_ready_without_snapshot_def pop_front_def r'_def)
    have "queue_of r' h' = (if h' = h then rest else queue_of r h')" for h'
      by (rule queue_of_update) (simp add: r'_def)
    with split q pop show ?thesis by auto
  qed
qed

definition two_repos :: registry where
  "two_repos = apply_op plain_env (Enqueue (pend ''b'' ''/q'' ''/s''))
     (apply_op plain_env (Enqueue (pend ''a'' ''/p'' ''/r'')) registry_new)"

theorem drain_any_is_fair_witness:
  "\<exists>before h after. reg_repo_insertion_order two_repos = before @ h # after
     \<and> (\<forall>h' \<in> set before. queue_of two_repos h' = [])
     \<and> hd (queue_of two_repos h) = pend ''a'' ''/p'' ''/r''"
proof -
  have inv: "reg_inv plain_env two_repos"
    unfolding two_repos_def by (intro apply_op_inv reg_inv_new)
  have "map_option fst (drain_any_ready_without_snapshot two_repos) = Some (pend ''a'' ''/p'' ''/r'')"
    by code_simp
  then obtain r' where "drain_any_ready_without_snapshot two_repos = Some (pend ''a'' ''/p'' ''/r'', r')"
    by (auto simp: map_option_eq_Some)
  with drain_any_is_fair [OF inv] show ?thesis by (fastforce intro: exI)
qed

section \<open>The order of submissions is never changed\<close>

text \<open>The runs a step adds to the queue of a repository, and those of a list of steps.\<close>

fun accepted :: "env \<Rightarrow> string \<Rightarrow> reg_op \<Rightarrow> registry \<Rightarrow> pending_run list" where
  "accepted E h (Enqueue p) r =
     (case enqueue_run_without_snapshot E p r of
        Inl _ \<Rightarrow> []
      | Inr _ \<Rightarrow> if repo_hash E (pr_repo_dir p) = h then [p] else [])"
| "accepted E h _ r = []"

fun submissions :: "env \<Rightarrow> string \<Rightarrow> registry \<Rightarrow> reg_op list \<Rightarrow> pending_run list" where
  "submissions E h r [] = []"
| "submissions E h r (op # ops) = accepted E h op r @ submissions E h (apply_op E op r) ops"

lemma shrinks_queue_of:
  assumes "shrinks (reg_pending_queues r') (reg_pending_queues r)"
  shows "subseq (queue_of r' h) (queue_of r h)"
proof -
  have "subseq (case map_of m' h of Some q \<Rightarrow> q | None \<Rightarrow> []) (case map_of m h of Some q \<Rightarrow> q | None \<Rightarrow> [])"
    if "shrinks m' m" for m' m
    using that unfolding shrinks_def by (induction rule: list_all2_induct) auto
  with assms show ?thesis by (simp add: queue_of_def)
qed

lemma pop_front_shrinks:
  assumes "pop_front h r = Some (p, r')"
  shows "shrinks (reg_pending_queues r') (reg_pending_queues r)"
proof -
  from assms obtain rest where rest: "queue_of r h = p # rest"
    and r': "reg_pending_queues r' = hm_insert h rest (reg_pending_queues r)"
    by (auto simp: pop_front_Some)
  from rest have "hm_get (reg_pending_queues r) h = Some (p # rest)"
    by (simp add: queue_of_def split: option.splits)
  moreover have "subseq rest (p # rest)" by (rule list_emb_Cons) simp
  ultimately show ?thesis unfolding r' by (rule shrinks_update)
qed

lemma not_enqueue_shrinks:
  assumes "\<forall>p. op \<noteq> Enqueue p"
  shows "shrinks (reg_pending_queues (apply_op E op r)) (reg_pending_queues r)"
proof (cases op)
  case (Register l m i now pl d sn cd sc)
  show ?thesis
    by (cases rule: register_cases [of E l m i now pl d sn cd sc r]) (simp_all add: Register)
next
  case (Stage now i s ph er)
  then show ?thesis by (auto split: sum.split simp: stage_keeps)
next
  case (Touch i pid rec tmux)
  then show ?thesis by (simp add: touch_run_def split: option.split)
next
  case (Progress i phase b)
  then show ?thesis by (simp add: progress_run_def split: option.split)
next
  case (Enqueue p)
  with assms show ?thesis by simp
next
  case (Dequeue now i)
  show ?thesis
  proof (cases rule: dequeue_cases [of E now i r])
    case (stopped p qs st r2)
    with shrinks_pop [OF stopped(1)] stage_keeps(1) [OF stopped(2)] Dequeue show ?thesis by simp
  qed (simp_all add: Dequeue shrinks_pop)
next
  case (Promote l m now i)
  show ?thesis by (cases rule: promote_cases [of E l m now i r]) (simp_all add: Promote)
next
  case (DrainNext d)
  then show ?thesis
    by (auto simp: drain_next_without_snapshot_def Let_def split: option.split dest: pop_front_shrinks)
next
  case DrainAny
  then show ?thesis
    by (auto simp: drain_any_ready_without_snapshot_def split: option.split dest: pop_front_shrinks)
next
  case (RecordFailure now d)
  show ?thesis
  proof (cases rule: record_failure_cases [of r E d now])
    case counted
    with RecordFailure show ?thesis by simp
  next
    case (tripped r2)
    have "reg_pending_queues (apply_op E op r) = reg_pending_queues r2"
      unfolding RecordFailure apply_op.simps tripped(3) by simp
    moreover have "shrinks (reg_pending_queues r2) (reg_pending_queues r)"
      using tripped(2) by (auto intro: shrinks_update split: option.split)
    ultimately show ?thesis by simp
  qed
next
  case (ClearQueue now f)
  then show ?thesis
    by (simp add: clear_queue_staged_def Let_def case_prod_beta shrinks_map)
next
  case (RemoveRun m i)
  then show ?thesis by (simp add: remove_run_def Let_def split: option.split)
next
  case (AdoptLock l d)
  then show ?thesis by (auto split: sum.split dest!: acquire_adopt_Inr)
qed (simp_all add: record_queue_success_without_snapshot_def remove_pending_staged_def adopt_def
    remove_pending_without_snapshot_def shrinks_map)

lemma step_keeps_order: "subseq (queue_of (apply_op E op r) h) (queue_of r h @ accepted E h op r)"
proof (cases "\<exists>p. op = Enqueue p")
  case True
  then obtain p where "op = Enqueue p" by blast
  then show ?thesis
    by (cases "enqueue_run_without_snapshot E p r") (auto simp: enqueue_queue_of split: sum.splits)
next
  case False
  then have "accepted E h op r = []" by (cases op) simp_all
  with shrinks_queue_of [OF not_enqueue_shrinks] False show ?thesis by simp
qed

text \<open>
  C7: no operation reorders or invents waiting runs. Along any history, what waits in a
  repository's queue at the end is, in this order, a selection of what waited at the start
  followed by what was accepted since; runs leave by being drained, removed, cleared or stopped
  by the breaker, and no run overtakes another.
\<close>
theorem no_run_overtakes_another:
  assumes "reg_trace E r ops r'"
  shows "subseq (queue_of r' h) (queue_of r h @ submissions E h r ops)"
  using assms
proof (induction rule: reg_trace.induct)
  case (reg_trace_Nil r)
  then show ?case by simp
next
  case (reg_trace_Cons op r ops r')
  have "subseq (queue_of (apply_op E op r) h @ submissions E h (apply_op E op r) ops)
      ((queue_of r h @ accepted E h op r) @ submissions E h (apply_op E op r) ops)"
    by (intro list_emb_append_mono step_keeps_order) simp
  with reg_trace_Cons.IH show ?case by (simp add: subseq_order.order_trans)
qed

theorem no_run_overtakes_another_witness:
  "subseq (queue_of (apply_op plain_env (DrainNext ''/r'')
       (apply_op plain_env (Enqueue (pend ''a'' ''/p'' ''/r'')) registry_new)) ''/r'')
     [pend ''a'' ''/p'' ''/r'']"
proof -
  have "op_fresh (Enqueue (pend ''a'' ''/p'' ''/r'')) registry_new"
    by (simp add: registry_new_def)
  then have "reg_trace plain_env registry_new [Enqueue (pend ''a'' ''/p'' ''/r''), DrainNext ''/r'']
    (apply_op plain_env (DrainNext ''/r'') (apply_op plain_env (Enqueue (pend ''a'' ''/p'' ''/r'')) registry_new))"
    by (simp add: reg_trace_simps del: apply_op.simps)
  moreover have "queue_of registry_new ''/r'' @ submissions plain_env ''/r'' registry_new
      [Enqueue (pend ''a'' ''/p'' ''/r''), DrainNext ''/r''] = [pend ''a'' ''/p'' ''/r'']"
    by code_simp
  ultimately show ?thesis
    using no_run_overtakes_another [of plain_env registry_new
        "[Enqueue (pend ''a'' ''/p'' ''/r''), DrainNext ''/r'']" _ "''/r''"] by metis
qed

section \<open>The circuit breaker\<close>

text \<open>What stopping a list of runs does to each run.\<close>

definition stopped_for :: "string \<Rightarrow> run_entry \<Rightarrow> bool" where
  "stopped_for reason e \<longleftrightarrow> re_status e = Stopped \<and> re_error_message e = Some reason"

lemma stage_Stopped:
  "stage_status_locked E now i Stopped ph er r =
    (case hm_get (reg_runs r) i of
       None \<Rightarrow> Inl (NotFound i)
     | Some e \<Rightarrow>
         Inr (\<lparr>ss_entry = staged_entry now Stopped ph er e, ss_epoch = re_write_epoch e + 1\<rparr>,
              r\<lparr>reg_runs := hm_insert i (staged_entry now Stopped ph er e) (reg_runs r),
                reg_repo_locks := hm_remove (repo_hash E (re_repo_dir e)) (reg_repo_locks r)\<rparr>))"
proof -
  have "s \<le> Stopped" for s by (cases s) (simp_all add: less_eq_RunStatus_def)
  then show ?thesis by (simp add: stage_status_cases split: option.split)
qed

lemma stage_stopped_all_other:
  "i \<notin> set ids \<Longrightarrow> hm_get (reg_runs (snd (stage_stopped_all E now reason ids r))) i = hm_get (reg_runs r) i"
  by (induction ids arbitrary: r) (auto simp: stage_Stopped case_prod_beta split: option.split)

lemma stage_stopped_all_effect:
  "i \<in> set ids \<Longrightarrow> hm_get (reg_runs r) i = Some e \<Longrightarrow>
    \<exists>e'. hm_get (reg_runs (snd (stage_stopped_all E now reason ids r))) i = Some e' \<and> stopped_for reason e'"
proof (induction ids arbitrary: r e)
  case Nil
  then show ?case by simp
next
  case (Cons j ids)
  show ?case
  proof (cases "hm_get (reg_runs r) j")
    case None
    with Cons.prems have "i \<in> set ids" by auto
    from Cons.IH [OF this Cons.prems(2)] None show ?thesis by (simp add: stage_Stopped)
  next
    case (Some ej)
    let ?r1 = "r\<lparr>reg_runs := hm_insert j (staged_entry now Stopped None (Some reason) ej) (reg_runs r),
                 reg_repo_locks := hm_remove (repo_hash E (re_repo_dir ej)) (reg_repo_locks r)\<rparr>"
    have step: "snd (stage_stopped_all E now reason (j # ids) r) = snd (stage_stopped_all E now reason ids ?r1)"
      using Some by (simp add: stage_Stopped case_prod_beta)
    show ?thesis
    proof (cases "i \<in> set ids")
      case True
      obtain e1 where "hm_get (reg_runs ?r1) i = Some e1" using Cons.prems(2) by (cases "i = j") auto
      from Cons.IH [OF True this] show ?thesis unfolding step .
    next
      case False
      with Cons.prems(1) have "i = j" by simp
      then have "hm_get (reg_runs (snd (stage_stopped_all E now reason ids ?r1))) i
          = Some (staged_entry now Stopped None (Some reason) ej)"
        using stage_stopped_all_other [OF False] by simp
      then show ?thesis unfolding step by (simp add: stopped_for_def staged_entry_def)
    qed
  qed
qed

text \<open>
  The circuit breaker. The first two failures of a repository only count. The third empties
  its queue, stops every run that waited there with the breaker's message, and resets the count;
  the queues and counts of other repositories, and all other runs, are untouched.
\<close>
theorem third_failure_trips_the_breaker:
  "let h = repo_hash E repo_dir; r' = snd (record_queue_failure_without_snapshot E now repo_dir r) in
     (if failures_of r h < 2
      then failures_of r' h = failures_of r h + 1 \<and> (\<forall>h'. queue_of r' h' = queue_of r h')
        \<and> reg_runs r' = reg_runs r
      else failures_of r' h = 0 \<and> queue_of r' h = []
        \<and> (\<forall>h'. h' \<noteq> h \<longrightarrow> queue_of r' h' = queue_of r h')
        \<and> (\<forall>p \<in> set (queue_of r h). \<forall>e. hm_get (reg_runs r) (pr_run_id p) = Some e \<longrightarrow>
             (\<exists>e'. hm_get (reg_runs r') (pr_run_id p) = Some e' \<and> stopped_for ''circuit breaker tripped'' e'))
        \<and> (\<forall>i. i \<notin> pr_run_id ` set (queue_of r h) \<longrightarrow> hm_get (reg_runs r') i = hm_get (reg_runs r) i))
     \<and> (\<forall>h'. h' \<noteq> h \<longrightarrow> failures_of r' h' = failures_of r h')"
proof -
  let ?h = "repo_hash E repo_dir"
  let ?r' = "snd (record_queue_failure_without_snapshot E now repo_dir r)"
  show ?thesis
  proof (cases rule: record_failure_cases [of r E repo_dir now])
    case counted
    then show ?thesis
      by (simp add: Let_def failures_of_def queue_of_def MAX_CONSECUTIVE_FAILURES_def)
  next
    case (tripped r2)
    let ?ids = "map pr_run_id (queue_of r ?h)"
    let ?r3 = "snd (stage_stopped_all E now ''circuit breaker tripped'' ?ids r2)"
    have r': "?r' = ?r3\<lparr>reg_consecutive_failures := hm_remove ?h (reg_consecutive_failures r2)\<rparr>"
      unfolding tripped(3) by simp
    have big: "\<not> failures_of r ?h < 2" using tripped(1) by (simp add: MAX_CONSECUTIVE_FAILURES_def)
    have fl: "failures_of ?r' h' = (if h' = ?h then 0 else failures_of r h')" for h'
      unfolding r' by (simp add: failures_of_def tripped(2))
    have q: "queue_of ?r' h' = (if h' = ?h then [] else queue_of r h')" for h'
      unfolding r' by (simp add: queue_of_def tripped(2) split: option.split)
    have runs2: "reg_runs r2 = reg_runs r" by (simp add: tripped(2))
    have stop: "\<exists>e'. hm_get (reg_runs ?r') (pr_run_id p) = Some e' \<and> stopped_for ''circuit breaker tripped'' e'"
      if "p \<in> set (queue_of r ?h)" "hm_get (reg_runs r) (pr_run_id p) = Some e" for p e
      using stage_stopped_all_effect [of "pr_run_id p" ?ids r2 e E now "''circuit breaker tripped''"] that runs2
      unfolding r' by simp
    have other: "hm_get (reg_runs ?r') i = hm_get (reg_runs r) i" if "i \<notin> pr_run_id ` set (queue_of r ?h)" for i
      using stage_stopped_all_other [of i ?ids E now "''circuit breaker tripped''" r2] that runs2
      unfolding r' by simp
    show ?thesis unfolding Let_def using big fl q stop other by simp
  qed
qed

definition two_failures :: registry where
  "two_failures = apply_op plain_env (RecordFailure 2 ''/r'') (apply_op plain_env (RecordFailure 1 ''/r'') one_waiting)"

theorem third_failure_trips_the_breaker_witness:
  "queue_of two_failures ''/r'' \<noteq> []
   \<and> queue_of (snd (record_queue_failure_without_snapshot plain_env 3 ''/r'' two_failures)) ''/r'' = []"
proof -
  have "failures_of two_failures ''/r'' = 2 \<and> queue_of two_failures ''/r'' \<noteq> []" by code_simp
  with third_failure_trips_the_breaker [where E = plain_env and repo_dir = "''/r''" and now = 3 and r = two_failures] show ?thesis
    by (simp add: Let_def)
qed

text \<open>
  Clearing the queue. The count returned is the number of waiting runs the filter
  selects; none of them waits afterwards, each is stopped with the message for the user, and the
  runs the filter does not select keep their places and their status.
\<close>
theorem clear_queue_exact:
  "let r' = snd (clear_queue_staged E now f r) in
     fst (fst (clear_queue_staged E now f r)) = length (filter (filter_selects E f) (pending_entries r))
     \<and> (\<forall>h. queue_of r' h = filter (\<lambda>p. \<not> filter_selects E f p) (queue_of r h))
     \<and> (\<forall>p \<in> set (pending_entries r). filter_selects E f p \<longrightarrow>
          (\<forall>e. hm_get (reg_runs r) (pr_run_id p) = Some e \<longrightarrow>
             (\<exists>e'. hm_get (reg_runs r') (pr_run_id p) = Some e' \<and> stopped_for ''cleared by user'' e')))
     \<and> (\<forall>i. i \<notin> pr_run_id ` set (filter (filter_selects E f) (pending_entries r)) \<longrightarrow>
          hm_get (reg_runs r') i = hm_get (reg_runs r) i)"
proof -
  let ?sel = "filter (filter_selects E f) (pending_entries r)"
  let ?ids = "map pr_run_id ?sel"
  let ?r1 = "r\<lparr>reg_pending_queues := map (\<lambda>(h, q). (h, filter (\<lambda>p. \<not> filter_selects E f p) q)) (reg_pending_queues r)\<rparr>"
  let ?r' = "snd (clear_queue_staged E now f r)"
  have r': "reg_runs ?r' = reg_runs (snd (stage_stopped_all E now ''cleared by user'' ?ids ?r1))"
    "reg_pending_queues ?r' = reg_pending_queues ?r1"
    by (simp_all add: clear_queue_staged_def Let_def case_prod_beta)
  have "map_of (map (\<lambda>(h, q). (h, g q)) m) h = map_option g (map_of m h)"
    for g :: "pending_run list \<Rightarrow> pending_run list" and m and h :: string
    by (induction m) auto
  then have q: "queue_of ?r' h = filter (\<lambda>p. \<not> filter_selects E f p) (queue_of r h)" for h
    unfolding queue_of_def r' by (simp split: option.split)
  have stop: "\<exists>e'. hm_get (reg_runs ?r') (pr_run_id p) = Some e' \<and> stopped_for ''cleared by user'' e'"
    if "p \<in> set (pending_entries r)" "filter_selects E f p" "hm_get (reg_runs r) (pr_run_id p) = Some e" for p e
    unfolding r' by (rule stage_stopped_all_effect [where e = e]) (use that in simp_all)
  have other: "hm_get (reg_runs ?r') i = hm_get (reg_runs r) i" if "i \<notin> pr_run_id ` set ?sel" for i
    unfolding r' using stage_stopped_all_other [of i ?ids E now "''cleared by user''" ?r1] that by simp
  have "fst (fst (clear_queue_staged E now f r)) = length ?sel"
    by (simp add: clear_queue_staged_def Let_def case_prod_beta)
  with q stop other show ?thesis unfolding Let_def by blast
qed

theorem clear_queue_exact_witness:
  "\<forall>h. queue_of (snd (clear_queue_staged plain_env 1 None one_waiting)) h = []"
  using clear_queue_exact [where E = plain_env and now = 1 and f = None and r = one_waiting] by (simp add: Let_def filter_selects_def)

section \<open>Locks and failed writes\<close>

text \<open>
  No lock is leaked. A registration or promotion that fails, at the lock, at the
  directory or at the write of \<open>meta.json\<close>, leaves the set of held locks as it was; one that
  succeeds found the repository's lock free and holds it afterwards, and touches no other lock.
\<close>
theorem failed_start_leaks_no_lock:
  "(case register_run_with_schedule E l m run_id now plan d sess cfg sched r of
      (Inl err, r') \<Rightarrow> hm_get (reg_repo_locks r') = hm_get (reg_repo_locks r) \<and> reg_runs r' = reg_runs r
    | (Inr i, r') \<Rightarrow>
        i = run_id \<and> \<not> has_repo_lock E r d \<and> has_repo_lock E r' d
        \<and> hm_get (reg_repo_locks r') = (hm_get (reg_repo_locks r))(repo_hash E d \<mapsto> LockFile))
   \<and> (case promote_queued E l m now run_id r of
        (Inl err, r') \<Rightarrow> hm_get (reg_repo_locks r') = hm_get (reg_repo_locks r)
      | (Inr _, r') \<Rightarrow>
          \<exists>e. hm_get (reg_runs r) run_id = Some e \<and> re_status e = Queued
            \<and> hm_get (reg_runs r') run_id = Some (promoted_entry now e)
            \<and> \<not> has_repo_lock E r (re_repo_dir e)
            \<and> hm_get (reg_repo_locks r') = (hm_get (reg_repo_locks r))(repo_hash E (re_repo_dir e) \<mapsto> LockFile))"
proof -
  have give_back: "(\<lambda>k. if k = h then None else if k = h then Some LockFile else hm_get m k) = hm_get m"
    if "hm_get m h = None" for m :: "(string, lock_file) hash_map" and h
    using that by auto
  have "case register_run_with_schedule E l m run_id now plan d sess cfg sched r of
      (Inl err, r') \<Rightarrow> hm_get (reg_repo_locks r') = hm_get (reg_repo_locks r) \<and> reg_runs r' = reg_runs r
    | (Inr i, r') \<Rightarrow>
        i = run_id \<and> \<not> has_repo_lock E r d \<and> has_repo_lock E r' d
        \<and> hm_get (reg_repo_locks r') = (hm_get (reg_repo_locks r))(repo_hash E d \<mapsto> LockFile)"
    by (cases rule: register_cases [of E l m run_id now plan d sess cfg sched r])
      (auto simp: release_from_def guard_new_def has_repo_lock_def fun_eq_iff)
  moreover have "case promote_queued E l m now run_id r of
        (Inl err, r') \<Rightarrow> hm_get (reg_repo_locks r') = hm_get (reg_repo_locks r)
      | (Inr _, r') \<Rightarrow>
          \<exists>e. hm_get (reg_runs r) run_id = Some e \<and> re_status e = Queued
            \<and> hm_get (reg_runs r') run_id = Some (promoted_entry now e)
            \<and> \<not> has_repo_lock E r (re_repo_dir e)
            \<and> hm_get (reg_repo_locks r') = (hm_get (reg_repo_locks r))(repo_hash E (re_repo_dir e) \<mapsto> LockFile)"
    by (cases rule: promote_cases [of E l m now run_id r])
      (auto simp: release_from_def guard_new_def has_repo_lock_def fun_eq_iff)
  ultimately show ?thesis ..
qed

section \<open>The queues across a restart\<close>

lemma restore_fold:
  "distinct (map fst ws) \<Longrightarrow>
    queue_of (fold restore_one ws r) h =
      (case map_of ws h of Some q \<Rightarrow> q | None \<Rightarrow> queue_of r h)"
proof (induction ws arbitrary: r)
  case Nil
  show ?case by simp
next
  case (Cons w ws)
  obtain k q where w: "w = (k, q)" by (cases w)
  have "queue_of (restore_one w r) h = (if h = k then q else queue_of r h)"
    unfolding w by (rule queue_of_update) (simp add: restore_one_def)
  moreover from Cons.prems w have "k \<notin> set (map fst ws)" "distinct (map fst ws)" by simp_all
  moreover from this have "map_of ws k = None" by (simp add: map_of_eq_None_iff)
  ultimately show ?case using Cons.IH [of "restore_one w r"] w
    by (cases "h = k") (simp_all split: option.split)
qed

lemma restore_order:
  "distinct (reg_repo_insertion_order r) \<Longrightarrow>
    distinct (reg_repo_insertion_order (fold restore_one ws r))
    \<and> set (reg_repo_insertion_order (fold restore_one ws r))
        = set (reg_repo_insertion_order r) \<union> {h. \<exists>q. (h, q) \<in> set ws \<and> q \<noteq> []}"
proof (induction ws arbitrary: r)
  case Nil
  then show ?case by simp
next
  case (Cons w ws)
  obtain k q where w: "w = (k, q)" by (cases w)
  have "distinct (reg_repo_insertion_order (restore_one w r))"
    and "set (reg_repo_insertion_order (restore_one w r))
      = set (reg_repo_insertion_order r) \<union> (if q = [] then {} else {k})"
    using Cons.prems w by (auto simp: restore_one_def)
  with Cons.IH [of "restore_one w r"] w show ?case by auto
qed

text \<open>
  C11: the queues survive a restart. If what \<open>queue.json\<close> holds parses to the snapshot that was
  written, then loading it into a fresh registry gives every repository the queue and the failure
  count it had, and every repository with waiting runs its place in the cross-repository order.
\<close>
theorem queues_survive_restart:
  assumes "reg_inv E r" and "parse_wire (to_json (qs_wire (fst (stage_queue_locked r)))) = Some (qs_wire (fst (stage_queue_locked r)))"
  shows "let r' = restore_queue (load_queue parse_wire
               (Readable (to_json (qs_wire (fst (stage_queue_locked r)))))) registry_new in
     queue_of r' = queue_of r \<and> failures_of r' = failures_of r
     \<and> distinct (reg_repo_insertion_order r')
     \<and> (\<forall>h. h \<in> set (reg_repo_insertion_order r') \<longleftrightarrow> queue_of r h \<noteq> [])"
proof -
  let ?w = "qs_wire (fst (stage_queue_locked r))"
  let ?r1 = "fold restore_one (reg_pending_queues r) registry_new"
  have d: "distinct (map fst (reg_pending_queues r))"
    using assms(1) by (simp add: reg_inv_def queues_ok_def hm_ok_def)
  have w: "qw_queues ?w = reg_pending_queues r" "qw_consecutive_failures ?w = reg_consecutive_failures r"
    by (simp_all add: stage_queue_locked_def Let_def)
  have r': "restore_queue (load_queue parse_wire (Readable (to_json ?w))) registry_new
      = ?r1\<lparr>reg_consecutive_failures := reg_consecutive_failures r\<rparr>"
    using assms(2) by (simp add: load_queue_def restore_queue_def w)
  have q: "queue_of ?r1 h = queue_of r h" for h
    using restore_fold [OF d, of registry_new h]
    by (simp add: queue_of_def registry_new_def split: option.splits)
  have "(\<exists>q. (h, q) \<in> set (reg_pending_queues r) \<and> q \<noteq> []) \<longleftrightarrow> queue_of r h \<noteq> []" for h
    by (auto simp: queue_of_def map_of_eq_Some_iff [OF d, symmetric] simp del: map_of_eq_Some_iff [OF d]
        split: option.split)
  with restore_order [of registry_new "reg_pending_queues r"]
  have o1: "distinct (reg_repo_insertion_order ?r1)"
    "\<forall>h. h \<in> set (reg_repo_insertion_order ?r1) \<longleftrightarrow> queue_of r h \<noteq> []"
    by (simp_all add: registry_new_def)
  have "queue_of (?r1\<lparr>reg_consecutive_failures := reg_consecutive_failures r\<rparr>) = queue_of r"
    using q by (auto simp: queue_of_def)
  moreover have "failures_of (?r1\<lparr>reg_consecutive_failures := reg_consecutive_failures r\<rparr>) = failures_of r"
    by (auto simp: failures_of_def)
  ultimately show ?thesis unfolding r' Let_def using o1 by simp
qed

theorem queues_survive_restart_witness:
  "queue_of (restore_queue (load_queue
       (\<lambda>s. if s = ''json'' then Some (qs_wire (fst (stage_queue_locked one_waiting))) else None)
       (Readable ''json'')) registry_new) = queue_of one_waiting"
proof -
  have inv: "reg_inv plain_env one_waiting"
    unfolding one_waiting_def by (intro apply_op_inv reg_inv_new)
  show ?thesis
    using queues_survive_restart [OF inv, of
        "\<lambda>s. if s = ''json'' then Some (qs_wire (fst (stage_queue_locked one_waiting))) else None"
        "\<lambda>_. ''json''"]
    by (simp add: Let_def)
qed

end
