(* ===== verification/Queue_Flush.thy ===== *)
theory Queue_Flush
  imports Registry
begin

text \<open>
  Flushing queue snapshots outside the registry mutex (\<open>RunRegistry::flush_queue\<close>): the epoch
  guard, the temporary file, the claim by \<open>fetch_max\<close> and the rename, first as one call and then
  as the separate atomic actions that concurrent flushes interleave.
\<close>

section \<open>One flush\<close>

text \<open>
  The disk and the shared \<open>queue_last_flushed_epoch\<close>. The epoch kept beside the contents of
  \<open>queue.json\<close> says which snapshot was renamed into place last; the code does not store it.
\<close>

record flush_state =
  fl_tracker :: u64
  fl_disk :: "(u64 \<times> queue_wire) option"
  fl_tmp :: "(u64, queue_wire) hash_map"

text \<open>The outcomes of writing the temporary file and of the rename.\<close>

datatype tmp_io = TmpCreateFailed | TmpWriteFailed | TmpWritten
datatype rename_io = RenameFailed | Renamed

datatype flush_result = Flushed | StaleFlush | SerializeError | TmpError | RenameError

text \<open>
  The first guard and the write of the temporary file; \<open>None\<close> lets the flush go on. \<open>fl_tmp\<close>
  lists the temporary files that are complete; one whose write failed stays behind but is never
  renamed.
\<close>

definition flush_begin ::
  "bool \<Rightarrow> tmp_io \<Rightarrow> queue_snapshot \<Rightarrow> flush_state \<Rightarrow> flush_result option \<times> flush_state" where
  "flush_begin serializes tio snap st =
    (if qs_epoch snap \<le> fl_tracker st then (Some StaleFlush, st)
     else if \<not> serializes then (Some SerializeError, st)
     else case tio of
       TmpCreateFailed \<Rightarrow> (Some TmpError, st)
     | TmpWriteFailed \<Rightarrow> (Some TmpError, st)
     | TmpWritten \<Rightarrow> (None, st\<lparr>fl_tmp := hm_insert (qs_epoch snap) (qs_wire snap) (fl_tmp st)\<rparr>))"

text \<open>The claim: \<open>fetch_max\<close> returns the old value and stores the maximum.\<close>

definition flush_claim :: "queue_snapshot \<Rightarrow> flush_state \<Rightarrow> flush_result option \<times> flush_state" where
  "flush_claim snap st =
    (let winner = fl_tracker st;
         st1 = st\<lparr>fl_tracker := max winner (qs_epoch snap)\<rparr>
     in if qs_epoch snap \<le> winner
        then (Some StaleFlush, st1\<lparr>fl_tmp := hm_remove (qs_epoch snap) (fl_tmp st1)\<rparr>)
        else (None, st1))"

definition flush_rename :: "rename_io \<Rightarrow> queue_snapshot \<Rightarrow> flush_state \<Rightarrow> flush_result \<times> flush_state" where
  "flush_rename rio snap st =
    (case rio of
       RenameFailed \<Rightarrow> (RenameError, st\<lparr>fl_tmp := hm_remove (qs_epoch snap) (fl_tmp st)\<rparr>)
     | Renamed \<Rightarrow>
         (Flushed, st\<lparr>fl_disk := Some (qs_epoch snap, qs_wire snap),
                     fl_tmp := hm_remove (qs_epoch snap) (fl_tmp st)\<rparr>))"

definition flush_queue ::
  "bool \<Rightarrow> tmp_io \<Rightarrow> rename_io \<Rightarrow> queue_snapshot \<Rightarrow> flush_state \<Rightarrow> flush_result \<times> flush_state" where
  "flush_queue serializes tio rio snap st =
    (case flush_begin serializes tio snap st of
       (Some res, st1) \<Rightarrow> (res, st1)
     | (None, st1) \<Rightarrow>
         (case flush_claim snap st1 of
            (Some res, st2) \<Rightarrow> (res, st2)
          | (None, st2) \<Rightarrow> flush_rename rio snap st2))"

text \<open>Whether the call reports success.\<close>

definition flush_ok :: "flush_result \<Rightarrow> bool" where
  "flush_ok res \<longleftrightarrow> res = Flushed \<or> res = StaleFlush"

lemma flush_queue_eq:
  "flush_queue serializes tio rio snap st =
    (if qs_epoch snap \<le> fl_tracker st then (StaleFlush, st)
     else if \<not> serializes then (SerializeError, st)
     else if tio \<noteq> TmpWritten then (TmpError, st)
     else flush_rename rio snap
       (st\<lparr>fl_tmp := hm_insert (qs_epoch snap) (qs_wire snap) (fl_tmp st), fl_tracker := qs_epoch snap\<rparr>))"
proof -
  have "max (fl_tracker st) (qs_epoch snap) = qs_epoch snap" if "\<not> qs_epoch snap \<le> fl_tracker st"
    using that by (metis linear max_def)
  then show ?thesis
    by (cases tio) (simp_all add: flush_queue_def flush_begin_def flush_claim_def Let_def)
qed

text \<open>The epoch on disk; 0 stands for a disk no flush has written yet.\<close>

definition disk_epoch :: "flush_state \<Rightarrow> u64" where
  "disk_epoch st = (case fl_disk st of Some (ep, _) \<Rightarrow> ep | None \<Rightarrow> 0)"

text \<open>A list of flushes, each with its I/O outcomes, one after the other.\<close>

fun flush_all ::
  "(bool \<times> tmp_io \<times> rename_io \<times> queue_snapshot) list \<Rightarrow> flush_state \<Rightarrow> flush_state" where
  "flush_all [] st = st"
| "flush_all ((s, tio, rio, snap) # rest) st = flush_all rest (snd (flush_queue s tio rio snap st))"

lemma flush_queue_mono:
  assumes "disk_epoch st \<le> fl_tracker st"
  shows "disk_epoch st \<le> disk_epoch (snd (flush_queue s tio rio snap st))"
    and "disk_epoch (snd (flush_queue s tio rio snap st)) \<le> fl_tracker (snd (flush_queue s tio rio snap st))"
    and "fl_tracker st \<le> fl_tracker (snd (flush_queue s tio rio snap st))"
  using assms by (auto simp: flush_queue_eq flush_rename_def disk_epoch_def split: rename_io.split)

lemma flush_all_mono:
  "disk_epoch st \<le> fl_tracker st \<Longrightarrow>
    disk_epoch st \<le> disk_epoch (flush_all calls st) \<and> disk_epoch (flush_all calls st) \<le> fl_tracker (flush_all calls st)"
proof (induction calls arbitrary: st)
  case Nil
  then show ?case by simp
next
  case (Cons c calls)
  obtain s tio rio snap where c: "c = (s, tio, rio, snap)" by (cases c)
  from Cons.IH [OF flush_queue_mono(2) [OF Cons.prems]] flush_queue_mono(1) [OF Cons.prems, of s tio rio snap] c
  show ?case by (auto intro: order_trans)
qed

text \<open>
  Flushes that do not overlap never roll the disk back. Whatever the order in which
  snapshots arrive and whatever I/O fails, the epoch on disk never decreases; and a snapshot newer
  than everything claimed before, written without I/O failure, is what the disk then holds.
\<close>
theorem sequential_flushes_never_roll_back:
  assumes "disk_epoch st \<le> fl_tracker st"
  shows "disk_epoch st \<le> disk_epoch (flush_all calls st)
    \<and> (fl_tracker (flush_all calls st) < qs_epoch snap \<longrightarrow>
         fst (flush_queue True TmpWritten Renamed snap (flush_all calls st)) = Flushed
         \<and> fl_disk (snd (flush_queue True TmpWritten Renamed snap (flush_all calls st)))
             = Some (qs_epoch snap, qs_wire snap))"
  using flush_all_mono [OF assms] by (auto simp: flush_queue_eq flush_rename_def)

definition snap_n :: "u64 \<Rightarrow> string \<Rightarrow> queue_snapshot" where
  "snap_n n h = \<lparr>qs_wire = \<lparr>qw_queues = [(h, [])], qw_consecutive_failures = []\<rparr>, qs_epoch = n\<rparr>"

definition empty_disk :: flush_state where
  "empty_disk = \<lparr>fl_tracker = 0, fl_disk = None, fl_tmp = []\<rparr>"

theorem sequential_flushes_never_roll_back_witness:
  "disk_epoch empty_disk \<le> disk_epoch (flush_all [(True, TmpWritten, Renamed, snap_n 2 ''b''),
     (True, TmpWritten, Renamed, snap_n 1 ''a'')] empty_disk)"
  using sequential_flushes_never_roll_back [of empty_disk] by (simp add: disk_epoch_def empty_disk_def)

text \<open>
  A failed rename cannot be retried. The claim is not given back, so after a flush that
  reports a rename failure, flushing the same snapshot again reports success (as a stale one)
  without writing, and \<open>queue.json\<close> still has the old contents.
\<close>
theorem failed_rename_is_lost:
  assumes "fl_tracker st < qs_epoch snap"
  shows "let (res1, st1) = flush_queue True TmpWritten RenameFailed snap st;
             (res2, st2) = flush_queue True TmpWritten Renamed snap st1
         in \<not> flush_ok res1 \<and> flush_ok res2 \<and> fl_disk st2 = fl_disk st"
  using assms by (simp add: flush_queue_eq flush_rename_def flush_ok_def)

theorem failed_rename_is_lost_witness:
  "let (res1, st1) = flush_queue True TmpWritten RenameFailed (snap_n 1 ''a'') empty_disk;
       (res2, st2) = flush_queue True TmpWritten Renamed (snap_n 1 ''a'') st1
   in \<not> flush_ok res1 \<and> flush_ok res2 \<and> fl_disk st2 = fl_disk empty_disk"
  by (rule failed_rename_is_lost) (simp add: empty_disk_def snap_n_def)

section \<open>Concurrent flushes\<close>

text \<open>
  Each flush is a thread that performs three atomic actions; the scheduler picks a thread, and
  the environment picks its I/O outcomes.
\<close>

datatype flush_pc = ToBegin | ToClaim | ToRename | Returned flush_result

record flush_sys =
  sy_state :: flush_state
  sy_threads :: "(queue_snapshot \<times> flush_pc) list"

fun thread_step ::
  "bool \<Rightarrow> tmp_io \<Rightarrow> rename_io \<Rightarrow> queue_snapshot \<times> flush_pc \<Rightarrow> flush_state \<Rightarrow> flush_pc \<times> flush_state" where
  "thread_step s tio rio (snap, ToBegin) st =
     (case flush_begin s tio snap st of (Some res, st1) \<Rightarrow> (Returned res, st1) | (None, st1) \<Rightarrow> (ToClaim, st1))"
| "thread_step s tio rio (snap, ToClaim) st =
     (case flush_claim snap st of (Some res, st1) \<Rightarrow> (Returned res, st1) | (None, st1) \<Rightarrow> (ToRename, st1))"
| "thread_step s tio rio (snap, ToRename) st =
     (case flush_rename rio snap st of (res, st1) \<Rightarrow> (Returned res, st1))"
| "thread_step s tio rio (snap, Returned res) st = (Returned res, st)"

definition sys_step :: "nat \<times> bool \<times> tmp_io \<times> rename_io \<Rightarrow> flush_sys \<Rightarrow> flush_sys" where
  "sys_step = (\<lambda>(i, s, tio, rio) sy.
     if i < length (sy_threads sy) then
       let (pc, st) = thread_step s tio rio (sy_threads sy ! i) (sy_state sy)
       in \<lparr>sy_state = st, sy_threads = (sy_threads sy)[i := (fst (sy_threads sy ! i), pc)]\<rparr>
     else sy)"

inductive reaches :: "flush_sys \<Rightarrow> flush_sys \<Rightarrow> bool" where
  reaches_refl: "reaches sy sy"
| reaches_step: "reaches sy sy' \<Longrightarrow> reaches sy (sys_step choice sy')"

text \<open>One thread running alone is the sequential call.\<close>

lemma thread_alone:
  "let (pc1, st1) = thread_step s tio rio (snap, ToBegin) st;
       (pc2, st2) = thread_step s tio rio (snap, pc1) st1;
       (pc3, st3) = thread_step s tio rio (snap, pc2) st2
   in (pc3, st3) = (Returned (fst (flush_queue s tio rio snap st)), snd (flush_queue s tio rio snap st))"
proof -
  obtain res1 st1 where b: "flush_begin s tio snap st = (res1, st1)" by (cases "flush_begin s tio snap st")
  show ?thesis
  proof (cases res1)
    case (Some r)
    with b show ?thesis by (simp add: flush_queue_def)
  next
    case None
    obtain res2 st2 where c: "flush_claim snap st1 = (res2, st2)" by (cases "flush_claim snap st1")
    obtain res3 st3 where d: "flush_rename rio snap st2 = (res3, st3)" by (cases "flush_rename rio snap st2")
    from b None c d show ?thesis by (cases res2) (simp_all add: flush_queue_def)
  qed
qed

definition start_sys :: "queue_snapshot list \<Rightarrow> flush_state \<Rightarrow> flush_sys" where
  "start_sys snaps st = \<lparr>sy_state = st, sy_threads = map (\<lambda>s. (s, ToBegin)) snaps\<rparr>"

text \<open>What holds in every interleaving.\<close>

definition claimed :: "flush_pc \<Rightarrow> bool" where
  "claimed pc \<longleftrightarrow> pc = ToRename \<or> pc = Returned Flushed \<or> pc = Returned StaleFlush"

definition sys_inv :: "flush_state \<Rightarrow> queue_snapshot list \<Rightarrow> flush_sys \<Rightarrow> bool" where
  "sys_inv st0 snaps sy \<longleftrightarrow>
    map fst (sy_threads sy) = snaps
    \<and> fl_tracker st0 \<le> fl_tracker (sy_state sy)
    \<and> disk_epoch (sy_state sy) \<le> fl_tracker (sy_state sy)
    \<and> (fl_disk (sy_state sy) = fl_disk st0
       \<or> (\<exists>s \<in> set snaps. fl_disk (sy_state sy) = Some (qs_epoch s, qs_wire s)))
    \<and> (\<forall>t \<in> set (sy_threads sy). claimed (snd t) \<longrightarrow> qs_epoch (fst t) \<le> fl_tracker (sy_state sy))"

lemma sys_invD:
  assumes "sys_inv st0 snaps sy"
  shows "map fst (sy_threads sy) = snaps" and "fl_tracker st0 \<le> fl_tracker (sy_state sy)"
    and "disk_epoch (sy_state sy) \<le> fl_tracker (sy_state sy)"
    and "fl_disk (sy_state sy) = fl_disk st0
       \<or> (\<exists>s \<in> set snaps. fl_disk (sy_state sy) = Some (qs_epoch s, qs_wire s))"
    and "t \<in> set (sy_threads sy) \<Longrightarrow> claimed (snd t) \<Longrightarrow> qs_epoch (fst t) \<le> fl_tracker (sy_state sy)"
  using assms by (simp_all add: sys_inv_def)

lemma thread_step_inv:
  assumes "thread_step s tio rio (snap, pc) st = (pc', st')"
    and "disk_epoch st \<le> fl_tracker st" and "claimed pc \<Longrightarrow> qs_epoch snap \<le> fl_tracker st"
  shows "fl_tracker st \<le> fl_tracker st' \<and> disk_epoch st' \<le> fl_tracker st'
    \<and> (fl_disk st' = fl_disk st \<or> fl_disk st' = Some (qs_epoch snap, qs_wire snap))
    \<and> (claimed pc' \<longrightarrow> qs_epoch snap \<le> fl_tracker st')"
proof (cases pc)
  case ToBegin
  with assms show ?thesis
    by (auto simp: flush_begin_def disk_epoch_def claimed_def split: if_splits tmp_io.splits)
next
  case ToClaim
  with assms show ?thesis
    by (auto simp: flush_claim_def Let_def disk_epoch_def max_def claimed_def split: if_splits)
next
  case ToRename
  with assms show ?thesis
    by (auto simp: flush_rename_def disk_epoch_def claimed_def split: rename_io.splits)
next
  case (Returned res)
  with assms show ?thesis by auto
qed

lemma sys_step_inv:
  assumes inv: "sys_inv st0 snaps sy"
  shows "sys_inv st0 snaps (sys_step choice sy)"
proof -
  obtain i s tio rio where ch: "choice = (i, s, tio, rio)" by (cases choice)
  show ?thesis
  proof (cases "i < length (sy_threads sy)")
    case False
    with inv ch show ?thesis by (simp add: sys_step_def)
  next
    case True
    obtain snap pc where t: "sy_threads sy ! i = (snap, pc)" by (cases "sy_threads sy ! i")
    obtain pc' st' where step: "thread_step s tio rio (snap, pc) (sy_state sy) = (pc', st')"
      by (cases "thread_step s tio rio (snap, pc) (sy_state sy)")
    have sy': "sys_step choice sy = \<lparr>sy_state = st', sy_threads = (sy_threads sy)[i := (snap, pc')]\<rparr>"
      using True ch t step by (simp add: sys_step_def)
    have mem: "(snap, pc) \<in> set (sy_threads sy)" using True t by (metis nth_mem)
    note d = sys_invD [OF inv]
    have "fst (snap, pc) \<in> set (map fst (sy_threads sy))" unfolding set_map using mem by (rule imageI)
    then have sn: "snap \<in> set snaps" unfolding d(1) by simp
    have st: "fl_tracker (sy_state sy) \<le> fl_tracker st'" "disk_epoch st' \<le> fl_tracker st'"
      "fl_disk st' = fl_disk (sy_state sy) \<or> fl_disk st' = Some (qs_epoch snap, qs_wire snap)"
      "claimed pc' \<longrightarrow> qs_epoch snap \<le> fl_tracker st'"
      using thread_step_inv [OF step d(3)] d(5) [OF mem] by auto
    have "map fst ((sy_threads sy)[i := (snap, pc')]) = (map fst (sy_threads sy))[i := map fst (sy_threads sy) ! i]"
      using True t by (simp add: map_update)
    also have "\<dots> = snaps" unfolding list_update_id by (rule d(1))
    finally have names: "map fst ((sy_threads sy)[i := (snap, pc')]) = snaps" .
    have thr: "qs_epoch (fst x) \<le> fl_tracker st'"
      if "x \<in> set ((sy_threads sy)[i := (snap, pc')])" "claimed (snd x)" for x
    proof (cases "x = (snap, pc')")
      case True
      with st(4) that(2) show ?thesis by simp
    next
      case False
      with subsetD [OF set_update_subset_insert that(1)] have "x \<in> set (sy_threads sy)" by simp
      from order_trans [OF d(5) [OF this that(2)] st(1)] show ?thesis .
    qed
    have trk: "fl_tracker st0 \<le> fl_tracker st'" by (rule order_trans [OF d(2) st(1)])
    have dsk: "fl_disk st' = fl_disk st0 \<or> (\<exists>s \<in> set snaps. fl_disk st' = Some (qs_epoch s, qs_wire s))"
      using d(4) st(3) sn by metis
    show ?thesis unfolding sy' sys_inv_def
      using names trk st(2) dsk thr by simp
  qed
qed

lemma reaches_inv:
  "reaches sy0 sy \<Longrightarrow> sys_inv st0 snaps sy0 \<Longrightarrow> sys_inv st0 snaps sy"
  by (induction rule: reaches.induct) (simp_all add: sys_step_inv)

lemma start_inv: "disk_epoch st \<le> fl_tracker st \<Longrightarrow> sys_inv st snaps (start_sys snaps st)"
  by (auto simp: sys_inv_def start_sys_def comp_def claimed_def)


text \<open>Two flushes: the older one claims first, the newer one claims and renames, the older renames last.\<close>

definition bad_schedule :: "(nat \<times> bool \<times> tmp_io \<times> rename_io) list" where
  "bad_schedule = map (\<lambda>i. (i, True, TmpWritten, Renamed)) [0, 0, 1, 1, 1, 0]"

definition two_flushes :: flush_sys where
  "two_flushes = start_sys [snap_n 1 ''a'', snap_n 2 ''b''] empty_disk"

lemma fold_reaches: "reaches sy (fold sys_step cs sy)"
proof (induction cs rule: rev_induct)
  case Nil
  show ?case by (simp add: reaches_refl)
next
  case (snoc c cs)
  then show ?case by (simp add: reaches_step)
qed


text \<open>
  The guard against stale snapshots has a gap. The claim and the rename are two actions:
  when the older of two flushes is delayed between them, the newer one is renamed first and the
  older one over it. Both report success, and the disk ends with the older snapshot.
\<close>
theorem interleaved_flushes_roll_back:
  "reaches two_flushes (fold sys_step bad_schedule two_flushes)
   \<and> sy_threads (fold sys_step bad_schedule two_flushes)
       = [(snap_n 1 ''a'', Returned Flushed), (snap_n 2 ''b'', Returned Flushed)]
   \<and> fl_disk (sy_state (fold sys_step bad_schedule two_flushes))
       = Some (qs_epoch (snap_n 1 ''a''), qs_wire (snap_n 1 ''a''))"
proof -
  have "sy_threads (fold sys_step bad_schedule two_flushes)
       = [(snap_n 1 ''a'', Returned Flushed), (snap_n 2 ''b'', Returned Flushed)]
   \<and> fl_disk (sy_state (fold sys_step bad_schedule two_flushes))
       = Some (qs_epoch (snap_n 1 ''a''), qs_wire (snap_n 1 ''a''))"
    by code_simp
  with fold_reaches show ?thesis by blast
qed

end
