(* ===== verification/Executor.thy ===== *)
theory Executor
  imports Registry_Locks Registry_Queues
begin

text \<open>
  The executor (\<open>daemon/executor.rs\<close>): starting a fresh or a queued run in a tmux session,
  draining the queues after a run ends, and stopping a run. The registry is the model of the
  theory \<open>Registry\<close>; tmux, the disks, the network and the clock appear as the outcomes of the
  calls. Appending to event logs, writing \<open>session_owner.json\<close> and clearing stale signal files
  do not feed back into the daemon's state and are left out.
\<close>

section \<open>Outcomes\<close>

text \<open>
  What the outside world answers while one run is started, in the order it is asked: the
  pre-flight checks, the id and clock of the registration, the lock file and \<open>meta.json\<close>, the
  process cleanup, tmux (the pane's process id, then Claude's), the typed command and the last
  write of \<open>meta.json\<close>.
\<close>

record spawn_io =
  si_plan_exists :: bool
  si_repo_is_dir :: bool
  si_repo_disk :: io_result
  si_home_disk :: io_result
  si_online :: bool
  si_run_id :: string
  si_now :: utc
  si_lock :: lock_io
  si_meta :: io_result
  si_cleanup :: io_result
  si_spawn :: "string + nat"
  si_spawned_at :: utc
  si_real_pid :: "nat option"
  si_send :: io_result
  si_kill :: io_result
  si_ended_at :: utc
  si_flush :: io_result

text \<open>The daemon's world: the registry, and the tmux sessions that are alive.\<close>

record world =
  w_registry :: registry
  w_sessions :: "string list"

definition tmux_name :: "string \<Rightarrow> string" where
  "tmux_name run_id = ''gw-'' @ run_id"

definition kill_session :: "io_result \<Rightarrow> string \<Rightarrow> string list \<Rightarrow> string list" where
  "kill_session io s ss = (case io of None \<Rightarrow> removeAll s ss | Some _ \<Rightarrow> ss)"

fun debug_status :: "RunStatus \<Rightarrow> string" where
  "debug_status Queued = ''Queued''"
| "debug_status Running = ''Running''"
| "debug_status Succeeded = ''Succeeded''"
| "debug_status Failed = ''Failed''"
| "debug_status Stopped = ''Stopped''"

definition right_arrow :: string where
  "right_arrow = [CHR 0xE2, CHR 0x86, CHR 0x92]"

fun show_update_error :: "update_status_error \<Rightarrow> string" where
  "show_update_error (NotFound i) = ''run not found: '' @ i"
| "show_update_error (InvalidTransition s t) =
     ''invalid transition: '' @ debug_status s @ '' '' @ right_arrow @ '' '' @ debug_status t"
| "show_update_error (Io e) = e"

fun show_promote_error :: "promote_error \<Rightarrow> string" where
  "show_promote_error (PromoteNotFound i) = ''run not found: '' @ i"
| "show_promote_error (NotQueued i s) =
     ''run '' @ i @ '' is not queued (status: '' @ debug_status s @ '')''"
| "show_promote_error (PromoteLock e) = e"
| "show_promote_error (PromoteWrite e) = e"

section \<open>Starting a run\<close>

text \<open>The outcome is \<open>None\<close> when every check passes. A dirty work tree only warns.\<close>

definition preflight_checks :: "spawn_io \<Rightarrow> path \<Rightarrow> path \<Rightarrow> io_result" where
  "preflight_checks io plan_path repo_dir =
    (if \<not> si_plan_exists io then
       Some (''Plan file not found: '' @ plan_path @ [CHR 0x0A] @ ''Provide a valid plan path.'')
     else if \<not> si_repo_is_dir io then
       Some (''Repository directory not found: '' @ repo_dir)
     else case si_repo_disk io of
       Some e \<Rightarrow> Some (''repo disk space check failed: '' @ e)
     | None \<Rightarrow>
         (case si_home_disk io of
            Some e \<Rightarrow> Some (''GW_HOME disk space check failed: '' @ e)
          | None \<Rightarrow> if \<not> si_online io then Some ''network unavailable'' else None))"

text \<open>Marking the run failed; a transition that is refused is only logged.\<close>

definition mark_failed :: "env \<Rightarrow> utc \<Rightarrow> string \<Rightarrow> string \<Rightarrow> registry \<Rightarrow> registry" where
  "mark_failed E now run_id reason r =
    (case stage_status_locked E now run_id Failed None (Some reason) r of
       Inl _ \<Rightarrow> r
     | Inr (_, r1) \<Rightarrow> r1)"

text \<open>
  The process id of the pane and the recovery time, then, after the start-up wait, Claude's own
  process id when it can be resolved.
\<close>

definition note_process :: "spawn_io \<Rightarrow> string \<Rightarrow> nat \<Rightarrow> registry \<Rightarrow> registry" where
  "note_process io run_id pid r =
    (let r1 = touch_run run_id (Some pid) (Some (si_spawned_at io)) None r in
     case si_real_pid io of
       Some real_pid \<Rightarrow> touch_run run_id (Some real_pid) None None r1
     | None \<Rightarrow> r1)"

definition spawn_after_register ::
  "env \<Rightarrow> spawn_io \<Rightarrow> string \<Rightarrow> world \<Rightarrow> (string + string) \<times> world" where
  "spawn_after_register E io run_id w =
    (case si_cleanup io of
       Some e \<Rightarrow>
         (Inl e, w\<lparr>w_registry := mark_failed E (si_ended_at io) run_id (''pre_phase_cleanup failed: '' @ e) (w_registry w)\<rparr>)
     | None \<Rightarrow>
         let tmux_session = tmux_name run_id in
         (case si_spawn io of
            Inl e \<Rightarrow>
              (Inl e, w\<lparr>w_registry := mark_failed E (si_ended_at io) run_id (''tmux spawn failed: '' @ e) (w_registry w)\<rparr>)
          | Inr pid \<Rightarrow>
              let r2 = note_process io run_id pid (w_registry w);
                  alive = tmux_session # w_sessions w
              in (case si_send io of
                    Some e \<Rightarrow>
                      (Inl e, w\<lparr>w_sessions := kill_session (si_kill io) tmux_session alive,
                                w_registry := mark_failed E (si_ended_at io) run_id
                                  (''failed to send arc command: '' @ e) r2\<rparr>)
                  | None \<Rightarrow>
                      let r3 = touch_run run_id None None (Some tmux_session) r2 in
                      (case stage_status_locked E (si_ended_at io) run_id Running (Some ''starting'') None r3 of
                         Inl e \<Rightarrow> (Inl (show_update_error e), w\<lparr>w_sessions := alive, w_registry := r3\<rparr>)
                       | Inr (staged, r4) \<Rightarrow>
                           (case si_flush io of
                              Some e \<Rightarrow> (Inl e, w\<lparr>w_sessions := alive, w_registry := r4\<rparr>)
                            | None \<Rightarrow> (Inr run_id, w\<lparr>w_sessions := alive, w_registry := r4\<rparr>))))))"

definition spawn_run ::
  "env \<Rightarrow> spawn_io \<Rightarrow> path \<Rightarrow> path \<Rightarrow> string option \<Rightarrow> path option \<Rightarrow> world \<Rightarrow> (string + string) \<times> world" where
  "spawn_run E io plan_path repo_dir session_name config_dir w =
    (case preflight_checks io plan_path repo_dir of
       Some e \<Rightarrow> (Inl e, w)
     | None \<Rightarrow>
         (case register_run E (si_lock io) (si_meta io) (si_run_id io) (si_now io) plan_path repo_dir
                 session_name config_dir (w_registry w) of
            (Inl e, r1) \<Rightarrow> (Inl e, w\<lparr>w_registry := r1\<rparr>)
          | (Inr run_id, r1) \<Rightarrow> spawn_after_register E io run_id (w\<lparr>w_registry := r1\<rparr>)))"

definition spawn_queued_run ::
  "env \<Rightarrow> spawn_io \<Rightarrow> pending_run \<Rightarrow> world \<Rightarrow> (string + string) \<times> world" where
  "spawn_queued_run E io pending w =
    (case preflight_checks io (pr_plan_path pending) (pr_repo_dir pending) of
       Some e \<Rightarrow> (Inl e, w)
     | None \<Rightarrow>
         (case promote_queued E (si_lock io) (si_meta io) (si_now io) (pr_run_id pending) (w_registry w) of
            (Inl e, r1) \<Rightarrow> (Inl (show_promote_error e), w\<lparr>w_registry := r1\<rparr>)
          | (Inr _, r1) \<Rightarrow> spawn_after_register E io (pr_run_id pending) (w\<lparr>w_registry := r1\<rparr>)))"

section \<open>Draining\<close>

text \<open>
  The section of \<open>drain_if_available\<close> under the mutex, then the spawned task and the retry it may
  spawn in turn. Each is a function of the world it finds, so the code's interleavings with other
  tasks are those of a trace of these sections.
\<close>

definition drain_section :: "env \<Rightarrow> utc \<Rightarrow> path \<Rightarrow> bool \<Rightarrow> registry \<Rightarrow>
    (staged_status list \<times> pending_run option \<times> queue_snapshot) \<times> registry" where
  "drain_section E now repo_dir failed r =
    (let (staged_batch, r1) =
           (if failed then record_queue_failure_without_snapshot E now repo_dir r
            else ([], record_queue_success_without_snapshot E repo_dir r));
         (nxt, r2) =
           (case drain_next_without_snapshot E repo_dir r1 of
              Some (p, r2) \<Rightarrow> (Some p, r2)
            | None \<Rightarrow>
                (case drain_any_ready_without_snapshot r1 of
                   Some (p, r2) \<Rightarrow> (Some p, r2)
                 | None \<Rightarrow> (None, r1)));
         (snap, r3) = stage_queue_locked r2
     in ((staged_batch, nxt, snap), r3))"

text \<open>The error branch of the task: the run is marked failed, the next of its repository popped.\<close>

definition drain_failed_section :: "env \<Rightarrow> utc \<Rightarrow> pending_run \<Rightarrow> string \<Rightarrow> registry \<Rightarrow>
    (staged_status list \<times> pending_run option \<times> queue_snapshot) \<times> registry" where
  "drain_failed_section E now pending e r =
    (let r1 = mark_failed E now (pr_run_id pending) (''drain spawn failed: '' @ e) r;
         (staged_batch, r2) = record_queue_failure_without_snapshot E now (pr_repo_dir pending) r1;
         (nxt, r3) =
           (case drain_next_without_snapshot E (pr_repo_dir pending) r2 of
              Some (p, r3) \<Rightarrow> (Some p, r3)
            | None \<Rightarrow> (None, r2));
         (snap, r4) = stage_queue_locked r3
     in ((staged_batch, nxt, snap), r4))"

definition drain_task :: "env \<Rightarrow> spawn_io \<Rightarrow> spawn_io \<Rightarrow> pending_run \<Rightarrow> world \<Rightarrow> world" where
  "drain_task E io retry_io pending w =
    (case spawn_queued_run E io pending w of
       (Inr _, w1) \<Rightarrow> w1
     | (Inl e, w1) \<Rightarrow>
         (case drain_failed_section E (si_ended_at io) pending e (w_registry w1) of
            ((staged_batch, nxt, snap), r2) \<Rightarrow>
              let w2 = w1\<lparr>w_registry := r2\<rparr> in
              (case nxt of
                 None \<Rightarrow> w2
               | Some retry \<Rightarrow> snd (spawn_queued_run E retry_io retry w2))))"

definition drain_if_available ::
  "env \<Rightarrow> utc \<Rightarrow> spawn_io \<Rightarrow> spawn_io \<Rightarrow> path \<Rightarrow> bool \<Rightarrow> world \<Rightarrow> world" where
  "drain_if_available E now io retry_io repo_dir failed w =
    (case drain_section E now repo_dir failed (w_registry w) of
       ((staged_batch, nxt, snap), r1) \<Rightarrow>
         (case nxt of
            None \<Rightarrow> w\<lparr>w_registry := r1\<rparr>
          | Some pending \<Rightarrow> drain_task E io retry_io pending (w\<lparr>w_registry := r1\<rparr>)))"

section \<open>Stopping a run\<close>

text \<open>
  \<open>wait_for_session_exit\<close> polls: each observation is the elapsed time in milliseconds and whether
  the session is still there.
\<close>

definition GRACEFUL_STOP_TIMEOUT :: nat where "GRACEFUL_STOP_TIMEOUT = 15000"

fun wait_for_session_exit :: "nat \<Rightarrow> (nat \<times> bool) list \<Rightarrow> bool" where
  "wait_for_session_exit timeout [] = False"
| "wait_for_session_exit timeout ((elapsed, alive) # polls) =
    (if elapsed < timeout then (if \<not> alive then True else wait_for_session_exit timeout polls)
     else False)"

record stop_io =
  so_polls :: "(nat \<times> bool) list"
  so_still_alive :: bool
  so_kill :: io_result
  so_now :: utc
  so_flush :: io_result

definition find_active :: "string \<Rightarrow> registry \<Rightarrow> string + run_entry" where
  "find_active run_id r =
    (case hm_get (reg_runs r) run_id of
       None \<Rightarrow> Inl (''run not found: '' @ run_id)
     | Some e \<Rightarrow>
         if re_status e \<noteq> Running \<and> re_status e \<noteq> Queued then
           Inl (''run '' @ run_id @ '' is not active (status: '' @ debug_status (re_status e) @ '')'')
         else Inr e)"

text \<open>
  The sessions after the graceful wait and the forced kill. \<open>so_still_alive\<close> is the last
  \<open>has_session\<close>.
\<close>

definition stop_session :: "stop_io \<Rightarrow> string \<Rightarrow> string list \<Rightarrow> string list" where
  "stop_session io s ss =
    (if \<not> wait_for_session_exit GRACEFUL_STOP_TIMEOUT (so_polls io) \<and> so_still_alive io
     then kill_session (so_kill io) s ss
     else removeAll s ss)"

text \<open>The monitors are the runs with a monitor task; the one of this run is cancelled first.\<close>

definition stop_run ::
  "env \<Rightarrow> stop_io \<Rightarrow> spawn_io \<Rightarrow> spawn_io \<Rightarrow> string \<Rightarrow> string list \<times> world \<Rightarrow>
    (string + unit) \<times> string list \<times> world" where
  "stop_run E io drain_io retry_io run_id = (\<lambda>(monitors, w).
    (let monitors1 = removeAll run_id monitors in
     case find_active run_id (w_registry w) of
       Inl e \<Rightarrow> (Inl e, monitors1, w)
     | Inr entry \<Rightarrow>
         let (w1, reason) =
               (case re_tmux_session entry of
                  None \<Rightarrow> (w, ''stopped (no tmux session)'')
                | Some s \<Rightarrow> (w\<lparr>w_sessions := stop_session io s (w_sessions w)\<rparr>, ''stopped by user''))
         in (case update_status E (so_now io) (so_flush io) run_id Stopped None (Some reason) (w_registry w1) of
               (Inl e, r1) \<Rightarrow> (Inl (show_update_error e), monitors1, w1\<lparr>w_registry := r1\<rparr>)
             | (Inr _, r1) \<Rightarrow>
                 (Inr (), monitors1,
                  drain_if_available E (so_now io) drain_io retry_io (re_repo_dir entry) False
                    (w1\<lparr>w_registry := r1\<rparr>)))))"

section \<open>Every executor operation is a sequence of registry operations\<close>

definition evolves :: "env \<Rightarrow> registry \<Rightarrow> registry \<Rightarrow> bool" where
  "evolves E r r' \<longleftrightarrow> (\<exists>ops. reg_trace E r ops r' \<and> (\<forall>m i. RemoveRun m i \<notin> set ops))"

lemma reg_trace_append:
  "reg_trace E r ops r' \<Longrightarrow> reg_trace E r' ops' r'' \<Longrightarrow> reg_trace E r (ops @ ops') r''"
  by (induction rule: reg_trace.induct) (auto intro: reg_trace_Cons)

lemma evolves_refl [simp, intro]: "evolves E r r"
  unfolding evolves_def by (rule exI [of _ "[]"]) (simp add: reg_trace_simps)

lemma evolves_trans [trans]: "evolves E r r' \<Longrightarrow> evolves E r' r'' \<Longrightarrow> evolves E r r''"
  unfolding evolves_def by (fastforce intro: reg_trace_append)

lemma evolves_op:
  "op_fresh op r \<Longrightarrow> (\<And>m i. op \<noteq> RemoveRun m i) \<Longrightarrow> apply_op E op r = r' \<Longrightarrow> evolves E r r'"
  unfolding evolves_def
  by (rule exI [of _ "[op]"]) (auto simp: reg_trace_simps simp del: apply_op.simps op_fresh.simps)

lemma evolves_mark_failed [intro]: "evolves E r (mark_failed E now i reason r)"
  by (rule evolves_op [of "Stage now i Failed None (Some reason)"]) (simp_all add: mark_failed_def split: sum.split)

lemma evolves_touch [intro]: "evolves E r (touch_run i pid rec tmux r)"
  by (rule evolves_op [of "Touch i pid rec tmux"]) simp_all

lemma evolves_progress [intro]: "evolves E r (progress_run i phase b r)"
  by (rule evolves_op [of "Progress i phase b"]) simp_all

lemma evolves_stage: "stage_status_locked E now i s ph er r = Inr (st, r') \<Longrightarrow> evolves E r r'"
  by (rule evolves_op [of "Stage now i s ph er"]) simp_all

lemma evolves_promote: "promote_queued E l m now i r = (x, r') \<Longrightarrow> evolves E r r'"
  by (rule evolves_op [of "Promote l m now i"]) simp_all

lemma evolves_register:
  "register_run E l m i now pl d sn cd r = (x, r') \<Longrightarrow> hm_get (reg_runs r) i = None \<Longrightarrow> evolves E r r'"
  by (rule evolves_op [of "Register l m i now pl d sn cd None"]) (simp_all add: register_run_def)

lemma evolves_failure: "record_queue_failure_without_snapshot E now d r = (b, r') \<Longrightarrow> evolves E r r'"
  by (rule evolves_op [of "RecordFailure now d"]) simp_all

lemma evolves_success: "evolves E r (record_queue_success_without_snapshot E d r)"
  by (rule evolves_op [of "RecordSuccess d"]) simp_all

lemma evolves_next: "drain_next_without_snapshot E d r = Some (p, r') \<Longrightarrow> evolves E r r'"
  by (rule evolves_op [of "DrainNext d"]) simp_all

lemma evolves_any: "drain_any_ready_without_snapshot r = Some (p, r') \<Longrightarrow> evolves E r r'"
  by (rule evolves_op [of DrainAny]) simp_all

lemma evolves_snapshot: "stage_queue_locked r = (snap, r') \<Longrightarrow> evolves E r r'"
  by (rule evolves_op [of Snapshot]) simp_all

lemma evolves_update: "update_status E now m i s ph er r = (x, r') \<Longrightarrow> evolves E r r'"
  by (auto simp: update_status_def split: sum.splits option.splits dest: evolves_stage)

lemma evolves_note [intro]: "evolves E r (note_process io i pid r)"
  by (auto simp: note_process_def Let_def split: option.split intro: evolves_trans)

lemma spawn_after_register_evolves:
  "evolves E (w_registry w) (w_registry (snd (spawn_after_register E io i w)))"
proof -
  let ?r3 = "\<lambda>pid. touch_run i None None (Some (tmux_name i)) (note_process io i pid (w_registry w))"
  have r3: "evolves E (w_registry w) (?r3 pid)" for pid
    by (rule evolves_trans [OF evolves_note evolves_touch])
  have r4: "evolves E (w_registry w) r4"
    if "stage_status_locked E t i Running ph er (?r3 pid) = Inr (st, r4)" for t ph er st r4 pid
    by (rule evolves_trans [OF r3 evolves_stage [OF that]])
  show ?thesis
    by (auto simp: spawn_after_register_def Let_def r3 dest: r4
        intro: evolves_trans [OF evolves_note evolves_mark_failed] split: option.split sum.split)
qed

lemma spawn_queued_run_evolves:
  "evolves E (w_registry w) (w_registry (snd (spawn_queued_run E io p w)))"
proof (cases "preflight_checks io (pr_plan_path p) (pr_repo_dir p)")
  case None
  obtain x r1 where pq: "promote_queued E (si_lock io) (si_meta io) (si_now io) (pr_run_id p) (w_registry w) = (x, r1)"
    by (cases "promote_queued E (si_lock io) (si_meta io) (si_now io) (pr_run_id p) (w_registry w)")
  from evolves_promote [OF pq] spawn_after_register_evolves [of E "w\<lparr>w_registry := r1\<rparr>" io "pr_run_id p"]
  show ?thesis using None pq
    by (auto simp: spawn_queued_run_def split: sum.split intro: evolves_trans)
qed (simp add: spawn_queued_run_def)

lemma spawn_run_evolves:
  assumes "hm_get (reg_runs (w_registry w)) (si_run_id io) = None"
  shows "evolves E (w_registry w) (w_registry (snd (spawn_run E io pl d sn cd w)))"
proof (cases "preflight_checks io pl d")
  case None
  obtain x r1 where rg: "register_run E (si_lock io) (si_meta io) (si_run_id io) (si_now io) pl d sn cd (w_registry w) = (x, r1)"
    by (cases "register_run E (si_lock io) (si_meta io) (si_run_id io) (si_now io) pl d sn cd (w_registry w)")
  from evolves_register [OF rg assms] spawn_after_register_evolves [of E "w\<lparr>w_registry := r1\<rparr>" io]
  show ?thesis using None rg
    by (auto simp: spawn_run_def split: sum.split intro: evolves_trans)
qed (simp add: spawn_run_def)

lemma drain_section_evolves: "evolves E r (snd (drain_section E now d failed r))"
proof -
  obtain b r1 where r1: "(if failed then record_queue_failure_without_snapshot E now d r
      else ([], record_queue_success_without_snapshot E d r)) = (b, r1)"
    by (cases "if failed then record_queue_failure_without_snapshot E now d r
      else ([], record_queue_success_without_snapshot E d r)")
  then have "evolves E r r1"
    by (auto split: if_splits dest: evolves_failure simp: evolves_success)
  moreover obtain nxt r2 where r2: "(case drain_next_without_snapshot E d r1 of
              Some (p, r2) \<Rightarrow> (Some p, r2)
            | None \<Rightarrow>
                (case drain_any_ready_without_snapshot r1 of
                   Some (p, r2) \<Rightarrow> (Some p, r2)
                 | None \<Rightarrow> (None, r1))) = (nxt, r2)"
    by fastforce
  moreover from r2 have "evolves E r1 r2"
    by (auto split: option.splits dest: evolves_next evolves_any)
  moreover have "evolves E r2 (snd (stage_queue_locked r2))"
    by (cases "stage_queue_locked r2") (simp add: evolves_snapshot)
  ultimately show ?thesis
    using r1 r2 by (simp add: drain_section_def case_prod_beta) (meson evolves_trans)
qed

lemma drain_failed_section_evolves: "evolves E r (snd (drain_failed_section E now p e r))"
proof -
  let ?r1 = "mark_failed E now (pr_run_id p) (''drain spawn failed: '' @ e) r"
  obtain b r2 where r2: "record_queue_failure_without_snapshot E now (pr_repo_dir p) ?r1 = (b, r2)"
    by (cases "record_queue_failure_without_snapshot E now (pr_repo_dir p) ?r1")
  obtain nxt r3 where r3: "(case drain_next_without_snapshot E (pr_repo_dir p) r2 of
      Some (q, r3) \<Rightarrow> (Some q, r3) | None \<Rightarrow> (None, r2)) = (nxt, r3)"
    by fastforce
  have "evolves E r r2" by (rule evolves_trans [OF evolves_mark_failed evolves_failure [OF r2]])
  also have "evolves E r2 r3" using r3 by (auto split: option.splits dest: evolves_next)
  also have "evolves E r3 (snd (stage_queue_locked r3))"
    by (cases "stage_queue_locked r3") (simp add: evolves_snapshot)
  finally have "evolves E r (snd (stage_queue_locked r3))" .
  moreover have "snd (drain_failed_section E now p e r) = snd (stage_queue_locked r3)"
    unfolding drain_failed_section_def Let_def r2 prod.case r3 by (simp split: prod.split)
  ultimately show ?thesis by simp
qed

lemma drain_task_evolves: "evolves E (w_registry w) (w_registry (drain_task E io io' p w))"
proof -
  obtain x w1 where sp: "spawn_queued_run E io p w = (x, w1)" by (cases "spawn_queued_run E io p w")
  have w1: "evolves E (w_registry w) (w_registry w1)" using spawn_queued_run_evolves [of E w io p] sp by simp
  show ?thesis
  proof (cases x)
    case (Inr i)
    with w1 sp show ?thesis by (simp add: drain_task_def)
  next
    case (Inl e)
    obtain b nxt snap r2 where ds: "drain_failed_section E (si_ended_at io) p e (w_registry w1) = ((b, nxt, snap), r2)"
      by (metis prod.exhaust)
    have "evolves E (w_registry w1) r2"
      using drain_failed_section_evolves [of E "w_registry w1" "si_ended_at io" p e] ds by simp
    with w1 have "evolves E (w_registry w) r2" by (rule evolves_trans)
    with Inl sp ds show ?thesis
      using spawn_queued_run_evolves [of E "w1\<lparr>w_registry := r2\<rparr>" io']
      by (auto simp: drain_task_def Let_def split: option.split intro: evolves_trans)
  qed
qed

lemma drain_evolves: "evolves E (w_registry w) (w_registry (drain_if_available E now io io' d failed w))"
proof -
  obtain b nxt snap r1 where ds: "drain_section E now d failed (w_registry w) = ((b, nxt, snap), r1)"
    by (metis prod.exhaust)
  have "evolves E (w_registry w) r1" using drain_section_evolves [of E "w_registry w" now d failed] ds by simp
  with ds show ?thesis
    using drain_task_evolves [of E "w\<lparr>w_registry := r1\<rparr>" io io']
    by (auto simp: drain_if_available_def split: option.split intro: evolves_trans)
qed

lemma stop_run_evolves:
  "evolves E (w_registry w) (w_registry (snd (snd (stop_run E io dio rio i (ms, w)))))"
proof (cases "find_active i (w_registry w)")
  case (Inl e)
  then show ?thesis by (simp add: stop_run_def Let_def)
next
  case (Inr entry)
  obtain w1 reason where w1: "(case re_tmux_session entry of
                  None \<Rightarrow> (w, ''stopped (no tmux session)'')
                | Some s \<Rightarrow> (w\<lparr>w_sessions := stop_session io s (w_sessions w)\<rparr>, ''stopped by user'')) = (w1, reason)"
    by fastforce
  then have same: "w_registry w1 = w_registry w" by (auto split: option.splits)
  obtain x r1 where up: "update_status E (so_now io) (so_flush io) i Stopped None (Some reason) (w_registry w1) = (x, r1)"
    by fastforce
  from evolves_update [OF up] same have r1: "evolves E (w_registry w) r1" by simp
  with drain_evolves [of E "w1\<lparr>w_registry := r1\<rparr>"] Inr w1 up show ?thesis
    by (auto simp: stop_run_def Let_def split: sum.split intro: evolves_trans)
qed

text \<open>
  The executor goes through the registry. Starting a fresh run, starting a queued one, draining
  and stopping change the registry only by sequences of the registry's operations, whatever the
  outside world answers, so everything proved of all traces (the state invariant, the direction of
  statuses, the order of the queues) holds across the executor too.
\<close>
theorem executor_refines_registry:
  "(hm_get (reg_runs (w_registry w)) (si_run_id io) = None \<longrightarrow>
      evolves E (w_registry w) (w_registry (snd (spawn_run E io plan d sess cfg w))))
   \<and> evolves E (w_registry w) (w_registry (snd (spawn_queued_run E io p w)))
   \<and> evolves E (w_registry w) (w_registry (drain_if_available E now io io' d failed w))
   \<and> evolves E (w_registry w) (w_registry (snd (snd (stop_run E so io io' i (ms, w)))))"
  by (intro conjI impI spawn_run_evolves spawn_queued_run_evolves drain_evolves stop_run_evolves)

section \<open>What a start comes to\<close>

text \<open>The run is up: running in its own live session, its repository and plan unchanged.\<close>

definition started :: "string \<Rightarrow> run_entry \<Rightarrow> world \<Rightarrow> bool" where
  "started i e w \<longleftrightarrow>
    (\<exists>e'. hm_get (reg_runs (w_registry w)) i = Some e' \<and> re_status e' = Running
      \<and> re_tmux_session e' = Some (tmux_name i) \<and> re_repo_dir e' = re_repo_dir e
      \<and> re_plan_path e' = re_plan_path e)
    \<and> tmux_name i \<in> set (w_sessions w)"

text \<open>The start was undone: the run is failed with a message, and its repository's lock given up.\<close>

definition undone :: "env \<Rightarrow> string \<Rightarrow> run_entry \<Rightarrow> world \<Rightarrow> world \<Rightarrow> bool" where
  "undone E i e w w' \<longleftrightarrow>
    (\<exists>e' m. hm_get (reg_runs (w_registry w')) i = Some e' \<and> re_status e' = Failed
      \<and> re_error_message e' = Some m)
    \<and> hm_get (reg_repo_locks (w_registry w'))
        = (hm_get (reg_repo_locks (w_registry w)))(repo_hash E (re_repo_dir e) := None)"

definition others_kept :: "string \<Rightarrow> registry \<Rightarrow> registry \<Rightarrow> bool" where
  "others_kept i r r' \<longleftrightarrow> (\<forall>j. j \<noteq> i \<longrightarrow> hm_get (reg_runs r') j = hm_get (reg_runs r) j)"

lemma touch_run_Some:
  "hm_get (reg_runs r) i = Some e \<Longrightarrow>
    touch_run i pid rec tmux r = r\<lparr>reg_runs := hm_insert i (touch_entry pid rec tmux e) (reg_runs r)\<rparr>"
  by (simp add: touch_run_def)

lemma touch_entry_sel [simp]:
  "re_status (touch_entry pid rec tmux e) = re_status e"
  "re_repo_dir (touch_entry pid rec tmux e) = re_repo_dir e"
  "re_plan_path (touch_entry pid rec tmux e) = re_plan_path e"
  "re_restartable (touch_entry pid rec tmux e) = re_restartable e"
  "re_tmux_session (touch_entry pid rec (Some s) e) = Some s"
  by (simp_all add: touch_entry_def)

lemma note_process_effect:
  assumes "hm_get (reg_runs r) i = Some e"
  obtains e1 where "hm_get (reg_runs (note_process io i pid r)) i = Some e1" "re_status e1 = re_status e"
    "re_repo_dir e1 = re_repo_dir e" "re_plan_path e1 = re_plan_path e"
    "re_restartable e1 = re_restartable e"
    "others_kept i r (note_process io i pid r)"
    "reg_repo_locks (note_process io i pid r) = reg_repo_locks r"
  using assms
  by (cases "si_real_pid io") (auto simp: note_process_def Let_def touch_run_Some others_kept_def)

lemma mark_failed_effect:
  assumes "hm_get (reg_runs r) i = Some e" and "re_status e = Queued \<or> re_status e = Running"
  shows "\<exists>e' m. hm_get (reg_runs (mark_failed E now i reason r)) i = Some e' \<and> re_status e' = Failed
      \<and> re_error_message e' = Some m"
    and "hm_get (reg_repo_locks (mark_failed E now i reason r))
      = (hm_get (reg_repo_locks r))(repo_hash E (re_repo_dir e) := None)"
    and "others_kept i r (mark_failed E now i reason r)"
proof -
  have "re_status e \<le> Failed" using assms(2) by (auto simp: less_eq_RunStatus_def)
  with assms(1) have eq: "mark_failed E now i reason r =
      r\<lparr>reg_runs := hm_insert i (staged_entry now Failed None (Some reason) e) (reg_runs r),
        reg_repo_locks := hm_remove (repo_hash E (re_repo_dir e)) (reg_repo_locks r)\<rparr>"
    by (simp add: mark_failed_def stage_status_cases)
  show "\<exists>e' m. hm_get (reg_runs (mark_failed E now i reason r)) i = Some e' \<and> re_status e' = Failed
      \<and> re_error_message e' = Some m"
    by (simp add: eq) (simp add: staged_entry_def)
  show "hm_get (reg_repo_locks (mark_failed E now i reason r))
      = (hm_get (reg_repo_locks r))(repo_hash E (re_repo_dir e) := None)"
    by (auto simp: eq)
  show "others_kept i r (mark_failed E now i reason r)"
    by (simp add: eq others_kept_def)
qed

lemma others_kept_trans [trans]: "others_kept i r r' \<Longrightarrow> others_kept i r' r'' \<Longrightarrow> others_kept i r r''"
  by (simp add: others_kept_def)

lemma spawn_after_register_outcomes:
  assumes e: "hm_get (reg_runs (w_registry w)) i = Some e" and q: "re_status e = Queued"
  shows "others_kept i (w_registry w) (w_registry (snd (spawn_after_register E io i w))) \<and>
    (case spawn_after_register E io i w of
       (Inr j, w') \<Rightarrow> j = i \<and> started i e w' \<and> reg_repo_locks (w_registry w') = reg_repo_locks (w_registry w)
     | (Inl m, w') \<Rightarrow>
         (undone E i e w w' \<and> (w_sessions w' = w_sessions w \<or> si_send io = Some m
            \<and> w_sessions w' = kill_session (si_kill io) (tmux_name i) (tmux_name i # w_sessions w)))
         \<or> (si_flush io = Some m \<and> started i e w'
            \<and> reg_repo_locks (w_registry w') = reg_repo_locks (w_registry w)))"
proof (cases "si_cleanup io")
  case (Some c)
  with mark_failed_effect [OF e] q show ?thesis
    by (simp add: spawn_after_register_def undone_def)
next
  case None
  note cleaned = this
  show ?thesis
  proof (cases "si_spawn io")
    case (Inl m)
    with cleaned mark_failed_effect [OF e] q show ?thesis
      by (simp add: spawn_after_register_def undone_def)
  next
    case (Inr pid)
    let ?r2 = "note_process io i pid (w_registry w)"
    obtain e1 where e1: "hm_get (reg_runs ?r2) i = Some e1" "re_status e1 = re_status e"
      "re_repo_dir e1 = re_repo_dir e" "re_plan_path e1 = re_plan_path e"
      and kept: "others_kept i (w_registry w) ?r2" and locks: "reg_repo_locks ?r2 = reg_repo_locks (w_registry w)"
      using note_process_effect [OF e] by metis
    show ?thesis
    proof (cases "si_send io")
      case (Some m)
      with cleaned Inr mark_failed_effect [OF e1(1)] e1 q locks show ?thesis
        by (auto simp: spawn_after_register_def undone_def Let_def intro: others_kept_trans [OF kept])
    next
      case None
      let ?e2 = "touch_entry None None (Some (tmux_name i)) e1"
      have "re_status ?e2 \<le> Running" using e1(2) q by (simp add: less_eq_RunStatus_def)
      with e1(1) have st: "stage_status_locked E (si_ended_at io) i Running (Some ''starting'') None
          (touch_run i None None (Some (tmux_name i)) ?r2) =
          Inr (\<lparr>ss_entry = staged_entry (si_ended_at io) Running (Some ''starting'') None ?e2,
                ss_epoch = re_write_epoch ?e2 + 1\<rparr>,
            ?r2\<lparr>reg_runs := hm_insert i (staged_entry (si_ended_at io) Running (Some ''starting'') None ?e2)
              (hm_insert i ?e2 (reg_runs ?r2))\<rparr>)"
        by (simp add: stage_status_cases touch_run_Some)
      have tmux: "re_tmux_session (staged_entry t s ph er x) = re_tmux_session x" for t s ph er x
        by (simp add: staged_entry_def)
      from cleaned Inr None e1 kept locks show ?thesis
        by (cases "si_flush io")
          (simp_all add: spawn_after_register_def Let_def st started_def tmux others_kept_def)
    qed
  qed
qed


text \<open>Two runs of one repository wait; the outside world answers as the examples need it.\<close>

definition all_well :: spawn_io where
  "all_well = \<lparr>si_plan_exists = True, si_repo_is_dir = True, si_repo_disk = io_ok, si_home_disk = io_ok,
     si_online = True, si_run_id = ''c'', si_now = 1, si_lock = LockTaken, si_meta = io_ok,
     si_cleanup = io_ok, si_spawn = Inr 100, si_spawned_at = 2, si_real_pid = Some 101, si_send = io_ok,
     si_kill = io_ok, si_ended_at = 3, si_flush = io_ok\<rparr>"

definition two_waiting :: registry where
  "two_waiting = run_ops plain_env
     [Enqueue (pend ''a'' ''/r/a.md'' ''/r''), Enqueue (pend ''b'' ''/r/b.md'' ''/r'')] registry_new"


section \<open>Where draining goes wrong\<close>

text \<open>
  A retry that fails before its promotion leaves a ghost. Two runs wait and the network is
  down when the first is drained: it is marked failed, the second is popped and its retry fails too,
  after which it is in no queue but still \<open>Queued\<close>, and nothing will ever start or finish it.
\<close>
theorem failed_retry_leaves_a_ghost:
  "let offline = all_well\<lparr>si_online := False\<rparr>;
       w = drain_if_available plain_env 1 offline offline ''/r'' False
             \<lparr>w_registry = two_waiting, w_sessions = []\<rparr>
   in run_view (w_registry w) ''a'' = Some (Failed, ''/r'')
      \<and> run_view (w_registry w) ''b'' = Some (Queued, ''/r'')
      \<and> \<not> is_in_pending_queue (w_registry w) ''b''"
  by code_simp

text \<open>
  A start whose last write fails orphans its session. The drained run is up when \<open>meta.json\<close>
  cannot be written; the drain task takes the error for a failed start, marks the run failed and
  gives up the repository's lock, while the session is alive.
\<close>
theorem failed_write_orphans_a_session:
  "let bad_disk = all_well\<lparr>si_flush := Some ''disk full''\<rparr>;
       w = drain_if_available plain_env 1 bad_disk (all_well\<lparr>si_online := False\<rparr>) ''/r'' False
             \<lparr>w_registry = two_waiting, w_sessions = []\<rparr>
   in run_view (w_registry w) ''a'' = Some (Failed, ''/r'')
      \<and> \<not> has_repo_lock plain_env (w_registry w) ''/r'' \<and> w_sessions w = [''gw-a'']"
  by code_simp

theorem executor_refines_registry_witness:
  "evolves plain_env two_waiting (w_registry (snd (spawn_run plain_env all_well ''/s/c.md'' ''/s'' None None
     \<lparr>w_registry = two_waiting, w_sessions = []\<rparr>)))"
proof -
  have "hm_get (reg_runs (w_registry \<lparr>w_registry = two_waiting, w_sessions = []\<rparr>)) (si_run_id all_well) = None"
    by code_simp
  with executor_refines_registry [where w = "\<lparr>w_registry = two_waiting, w_sessions = []\<rparr>" and io = all_well
      and E = plain_env and plan = "''/s/c.md''" and d = "''/s''" and sess = None and cfg = None]
  show ?thesis by simp
qed

end
