(* ===== verification/Schedule.thy ===== *)
theory Schedule
  imports Daemon_Types
begin

text \<open>
  Scheduled plans (\<open>daemon/schedule.rs\<close>): the schedule registry and its operations, the firing
  loop, and the parsing of durations and cron expressions. The \<open>cron\<close> package and chrono's date
  arithmetic are parameters; writing the registry file is an outcome.
\<close>

section \<open>Data\<close>

datatype ScheduleKind = Cron string | OneShot utc | Delayed u64

datatype ScheduleStatus = Active | Paused | Completed | FailedSchedule | Rejected

record schedule_entry =
  se_id :: string
  se_plan_path :: path
  se_repo_dir :: path
  se_config_dir :: "path option"
  se_verbose :: nat
  se_kind :: ScheduleKind
  se_status :: ScheduleStatus
  se_created_at :: utc
  se_last_fired :: "utc option"
  se_next_fire :: "utc option"
  se_fire_count :: nat
  se_label :: "string option"
  se_last_error :: "string option"

type_synonym schedules = "(string, schedule_entry) hash_map"

text \<open>
  \<open>cron expression after\<close> is \<open>Schedule::from_str\<close> followed by \<open>after(..).next()\<close>.
\<close>

type_synonym cron = "string \<Rightarrow> utc \<Rightarrow> utc option"

fun compute_next_fire :: "cron \<Rightarrow> ScheduleKind \<Rightarrow> utc \<Rightarrow> utc option" where
  "compute_next_fire cron (Cron expression) after = cron expression after"
| "compute_next_fire cron (OneShot at) after = (if at > after then Some at else None)"
| "compute_next_fire cron (Delayed _) after = None"

section \<open>Operations\<close>

text \<open>The mutation stays in memory when the file cannot be written; the error is returned.\<close>

definition saved :: "io_result \<Rightarrow> 'a \<Rightarrow> schedules \<Rightarrow> (string + 'a) \<times> schedules" where
  "saved save x s = ((case save of None \<Rightarrow> Inr x | Some e \<Rightarrow> Inl e), s)"

definition not_found :: "string \<Rightarrow> string" where
  "not_found i = ''schedule '' @ [CHR 0x27] @ i @ [CHR 0x27] @ '' not found''"

definition add_schedule :: "io_result \<Rightarrow> schedule_entry \<Rightarrow> schedules \<Rightarrow> (string + string) \<times> schedules" where
  "add_schedule save entry s = saved save (se_id entry) (hm_insert (se_id entry) entry s)"

definition remove_schedule :: "io_result \<Rightarrow> string \<Rightarrow> schedules \<Rightarrow> (string + unit) \<times> schedules" where
  "remove_schedule save i s =
    (case hm_get s i of
       None \<Rightarrow> (Inl (not_found i), s)
     | Some _ \<Rightarrow> saved save () (hm_remove i s))"

definition pause_schedule :: "io_result \<Rightarrow> string \<Rightarrow> schedules \<Rightarrow> (string + unit) \<times> schedules" where
  "pause_schedule save i s =
    (case hm_get s i of
       None \<Rightarrow> (Inl (not_found i), s)
     | Some e \<Rightarrow> saved save () (hm_insert i (e\<lparr>se_status := Paused, se_next_fire := None\<rparr>) s))"

definition resume_schedule :: "cron \<Rightarrow> io_result \<Rightarrow> utc \<Rightarrow> string \<Rightarrow> schedules \<Rightarrow> (string + unit) \<times> schedules" where
  "resume_schedule cron save now i s =
    (case hm_get s i of
       None \<Rightarrow> (Inl (not_found i), s)
     | Some e \<Rightarrow>
         saved save ()
           (hm_insert i (e\<lparr>se_status := Active, se_next_fire := compute_next_fire cron (se_kind e) now\<rparr>) s))"

definition is_due :: "utc \<Rightarrow> schedule_entry \<Rightarrow> bool" where
  "is_due now e \<longleftrightarrow>
     se_status e = Active \<and> (case se_next_fire e of Some nf \<Rightarrow> nf \<le> now | None \<Rightarrow> False)"

definition get_ready_schedules :: "utc \<Rightarrow> schedules \<Rightarrow> schedule_entry list" where
  "get_ready_schedules now s = filter (is_due now) (hm_values s)"

definition fired_entry :: "cron \<Rightarrow> utc \<Rightarrow> schedule_entry \<Rightarrow> schedule_entry" where
  "fired_entry cron now e =
    (let e1 = e\<lparr>se_last_fired := Some now, se_fire_count := se_fire_count e + 1\<rparr> in
     case se_kind e of
       Cron _ \<Rightarrow> e1\<lparr>se_next_fire := compute_next_fire cron (se_kind e) now\<rparr>
     | _ \<Rightarrow> e1\<lparr>se_status := Completed, se_next_fire := None\<rparr>)"

definition record_fired :: "cron \<Rightarrow> io_result \<Rightarrow> utc \<Rightarrow> string \<Rightarrow> schedules \<Rightarrow> (string + unit) \<times> schedules" where
  "record_fired cron save now i s =
    (case hm_get s i of
       None \<Rightarrow> (Inl (not_found i), s)
     | Some e \<Rightarrow> saved save () (hm_insert i (fired_entry cron now e) s))"

definition find_schedule_by_prefix :: "string \<Rightarrow> schedules \<Rightarrow> schedule_entry option" where
  "find_schedule_by_prefix pre s =
    (if pre = [] then None else the_only (filter (\<lambda>e. prefix pre (se_id e)) (hm_values s)))"

definition count_active :: "schedules \<Rightarrow> nat" where
  "count_active s = length (filter (\<lambda>e. se_status e = Active) (hm_values s))"

section \<open>Loading\<close>

text \<open>The migration of one loaded entry, and whether it changed something.\<close>

definition migrate_entry :: "env \<Rightarrow> schedule_entry \<Rightarrow> schedule_entry \<times> bool" where
  "migrate_entry E e =
    (if se_status e \<noteq> Active then (e, False)
     else case (case validate_repo_dir E (se_repo_dir e) of
                  Inl m \<Rightarrow> Inl m
                | Inr repo \<Rightarrow>
                    (case validate_plan_path E (se_plan_path e) repo of
                       Inl m \<Rightarrow> Inl m
                     | Inr plan \<Rightarrow> Inr (repo, plan))) of
       Inr (repo, plan) \<Rightarrow>
         if \<not> path_eq (se_repo_dir e) repo \<or> \<not> path_eq (se_plan_path e) plan
         then (e\<lparr>se_repo_dir := repo, se_plan_path := plan\<rparr>, True)
         else (e, False)
     | Inl m \<Rightarrow>
         (e\<lparr>se_status := Rejected, se_last_error := Some (''load migration validation failed: '' @ m)\<rparr>,
          True))"

text \<open>
  A missing file is an empty registry; the second component says whether the migration is
  written back (a failed write is only logged).
\<close>

definition load_schedules ::
  "env \<Rightarrow> (string \<Rightarrow> schedules option) \<Rightarrow> file_view \<Rightarrow> path \<Rightarrow> string + schedules \<times> bool" where
  "load_schedules E parse f p =
    (case f of
       Absent \<Rightarrow> Inr ([], False)
     | Readable bytes \<Rightarrow>
         (case parse bytes of
            None \<Rightarrow> Inl (''failed to parse schedule registry at '' @ p)
          | Some entries \<Rightarrow>
              Inr (map (\<lambda>(i, e). (i, fst (migrate_entry E e))) entries,
                   \<exists>(i, e) \<in> set entries. snd (migrate_entry E e)))
     | _ \<Rightarrow> Inl (''failed to read schedule registry at '' @ p))"

section \<open>The firing loop\<close>

text \<open>
  One tick collects clones of the due entries under the lock and then works through them; the
  lock is free while a run is spawned, so clients' requests come in between. The state is the
  registry, the clones still to be handled, and the schedule ids whose runs were started.
\<close>

record loop_state =
  ls_schedules :: schedules
  ls_ready :: "schedule_entry list"
  ls_started :: "string list"

definition reject_entry :: "string \<Rightarrow> string \<Rightarrow> schedules \<Rightarrow> schedules" where
  "reject_entry i m s =
    (case hm_get s i of
       None \<Rightarrow> s
     | Some e \<Rightarrow>
         hm_insert i (e\<lparr>se_status := Rejected,
                        se_last_error := Some (''fire-time validation failed: '' @ m)\<rparr>) s)"

definition loop_tick :: "utc \<Rightarrow> loop_state \<Rightarrow> loop_state" where
  "loop_tick now l =
    (if ls_ready l = [] then l\<lparr>ls_ready := get_ready_schedules now (ls_schedules l)\<rparr> else l)"

text \<open>
  Handle the next clone; \<open>spawn_ok\<close> is whether \<open>executor::spawn_run\<close> returned a run id, \<open>now\<close> the
  time after it returned. The run's entry is also tagged with the schedule id; that is a change of
  the run registry and not part of this state.
\<close>

definition loop_fire :: "env \<Rightarrow> cron \<Rightarrow> io_result \<Rightarrow> bool \<Rightarrow> utc \<Rightarrow> loop_state \<Rightarrow> loop_state" where
  "loop_fire E cron save spawn_ok now l =
    (case ls_ready l of
       [] \<Rightarrow> l
     | e # rest \<Rightarrow>
         let l1 = l\<lparr>ls_ready := rest\<rparr> in
         (case validate_repo_dir E (se_repo_dir e) of
            Inl m \<Rightarrow> l1\<lparr>ls_schedules := reject_entry (se_id e) m (ls_schedules l)\<rparr>
          | Inr repo \<Rightarrow>
              (case validate_plan_path E (se_plan_path e) repo of
                 Inl m \<Rightarrow> l1\<lparr>ls_schedules := reject_entry (se_id e) m (ls_schedules l)\<rparr>
               | Inr _ \<Rightarrow>
                   if spawn_ok
                   then l1\<lparr>ls_started := ls_started l @ [se_id e],
                           ls_schedules := snd (record_fired cron save now (se_id e) (ls_schedules l))\<rparr>
                   else l1)))"

datatype sched_op =
    LoopTick utc
  | LoopFire io_result bool utc
  | AddOp io_result schedule_entry utc
  | RemoveOp io_result string
  | PauseOp io_result string
  | ResumeOp io_result utc string

fun apply_sched :: "env \<Rightarrow> cron \<Rightarrow> sched_op \<Rightarrow> loop_state \<Rightarrow> loop_state" where
  "apply_sched E cron (LoopTick now) l = loop_tick now l"
| "apply_sched E cron (LoopFire save ok now) l = loop_fire E cron save ok now l"
| "apply_sched E cron (AddOp save e now) l = l\<lparr>ls_schedules := snd (add_schedule save e (ls_schedules l))\<rparr>"
| "apply_sched E cron (RemoveOp save i) l = l\<lparr>ls_schedules := snd (remove_schedule save i (ls_schedules l))\<rparr>"
| "apply_sched E cron (PauseOp save i) l = l\<lparr>ls_schedules := snd (pause_schedule save i (ls_schedules l))\<rparr>"
| "apply_sched E cron (ResumeOp save now i) l =
     l\<lparr>ls_schedules := snd (resume_schedule cron save now i (ls_schedules l))\<rparr>"

section \<open>Durations and cron expressions\<close>

datatype duration_error = EmptyDuration | InvalidNumber string | UnknownSuffix string

text \<open>
  The multiplication is on \<open>u64\<close> and wraps in a release build. Splitting off the last byte panics
  when it is inside a multi-byte character: the outer \<open>None\<close>.
\<close>

definition is_continuation :: "char \<Rightarrow> bool" where
  "is_continuation c \<longleftrightarrow> (of_char c :: nat) div 64 = 2"

definition suffix_multiplier :: "char \<Rightarrow> u64 option" where
  "suffix_multiplier c =
    (if c = CHR ''s'' then Some 1
     else if c = CHR ''m'' then Some 60
     else if c = CHR ''h'' then Some 3600
     else if c = CHR ''d'' then Some 86400
     else None)"

definition parse_duration_suffix :: "string \<Rightarrow> (duration_error + u64) option" where
  "parse_duration_suffix s =
    (let t = trim s in
     if t = [] then Some (Inl EmptyDuration)
     else if is_continuation (last t) then None
     else case parse_u64 (butlast t) of
       None \<Rightarrow> Some (Inl (InvalidNumber (butlast t)))
     | Some v \<Rightarrow>
         (case suffix_multiplier (last t) of
            None \<Rightarrow> Some (Inl (UnknownSuffix [last t]))
          | Some k \<Rightarrow> Some (Inr (word_of_nat v * k))))"

definition normalize_cron_expression :: "string \<Rightarrow> nat + string" where
  "normalize_cron_expression s =
    (let n = length (split_ws [] s) in
     if n = 5 then Inr (''0 '' @ trim s @ '' *'')
     else if n = 7 then Inr (trim s)
     else Inl n)"

section \<open>A one-shot plan starts at most once\<close>

fun op_clock :: "utc \<Rightarrow> sched_op \<Rightarrow> utc" where
  "op_clock t (LoopTick now) = now"
| "op_clock t (LoopFire save ok now) = now"
| "op_clock t (AddOp save e now) = now"
| "op_clock t (RemoveOp save i) = t"
| "op_clock t (PauseOp save i) = t"
| "op_clock t (ResumeOp save now i) = now"

text \<open>The clock does not go back, and the id \<open>i\<close> is not given to another schedule.\<close>

fun clocked :: "string \<Rightarrow> utc \<Rightarrow> sched_op list \<Rightarrow> bool" where
  "clocked i t [] = True"
| "clocked i t (op # ops) =
     (t \<le> op_clock t op \<and> (case op of AddOp save e now \<Rightarrow> se_id e \<noteq> i | _ \<Rightarrow> True)
      \<and> clocked i (op_clock t op) ops)"

definition well_keyed :: "schedules \<Rightarrow> bool" where
  "well_keyed s \<longleftrightarrow> hm_ok s \<and> (\<forall>x \<in> set s. se_id (snd x) = fst x)"

definition is_single :: "ScheduleKind \<Rightarrow> bool" where
  "is_single k \<longleftrightarrow> (case k of Cron _ \<Rightarrow> False | _ \<Rightarrow> True)"

text \<open>A one-shot schedule fires at its own time or not at all.\<close>

definition fires_at :: "schedule_entry \<Rightarrow> bool" where
  "fires_at e \<longleftrightarrow>
    (case se_kind e of OneShot at \<Rightarrow> se_next_fire e = None \<or> se_next_fire e = Some at | _ \<Rightarrow> True)"

definition due_by :: "ScheduleKind \<Rightarrow> utc \<Rightarrow> bool" where
  "due_by k t \<longleftrightarrow> (case k of OneShot at \<Rightarrow> at \<le> t | _ \<Rightarrow> True)"

definition entry_inv :: "string \<Rightarrow> ScheduleKind \<Rightarrow> utc \<Rightarrow> loop_state \<Rightarrow> bool" where
  "entry_inv i k t l \<longleftrightarrow>
    (\<forall>e. hm_get (ls_schedules l) i = Some e \<longrightarrow>
       se_kind e = k \<and> fires_at e \<and> (i \<in> set (ls_started l) \<longrightarrow> se_next_fire e = None \<and> due_by k t))"

definition ready_inv :: "string \<Rightarrow> ScheduleKind \<Rightarrow> utc \<Rightarrow> loop_state \<Rightarrow> bool" where
  "ready_inv i k t l \<longleftrightarrow>
    (\<forall>r \<in> set (ls_ready l). se_id r = i \<longrightarrow> se_kind r = k \<and> due_by k t \<and> i \<notin> set (ls_started l))
    \<and> count_list (map se_id (ls_ready l)) i \<le> 1"

definition once_inv :: "string \<Rightarrow> ScheduleKind \<Rightarrow> utc \<Rightarrow> loop_state \<Rightarrow> bool" where
  "once_inv i k t l \<longleftrightarrow>
    well_keyed (ls_schedules l) \<and> entry_inv i k t l \<and> ready_inv i k t l
    \<and> count_list (ls_started l) i \<le> 1"

lemma due_by_mono: "due_by k t \<Longrightarrow> t \<le> t' \<Longrightarrow> due_by k t'"
  by (auto simp: due_by_def split: ScheduleKind.splits)

lemma once_inv_later: "once_inv i k t l \<Longrightarrow> t \<le> t' \<Longrightarrow> once_inv i k t' l"
  by (auto simp: once_inv_def entry_inv_def ready_inv_def intro: due_by_mono)

lemma well_keyed_insert: "well_keyed s \<Longrightarrow> se_id e = i \<Longrightarrow> well_keyed (hm_insert i e s)"
proof -
  have "x = (i, e) \<or> x \<in> set s" if "x \<in> set (AList.update i e s)" for x
    using that by (induction s) (auto split: if_splits)
  then show "well_keyed s \<Longrightarrow> se_id e = i \<Longrightarrow> well_keyed (hm_insert i e s)"
    by (fastforce simp: well_keyed_def)
qed

lemma well_keyed_remove: "well_keyed s \<Longrightarrow> well_keyed (hm_remove i s)"
  by (auto simp: well_keyed_def AList.delete_eq hm_ok_def intro: distinct_map_filter)

lemma well_keyed_get: "well_keyed s \<Longrightarrow> hm_get s i = Some e \<Longrightarrow> se_id e = i"
  by (force simp: well_keyed_def dest: map_of_SomeD)

text \<open>An edit of the schedules alone, by the entry it leaves under \<open>i\<close>.\<close>

lemma once_inv_edit:
  assumes inv: "once_inv i k t l" and wk: "well_keyed s'"
    and e: "\<And>e'. hm_get s' i = Some e' \<Longrightarrow>
      \<exists>e. hm_get (ls_schedules l) i = Some e \<and> se_kind e' = se_kind e \<and> fires_at e'
        \<and> (se_next_fire e = None \<longrightarrow> due_by k t \<longrightarrow> i \<in> set (ls_started l) \<longrightarrow> se_next_fire e' = None)"
  shows "once_inv i k t (l\<lparr>ls_schedules := s'\<rparr>)"
  using inv wk unfolding once_inv_def entry_inv_def ready_inv_def
  by (auto dest!: e)

lemma ready_count:
  assumes "well_keyed s"
  shows "count_list (map se_id (get_ready_schedules now s)) i \<le> 1"
proof -
  have eq: "map se_id (hm_values s) = hm_keys s"
    using assms by (auto simp: well_keyed_def)
  have d: "distinct (hm_keys s)" using assms by (simp add: well_keyed_def hm_ok_def)
  have "distinct (map se_id (hm_values s))" unfolding eq by (rule d)
  then have "distinct (map se_id (get_ready_schedules now s))"
    unfolding get_ready_schedules_def by (rule distinct_map_filter)
  then show ?thesis by (rule count_list_distinct)
qed

lemma ready_entry:
  assumes "well_keyed s" and "r \<in> set (get_ready_schedules now s)" and "se_id r = i"
  shows "hm_get s i = Some r \<and> is_due now r"
proof -
  from assms(2) obtain j where j: "(j, r) \<in> set s" "is_due now r"
    by (auto simp: get_ready_schedules_def)
  with assms(1,3) have "j = i" by (auto simp: well_keyed_def)
  with j assms(1) show ?thesis by (auto simp: well_keyed_def hm_ok_def)
qed

lemma fires_at_due: "fires_at e \<Longrightarrow> is_due now e \<Longrightarrow> due_by (se_kind e) now"
  by (auto simp: fires_at_def is_due_def due_by_def split: ScheduleKind.splits option.splits)

lemma fires_at_simps [simp]:
  "fires_at (e\<lparr>se_status := st, se_next_fire := None\<rparr>)"
  "fires_at (e\<lparr>se_status := st, se_last_error := le\<rparr>) = fires_at e"
  by (simp_all add: fires_at_def split: ScheduleKind.split)

lemma once_inv_fires_at: "once_inv i k t l \<Longrightarrow> hm_get (ls_schedules l) i = Some e \<Longrightarrow> fires_at e"
  by (simp add: once_inv_def entry_inv_def)

lemma once_inv_tick:
  assumes inv: "once_inv i k t l" and t: "t \<le> now"
  shows "once_inv i k now (loop_tick now l)"
proof (cases "ls_ready l = []")
  case False
  then show ?thesis using once_inv_later [OF inv t] by (simp add: loop_tick_def)
next
  case True
  from inv have wk: "well_keyed (ls_schedules l)" by (simp add: once_inv_def)
  have "se_kind r = k \<and> due_by k now \<and> i \<notin> set (ls_started l)"
    if "r \<in> set (get_ready_schedules now (ls_schedules l))" "se_id r = i" for r
  proof -
    from ready_entry [OF wk that] have r: "hm_get (ls_schedules l) i = Some r" "is_due now r" by auto
    with inv have k: "se_kind r = k" "fires_at r"
      and s: "i \<in> set (ls_started l) \<longrightarrow> se_next_fire r = None"
      by (auto simp: once_inv_def entry_inv_def)
    from r(2) s have "i \<notin> set (ls_started l)" by (auto simp: is_due_def split: option.splits)
    with fires_at_due [OF k(2) r(2)] k show ?thesis by simp
  qed
  with True once_inv_later [OF inv t] ready_count [OF wk, of now i] show ?thesis
    by (simp add: loop_tick_def once_inv_def ready_inv_def entry_inv_def)
qed

lemma fired_single:
  "is_single (se_kind e) \<Longrightarrow> fired_entry cron now e =
     e\<lparr>se_last_fired := Some now, se_fire_count := se_fire_count e + 1,
       se_status := Completed, se_next_fire := None\<rparr>"
  by (cases "se_kind e") (simp_all add: fired_entry_def is_single_def Let_def)

lemma fired_kind [simp]: "se_kind (fired_entry cron now e) = se_kind e" "se_id (fired_entry cron now e) = se_id e"
  by (cases "se_kind e"; simp add: fired_entry_def Let_def)+

lemma record_fired_get:
  "hm_get (snd (record_fired cron save now j s)) i =
    (if i = j then map_option (fired_entry cron now) (hm_get s i) else hm_get s i)"
  by (auto simp: record_fired_def saved_def split: option.split)

lemma record_fired_keyed: "well_keyed s \<Longrightarrow> well_keyed (snd (record_fired cron save now j s))"
  by (auto simp: record_fired_def saved_def split: option.split intro!: well_keyed_insert dest: well_keyed_get)

lemma reject_get:
  "hm_get (reject_entry j m s) i =
    (if i = j then map_option (\<lambda>e. e\<lparr>se_status := Rejected,
        se_last_error := Some (''fire-time validation failed: '' @ m)\<rparr>) (hm_get s i) else hm_get s i)"
  by (auto simp: reject_entry_def split: option.split)

lemma reject_keyed: "well_keyed s \<Longrightarrow> well_keyed (reject_entry j m s)"
  by (auto simp: reject_entry_def split: option.split intro!: well_keyed_insert dest: well_keyed_get)

lemma once_inv_fire:
  assumes inv: "once_inv i k t l" and t: "t \<le> now" and single: "is_single k"
  shows "once_inv i k now (loop_fire E cron save ok now l)"
proof (cases "ls_ready l")
  case Nil
  with once_inv_later [OF inv t] show ?thesis by (simp add: loop_fire_def)
next
  case (Cons r rest)
  from once_inv_later [OF inv t] have now: "once_inv i k now l" .
  let ?l1 = "l\<lparr>ls_ready := rest\<rparr>"
  from now Cons have inv1: "once_inv i k now ?l1"
    by (auto simp: once_inv_def entry_inv_def ready_inv_def split: if_splits)
  from now have wk: "well_keyed (ls_schedules l)" by (simp add: once_inv_def)
  have rejected: "once_inv i k now (?l1\<lparr>ls_schedules := reject_entry (se_id r) m (ls_schedules l)\<rparr>)" for m
    using once_inv_fires_at [OF inv1]
    by (intro once_inv_edit [OF inv1] reject_keyed wk) (auto simp: reject_get split: if_splits)
  have started: "once_inv i k now (?l1\<lparr>ls_started := ls_started l @ [se_id r],
      ls_schedules := snd (record_fired cron save now (se_id r) (ls_schedules l))\<rparr>)"
  proof (cases "se_id r = i")
    case True
    with now Cons have r: "se_kind r = k" "due_by k now" "i \<notin> set (ls_started l)"
      and rest: "i \<notin> set (map se_id rest)"
      by (auto simp: once_inv_def ready_inv_def count_list_0_iff)
    from rest have others: "\<And>x. x \<in> set rest \<Longrightarrow> se_id x \<noteq> i" by auto
    have "count_list (ls_started l) i = 0" using r(3) by (simp add: count_list_0_iff)
    moreover have "se_kind e = k" if "hm_get (ls_schedules l) i = Some e" for e
      using that now by (simp add: once_inv_def entry_inv_def)
    ultimately show ?thesis using r rest others True single record_fired_keyed [OF wk]
      by (auto simp: once_inv_def entry_inv_def ready_inv_def record_fired_get fired_single
          fires_at_def count_list_0_iff split: ScheduleKind.splits)
  next
    case False
    with inv1 record_fired_keyed [OF wk] show ?thesis
      by (auto simp: once_inv_def entry_inv_def ready_inv_def record_fired_get)
  qed
  show ?thesis
    using Cons inv1 rejected started
    by (simp add: loop_fire_def Let_def split: sum.split)
qed

lemma once_inv_step:
  assumes inv: "once_inv i k t l" and ck: "clocked i t [op]" and single: "is_single k"
  shows "once_inv i k (op_clock t op) (apply_sched E cron op l)"
proof (cases op)
  case (LoopTick now)
  with inv ck show ?thesis by (simp add: once_inv_tick)
next
  case (LoopFire save ok now)
  with inv ck single show ?thesis by (simp add: once_inv_fire)
next
  case (AddOp save e now)
  with ck have ne: "se_id e \<noteq> i" and t: "t \<le> now" by simp_all
  from once_inv_later [OF inv t] have inv': "once_inv i k now l" .
  then have "well_keyed (hm_insert (se_id e) e (ls_schedules l))"
    by (intro well_keyed_insert) (simp_all add: once_inv_def)
  with inv' ne AddOp show ?thesis
    by (auto simp: add_schedule_def saved_def once_inv_def entry_inv_def ready_inv_def)
next
  case (RemoveOp save j)
  have "well_keyed (hm_remove j (ls_schedules l))"
    using inv by (intro well_keyed_remove) (simp add: once_inv_def)
  with inv RemoveOp show ?thesis
    by (auto simp: remove_schedule_def saved_def once_inv_def entry_inv_def ready_inv_def split: option.split)
next
  case (PauseOp save j)
  have "well_keyed (hm_insert j (e\<lparr>se_status := Paused, se_next_fire := None\<rparr>) (ls_schedules l))"
    if "hm_get (ls_schedules l) j = Some e" for e
    using inv well_keyed_get [OF _ that] by (intro well_keyed_insert) (simp_all add: once_inv_def)
  with inv PauseOp once_inv_fires_at [OF inv] show ?thesis
    by (auto simp: pause_schedule_def saved_def split: option.split
        intro!: once_inv_edit [OF inv] split: if_splits)
next
  case (ResumeOp save now j)
  with ck have t: "t \<le> now" by simp
  from once_inv_later [OF inv t] have inv': "once_inv i k now l" .
  have wk: "well_keyed (hm_insert j (e\<lparr>se_status := Active, se_next_fire := nf\<rparr>) (ls_schedules l))"
    if "hm_get (ls_schedules l) j = Some e" for e nf
    using inv well_keyed_get [OF _ that] by (intro well_keyed_insert) (simp_all add: once_inv_def)
  have "fires_at (e\<lparr>se_status := Active, se_next_fire := compute_next_fire cron (se_kind e) now\<rparr>)" for e
    by (auto simp: fires_at_def split: ScheduleKind.split)
  moreover have "compute_next_fire cron k now = None" if "due_by k now"
    using that single by (auto simp: due_by_def is_single_def split: ScheduleKind.splits)
  moreover have "se_kind e = k" if "hm_get (ls_schedules l) i = Some e" for e
    using that inv by (simp add: once_inv_def entry_inv_def)
  ultimately show ?thesis using inv' ResumeOp wk once_inv_fires_at [OF inv]
    by (auto simp: resume_schedule_def saved_def split: option.split
        intro!: once_inv_edit [OF inv'] split: if_splits)
qed

lemma once_inv_run:
  "once_inv i k t l \<Longrightarrow> clocked i t ops \<Longrightarrow> is_single k \<Longrightarrow>
    \<exists>t'. once_inv i k t' (fold (apply_sched E cron) ops l)"
proof (induction ops arbitrary: t l)
  case Nil
  then show ?case by auto
next
  case (Cons op ops)
  from Cons.prems have "once_inv i k (op_clock t op) (apply_sched E cron op l)"
    by (intro once_inv_step) simp_all
  from Cons.IH [OF this] Cons.prems show ?case by simp
qed


definition sched_at :: "string \<Rightarrow> ScheduleKind \<Rightarrow> utc option \<Rightarrow> schedule_entry" where
  "sched_at i k next_fire =
     \<lparr>se_id = i, se_plan_path = ''/r/p.md'', se_repo_dir = ''/r'', se_config_dir = None, se_verbose = 0,
      se_kind = k, se_status = Active, se_created_at = 0, se_last_fired = None,
      se_next_fire = next_fire, se_fire_count = 0, se_label = None, se_last_error = None\<rparr>"

definition all_paths :: env where
  "all_paths = \<lparr>env_canonicalize = (\<lambda>p. Some p), env_hash16 = (\<lambda>s. s)\<rparr>"

definition two_due :: loop_state where
  "two_due = \<lparr>ls_schedules = [(''a'', sched_at ''a'' (OneShot 5) (Some 5)), (''b'', sched_at ''b'' (OneShot 5) (Some 5))],
     ls_ready = [], ls_started = []\<rparr>"


section \<open>Pausing and resuming\<close>

text \<open>
  A delayed schedule does not survive a pause. Resuming recomputes the next time from the
  kind, which for a delay gives none: the entry is \<open>Active\<close> again but is never due, at any time.
\<close>
theorem resumed_delay_never_fires:
  assumes "hm_get s i = Some e" and "se_kind e = Delayed d"
  shows "\<exists>e'. hm_get (snd (resume_schedule cron save now i (snd (pause_schedule save' i s)))) i = Some e'
    \<and> se_status e' = Active \<and> (\<forall>later. \<not> is_due later e')"
  using assms by (simp add: pause_schedule_def resume_schedule_def saved_def is_due_def)

theorem resumed_delay_never_fires_witness:
  "\<exists>e'. hm_get (snd (resume_schedule (\<lambda>_ _. None) io_ok 3 ''d''
        (snd (pause_schedule io_ok ''d'' [(''d'', sched_at ''d'' (Delayed 60) (Some 60))])))) ''d'' = Some e'
    \<and> se_status e' = Active \<and> (\<forall>later. \<not> is_due later e')"
  by (rule resumed_delay_never_fires [where e = "sched_at ''d'' (Delayed 60) (Some 60)" and d = 60])
    (simp_all add: sched_at_def)

text \<open>
  Pausing is not atomic with firing. A schedule collected by a tick is started although the
  user paused it (successfully) while the previous schedule of the same tick was being spawned.
\<close>
theorem paused_schedule_still_fires:
  "let l = fold (apply_sched all_paths (\<lambda>_ _. None)) [LoopTick 6, LoopFire io_ok True 7, PauseOp io_ok ''b''] two_due
   in map_option se_status (hm_get (ls_schedules l) ''b'') = Some Paused
      \<and> ls_started (apply_sched all_paths (\<lambda>_ _. None) (LoopFire io_ok True 9) l) = [''a'', ''b'']"
  by code_simp

section \<open>Durations\<close>

lemma trim_fixed:
  assumes "\<And>w. w \<in> set white_space \<Longrightarrow> \<not> prefix w s"
    and "\<And>w. w \<in> set white_space \<Longrightarrow> \<not> suffix w s"
  shows "trim s = s"
proof -
  have "trim_start s = s" unfolding trim_start_def by (rule drop_words_none) (use assms(1) in blast)
  moreover have "drop_words (map rev white_space) (rev s) = rev s"
    by (rule drop_words_none) (use assms(2) in \<open>auto simp: suffix_to_prefix\<close>)
  ultimately show ?thesis by (simp add: trim_def trim_end_def)
qed

definition plain_byte :: "char \<Rightarrow> bool" where
  "plain_byte c \<longleftrightarrow> 32 < (of_char c :: nat) \<and> (of_char c :: nat) < 127"

lemma white_space_not_plain:
  "w \<in> set white_space \<Longrightarrow> w \<noteq> [] \<and> \<not> plain_byte (hd w) \<and> \<not> plain_byte (last w)"
proof -
  have "list_all (\<lambda>w. w \<noteq> [] \<and> \<not> plain_byte (hd w) \<and> \<not> plain_byte (last w)) white_space"
    by code_simp
  then show "w \<in> set white_space \<Longrightarrow> w \<noteq> [] \<and> \<not> plain_byte (hd w) \<and> \<not> plain_byte (last w)"
    by (simp add: list_all_iff)
qed

lemma trim_plain:
  assumes "s \<noteq> []" and "plain_byte (hd s)" and "plain_byte (last s)"
  shows "trim s = s"
proof (rule trim_fixed)
  fix w assume w: "w \<in> set white_space"
  note np = white_space_not_plain [OF w]
  show "\<not> prefix w s"
    using assms np by (cases w; cases s) (auto simp: prefix_def)
  show "\<not> suffix w s"
    using assms np by (auto simp: suffix_def)
qed

lemma show_nat_plain: "plain_byte (hd (show_nat n))"
proof -
  from show_nat_nonempty have "hd (show_nat n) \<in> set (show_nat n)" by simp
  from show_nat_digits [OF this] obtain d :: nat
    where "d < 10" "hd (show_nat n) = char_of (48 + d)" by blast
  then show ?thesis by (simp add: plain_byte_def)
qed

lemma parse_duration_show_nat:
  assumes "suffix_multiplier u = Some k" and "n < 2 ^ 64"
  shows "parse_duration_suffix (show_nat n @ [u]) = Some (Inr (word_of_nat n * k))"
proof -
  have u: "plain_byte u" "\<not> is_continuation u"
    using assms(1) by (auto simp: suffix_multiplier_def plain_byte_def is_continuation_def split: if_splits)
  have "trim (show_nat n @ [u]) = show_nat n @ [u]"
    using u show_nat_plain [of n] show_nat_nonempty [of n] by (intro trim_plain) simp_all
  then show ?thesis
    using u assms by (simp add: parse_duration_suffix_def Let_def parse_u64_show_nat)
qed

text \<open>
  A decimal number followed by one of the four suffixes is read as that many units, exactly
  whenever the product fits 64 bits; no number that fits is rejected.
\<close>
theorem duration_is_exact_without_overflow:
  assumes "suffix_multiplier u = Some k" and "n * unat k < 2 ^ 64" and "n < 2 ^ 64"
  shows "\<exists>v. parse_duration_suffix (show_nat n @ [u]) = Some (Inr v) \<and> unat v = n * unat k"
proof -
  have "unat (word_of_nat n * k) = n * unat k"
    using assms(2,3) by (simp add: unat_word_ariths unat_of_nat)
  with parse_duration_show_nat [OF assms(1,3)] show ?thesis by blast
qed

theorem duration_is_exact_without_overflow_witness:
  "\<exists>v. parse_duration_suffix (show_nat 30 @ ''m'') = Some (Inr v) \<and> unat v = 30 * unat (60 :: u64)"
  by (rule duration_is_exact_without_overflow) (simp_all add: suffix_multiplier_def)

text \<open>
  The product is not checked, and the suffix is split off as a byte: a very long delay wraps
  to seventeen hours, and a unit that is a two-byte character panics instead of being refused.
\<close>
theorem duration_wraps_and_panics:
  "parse_duration_suffix (show_nat 213503982334602 @ ''d'') = Some (Inr 61184)
   \<and> parse_duration_suffix (''5'' @ [CHR 0xC2, CHR 0xB5]) = None"
proof
  show "parse_duration_suffix (show_nat 213503982334602 @ ''d'') = Some (Inr 61184)"
    by (subst parse_duration_show_nat [of _ 86400]) (simp_all add: suffix_multiplier_def)
  show "parse_duration_suffix (''5'' @ [CHR 0xC2, CHR 0xB5]) = None"
    by code_simp
qed

end
