(* ===== verification/Protocol.thy ===== *)
theory Protocol
  imports Registry Schedule
begin

text \<open>
  The IPC protocol (\<open>daemon/protocol.rs\<close>): requests, responses, the advice of error codes, and the
  length-prefixed framing. JSON encoding and decoding (\<open>serde_json\<close>) are parameters; times in
  responses are kept as numbers instead of their RFC 3339 texts.
\<close>

section \<open>Messages\<close>

datatype Request =
    SubmitRun path path "string option" "path option" nat
  | ListRuns bool
  | GetLogs string bool "nat option" bool
  | StopRun string
  | DetachRun string
  | DaemonStatus
  | Shutdown
  | AddSchedule path path ScheduleKind "path option" nat "string option"
  | ListSchedules
  | RemoveSchedule string
  | PauseSchedule string
  | ResumeSchedule string
  | ListQueue
  | RemoveQueued string
  | ClearQueueOf "path option"

datatype ScheduleKindInfo = CronInfo string | OneShotInfo utc | DelayedInfo utc

record schedule_info =
  sc_id :: string
  sc_plan_path :: path
  sc_repo_dir :: path
  sc_kind :: ScheduleKindInfo
  sc_status :: ScheduleStatus
  sc_next_fire :: "utc option"
  sc_last_fired :: "utc option"
  sc_fire_count :: nat
  sc_label :: "string option"

datatype Response =
    RunSubmitted string
  | RunQueued string nat
  | RunList "run_info list"
  | LogChunk string string
  | OkMessage string
  | ErrorResponse ErrorCode string
  | ScheduleList "schedule_info list"
  | ScheduleAdded string "utc option"
  | QueueList "queued_run_info list"

definition backtick :: "string \<Rightarrow> string" where
  "backtick s = [CHR 0x60] @ s @ [CHR 0x60]"

fun suggestion :: "ErrorCode \<Rightarrow> string \<Rightarrow> string" where
  "suggestion RepoLocked ctx =
     ''Repository is locked by '' @ ctx @ ''. Wait or run: '' @ backtick (''gw stop '' @ ctx)"
| "suggestion RunNotFound ctx =
     ''No run matching '' @ [CHR 0x27] @ ctx @ [CHR 0x27] @ ''. Run '' @ backtick ''gw ps'' @ '' to see active runs.''"
| "suggestion DaemonBusy ctx = ''Daemon is busy. Try again in a moment.''"
| "suggestion InvalidRequest ctx =
     ''Invalid request: '' @ ctx @ ''. Run '' @ backtick ''gw --help'' @ '' for usage.''"
| "suggestion InternalError ctx =
     ''Internal daemon error. Check with: '' @ backtick ''gw daemon status''"
| "suggestion QueueFull ctx =
     ''Queue is full. Wait for runs to complete or cancel queued entries with '' @ backtick ''gw stop'' @ ''.''"
| "suggestion ScheduleNotFound ctx =
     ''No schedule matching '' @ [CHR 0x27] @ ctx @ [CHR 0x27] @ ''. Run '' @ backtick ''gw schedule list'' @ '' to see schedules.''"

section \<open>Framing\<close>

definition MAX_MESSAGE_SIZE :: "32 word" where "MAX_MESSAGE_SIZE = 16 * 1024 * 1024"

text \<open>\<open>u32::to_be_bytes\<close> and \<open>u32::from_be_bytes\<close>.\<close>

definition to_be_bytes :: "32 word \<Rightarrow> string" where
  "to_be_bytes w = map (\<lambda>k. char_of (unat (drop_bit k w) mod 256)) [24, 16, 8, 0]"

definition from_be_bytes :: "string \<Rightarrow> 32 word" where
  "from_be_bytes bs = fold (\<lambda>b acc. 256 * acc + word_of_nat (of_char b)) bs 0"

definition too_long :: "nat \<Rightarrow> string" where
  "too_long n = ''message size '' @ show_nat n @ '' exceeds maximum '' @ show_nat (unat MAX_MESSAGE_SIZE)"

text \<open>What a successful write puts on the stream; the failures of the stream itself are left out.\<close>

definition write_message :: "('m \<Rightarrow> string) \<Rightarrow> 'm \<Rightarrow> string + string" where
  "write_message to_json msg =
    (let payload = to_json msg in
     if length payload > unat MAX_MESSAGE_SIZE then Inl (too_long (length payload))
     else Inr (to_be_bytes (word_of_nat (length payload)) @ payload))"

datatype read_error = UnexpectedEof | MessageTooLong string | BadJson

text \<open>Reads from the bytes a closed peer sent; the rest of the stream is returned.\<close>

definition read_message :: "(string \<Rightarrow> 'm option) \<Rightarrow> string \<Rightarrow> read_error + 'm \<times> string" where
  "read_message parse stream =
    (if length stream < 4 then Inl UnexpectedEof
     else let len = from_be_bytes (take 4 stream); body = drop 4 stream in
       if len > MAX_MESSAGE_SIZE then Inl (MessageTooLong (too_long (unat len)))
       else if length body < unat len then Inl UnexpectedEof
       else (case parse (take (unat len) body) of
               None \<Rightarrow> Inl BadJson
             | Some msg \<Rightarrow> Inr (msg, drop (unat len) body)))"

fun read_messages :: "(string \<Rightarrow> 'm option) \<Rightarrow> nat \<Rightarrow> string \<Rightarrow> read_error + 'm list \<times> string" where
  "read_messages parse 0 stream = Inr ([], stream)"
| "read_messages parse (Suc n) stream =
    (case read_message parse stream of
       Inl e \<Rightarrow> Inl e
     | Inr (m, rest) \<Rightarrow>
         (case read_messages parse n rest of
            Inl e \<Rightarrow> Inl e
          | Inr (ms, rest') \<Rightarrow> Inr (m # ms, rest')))"

lemma length_to_be_bytes [simp]: "length (to_be_bytes w) = 4"
  by (simp add: to_be_bytes_def)

lemma from_to_be_bytes: "from_be_bytes (to_be_bytes w) = w"
proof -
  define n where "n = unat w"
  have n: "n < 2 ^ 32" unfolding n_def using unsigned_less [of w, where 'a = nat] by simp
  have byte: "unat (drop_bit k w) = n div 2 ^ k" for k
    using unat_drop_bit_eq [of k w] by (simp only: n_def drop_bit_eq_div)
  have "(256 * (256 * (256 * (n div 2 ^ 24 mod 256) + n div 2 ^ 16 mod 256) + n div 2 ^ 8 mod 256) + n mod 256) = n"
  proof -
    have "n div 2 ^ 24 < 256" using n by (simp add: less_mult_imp_div_less)
    then have t3: "n div 2 ^ 24 mod 256 = n div 2 ^ 24" by simp
    have t2: "256 * (n div 2 ^ 24) + n div 2 ^ 16 mod 256 = n div 2 ^ 16"
      using mult_div_mod_eq [of 256 "n div 2 ^ 16"] by (simp add: div_mult2_eq [symmetric])
    have t1: "256 * (n div 2 ^ 16) + n div 2 ^ 8 mod 256 = n div 2 ^ 8"
      using mult_div_mod_eq [of 256 "n div 2 ^ 8"] by (simp add: div_mult2_eq [symmetric])
    have t0: "256 * (n div 2 ^ 8) + n mod 256 = n" using mult_div_mod_eq [of 256 n] by simp
    show ?thesis unfolding t3 t2 t1 t0 ..
  qed
  then have eq: "(word_of_nat (256 * (256 * (256 * (n div 2 ^ 24 mod 256) + n div 2 ^ 16 mod 256) + n div 2 ^ 8 mod 256) + n mod 256) :: 32 word)
      = word_of_nat n" by (rule arg_cong)
  have "word_of_nat n = w" by (simp add: n_def)
  then have "256 * (256 * (256 * word_of_nat (n div 2 ^ 24 mod 256) + word_of_nat (n div 2 ^ 16 mod 256))
      + word_of_nat (n div 2 ^ 8 mod 256)) + word_of_nat (n mod 256) = w"
    using eq by (simp only: of_nat_add of_nat_mult of_nat_numeral)
  moreover have "from_be_bytes (to_be_bytes w) =
      256 * (256 * (256 * word_of_nat (n div 2 ^ 24 mod 256) + word_of_nat (n div 2 ^ 16 mod 256))
      + word_of_nat (n div 2 ^ 8 mod 256)) + word_of_nat (n div 2 ^ 0 mod 256)"
    unfolding from_be_bytes_def to_be_bytes_def byte by (simp del: of_nat_mod)
  ultimately show ?thesis by (simp del: of_nat_mod)
qed

lemma framed:
  assumes "write_message to_json m = Inr frame"
  shows "length (to_json m) \<le> unat MAX_MESSAGE_SIZE"
    and "frame = to_be_bytes (word_of_nat (length (to_json m))) @ to_json m"
    and "unat (word_of_nat (length (to_json m)) :: 32 word) = length (to_json m)"
proof -
  show le: "length (to_json m) \<le> unat MAX_MESSAGE_SIZE"
    using assms by (simp add: write_message_def Let_def split: if_splits)
  show "frame = to_be_bytes (word_of_nat (length (to_json m))) @ to_json m"
    using assms by (simp add: write_message_def Let_def split: if_splits)
  from le show "unat (word_of_nat (length (to_json m)) :: 32 word) = length (to_json m)"
    by (simp add: unat_of_nat MAX_MESSAGE_SIZE_def)
qed

lemma read_write_message:
  assumes "parse (to_json m) = Some m" and w: "write_message to_json m = Inr frame"
  shows "read_message parse (frame @ rest) = Inr (m, rest)"
proof -
  note f = framed [OF w]
  have "\<not> (word_of_nat (length (to_json m)) :: 32 word) > MAX_MESSAGE_SIZE"
    using f(1,3) by (simp add: word_less_nat_alt)
  with assms(1) f show ?thesis
    by (simp add: read_message_def Let_def from_to_be_bytes)
qed

text \<open>
  C18: framing is a round trip. Messages written one after the other are read back in order from the
  concatenated frames, whatever follows them on the stream, as long as JSON decoding inverts encoding;
  a message is refused at the writer exactly when it is longer than 16 MiB.
\<close>
theorem framing_roundtrip:
  assumes "\<And>m. m \<in> set ms \<Longrightarrow> parse (to_json m) = Some m"
  shows "(\<forall>m \<in> set ms. isl (write_message to_json m) \<longleftrightarrow> length (to_json m) > 16777216)
    \<and> (list_all2 (\<lambda>m frame. write_message to_json m = Inr frame) ms frames \<longrightarrow>
        read_messages parse (length ms) (concat frames @ rest) = Inr (ms, rest))"
proof -
  have "list_all2 (\<lambda>m frame. write_message to_json m = Inr frame) ms frames \<Longrightarrow>
      read_messages parse (length ms) (concat frames @ rest) = Inr (ms, rest)"
    using assms
  proof (induction ms arbitrary: frames)
    case (Cons m ms)
    from Cons.prems(1) obtain frame frames' where fs: "frames = frame # frames'"
      "write_message to_json m = Inr frame" "list_all2 (\<lambda>m frame. write_message to_json m = Inr frame) ms frames'"
      by (auto simp: list_all2_Cons1)
    with Cons.IH [of frames'] Cons.prems(2) read_write_message [of parse to_json m frame "concat frames' @ rest"]
    show ?case by simp
  qed simp
  then show ?thesis by (auto simp: write_message_def Let_def MAX_MESSAGE_SIZE_def)
qed

theorem framing_roundtrip_witness:
  "read_messages (\<lambda>s. Some s) 2 (concat [[CHR 0x00, CHR 0x00, CHR 0x00, CHR 0x02] @ ''hi'', [CHR 0x00, CHR 0x00, CHR 0x00, CHR 0x00]] @ ''x'')
     = Inr ([''hi'', []], ''x'')"
proof -
  have "list_all2 (\<lambda>m frame. write_message (\<lambda>s. s) m = Inr frame) [''hi'', []]
      [[CHR 0x00, CHR 0x00, CHR 0x00, CHR 0x02] @ ''hi'', [CHR 0x00, CHR 0x00, CHR 0x00, CHR 0x00]]"
    by (simp add: write_message_def MAX_MESSAGE_SIZE_def to_be_bytes_def) code_simp
  with framing_roundtrip [of "[''hi'', []]" "\<lambda>s. Some s" "\<lambda>s. s"
      "[[CHR 0x00, CHR 0x00, CHR 0x00, CHR 0x02] @ ''hi'', [CHR 0x00, CHR 0x00, CHR 0x00, CHR 0x00]]" "''x''"] show ?thesis
    by (simp add: numeral_2_eq_2 del: read_messages.simps)
qed

end
