(* ===== verification/Log_Stream.thy ===== *)
theory Log_Stream
  imports GW_Prelude
begin

text \<open>
  Reading run logs (\<open>daemon/server.rs\<close>): the bounded tail read, the follow mode that streams what
  is appended, and the standard library's lossy UTF-8 decoding both use.
\<close>

section \<open>Lossy decoding\<close>

text \<open>
  \<open>String::from_utf8_lossy\<close> replaces every maximal invalid piece by U+FFFD. \<open>utf8_piece\<close> is the
  length of the first piece of a non-empty input and whether it is a valid character.
\<close>

definition replacement :: string where
  "replacement = [CHR 0xEF, CHR 0xBF, CHR 0xBD]"

definition byte_in :: "nat \<Rightarrow> nat \<Rightarrow> char \<Rightarrow> bool" where
  "byte_in lo hi c \<longleftrightarrow> lo \<le> (of_char c :: nat) \<and> (of_char c :: nat) \<le> hi"

text \<open>How many continuation bytes follow a lead byte, and the range of the first of them.\<close>

definition utf8_lead :: "char \<Rightarrow> (nat \<times> nat \<times> nat) option" where
  "utf8_lead c =
    (if byte_in 0x00 0x7F c then Some (0, 0, 0)
     else if byte_in 0xC2 0xDF c then Some (1, 0x80, 0xBF)
     else if byte_in 0xE0 0xE0 c then Some (2, 0xA0, 0xBF)
     else if byte_in 0xED 0xED c then Some (2, 0x80, 0x9F)
     else if byte_in 0xE1 0xEF c then Some (2, 0x80, 0xBF)
     else if byte_in 0xF0 0xF0 c then Some (3, 0x90, 0xBF)
     else if byte_in 0xF1 0xF3 c then Some (3, 0x80, 0xBF)
     else if byte_in 0xF4 0xF4 c then Some (3, 0x80, 0x8F)
     else None)"

fun continuations :: "nat \<Rightarrow> nat \<Rightarrow> nat \<Rightarrow> string \<Rightarrow> nat" where
  "continuations 0 lo hi s = 0"
| "continuations (Suc n) lo hi [] = 0"
| "continuations (Suc n) lo hi (c # cs) =
    (if byte_in lo hi c then Suc (continuations n 0x80 0xBF cs) else 0)"

definition utf8_piece :: "char \<Rightarrow> string \<Rightarrow> nat \<times> bool" where
  "utf8_piece c cs =
    (case utf8_lead c of
       None \<Rightarrow> (1, False)
     | Some (n, lo, hi) \<Rightarrow> let k = continuations n lo hi cs in (Suc k, k = n))"

lemma continuations_le: "continuations n lo hi s \<le> n \<and> continuations n lo hi s \<le> length s"
  by (induction n lo hi s rule: continuations.induct) auto

function from_utf8_lossy :: "string \<Rightarrow> string" where
  "from_utf8_lossy [] = []"
| "from_utf8_lossy (c # cs) =
    (let (k, valid) = utf8_piece c cs
     in (if valid then take k (c # cs) else replacement) @ from_utf8_lossy (drop (k - 1) cs))"
  by pat_completeness auto
termination
  by (relation "measure length") auto

declare from_utf8_lossy.simps(2) [simp del]

lemma utf8_piece_le: "fst (utf8_piece c cs) \<le> Suc (length cs) \<and> 1 \<le> fst (utf8_piece c cs)"
  using continuations_le by (auto simp: utf8_piece_def Let_def split: option.split)

lemma from_utf8_lossy_length: "length (from_utf8_lossy s) \<le> 3 * length s"
proof (induction s rule: from_utf8_lossy.induct)
  case 1
  then show ?case by simp
next
  case (2 c cs)
  obtain k valid where p: "utf8_piece c cs = (k, valid)" by (cases "utf8_piece c cs")
  with utf8_piece_le [of c cs] have k: "1 \<le> k" "k \<le> Suc (length cs)" by simp_all
  from "2.IH" [OF p [symmetric] refl]
  have ih: "length (from_utf8_lossy (drop (k - 1) cs)) \<le> 3 * (length cs - (k - 1))" by simp
  have "length (if valid then take k (c # cs) else replacement) \<le> 3 * k"
    using k by (simp add: replacement_def)
  with ih k show ?case by (simp add: from_utf8_lossy.simps(2) p)
qed

lemma from_utf8_lossy_ascii: "\<forall>c \<in> set s. byte_in 0 0x7F c \<Longrightarrow> from_utf8_lossy s = s"
  by (induction s) (auto simp: from_utf8_lossy.simps(2) utf8_piece_def utf8_lead_def)

section \<open>The tail of a log\<close>

definition DEFAULT_LOG_TAIL_BYTES :: nat where "DEFAULT_LOG_TAIL_BYTES = 1024 * 1024"

text \<open>The tail read of an unchanging file.\<close>

definition read_log_tail :: "file_view \<Rightarrow> nat option \<Rightarrow> string" where
  "read_log_tail f tail =
    (case f of
       Readable s \<Rightarrow>
         (case tail of
            Some 0 \<Rightarrow> []
          | _ \<Rightarrow>
              let want_bytes = (case tail of Some n \<Rightarrow> n | None \<Rightarrow> DEFAULT_LOG_TAIL_BYTES);
                  start = length s - want_bytes
              in from_utf8_lossy (take want_bytes (drop start s)))
     | _ \<Rightarrow> [])"

text \<open>
  A log request is answered in bounded memory whatever the size of the log: the decoded tail has
  at most three bytes for each byte asked for, with one megabyte asked for by default.
\<close>
theorem log_tail_is_bounded:
  "length (read_log_tail f tail) \<le> 3 * (case tail of Some n \<Rightarrow> n | None \<Rightarrow> 1048576)"
proof (cases f)
  case (Readable s)
  have bound: "length (from_utf8_lossy (drop (length s - n) s)) \<le> 3 * n" for n
    using from_utf8_lossy_length [of "drop (length s - n) s"] by simp
  show ?thesis
  proof (cases tail)
    case None
    with Readable bound [of 1048576] show ?thesis
      by (simp add: read_log_tail_def Let_def DEFAULT_LOG_TAIL_BYTES_def)
  next
    case (Some n)
    with Readable bound [of n] show ?thesis by (cases n) (simp_all add: read_log_tail_def Let_def)
  qed
qed (simp_all add: read_log_tail_def)

section \<open>Following a log\<close>

text \<open>
  The offset up to which the file was read, and the bytes of an unfinished line. One tick sees the
  file as it is then; its result is the bytes of the chunk to send, if any (the code sends their
  lossy decoding). The file does not change while one tick reads it.
\<close>

record follow_state =
  fs_offset :: nat
  fs_pending :: string

definition after_last_newline :: "string \<Rightarrow> string \<times> string" where
  "after_last_newline buf =
    (let tl = rev (takeWhile (\<lambda>c. c \<noteq> CHR 0x0A) (rev buf))
     in (take (length buf - length tl) buf, tl))"

definition follow_tick :: "file_view \<Rightarrow> follow_state \<Rightarrow> string option \<times> follow_state" where
  "follow_tick f st =
    (case f of
       Absent \<Rightarrow> (None, st)
     | NoOpen _ \<Rightarrow> (None, st)
     | _ \<Rightarrow>
         (case file_size f of
            None \<Rightarrow> (None, st)
          | Some file_len \<Rightarrow>
              let st1 = (if file_len < fs_offset st then \<lparr>fs_offset = 0, fs_pending = []\<rparr> else st)
              in if file_len = fs_offset st1 then (None, st1)
                 else (case f of
                         Readable s \<Rightarrow>
                           let buf = fs_pending st1 @ drop (fs_offset st1) s;
                               (complete, rest) = after_last_newline buf
                           in ((if complete = [] then None else Some complete),
                               \<lparr>fs_offset = file_len, fs_pending = rest\<rparr>)
                       | _ \<Rightarrow> (None, st1))))"

text \<open>The chunks of a sequence of ticks, and the state after them.\<close>

fun follow :: "file_view list \<Rightarrow> follow_state \<Rightarrow> string list \<times> follow_state" where
  "follow [] st = ([], st)"
| "follow (f # fs) st =
    (let (chunk, st1) = follow_tick f st; (chunks, st2) = follow fs st1
     in ((case chunk of None \<Rightarrow> chunks | Some x \<Rightarrow> x # chunks), st2))"

lemma after_last_newline_split:
  assumes "after_last_newline buf = (complete, rest)"
  shows "complete @ rest = buf" and "CHR 0x0A \<notin> set rest"
    and "complete = [] \<or> last complete = CHR 0x0A"
proof -
  define tl where "tl = takeWhile (\<lambda>c. c \<noteq> CHR 0x0A) (rev buf)"
  define hd' where "hd' = dropWhile (\<lambda>c. c \<noteq> CHR 0x0A) (rev buf)"
  have "rev buf = tl @ hd'" unfolding tl_def hd'_def by simp
  then have buf: "buf = rev hd' @ rev tl" by (metis rev_append rev_rev_ident)
  have r: "rest = rev tl" and "complete = take (length buf - length tl) buf"
    using assms unfolding after_last_newline_def Let_def tl_def by simp_all
  moreover have "length buf - length tl = length (rev hd')"
    unfolding buf by simp
  ultimately have c: "complete = rev hd'" using buf by (metis append_eq_conv_conj)
  show "complete @ rest = buf" by (simp add: c r buf)
  show "CHR 0x0A \<notin> set rest" unfolding r tl_def by (auto dest: set_takeWhileD)
  show "complete = [] \<or> last complete = CHR 0x0A"
    unfolding c hd'_def using hd_dropWhile [of "\<lambda>c. c \<noteq> CHR 0x0A" "rev buf"]
    by (auto simp: last_rev)
qed

text \<open>The log only grows: each view of it extends what was there, or cannot be read.\<close>

fun grows :: "string \<Rightarrow> file_view list \<Rightarrow> bool" where
  "grows s [] = True"
| "grows s (Readable t # fs) = (prefix s t \<and> grows t fs)"
| "grows s (NoRead n # fs) = (length s \<le> n \<and> grows s fs)"
| "grows s (_ # fs) = grows s fs"

fun final :: "string \<Rightarrow> file_view list \<Rightarrow> string" where
  "final s [] = s"
| "final s (Readable t # fs) = final t fs"
| "final s (_ # fs) = final s fs"

lemma follow_tick_grows:
  assumes "prefix s t" and "fs_offset st = length s"
  shows "\<exists>chunk st'. follow_tick (Readable t) st = (chunk, st') \<and> fs_offset st' = length t
    \<and> (case chunk of None \<Rightarrow> [] | Some x \<Rightarrow> x) @ fs_pending st' = fs_pending st @ drop (length s) t
    \<and> (\<forall>x. chunk = Some x \<longrightarrow> last x = CHR 0x0A \<and> x \<noteq> [])"
proof (cases "length t = length s")
  case True
  with assms show ?thesis by (simp add: follow_tick_def)
next
  case False
  with assms have len: "length s < length t" by (auto simp: prefix_def)
  obtain complete rest where sp: "after_last_newline (fs_pending st @ drop (length s) t) = (complete, rest)"
    by fastforce
  from after_last_newline_split [OF sp] len assms sp show ?thesis
    by (auto simp: follow_tick_def Let_def)
qed

text \<open>
  C17: following loses and repeats nothing. While the log only grows, and however the ticks fall
  and reads fail, the chunks sent so far and the buffered unfinished line are together exactly the
  bytes appended since the start, and every chunk ends with a line feed.
\<close>
theorem follow_is_lossless:
  assumes "grows s fs" and "follow fs \<lparr>fs_offset = length s, fs_pending = p\<rparr> = (chunks, st)"
  shows "concat chunks @ fs_pending st = p @ drop (length s) (final s fs)
    \<and> fs_offset st = length (final s fs)
    \<and> (\<forall>x \<in> set chunks. x \<noteq> [] \<and> last x = CHR 0x0A)"
  using assms
proof (induction fs arbitrary: s p chunks st)
  case Nil
  then show ?case by auto
next
  case (Cons f fs)
  show ?case
  proof (cases f)
    case (Readable t)
    with Cons.prems have pre: "prefix s t" and gr: "grows t fs" by simp_all
    obtain chunk st1 where tick: "follow_tick (Readable t) \<lparr>fs_offset = length s, fs_pending = p\<rparr> = (chunk, st1)"
      and st1: "fs_offset st1 = length t"
      and app: "(case chunk of None \<Rightarrow> [] | Some x \<Rightarrow> x) @ fs_pending st1 = p @ drop (length s) t"
      and nl: "\<forall>x. chunk = Some x \<longrightarrow> last x = CHR 0x0A \<and> x \<noteq> []"
      using follow_tick_grows [OF pre, of "\<lparr>fs_offset = length s, fs_pending = p\<rparr>"] by auto
    obtain chunks2 st2 where rest: "follow fs st1 = (chunks2, st2)" by fastforce
    have "st1 = \<lparr>fs_offset = length t, fs_pending = fs_pending st1\<rparr>" using st1 by simp
    with Cons.IH [OF gr, of "fs_pending st1" chunks2 st2] rest
    have ih: "concat chunks2 @ fs_pending st2 = fs_pending st1 @ drop (length t) (final t fs)"
      "fs_offset st2 = length (final t fs)" "\<forall>x \<in> set chunks2. x \<noteq> [] \<and> last x = CHR 0x0A"
      by auto
    have "prefix t (final t fs)" using gr
      by (induction t fs rule: grows.induct) (auto intro: prefix_order.trans)
    then have tail: "drop (length s) t @ drop (length t) (final t fs) = drop (length s) (final t fs)"
      using pre by (auto simp: prefix_def)
    from Cons.prems(2) Readable tick rest
    have res: "chunks = (case chunk of None \<Rightarrow> chunks2 | Some x \<Rightarrow> x # chunks2)" "st = st2" by auto
    have "concat chunks @ fs_pending st = (case chunk of None \<Rightarrow> [] | Some x \<Rightarrow> x) @ (concat chunks2 @ fs_pending st2)"
      unfolding res by (cases chunk) simp_all
    also have "\<dots> = ((case chunk of None \<Rightarrow> [] | Some x \<Rightarrow> x) @ fs_pending st1) @ drop (length t) (final t fs)"
      unfolding ih(1) by simp
    also have "\<dots> = p @ drop (length s) (final t fs)" unfolding app by (simp add: tail)
    finally show ?thesis using Readable ih res nl by (auto split: option.split_asm)
  next
    case (NoRead n)
    with Cons show ?thesis by (fastforce simp: follow_tick_def Let_def split: if_splits)
  qed (use Cons in \<open>simp_all add: follow_tick_def split: prod.splits\<close>)
qed

theorem follow_is_lossless_witness:
  "let (chunks, st) = follow [Readable ''ab'', NoOpen 3, Readable (''abc'' @ [CHR 0x0A] @ ''d'')]
         \<lparr>fs_offset = 1, fs_pending = []\<rparr>
   in concat chunks @ fs_pending st = ''bc'' @ [CHR 0x0A] @ ''d''"
proof -
  have "grows ''a'' [Readable ''ab'', NoOpen 3, Readable (''abc'' @ [CHR 0x0A] @ ''d'')]" by simp
  moreover obtain chunks st where f: "follow [Readable ''ab'', NoOpen 3, Readable (''abc'' @ [CHR 0x0A] @ ''d'')]
      \<lparr>fs_offset = length ''a'', fs_pending = []\<rparr> = (chunks, st)"
    by fastforce
  ultimately have "concat chunks @ fs_pending st = ''bc'' @ [CHR 0x0A] @ ''d''"
    using follow_is_lossless by fastforce
  with f show ?thesis by simp
qed

end
