(* ===== verification/Server.thy ===== *)
theory Server
  imports Executor Protocol Log_Stream
begin

text \<open>
  The request handlers of the daemon (\<open>daemon/server.rs\<close>): one definition per request, each the
  whole handler over the daemon's state, and the dispatcher. The packages \<open>cron\<close> and \<open>chrono\<close> are
  parameters; what the disk, tmux and the clock answer are arguments.
\<close>

section \<open>State, packages and outcomes\<close>

record server =
  sv_world :: world
  sv_schedules :: schedules
  sv_monitors :: "string list"
  sv_cancelled :: bool

text \<open>
  \<open>pk_cron_ok\<close> is whether \<open>cron::Schedule::from_str\<close> accepts the expression; \<open>pk_plus_secs\<close> adds a
  \<open>Duration::seconds\<close> to a time and is \<open>None\<close> where chrono panics (out of its range).
\<close>

record packages =
  pk_cron :: cron
  pk_cron_ok :: "string \<Rightarrow> bool"
  pk_plus_secs :: "utc \<Rightarrow> int \<Rightarrow> utc option"

record dispatch_io =
  di_new_id :: string
  di_now :: utc
  di_is_dir :: "path \<Rightarrow> bool"
  di_flush :: io_result
  di_save :: io_result
  di_spawn :: spawn_io
  di_stop :: stop_io
  di_drain :: spawn_io
  di_retry :: spawn_io
  di_log :: "path \<Rightarrow> file_view"
  di_home :: path
  di_waiting :: bool
  di_network :: string
  di_pid :: nat

section \<open>Error codes\<close>

definition classify_spawn_error :: "string \<Rightarrow> ErrorCode" where
  "classify_spawn_error e =
    (let msg = to_lowercase e in
     if str_contains ''locked'' msg \<or> str_contains ''already has an active run'' msg then RepoLocked
     else if str_contains ''plan file not found'' msg \<or> str_contains ''repository directory not found'' msg
       then InvalidRequest
     else InternalError)"

fun show_enqueue_error :: "enqueue_error \<Rightarrow> string" where
  "show_enqueue_error (QueueFullError n) = ''queue full: '' @ show_nat n @ '' pending runs''"
| "show_enqueue_error (PlanAlready verb plan) = ''plan already '' @ verb @ '' on this repo: '' @ plan"

definition classify_enqueue_error :: "string \<Rightarrow> ErrorCode" where
  "classify_enqueue_error msg =
    (if str_contains ''queue full'' msg then QueueFull
     else if str_contains ''plan already'' msg then InvalidRequest
     else InternalError)"

section \<open>Submitting\<close>

definition validate_config :: "env \<Rightarrow> (path \<Rightarrow> bool) \<Rightarrow> path option \<Rightarrow> string + path option" where
  "validate_config E is_dir config_dir =
    (case config_dir of
       None \<Rightarrow> Inr None
     | Some p \<Rightarrow> (case validate_config_dir E is_dir p of Inl m \<Rightarrow> Inl m | Inr c \<Rightarrow> Inr (Some c)))"

text \<open>The three checks \<open>SubmitRun\<close> and \<open>AddSchedule\<close> share.\<close>

definition validate_paths :: "env \<Rightarrow> (path \<Rightarrow> bool) \<Rightarrow> path \<Rightarrow> path \<Rightarrow> path option \<Rightarrow>
    Response + path \<times> path \<times> path option" where
  "validate_paths E is_dir plan_path repo_dir config_dir =
    (case validate_repo_dir E repo_dir of
       Inl m \<Rightarrow> Inl (ErrorResponse InvalidRequest (''invalid repo_dir: '' @ m))
     | Inr repo \<Rightarrow>
         (case validate_plan_path E plan_path repo of
            Inl m \<Rightarrow> Inl (ErrorResponse InvalidRequest (''invalid plan_path: '' @ m))
          | Inr plan \<Rightarrow>
              (case validate_config E is_dir config_dir of
                 Inl m \<Rightarrow> Inl (ErrorResponse InvalidRequest (''invalid config_dir: '' @ m))
               | Inr cfg \<Rightarrow> Inr (plan, repo, cfg))))"

definition at_capacity :: "nat \<Rightarrow> registry \<Rightarrow> bool" where
  "at_capacity max_concurrent_runs r \<longleftrightarrow>
    max_concurrent_runs > 0 \<and> count_running r \<ge> max_concurrent_runs"

definition set_registry :: "registry \<Rightarrow> server \<Rightarrow> server" where
  "set_registry r sv = sv\<lparr>sv_world := (sv_world sv)\<lparr>w_registry := r\<rparr>\<rparr>"

abbreviation sv_registry :: "server \<Rightarrow> registry" where
  "sv_registry sv \<equiv> w_registry (sv_world sv)"

definition handle_submit ::
  "env \<Rightarrow> dispatch_io \<Rightarrow> nat \<Rightarrow> path \<Rightarrow> path \<Rightarrow> string option \<Rightarrow> path option \<Rightarrow> nat \<Rightarrow> server \<Rightarrow>
    Response \<times> server" where
  "handle_submit E io cap plan_path repo_dir session_name config_dir verbose sv =
    (case validate_paths E (di_is_dir io) plan_path repo_dir config_dir of
       Inl resp \<Rightarrow> (resp, sv)
     | Inr (plan, repo, cfg) \<Rightarrow>
         let r = sv_registry sv in
         if has_repo_lock E r repo \<or> at_capacity cap r then
           let pending = \<lparr>pr_run_id = di_new_id io, pr_plan_path = plan, pr_repo_dir = repo,
                          pr_session_name = session_name, pr_config_dir = cfg, pr_verbose = verbose,
                          pr_queued_at = di_now io\<rparr>
           in (case enqueue_run_staged E pending r of
                 Inl e \<Rightarrow>
                   (ErrorResponse (classify_enqueue_error (show_enqueue_error e)) (show_enqueue_error e), sv)
               | Inr ((position, entry, snap), r1) \<Rightarrow>
                   (case di_flush io of
                      Some e \<Rightarrow>
                        (ErrorResponse InternalError ''queue flush failed; run not durably persisted'',
                         set_registry r1 sv)
                    | None \<Rightarrow> (RunQueued (di_new_id io) position, set_registry r1 sv)))
         else
           (case spawn_run E (di_spawn io) plan repo session_name cfg (sv_world sv) of
              (Inr run_id, w1) \<Rightarrow> (RunSubmitted run_id, sv\<lparr>sv_world := w1\<rparr>)
            | (Inl e, w1) \<Rightarrow> (ErrorResponse (classify_spawn_error e) e, sv\<lparr>sv_world := w1\<rparr>)))"

section \<open>Runs\<close>

definition handle_list_runs :: "dispatch_io \<Rightarrow> bool \<Rightarrow> server \<Rightarrow> Response" where
  "handle_list_runs io all sv =
    RunList (map (\<lambda>i. if di_waiting io \<and> ri_status i = Running then i\<lparr>ri_waiting_for_network := True\<rparr> else i)
      (list_runs (di_now io) all (sv_registry sv)))"

definition no_run :: "string \<Rightarrow> Response" where
  "no_run run_id = ErrorResponse RunNotFound (''no run matching prefix: '' @ run_id)"

definition log_path :: "path \<Rightarrow> string \<Rightarrow> bool \<Rightarrow> path" where
  "log_path home run_id pane =
    path_join (path_join (path_join (path_join home ''runs'') run_id) ''logs'')
      (if pane then ''pane.log'' else ''events.jsonl'')"

definition handle_get_logs :: "dispatch_io \<Rightarrow> string \<Rightarrow> nat option \<Rightarrow> bool \<Rightarrow> server \<Rightarrow> Response" where
  "handle_get_logs io run_id tail pane sv =
    (case find_by_prefix run_id (sv_registry sv) of
       None \<Rightarrow> no_run run_id
     | Some e \<Rightarrow>
         LogChunk (re_run_id e) (read_log_tail (di_log io (log_path (di_home io) (re_run_id e) pane)) tail))"

text \<open>A run that waits is taken out of its queue; any other goes to the executor.\<close>

definition handle_stop_run :: "env \<Rightarrow> dispatch_io \<Rightarrow> string \<Rightarrow> server \<Rightarrow> Response \<times> server" where
  "handle_stop_run E io run_id sv =
    (let r = sv_registry sv in
     case find_by_prefix run_id r of
       None \<Rightarrow> (no_run run_id, sv)
     | Some entry \<Rightarrow>
         let actual_id = re_run_id entry;
             is_queued = (case hm_get (reg_runs r) actual_id of Some e \<Rightarrow> re_status e = Queued | None \<Rightarrow> False);
             (dequeued, r1) = (if is_queued then dequeue_run_staged E (di_now io) actual_id r else (None, r))
         in (case dequeued of
               Some _ \<Rightarrow> (OkMessage (''removed from queue: '' @ actual_id), set_registry r1 sv)
             | None \<Rightarrow>
                 (case stop_run E (di_stop io) (di_drain io) (di_retry io) actual_id
                         (sv_monitors sv, (sv_world sv)\<lparr>w_registry := r1\<rparr>) of
                    (res, monitors1, w1) \<Rightarrow>
                      ((case res of
                          Inr _ \<Rightarrow> OkMessage (''run '' @ actual_id @ '' stopped'')
                        | Inl e \<Rightarrow> ErrorResponse InternalError e),
                       sv\<lparr>sv_monitors := monitors1, sv_world := w1\<rparr>))))"

definition handle_detach_run :: "env \<Rightarrow> dispatch_io \<Rightarrow> string \<Rightarrow> server \<Rightarrow> Response \<times> server" where
  "handle_detach_run E io run_id sv =
    (let r = sv_registry sv in
     case find_by_prefix run_id r of
       None \<Rightarrow> (no_run run_id, sv)
     | Some entry \<Rightarrow>
         let actual_id = re_run_id entry;
             sv1 = sv\<lparr>sv_monitors := removeAll actual_id (sv_monitors sv)\<rparr>
         in (case stage_status_locked E (di_now io) actual_id Stopped (Some ''detached'')
                    (Some (''detached by user '' @ em_dash @ '' tmux session kept alive'')) r of
               Inl e \<Rightarrow> (ErrorResponse InternalError (show_update_error e), sv1)
             | Inr (staged, r1) \<Rightarrow>
                 (OkMessage (''run '' @ actual_id @ '' detached (tmux session kept alive)''),
                  set_registry r1 sv1)))"

definition handle_status :: "dispatch_io \<Rightarrow> server \<Rightarrow> Response" where
  "handle_status io sv =
    OkMessage (''daemon running '' @ em_dash @ '' '' @ show_nat (count_runs False (sv_registry sv))
      @ '' active run(s), '' @ show_nat (count_runs True (sv_registry sv)) @ '' total, ''
      @ show_nat (count_active (sv_schedules sv)) @ '' schedule(s), network: '' @ di_network io
      @ '', pid '' @ show_nat (di_pid io))"

definition handle_shutdown :: "server \<Rightarrow> Response \<times> server" where
  "handle_shutdown sv =
    (let pending_count = total_pending_count (sv_registry sv) in
     (OkMessage (if pending_count > 0
        then ''shutting down '' @ em_dash @ '' '' @ show_nat pending_count @ '' queued plan(s) will be lost''
        else ''shutting down''),
      sv\<lparr>sv_cancelled := True\<rparr>))"

section \<open>Schedules\<close>

text \<open>\<open>delay_secs as i64\<close> reinterprets the bits. The outer \<open>None\<close> is a panic of the handler.\<close>

definition first_fire :: "packages \<Rightarrow> ScheduleKind \<Rightarrow> utc \<Rightarrow> utc option option" where
  "first_fire pk kind now =
    (case kind of
       Delayed delay_secs \<Rightarrow> map_option Some (pk_plus_secs pk now (sint delay_secs))
     | _ \<Rightarrow> Some (compute_next_fire (pk_cron pk) kind now))"

definition bad_cron :: "packages \<Rightarrow> ScheduleKind \<Rightarrow> string option" where
  "bad_cron pk kind =
    (case kind of Cron expression \<Rightarrow> if pk_cron_ok pk expression then None else Some expression | _ \<Rightarrow> None)"

definition handle_add_schedule ::
  "env \<Rightarrow> packages \<Rightarrow> dispatch_io \<Rightarrow> path \<Rightarrow> path \<Rightarrow> ScheduleKind \<Rightarrow> path option \<Rightarrow> nat \<Rightarrow> string option \<Rightarrow>
    server \<Rightarrow> Response option \<times> server" where
  "handle_add_schedule E pk io plan_path repo_dir kind config_dir verbose label sv =
    (case validate_paths E (di_is_dir io) plan_path repo_dir config_dir of
       Inl resp \<Rightarrow> (Some resp, sv)
     | Inr (plan, repo, cfg) \<Rightarrow>
         (case bad_cron pk kind of
            Some expression \<Rightarrow>
              (Some (ErrorResponse InvalidRequest (''invalid cron expression: '' @ expression)), sv)
          | None \<Rightarrow>
              (case first_fire pk kind (di_now io) of
                 None \<Rightarrow> (None, sv)
               | Some next_fire \<Rightarrow>
                   let entry = \<lparr>se_id = di_new_id io, se_plan_path = plan, se_repo_dir = repo,
                                se_config_dir = cfg, se_verbose = verbose, se_kind = kind,
                                se_status = Active, se_created_at = di_now io, se_last_fired = None,
                                se_next_fire = next_fire, se_fire_count = 0, se_label = label,
                                se_last_error = None\<rparr>
                   in (case add_schedule (di_save io) entry (sv_schedules sv) of
                         (Inr i, s1) \<Rightarrow> (Some (ScheduleAdded i next_fire), sv\<lparr>sv_schedules := s1\<rparr>)
                       | (Inl e, s1) \<Rightarrow> (Some (ErrorResponse InternalError e), sv\<lparr>sv_schedules := s1\<rparr>)))))"

text \<open>A delayed schedule's firing time is recomputed for display, and may panic there too.\<close>

definition schedule_entry_to_info :: "packages \<Rightarrow> schedule_entry \<Rightarrow> schedule_info option" where
  "schedule_entry_to_info pk e =
    map_option (\<lambda>kind.
      \<lparr>sc_id = se_id e, sc_plan_path = se_plan_path e, sc_repo_dir = se_repo_dir e, sc_kind = kind,
       sc_status = se_status e, sc_next_fire = se_next_fire e, sc_last_fired = se_last_fired e,
       sc_fire_count = se_fire_count e, sc_label = se_label e\<rparr>)
      (case se_kind e of
         Cron expression \<Rightarrow> Some (CronInfo expression)
       | OneShot at \<Rightarrow> Some (OneShotInfo at)
       | Delayed delay_secs \<Rightarrow> map_option DelayedInfo (pk_plus_secs pk (se_created_at e) (sint delay_secs)))"

definition handle_list_schedules :: "packages \<Rightarrow> server \<Rightarrow> Response option" where
  "handle_list_schedules pk sv =
    (let infos = map (schedule_entry_to_info pk) (hm_values (sv_schedules sv)) in
     if None \<in> set infos then None else Some (ScheduleList (map the infos)))"

text \<open>Remove, pause and resume find the schedule by a prefix of its id.\<close>

definition on_schedule :: "string \<Rightarrow> (string \<Rightarrow> schedules \<Rightarrow> (string + unit) \<times> schedules) \<Rightarrow> string \<Rightarrow> server \<Rightarrow>
    Response \<times> server" where
  "on_schedule i act done_text sv =
    (case find_schedule_by_prefix i (sv_schedules sv) of
       None \<Rightarrow> (ErrorResponse ScheduleNotFound (''no schedule matching: '' @ i), sv)
     | Some e \<Rightarrow>
         (case act (se_id e) (sv_schedules sv) of
            (Inr _, s1) \<Rightarrow> (OkMessage (''schedule '' @ se_id e @ done_text), sv\<lparr>sv_schedules := s1\<rparr>)
          | (Inl m, s1) \<Rightarrow> (ErrorResponse InternalError m, sv\<lparr>sv_schedules := s1\<rparr>)))"

section \<open>Queues\<close>

definition handle_remove_queued :: "env \<Rightarrow> dispatch_io \<Rightarrow> string \<Rightarrow> server \<Rightarrow> Response \<times> server" where
  "handle_remove_queued E io run_id sv =
    (case find_pending_by_prefix run_id (sv_registry sv) of
       None \<Rightarrow> (ErrorResponse RunNotFound (''no queued run matching prefix: '' @ run_id), sv)
     | Some (full_id, _) \<Rightarrow>
         let r1 = (case stage_status_locked E (di_now io) full_id Stopped None
                           (Some ''removed from queue by user'') (sv_registry sv) of
                     Inl _ \<Rightarrow> sv_registry sv
                   | Inr (_, r1) \<Rightarrow> r1);
             (snap, r2) = remove_pending_staged full_id r1
         in (OkMessage (''removed queued run '' @ full_id), set_registry r2 sv))"

definition handle_clear_queue :: "env \<Rightarrow> dispatch_io \<Rightarrow> path option \<Rightarrow> server \<Rightarrow> Response \<times> server" where
  "handle_clear_queue E io repo_dir sv =
    (case clear_queue_staged E (di_now io) repo_dir (sv_registry sv) of
       ((count, batch, snap), r1) \<Rightarrow>
         (OkMessage (''cleared '' @ show_nat count @ '' queued run(s)''), set_registry r1 sv))"

section \<open>Dispatch\<close>

text \<open>
  No response (\<open>None\<close>) means the handler panicked; the connection's task ends. A log request in
  follow mode does not get here; the theory \<open>Log_Stream\<close> models it.
\<close>

fun dispatch_request ::
  "env \<Rightarrow> packages \<Rightarrow> dispatch_io \<Rightarrow> nat \<Rightarrow> Request \<Rightarrow> server \<Rightarrow> Response option \<times> server" where
  "dispatch_request E pk io cap (SubmitRun plan repo sess cfg verbose) sv =
     apfst Some (handle_submit E io cap plan repo sess cfg verbose sv)"
| "dispatch_request E pk io cap (ListRuns all) sv = (Some (handle_list_runs io all sv), sv)"
| "dispatch_request E pk io cap (GetLogs run_id _ tail pane) sv =
     (Some (handle_get_logs io run_id tail pane sv), sv)"
| "dispatch_request E pk io cap (StopRun run_id) sv = apfst Some (handle_stop_run E io run_id sv)"
| "dispatch_request E pk io cap (DetachRun run_id) sv = apfst Some (handle_detach_run E io run_id sv)"
| "dispatch_request E pk io cap DaemonStatus sv = (Some (handle_status io sv), sv)"
| "dispatch_request E pk io cap Shutdown sv = apfst Some (handle_shutdown sv)"
| "dispatch_request E pk io cap (AddSchedule plan repo kind cfg verbose label) sv =
     handle_add_schedule E pk io plan repo kind cfg verbose label sv"
| "dispatch_request E pk io cap ListSchedules sv = (handle_list_schedules pk sv, sv)"
| "dispatch_request E pk io cap (RemoveSchedule i) sv =
     apfst Some (on_schedule i (remove_schedule (di_save io)) '' removed'' sv)"
| "dispatch_request E pk io cap (PauseSchedule i) sv =
     apfst Some (on_schedule i (pause_schedule (di_save io)) '' paused'' sv)"
| "dispatch_request E pk io cap (ResumeSchedule i) sv =
     apfst Some (on_schedule i (resume_schedule (pk_cron pk) (di_save io) (di_now io)) '' resumed'' sv)"
| "dispatch_request E pk io cap ListQueue sv = (Some (QueueList (list_queue E None (sv_registry sv))), sv)"
| "dispatch_request E pk io cap (RemoveQueued run_id) sv = apfst Some (handle_remove_queued E io run_id sv)"
| "dispatch_request E pk io cap (ClearQueueOf repo) sv = apfst Some (handle_clear_queue E io repo sv)"

end
