(* ===== verification/Server_Laws.thy ===== *)
theory Server_Laws
  imports Server
begin

text \<open>
  What the request handlers guarantee: they change the run registry only by its operations, new
  runs stay inside the repository they name, submissions respect the cap on running runs, and
  the exact state after detaching. The last section shows where an answer and the state disagree.
\<close>

section \<open>Requests as registry operations\<close>

lemma evolves_grows: "evolves E r r' \<Longrightarrow> runs_grow r r'"
proof -
  assume "evolves E r r'"
  then obtain ops where tr: "reg_trace E r ops r'" and no: "\<forall>m i. RemoveRun m i \<notin> set ops"
    by (auto simp: evolves_def)
  have "runs_grow r (apply_op E op r1)" if "op \<in> set ops" "op_fresh op r1" "runs_grow r r1" for op r1
    using that no by (metis runs_grow_trans apply_op_grows)
  with reg_trace_preserves [OF tr, of "runs_grow r"] show ?thesis by simp
qed

lemma evolves_inv: "evolves E r r' \<Longrightarrow> reg_inv E r \<Longrightarrow> reg_inv E r'"
  by (auto simp: evolves_def dest: reg_trace_inv)

lemma evolves_enqueue:
  assumes "enqueue_run_staged E p r = Inr (x, r')" and "hm_get (reg_runs r) (pr_run_id p) = None"
  shows "evolves E r r'"
proof -
  from assms(1) obtain y r1 where r1: "enqueue_run_without_snapshot E p r = Inr (y, r1)"
    and r': "r' = snd (stage_queue_locked r1)"
    by (auto simp: enqueue_run_staged_def split: sum.splits prod.splits)
  have "evolves E r r1" by (rule evolves_op [of "Enqueue p"]) (simp_all add: r1 assms(2))
  also have "evolves E r1 r'" by (rule evolves_op [of Snapshot]) (simp_all add: r')
  finally show ?thesis .
qed

lemma evolves_dequeue: "dequeue_run_staged E now i r = (x, r') \<Longrightarrow> evolves E r r'"
  by (rule evolves_op [of "Dequeue now i"]) simp_all

lemma evolves_clear: "clear_queue_staged E now f r = (x, r') \<Longrightarrow> evolves E r r'"
  by (rule evolves_op [of "ClearQueue now f"]) simp_all

lemma evolves_remove_pending: "remove_pending_staged i r = (x, r') \<Longrightarrow> evolves E r r'"
  by (rule evolves_op [of "RemovePending i"]) simp_all

lemma set_registry_sel [simp]: "sv_registry (set_registry r sv) = r"
  by (simp add: set_registry_def)

text \<open>The ids a request may introduce are new.\<close>

definition fresh_ids :: "dispatch_io \<Rightarrow> server \<Rightarrow> bool" where
  "fresh_ids io sv \<longleftrightarrow> hm_get (reg_runs (sv_registry sv)) (di_new_id io) = None
     \<and> hm_get (reg_runs (sv_registry sv)) (si_run_id (di_spawn io)) = None"

lemma submit_evolves:
  assumes "fresh_ids io sv"
  shows "evolves E (sv_registry sv) (sv_registry (snd (handle_submit E io cap pl d sn cd v sv)))"
proof (cases "validate_paths E (di_is_dir io) pl d cd")
  case (Inl resp)
  then show ?thesis by (simp add: handle_submit_def)
next
  case (Inr x)
  obtain plan repo cfg where x: "x = (plan, repo, cfg)" by (cases x)
  let ?r = "sv_registry sv"
  let ?p = "\<lparr>pr_run_id = di_new_id io, pr_plan_path = plan, pr_repo_dir = repo,
      pr_session_name = sn, pr_config_dir = cfg, pr_verbose = v, pr_queued_at = di_now io\<rparr>"
  show ?thesis
  proof (cases "has_repo_lock E ?r repo \<or> at_capacity cap ?r")
    case True
    show ?thesis
    proof (cases "enqueue_run_staged E ?p ?r")
      case (Inr y)
      obtain pos entry snap r1 where y: "y = ((pos, entry, snap), r1)" by (metis prod.exhaust)
      from Inr y assms have "evolves E ?r r1"
        by (intro evolves_enqueue [of E ?p ?r]) (simp_all add: fresh_ids_def)
      with Inr \<open>validate_paths E (di_is_dir io) pl d cd = Inr x\<close> x y True show ?thesis
        by (cases "di_flush io") (simp_all add: handle_submit_def Let_def)
    qed (use Inr x True in \<open>simp add: handle_submit_def Let_def\<close>)
  next
    case False
    obtain res w1 where sp: "spawn_run E (di_spawn io) plan repo sn cfg (sv_world sv) = (res, w1)" by fastforce
    with spawn_run_evolves [of "sv_world sv" "di_spawn io" E plan repo sn cfg] assms
    have "evolves E ?r (w_registry w1)" by (simp add: fresh_ids_def)
    with Inr x False sp show ?thesis
      by (cases res) (simp_all add: handle_submit_def Let_def)
  qed
qed

lemma stop_evolves:
  "evolves E (sv_registry sv) (sv_registry (snd (handle_stop_run E io i sv)))"
proof (cases "find_by_prefix i (sv_registry sv)")
  case None
  then show ?thesis by (simp add: handle_stop_run_def)
next
  case (Some entry)
  let ?r = "sv_registry sv" and ?id = "re_run_id entry"
  obtain dq r1 where dq: "(if (case hm_get (reg_runs ?r) ?id of Some e \<Rightarrow> re_status e = Queued | None \<Rightarrow> False)
      then dequeue_run_staged E (di_now io) ?id ?r else (None, ?r)) = (dq, r1)"
    by fastforce
  then have r1: "evolves E ?r r1" by (auto split: if_splits dest: evolves_dequeue)
  obtain res ms w1 where st: "stop_run E (di_stop io) (di_drain io) (di_retry io) ?id
      (sv_monitors sv, (sv_world sv)\<lparr>w_registry := r1\<rparr>) = (res, ms, w1)"
    by (metis prod.exhaust)
  have "evolves E r1 (w_registry w1)"
    using stop_run_evolves [of E "(sv_world sv)\<lparr>w_registry := r1\<rparr>" "di_stop io" "di_drain io" "di_retry io" ?id "sv_monitors sv"]
    by (simp add: st)
  with r1 Some dq st show ?thesis
    by (cases dq) (auto simp: handle_stop_run_def Let_def intro: evolves_trans)
qed

lemma detach_evolves: "evolves E (sv_registry sv) (sv_registry (snd (handle_detach_run E io i sv)))"
  by (auto simp: handle_detach_run_def Let_def split: option.split sum.split dest: evolves_stage)

lemma remove_queued_evolves:
  "evolves E (sv_registry sv) (sv_registry (snd (handle_remove_queued E io i sv)))"
proof -
  let ?r = "sv_registry sv"
  let ?r1 = "\<lambda>id. (case stage_status_locked E (di_now io) id Stopped None (Some ''removed from queue by user'') ?r of
      Inl _ \<Rightarrow> ?r | Inr (_, r1) \<Rightarrow> r1)"
  have "evolves E ?r (snd (remove_pending_staged id (?r1 id)))" for id
  proof -
    have "evolves E ?r (?r1 id)" by (auto split: sum.split dest: evolves_stage)
    also have "evolves E (?r1 id) (snd (remove_pending_staged id (?r1 id)))"
      by (rule evolves_remove_pending) (rule prod.collapse [symmetric])
    finally show ?thesis .
  qed
  then show ?thesis
    by (simp add: handle_remove_queued_def Let_def case_prod_beta split: option.split)
qed

lemma on_schedule_registry: "sv_world (snd (on_schedule i act t sv)) = sv_world sv"
  by (auto simp: on_schedule_def split: option.split prod.split sum.split)

lemma add_schedule_registry: "sv_world (snd (handle_add_schedule E pk io pl d k cd v l sv)) = sv_world sv"
  by (simp add: handle_add_schedule_def Let_def split: option.split prod.split sum.split)

lemma dispatch_evolves:
  assumes "fresh_ids io sv"
  shows "evolves E (sv_registry sv) (sv_registry (snd (dispatch_request E pk io cap req sv)))"
proof (cases req)
  case (ClearQueueOf f)
  obtain x r1 where "clear_queue_staged E (di_now io) f (sv_registry sv) = (x, r1)" by fastforce
  with evolves_clear [OF this] ClearQueueOf show ?thesis
    by (cases x) (auto simp: handle_clear_queue_def)
qed (simp_all add: submit_evolves [OF assms] stop_evolves detach_evolves remove_queued_evolves
    on_schedule_registry add_schedule_registry handle_shutdown_def Let_def)

text \<open>
  C14: every request, whatever the outside world answers, changes the run registry only by a
  sequence of its operations that removes no run. So the registry invariant (the queue cap, the
  filing of queues by repository, failure counts below the threshold, keyed runs) survives every
  request, and no run's status goes back to an earlier stage.
\<close>
theorem requests_preserve_registry:
  assumes "fresh_ids io sv"
  shows "evolves E (sv_registry sv) (sv_registry (snd (dispatch_request E pk io cap req sv)))
    \<and> (reg_inv E (sv_registry sv) \<longrightarrow> reg_inv E (sv_registry (snd (dispatch_request E pk io cap req sv))))
    \<and> runs_grow (sv_registry sv) (sv_registry (snd (dispatch_request E pk io cap req sv)))"
  using dispatch_evolves [OF assms] evolves_inv evolves_grows by blast

section \<open>Paths and capacity\<close>

text \<open>
  A start either leaves the runs alone or registers the one run and then changes only it.
\<close>

lemma spawn_run_registers:
  assumes "hm_get (reg_runs (w_registry w)) (si_run_id io) = None"
  shows "reg_runs (w_registry (snd (spawn_run E io pl d sn cd w))) = reg_runs (w_registry w)
    \<or> (others_kept (si_run_id io) (w_registry w) (w_registry (snd (spawn_run E io pl d sn cd w)))
       \<and> (\<exists>e. hm_get (reg_runs (w_registry (snd (spawn_run E io pl d sn cd w)))) (si_run_id io) = Some e
            \<and> re_plan_path e = pl \<and> re_repo_dir e = d))"
proof (cases "preflight_checks io pl d")
  case (Some m)
  then show ?thesis by (simp add: spawn_run_def)
next
  case None
  let ?i = "si_run_id io" and ?r = "w_registry w"
  let ?e = "fresh_entry ?i (si_now io) pl d sn cd None"
  show ?thesis
  proof (cases rule: register_cases [of E "si_lock io" "si_meta io" ?i "si_now io" pl d sn cd None ?r])
    case (locked m)
    with None show ?thesis by (simp add: spawn_run_def register_run_def)
  next
    case (not_written m)
    with None show ?thesis by (simp add: spawn_run_def register_run_def)
  next
    case registered
    let ?w1 = "w\<lparr>w_registry := ?r\<lparr>reg_repo_locks := hm_insert (repo_hash E d) LockFile (reg_repo_locks ?r),
        reg_runs := hm_insert ?i ?e (reg_runs ?r)\<rparr>\<rparr>"
    let ?r' = "w_registry (snd (spawn_after_register E io ?i ?w1))"
    have run: "spawn_run E io pl d sn cd w = spawn_after_register E io ?i ?w1"
      using None registered(3) by (simp add: spawn_run_def register_run_def)
    have e: "hm_get (reg_runs (w_registry ?w1)) ?i = Some ?e" "re_status ?e = Queued"
      "re_plan_path ?e = pl" "re_repo_dir ?e = d"
      by (simp_all add: fresh_entry_def)
    have "others_kept ?i ?r (w_registry ?w1)" by (simp add: others_kept_def)
    also have "others_kept ?i (w_registry ?w1) ?r'"
      using spawn_after_register_outcomes [OF e(1,2), of E io] by blast
    finally have "others_kept ?i ?r ?r'" .
    moreover have "runs_grow (w_registry ?w1) ?r'"
      by (rule evolves_grows) (rule spawn_after_register_evolves)
    with e have "\<exists>e'. hm_get (reg_runs ?r') ?i = Some e' \<and> re_plan_path e' = pl \<and> re_repo_dir e' = d"
      unfolding runs_grow_def run_grows_def by metis
    ultimately show ?thesis unfolding run by blast
  qed
qed

lemma validate_paths_Inr:
  "validate_paths E is_dir pl d cd = Inr (plan, repo, cfg) \<Longrightarrow>
    ''..'' \<notin> set (path_components d) \<and> ''..'' \<notin> set (path_components pl)
    \<and> env_canonicalize E d = Some repo \<and> env_canonicalize E pl = Some plan \<and> path_starts_with plan repo"
  by (auto simp: validate_paths_def validate_repo_dir_def split: sum.splits if_splits option.splits
      dest: validate_plan_path_inside)

text \<open>The two ways a submission that passed the checks changes the runs.\<close>

lemma submit_cases:
  assumes v: "validate_paths E (di_is_dir io) pl d cd = Inr (plan, repo, cfg)"
  obtains (refused) "snd (handle_submit E io cap pl d sn cd v sv) = sv"
  | (queued) p where "pr_run_id p = di_new_id io" "pr_plan_path p = plan" "pr_repo_dir p = repo"
      "reg_runs (sv_registry (snd (handle_submit E io cap pl d sn cd v sv)))
         = hm_insert (di_new_id io) (queued_entry p) (reg_runs (sv_registry sv))"
  | (spawned) "\<not> has_repo_lock E (sv_registry sv) repo" "\<not> at_capacity cap (sv_registry sv)"
      "sv_world (snd (handle_submit E io cap pl d sn cd v sv))
         = snd (spawn_run E (di_spawn io) plan repo sn cfg (sv_world sv))"
proof (cases "has_repo_lock E (sv_registry sv) repo \<or> at_capacity cap (sv_registry sv)")
  case True
  let ?r = "sv_registry sv"
  let ?p = "\<lparr>pr_run_id = di_new_id io, pr_plan_path = plan, pr_repo_dir = repo,
      pr_session_name = sn, pr_config_dir = cfg, pr_verbose = v, pr_queued_at = di_now io\<rparr>"
  show ?thesis
  proof (cases rule: enqueue_cases [of E ?p ?r])
    case (refused e)
    with v True show ?thesis
      by (intro that(1)) (simp add: handle_submit_def Let_def enqueue_run_staged_def)
  next
    case queued
    with v True show ?thesis
      by (intro that(2) [of ?p])
        (simp_all add: handle_submit_def Let_def enqueue_run_staged_def stage_queue_locked_def
          split: option.split)
  qed
next
  case False
  with v show ?thesis
    by (intro that(3)) (auto simp: handle_submit_def Let_def split: prod.split sum.split)
qed

text \<open>
  C15: a submitted plan stays inside its repository. Any run a submission adds, waiting or started,
  carries the canonical forms of the plan and the repository the client named; neither was
  written with a parent component, and the plan lies below the repository.
\<close>
theorem submitted_plan_is_inside_repo:
  assumes fresh: "fresh_ids io sv"
    and new: "hm_get (reg_runs (sv_registry (snd (handle_submit E io cap plan repo sess cfg verbose sv)))) i = Some e"
      "hm_get (reg_runs (sv_registry sv)) i = None"
  shows "''..'' \<notin> set (path_components plan) \<and> ''..'' \<notin> set (path_components repo)
    \<and> env_canonicalize E plan = Some (re_plan_path e) \<and> env_canonicalize E repo = Some (re_repo_dir e)
    \<and> path_starts_with (re_plan_path e) (re_repo_dir e)"
proof (cases "validate_paths E (di_is_dir io) plan repo cfg")
  case (Inl resp)
  with new show ?thesis by (simp add: handle_submit_def)
next
  case (Inr x)
  obtain p d c where x: "x = (p, d, c)" by (cases x)
  with Inr have v: "validate_paths E (di_is_dir io) plan repo cfg = Inr (p, d, c)" by simp
  note inside = validate_paths_Inr [OF v]
  have "re_plan_path e = p \<and> re_repo_dir e = d"
  proof (rule submit_cases [OF v, of cap sess verbose sv])
    assume "snd (handle_submit E io cap plan repo sess cfg verbose sv) = sv"
    with new show ?thesis by simp
  next
    fix q
    assume "pr_run_id q = di_new_id io" "pr_plan_path q = p" "pr_repo_dir q = d"
      "reg_runs (sv_registry (snd (handle_submit E io cap plan repo sess cfg verbose sv)))
         = hm_insert (di_new_id io) (queued_entry q) (reg_runs (sv_registry sv))"
    with new show ?thesis by (auto simp: queued_entry_def split: if_splits)
  next
    assume spawned: "sv_world (snd (handle_submit E io cap plan repo sess cfg verbose sv))
         = snd (spawn_run E (di_spawn io) p d sess c (sv_world sv))"
    have "hm_get (reg_runs (w_registry (sv_world sv))) (si_run_id (di_spawn io)) = None"
      using fresh by (simp add: fresh_ids_def)
    from spawn_run_registers [OF this, of E p d sess c] new spawned show ?thesis
      by (cases "i = si_run_id (di_spawn io)") (auto simp: others_kept_def)
  qed
  with inside show ?thesis by simp
qed

definition calm :: "spawn_io \<Rightarrow> dispatch_io" where
  "calm sp = \<lparr>di_new_id = ''n'', di_now = 5, di_is_dir = (\<lambda>p. True), di_flush = io_ok, di_save = io_ok,
     di_spawn = sp, di_stop = \<lparr>so_polls = [(0, False)], so_still_alive = False, so_kill = io_ok, so_now = 6, so_flush = io_ok\<rparr>,
     di_drain = sp, di_retry = sp, di_log = (\<lambda>p. Absent), di_home = ''/h'', di_waiting = False,
     di_network = ''online'', di_pid = 1\<rparr>"

definition busy_server :: server where
  "busy_server = snd (handle_submit plain_env (calm all_well) 4 ''/r/p.md'' ''/r'' None None 0
     \<lparr>sv_world = \<lparr>w_registry = registry_new, w_sessions = []\<rparr>, sv_schedules = [], sv_monitors = [''c''],
      sv_cancelled = False\<rparr>)"

text \<open>A second plan waits behind the running one.\<close>

definition queued_server :: server where
  "queued_server = snd (handle_submit plain_env (calm all_well) 4 ''/r/q.md'' ''/r'' None None 0 busy_server)"

theorem submitted_plan_is_inside_repo_witness:
  "\<exists>e. hm_get (reg_runs (sv_registry queued_server)) ''n'' = Some e \<and> path_starts_with (re_plan_path e) (re_repo_dir e)"
proof -
  have f: "fresh_ids (calm (all_well\<lparr>si_run_id := ''x''\<rparr>)) busy_server" by code_simp
  have s: "snd (handle_submit plain_env (calm (all_well\<lparr>si_run_id := ''x''\<rparr>)) 4 ''/r/q.md'' ''/r'' None None 0 busy_server) = queued_server"
    by code_simp
  have n: "hm_get (reg_runs (sv_registry busy_server)) ''n'' = None" by code_simp
  have "hm_get (reg_runs (sv_registry queued_server)) ''n'' \<noteq> None" by code_simp
  then obtain e where e: "hm_get (reg_runs (sv_registry queued_server)) ''n'' = Some e" by blast
  with submitted_plan_is_inside_repo [OF f, where E = plain_env and cap = 4 and plan = "''/r/q.md''" and repo = "''/r''"
      and sess = None and cfg = None and verbose = 0, unfolded s, OF e n] show ?thesis by blast
qed

theorem requests_preserve_registry_witness:
  "runs_grow (sv_registry busy_server)
    (sv_registry (snd (dispatch_request plain_env undefined (calm (all_well\<lparr>si_run_id := ''x''\<rparr>)) 4 (StopRun ''c'') busy_server)))"
proof -
  have "fresh_ids (calm (all_well\<lparr>si_run_id := ''x''\<rparr>)) busy_server" by code_simp
  from requests_preserve_registry [OF this] show ?thesis by blast
qed

lemma count_values:
  "hm_ok m \<Longrightarrow> length (filter P (hm_values m)) = card {k. \<exists>v. hm_get m k = Some v \<and> P v}"
proof -
  assume ok: "hm_ok m"
  let ?f = "filter (\<lambda>kv. P (snd kv)) m"
  have "distinct (map fst ?f)" using ok by (auto simp: hm_ok_def intro: distinct_map_filter)
  then have "card (set (map fst ?f)) = length ?f" by (metis distinct_card length_map)
  moreover have "set (map fst ?f) = {k. \<exists>v. hm_get m k = Some v \<and> P v}"
    using ok by (force simp: hm_ok_def map_of_eq_Some_iff)
  moreover have "length (filter P (hm_values m)) = length ?f" by (induction m) auto
  ultimately show ?thesis by simp
qed

lemma finite_values: "finite {k. \<exists>v. hm_get m k = Some v \<and> P v}"
  by (rule finite_subset [of _ "set (map fst m)"]) (force dest: map_of_SomeD)+

lemma count_running_card:
  "hm_ok (reg_runs r) \<Longrightarrow>
    count_running r = card {k. \<exists>v. hm_get (reg_runs r) k = Some v \<and> re_status v = Running}"
  unfolding count_running_def by (rule count_values)

lemma count_running_others:
  assumes "hm_ok (reg_runs r)" and "hm_ok (reg_runs r')" and "others_kept i r r'"
  shows "count_running r' \<le> Suc (count_running r)"
proof -
  let ?S = "\<lambda>r. {k. \<exists>v. hm_get (reg_runs r) k = Some v \<and> re_status v = Running}"
  have "?S r' \<subseteq> insert i (?S r)" using assms(3) by (auto simp: others_kept_def)
  then have "card (?S r') \<le> card (insert i (?S r))"
    by (intro card_mono) (simp_all add: finite_values)
  also have "\<dots> \<le> Suc (card (?S r))" by (simp add: card_insert_if finite_values)
  finally show ?thesis using assms(1,2) by (simp add: count_running_card)
qed



section \<open>Where the answer and the state disagree\<close>

text \<open>
  Detaching frees the repository and leaves its queue unserved. A successful detach marks the
  run stopped, cancels its monitor, frees the lock and keeps every tmux session; the queues stay as
  they are and nothing is started, unlike stopping, which drains them.
\<close>
theorem detach_leaves_the_queue:
  assumes "find_by_prefix run_id (sv_registry sv) = Some e" and "hm_get (reg_runs (sv_registry sv)) (re_run_id e) = Some e"
  shows "case handle_detach_run E io run_id sv of (resp, sv') \<Rightarrow>
    resp = OkMessage (''run '' @ re_run_id e @ '' detached (tmux session kept alive)'')
    \<and> re_run_id e \<notin> set (sv_monitors sv')
    \<and> (\<exists>e'. hm_get (reg_runs (sv_registry sv')) (re_run_id e) = Some e' \<and> re_status e' = Stopped)
    \<and> others_kept (re_run_id e) (sv_registry sv) (sv_registry sv')
    \<and> \<not> has_repo_lock E (sv_registry sv') (re_repo_dir e)
    \<and> w_sessions (sv_world sv') = w_sessions (sv_world sv)
    \<and> reg_pending_queues (sv_registry sv') = reg_pending_queues (sv_registry sv)"
proof -
  have "re_status e \<le> Stopped" by (cases "re_status e") (simp_all add: less_eq_RunStatus_def)
  with assms show ?thesis
    by (simp add: handle_detach_run_def Let_def stage_status_cases has_repo_lock_def others_kept_def set_registry_def)
qed

theorem detach_leaves_the_queue_witness:
  "let sv' = snd (handle_detach_run plain_env (calm all_well) ''c'' queued_server)
   in \<not> has_repo_lock plain_env (sv_registry sv') ''/r''
      \<and> map pr_run_id (pending_entries (sv_registry sv')) = [''n'']"
proof -
  obtain e where e: "find_by_prefix ''c'' (sv_registry queued_server) = Some e"
    and g: "hm_get (reg_runs (sv_registry queued_server)) (re_run_id e) = Some e" and d: "re_repo_dir e = ''/r''"
  proof -
    have "case find_by_prefix ''c'' (sv_registry queued_server) of None \<Rightarrow> False
      | Some e \<Rightarrow> hm_get (reg_runs (sv_registry queued_server)) (re_run_id e) = Some e \<and> re_repo_dir e = ''/r''"
      by code_simp
    then show ?thesis using that by (auto split: option.splits)
  qed
  have q: "map pr_run_id (concat (hm_values (reg_pending_queues (sv_registry queued_server)))) = [''n'']" by code_simp
  show ?thesis
    using detach_leaves_the_queue [OF e g, of plain_env "calm all_well"] q d
    by (simp add: Let_def pending_entries_def split: prod.splits)
qed

text \<open>
  A submission that is refused because the queue file could not be written is queued all the
  same: the client gets an error, and when the repository's run is stopped the refused run starts.
\<close>
theorem refused_submission_runs:
  "let (resp, sv1) = handle_submit plain_env ((calm all_well)\<lparr>di_flush := Some ''disk full''\<rparr>) 4
         ''/r/q.md'' ''/r'' None None 0 busy_server;
       sv2 = snd (handle_stop_run plain_env (calm all_well) ''c'' sv1)
   in resp = ErrorResponse InternalError ''queue flush failed; run not durably persisted''
      \<and> run_view (sv_registry sv2) ''n'' = Some (Running, ''/r'')"
  by code_simp

text \<open>
  Error codes are guessed from message texts that contain the client's paths. A plan
  below a directory called \<open>queue full\<close> that is submitted twice is reported as a full queue, and a
  missing plan below \<open>unlocked\<close> as a locked repository.
\<close>
theorem error_codes_follow_paths:
  "classify_enqueue_error (show_enqueue_error (PlanAlready ''queued'' ''/r/queue full/p.md'')) = QueueFull
   \<and> classify_enqueue_error (show_enqueue_error (PlanAlready ''queued'' ''/r/p.md'')) = InvalidRequest
   \<and> classify_spawn_error (''Plan file not found: /r/unlocked/p.md'') = RepoLocked
   \<and> classify_spawn_error (''Plan file not found: /r/p.md'') = InvalidRequest"
  by code_simp

text \<open>A delay of 2^64 - 1 seconds is reinterpreted as minus one second: the plan is due at once.\<close>

theorem huge_delay_is_due_at_once:
  "let pk = \<lparr>pk_cron = (\<lambda>_ _. None), pk_cron_ok = (\<lambda>_. True), pk_plus_secs = (\<lambda>t s. Some (t + s * 1000000000))\<rparr>;
       sv = snd (handle_add_schedule plain_env pk (calm all_well) ''/r/p.md'' ''/r'' (Delayed (- 1)) None 0 None busy_server)
   in map se_id (get_ready_schedules 5 (sv_schedules sv)) = [''n'']"
  by code_simp

end
