(* ===== verification/Crash_Loop.thy ===== *)
theory Crash_Loop
  imports GW_Prelude
begin

text \<open>
  Crash-loop detection (\<open>engine/crash_loop.rs\<close>): the sliding window, the per-phase budget and the
  ceiling on all restarts, healthy periods, and persistence. Times are nanoseconds; an \<open>Instant\<close>
  cannot go below \<open>instant_floor\<close> (platform dependent), and a \<open>SystemTime\<close> is given by its
  seconds since the epoch.
\<close>

type_synonym u32 = "32 word"

definition NANOS :: int where "NANOS = 1000000000"

definition DEFAULT_MAX_CRASHES_PER_PHASE :: u32 where "DEFAULT_MAX_CRASHES_PER_PHASE = 3"

datatype CrashLoopDecision = AllowRestart | StopCrashLoop

record detector =
  cl_crash_times :: "instant list"
  cl_max_crashes :: u32
  cl_window_secs :: nat
  cl_stability_secs :: nat
  cl_healthy_since :: "instant option"
  cl_total_restarts :: u32
  cl_max_total_restarts :: u32
  cl_per_phase_crashes :: "(string, u32) hash_map"
  cl_max_per_phase :: u32
  cl_last_crash_phase :: "string option"

definition MIN_STABILITY_SECS :: nat where "MIN_STABILITY_SECS = 60"

definition with_total_limit :: "u32 \<Rightarrow> nat \<Rightarrow> nat \<Rightarrow> u32 \<Rightarrow> detector" where
  "with_total_limit max_crashes window_secs stability_secs max_total =
     \<lparr>cl_crash_times = [], cl_max_crashes = max_crashes, cl_window_secs = window_secs,
      cl_stability_secs =
        (if stability_secs > 0 \<and> stability_secs < MIN_STABILITY_SECS then MIN_STABILITY_SECS
         else stability_secs),
      cl_healthy_since = None, cl_total_restarts = 0,
      cl_max_total_restarts = max max_total max_crashes,
      cl_per_phase_crashes = [], cl_max_per_phase = DEFAULT_MAX_CRASHES_PER_PHASE,
      cl_last_crash_phase = None\<rparr>"

text \<open>The product wraps in a release build.\<close>

definition detector_new :: "u32 \<Rightarrow> nat \<Rightarrow> nat \<Rightarrow> detector" where
  "detector_new max_crashes window_secs stability_secs =
     with_total_limit max_crashes window_secs stability_secs (max_crashes * 2)"

section \<open>Crashes\<close>

definition record_phase_transition :: "detector \<Rightarrow> detector" where
  "record_phase_transition d = d\<lparr>cl_per_phase_crashes := []\<rparr>"

definition crashes_for_phase :: "detector \<Rightarrow> string \<Rightarrow> u32" where
  "crashes_for_phase d p = (case hm_get (cl_per_phase_crashes d) p of Some n \<Rightarrow> n | None \<Rightarrow> 0)"

definition checked_sub :: "int \<Rightarrow> instant \<Rightarrow> int \<Rightarrow> instant option" where
  "checked_sub instant_floor t dur = (if t - dur < instant_floor then None else Some (t - dur))"

text \<open>The attribution of a crash to a phase; a change of phase gives fresh budgets.\<close>

definition attribute_crash :: "string option \<Rightarrow> detector \<Rightarrow> detector \<times> u32" where
  "attribute_crash phase d =
    (case phase of
       None \<Rightarrow> (d, 0)
     | Some name \<Rightarrow>
         let is_transition = (case cl_last_crash_phase d of Some prev \<Rightarrow> prev \<noteq> name | None \<Rightarrow> False);
             d1 = (if is_transition then record_phase_transition d else d);
             count = crashes_for_phase d1 name + 1
         in (d1\<lparr>cl_per_phase_crashes := hm_insert name count (cl_per_phase_crashes d1),
                cl_last_crash_phase := Some name\<rparr>, count))"

definition prune :: "int \<Rightarrow> instant \<Rightarrow> detector \<Rightarrow> detector" where
  "prune instant_floor now d =
    (let cutoff = (case checked_sub instant_floor now (int (cl_window_secs d) * NANOS) of
                     Some t \<Rightarrow> t | None \<Rightarrow> now)
     in d\<lparr>cl_crash_times := dropWhile (\<lambda>t. t < cutoff) (cl_crash_times d)\<rparr>)"

definition record_restart_for_phase ::
  "int \<Rightarrow> instant \<Rightarrow> string option \<Rightarrow> detector \<Rightarrow> CrashLoopDecision \<times> detector" where
  "record_restart_for_phase instant_floor now phase d =
    (let d1 = d\<lparr>cl_total_restarts := cl_total_restarts d + 1,
                cl_crash_times := cl_crash_times d @ [now],
                cl_healthy_since := None\<rparr>;
         (d2, phase_count) = attribute_crash phase d1
     in if cl_total_restarts d2 \<ge> cl_max_total_restarts d2 then (StopCrashLoop, d2)
        else if phase \<noteq> None \<and> cl_max_per_phase d2 > 0 \<and> phase_count > cl_max_per_phase d2
          then (StopCrashLoop, d2)
        else
          let d3 = prune instant_floor now d2
          in (if length (cl_crash_times d3) \<ge> unat (cl_max_crashes d3) then StopCrashLoop
              else AllowRestart, d3))"

definition record_restart :: "int \<Rightarrow> instant \<Rightarrow> detector \<Rightarrow> CrashLoopDecision \<times> detector" where
  "record_restart instant_floor now d = record_restart_for_phase instant_floor now None d"

section \<open>Healthy periods\<close>

definition forget_crashes :: "detector \<Rightarrow> detector" where
  "forget_crashes d = d\<lparr>cl_crash_times := [], cl_per_phase_crashes := [], cl_total_restarts := 0\<rparr>"

definition record_healthy_tick :: "instant \<Rightarrow> detector \<Rightarrow> detector" where
  "record_healthy_tick now d =
    (case cl_healthy_since d of
       None \<Rightarrow> d\<lparr>cl_healthy_since := Some now\<rparr>
     | Some since \<Rightarrow>
         if max 0 (now - since) \<ge> int (cl_stability_secs d) * NANOS
         then (forget_crashes d)\<lparr>cl_healthy_since := Some now\<rparr>
         else d)"

definition record_healthy_runtime :: "instant \<Rightarrow> nat \<Rightarrow> detector \<Rightarrow> detector" where
  "record_healthy_runtime now duration_secs d =
    (if duration_secs = 0 then d
     else if duration_secs \<ge> cl_stability_secs d
       then (forget_crashes d)\<lparr>cl_healthy_since := Some now\<rparr>
     else if cl_healthy_since d = None then d\<lparr>cl_healthy_since := Some now\<rparr>
     else d)"

section \<open>Persistence\<close>

record crash_history =
  ch_crash_epochs :: "nat list"
  ch_total_restarts :: u32
  ch_window_secs :: nat
  ch_last_healthy_epoch :: "nat option"
  ch_per_phase_crashes :: "(string, u32) hash_map"

text \<open>The age of an instant in whole seconds; \<open>duration_since\<close> saturates at zero.\<close>

definition age_secs :: "instant \<Rightarrow> instant \<Rightarrow> nat" where
  "age_secs now t = nat (max 0 (now - t) div NANOS)"

definition to_history :: "instant \<Rightarrow> nat \<Rightarrow> detector \<Rightarrow> crash_history" where
  "to_history now_instant now_epoch d =
     \<lparr>ch_crash_epochs = map (\<lambda>t. now_epoch - age_secs now_instant t) (cl_crash_times d),
      ch_total_restarts = cl_total_restarts d, ch_window_secs = cl_window_secs d,
      ch_last_healthy_epoch = map_option (\<lambda>t. now_epoch - age_secs now_instant t) (cl_healthy_since d),
      ch_per_phase_crashes = cl_per_phase_crashes d\<rparr>"

text \<open>
  \<open>persist\<close>: the serialised record is written to a temporary file and renamed; \<open>write_result\<close> is
  the outcome, and on failure the file keeps what it had.
\<close>

definition persist :: "(crash_history \<Rightarrow> string) \<Rightarrow> io_result \<Rightarrow> instant \<Rightarrow> nat \<Rightarrow> detector \<Rightarrow> file_view \<Rightarrow>
    (string + unit) \<times> file_view" where
  "persist to_json write_result now_instant now_epoch d f =
    (case write_result of
       Some e \<Rightarrow> (Inl e, f)
     | None \<Rightarrow> (Inr (), Readable (to_json (to_history now_instant now_epoch d))))"

text \<open>
  Loading a record. Subtracting a duration from an \<open>Instant\<close> panics below the floor (\<open>None\<close>).
\<close>

definition since_epoch :: "int \<Rightarrow> instant \<Rightarrow> nat \<Rightarrow> nat \<Rightarrow> instant option" where
  "since_epoch instant_floor now_instant now_epoch epoch =
     checked_sub instant_floor now_instant (int (now_epoch - epoch) * NANOS)"

definition load_record :: "int \<Rightarrow> instant \<Rightarrow> nat \<Rightarrow> crash_history \<Rightarrow> detector \<Rightarrow> detector option" where
  "load_record instant_floor now_instant now_epoch h d =
    (let restored = map (since_epoch instant_floor now_instant now_epoch)
                      (filter (\<lambda>e. now_epoch - e < cl_window_secs d) (ch_crash_epochs h));
         healthy = (case ch_last_healthy_epoch h of
                      Some e \<Rightarrow> if now_epoch - e < cl_stability_secs d
                                then Some (since_epoch instant_floor now_instant now_epoch e) else None
                    | None \<Rightarrow> None)
     in if None \<in> set restored \<or> healthy = Some None then None
        else Some (d\<lparr>cl_crash_times := cl_crash_times d @ map the restored,
                     cl_total_restarts := ch_total_restarts h,
                     cl_per_phase_crashes := ch_per_phase_crashes h,
                     cl_healthy_since :=
                       (case healthy of Some (Some t) \<Rightarrow> Some t | _ \<Rightarrow> cl_healthy_since d)\<rparr>))"

text \<open>A missing, unreadable or malformed file leaves the detector as it is.\<close>

definition load_history ::
  "(string \<Rightarrow> crash_history option) \<Rightarrow> int \<Rightarrow> instant \<Rightarrow> nat \<Rightarrow> file_view \<Rightarrow> detector \<Rightarrow> detector option" where
  "load_history parse instant_floor now_instant now_epoch f d =
    (case f of
       Readable s \<Rightarrow>
         (case parse s of
            None \<Rightarrow> Some d
          | Some h \<Rightarrow> load_record instant_floor now_instant now_epoch h d)
     | _ \<Rightarrow> Some d)"

section \<open>The decision against its specification\<close>

lemma dropWhile_sorted: "sorted ts \<Longrightarrow> dropWhile (\<lambda>t. t < c) ts = filter (\<lambda>t. c \<le> t) (ts :: int list)"
proof (induction ts)
  case (Cons t ts)
  then show ?case by (auto intro!: filter_True [symmetric])
qed simp

text \<open>The number of crashes of a phase counted with a new one: a change of phase starts over.\<close>

definition budget_used :: "detector \<Rightarrow> string \<Rightarrow> u32" where
  "budget_used d p =
    (if cl_last_crash_phase d = None \<or> cl_last_crash_phase d = Some p then crashes_for_phase d p + 1 else 1)"

lemma attribute_crash_keeps [simp]:
  "cl_total_restarts (fst (attribute_crash ph d)) = cl_total_restarts d"
  "cl_max_total_restarts (fst (attribute_crash ph d)) = cl_max_total_restarts d"
  "cl_max_per_phase (fst (attribute_crash ph d)) = cl_max_per_phase d"
  "cl_max_crashes (fst (attribute_crash ph d)) = cl_max_crashes d"
  "cl_window_secs (fst (attribute_crash ph d)) = cl_window_secs d"
  "cl_crash_times (fst (attribute_crash ph d)) = cl_crash_times d"
  by (simp_all add: attribute_crash_def record_phase_transition_def Let_def split: option.split)

lemma attribute_crash_count:
  "snd (attribute_crash (Some p) d) = budget_used d p"
  by (auto simp: attribute_crash_def budget_used_def record_phase_transition_def crashes_for_phase_def
      Let_def split: option.split)

lemma prune_keeps [simp]:
  "cl_total_restarts (prune f n d) = cl_total_restarts d"
  "cl_max_total_restarts (prune f n d) = cl_max_total_restarts d"
  "cl_max_crashes (prune f n d) = cl_max_crashes d"
  by (simp_all add: prune_def Let_def)

text \<open>
  C19: the decision after a crash is to stop exactly when the restarts reach their ceiling, or
  the phase has used more than its budget (a phase other than that of the last crash starts afresh),
  or the crashes no older than the window, this one included, reach the limit: the pruned queue counts
  what a scan of the whole history would.
\<close>
theorem crash_decision_exact:
  assumes sorted: "sorted (cl_crash_times d)" and past: "\<forall>t \<in> set (cl_crash_times d). t \<le> now"
    and floor: "instant_floor \<le> now - int (cl_window_secs d) * NANOS"
  shows "fst (record_restart_for_phase instant_floor now phase d) = StopCrashLoop \<longleftrightarrow>
    cl_total_restarts d + 1 \<ge> cl_max_total_restarts d
    \<or> (\<exists>p. phase = Some p \<and> cl_max_per_phase d > 0 \<and> budget_used d p > cl_max_per_phase d)
    \<or> length (filter (\<lambda>t. now - t \<le> int (cl_window_secs d) * NANOS) (cl_crash_times d @ [now]))
        \<ge> unat (cl_max_crashes d)"
proof -
  let ?d1 = "d\<lparr>cl_total_restarts := cl_total_restarts d + 1, cl_crash_times := cl_crash_times d @ [now],
                cl_healthy_since := None\<rparr>"
  obtain d2 c where ac: "attribute_crash phase ?d1 = (d2, c)" by fastforce
  have d2: "cl_total_restarts d2 = cl_total_restarts d + 1" "cl_max_total_restarts d2 = cl_max_total_restarts d"
    "cl_max_per_phase d2 = cl_max_per_phase d" "cl_max_crashes d2 = cl_max_crashes d"
    "cl_window_secs d2 = cl_window_secs d" "cl_crash_times d2 = cl_crash_times d @ [now]"
    using attribute_crash_keeps [of phase ?d1] by (simp_all add: ac)
  have c: "c = budget_used d p" if "phase = Some p" for p
    using attribute_crash_count [of p ?d1] that ac
    by (simp add: budget_used_def crashes_for_phase_def)
  have "sorted (cl_crash_times d @ [now])" using sorted past by (simp add: sorted_append)
  then have "cl_crash_times (prune instant_floor now d2)
      = filter (\<lambda>t. now - int (cl_window_secs d) * NANOS \<le> t) (cl_crash_times d @ [now])"
    using floor by (simp add: prune_def checked_sub_def d2 dropWhile_sorted del: filter_append)
  also have "\<dots> = filter (\<lambda>t. now - t \<le> int (cl_window_secs d) * NANOS) (cl_crash_times d @ [now])"
    by (rule filter_cong) auto
  finally have w: "cl_crash_times (prune instant_floor now d2)
      = filter (\<lambda>t. now - t \<le> int (cl_window_secs d) * NANOS) (cl_crash_times d @ [now])" .
  show ?thesis
    unfolding record_restart_for_phase_def Let_def ac prod.case
    by (cases phase) (auto simp: d2 w c simp del: filter_append)
qed

theorem crash_decision_exact_witness:
  "fst (record_restart_for_phase 0 2000000000000 (Some ''work'')
     ((with_total_limit 5 900 1800 20)\<lparr>cl_crash_times := [1000000000000, 1900000000000]\<rparr>)) \<noteq> StopCrashLoop"
proof -
  let ?d = "(with_total_limit 5 900 1800 20)\<lparr>cl_crash_times := [1000000000000, 1900000000000 :: int]\<rparr>"
  have s: "sorted (cl_crash_times ?d)" "\<forall>t \<in> set (cl_crash_times ?d). t \<le> (2000000000000 :: int)"
    "0 \<le> (2000000000000 :: int) - int (cl_window_secs ?d) * NANOS"
    by (simp_all add: with_total_limit_def NANOS_def)
  show ?thesis unfolding crash_decision_exact [OF s, of "Some ''work''"]
    by (simp add: with_total_limit_def NANOS_def budget_used_def crashes_for_phase_def
        DEFAULT_MAX_CRASHES_PER_PHASE_def max_def word_le_nat_alt)
qed

section \<open>Restarts come to an end\<close>

text \<open>The decisions of a sequence of crashes with their times and phases.\<close>

fun crashes :: "int \<Rightarrow> (instant \<times> string option) list \<Rightarrow> detector \<Rightarrow> CrashLoopDecision list" where
  "crashes instant_floor [] d = []"
| "crashes instant_floor ((now, phase) # evs) d =
    (let (x, d1) = record_restart_for_phase instant_floor now phase d in x # crashes instant_floor evs d1)"

lemma allowed_restart:
  assumes "record_restart_for_phase instant_floor now phase d = (AllowRestart, d')"
  shows "cl_total_restarts d' = cl_total_restarts d + 1" and "cl_max_total_restarts d' = cl_max_total_restarts d"
    and "cl_total_restarts d + 1 < cl_max_total_restarts d"
proof -
  let ?d1 = "d\<lparr>cl_total_restarts := cl_total_restarts d + 1, cl_crash_times := cl_crash_times d @ [now],
                cl_healthy_since := None\<rparr>"
  obtain d2 c where ac: "attribute_crash phase ?d1 = (d2, c)" by fastforce
  have d2: "cl_total_restarts d2 = cl_total_restarts d + 1" "cl_max_total_restarts d2 = cl_max_total_restarts d"
    using attribute_crash_keeps [of phase ?d1] by (simp_all add: ac)
  from assms show "cl_total_restarts d' = cl_total_restarts d + 1"
    "cl_max_total_restarts d' = cl_max_total_restarts d" "cl_total_restarts d + 1 < cl_max_total_restarts d"
    unfolding record_restart_for_phase_def Let_def ac prod.case
    by (auto simp: d2 not_le split: if_splits)
qed

lemma allowed_bound:
  "set (crashes instant_floor evs d) \<subseteq> {AllowRestart} \<Longrightarrow> evs \<noteq> [] \<Longrightarrow>
    cl_total_restarts d < cl_max_total_restarts d \<Longrightarrow>
    unat (cl_total_restarts d) + length evs < unat (cl_max_total_restarts d)"
proof (induction evs arbitrary: d)
  case Nil
  then show ?case by simp
next
  case (Cons ev evs)
  obtain now phase where ev: "ev = (now, phase)" by (cases ev)
  obtain x d1 where r: "record_restart_for_phase instant_floor now phase d = (x, d1)" by fastforce
  with Cons.prems(1) ev have "record_restart_for_phase instant_floor now phase d = (AllowRestart, d1)" by simp
  note al = allowed_restart [OF this]
  have up: "unat (cl_total_restarts d + 1) = Suc (unat (cl_total_restarts d))"
  proof -
    have "unat (cl_total_restarts d) < unat (cl_max_total_restarts d)"
      using Cons.prems(3) by (simp add: word_less_nat_alt)
    moreover have "unat (cl_max_total_restarts d) < 2 ^ 32" using unsigned_less [of "cl_max_total_restarts d", where 'a = nat] by simp
    ultimately have "Suc (unat (cl_total_restarts d)) < 2 ^ 32" by simp
    then show ?thesis by (simp add: unat_word_ariths)
  qed
  show ?case
  proof (cases "evs = []")
    case True
    with al(3) up show ?thesis by (simp add: word_less_nat_alt)
  next
    case False
    with Cons.IH [of d1] Cons.prems(1) ev r al up show ?thesis by simp
  qed
qed

text \<open>
  Restarts come to an end. A fresh detector allows fewer restarts than its ceiling on all
  restarts, whatever the phases of the crashes and however far apart they are, as long as
  no healthy period resets it: spacing crashes out of the window does not keep a run alive.
\<close>
theorem restarts_are_bounded:
  assumes "set (crashes instant_floor evs (with_total_limit m w s t)) \<subseteq> {AllowRestart}" and "0 < t"
  shows "length evs < unat (max t m)"
proof (cases "evs = []")
  case True
  have "0 < max t m" using assms(2) by (simp add: less_max_iff_disj)
  then have "0 < unat (max t m)" by (simp add: unat_gt_0 word_neq_0_conv)
  with True show ?thesis by simp
next
  case False
  have "0 < max t m" using assms(2) by (simp add: less_max_iff_disj)
  with allowed_bound [OF assms(1) False] show ?thesis by (simp add: with_total_limit_def)
qed

theorem restarts_are_bounded_witness:
  "length [(0, Some ''work''), (2000 * NANOS, None)] < unat (max 20 5 :: u32)"
  by (rule restarts_are_bounded [where instant_floor = "- 5000 * NANOS" and w = 900 and s = 1800])
    (simp_all add: record_restart_for_phase_def with_total_limit_def attribute_crash_def prune_def
      checked_sub_def NANOS_def crashes_for_phase_def DEFAULT_MAX_CRASHES_PER_PHASE_def word_le_nat_alt
      word_less_nat_alt max_def)

section \<open>History across restarts of the program\<close>

text \<open>An instant seen from a later moment, through whole seconds.\<close>

definition rounded :: "instant \<Rightarrow> instant \<Rightarrow> instant" where
  "rounded now t = now - int (age_secs now t) * NANOS"

lemma rounded_close: "t \<le> now \<Longrightarrow> t \<le> rounded now t \<and> rounded now t < t + NANOS \<and> rounded now t \<le> now"
proof -
  assume t: "t \<le> now"
  have "int (age_secs now t) = (now - t) div NANOS"
    using t by (simp add: age_secs_def NANOS_def pos_imp_zdiv_nonneg_iff)
  then have "rounded now t = now - (now - t) div NANOS * NANOS" by (simp add: rounded_def)
  also have "\<dots> = t + (now - t) mod NANOS" by (simp add: minus_div_mult_eq_mod [symmetric])
  finally show ?thesis using t pos_mod_bound [of NANOS "now - t"]
      zmod_le_nonneg_dividend [of "now - t" NANOS]
    by (auto simp: NANOS_def)
qed

text \<open>
  History survives a restart. Written at one moment and loaded by a fresh detector
  with the same window \<open>e\<close> seconds later, the counters and the phase budgets are as they were; the
  crashes kept are exactly those younger than the window by whole seconds, in order, each
  moved by less than a second. What is lost is the phase of the last crash.
\<close>
theorem history_survives_restart:
  assumes parse: "parse (to_json (to_history now n d)) = Some (to_history now n d)"
    and past: "\<forall>t \<in> set (cl_crash_times d). t \<le> now \<and> age_secs now t \<le> n"
    and healthy: "cl_healthy_since d = None"
    and floor: "instant_floor \<le> now + int e * NANOS - int (cl_window_secs d) * NANOS"
    and fresh: "d0 = with_total_limit (cl_max_crashes d) (cl_window_secs d) s m"
  shows "\<exists>d'. load_history parse instant_floor (now + int e * NANOS) (n + e)
             (snd (persist to_json io_ok now n d f)) d0 = Some d'
    \<and> cl_total_restarts d' = cl_total_restarts d \<and> cl_per_phase_crashes d' = cl_per_phase_crashes d
    \<and> cl_crash_times d' = map (rounded now) (filter (\<lambda>t. age_secs now t + e < cl_window_secs d) (cl_crash_times d))
    \<and> (\<forall>t \<in> set (cl_crash_times d). t \<le> rounded now t \<and> rounded now t < t + NANOS)
    \<and> cl_last_crash_phase d' = None"
proof -
  let ?now = "now + int e * NANOS"
  let ?keep = "\<lambda>t. age_secs now t + e < cl_window_secs d"
  have age: "n + e - (n - age_secs now t) = age_secs now t + e" if "t \<in> set (cl_crash_times d)" for t
    using past that by auto
  have restored: "since_epoch instant_floor ?now (n + e) (n - age_secs now t) = Some (rounded now t)"
    if "t \<in> set (cl_crash_times d)" "?keep t" for t
  proof -
    have "int (age_secs now t + e) * NANOS \<le> int (cl_window_secs d) * NANOS"
      using that(2) by (intro mult_right_mono) (simp_all add: NANOS_def)
    with floor age [OF that(1)] show ?thesis
      by (simp add: since_epoch_def checked_sub_def rounded_def algebra_simps)
  qed
  have kept: "filter (\<lambda>x. n + e - x < cl_window_secs d) (map (\<lambda>t. n - age_secs now t) (cl_crash_times d))
      = map (\<lambda>t. n - age_secs now t) (filter ?keep (cl_crash_times d))"
    unfolding filter_map comp_def by (rule arg_cong [where f = "map _"], rule filter_cong) (simp_all add: age)
  have times: "map (since_epoch instant_floor ?now (n + e))
        (map (\<lambda>t. n - age_secs now t) (filter ?keep (cl_crash_times d)))
      = map Some (map (rounded now) (filter ?keep (cl_crash_times d)))"
    by (simp add: restored)
  have win: "cl_window_secs d0 = cl_window_secs d" "cl_crash_times d0 = []" "cl_last_crash_phase d0 = None"
    by (simp_all add: fresh with_total_limit_def)
  have load: "load_history parse instant_floor ?now (n + e) (snd (persist to_json io_ok now n d f)) d0
      = Some (d0\<lparr>cl_crash_times := map (rounded now) (filter ?keep (cl_crash_times d)),
            cl_total_restarts := cl_total_restarts d, cl_per_phase_crashes := cl_per_phase_crashes d,
            cl_healthy_since := cl_healthy_since d0\<rparr>)"
  proof -
    have "load_history parse instant_floor ?now (n + e) (snd (persist to_json io_ok now n d f)) d0
        = load_record instant_floor ?now (n + e) (to_history now n d) d0"
      by (simp add: persist_def load_history_def parse)
    also have "\<dots> = (if None \<in> set (map Some (map (rounded now) (filter ?keep (cl_crash_times d)))) then None
        else Some (d0\<lparr>cl_crash_times := map the (map Some (map (rounded now) (filter ?keep (cl_crash_times d)))),
            cl_total_restarts := cl_total_restarts d, cl_per_phase_crashes := cl_per_phase_crashes d,
            cl_healthy_since := cl_healthy_since d0\<rparr>))"
      unfolding times [symmetric] kept [symmetric]
      by (simp add: load_record_def to_history_def win healthy)
    finally show ?thesis by (simp add: comp_def image_iff)
  qed
  show ?thesis unfolding load using rounded_close past win by auto
qed

theorem history_survives_restart_witness:
  "\<exists>d'. load_history (\<lambda>_. Some (to_history 5 0 ((with_total_limit 5 900 1800 20)\<lparr>cl_crash_times := [3]\<rparr>)))
          (- 2000 * NANOS) (5 + int 10 * NANOS) (0 + 10)
          (snd (persist (\<lambda>_. []) io_ok 5 0 ((with_total_limit 5 900 1800 20)\<lparr>cl_crash_times := [3]\<rparr>) Absent))
          (with_total_limit 5 900 1800 20) = Some d' \<and> length (cl_crash_times d') = 1"
proof -
  let ?d = "(with_total_limit 5 900 1800 20)\<lparr>cl_crash_times := [3 :: int]\<rparr>"
  have *: "\<forall>t \<in> set (cl_crash_times ?d). t \<le> 5 \<and> age_secs 5 t \<le> 0" "cl_healthy_since ?d = None"
    "- 2000 * NANOS \<le> 5 + int 10 * NANOS - int (cl_window_secs ?d) * NANOS"
    "with_total_limit 5 900 1800 20 = with_total_limit (cl_max_crashes ?d) (cl_window_secs ?d) 1800 20"
    by (simp_all add: with_total_limit_def age_secs_def NANOS_def)
  have "length (filter (\<lambda>t. age_secs 5 t + 10 < cl_window_secs ?d) (cl_crash_times ?d)) = 1"
    by (simp add: with_total_limit_def age_secs_def NANOS_def)
  with history_survives_restart [OF refl *, of "\<lambda>_. []" Absent] show ?thesis by auto
qed

text \<open>
  Since the phase of the last crash is not saved, a reload loses a change of phase. In one
  process a phase that crashed three times gets a fresh budget after another phase crashed; when
  the detector is reloaded from its history before each crash, as the daemon does, it is stopped.
\<close>
theorem reload_forgets_phase_change:
  "let limits = with_total_limit 10 900 1800 20;
       hist = foldl (\<lambda>d (now, p). snd (record_restart_for_phase (- 5000 * NANOS) now (Some p) d)) limits
                [(1, ''work''), (2, ''work''), (3, ''work'')];
       reload = (\<lambda>d. case load_record (- 5000 * NANOS) 4 100 (to_history 4 100 d) limits of Some d' \<Rightarrow> d' | None \<Rightarrow> d);
       other = snd (record_restart_for_phase (- 5000 * NANOS) 4 (Some ''test'') hist);
       other' = snd (record_restart_for_phase (- 5000 * NANOS) 4 (Some ''test'') (reload hist))
   in fst (record_restart_for_phase (- 5000 * NANOS) 5 (Some ''work'') other) = AllowRestart
      \<and> fst (record_restart_for_phase (- 5000 * NANOS) 5 (Some ''work'') (reload other')) = StopCrashLoop"
  by code_simp

end
