(* ===== verification/Retry.thy ===== *)
theory Retry
  imports GW_Prelude
begin

text \<open>
  Error evidence, error classes and retry decisions (\<open>engine/retry.rs\<close>). Durations are seconds,
  instants nanoseconds. The confidence score is kept in tenths: the code adds decimal fractions in
  floating point, and in each of the sums that can arise the comparison with 0.5 comes out as here.
\<close>

definition ERROR_STALL_THRESHOLD_SECS :: nat where "ERROR_STALL_THRESHOLD_SECS = 60"

datatype ErrorClass =
    Crash | Stuck | Timeout | ApiOverload | AuthError | NetworkError | PermissionBlocked
  | RequestTooLarge | BootstrapError

section \<open>Evidence\<close>

record error_evidence =
  ev_keyword_match :: "ErrorClass option"
  ev_screen_stall_secs :: nat
  ev_checkpoint_stale_secs :: "nat option"
  ev_process_alive :: bool
  ev_artifacts_active :: bool
  ev_swarm_active :: bool

text \<open>The score in tenths.\<close>

definition confidence :: "error_evidence \<Rightarrow> int" where
  "confidence e =
    (let s1 = (if ev_keyword_match e \<noteq> None then 2 else 0);
         s2 = s1 + (if ev_screen_stall_secs e \<ge> ERROR_STALL_THRESHOLD_SECS then 3 else 0);
         s3 = s2 + (case ev_checkpoint_stale_secs e of
                      Some stale \<Rightarrow> if stale \<ge> ERROR_STALL_THRESHOLD_SECS then 3 else - 2
                    | None \<Rightarrow> 0);
         s4 = s3 - (if ev_artifacts_active e then 2 else 0);
         s5 = s4 - (if ev_swarm_active e then 3 else 0);
         s6 = (if \<not> ev_process_alive e then max (s5 + 5) 5 else s5)
     in min 10 (max 0 s6))"

definition should_act :: "error_evidence \<Rightarrow> bool" where
  "should_act e \<longleftrightarrow>
    (if ev_keyword_match e = None \<and> ev_process_alive e then False else confidence e \<ge> 5)"

definition classify :: "error_evidence \<Rightarrow> ErrorClass option" where
  "classify e =
    (if \<not> should_act e then None
     else Some (case ev_keyword_match e of Some c \<Rightarrow> c | None \<Rightarrow> Crash))"

section \<open>Error classes\<close>

fun default_backoff :: "ErrorClass \<Rightarrow> nat" where
  "default_backoff Crash = 30"
| "default_backoff Stuck = 30"
| "default_backoff Timeout = 30"
| "default_backoff ApiOverload = 15 * 60"
| "default_backoff AuthError = 0"
| "default_backoff NetworkError = 30"
| "default_backoff PermissionBlocked = 30"
| "default_backoff RequestTooLarge = 0"
| "default_backoff BootstrapError = 0"

fun max_retries :: "ErrorClass \<Rightarrow> nat" where
  "max_retries Crash = 3"
| "max_retries Stuck = 2"
| "max_retries Timeout = 3"
| "max_retries ApiOverload = 4"
| "max_retries AuthError = 0"
| "max_retries NetworkError = 3"
| "max_retries PermissionBlocked = 2"
| "max_retries RequestTooLarge = 0"
| "max_retries BootstrapError = 0"

definition backoff_for_attempt :: "ErrorClass \<Rightarrow> nat \<Rightarrow> nat" where
  "backoff_for_attempt c attempt =
    (if c = ApiOverload then
       let minutes = [15, 30, 60, 120]; idx = min attempt (length minutes - 1)
       in (minutes ! idx) * 60
     else default_backoff c)"

definition skips_plan :: "ErrorClass \<Rightarrow> bool" where
  "skips_plan c \<longleftrightarrow> c = AuthError \<or> c = RequestTooLarge \<or> c = BootstrapError"

section \<open>Keywords in the pane\<close>

definition contains_any :: "string list \<Rightarrow> string \<Rightarrow> bool" where
  "contains_any ws s \<longleftrightarrow> list_ex (\<lambda>w. str_contains w s) ws"

definition last_lines :: "nat \<Rightarrow> string \<Rightarrow> string list" where
  "last_lines n s = rev (take n (rev (str_lines s)))"

definition error_line :: "string \<Rightarrow> bool" where
  "error_line line =
    (let trimmed = trim line in
     list_ex (\<lambda>w. prefix w trimmed)
       [''error:'', ''error '', ''fatal:'', ''fatal '', ''exception:'', ''exception '', ''failed'']
     \<or> str_contains cross_mark trimmed)"

text \<open>The simple patterns in their order of priority; the flag marks those skipped at run time.\<close>

definition simple_patterns :: "(bool \<times> ErrorClass \<times> string list) list" where
  "simple_patterns =
    [(False, AuthError,
      [''billing'', ''payment required'', ''payment_required'', ''insufficient funds'', ''subscription expired'']),
     (False, AuthError,
      [''authentication_error'', ''invalid_api_key'', ''invalid api key'', ''api key expired'',
       ''unauthorized'', ''token expired'', ''not authenticated'']),
     (False, PermissionBlocked,
      [''permission denied'', ''permission_error'', ''not permitted'', ''access denied'']),
     (True, BootstrapError, [''plan not found'', ''plan file not found'', ''plan does not exist'']),
     (True, BootstrapError, [''plugin not found'', ''plugin not installed'', ''skill not found'']),
     (False, NetworkError,
      [''connection_error'', ''network error'', ''connection refused'', ''connection reset'',
       ''connection timed out'', ''dns resolution failed'', ''econnrefused'', ''econnreset'', ''etimedout'']),
     (False, ApiOverload, [''overloaded_error'', ''overloaded'', ''api is overloaded'', ''server_error'']),
     (False, ApiOverload,
      [''rate_limit_error'', ''rate_limit'', ''rate limit'', ''rate-limit'', ''too many requests'']),
     (False, RequestTooLarge,
      [''request too large'', ''request_too_large'', ''payload too large'', ''content too long'']),
     (False, ApiOverload,
      [''bad gateway'', ''bad_gateway'', ''service unavailable'', ''service_unavailable''])]"

definition anchored_codes :: "(string \<times> string list \<times> ErrorClass) list" where
  "anchored_codes =
    [(''500'', [''api_error'', ''internal server error'', ''internal_server_error'', ''server error'',
                ''status code'', ''http error''], ApiOverload),
     (''429'', [''rate_limit'', ''rate limit'', ''too many requests'', ''status code'', ''http error''], ApiOverload),
     (''529'', [''overloaded'', ''overloaded_error'', ''status code'', ''http error''], ApiOverload),
     (''502'', [''bad gateway'', ''bad_gateway'', ''status code'', ''http error''], ApiOverload),
     (''503'', [''service unavailable'', ''service_unavailable'', ''status code'', ''http error''], ApiOverload),
     (''413'', [''request too large'', ''payload too large'', ''content too long'', ''status code'', ''http error''],
      RequestTooLarge)]"

definition from_pane_output :: "string \<Rightarrow> bool \<Rightarrow> ErrorClass option" where
  "from_pane_output out runtime =
    (let tail = to_lowercase (join_lines (last_lines 10 out)) in
     if \<not> list_ex error_line (str_lines tail) then None
     else case find (\<lambda>(boot, c, ws). \<not> (boot \<and> runtime) \<and> contains_any ws tail) simple_patterns of
       Some (_, c, _) \<Rightarrow> Some c
     | None \<Rightarrow>
         map_option (\<lambda>(_, _, c). c)
           (find (\<lambda>(code, anchors, c). str_contains code tail \<and> contains_any anchors tail) anchored_codes))"

section \<open>Retry state\<close>

datatype RetryDecision = RetryAfter nat | SkipPlan | Exhausted

record retry_state =
  rt_error_class :: ErrorClass
  rt_attempts :: nat
  rt_last_failure :: "instant option"
  rt_is_rapid_failure :: bool

definition retry_state_new :: "ErrorClass \<Rightarrow> retry_state" where
  "retry_state_new c =
     \<lparr>rt_error_class = c, rt_attempts = 0, rt_last_failure = None, rt_is_rapid_failure = False\<rparr>"

definition record_failure :: "instant \<Rightarrow> retry_state \<Rightarrow> retry_state" where
  "record_failure now s =
    (let s1 = s\<lparr>rt_attempts := rt_attempts s + 1, rt_last_failure := Some now\<rparr> in
     case rt_last_failure s of
       Some prev \<Rightarrow>
         if max 0 (now - prev) < 30 * 1000000000 \<and> rt_attempts s1 \<ge> 3
         then s1\<lparr>rt_is_rapid_failure := True\<rparr> else s1
     | None \<Rightarrow> s1)"

definition is_exhausted :: "retry_state \<Rightarrow> bool" where
  "is_exhausted s \<longleftrightarrow> rt_attempts s \<ge> max_retries (rt_error_class s)"

definition next_backoff :: "retry_state \<Rightarrow> nat" where
  "next_backoff s =
    (if rt_is_rapid_failure s then 180 else backoff_for_attempt (rt_error_class s) (rt_attempts s))"

record coordinator =
  co_states :: "(string, retry_state) hash_map"
  co_global_failure_count :: nat

definition coordinator_new :: coordinator where
  "coordinator_new = \<lparr>co_states = [], co_global_failure_count = 0\<rparr>"

definition should_retry :: "instant \<Rightarrow> string \<Rightarrow> ErrorClass \<Rightarrow> coordinator \<Rightarrow> RetryDecision \<times> coordinator" where
  "should_retry now grp c co =
    (if skips_plan c then (SkipPlan, co)
     else
       let s = (case hm_get (co_states co) grp of Some s \<Rightarrow> s | None \<Rightarrow> retry_state_new c);
           s1 = s\<lparr>rt_error_class := c\<rparr>
       in if is_exhausted s1 then (Exhausted, co\<lparr>co_states := hm_insert grp s1 (co_states co)\<rparr>)
          else let s2 = record_failure now s1
               in (RetryAfter (next_backoff s2),
                   co\<lparr>co_states := hm_insert grp s2 (co_states co),
                      co_global_failure_count := co_global_failure_count co + 1\<rparr>))"

definition reset_group :: "string \<Rightarrow> coordinator \<Rightarrow> coordinator" where
  "reset_group grp co = co\<lparr>co_states := hm_remove grp (co_states co)\<rparr>"

definition retry_count :: "string \<Rightarrow> coordinator \<Rightarrow> nat" where
  "retry_count grp co = (case hm_get (co_states co) grp of Some s \<Rightarrow> rt_attempts s | None \<Rightarrow> 0)"

definition is_rapid_failure_pattern :: "coordinator \<Rightarrow> bool" where
  "is_rapid_failure_pattern co \<longleftrightarrow> list_ex rt_is_rapid_failure (hm_values (co_states co))"

definition current_backoff :: "string \<Rightarrow> coordinator \<Rightarrow> nat option" where
  "current_backoff grp co = map_option next_backoff (hm_get (co_states co) grp)"

section \<open>When evidence is acted on\<close>

text \<open>
  When an error is acted on. A dead process always is. A live one is only when a keyword
  matched and nothing shows progress that outweighs it: without a checkpoint the screen must be
  stalled and neither artifacts nor teammates active; with a stale checkpoint either nothing is active,
  or the screen is stalled too and artifacts and teammates are not both active; with a fresh
  checkpoint it never is. The class is the keyword's, or a crash.
\<close>
theorem classify_exact:
  "classify e =
    (let stall = ev_screen_stall_secs e \<ge> 60; art = ev_artifacts_active e; swarm = ev_swarm_active e in
     if \<not> ev_process_alive e then Some (case ev_keyword_match e of Some c \<Rightarrow> c | None \<Rightarrow> Crash)
     else case ev_keyword_match e of
       None \<Rightarrow> None
     | Some c \<Rightarrow>
         if (case ev_checkpoint_stale_secs e of
               None \<Rightarrow> stall \<and> \<not> art \<and> \<not> swarm
             | Some stale \<Rightarrow> stale \<ge> 60 \<and> ((\<not> art \<and> \<not> swarm) \<or> (stall \<and> \<not> (art \<and> swarm))))
         then Some c else None)"
  by (cases "ev_keyword_match e"; cases "ev_checkpoint_stale_secs e"; cases "ev_process_alive e")
    (auto simp: classify_def should_act_def confidence_def ERROR_STALL_THRESHOLD_SECS_def Let_def)

section \<open>Retries come to an end\<close>

text \<open>The decisions of a sequence of failures of one group, each with its time and class.\<close>

fun retries :: "string \<Rightarrow> (instant \<times> ErrorClass) list \<Rightarrow> coordinator \<Rightarrow> RetryDecision list" where
  "retries grp [] co = []"
| "retries grp ((now, c) # fs) co =
    (let (x, co1) = should_retry now grp c co in x # retries grp fs co1)"

definition granted :: "RetryDecision list \<Rightarrow> nat" where
  "granted ds = length (filter (\<lambda>d. d \<noteq> SkipPlan \<and> d \<noteq> Exhausted) ds)"

lemma should_retry_cases:
  obtains (skip) "skips_plan c" "should_retry now g c co = (SkipPlan, co)"
  | (exhausted) "\<not> skips_plan c" "retry_count g co \<ge> max_retries c"
      "fst (should_retry now g c co) = Exhausted"
      "retry_count g (snd (should_retry now g c co)) = retry_count g co"
  | (granted) n where "\<not> skips_plan c" "retry_count g co < max_retries c"
      "fst (should_retry now g c co) = RetryAfter n"
      "retry_count g (snd (should_retry now g c co)) = retry_count g co + 1"
proof -
  let ?s = "case hm_get (co_states co) g of Some s \<Rightarrow> s | None \<Rightarrow> retry_state_new c"
  have n: "rt_attempts ?s = retry_count g co"
    by (simp add: retry_count_def retry_state_new_def split: option.split)
  have f: "rt_attempts (record_failure now s) = rt_attempts s + 1" for s
    by (simp add: record_failure_def Let_def split: option.split)
  show ?thesis
  proof (cases "skips_plan c")
    case True
    then show ?thesis by (intro skip) (simp_all add: should_retry_def)
  next
    case False
    show ?thesis
    proof (cases "retry_count g co \<ge> max_retries c")
      case True
      with False n show ?thesis
        by (intro exhausted) (simp_all add: should_retry_def Let_def is_exhausted_def retry_count_def)
    next
      case not: False
      with False n f show ?thesis
        by (intro granted) (simp_all add: should_retry_def Let_def is_exhausted_def retry_count_def)
    qed
  qed
qed

lemma retries_bounded:
  "(\<And>f. f \<in> set fs \<Longrightarrow> max_retries (snd f) \<le> m) \<Longrightarrow>
    retry_count g co + granted (retries g fs co) \<le> max m (retry_count g co)"
proof (induction fs arbitrary: co)
  case Nil
  then show ?case by (simp add: granted_def)
next
  case (Cons f fs)
  obtain now c where f: "f = (now, c)" by (cases f)
  with Cons.prems [of f] have c: "max_retries c \<le> m" by simp
  have ih: "retry_count g co' + granted (retries g fs co') \<le> max m (retry_count g co')" for co'
    by (rule Cons.IH) (use Cons.prems in auto)
  show ?case
  proof (cases rule: should_retry_cases [of c now g co])
    case skip
    with ih [of co] f show ?thesis by (simp add: granted_def)
  next
    case exhausted
    with ih [of "snd (should_retry now g c co)"] f show ?thesis
      by (simp add: granted_def case_prod_beta)
  next
    case (granted n)
    with ih [of "snd (should_retry now g c co)"] f c show ?thesis
      by (simp add: granted_def case_prod_beta)
  qed
qed

text \<open>
  A phase group is retried a bounded number of times between resets. Whatever the sequence
  of failures, their classes and times, the retries granted are at most the largest number
  of retries among the classes that occurred, so never more than four.
\<close>
theorem retries_are_bounded:
  assumes "\<And>now c. (now, c) \<in> set fs \<Longrightarrow> max_retries c \<le> m"
  shows "granted (retries grp fs coordinator_new) \<le> m \<and> granted (retries grp fs coordinator_new) \<le> 4"
proof -
  have "retry_count grp coordinator_new = 0" by (simp add: retry_count_def coordinator_new_def)
  moreover have "max_retries c \<le> 4" for c by (cases c) simp_all
  ultimately show ?thesis
    using retries_bounded [of fs m grp coordinator_new] retries_bounded [of fs 4 grp coordinator_new] assms
    by fastforce
qed

theorem retries_are_bounded_witness:
  "granted (retries ''work'' (replicate 9 (0, Stuck)) coordinator_new) \<le> 2"
  using retries_are_bounded [of "replicate 9 (0, Stuck)" 2 "''work''"] by (simp del: retries.simps)

section \<open>The backoff curve\<close>

text \<open>
  The failure is recorded before the backoff is looked up, so a group whose API is overloaded
  waits 30, 60, 120 and 120 minutes, where the documentation gives 15, 30, 60 and 120; and when the
  failures come within thirty seconds of each other the rapid-failure rule shortens the later
  waits to three minutes.
\<close>
theorem overload_backoff_curve:
  "retries g [(0, ApiOverload), (10 ^ 15, ApiOverload), (2 * 10 ^ 15, ApiOverload), (3 * 10 ^ 15, ApiOverload),
              (4 * 10 ^ 15, ApiOverload)] coordinator_new
     = [RetryAfter (30 * 60), RetryAfter (60 * 60), RetryAfter (120 * 60), RetryAfter (120 * 60), Exhausted]
   \<and> retries g [(0, ApiOverload), (10 ^ 9, ApiOverload), (2 * 10 ^ 9, ApiOverload)] coordinator_new
     = [RetryAfter (30 * 60), RetryAfter (60 * 60), RetryAfter 180]"
  by (simp add: should_retry_def coordinator_new_def retry_state_new_def skips_plan_def is_exhausted_def
      record_failure_def next_backoff_def backoff_for_attempt_def Let_def)

end
