(* ===== verification/Loop_State.thy ===== *)
theory Loop_State
  imports Daemon_Types
begin

text \<open>
  The loop state of an arc (\<open>monitor/loop_state.rs\<close>): the front matter of
  \<open>.rune/arc-phase-loop.local.md\<close>, how it is read, and how two readings are compared. Strings are
  their UTF-8 bytes; a file that is not valid UTF-8 counts as unreadable.
\<close>

section \<open>Text\<close>

text \<open>\<open>find\<close> and the slice before it: the text before the first occurrence.\<close>

fun before_first :: "string \<Rightarrow> string \<Rightarrow> string option" where
  "before_first pat s =
    (if prefix pat s then Some []
     else case s of [] \<Rightarrow> None | c # cs \<Rightarrow> map_option (\<lambda>t. c # t) (before_first pat cs))"

declare before_first.simps [simp del]

definition trim_char :: "char \<Rightarrow> string \<Rightarrow> string" where
  "trim_char q s = rev (dropWhile (\<lambda>c. c = q) (rev (dropWhile (\<lambda>c. c = q) s)))"

definition parse_u32 :: "string \<Rightarrow> nat option" where
  "parse_u32 s = (case parse_u64 s of Some n \<Rightarrow> if n < 2 ^ 32 then Some n else None | None \<Rightarrow> None)"

definition show_bool :: "bool \<Rightarrow> string" where
  "show_bool b = (if b then ''true'' else ''false'')"

section \<open>The state and its comparison\<close>

record arc_loop_state =
  ls_active :: bool
  ls_checkpoint_path :: string
  ls_plan_file :: string
  ls_config_dir :: string
  ls_owner_pid :: string
  ls_session_id :: string
  ls_branch :: string
  ls_iteration :: nat
  ls_max_iterations :: nat

record loop_state_change =
  lc_field :: string
  lc_old_value :: string
  lc_new_value :: string
  lc_anomalous :: bool

definition change :: "bool \<Rightarrow> string \<Rightarrow> string \<Rightarrow> string \<Rightarrow> bool \<Rightarrow> loop_state_change list" where
  "change differs field old new anomalous =
    (if differs then [\<lparr>lc_field = field, lc_old_value = old, lc_new_value = new, lc_anomalous = anomalous\<rparr>]
     else [])"

definition diff :: "arc_loop_state \<Rightarrow> arc_loop_state \<Rightarrow> loop_state_change list" where
  "diff a b =
     change (ls_active a \<noteq> ls_active b) ''active'' (show_bool (ls_active a)) (show_bool (ls_active b)) False
     @ change (ls_iteration a \<noteq> ls_iteration b) ''iteration'' (show_nat (ls_iteration a))
         (show_nat (ls_iteration b)) (ls_iteration b < ls_iteration a)
     @ change (ls_checkpoint_path a \<noteq> ls_checkpoint_path b) ''checkpoint_path''
         (ls_checkpoint_path a) (ls_checkpoint_path b) True
     @ change (ls_plan_file a \<noteq> ls_plan_file b) ''plan_file'' (ls_plan_file a) (ls_plan_file b) True
     @ change (ls_branch a \<noteq> ls_branch b) ''branch'' (ls_branch a) (ls_branch b) True
     @ change (ls_owner_pid a \<noteq> ls_owner_pid b) ''owner_pid'' (ls_owner_pid a) (ls_owner_pid b) True
     @ change (ls_session_id a \<noteq> ls_session_id b) ''session_id'' (ls_session_id a) (ls_session_id b) True
     @ change (ls_max_iterations a \<noteq> ls_max_iterations b) ''max_iterations''
         (show_nat (ls_max_iterations a)) (show_nat (ls_max_iterations b)) True"

definition resolve_checkpoint_path :: "path \<Rightarrow> arc_loop_state \<Rightarrow> path" where
  "resolve_checkpoint_path working_dir s =
    (if prefix ''/'' (ls_checkpoint_path s) then ls_checkpoint_path s
     else path_join working_dir (ls_checkpoint_path s))"

text \<open>The file name of the parent, over the components of the path.\<close>

definition parent_file_name :: "path \<Rightarrow> string option" where
  "parent_file_name p =
    (case rev (path_components p) of
       [] \<Rightarrow> None
     | c # cs \<Rightarrow>
         if c = ''/'' then None
         else case cs of
           [] \<Rightarrow> None
         | d # _ \<Rightarrow> if d = ''/'' \<or> d = ''.'' \<or> d = ''..'' then None else Some d)"

definition arc_id :: "arc_loop_state \<Rightarrow> string option" where
  "arc_id s = parent_file_name (ls_checkpoint_path s)"

section \<open>Reading\<close>

datatype LoopStateRead = Missing | Inactive | Active arc_loop_state

fun active_state :: "LoopStateRead \<Rightarrow> arc_loop_state option" where
  "active_state (Active s) = Some s"
| "active_state Inactive = None"
| "active_state Missing = None"

definition loop_file_exists :: "LoopStateRead \<Rightarrow> bool" where
  "loop_file_exists l \<longleftrightarrow> l \<noteq> Missing"

definition loop_file :: "path \<Rightarrow> path" where
  "loop_file working_dir = path_join (path_join working_dir ''.rune'') ''arc-phase-loop.local.md''"

definition extract_frontmatter :: "string \<Rightarrow> string option" where
  "extract_frontmatter content =
    Option.bind (strip_prefix ''---'' (trim content)) (before_first ''---'')"

definition unquote :: "string \<Rightarrow> string" where
  "unquote v = trim_char (CHR 0x27) (trim_char (CHR 0x22) v)"

fun yaml_lookup :: "string \<Rightarrow> string list \<Rightarrow> string option" where
  "yaml_lookup key [] = None"
| "yaml_lookup key (line # ls) =
    (case strip_prefix (key @ '':'') (trim line) of
       None \<Rightarrow> yaml_lookup key ls
     | Some value \<Rightarrow>
         let val = unquote (trim value) in
         if val = [] \<or> val = ''null'' then None else Some val)"

definition parse_yaml_str :: "string \<Rightarrow> string \<Rightarrow> string option" where
  "parse_yaml_str yaml key = yaml_lookup key (str_lines yaml)"

definition parse_yaml_bool :: "string \<Rightarrow> string \<Rightarrow> bool option" where
  "parse_yaml_bool yaml key =
    (case parse_yaml_str yaml key of
       None \<Rightarrow> None
     | Some v \<Rightarrow> if v = ''true'' then Some True else if v = ''false'' then Some False else None)"

definition or_empty :: "string option \<Rightarrow> string" where
  "or_empty v = (case v of Some s \<Rightarrow> s | None \<Rightarrow> [])"

definition yaml_u32 :: "string \<Rightarrow> string \<Rightarrow> nat \<Rightarrow> nat" where
  "yaml_u32 yaml key d = (case Option.bind (parse_yaml_str yaml key) parse_u32 of Some n \<Rightarrow> n | None \<Rightarrow> d)"

definition read_active :: "string \<Rightarrow> LoopStateRead" where
  "read_active yaml =
    (case parse_yaml_str yaml ''checkpoint_path'' of
       None \<Rightarrow> Missing
     | Some cp \<Rightarrow>
         (case parse_yaml_str yaml ''plan_file'' of
            None \<Rightarrow> Missing
          | Some plan \<Rightarrow>
              Active \<lparr>ls_active = True, ls_checkpoint_path = cp, ls_plan_file = plan,
                ls_config_dir = or_empty (parse_yaml_str yaml ''config_dir''),
                ls_owner_pid = or_empty (parse_yaml_str yaml ''owner_pid''),
                ls_session_id = or_empty (parse_yaml_str yaml ''session_id''),
                ls_branch = or_empty (parse_yaml_str yaml ''branch''),
                ls_iteration = yaml_u32 yaml ''iteration'' 0,
                ls_max_iterations = yaml_u32 yaml ''max_iterations'' 50\<rparr>))"

definition read_arc_loop_state :: "file_view \<Rightarrow> LoopStateRead" where
  "read_arc_loop_state f =
    (case f of
       Readable contents \<Rightarrow>
         (case extract_frontmatter contents of
            None \<Rightarrow> Missing
          | Some yaml \<Rightarrow>
              (case parse_yaml_bool yaml ''active'' of
                 None \<Rightarrow> Missing
               | Some a \<Rightarrow> if \<not> a then Inactive else read_active yaml))
     | _ \<Rightarrow> Missing)"

section \<open>What a comparison reports\<close>

lemma change_simps [simp]:
  "change d f x y a = [] \<longleftrightarrow> \<not> d"
  "c \<in> set (change d f x y a) \<longleftrightarrow>
     d \<and> c = \<lparr>lc_field = f, lc_old_value = x, lc_new_value = y, lc_anomalous = a\<rparr>"
  by (auto simp: change_def)

text \<open>
  Two readings are reported as equal exactly when they agree on everything but the
  configuration directory, and the report contains an anomaly exactly when something other than the
  active flag and an increased iteration changed.
\<close>
theorem diff_exact:
  "(diff a b = [] \<longleftrightarrow> b = a\<lparr>ls_config_dir := ls_config_dir b\<rparr>)
   \<and> ((\<exists>c \<in> set (diff a b). lc_anomalous c) \<longleftrightarrow>
       b \<noteq> a\<lparr>ls_config_dir := ls_config_dir b, ls_active := ls_active b, ls_iteration := ls_iteration b\<rparr>
       \<or> ls_iteration b < ls_iteration a)"
  by (cases a; cases b) (auto simp: diff_def bex_Un)

section \<open>A written state is read back\<close>

definition render_line :: "string \<times> string \<Rightarrow> string" where
  "render_line kv = fst kv @ '': '' @ snd kv @ [CHR 0x0A]"

definition loop_fields :: "arc_loop_state \<Rightarrow> (string \<times> string) list" where
  "loop_fields s =
     [(''active'', show_bool (ls_active s)), (''iteration'', show_nat (ls_iteration s)),
      (''max_iterations'', show_nat (ls_max_iterations s)), (''checkpoint_path'', ls_checkpoint_path s),
      (''plan_file'', ls_plan_file s), (''config_dir'', ls_config_dir s), (''owner_pid'', ls_owner_pid s),
      (''session_id'', ls_session_id s), (''branch'', ls_branch s)]"

definition render :: "arc_loop_state \<Rightarrow> string" where
  "render s = ''---'' @ [CHR 0x0A] @ concat (map render_line (loop_fields s)) @ ''---'' @ [CHR 0x0A]"

text \<open>
  A value that survives: one line, no \<open>---\<close> inside, beginning and ending with a printable ASCII
  character other than a quotation mark, and not \<open>null\<close>.
\<close>

definition graphic :: "char \<Rightarrow> bool" where
  "graphic c \<longleftrightarrow> (let n = (of_char c :: nat) in 33 \<le> n \<and> n \<le> 126) \<and> c \<noteq> CHR 0x22 \<and> c \<noteq> CHR 0x27"

definition plain_value :: "string \<Rightarrow> bool" where
  "plain_value v \<longleftrightarrow> v \<noteq> [] \<and> graphic (hd v) \<and> graphic (last v) \<and> CHR 0x0A \<notin> set v
     \<and> \<not> str_contains ''---'' v \<and> v \<noteq> ''null''"

definition writable :: "arc_loop_state \<Rightarrow> bool" where
  "writable s \<longleftrightarrow> ls_active s \<and> plain_value (ls_checkpoint_path s) \<and> plain_value (ls_plan_file s)
     \<and> (\<forall>v \<in> {ls_config_dir s, ls_owner_pid s, ls_session_id s, ls_branch s}. v = [] \<or> plain_value v)
     \<and> ls_iteration s < 2 ^ 32 \<and> ls_max_iterations s < 2 ^ 32"


lemma prefix_stop: "c \<notin> set pat \<Longrightarrow> prefix pat (xs @ c # ys) \<longleftrightarrow> prefix pat xs"
proof (induction pat arbitrary: xs)
  case (Cons p pat)
  then show ?case by (cases xs) auto
qed simp

lemma str_contains_stop:
  "c \<notin> set pat \<Longrightarrow> pat \<noteq> [] \<Longrightarrow>
    str_contains pat (xs @ c # ys) \<longleftrightarrow> str_contains pat xs \<or> str_contains pat ys"
proof (induction xs)
  case Nil
  then show ?case using prefix_stop [of c pat "[]" ys] by simp
next
  case (Cons x xs)
  then show ?case using prefix_stop [of c pat "x # xs" ys] by simp
qed

lemma before_first_append:
  "pat \<noteq> [] \<Longrightarrow> \<not> str_contains pat (b @ butlast pat) \<Longrightarrow> before_first pat (b @ pat @ zs) = Some b"
proof (induction b)
  case Nil
  then show ?case by (subst before_first.simps) simp
next
  case (Cons x b)
  have "\<not> prefix pat (x # b @ pat @ zs)"
  proof
    assume "prefix pat (x # b @ pat @ zs)"
    moreover have "length pat \<le> length (x # b @ butlast pat)" using Cons.prems(1) by simp
    moreover have "x # b @ pat @ zs = (x # b @ butlast pat) @ last pat # zs" using Cons.prems(1) by simp
    ultimately have "prefix pat (x # b @ butlast pat)"
      by (metis prefix_length_prefix prefixI)
    with Cons.prems(2) show False by simp
  qed
  with Cons show ?case by (subst before_first.simps) simp
qed

lemma split_lf_line:
  "CHR 0x0A \<notin> set xs \<Longrightarrow> split_lf acc (xs @ CHR 0x0A # ys) =
     rev (case rev xs @ acc of [] \<Rightarrow> [] | a # as \<Rightarrow> if a = CHR 0x0D then as else rev xs @ acc) # split_lf [] ys"
proof (induction xs arbitrary: acc)
  case (Cons x xs)
  then show ?case by (cases "rev xs") auto
qed (simp split: list.split)

lemma str_lines_Cons:
  assumes "CHR 0x0A \<notin> set xs" and "xs = [] \<or> last xs \<noteq> CHR 0x0D"
  shows "str_lines (xs @ CHR 0x0A # ys) = xs # str_lines ys"
  unfolding str_lines_def split_lf_line [OF assms(1)]
  using assms(2) by (cases xs rule: rev_cases) simp_all

lemma graphic_char: "graphic c \<Longrightarrow> c \<noteq> CHR 0x0A \<and> c \<noteq> CHR 0x0D \<and> c \<noteq> CHR 0x22 \<and> c \<noteq> CHR 0x27 \<and> c \<noteq> CHR 0x20"
  by (auto simp: graphic_def Let_def)

lemma white_space_ends: "w \<in> set white_space \<Longrightarrow> \<not> graphic (hd w) \<and> \<not> graphic (last w)"
  by (auto simp: white_space_def graphic_def Let_def)

lemma trim_start_graphic: "graphic (hd s) \<Longrightarrow> s \<noteq> [] \<Longrightarrow> trim_start s = s"
  unfolding trim_start_def
proof (rule drop_words_none)
  fix w assume "graphic (hd s)" "s \<noteq> []" "w \<in> set white_space" "w \<noteq> []"
  then show "\<not> prefix w s" using white_space_ends [of w] by (cases w; cases s) auto
qed

lemma trim_end_graphic: "graphic (last s) \<Longrightarrow> s \<noteq> [] \<Longrightarrow> trim_end s = s"
proof -
  assume s: "graphic (last s)" "s \<noteq> []"
  have "drop_words (map rev white_space) (rev s) = rev s"
  proof (rule drop_words_none)
    fix w assume w: "w \<in> set (map rev white_space)" "w \<noteq> []"
    then have "\<not> graphic (hd w)" using white_space_ends by (auto simp: hd_rev)
    with s w show "\<not> prefix w (rev s)" by (cases w; cases "rev s") (auto simp: hd_rev [symmetric])
  qed
  then show ?thesis by (simp add: trim_end_def)
qed

lemma trim_graphic: "graphic (hd s) \<Longrightarrow> graphic (last s) \<Longrightarrow> s \<noteq> [] \<Longrightarrow> trim s = s"
  by (simp add: trim_def trim_start_graphic trim_end_graphic)

lemma find_space: "find (\<lambda>w. w \<noteq> [] \<and> prefix w (CHR 0x20 # s)) white_space = Some [CHR 0x20]"
  by (simp add: white_space_def)

lemma find_lf: "find (\<lambda>w. w \<noteq> [] \<and> prefix w (CHR 0x0A # s)) white_space = Some [CHR 0x0A]"
  by (simp add: white_space_def)

lemma find_rev_space: "find (\<lambda>w. w \<noteq> [] \<and> prefix w (CHR 0x20 # s)) (map rev white_space) = Some [CHR 0x20]"
  by (simp add: white_space_def)

lemma find_rev_lf: "find (\<lambda>w. w \<noteq> [] \<and> prefix w (CHR 0x0A # s)) (map rev white_space) = Some [CHR 0x0A]"
  by (simp add: white_space_def)

lemma trim_start_space: "trim_start (CHR 0x20 # s) = trim_start s"
  unfolding trim_start_def by (subst drop_words.simps) (simp add: find_space)

lemma trim_end_space: "trim_end (s @ [CHR 0x20]) = trim_end s"
  unfolding trim_end_def rev_append by (subst (1) drop_words.simps) (simp add: find_rev_space)

lemma trim_end_lf: "trim_end (s @ [CHR 0x0A]) = trim_end s"
  unfolding trim_end_def rev_append by (subst (1) drop_words.simps) (simp add: find_rev_lf)

lemma trim_char_plain: "v \<noteq> [] \<Longrightarrow> hd v \<noteq> q \<Longrightarrow> last v \<noteq> q \<Longrightarrow> trim_char q v = v"
proof -
  assume v: "v \<noteq> []" "hd v \<noteq> q" "last v \<noteq> q"
  then have "dropWhile (\<lambda>c. c = q) v = v" by (cases v) auto
  moreover from v have "dropWhile (\<lambda>c. c = q) (rev v) = rev v" by (cases v rule: rev_cases) auto
  ultimately show ?thesis by (simp add: trim_char_def)
qed

lemma unquote_plain: "plain_value v \<Longrightarrow> unquote v = v"
  by (simp add: unquote_def trim_char_plain plain_value_def graphic_char)

lemma unquote_Nil [simp]: "unquote [] = []"
  by (simp add: unquote_def trim_char_def)


text \<open>Keys are made of lower-case letters and underscores.\<close>

definition plain_key :: "string \<Rightarrow> bool" where
  "plain_key k \<longleftrightarrow> k \<noteq> [] \<and> (\<forall>c \<in> set k. c = CHR ''_'' \<or> (97 \<le> (of_char c :: nat) \<and> (of_char c :: nat) \<le> 122))"

lemma small_letter:
  assumes "97 \<le> (of_char c :: nat)" and "(of_char c :: nat) \<le> 122"
  shows "graphic c \<and> c \<noteq> CHR '':'' \<and> c \<noteq> CHR ''-''"
proof -
  have "c \<noteq> d" if "(of_char d :: nat) < 97" for d using that assms(1) by auto
  moreover have "(of_char (CHR 0x22) :: nat) < 97" "(of_char (CHR 0x27) :: nat) < 97"
    "(of_char (CHR '':'') :: nat) < 97" "(of_char (CHR ''-'') :: nat) < 97"
    by code_simp+
  ultimately have "c \<noteq> CHR 0x22" "c \<noteq> CHR 0x27" "c \<noteq> CHR '':''" "c \<noteq> CHR ''-''" by blast+
  then show ?thesis using assms by (simp add: graphic_def Let_def)
qed

lemma plain_key_char: "plain_key k \<Longrightarrow> c \<in> set k \<Longrightarrow> graphic c \<and> c \<noteq> CHR '':'' \<and> c \<noteq> CHR ''-''"
proof -
  assume "plain_key k" "c \<in> set k"
  then consider "c = CHR ''_''" | "97 \<le> (of_char c :: nat)" "(of_char c :: nat) \<le> 122"
    unfolding plain_key_def by blast
  then show ?thesis
  proof cases
    case 1
    have "graphic (CHR ''_'')" by code_simp
    with 1 show ?thesis by simp
  next
    case 2
    then show ?thesis by (rule small_letter)
  qed
qed

lemma prefix_up_to: "c \<notin> set xs \<Longrightarrow> c \<notin> set ys \<Longrightarrow> prefix (xs @ [c]) (ys @ c # zs) \<longleftrightarrow> xs = ys"
proof (induction xs arbitrary: ys)
  case Nil
  then show ?case by (cases ys) auto
next
  case (Cons x xs)
  then show ?case by (cases ys) auto
qed

lemma key_prefix: "plain_key k \<Longrightarrow> plain_key key \<Longrightarrow> prefix (key @ '':'') (k @ '':'' @ v) \<longleftrightarrow> key = k"
  using prefix_up_to [of "CHR '':''" key k v] plain_key_char by auto

lemma line_trimmed:
  assumes "plain_key k" and "v = [] \<or> plain_value v"
  shows "trim (k @ '': '' @ v) = k @ (if v = [] then '':'' else '': '' @ v)"
proof -
  have k: "k \<noteq> []" "graphic (hd k)" using assms(1) plain_key_char by (auto simp: plain_key_def)
  have g: "graphic (CHR '':'')" by code_simp
  show ?thesis
  proof (cases "v = []")
    case True
    have "trim (k @ '': '') = trim_end ((k @ '':'') @ [CHR 0x20])"
      using k by (simp add: trim_def trim_start_graphic)
    also have "\<dots> = k @ '':''" unfolding trim_end_space by (rule trim_end_graphic) (simp_all add: g)
    finally show ?thesis using True by simp
  next
    case False
    with assms(2) k show ?thesis by (simp add: trim_graphic plain_value_def)
  qed
qed

lemma value_trimmed: "v = [] \<or> plain_value v \<Longrightarrow> trim (if v = [] then [] else CHR 0x20 # v) = v"
  by (auto simp: trim_def trim_start_space trim_start_graphic trim_end_graphic plain_value_def
      trim_start_def [of "[]"] trim_end_def [of "[]"] drop_words_none white_space_nonempty)

lemma yaml_lookup_line:
  assumes "plain_key k" "plain_key key" "v = [] \<or> plain_value v"
  shows "yaml_lookup key ((k @ '': '' @ v) # ls) =
    (if k = key then if v = [] then None else Some v else yaml_lookup key ls)"
proof -
  let ?r = "if v = [] then [] else CHR 0x20 # v"
  have t: "trim (k @ '': '' @ v) = k @ '':'' @ ?r" using line_trimmed [OF assms(1,3)] by simp
  show ?thesis
  proof (cases "k = key")
    case True
    have sp: "strip_prefix (key @ '':'') (trim (k @ '': '' @ v)) = Some ?r" using True t by simp
    have "yaml_lookup key ((k @ '': '' @ v) # ls) =
        (let val = unquote (trim ?r) in if val = [] \<or> val = ''null'' then None else Some val)"
      unfolding yaml_lookup.simps sp by simp
    also have "\<dots> = (if v = [] then None else Some v)"
      using assms(3) unfolding value_trimmed [OF assms(3)]
      by (auto simp: Let_def unquote_plain) (auto simp: plain_value_def)
    finally show ?thesis using True by simp
  next
    case False
    then have "strip_prefix (key @ '':'') (trim (k @ '': '' @ v)) = None"
      using key_prefix [OF assms(1,2)] unfolding t by (simp add: strip_prefix_def)
    then show ?thesis unfolding yaml_lookup.simps using False by simp
  qed
qed

definition plain_fields :: "(string \<times> string) list \<Rightarrow> bool" where
  "plain_fields kvs \<longleftrightarrow> (\<forall>(k, v) \<in> set kvs. plain_key k \<and> (v = [] \<or> plain_value v))"

lemma line_ok:
  assumes "plain_key k" "v = [] \<or> plain_value v"
  shows "CHR 0x0A \<notin> set (k @ '': '' @ v)" "last (k @ '': '' @ v) \<noteq> CHR 0x0D"
  using assms by (auto simp: plain_value_def dest!: plain_key_char graphic_char)

lemma parse_fields:
  "plain_fields kvs \<Longrightarrow> plain_key key \<Longrightarrow>
    yaml_lookup key (str_lines (concat (map render_line kvs))) =
      (case map_of kvs key of Some v \<Rightarrow> if v = [] then None else Some v | None \<Rightarrow> None)"
proof (induction kvs)
  case Nil
  then show ?case by (simp add: str_lines_def)
next
  case (Cons kv kvs)
  obtain k v where kv: "kv = (k, v)" by (cases kv)
  with Cons.prems have ok: "plain_key k" "v = [] \<or> plain_value v" "plain_fields kvs"
    by (auto simp: plain_fields_def)
  have "str_lines (concat (map render_line (kv # kvs))) = (k @ '': '' @ v) # str_lines (concat (map render_line kvs))"
    using str_lines_Cons [of "k @ '': '' @ v" "concat (map render_line kvs)"] line_ok [OF ok(1,2)]
    by (simp add: kv render_line_def)
  with Cons ok kv yaml_lookup_line [OF ok(1) Cons.prems(2) ok(2)] show ?case by simp
qed

lemma fields_no_dashes:
  "plain_fields kvs \<Longrightarrow> str_contains ''---'' (concat (map render_line kvs) @ t) \<longleftrightarrow> str_contains ''---'' t"
proof (induction kvs)
  case Nil
  show ?case by simp
next
  case (Cons kv kvs)
  obtain k v where kv: "kv = (k, v)" by (cases kv)
  with Cons.prems have ok: "plain_key k" "v = [] \<or> plain_value v" "plain_fields kvs"
    by (auto simp: plain_fields_def)
  have "\<not> str_contains ''---'' k"
  proof
    assume "str_contains ''---'' k"
    then have "CHR ''-'' \<in> set k" by (auto simp: str_contains_iff)
    with plain_key_char [OF ok(1)] show False by blast
  qed
  moreover have "\<not> str_contains ''---'' v" using ok(2) by (auto simp: plain_value_def)
  moreover have "\<not> str_contains ''---'' []" by simp
  moreover have "render_line kv = k @ CHR '':'' # ([] @ CHR 0x20 # (v @ CHR 0x0A # []))"
    by (simp add: kv render_line_def)
  ultimately show ?case
    using Cons.IH [OF ok(3)] by (simp add: str_contains_stop)
qed

lemma extract_framed:
  "extract_frontmatter (''---'' @ u @ ''---'' @ [CHR 0x0A]) = before_first ''---'' (u @ ''---'')"
proof -
  have g: "graphic (CHR ''-'')" by code_simp
  have "trim (''---'' @ u @ ''---'' @ [CHR 0x0A]) = trim_end ((''---'' @ u @ ''---'') @ [CHR 0x0A])"
    by (simp add: trim_def trim_start_graphic g)
  also have "\<dots> = ''---'' @ u @ ''---''"
    unfolding trim_end_lf by (rule trim_end_graphic) (simp_all add: g)
  finally have t: "trim (''---'' @ u @ ''---'' @ [CHR 0x0A]) = ''---'' @ u @ ''---''" .
  have sp: "strip_prefix ''---'' (''---'' @ u @ ''---'') = Some (u @ ''---'')"
    unfolding strip_prefix_Some ..
  show ?thesis unfolding extract_frontmatter_def t sp by simp
qed

lemma first_dashes:
  assumes "plain_fields kvs" and "\<not> str_contains ''---'' (t @ ''--'')"
  shows "before_first ''---'' ((CHR 0x0A # concat (map render_line kvs) @ t) @ ''---'' @ zs)
    = Some (CHR 0x0A # concat (map render_line kvs) @ t)"
proof -
  have "\<not> str_contains ''---'' ([] @ CHR 0x0A # (concat (map render_line kvs) @ t @ ''--''))"
    using fields_no_dashes [OF assms(1)] assms(2) str_contains_stop [of "CHR 0x0A" "''---''" "[]"] by simp
  then show ?thesis by (intro before_first_append) simp_all
qed

lemma frontmatter_of_fields:
  assumes "plain_fields kvs"
  shows "extract_frontmatter (''---'' @ [CHR 0x0A] @ concat (map render_line kvs) @ ''---'' @ [CHR 0x0A])
      = Some (CHR 0x0A # concat (map render_line kvs))"
proof -
  have "\<not> str_contains ''---'' ([] @ ''--'')" by code_simp
  from first_dashes [OF assms this, of "[]"] show ?thesis
    using extract_framed [of "CHR 0x0A # concat (map render_line kvs)"] by simp
qed

lemma parse_rendered:
  "plain_fields kvs \<Longrightarrow> plain_key key \<Longrightarrow>
    parse_yaml_str (CHR 0x0A # concat (map render_line kvs)) key =
      (case map_of kvs key of Some v \<Rightarrow> if v = [] then None else Some v | None \<Rightarrow> None)"
proof -
  assume kvs: "plain_fields kvs" and key: "plain_key key"
  have "str_lines (CHR 0x0A # concat (map render_line kvs)) = [] # str_lines (concat (map render_line kvs))"
    using str_lines_Cons [of "[]"] by simp
  moreover have "trim [] = []" using value_trimmed [of "[]"] by simp
  ultimately show ?thesis
    using parse_fields [OF kvs key] key
    by (simp add: parse_yaml_str_def strip_prefix_def plain_key_def)
qed


lemma plain_keys:
  "plain_key ''active''" "plain_key ''iteration''" "plain_key ''max_iterations''" "plain_key ''checkpoint_path''"
  "plain_key ''plan_file''" "plain_key ''config_dir''" "plain_key ''owner_pid''" "plain_key ''session_id''"
  "plain_key ''branch''"
  by code_simp+

lemma show_nat_graphic: "c \<in> set (show_nat n) \<Longrightarrow> graphic c \<and> c \<noteq> CHR ''-'' \<and> c \<noteq> CHR ''n'' \<and> c \<noteq> CHR 0x0A"
proof -
  assume "c \<in> set (show_nat n)"
  then obtain d where d: "d < 10" "c = char_of (48 + d :: nat)" using show_nat_digits by blast
  then have n: "(of_char c :: nat) = 48 + d" by simp
  have "c \<noteq> x" if "(of_char x :: nat) < 48 \<or> 57 < (of_char x :: nat)" for x using n d(1) that by auto
  moreover have "(of_char (CHR 0x22) :: nat) < 48" "(of_char (CHR 0x27) :: nat) < 48"
    "(of_char (CHR ''-'') :: nat) < 48" "57 < (of_char (CHR ''n'') :: nat)" "(of_char (CHR 0x0A) :: nat) < 48"
    by code_simp+
  ultimately have "c \<noteq> CHR 0x22" "c \<noteq> CHR 0x27" "c \<noteq> CHR ''-''" "c \<noteq> CHR ''n''" "c \<noteq> CHR 0x0A" by blast+
  with n d(1) show ?thesis by (simp add: graphic_def Let_def)
qed

lemma show_nat_plain_value: "plain_value (show_nat n)"
proof -
  have ne: "show_nat n \<noteq> []" by (rule show_nat_nonempty)
  have "\<not> str_contains ''---'' (show_nat n)"
  proof
    assume "str_contains ''---'' (show_nat n)"
    then have "CHR ''-'' \<in> set (show_nat n)" by (auto simp: str_contains_iff)
    with show_nat_graphic show False by blast
  qed
  moreover have "show_nat n \<noteq> ''null''"
  proof
    assume "show_nat n = ''null''"
    then have "CHR ''n'' \<in> set (show_nat n)" by simp
    with show_nat_graphic show False by blast
  qed
  moreover have "CHR 0x0A \<notin> set (show_nat n)" using show_nat_graphic by blast
  moreover have "graphic (hd (show_nat n))" "graphic (last (show_nat n))"
    using show_nat_graphic [of _ n] hd_in_set [OF ne] last_in_set [OF ne] by blast+
  ultimately show ?thesis using ne unfolding plain_value_def by blast
qed

lemma loop_fields_plain:
  assumes "writable s"
  shows "plain_fields (loop_fields s)"
proof -
  have "plain_value ''true''" "plain_value ''false''" by code_simp+
  then have "plain_value (show_bool b)" for b by (simp add: show_bool_def)
  with assms show ?thesis
    by (simp add: plain_fields_def loop_fields_def plain_keys show_nat_plain_value writable_def)
qed

lemma parse_u32_show_nat: "n < 2 ^ 32 \<Longrightarrow> parse_u32 (show_nat n) = Some n"
  by (simp add: parse_u32_def parse_u64_show_nat)

text \<open>
  C23: a loop state is read back as it was written. Writing any active state whose values are
  plain as front matter and reading the file gives the state, whatever the fields hold.
\<close>
theorem loop_state_roundtrip:
  assumes "writable s"
  shows "read_arc_loop_state (Readable (render s)) = Active s"
proof -
  define y where "y = CHR 0x0A # concat (map render_line (loop_fields s))"
  have fm: "extract_frontmatter (render s) = Some y"
    unfolding render_def y_def by (rule frontmatter_of_fields) (rule loop_fields_plain [OF assms])
  have get: "parse_yaml_str y key =
      (case map_of (loop_fields s) key of Some v \<Rightarrow> if v = [] then None else Some v | None \<Rightarrow> None)"
    if "plain_key key" for key
    unfolding y_def by (rule parse_rendered [OF loop_fields_plain [OF assms] that])
  have nonempty: "ls_checkpoint_path s \<noteq> []" "ls_plan_file s \<noteq> []"
    using assms by (simp_all add: writable_def plain_value_def)
  have vals: "parse_yaml_bool y ''active'' = Some True"
    "parse_yaml_str y ''checkpoint_path'' = Some (ls_checkpoint_path s)"
    "parse_yaml_str y ''plan_file'' = Some (ls_plan_file s)"
    "or_empty (parse_yaml_str y ''config_dir'') = ls_config_dir s"
    "or_empty (parse_yaml_str y ''owner_pid'') = ls_owner_pid s"
    "or_empty (parse_yaml_str y ''session_id'') = ls_session_id s"
    "or_empty (parse_yaml_str y ''branch'') = ls_branch s"
    "yaml_u32 y ''iteration'' 0 = ls_iteration s"
    "yaml_u32 y ''max_iterations'' 50 = ls_max_iterations s"
    using assms nonempty
    by (simp_all add: get plain_keys parse_yaml_bool_def or_empty_def yaml_u32_def loop_fields_def show_bool_def
        show_nat_nonempty parse_u32_show_nat writable_def)
  have active: "ls_active s" using assms by (simp add: writable_def)
  have "read_active y = Active s"
    unfolding read_active_def vals option.case using active by simp
  then show ?thesis
    by (simp only: read_arc_loop_state_def file_view.case fm option.case vals) simp
qed

definition sample_loop :: "string \<Rightarrow> arc_loop_state" where
  "sample_loop plan = \<lparr>ls_active = True, ls_checkpoint_path = ''.rune/arc/arc-1/checkpoint.json'',
     ls_plan_file = plan, ls_config_dir = [], ls_owner_pid = ''123'', ls_session_id = ''abc-def'',
     ls_branch = ''main'', ls_iteration = 5, ls_max_iterations = 65\<rparr>"

theorem loop_state_roundtrip_witness:
  "read_arc_loop_state (Readable (render (sample_loop ''plans/a.md''))) = Active (sample_loop ''plans/a.md'')"
proof (rule loop_state_roundtrip)
  have "plain_value ''plans/a.md''" "plain_value ''.rune/arc/arc-1/checkpoint.json''" "plain_value ''123''"
    "plain_value ''abc-def''" "plain_value ''main''"
    by code_simp+
  then show "writable (sample_loop ''plans/a.md'')" by (simp add: writable_def sample_loop_def)
qed

text \<open>
  The front matter ends at the first three dashes, wherever they are. When the value of a field
  contains them, as a plan's file name may, that value is cut there and every later field is lost.
\<close>
theorem dashes_cut_the_front_matter:
  assumes "plain_fields kvs" and "plain_key k" and "\<not> str_contains ''---'' (v @ ''--'')"
  shows "extract_frontmatter (''---'' @ [CHR 0x0A] @ concat (map render_line kvs)
      @ render_line (k, v @ ''---'' @ w) @ concat (map render_line later) @ ''---'' @ [CHR 0x0A])
    = Some (CHR 0x0A # concat (map render_line kvs) @ k @ '': '' @ v)"
proof -
  have "\<not> str_contains ''---'' k"
  proof
    assume "str_contains ''---'' k"
    then have "CHR ''-'' \<in> set k" by (auto simp: str_contains_iff)
    with plain_key_char [OF assms(2)] show False by blast
  qed
  moreover have "(k @ '': '' @ v) @ ''--'' = k @ CHR '':'' # ([] @ CHR 0x20 # (v @ ''--''))" by simp
  moreover have "\<not> str_contains ''---'' []" by simp
  ultimately have "\<not> str_contains ''---'' ((k @ '': '' @ v) @ ''--'')"
    using assms(3) by (simp only: str_contains_stop) (simp add: str_contains_stop)
  from first_dashes [OF assms(1) this, of "w @ [CHR 0x0A] @ concat (map render_line later) @ ''---''"]
  show ?thesis
    using extract_framed [of "CHR 0x0A # concat (map render_line kvs) @ render_line (k, v @ ''---'' @ w)
      @ concat (map render_line later)"]
    by (simp add: render_line_def)
qed

theorem dashes_cut_the_front_matter_witness:
  "extract_frontmatter (''---'' @ [CHR 0x0A] @ concat (map render_line [(''active'', ''true'')])
      @ render_line (''plan_file'', ''plans/a'' @ ''---'' @ ''b.md'')
      @ concat (map render_line [(''branch'', ''main'')]) @ ''---'' @ [CHR 0x0A])
    = Some (CHR 0x0A # concat (map render_line [(''active'', ''true'')]) @ ''plan_file'' @ '': '' @ ''plans/a'')"
proof (rule dashes_cut_the_front_matter)
  show "plain_fields [(''active'', ''true'')]" "plain_key ''plan_file''" "\<not> str_contains ''---'' (''plans/a'' @ ''--'')"
    by code_simp+
qed

end
