(* ===== verification/Session_Util.thy ===== *)
theory Session_Util
  imports Loop_State Checkpoint Phase_Order
begin

text \<open>
  The helpers of single-session mode (\<open>engine/single_session/util.rs\<close>, \<open>session/spawn.rs\<close>): the
  commands typed into a session, the decision how to restart a crashed run, completion texts in
  the pane, the cached checkpoint, and the activity snapshots of teammates and artifacts.
\<close>

section \<open>Commands\<close>

text \<open>\<open>replace\<close> of the single quote by quote, backslash, quote, quote.\<close>

fun escape_quotes :: "string \<Rightarrow> string" where
  "escape_quotes [] = []"
| "escape_quotes (c # cs) =
    (if c = CHR 0x27 then [CHR 0x27, CHR 0x5C, CHR 0x27, CHR 0x27] @ escape_quotes cs
     else c # escape_quotes cs)"

definition shell_escape :: "string \<Rightarrow> string" where
  "shell_escape s =
    (if CHR 0x27 \<in> set s then [CHR 0x27] @ escape_quotes s @ [CHR 0x27]
     else [CHR 0x27] @ s @ [CHR 0x27])"

record session_config =
  sc_working_dir :: path
  sc_config_dir :: "path option"
  sc_claude_path :: string
  sc_pipeline_timeout :: nat
  sc_resume :: bool
  sc_arc_flags :: "string list"

definition session_config_new :: "nat \<Rightarrow> path \<Rightarrow> session_config" where
  "session_config_new pipeline_timeout working_dir =
     \<lparr>sc_working_dir = working_dir, sc_config_dir = None, sc_claude_path = ''claude'',
      sc_pipeline_timeout = pipeline_timeout, sc_resume = False, sc_arc_flags = []\<rparr>"

definition flag_text :: "string list \<Rightarrow> string" where
  "flag_text flags = concat (map (\<lambda>flag. CHR 0x20 # shell_escape flag) flags)"

definition build_arc_command_plain :: "string \<Rightarrow> string" where
  "build_arc_command_plain plan_path = ''/rune:arc '' @ shell_escape plan_path"

definition build_arc_command :: "string \<Rightarrow> session_config \<Rightarrow> string" where
  "build_arc_command plan_path config =
     build_arc_command_plain plan_path @ (if sc_resume config then '' --resume'' else [])
       @ flag_text (sc_arc_flags config)"

definition build_resume_command :: "string \<Rightarrow> session_config \<Rightarrow> string" where
  "build_resume_command plan_path config =
     ''/rune:arc '' @ shell_escape plan_path @ '' --resume'' @ flag_text (sc_arc_flags config)"

section \<open>Restart decisions\<close>

datatype RestartDecision = Fresh string | ResumeWith string | AlreadyDone

fun inactive_path :: "path \<Rightarrow> string list \<Rightarrow> path option" where
  "inactive_path working_dir [] = None"
| "inactive_path working_dir (line # ls) =
    (case strip_prefix ''checkpoint_path:'' (trim line) of
       None \<Rightarrow> inactive_path working_dir ls
     | Some value \<Rightarrow>
         let val = unquote (trim value) in
         if val \<noteq> [] \<and> val \<noteq> ''null''
         then Some (if prefix ''/'' val then val else path_join working_dir val)
         else inactive_path working_dir ls)"

definition try_checkpoint_from_inactive :: "file_system \<Rightarrow> path \<Rightarrow> path option" where
  "try_checkpoint_from_inactive fs working_dir =
    (case fs (loop_file working_dir) of
       Readable contents \<Rightarrow>
         (case extract_frontmatter contents of
            None \<Rightarrow> None
          | Some yaml \<Rightarrow> inactive_path working_dir (str_lines yaml))
     | _ \<Rightarrow> None)"

text \<open>The checkpoint a restart looks at, if there is one on disk.\<close>

definition restart_checkpoint_path :: "file_system \<Rightarrow> path \<Rightarrow> path option" where
  "restart_checkpoint_path fs working_dir =
    (case active_state (read_arc_loop_state (fs (loop_file working_dir))) of
       Some s \<Rightarrow>
         let p = resolve_checkpoint_path working_dir s in if file_exists fs p then Some p else None
     | None \<Rightarrow>
         (case try_checkpoint_from_inactive fs working_dir of
            Some p \<Rightarrow> if file_exists fs p then Some p else None
          | None \<Rightarrow> None))"

definition has_progress :: "'j checkpoint \<Rightarrow> bool" where
  "has_progress c \<longleftrightarrow>
    list_ex (\<lambda>p. ps_status p = ''completed'' \<or> ps_status p = ''in_progress'' \<or> ps_status p = ''skipped'')
      (hm_values (ck_phases c))"

definition resolve_restart_command ::
  "(string \<Rightarrow> 'v option) \<Rightarrow> ('v \<Rightarrow> 'j checkpoint option) \<Rightarrow> file_system \<Rightarrow> path \<Rightarrow> string \<Rightarrow>
    session_config \<Rightarrow> string \<Rightarrow> RestartDecision" where
  "resolve_restart_command parse_json from_value fs working_dir plan_str config arc_command =
    (case restart_checkpoint_path fs working_dir of
       None \<Rightarrow> Fresh arc_command
     | Some cp_path \<Rightarrow>
         (case read_checkpoint parse_json from_value fs cp_path of
            Inl _ \<Rightarrow> Fresh arc_command
          | Inr c \<Rightarrow>
              if \<not> has_progress c then Fresh arc_command
              else if is_complete c \<or> is_terminal_phase_completed c then AlreadyDone
              else
                let phase = (case inferred_phase_name c of
                               Some p \<Rightarrow> p
                             | None \<Rightarrow> (case current_phase c of Some p \<Rightarrow> p | None \<Rightarrow> ''unknown''));
                    profile = (case profile_for_phase phase of Some p \<Rightarrow> p | None \<Rightarrow> default_profile)
                in (case pp_recovery profile of
                      FreshStart \<Rightarrow> Fresh arc_command
                    | Resume \<Rightarrow> ResumeWith (build_resume_command plan_str config)
                    | ResumeCheckPR \<Rightarrow> ResumeWith (build_resume_command plan_str config))))"

section \<open>Completion texts\<close>

definition completion_texts :: "string list" where
  "completion_texts =
    [''arc completed'', ''all phases complete'', ''pipeline completed'', ''merge completed'',
     ''arc run finished'', ''merge skipped'', ''merge: skipped'', ''skipping merge'',
     ''the tarnished rests'', ''arc result: success'']"

definition is_pipeline_complete :: "string \<Rightarrow> bool" where
  "is_pipeline_complete pane_content \<longleftrightarrow>
    list_ex (\<lambda>t. str_contains t (to_lowercase (join_lines (take 20 (rev (str_lines pane_content))))))
      completion_texts"

section \<open>The cached checkpoint\<close>

definition read_cached_checkpoint ::
  "(string \<Rightarrow> 'v option) \<Rightarrow> ('v \<Rightarrow> 'j checkpoint option) \<Rightarrow> file_system \<Rightarrow> path \<Rightarrow>
    path option \<Rightarrow> 'j checkpoint option \<times> path option" where
  "read_cached_checkpoint parse_json from_value fs working_dir cached =
    (let read = (\<lambda>p. case read_checkpoint parse_json from_value fs p of Inr c \<Rightarrow> Some c | Inl _ \<Rightarrow> None);
         rediscover =
           (case active_state (read_arc_loop_state (fs (loop_file working_dir))) of
              None \<Rightarrow> (None, None)
            | Some s \<Rightarrow>
                let p = resolve_checkpoint_path working_dir s in
                if file_exists fs p
                then (case read p of Some c \<Rightarrow> (Some c, Some p) | None \<Rightarrow> (None, None))
                else (None, None))
     in case cached of
          Some p \<Rightarrow> if file_exists fs p then (read p, cached) else rediscover
        | None \<Rightarrow> rediscover)"

definition current_phase_from_checkpoint ::
  "(string \<Rightarrow> 'v option) \<Rightarrow> ('v \<Rightarrow> 'j checkpoint option) \<Rightarrow> file_system \<Rightarrow> path \<Rightarrow> string option" where
  "current_phase_from_checkpoint parse_json from_value fs working_dir =
    (case fst (read_cached_checkpoint parse_json from_value fs working_dir None) of
       None \<Rightarrow> None
     | Some c \<Rightarrow> (case inferred_phase_name c of Some p \<Rightarrow> Some p | None \<Rightarrow> current_phase c))"

definition find_artifact_dir_cached :: "(path \<Rightarrow> bool) \<Rightarrow> path option \<Rightarrow> path \<Rightarrow> path option" where
  "find_artifact_dir_cached is_dir cached working_dir =
    (case cached of
       None \<Rightarrow> None
     | Some p \<Rightarrow>
         (case parent_file_name p of
            None \<Rightarrow> None
          | Some i \<Rightarrow>
              let d = path_join (path_join (path_join working_dir ''tmp'') ''arc'') i in
              if is_dir d then Some d else None))"

section \<open>Teammates\<close>

record swarm_snapshot =
  sw_pane_count :: nat
  sw_alive_count :: nat
  sw_working_count :: nat
  sw_idle_count :: nat
  sw_done_count :: nat

definition has_working_teammates :: "swarm_snapshot \<Rightarrow> bool" where
  "has_working_teammates s \<longleftrightarrow> sw_working_count s > 0"

definition all_finished :: "swarm_snapshot \<Rightarrow> bool" where
  "all_finished s \<longleftrightarrow> sw_pane_count s > 0 \<and> sw_working_count s = 0"

text \<open>One line of \<open>list-panes\<close>: process id, tab, target.\<close>

definition parse_pane :: "string \<Rightarrow> (nat \<times> string) option" where
  "parse_pane line =
    (case split_on (CHR 0x09) line of
       p # t # _ \<Rightarrow> (case parse_u32 (trim p) of Some pid \<Rightarrow> Some (pid, trim t) | None \<Rightarrow> None)
     | _ \<Rightarrow> None)"

definition prompt_visible :: "string \<Rightarrow> bool" where
  "prompt_visible out \<longleftrightarrow> list_ex (str_contains heavy_angle) (take 5 (rev (str_lines out)))"

definition count_pane ::
  "(nat \<Rightarrow> bool) \<Rightarrow> (string \<Rightarrow> string) \<Rightarrow> nat \<times> string \<Rightarrow> swarm_snapshot \<Rightarrow> swarm_snapshot" where
  "count_pane child_alive capture pane s =
    (if \<not> child_alive (fst pane) then s\<lparr>sw_done_count := sw_done_count s + 1\<rparr>
     else
       let s1 = s\<lparr>sw_alive_count := sw_alive_count s + 1\<rparr> in
       if prompt_visible (capture (snd pane)) then s1\<lparr>sw_idle_count := sw_idle_count s1 + 1\<rparr>
       else s1\<lparr>sw_working_count := sw_working_count s1 + 1\<rparr>)"

text \<open>
  \<open>listing\<close> is what \<open>list-panes\<close> printed, \<open>None\<close> when there is no server for the process;
  \<open>child_alive\<close> and \<open>capture\<close> are \<open>pgrep\<close> and \<open>capture-pane\<close>.
\<close>

definition check_swarm_activity ::
  "string option \<Rightarrow> (nat \<Rightarrow> bool) \<Rightarrow> (string \<Rightarrow> string) \<Rightarrow> swarm_snapshot option" where
  "check_swarm_activity listing child_alive capture =
    (case listing of
       None \<Rightarrow> None
     | Some out \<Rightarrow>
         let panes = List.map_filter parse_pane (str_lines out) in
         if panes = [] then None
         else Some (fold (count_pane child_alive capture) panes
                \<lparr>sw_pane_count = length panes, sw_alive_count = 0, sw_working_count = 0,
                 sw_idle_count = 0, sw_done_count = 0\<rparr>))"

section \<open>Artifacts\<close>

text \<open>
  A directory entry: a file with its size when \<open>metadata\<close> answers, a directory with its entries
  when it can be read, or something else (a link, a socket, an entry without a type).
\<close>

datatype node = FileNode "u64 option" | DirNode "node list option" | OtherNode

record artifact_snapshot =
  as_file_count :: u64
  as_total_bytes :: u64

fun visit_node :: "node \<Rightarrow> node list option list \<times> artifact_snapshot \<Rightarrow> node list option list \<times> artifact_snapshot" where
  "visit_node (FileNode m) (dirs, a) =
    (dirs, a\<lparr>as_file_count := as_file_count a + 1,
             as_total_bytes := as_total_bytes a + (case m of Some n \<Rightarrow> n | None \<Rightarrow> 0)\<rparr>)"
| "visit_node (DirNode d) (dirs, a) = (d # dirs, a)"
| "visit_node OtherNode (dirs, a) = (dirs, a)"

fun dir_size :: "node \<Rightarrow> nat" where
  "dir_size (DirNode (Some ns)) = 1 + sum_list (map dir_size ns)"
| "dir_size (DirNode None) = 1"
| "dir_size _ = 0"

lemma visit_nodes_size:
  "sum_list (map (\<lambda>d. dir_size (DirNode d)) (fst (fold visit_node ns (dirs, a))))
     = sum_list (map (\<lambda>d. dir_size (DirNode d)) dirs) + sum_list (map dir_size ns)"
proof (induction ns arbitrary: dirs a)
  case (Cons n ns)
  show ?case by (cases n) (simp_all add: Cons.IH)
qed simp

text \<open>The walk over the stack of directories still to be visited.\<close>

function walk :: "node list option list \<Rightarrow> artifact_snapshot \<Rightarrow> artifact_snapshot" where
  "walk [] a = a"
| "walk (None # dirs) a = walk dirs a"
| "walk (Some ns # dirs) a = (case fold visit_node ns (dirs, a) of (dirs', a') \<Rightarrow> walk dirs' a')"
  by pat_completeness auto
termination
proof (relation "measure (\<lambda>(dirs, a). sum_list (map (\<lambda>d. dir_size (DirNode d)) dirs))", goal_cases)
  case (3 ns dirs a)
  then show ?case using visit_nodes_size [of ns dirs a] by (auto simp: case_prod_beta)
qed simp_all

definition scan_artifact_dir :: "node \<Rightarrow> artifact_snapshot option" where
  "scan_artifact_dir n =
    (case n of
       DirNode d \<Rightarrow> Some (walk [d] \<lparr>as_file_count = 0, as_total_bytes = 0\<rparr>)
     | _ \<Rightarrow> None)"


section \<open>No plan name can add an argument\<close>

text \<open>
  How a POSIX shell splits a line into words, as far as single quotes, backslashes and spaces go:
  the flag tells whether the scan is inside quotes, then comes the word being read.
\<close>

fun sh_words :: "bool \<Rightarrow> string option \<Rightarrow> string \<Rightarrow> string list option" where
  "sh_words True cur [] = None"
| "sh_words False cur [] = (case cur of None \<Rightarrow> Some [] | Some w \<Rightarrow> Some [w])"
| "sh_words True cur (c # cs) =
    (if c = CHR 0x27 then sh_words False cur cs else sh_words True (Some (or_empty cur @ [c])) cs)"
| "sh_words False cur (c # cs) =
    (if c = CHR 0x20 then
       (case cur of None \<Rightarrow> sh_words False None cs
        | Some w \<Rightarrow> map_option (\<lambda>ws. w # ws) (sh_words False None cs))
     else if c = CHR 0x27 then sh_words True (Some (or_empty cur)) cs
     else if c = CHR 0x5C then
       (case cs of [] \<Rightarrow> None | d # ds \<Rightarrow> sh_words False (Some (or_empty cur @ [d])) ds)
     else sh_words False (Some (or_empty cur @ [c])) cs)"

lemma or_empty_Some [simp]: "or_empty (Some s) = s"
  by (simp add: or_empty_def)

lemma sh_words_escaped:
  "sh_words True (Some w) (escape_quotes s @ CHR 0x27 # rest) = sh_words False (Some (w @ s)) rest"
  by (induction s arbitrary: w) auto

lemma escape_quotes_plain: "CHR 0x27 \<notin> set s \<Longrightarrow> escape_quotes s = s"
  by (induction s) auto

lemma shell_escape_eq: "shell_escape s = CHR 0x27 # escape_quotes s @ [CHR 0x27]"
  by (simp add: shell_escape_def escape_quotes_plain)

lemma sh_words_shell_escape:
  "sh_words False cur (shell_escape s @ rest) = sh_words False (Some (or_empty cur @ s)) rest"
  by (simp add: shell_escape_eq sh_words_escaped)

lemma sh_words_flags:
  "sh_words False (Some w) (flag_text flags) = Some (w # flags)"
proof (induction flags arbitrary: w)
  case (Cons flag flags)
  have "sh_words False (Some w) (flag_text (flag # flags))
      = map_option (\<lambda>ws. w # ws) (sh_words False None (shell_escape flag @ flag_text flags))"
    by (simp add: flag_text_def)
  also have "\<dots> = Some (w # flag # flags)"
    by (simp add: sh_words_shell_escape Cons.IH or_empty_def)
  finally show ?case .
qed (simp add: flag_text_def)

lemma sh_words_resume:
  "sh_words False (Some w) ('' --resume'' @ flag_text flags) = Some (w # ''--resume'' # flags)"
  by (simp add: sh_words_flags or_empty_def)

text \<open>
  No plan name and no flag can add an argument. Split by a POSIX shell, the command a session is
  started with is the slash command, the plan's name as it is, \<open>--resume\<close> when asked for, and the
  configured flags; the recovery command is the same with \<open>--resume\<close>.
\<close>
theorem commands_have_exact_words:
  "sh_words False None (build_arc_command plan cfg)
     = Some ([''/rune:arc'', plan] @ (if sc_resume cfg then [''--resume''] else []) @ sc_arc_flags cfg)
   \<and> sh_words False None (build_resume_command plan cfg)
     = Some ([''/rune:arc'', plan, ''--resume''] @ sc_arc_flags cfg)
   \<and> sh_words False None (build_arc_command_plain plan) = Some [''/rune:arc'', plan]"
proof -
  have head: "sh_words False None (''/rune:arc '' @ shell_escape plan @ rest)
      = map_option (\<lambda>ws. ''/rune:arc'' # ws) (sh_words False (Some plan) rest)" for rest
    using sh_words_shell_escape [of None plan rest] by (simp add: or_empty_def)
  have flags: "sh_words False (Some plan) (flag_text (sc_arc_flags cfg)) = Some (plan # sc_arc_flags cfg)"
    by (rule sh_words_flags)
  from head [of "[]"] have plain: "sh_words False None (build_arc_command_plain plan) = Some [''/rune:arc'', plan]"
    by (simp add: build_arc_command_plain_def)
  show ?thesis
    using plain head [of "flag_text (sc_arc_flags cfg)"] head [of "'' --resume'' @ flag_text (sc_arc_flags cfg)"]
      flags sh_words_resume [of plan "sc_arc_flags cfg"]
    by (simp add: build_arc_command_def build_arc_command_plain_def build_resume_command_def del: sh_words.simps)
qed

section \<open>When a run is restarted, and how\<close>

lemma terminal_is_complete: "is_terminal_phase_completed c \<Longrightarrow> is_complete c"
  by (simp add: is_complete_def)

text \<open>
  The restart decision. The pipeline counts as done exactly when a checkpoint with some progress
  is found and is complete; it is resumed exactly when one with some progress is found and is not;
  in every other case (no loop state, no checkpoint on disk, unreadable, no progress) it starts
  afresh. No phase asks for a fresh start once there is progress.
\<close>
theorem restart_decision_exact:
  "resolve_restart_command parse_json from_value fs wd plan cfg cmd =
    (case restart_checkpoint_path fs wd of
       None \<Rightarrow> Fresh cmd
     | Some p \<Rightarrow>
         (case read_checkpoint parse_json from_value fs p of
            Inl _ \<Rightarrow> Fresh cmd
          | Inr c \<Rightarrow>
              if \<not> (\<exists>ps \<in> set (hm_values (ck_phases c)).
                     ps_status ps \<in> {''completed'', ''in_progress'', ''skipped''}) then Fresh cmd
              else if is_complete c then AlreadyDone
              else ResumeWith (build_resume_command plan cfg)))"
proof -
  have rec: "pp_recovery (category_profile k) \<noteq> FreshStart" for k by (cases k) simp_all
  then have "pp_recovery (case profile_for_phase p of Some p \<Rightarrow> p | None \<Rightarrow> default_profile) \<noteq> FreshStart" for p
    by (auto simp: profile_for_phase_def default_profile_def split: option.split)
  then have resume: "(case pp_recovery (case profile_for_phase p of Some p \<Rightarrow> p | None \<Rightarrow> default_profile) of
      FreshStart \<Rightarrow> x | Resume \<Rightarrow> y | ResumeCheckPR \<Rightarrow> y) = y" for p and x y :: RestartDecision
    by (metis RecoveryStrategy.exhaust RecoveryStrategy.simps(7,8,9))
  show ?thesis
  proof (cases "restart_checkpoint_path fs wd")
    case (Some p)
    then show ?thesis
      by (cases "read_checkpoint parse_json from_value fs p")
        (simp_all add: resolve_restart_command_def has_progress_def list_ex_iff Let_def resume terminal_is_complete)
  qed (simp add: resolve_restart_command_def)
qed

section \<open>Activity\<close>

text \<open>The files below a directory entry, and their bytes.\<close>

fun files_below :: "node \<Rightarrow> nat" where
  "files_below (FileNode _) = 1"
| "files_below (DirNode (Some ns)) = sum_list (map files_below ns)"
| "files_below (DirNode None) = 0"
| "files_below OtherNode = 0"

fun bytes_below :: "node \<Rightarrow> u64" where
  "bytes_below (FileNode m) = (case m of Some n \<Rightarrow> n | None \<Rightarrow> 0)"
| "bytes_below (DirNode (Some ns)) = sum_list (map bytes_below ns)"
| "bytes_below (DirNode None) = 0"
| "bytes_below OtherNode = 0"

definition add_snap :: "artifact_snapshot \<Rightarrow> nat \<Rightarrow> u64 \<Rightarrow> artifact_snapshot" where
  "add_snap a n b = \<lparr>as_file_count = as_file_count a + of_nat n, as_total_bytes = as_total_bytes a + b\<rparr>"

abbreviation pending_files :: "node list option list \<Rightarrow> nat" where
  "pending_files dirs \<equiv> sum_list (map (\<lambda>d. files_below (DirNode d)) dirs)"

abbreviation pending_bytes :: "node list option list \<Rightarrow> u64" where
  "pending_bytes dirs \<equiv> sum_list (map (\<lambda>d. bytes_below (DirNode d)) dirs)"

lemma add_snap_sel [simp]:
  "as_file_count (add_snap a n b) = as_file_count a + of_nat n" "as_total_bytes (add_snap a n b) = as_total_bytes a + b"
  by (simp_all add: add_snap_def)

lemma snap_eqI: "as_file_count (a :: artifact_snapshot) = as_file_count b \<Longrightarrow> as_total_bytes a = as_total_bytes b \<Longrightarrow> a = b"
  by simp

lemma visit_nodes_total:
  "fold visit_node ns (dirs, a) = (dirs', a') \<Longrightarrow>
    add_snap a' (pending_files dirs') (pending_bytes dirs')
      = add_snap a (pending_files dirs + sum_list (map files_below ns)) (pending_bytes dirs + sum_list (map bytes_below ns))"
proof (induction ns arbitrary: dirs a)
  case (Cons n ns)
  show ?case
  proof (cases n)
    case (FileNode m)
    with Cons.prems have "fold visit_node ns (dirs, a\<lparr>as_file_count := as_file_count a + 1,
        as_total_bytes := as_total_bytes a + (case m of Some n \<Rightarrow> n | None \<Rightarrow> 0)\<rparr>) = (dirs', a')" by simp
    from Cons.IH [OF this] FileNode show ?thesis by (simp add: add_snap_def add_ac)
  next
    case (DirNode d)
    with Cons.prems have "fold visit_node ns (d # dirs, a) = (dirs', a')" by simp
    from Cons.IH [OF this] DirNode show ?thesis by (simp add: add_snap_def add_ac)
  next
    case OtherNode
    with Cons.prems have "fold visit_node ns (dirs, a) = (dirs', a')" by simp
    from Cons.IH [OF this] OtherNode show ?thesis by simp
  qed
qed simp

lemma walk_total: "walk dirs a = add_snap a (pending_files dirs) (pending_bytes dirs)"
proof (induction dirs a rule: walk.induct)
  case (3 ns dirs a)
  obtain dirs' a' where f: "fold visit_node ns (dirs, a) = (dirs', a')" by fastforce
  from 3 [OF f [symmetric]] visit_nodes_total [OF f] f show ?case by (simp add: add.commute)
qed (simp_all add: add_snap_def)

text \<open>
  The snapshot of an artifact directory. The walk over the stack of open directories ends and
  counts every regular file below the directory once, with the sum of their sizes in 64 bits;
  unreadable directories and links count as empty.
\<close>
theorem artifact_scan_exact:
  "scan_artifact_dir n =
    (case n of
       DirNode d \<Rightarrow> Some \<lparr>as_file_count = of_nat (files_below n), as_total_bytes = bytes_below n\<rparr>
     | _ \<Rightarrow> None)"
  by (cases n) (simp_all add: scan_artifact_dir_def walk_total add_snap_def)

lemma count_panes:
  "let s' = fold (count_pane alive cap) ps s in
     sw_pane_count s' = sw_pane_count s
     \<and> sw_alive_count s' = sw_alive_count s + length (filter (\<lambda>p. alive (fst p)) ps)
     \<and> sw_done_count s' = sw_done_count s + length (filter (\<lambda>p. \<not> alive (fst p)) ps)
     \<and> sw_idle_count s' = sw_idle_count s + length (filter (\<lambda>p. alive (fst p) \<and> prompt_visible (cap (snd p))) ps)
     \<and> sw_working_count s' = sw_working_count s + length (filter (\<lambda>p. alive (fst p) \<and> \<not> prompt_visible (cap (snd p))) ps)"
  by (induction ps arbitrary: s) (simp_all add: count_pane_def Let_def)

text \<open>
  Teammates: every pane is counted once, as done, idle or working, and all have finished exactly when
  no live pane is without a prompt.
\<close>
theorem swarm_counts:
  assumes "check_swarm_activity (Some out) alive cap = Some s"
  shows "sw_pane_count s = sw_done_count s + sw_idle_count s + sw_working_count s
    \<and> sw_alive_count s = sw_idle_count s + sw_working_count s
    \<and> (all_finished s \<longleftrightarrow>
        (\<forall>p \<in> set (List.map_filter parse_pane (str_lines out)). alive (fst p) \<longrightarrow> prompt_visible (cap (snd p))))"
proof -
  define panes where "panes = List.map_filter parse_pane (str_lines out)"
  let ?s0 = "\<lparr>sw_pane_count = length panes, sw_alive_count = 0, sw_working_count = 0,
                 sw_idle_count = 0, sw_done_count = 0\<rparr>"
  have s: "s = fold (count_pane alive cap) panes ?s0" and ne: "panes \<noteq> []"
    using assms by (auto simp: check_swarm_activity_def panes_def Let_def split: if_splits)
  note c = count_panes [where alive = alive and cap = cap and ps = panes and s = ?s0, folded s, unfolded Let_def]
  have split: "length panes = length (filter (\<lambda>p. \<not> alive (fst p)) panes)
      + length (filter (\<lambda>p. alive (fst p) \<and> prompt_visible (cap (snd p))) panes)
      + length (filter (\<lambda>p. alive (fst p) \<and> \<not> prompt_visible (cap (snd p))) panes)" for panes :: "(nat \<times> string) list"
    by (induction panes) auto
  have alive: "length (filter (\<lambda>p. alive (fst p)) panes) =
      length (filter (\<lambda>p. alive (fst p) \<and> prompt_visible (cap (snd p))) panes)
      + length (filter (\<lambda>p. alive (fst p) \<and> \<not> prompt_visible (cap (snd p))) panes)" for panes :: "(nat \<times> string) list"
    by (induction panes) auto
  from c split [of panes] alive [of panes] ne show ?thesis
    by (auto simp: all_finished_def panes_def filter_empty_conv)
qed

end
