(* ===== verification/Watchdog.thy ===== *)
theory Watchdog
  imports GW_Prelude
begin

text \<open>
  The watchdog's parameters (\<open>config/watchdog.rs\<close>), read from environment variables with defaults and
  limits, and the timing constants of the monitors (\<open>engine/monitor_constants.rs\<close>). \<open>getenv\<close> gives
  the value of a variable, \<open>None\<close> when it is unset or not valid Unicode. All values are seconds
  unless they are counts.
\<close>

section \<open>Constants\<close>

definition FOREGROUND_MIN_COMPLETION_AGE_SECS :: nat where "FOREGROUND_MIN_COMPLETION_AGE_SECS = 300"

definition DAEMON_MIN_COMPLETION_AGE_SECS :: nat where "DAEMON_MIN_COMPLETION_AGE_SECS = 60"

definition KILL_GATE_MIN_SECS :: nat where "KILL_GATE_MIN_SECS = 300"

definition COMPLETION_GRACE_SECS :: nat where "COMPLETION_GRACE_SECS = 300"

definition POLL_INTERVAL_SECS :: nat where "POLL_INTERVAL_SECS = 5"

definition STATUS_LOG_INTERVAL_SECS :: nat where "STATUS_LOG_INTERVAL_SECS = 30"

definition LOOP_STATE_GONE_GRACE_SECS :: nat where "LOOP_STATE_GONE_GRACE_SECS = 300"

definition KILL_GATE_RECOVERY_WINDOW_SECS :: nat where "KILL_GATE_RECOVERY_WINDOW_SECS = 30"

section \<open>Configuration\<close>

record watchdog_config =
  wd_idle_nudge_secs :: nat
  wd_idle_kill_secs :: nat
  wd_error_stall_threshold_secs :: nat
  wd_artifact_scan_interval_secs :: nat
  wd_pipeline_timeout :: nat
  wd_checkpoint_poll_interval_secs :: nat
  wd_max_crash_retries :: nat
  wd_error_confirm_medium_secs :: nat
  wd_error_confirm_high_secs :: nat
  wd_prompt_accept_enabled :: bool
  wd_prompt_accept_debounce_secs :: nat
  wd_crash_window_secs :: nat
  wd_crash_stability_secs :: nat
  wd_loop_state_warmup_secs :: nat
  wd_restart_cooldown_secs :: nat
  wd_max_total_crash_retries :: nat

definition env_or :: "(string \<Rightarrow> string option) \<Rightarrow> string \<Rightarrow> nat \<Rightarrow> nat" where
  "env_or getenv key dflt =
    (case getenv key of
       Some val \<Rightarrow> (case parse_u64 val of Some v \<Rightarrow> v | None \<Rightarrow> dflt)
     | None \<Rightarrow> dflt)"

definition clamp :: "nat \<Rightarrow> nat \<Rightarrow> nat \<Rightarrow> nat" where
  "clamp x lo hi = (if x < lo then lo else if x > hi then hi else x)"

lemma clamp_range: "lo \<le> hi \<Longrightarrow> lo \<le> clamp x lo hi \<and> clamp x lo hi \<le> hi"
  by (simp add: clamp_def)

definition from_env :: "(string \<Rightarrow> string option) \<Rightarrow> watchdog_config" where
  "from_env getenv =
     \<lparr>wd_idle_nudge_secs = clamp (env_or getenv ''GW_IDLE_NUDGE_SECS'' 300) 30 3600,
      wd_idle_kill_secs = clamp (env_or getenv ''GW_IDLE_KILL_SECS'' 1800) 60 86400,
      wd_error_stall_threshold_secs = clamp (env_or getenv ''GW_ERROR_STALL_THRESHOLD_SECS'' 60) 10 3600,
      wd_artifact_scan_interval_secs = clamp (env_or getenv ''GW_ARTIFACT_SCAN_INTERVAL_SECS'' 15) 5 300,
      wd_pipeline_timeout = clamp (env_or getenv ''GW_PIPELINE_TIMEOUT_SECS'' (6 * 3600)) 60 86400,
      wd_checkpoint_poll_interval_secs = clamp (env_or getenv ''GW_CHECKPOINT_POLL_INTERVAL_SECS'' 10) 1 300,
      wd_max_crash_retries = clamp (env_or getenv ''GW_MAX_CRASH_RETRIES'' 5) 1 20,
      wd_error_confirm_medium_secs = env_or getenv ''GW_ERROR_CONFIRM_MEDIUM_SECS'' (15 * 60),
      wd_error_confirm_high_secs = env_or getenv ''GW_ERROR_CONFIRM_HIGH_SECS'' (5 * 60),
      wd_prompt_accept_enabled = (env_or getenv ''GW_PROMPT_ACCEPT'' 1 \<noteq> 0),
      wd_prompt_accept_debounce_secs = env_or getenv ''GW_PROMPT_ACCEPT_DEBOUNCE_SECS'' 5,
      wd_crash_window_secs = clamp (env_or getenv ''GW_CRASH_WINDOW_SECS'' 900) 60 7200,
      wd_crash_stability_secs = clamp (env_or getenv ''GW_CRASH_STABILITY_SECS'' 1800) 60 7200,
      wd_loop_state_warmup_secs = clamp (env_or getenv ''GW_LOOP_STATE_WARMUP_SECS'' 300) 30 1800,
      wd_restart_cooldown_secs = clamp (env_or getenv ''GW_RESTART_COOLDOWN_SECS'' 60) 5 600,
      wd_max_total_crash_retries = clamp (env_or getenv ''GW_MAX_TOTAL_CRASH_RETRIES'' 10) 2 50\<rparr>"

text \<open>
  Whatever the environment says, the crash limits stay in their ranges: at least one and at most
  twenty crashes per window, at most fifty restarts in all, a stability period of at least a minute.
\<close>
theorem watchdog_ranges:
  "1 \<le> wd_max_crash_retries (from_env g) \<and> wd_max_crash_retries (from_env g) \<le> 20
   \<and> 2 \<le> wd_max_total_crash_retries (from_env g) \<and> wd_max_total_crash_retries (from_env g) \<le> 50
   \<and> 60 \<le> wd_crash_window_secs (from_env g) \<and> 60 \<le> wd_crash_stability_secs (from_env g)
   \<and> 60 \<le> wd_pipeline_timeout (from_env g) \<and> wd_pipeline_timeout (from_env g) \<le> 86400"
  by (simp add: from_env_def clamp_def)

text \<open>
  Nudging and killing are limited separately: nothing keeps the nudge before the kill.
\<close>
theorem nudge_may_follow_kill:
  "let g = (\<lambda>k. if k = ''GW_IDLE_NUDGE_SECS'' then Some ''3600''
               else if k = ''GW_IDLE_KILL_SECS'' then Some ''60'' else None)
   in wd_idle_kill_secs (from_env g) < wd_idle_nudge_secs (from_env g)"
proof -
  have "parse_u64 ''3600'' = Some 3600" "parse_u64 ''60'' = Some 60"
    by (simp_all add: parse_u64_def digit_value_def)
  then show ?thesis by (simp add: from_env_def env_or_def clamp_def)
qed

end
