(* ===== verification/Recovery.thy ===== *)
theory Recovery
  imports Executor Crash_Loop Retry Session_Util Watchdog
begin

text \<open>
  What the daemon does when the monitor of a run ends (\<open>daemon/heartbeat.rs\<close>): completion, failure,
  the crash budget and backoff, waiting for the network, and the recovery of a session. Sleeps
  separate the sections of a handler; each section is a function of the state it finds, and what
  other tasks do during a sleep is an argument of the handler. Events are left out.
\<close>

section \<open>State, outcomes and what the world answers\<close>

datatype DaemonRunOutcome =
    MonitorCompleted
  | MonitorFailed string
  | MonitorCrashed string
  | MonitorTimeout string
  | MonitorStuck string
  | MonitorErrorDetected ErrorClass string
  | MonitorCancelled

text \<open>The daemon with the files of the repositories, and whether it waits for the network.\<close>

record daemon =
  d_world :: world
  d_fs :: file_system
  d_waiting :: bool

text \<open>The fixed surroundings: paths and hashes, JSON, the clock's floor, and the configuration.\<close>

record ('v, 'j) surroundings =
  su_env :: env
  su_parse_json :: "string \<Rightarrow> 'v option"
  su_from_value :: "'v \<Rightarrow> 'j checkpoint option"
  su_history_json :: "crash_history \<Rightarrow> string"
  su_parse_history :: "string \<Rightarrow> crash_history option"
  su_floor :: int
  su_watchdog :: watchdog_config

text \<open>Answers to one handler of a monitor's outcome.\<close>

record outcome_io =
  oi_now :: utc
  oi_instant :: instant
  oi_epoch :: nat
  oi_flush :: io_result
  oi_kill :: io_result
  oi_clear :: io_result
  oi_persist :: io_result
  oi_drain :: spawn_io
  oi_retry :: spawn_io

text \<open>Answers to one recovery; the disk checks come twice.\<close>

record recovery_io =
  ro_remove_loop :: io_result
  ro_repo_disk :: io_result
  ro_home_disk :: io_result
  ro_claude_alive :: bool
  ro_kill :: io_result
  ro_repo_disk2 :: io_result
  ro_home_disk2 :: io_result
  ro_spawn :: "string + nat"
  ro_real_pid :: "nat option"
  ro_send :: io_result
  ro_now :: utc
  ro_flush :: io_result

abbreviation d_registry :: "daemon \<Rightarrow> registry" where
  "d_registry d \<equiv> w_registry (d_world d)"

definition on_registry :: "(registry \<Rightarrow> registry) \<Rightarrow> daemon \<Rightarrow> daemon" where
  "on_registry f d = d\<lparr>d_world := (d_world d)\<lparr>w_registry := f (d_registry d)\<rparr>\<rparr>"

definition on_sessions :: "(string list \<Rightarrow> string list) \<Rightarrow> daemon \<Rightarrow> daemon" where
  "on_sessions f d = d\<lparr>d_world := (d_world d)\<lparr>w_sessions := f (w_sessions (d_world d))\<rparr>\<rparr>"

text \<open>A status update whose error is only logged.\<close>

definition set_status ::
  "env \<Rightarrow> utc \<Rightarrow> io_result \<Rightarrow> string \<Rightarrow> RunStatus \<Rightarrow> string option \<Rightarrow> string option \<Rightarrow> daemon \<Rightarrow> daemon" where
  "set_status E now flush run_id status phase err =
     on_registry (\<lambda>r. snd (update_status E now flush run_id status phase err r))"

definition drain_queues :: "env \<Rightarrow> outcome_io \<Rightarrow> path \<Rightarrow> bool \<Rightarrow> daemon \<Rightarrow> daemon" where
  "drain_queues E io repo_dir as_failed d =
     d\<lparr>d_world := drain_if_available E (oi_now io) (oi_drain io) (oi_retry io) repo_dir as_failed (d_world d)\<rparr>"

definition history_path :: "path \<Rightarrow> path" where
  "history_path working_dir = path_join (path_join working_dir ''.gw'') ''crash-history.json''"

definition clear_history :: "io_result \<Rightarrow> path \<Rightarrow> file_system \<Rightarrow> file_system" where
  "clear_history io repo_dir fs =
    (case io of None \<Rightarrow> fs(history_path repo_dir := Absent) | Some _ \<Rightarrow> fs)"

section \<open>Completion and failure\<close>

definition completed_section :: "env \<Rightarrow> outcome_io \<Rightarrow> string \<Rightarrow> daemon \<Rightarrow> daemon" where
  "completed_section E io run_id d =
    (case hm_get (reg_runs (d_registry d)) run_id of
       None \<Rightarrow> d
     | Some entry \<Rightarrow>
         let repo_dir = re_repo_dir entry;
             d1 = set_status E (oi_now io) (oi_flush io) run_id Succeeded (Some ''complete'') None d;
             d2 = d1\<lparr>d_fs := clear_history (oi_clear io) repo_dir (d_fs d1)\<rparr>;
             d3 = (case re_tmux_session entry of
                     Some s \<Rightarrow> on_sessions (kill_session (oi_kill io) s) d2
                   | None \<Rightarrow> d2)
         in drain_queues E io repo_dir False d3)"

definition failed_section :: "env \<Rightarrow> outcome_io \<Rightarrow> string \<Rightarrow> string \<Rightarrow> daemon \<Rightarrow> daemon" where
  "failed_section E io run_id reason d =
    (let d1 = on_registry (mark_failed E (oi_now io) run_id reason) d in
     case hm_get (reg_runs (d_registry d1)) run_id of
       None \<Rightarrow> d1
     | Some entry \<Rightarrow> drain_queues E io (re_repo_dir entry) True d1)"

section \<open>The crash budget\<close>

definition from_watchdog :: "watchdog_config \<Rightarrow> detector" where
  "from_watchdog cfg =
     with_total_limit (of_nat (wd_max_crash_retries cfg)) (wd_crash_window_secs cfg)
       (wd_crash_stability_secs cfg) (of_nat (wd_max_total_crash_retries cfg))"

definition compute_run_uptime_secs :: "utc \<Rightarrow> run_entry \<Rightarrow> nat" where
  "compute_run_uptime_secs now e =
    (let session_start = (case re_last_recovery_at e of Some t \<Rightarrow> t | None \<Rightarrow> re_started_at e)
     in secs_between now session_start)"

text \<open>
  How a handler goes on: it is finished, it panicked (an \<open>Instant\<close> out of range while the history is
  loaded), it waits for the network, or it sleeps that many seconds and then recovers the run.
\<close>

datatype next_step =
    Finished
  | Panicked
  | AwaitNetwork
  | RecoverAfter nat path path "path option"

fun class_name :: "ErrorClass \<Rightarrow> string" where
  "class_name Crash = ''Crash''"
| "class_name Stuck = ''Stuck''"
| "class_name Timeout = ''Timeout''"
| "class_name ApiOverload = ''ApiOverload''"
| "class_name AuthError = ''AuthError''"
| "class_name NetworkError = ''NetworkError''"
| "class_name PermissionBlocked = ''PermissionBlocked''"
| "class_name RequestTooLarge = ''RequestTooLarge''"
| "class_name BootstrapError = ''BootstrapError''"

definition budget_section ::
  "('v, 'j) surroundings \<Rightarrow> outcome_io \<Rightarrow> string \<Rightarrow> ErrorClass \<Rightarrow> string \<Rightarrow> daemon \<Rightarrow> next_step \<times> daemon" where
  "budget_section S io run_id cls reason d =
    (case hm_get (reg_runs (d_registry d)) run_id of
       None \<Rightarrow> (Finished, d)
     | Some entry \<Rightarrow>
         let repo_dir = re_repo_dir entry; phase = re_current_phase entry;
             file = d_fs d (history_path repo_dir)
         in (case load_history (su_parse_history S) (su_floor S) (oi_instant io) (oi_epoch io) file
                   (from_watchdog (su_watchdog S)) of
               None \<Rightarrow> (Panicked, d)
             | Some loaded \<Rightarrow>
                 let healthy = record_healthy_runtime (oi_instant io)
                       (compute_run_uptime_secs (oi_now io) entry) loaded;
                     (decision, detector) =
                       record_restart_for_phase (su_floor S) (oi_instant io) phase healthy
                 in (case decision of
                       StopCrashLoop \<Rightarrow>
                         let d1 = set_status (su_env S) (oi_now io) (oi_flush io) run_id Failed None
                               (Some (''Crash loop ('' @ class_name cls @ ''): '' @ reason)) d;
                             d2 = d1\<lparr>d_fs := clear_history (oi_clear io) repo_dir (d_fs d1)\<rparr>
                         in (Finished, drain_queues (su_env S) io repo_dir True d2)
                     | AllowRestart \<Rightarrow>
                         let (_, file') = persist (su_history_json S) (oi_persist io) (oi_instant io)
                               (oi_epoch io) detector file;
                             attempt = (case phase of
                                 Some p \<Rightarrow> unat (crashes_for_phase detector p) - 1
                               | None \<Rightarrow> 0)
                         in (RecoverAfter (backoff_for_attempt cls attempt) repo_dir (re_plan_path entry)
                               (re_config_dir entry),
                             d\<lparr>d_fs := (d_fs d)(history_path repo_dir := file')\<rparr>))))"

text \<open>Errors no retry can help.\<close>

definition fatal_section :: "env \<Rightarrow> outcome_io \<Rightarrow> string \<Rightarrow> ErrorClass \<Rightarrow> string \<Rightarrow> daemon \<Rightarrow> daemon" where
  "fatal_section E io run_id cls reason d =
    (let d1 = set_status E (oi_now io) (oi_flush io) run_id Failed None
           (Some (''Fatal '' @ class_name cls @ '': '' @ reason)) d
     in case hm_get (reg_runs (d_registry d1)) run_id of
          None \<Rightarrow> d1
        | Some entry \<Rightarrow> drain_queues E io (re_repo_dir entry) True d1)"

text \<open>Up to the first sleep.\<close>

definition outcome_section ::
  "('v, 'j) surroundings \<Rightarrow> outcome_io \<Rightarrow> string \<Rightarrow> DaemonRunOutcome \<Rightarrow> daemon \<Rightarrow> next_step \<times> daemon" where
  "outcome_section S io run_id outcome d =
    (case outcome of
       MonitorCompleted \<Rightarrow> (Finished, completed_section (su_env S) io run_id d)
     | MonitorFailed reason \<Rightarrow> (Finished, failed_section (su_env S) io run_id reason d)
     | MonitorCancelled \<Rightarrow> (Finished, d)
     | MonitorErrorDetected cls reason \<Rightarrow>
         if skips_plan cls then (Finished, fatal_section (su_env S) io run_id cls reason d)
         else if cls = NetworkError then (AwaitNetwork, d\<lparr>d_waiting := True\<rparr>)
         else budget_section S io run_id cls reason d
     | MonitorCrashed reason \<Rightarrow> budget_section S io run_id Crash reason d
     | MonitorStuck reason \<Rightarrow> budget_section S io run_id Stuck reason d
     | MonitorTimeout reason \<Rightarrow> budget_section S io run_id Timeout reason d)"

section \<open>Waiting for the network\<close>

text \<open>
  What the poll of \<open>wait_for_connectivity\<close> sees, in order: the cancellation, the deadline with its
  last probe, or a poll with its probe.
\<close>

datatype net_event = NetCancelled | NetDeadline bool | NetPoll bool

fun wait_for_connectivity :: "net_event list \<Rightarrow> bool option" where
  "wait_for_connectivity [] = None"
| "wait_for_connectivity (NetCancelled # _) = Some False"
| "wait_for_connectivity (NetDeadline online # _) = Some online"
| "wait_for_connectivity (NetPoll online # es) = (if online then Some True else wait_for_connectivity es)"

definition network_section ::
  "('v, 'j) surroundings \<Rightarrow> outcome_io \<Rightarrow> string \<Rightarrow> bool \<Rightarrow> daemon \<Rightarrow> next_step \<times> daemon" where
  "network_section S io run_id restored d =
    (let d1 = d\<lparr>d_waiting := False\<rparr> in
     if restored then
       (case hm_get (reg_runs (d_registry d1)) run_id of
          None \<Rightarrow> (Finished, d1)
        | Some e \<Rightarrow> (RecoverAfter 0 (re_repo_dir e) (re_plan_path e) (re_config_dir e), d1))
     else
       (Finished, set_status (su_env S) (oi_now io) (oi_flush io) run_id Failed None
          (Some (''Network unavailable for 30 minutes '' @ em_dash @ '' giving up'')) d1))"

section \<open>Recovery\<close>

text \<open>
  The first section of a recovery: the gate on the run's status, the guard against another plan's
  loop state, the restart decision, the disk checks, the check of the old session, and the new
  session. The result is the process id and the command still to be typed.
\<close>

definition aborted :: "('v, 'j) surroundings \<Rightarrow> recovery_io \<Rightarrow> string \<Rightarrow> string \<Rightarrow> daemon \<Rightarrow> daemon" where
  "aborted S ro run_id reason d = set_status (su_env S) (ro_now ro) (ro_flush ro) run_id Failed None (Some reason) d"

definition spawn_section ::
  "('v, 'j) surroundings \<Rightarrow> recovery_io \<Rightarrow> string \<Rightarrow> string \<Rightarrow> daemon \<Rightarrow> (nat \<times> string) option \<times> daemon" where
  "spawn_section S ro run_id cmd d =
    (let session = tmux_name run_id;
         exists = session \<in> set (w_sessions (d_world d))
     in if exists \<and> ro_claude_alive ro then
          (None, set_status (su_env S) (ro_now ro) (ro_flush ro) run_id Running (Some ''running'') None
                   (on_registry (progress_run run_id ''running'' False) d))
        else
          let d1 = (if exists then on_sessions (kill_session (ro_kill ro) session) d else d) in
          (case ro_repo_disk2 ro of
             Some e \<Rightarrow> (None, aborted S ro run_id (''crash recovery aborted: '' @ e) d1)
           | None \<Rightarrow>
               (case ro_home_disk2 ro of
                  Some e \<Rightarrow> (None, aborted S ro run_id (''crash recovery aborted: '' @ e) d1)
                | None \<Rightarrow>
                    (case ro_spawn ro of
                       Inl e \<Rightarrow> (None, aborted S ro run_id (''crash recovery spawn failed: '' @ e) d1)
                     | Inr pid \<Rightarrow> (Some (pid, cmd), on_sessions (\<lambda>ss. session # ss) d1)))))"

definition drop_foreign_state :: "env \<Rightarrow> recovery_io \<Rightarrow> path \<Rightarrow> path \<Rightarrow> file_system \<Rightarrow> file_system" where
  "drop_foreign_state E ro repo_dir plan_path fs =
    (case read_arc_loop_state (fs (loop_file repo_dir)) of
       Active s \<Rightarrow>
         if \<not> plans_match E (ls_plan_file s) plan_path repo_dir \<and> ro_remove_loop ro = None
         then fs(loop_file repo_dir := Absent) else fs
     | _ \<Rightarrow> fs)"

definition recovery_begin ::
  "('v, 'j) surroundings \<Rightarrow> recovery_io \<Rightarrow> string \<Rightarrow> path \<Rightarrow> path \<Rightarrow> daemon \<Rightarrow> (nat \<times> string) option \<times> daemon" where
  "recovery_begin S ro run_id repo_dir plan_path d =
    (case hm_get (reg_runs (d_registry d)) run_id of
       None \<Rightarrow> (None, d)
     | Some entry \<Rightarrow>
         if is_terminal (re_status entry) then (None, d)
         else
           let config = session_config_new (wd_pipeline_timeout (su_watchdog S)) repo_dir;
               arc_command = ''/rune:arc '' @ [CHR 0x27] @ escape_quotes plan_path @ [CHR 0x27];
               d1 = d\<lparr>d_fs := drop_foreign_state (su_env S) ro repo_dir plan_path (d_fs d)\<rparr>
           in (case resolve_restart_command (su_parse_json S) (su_from_value S) (d_fs d1) repo_dir plan_path
                     config arc_command of
                 AlreadyDone \<Rightarrow>
                   (None, set_status (su_env S) (ro_now ro) (ro_flush ro) run_id Succeeded (Some ''complete'') None d1)
               | Fresh cmd \<Rightarrow>
                   (case ro_repo_disk ro of
                      Some e \<Rightarrow> (None, aborted S ro run_id (''Recovery aborted (repo disk): '' @ e) d1)
                    | None \<Rightarrow>
                        (case ro_home_disk ro of
                           Some e \<Rightarrow> (None, aborted S ro run_id (''Recovery aborted (GW_HOME disk): '' @ e) d1)
                         | None \<Rightarrow> spawn_section S ro run_id cmd d1))
               | ResumeWith cmd \<Rightarrow>
                   (case ro_repo_disk ro of
                      Some e \<Rightarrow> (None, aborted S ro run_id (''Recovery aborted (repo disk): '' @ e) d1)
                    | None \<Rightarrow>
                        (case ro_home_disk ro of
                           Some e \<Rightarrow> (None, aborted S ro run_id (''Recovery aborted (GW_HOME disk): '' @ e) d1)
                         | None \<Rightarrow> spawn_section S ro run_id cmd d1))))"

text \<open>After the wait for the new session: the command is typed and the entry updated.\<close>

definition recovery_finish ::
  "('v, 'j) surroundings \<Rightarrow> recovery_io \<Rightarrow> string \<Rightarrow> nat \<Rightarrow> daemon \<Rightarrow> daemon" where
  "recovery_finish S ro run_id pid d =
    (case ro_send ro of
       Some e \<Rightarrow> aborted S ro run_id (''crash recovery failed: '' @ e) d
     | None \<Rightarrow>
         let real = (case ro_real_pid ro of Some p \<Rightarrow> p | None \<Rightarrow> pid) in
         set_status (su_env S) (ro_now ro) (ro_flush ro) run_id Running (Some ''resuming'') None
           (on_registry (\<lambda>r. progress_run run_id ''resuming'' True
               (touch_run run_id (Some real) (Some (ro_now ro)) (Some (tmux_name run_id)) r)) d))"

definition attempt_recovery ::
  "('v, 'j) surroundings \<Rightarrow> recovery_io \<Rightarrow> (daemon \<Rightarrow> daemon) \<Rightarrow> string \<Rightarrow> path \<Rightarrow> path \<Rightarrow> daemon \<Rightarrow> daemon" where
  "attempt_recovery S ro during_init run_id repo_dir plan_path d =
    (case recovery_begin S ro run_id repo_dir plan_path d of
       (None, d1) \<Rightarrow> d1
     | (Some (pid, cmd), d1) \<Rightarrow> recovery_finish S ro run_id pid (during_init d1))"

text \<open>
  The whole handler. \<open>net\<close> is what the wait for the network comes to, \<open>woken\<close> whether the backoff
  ran to its end; the three functions are what other tasks do during the wait, the backoff, and the
  start of the new session. A panic ends only the handler.
\<close>

definition recover_after ::
  "('v, 'j) surroundings \<Rightarrow> recovery_io \<Rightarrow> bool \<Rightarrow> (daemon \<Rightarrow> daemon) \<Rightarrow> (daemon \<Rightarrow> daemon) \<Rightarrow> string \<Rightarrow>
    next_step \<times> daemon \<Rightarrow> daemon" where
  "recover_after S ro woken during_backoff during_init run_id st =
    (case st of
       (RecoverAfter secs repo_dir plan_path config_dir, d) \<Rightarrow>
         if woken then attempt_recovery S ro during_init run_id repo_dir plan_path (during_backoff d)
         else during_backoff d
     | (_, d) \<Rightarrow> d)"

definition handle_monitor_outcome ::
  "('v, 'j) surroundings \<Rightarrow> outcome_io \<Rightarrow> recovery_io \<Rightarrow> bool \<Rightarrow> bool \<Rightarrow> (daemon \<Rightarrow> daemon) \<Rightarrow>
    (daemon \<Rightarrow> daemon) \<Rightarrow> (daemon \<Rightarrow> daemon) \<Rightarrow> string \<Rightarrow> DaemonRunOutcome \<Rightarrow> daemon \<Rightarrow> daemon" where
  "handle_monitor_outcome S io ro net woken during_wait during_backoff during_init run_id outcome d =
    (case outcome_section S io run_id outcome d of
       (AwaitNetwork, d1) \<Rightarrow>
         recover_after S ro True id during_init run_id (network_section S io run_id net (during_wait d1))
     | st \<Rightarrow> recover_after S ro woken during_backoff during_init run_id st)"

text \<open>A monitor task that panics: the run is marked failed, and nothing else happens.\<close>

definition monitor_panicked :: "env \<Rightarrow> utc \<Rightarrow> string \<Rightarrow> daemon \<Rightarrow> daemon" where
  "monitor_panicked E now run_id =
     on_registry (mark_failed E now run_id (''Monitor panicked '' @ em_dash @ '' marking failed''))"


section \<open>Every outcome goes through the registry\<close>

lemma on_registry_simps [simp]:
  "d_registry (on_registry f d) = f (d_registry d)"
  "w_sessions (d_world (on_registry f d)) = w_sessions (d_world d)"
  "d_fs (on_registry f d) = d_fs d" "d_waiting (on_registry f d) = d_waiting d"
  by (simp_all add: on_registry_def)

lemma on_sessions_simps [simp]:
  "d_registry (on_sessions f d) = d_registry d"
  "w_sessions (d_world (on_sessions f d)) = f (w_sessions (d_world d))"
  "d_fs (on_sessions f d) = d_fs d"
  by (simp_all add: on_sessions_def)

lemma set_status_simps [simp]:
  "w_sessions (d_world (set_status E now fl i s ph er d)) = w_sessions (d_world d)"
  "d_fs (set_status E now fl i s ph er d) = d_fs d"
  by (simp_all add: set_status_def)

lemma drain_queues_fs [simp]: "d_fs (drain_queues E io repo b d) = d_fs d"
  by (simp add: drain_queues_def)

definition steps :: "env \<Rightarrow> daemon \<Rightarrow> daemon \<Rightarrow> bool" where
  "steps E d d' \<longleftrightarrow> evolves E (d_registry d) (d_registry d')"

named_theorems step_intros

lemma steps_refl [step_intros]: "steps E d d"
  by (simp add: steps_def)

lemma steps_trans: "steps E d d' \<Longrightarrow> steps E d' d'' \<Longrightarrow> steps E d d''"
  unfolding steps_def by (rule evolves_trans)

lemma steps_fs [step_intros]: "steps E d d' \<Longrightarrow> steps E d (d'\<lparr>d_fs := fs\<rparr>)"
  and steps_waiting [step_intros]: "steps E d d' \<Longrightarrow> steps E d (d'\<lparr>d_waiting := b\<rparr>)"
  by (simp_all add: steps_def)

lemma steps_sessions [step_intros]: "steps E d d' \<Longrightarrow> steps E d (on_sessions f d')"
  by (simp add: steps_def)

lemma steps_set_status [step_intros]: "steps E d d' \<Longrightarrow> steps E d (set_status E now fl i s ph er d')"
proof -
  assume "steps E d d'"
  moreover have "steps E d' (set_status E now fl i s ph er d')"
    unfolding steps_def set_status_def on_registry_simps
    by (cases "update_status E now fl i s ph er (d_registry d')") (simp add: evolves_update)
  ultimately show ?thesis by (rule steps_trans)
qed

lemma steps_mark_failed [step_intros]: "steps E d d' \<Longrightarrow> steps E d (on_registry (mark_failed E now i m) d')"
  by (erule steps_trans) (simp add: steps_def evolves_mark_failed)

lemma steps_progress [step_intros]: "steps E d d' \<Longrightarrow> steps E d (on_registry (progress_run i ph b) d')"
  by (erule steps_trans) (simp add: steps_def evolves_progress)

lemma steps_drain [step_intros]: "steps E d d' \<Longrightarrow> steps E d (drain_queues E io repo b d')"
  by (erule steps_trans) (simp add: steps_def drain_queues_def drain_evolves)

lemma steps_completed: "steps E d (completed_section E io i d)"
  unfolding completed_section_def Let_def by (auto intro!: step_intros split: option.split)

lemma steps_failed: "steps E d (failed_section E io i m d)"
  unfolding failed_section_def Let_def by (auto intro!: step_intros split: option.split)

lemma steps_fatal: "steps E d (fatal_section E io i c m d)"
  unfolding fatal_section_def Let_def by (auto intro!: step_intros split: option.split)

lemma steps_budget: "steps (su_env S) d (snd (budget_section S io i c m d))"
  unfolding budget_section_def Let_def
  by (auto intro!: step_intros split: option.split prod.split CrashLoopDecision.split)

lemma steps_outcome: "steps (su_env S) d (snd (outcome_section S io i out d))"
  unfolding outcome_section_def
  by (auto intro: steps_completed steps_failed steps_fatal steps_budget step_intros split: DaemonRunOutcome.split)

lemma steps_network: "steps (su_env S) d (snd (network_section S io i b d))"
  unfolding network_section_def Let_def by (auto intro!: step_intros split: option.split)

lemma steps_aborted [step_intros]: "steps (su_env S) d d' \<Longrightarrow> steps (su_env S) d (aborted S ro i m d')"
  unfolding aborted_def by (rule step_intros)

lemma steps_spawn [step_intros]:
  "steps (su_env S) d d' \<Longrightarrow> steps (su_env S) d (snd (spawn_section S ro i cmd d'))"
  unfolding spawn_section_def Let_def by (auto intro!: step_intros split: option.split sum.split)

lemma steps_begin: "steps (su_env S) d (snd (recovery_begin S ro i repo plan d))"
  unfolding recovery_begin_def Let_def
  by (auto intro!: step_intros split: option.split RestartDecision.split)

lemma steps_finish: "steps (su_env S) d (recovery_finish S ro i pid d)"
proof -
  have "steps (su_env S) d (on_registry (\<lambda>r. progress_run i ph b (touch_run i p t s r)) d)" for ph b p t s
    unfolding steps_def on_registry_simps by (rule evolves_trans [OF evolves_touch evolves_progress])
  then show ?thesis unfolding recovery_finish_def Let_def by (auto intro: step_intros split: option.split)
qed

lemma steps_recovery:
  assumes "\<And>d. steps (su_env S) d (f d)"
  shows "steps (su_env S) d (attempt_recovery S ro f i repo plan d)"
proof -
  obtain x d1 where b: "recovery_begin S ro i repo plan d = (x, d1)" by fastforce
  then have "steps (su_env S) d d1" using steps_begin [of S d ro i repo plan] by simp
  moreover have "steps (su_env S) d1 (recovery_finish S ro i pid (f d1))" for pid
    using assms steps_finish by (rule steps_trans)
  ultimately show ?thesis
    using b by (cases x) (auto simp: attempt_recovery_def intro: steps_trans)
qed

lemma steps_recover_after:
  assumes "\<And>d. steps (su_env S) d (f d)" "\<And>d. steps (su_env S) d (g d)"
  shows "steps (su_env S) (snd st) (recover_after S ro woken f g i st)"
proof -
  have "steps (su_env S) d (attempt_recovery S ro g i repo plan (f d))" for d repo plan
    by (rule steps_trans [OF assms(1) steps_recovery]) (rule assms(2))
  then show ?thesis
    using assms(1) by (cases st; cases "fst st") (auto simp: recover_after_def intro: steps_refl)
qed



section \<open>A finished run is not recovered\<close>

text \<open>
  C21: a run that has come to an end when its backoff is over is left alone: no session is started
  or killed, no file touched, no status changed. Whatever made it end (a stop, a completion) during
  the sleep has the last word.
\<close>
theorem recovery_respects_stop:
  assumes "outcome_section S io run_id outcome d = (RecoverAfter secs repo plan cfg, d1)"
    and "hm_get (reg_runs (d_registry (g d1))) run_id = Some e" and "is_terminal (re_status e)"
  shows "handle_monitor_outcome S io ro net woken f g h run_id outcome d = g d1"
  using assms
  by (simp add: handle_monitor_outcome_def recover_after_def attempt_recovery_def recovery_begin_def)

section \<open>The crash budget of a repository\<close>

text \<open>
  A chain of recoveries on the crash budget: between two crashes anything may happen that leaves the
  history file alone.
\<close>

inductive crash_chain :: "('v, 'j) surroundings \<Rightarrow> string \<Rightarrow> path \<Rightarrow> nat \<Rightarrow> daemon \<Rightarrow> bool"
  for S i repo where
  chain_start: "d_fs d (history_path repo) = Absent \<Longrightarrow> crash_chain S i repo 0 d"
| chain_other: "crash_chain S i repo n d \<Longrightarrow> d_fs d' (history_path repo) = d_fs d (history_path repo) \<Longrightarrow>
    crash_chain S i repo n d'"
| chain_crash: "crash_chain S i repo n d \<Longrightarrow> hm_get (reg_runs (d_registry d)) i = Some e \<Longrightarrow>
    re_repo_dir e = repo \<Longrightarrow> compute_run_uptime_secs (oi_now io) e < wd_crash_stability_secs (su_watchdog S) \<Longrightarrow>
    oi_persist io = None \<Longrightarrow>
    budget_section S io i cls reason d = (RecoverAfter secs r p c, d') \<Longrightarrow> crash_chain S i repo (Suc n) d'"

inductive_cases crash_chain_SucE: "crash_chain S i repo (Suc n) d"

definition limit_of :: "watchdog_config \<Rightarrow> u32" where
  "limit_of cfg = max (of_nat (wd_max_total_crash_retries cfg)) (of_nat (wd_max_crash_retries cfg))"

text \<open>The restarts a history file stands for.\<close>

definition file_total :: "(string \<Rightarrow> crash_history option) \<Rightarrow> file_view \<Rightarrow> u32" where
  "file_total parse f = (case f of
     Readable s \<Rightarrow> (case parse s of Some h \<Rightarrow> ch_total_restarts h | None \<Rightarrow> 0)
   | _ \<Rightarrow> 0)"

lemma from_watchdog_sel:
  "cl_total_restarts (from_watchdog cfg) = 0" "cl_max_total_restarts (from_watchdog cfg) = limit_of cfg"
  "cl_stability_secs (from_watchdog cfg) \<ge> wd_crash_stability_secs cfg"
  by (simp_all add: from_watchdog_def with_total_limit_def limit_of_def MIN_STABILITY_SECS_def)

lemma loaded_total:
  "load_history parse fl now n f d0 = Some d \<Longrightarrow> cl_total_restarts d0 = 0 \<Longrightarrow>
    cl_total_restarts d = file_total parse f \<and> cl_max_total_restarts d = cl_max_total_restarts d0
    \<and> cl_stability_secs d = cl_stability_secs d0"
  by (auto simp: load_history_def load_record_def file_total_def Let_def split: file_view.splits option.splits if_splits)

lemma short_runtime_keeps:
  "u < cl_stability_secs d \<Longrightarrow> cl_total_restarts (record_healthy_runtime now u d) = cl_total_restarts d
    \<and> cl_max_total_restarts (record_healthy_runtime now u d) = cl_max_total_restarts d"
  by (simp add: record_healthy_runtime_def)

text \<open>What the argument needs of the JSON encoding: a history that was written is read with its total.\<close>

definition keeps_total :: "('v, 'j) surroundings \<Rightarrow> bool" where
  "keeps_total S \<longleftrightarrow>
    (\<forall>h. map_option ch_total_restarts (su_parse_history S (su_history_json S h)) = Some (ch_total_restarts h))"

lemma file_total_written:
  "keeps_total S \<Longrightarrow> file_total (su_parse_history S) (Readable (su_history_json S h)) = ch_total_restarts h"
  by (auto simp: keeps_total_def file_total_def dest: spec [of _ h])

lemma budget_granted:
  assumes run: "hm_get (reg_runs (d_registry d)) i = Some e" "re_repo_dir e = repo"
    and short: "compute_run_uptime_secs (oi_now io) e < wd_crash_stability_secs (su_watchdog S)"
    and saved: "oi_persist io = None"
    and json: "keeps_total S"
    and step: "budget_section S io i cls reason d = (RecoverAfter secs r p c, d')"
  shows "file_total (su_parse_history S) (d_fs d' (history_path repo))
      = file_total (su_parse_history S) (d_fs d (history_path repo)) + 1"
    and "file_total (su_parse_history S) (d_fs d (history_path repo)) + 1 < limit_of (su_watchdog S)"
proof -
  let ?file = "d_fs d (history_path repo)"
  obtain loaded where l: "load_history (su_parse_history S) (su_floor S) (oi_instant io) (oi_epoch io) ?file
      (from_watchdog (su_watchdog S)) = Some loaded"
    using run step by (auto simp: budget_section_def Let_def split: option.splits)
  note lt = loaded_total [OF l from_watchdog_sel(1)]
  let ?healthy = "record_healthy_runtime (oi_instant io) (compute_run_uptime_secs (oi_now io) e) loaded"
  have "compute_run_uptime_secs (oi_now io) e < cl_stability_secs loaded"
    using short lt from_watchdog_sel(3) [of "su_watchdog S"] by simp
  note ht = short_runtime_keeps [OF this, of "oi_instant io"]
  obtain dec det where r: "record_restart_for_phase (su_floor S) (oi_instant io) (re_current_phase e) ?healthy = (dec, det)"
    by fastforce
  have dec: "dec = AllowRestart"
    using run step l r by (cases dec) (simp_all add: budget_section_def Let_def)
  note al = allowed_restart [OF r [unfolded dec]]
  have fview: "d_fs d' (history_path repo) = Readable (su_history_json S (to_history (oi_instant io) (oi_epoch io) det))"
    using run step l r dec saved by (auto simp: budget_section_def Let_def persist_def)
  show "file_total (su_parse_history S) (d_fs d' (history_path repo)) = file_total (su_parse_history S) ?file + 1"
  proof -
    have "file_total (su_parse_history S) (d_fs d' (history_path repo)) = cl_total_restarts det"
      unfolding fview by (simp add: file_total_written [OF json] to_history_def)
    with al(1) lt ht show ?thesis by simp
  qed
  show "file_total (su_parse_history S) ?file + 1 < limit_of (su_watchdog S)"
    using al(3) lt ht by (simp add: from_watchdog_sel)
qed

lemma crash_chain_total:
  assumes "crash_chain S i repo n d" and json: "keeps_total S"
  shows "file_total (su_parse_history S) (d_fs d (history_path repo)) = of_nat n
    \<and> (n = 0 \<or> n < unat (limit_of (su_watchdog S)))"
  using assms(1)
proof induction
  case (chain_start d)
  then show ?case by (simp add: file_total_def)
next
  case (chain_other n d d')
  then show ?case by simp
next
  case (chain_crash n d e io cls reason secs r p c d')
  note g = budget_granted [OF chain_crash.hyps(2-5) json chain_crash.hyps(6)]
  have lim: "unat (limit_of (su_watchdog S)) < 2 ^ 32"
    using unsigned_less [of "limit_of (su_watchdog S)", where 'a = nat] by simp
  have "of_nat (Suc n) < limit_of (su_watchdog S)"
    using g(2) chain_crash.IH by (simp add: add.commute)
  moreover have "n < 2 ^ 32 - 1"
  proof (cases "n = 0")
    case False
    with chain_crash.IH lim g(2) show ?thesis
      by (simp add: word_less_nat_alt unat_of_nat unat_word_ariths)
  qed simp
  ultimately have "Suc n < unat (limit_of (su_watchdog S))"
    by (simp add: word_less_nat_alt unat_of_nat unat_word_ariths)
  with g(1) chain_crash.IH show ?case by (simp add: add.commute)
qed

text \<open>
  C22: crash recovery comes to an end. As long as no session runs for the stability period and the
  history can be saved, a run is recovered from crashes, stalls, timeouts and errors fewer times
  than the larger of the two configured limits, whatever happens in between and however often the
  detector is rebuilt from its file; so never fifty times with limits read from the environment.
\<close>
theorem crash_recoveries_are_bounded:
  assumes "crash_chain S i repo n d" and "keeps_total S"
    and "su_watchdog S = from_env g"
  shows "n < max (wd_max_total_crash_retries (from_env g)) (wd_max_crash_retries (from_env g)) \<and> n < 50"
proof -
  let ?c = "from_env g"
  have r: "2 \<le> wd_max_total_crash_retries ?c" "wd_max_total_crash_retries ?c \<le> 50" "wd_max_crash_retries ?c \<le> 20"
    by (simp_all add: from_env_def clamp_def)
  have "unat (limit_of ?c) = max (wd_max_total_crash_retries ?c) (wd_max_crash_retries ?c)"
    using r unfolding limit_of_def
    by (simp add: max_def word_le_nat_alt unat_of_nat)
  with crash_chain_total [OF assms(1,2)] assms(3) r show ?thesis by (auto simp: max_def)
qed


text \<open>Surroundings for the examples: a history is written as its total.\<close>

definition example_surroundings :: "(unit checkpoint \<Rightarrow> unit checkpoint) \<Rightarrow> (unit, unit) surroundings" where
  "example_surroundings f =
     \<lparr>su_env = plain_env, su_parse_json = (\<lambda>_. Some ()),
      su_from_value = (\<lambda>_. Some (f (checkpoint_default ''t''))),
      su_history_json = (\<lambda>h. show_nat (unat (ch_total_restarts h))),
      su_parse_history = (\<lambda>s. map_option (\<lambda>n. \<lparr>ch_crash_epochs = [], ch_total_restarts = of_nat n,
         ch_window_secs = 0, ch_last_healthy_epoch = None, ch_per_phase_crashes = []\<rparr>) (parse_u64 s)),
      su_floor = - (10 ^ 15), su_watchdog = from_env (\<lambda>_. None)\<rparr>"

lemma example_keeps_total: "keeps_total (example_surroundings f)"
proof -
  have "unat (x :: u32) < 2 ^ 64" for x
    using unsigned_less [of x, where 'a = nat] by simp
  then show ?thesis
    by (simp add: keeps_total_def example_surroundings_def parse_u64_show_nat)
qed

definition outcome_well :: outcome_io where
  "outcome_well = \<lparr>oi_now = 5, oi_instant = 0, oi_epoch = 0, oi_flush = io_ok, oi_kill = io_ok, oi_clear = io_ok,
     oi_persist = io_ok, oi_drain = all_well, oi_retry = all_well\<rparr>"

text \<open>A recovery for which the world answers well: the old session's Claude is dead, the new one comes up.\<close>

definition recovery_well :: recovery_io where
  "recovery_well = \<lparr>ro_remove_loop = io_ok, ro_repo_disk = io_ok, ro_home_disk = io_ok, ro_claude_alive = False,
     ro_kill = io_ok, ro_repo_disk2 = io_ok, ro_home_disk2 = io_ok, ro_spawn = Inr 7, ro_real_pid = Some 8,
     ro_send = io_ok, ro_now = 6, ro_flush = io_ok\<rparr>"

text \<open>Run \<open>a\<close> is up in its session while \<open>b\<close> and \<open>c\<close> wait for the same repository.\<close>

definition one_up_two_waiting :: world where
  "one_up_two_waiting =
     drain_if_available plain_env 1 all_well all_well ''/r'' False
       \<lparr>w_registry = run_ops plain_env
          [Enqueue (pend ''a'' ''/r/a.md'' ''/r''), Enqueue (pend ''b'' ''/r/b.md'' ''/r''),
           Enqueue (pend ''c'' ''/r/c.md'' ''/r'')] registry_new,
        w_sessions = []\<rparr>"

definition busy_daemon :: daemon where
  "busy_daemon = \<lparr>d_world = one_up_two_waiting, d_fs = (\<lambda>_. Absent), d_waiting = False\<rparr>"

definition the_run :: "string \<Rightarrow> daemon \<Rightarrow> run_entry" where
  "the_run i d = the (hm_get (reg_runs (d_registry d)) i)"

lemma busy_daemon_run:
  "hm_get (reg_runs (d_registry busy_daemon)) ''a'' = Some (the_run ''a'' busy_daemon)"
  "re_repo_dir (the_run ''a'' busy_daemon) = ''/r''" "re_current_phase (the_run ''a'' busy_daemon) = Some ''starting''"
  "re_last_recovery_at (the_run ''a'' busy_daemon) = Some 2" "re_plan_path (the_run ''a'' busy_daemon) = ''/r/a.md''"
  "re_config_dir (the_run ''a'' busy_daemon) = None" "re_status (the_run ''a'' busy_daemon) = Running"
  by code_simp+

lemma example_detector:
  "from_watchdog (from_env (\<lambda>_. None)) = with_total_limit 5 900 1800 10"
  by (simp add: from_watchdog_def from_env_def env_or_def clamp_def)

lemma first_crash:
  "\<exists>d'. record_restart_for_phase (- 1000000000000000) 0 (Some ''starting'') (with_total_limit 5 900 1800 10) = (AllowRestart, d')
    \<and> crashes_for_phase d' ''starting'' = 1"
  by (simp add: record_restart_for_phase_def with_total_limit_def attribute_crash_def prune_def checked_sub_def
      NANOS_def crashes_for_phase_def DEFAULT_MAX_CRASHES_PER_PHASE_def word_le_nat_alt word_less_nat_alt max_def)

lemma busy_uptime: "compute_run_uptime_secs 5 (the_run ''a'' busy_daemon) = 0"
  by (simp add: compute_run_uptime_secs_def secs_between_def busy_daemon_run)

lemma busy_fs: "d_fs busy_daemon p = Absent"
  by (simp add: busy_daemon_def)

lemma busy_budget:
  "\<exists>d'. budget_section (example_surroundings id) outcome_well ''a'' Crash ''gone'' busy_daemon
     = (RecoverAfter 30 ''/r'' ''/r/a.md'' None, d')"
proof -
  obtain det where r: "record_restart_for_phase (- 1000000000000000) 0 (Some ''starting'') (with_total_limit 5 900 1800 10)
      = (AllowRestart, det)" "crashes_for_phase det ''starting'' = 1"
    using first_crash by blast
  show ?thesis
    unfolding budget_section_def busy_daemon_run(1) option.case Let_def busy_fs
    by (simp add: busy_daemon_run busy_uptime outcome_well_def load_history_def example_surroundings_def
        example_detector record_healthy_runtime_def r persist_def backoff_for_attempt_def)
qed

theorem crash_recoveries_are_bounded_witness:
  "\<exists>d. crash_chain (example_surroundings id) ''a'' ''/r'' 1 d \<and> (1::nat) < 50"
proof -
  let ?S = "example_surroundings id"
  from busy_budget obtain d' where b: "budget_section ?S outcome_well ''a'' Crash ''gone'' busy_daemon
      = (RecoverAfter 30 ''/r'' ''/r/a.md'' None, d')" ..
  have "crash_chain ?S ''a'' ''/r'' 0 busy_daemon"
    by (rule chain_start) (simp add: busy_daemon_def)
  moreover have "compute_run_uptime_secs (oi_now outcome_well) (the_run ''a'' busy_daemon)
      < wd_crash_stability_secs (su_watchdog ?S)"
    by (simp add: compute_run_uptime_secs_def secs_between_def busy_daemon_run outcome_well_def
        example_surroundings_def from_env_def env_or_def clamp_def)
  moreover have "oi_persist outcome_well = None" by (simp add: outcome_well_def)
  ultimately have ch: "crash_chain ?S ''a'' ''/r'' (Suc 0) d'"
    using busy_daemon_run(1,2) b by (metis chain_crash)
  have "su_watchdog ?S = from_env (\<lambda>_. None)" by (simp add: example_surroundings_def)
  from crash_recoveries_are_bounded [OF ch example_keeps_total this] ch show ?thesis by auto
qed


definition stop_status :: "string \<Rightarrow> daemon \<Rightarrow> daemon" where
  "stop_status i = set_status plain_env 9 io_ok i Stopped None None"

theorem recovery_respects_stop_witness:
  "\<exists>d1. handle_monitor_outcome (example_surroundings id) outcome_well recovery_well True True id (stop_status ''a'') id ''a''
     (MonitorCrashed ''gone'') busy_daemon = stop_status ''a'' d1"
proof -
  from busy_budget obtain d1 where b: "budget_section (example_surroundings id) outcome_well ''a'' Crash ''gone'' busy_daemon
      = (RecoverAfter 30 ''/r'' ''/r/a.md'' None, d1)" ..
  then have o: "outcome_section (example_surroundings id) outcome_well ''a'' (MonitorCrashed ''gone'') busy_daemon
      = (RecoverAfter 30 ''/r'' ''/r/a.md'' None, d1)" by (simp add: outcome_section_def)
  from b have "d_registry d1 = d_registry busy_daemon"
    by (auto simp: budget_section_def Let_def split: option.splits prod.splits CrashLoopDecision.splits)
  then have "hm_get (reg_runs (d_registry (stop_status ''a'' d1))) ''a''
      = Some (staged_entry 9 Stopped None None (the_run ''a'' busy_daemon))"
    using busy_daemon_run(1,7) by (simp add: stop_status_def set_status_def update_status_def stage_status_locked_def Let_def)
  moreover have "is_terminal (re_status (staged_entry 9 Stopped None None (the_run ''a'' busy_daemon)))"
    by (simp add: staged_entry_def)
  ultimately show ?thesis
    using recovery_respects_stop [OF o, of "stop_status ''a''" _ recovery_well True True id id] by blast
qed

section \<open>Network errors\<close>

lemma no_loop_file:
  assumes "fs (loop_file repo) = Absent"
  shows "resolve_restart_command parse from fs repo plan cfg cmd = Fresh cmd"
    and "drop_foreign_state E ro repo plan fs = fs"
  using assms
  by (simp_all add: resolve_restart_command_def restart_checkpoint_path_def read_arc_loop_state_def
      try_checkpoint_from_inactive_def drop_foreign_state_def)

lemma running_again:
  assumes "hm_get (reg_runs r) i = Some e" and "re_status e = Running"
  shows "\<exists>e'. hm_get (reg_runs (snd (update_status E now fl i Running (Some ph) None
      (progress_run i ph True (touch_run i pid rec tm r))))) i = Some e'
    \<and> re_status e' = Running \<and> re_repo_dir e' = re_repo_dir e \<and> re_plan_path e' = re_plan_path e
    \<and> re_crash_restarts e' = min (re_crash_restarts e + 1) (2 ^ 32 - 1)"
  using assms
  by (cases fl) (auto simp: update_status_def stage_status_locked_def progress_run_def touch_run_def progress_entry_def
      touch_entry_def staged_entry_def Let_def)

lemma begin_well:
  assumes "hm_get (reg_runs (d_registry d)) i = Some e" "re_status e = Running"
    and "d_fs d (loop_file repo) = Absent"
  shows "\<exists>cmd d1. recovery_begin S recovery_well i repo plan d = (Some (7, cmd), d1)
    \<and> d_registry d1 = d_registry d \<and> d_fs d1 = d_fs d"
proof -
  have sp: "\<exists>d1. spawn_section S recovery_well i cmd d' = (Some (7, cmd), d1) \<and> d_registry d1 = d_registry d'
      \<and> d_fs d1 = d_fs d'" for cmd d'
    by (simp add: spawn_section_def recovery_well_def Let_def)
  have "ro_repo_disk recovery_well = None" "ro_home_disk recovery_well = None"
    by (simp_all add: recovery_well_def)
  moreover have "d\<lparr>d_fs := d_fs d\<rparr> = d" by (cases d) simp
  ultimately have "recovery_begin S recovery_well i repo plan d
      = spawn_section S recovery_well i (''/rune:arc '' @ [CHR 0x27] @ escape_quotes plan @ [CHR 0x27]) d"
    using assms by (simp add: recovery_begin_def no_loop_file Let_def)
  with sp show ?thesis by metis
qed

lemma network_round:
  assumes e: "hm_get (reg_runs (d_registry d)) i = Some e" "re_status e = Running"
    and f: "d_fs d (loop_file (re_repo_dir e)) = Absent"
  shows "\<exists>e'. hm_get (reg_runs (d_registry (handle_monitor_outcome S io recovery_well True woken id g id i
      (MonitorErrorDetected NetworkError m) d))) i = Some e'
    \<and> re_status e' = Running \<and> re_repo_dir e' = re_repo_dir e \<and> re_plan_path e' = re_plan_path e
    \<and> re_crash_restarts e' = min (re_crash_restarts e + 1) (2 ^ 32 - 1)"
    and "d_fs (handle_monitor_outcome S io recovery_well True woken id g id i (MonitorErrorDetected NetworkError m) d)
      = d_fs d"
proof -
  let ?d = "d\<lparr>d_waiting := False\<rparr>"
  have o: "outcome_section S io i (MonitorErrorDetected NetworkError m) d = (AwaitNetwork, d\<lparr>d_waiting := True\<rparr>)"
    by (simp add: outcome_section_def skips_plan_def)
  have n: "network_section S io i True (d\<lparr>d_waiting := True\<rparr>)
      = (RecoverAfter 0 (re_repo_dir e) (re_plan_path e) (re_config_dir e), ?d)"
    using e by (simp add: network_section_def)
  obtain cmd d1 where b: "recovery_begin S recovery_well i (re_repo_dir e) (re_plan_path e) ?d = (Some (7, cmd), d1)"
    and d1: "d_registry d1 = d_registry d" "d_fs d1 = d_fs d"
    using begin_well [of ?d i e "re_repo_dir e" S "re_plan_path e"] e f by auto
  let ?h = "handle_monitor_outcome S io recovery_well True woken id g id i (MonitorErrorDetected NetworkError m) d"
  have h: "?h = recovery_finish S recovery_well i 7 d1"
    using o n b by (simp add: handle_monitor_outcome_def recover_after_def attempt_recovery_def)
  show "d_fs ?h = d_fs d"
    unfolding h by (simp add: recovery_finish_def recovery_well_def Let_def d1)
  show "\<exists>e'. hm_get (reg_runs (d_registry ?h)) i = Some e' \<and> re_status e' = Running
      \<and> re_repo_dir e' = re_repo_dir e \<and> re_plan_path e' = re_plan_path e
      \<and> re_crash_restarts e' = min (re_crash_restarts e + 1) (2 ^ 32 - 1)"
    unfolding h using running_again [OF e]
    by (simp add: recovery_finish_def recovery_well_def Let_def set_status_def d1)
qed

text \<open>
  Network errors are not on the crash budget. A running run whose sessions fail with network
  errors while the network is up again each time is recovered every time: after any number of
  rounds it is running, its restarts counted, and no crash history was written.
\<close>
theorem network_recoveries_have_no_limit:
  assumes "hm_get (reg_runs (d_registry d)) i = Some e" and "re_status e = Running"
    and "d_fs d (loop_file (re_repo_dir e)) = Absent" and "re_crash_restarts e = 0" and "n < 2 ^ 32"
  shows "\<exists>e'. hm_get (reg_runs (d_registry ((handle_monitor_outcome S io recovery_well True woken id g id i
        (MonitorErrorDetected NetworkError m) ^^ n) d))) i = Some e'
      \<and> re_status e' = Running \<and> re_crash_restarts e' = n
    \<and> d_fs ((handle_monitor_outcome S io recovery_well True woken id g id i
        (MonitorErrorDetected NetworkError m) ^^ n) d) = d_fs d"
proof -
  let ?f = "handle_monitor_outcome S io recovery_well True woken id g id i (MonitorErrorDetected NetworkError m)"
  have "\<exists>e'. hm_get (reg_runs (d_registry ((?f ^^ n) d))) i = Some e' \<and> re_status e' = Running
      \<and> re_repo_dir e' = re_repo_dir e \<and> re_crash_restarts e' = n \<and> d_fs ((?f ^^ n) d) = d_fs d"
    using assms(5)
  proof (induction n)
    case 0
    with assms show ?case by simp
  next
    case (Suc n)
    from Suc.IH [OF Suc_lessD [OF Suc.prems]] obtain e' where
      e': "hm_get (reg_runs (d_registry ((?f ^^ n) d))) i = Some e'" "re_status e' = Running"
      "re_repo_dir e' = re_repo_dir e" "re_crash_restarts e' = n" "d_fs ((?f ^^ n) d) = d_fs d"
      by blast
    with assms(3) have "d_fs ((?f ^^ n) d) (loop_file (re_repo_dir e')) = Absent" by simp
    note r = network_round [OF e'(1,2) this, of S io woken g m]
    from r(1) obtain e'' where e'': "hm_get (reg_runs (d_registry (?f ((?f ^^ n) d)))) i = Some e''"
      "re_status e'' = Running" "re_repo_dir e'' = re_repo_dir e" "re_crash_restarts e'' = Suc n"
      using e' Suc.prems by auto
    have "(?f ^^ Suc n) d = ?f ((?f ^^ n) d)" by simp
    with e'' r(2) e'(5) show ?case by metis
  qed
  then show ?thesis by blast
qed

theorem network_recoveries_have_no_limit_witness:
  "\<exists>e'. hm_get (reg_runs (d_registry ((handle_monitor_outcome (example_surroundings id) outcome_well recovery_well
       True True id id id ''a'' (MonitorErrorDetected NetworkError ''down'') ^^ 1000) busy_daemon))) ''a'' = Some e'
     \<and> re_crash_restarts e' = 1000"
proof -
  have "re_crash_restarts (the_run ''a'' busy_daemon) = 0" by code_simp
  with network_recoveries_have_no_limit [OF busy_daemon_run(1,7), of 1000 "example_surroundings id" outcome_well True id
      "''down''"]
  show ?thesis by (auto simp: busy_fs)
qed


section \<open>A leftover of another plan\<close>

text \<open>
  An inactive loop state is trusted whatever plan it belongs to. When a run fails before its arc
  has written a loop state and the file left by an earlier plan is inactive and names a complete
  checkpoint, the recovery marks the run succeeded, for every plan the run may have: the guard against
  other plans looks at active states only.
\<close>
theorem stale_state_ends_another_run:
  assumes "hm_get (reg_runs (d_registry d)) i = Some e" and "re_status e = Running"
    and "read_arc_loop_state (d_fs d (loop_file repo)) = Inactive"
    and "try_checkpoint_from_inactive (d_fs d) repo = Some p" and "file_exists (d_fs d) p"
    and "read_checkpoint (su_parse_json S) (su_from_value S) (d_fs d) p = Inr c"
    and "has_progress c" and "is_complete c"
  shows "fst (recovery_begin S ro i repo plan d) = None
    \<and> (\<exists>e'. hm_get (reg_runs (d_registry (snd (recovery_begin S ro i repo plan d)))) i = Some e'
         \<and> re_status e' = Succeeded \<and> re_current_phase e' = Some ''complete'')"
proof -
  have "d\<lparr>d_fs := d_fs d\<rparr> = d" by (cases d) simp
  then have b: "recovery_begin S ro i repo plan d
      = (None, set_status (su_env S) (ro_now ro) (ro_flush ro) i Succeeded (Some ''complete'') None d)"
    using assms
    by (simp add: recovery_begin_def drop_foreign_state_def resolve_restart_command_def restart_checkpoint_path_def Let_def)
  show ?thesis unfolding b using assms(1,2)
    by (cases "ro_flush ro")
      (simp_all add: set_status_def update_status_def stage_status_locked_def staged_entry_def Let_def)
qed

definition leftover_fs :: file_system where
  "leftover_fs = (\<lambda>_. Absent)(loop_file ''/r'' := Readable (''---'' @ [CHR 0x0A] @ ''active: false'' @ [CHR 0x0A]
     @ ''checkpoint_path: /c'' @ [CHR 0x0A] @ ''---''), ''/c'' := Readable [])"

definition merged :: "unit checkpoint \<Rightarrow> unit checkpoint" where
  "merged c = c\<lparr>ck_id := ''arc-1'', ck_plan_file := ''old.md'', ck_phases := [(''merge'', phase_status_new ''completed'')]\<rparr>"

theorem stale_state_ends_another_run_witness:
  "fst (recovery_begin (example_surroundings merged) recovery_well ''a'' ''/r'' ''/r/a.md''
     (busy_daemon\<lparr>d_fs := leftover_fs\<rparr>)) = None"
proof -
  let ?d = "busy_daemon\<lparr>d_fs := leftover_fs\<rparr>"
  have r: "hm_get (reg_runs (d_registry ?d)) ''a'' = Some (the_run ''a'' busy_daemon)" using busy_daemon_run(1) by simp
  have l: "read_arc_loop_state (d_fs ?d (loop_file ''/r'')) = Inactive"
    "try_checkpoint_from_inactive (d_fs ?d) ''/r'' = Some ''/c''" "file_exists (d_fs ?d) ''/c''"
    by code_simp+
  have c: "read_checkpoint (su_parse_json (example_surroundings merged)) (su_from_value (example_surroundings merged))
      (d_fs ?d) ''/c'' = Inr (merged (checkpoint_default ''t''))"
    by (simp add: read_checkpoint_def example_surroundings_def merged_def file_exists_def leftover_fs_def)
  have p: "has_progress (merged (checkpoint_default ''t''))" "is_complete (merged (checkpoint_default ''t''))"
    by code_simp+
  from stale_state_ends_another_run [OF r busy_daemon_run(7) l c p] show ?thesis by blast
qed

section \<open>Races between a stop and a handler\<close>

text \<open>The client stops run \<open>a\<close>; the drain starts the next waiting run.\<close>

definition user_stop :: "string \<Rightarrow> daemon \<Rightarrow> daemon" where
  "user_stop i d = d\<lparr>d_world := snd (snd (stop_run plain_env
     \<lparr>so_polls = [(0, False)], so_still_alive = False, so_kill = io_ok, so_now = 8, so_flush = io_ok\<rparr>
     all_well all_well i ([], d_world d)))\<rparr>"

definition quick_surroundings :: "(unit, unit) surroundings" where
  "quick_surroundings =
     \<lparr>su_env = plain_env, su_parse_json = (\<lambda>_. None), su_from_value = (\<lambda>_. None), su_history_json = (\<lambda>_. []),
      su_parse_history = (\<lambda>_. None), su_floor = 0,
      su_watchdog = \<lparr>wd_idle_nudge_secs = 1, wd_idle_kill_secs = 1, wd_error_stall_threshold_secs = 1,
        wd_artifact_scan_interval_secs = 1, wd_pipeline_timeout = 1, wd_checkpoint_poll_interval_secs = 1,
        wd_max_crash_retries = 1, wd_error_confirm_medium_secs = 1, wd_error_confirm_high_secs = 1,
        wd_prompt_accept_enabled = True, wd_prompt_accept_debounce_secs = 1, wd_crash_window_secs = 1,
        wd_crash_stability_secs = 1, wd_loop_state_warmup_secs = 1, wd_restart_cooldown_secs = 1,
        wd_max_total_crash_retries = 1\<rparr>\<rparr>"

text \<open>
  A status update that comes late frees the lock of the next run. The monitor of \<open>a\<close> reports
  completion just before the client stops \<open>a\<close>, and the handler runs after the stop has started \<open>b\<close>:
  it marks the stopped run succeeded, frees the lock \<open>b\<close> holds and starts \<open>c\<close> beside it, so two runs
  are running in one repository. The same happens when \<open>a\<close> is stopped while its recovery waits for
  the new session and the command can then not be typed: the lock \<open>b\<close> holds is freed.
\<close>
theorem late_updates_break_exclusion:
  "(let late = completed_section plain_env outcome_well ''a'' (user_stop ''a'' busy_daemon) in
     run_view (d_registry late) ''a'' = Some (Succeeded, ''/r'')
     \<and> run_view (d_registry late) ''b'' = Some (Running, ''/r'')
     \<and> run_view (d_registry late) ''c'' = Some (Running, ''/r''))
   \<and> (let failed_typing = recovery_well\<lparr>ro_send := Some ''no session''\<rparr>;
            late = attempt_recovery quick_surroundings failed_typing (user_stop ''a'') ''a'' ''/r'' ''/r/a.md'' busy_daemon
        in run_view (d_registry late) ''b'' = Some (Running, ''/r'') \<and> \<not> has_repo_lock plain_env (d_registry late) ''/r'')"
  by (rule conjI; code_simp)


section \<open>A crash that goes all the way\<close>


end
