(* ===== verification/Heartbeat.thy ===== *)
theory Heartbeat
  imports Recovery
begin

text \<open>
  The heartbeat tick (\<open>daemon/heartbeat.rs\<close>): which runs get a monitor and which lose theirs, the
  phase shown for a run, and the events written when what is seen changes. The output of a pane
  and the files are what the tick finds; event messages are written out.
\<close>

section \<open>Monitors\<close>

text \<open>
  The monitor handles by run, each with whether its task has ended. \<open>ended\<close> tells which tasks have
  ended by the time the finished handles are dropped.
\<close>

type_synonym monitors = "(string, unit) hash_map"

definition runs_with_session :: "registry \<Rightarrow> string list" where
  "runs_with_session r = map re_run_id (filter (\<lambda>e. is_active e \<and> re_tmux_session e \<noteq> None) (hm_values (reg_runs r)))"

definition stopped_runs :: "registry \<Rightarrow> string list" where
  "stopped_runs r = map re_run_id (filter (\<lambda>e. \<not> is_active e) (hm_values (reg_runs r)))"

definition add_monitor :: "string \<Rightarrow> monitors \<Rightarrow> monitors" where
  "add_monitor i m = (if hm_get m i \<noteq> None then m else hm_insert i () m)"

definition tick_monitors :: "(string \<Rightarrow> bool) \<Rightarrow> registry \<Rightarrow> monitors \<Rightarrow> monitors" where
  "tick_monitors ended r m =
    (let m1 = fold hm_remove (stopped_runs r) m;
         m2 = fold add_monitor (runs_with_session r) m1
     in filter (\<lambda>(i, _). \<not> ended i) m2)"

section \<open>What has been seen of a run\<close>

record detection_snapshot =
  ds_loop_state_seen_once :: bool
  ds_waiting_loop_state_logged :: bool
  ds_last_loop_state :: "arc_loop_state option"
  ds_last_checkpoint_path :: "path option"
  ds_last_effective_phase :: "string option"
  ds_last_checkpoint_missing_log :: "instant option"

definition snapshot_default :: detection_snapshot where
  "snapshot_default = \<lparr>ds_loop_state_seen_once = False, ds_waiting_loop_state_logged = False,
     ds_last_loop_state = None, ds_last_checkpoint_path = None, ds_last_effective_phase = None,
     ds_last_checkpoint_missing_log = None\<rparr>"

definition prune_detection_state ::
  "string list \<Rightarrow> string list \<Rightarrow> (string, detection_snapshot) hash_map \<Rightarrow> (string, detection_snapshot) hash_map" where
  "prune_detection_state stopped active det =
     filter (\<lambda>(i, _). i \<in> set active) (fold hm_remove stopped det)"

text \<open>An event is its name and its message.\<close>

type_synonym event = "string \<times> string"

definition iteration_text :: "arc_loop_state \<Rightarrow> string" where
  "iteration_text s = show_nat (ls_iteration s) @ ''/'' @ show_nat (ls_max_iterations s)"

definition change_text :: "loop_state_change \<Rightarrow> string" where
  "change_text c = lc_field c @ ''='' @ lc_old_value c @ '' '' @ right_arrow @ '' '' @ lc_new_value c"

definition comma_list :: "string list \<Rightarrow> string" where
  "comma_list ts = concat (case ts of [] \<Rightarrow> [] | t # rest \<Rightarrow> t # map (\<lambda>x. '', '' @ x) rest)"

text \<open>The loop state is noted on first sight and whenever it differs from the last.\<close>

definition note_loop_state ::
  "arc_loop_state \<Rightarrow> detection_snapshot \<Rightarrow> detection_snapshot \<times> event list" where
  "note_loop_state s snap =
    (if \<not> ds_loop_state_seen_once snap then
       (snap\<lparr>ds_loop_state_seen_once := True, ds_last_loop_state := Some s\<rparr>,
        [(''loop_state_appeared'', ''loop state active: iteration '' @ iteration_text s @ '' plan='' @ ls_plan_file s
            @ '' branch='' @ ls_branch s)])
     else case ds_last_loop_state snap of
       Some prev \<Rightarrow>
         let changes = diff prev s in
         if changes \<noteq> [] then
           (snap\<lparr>ds_last_loop_state := Some s\<rparr>, [(''loop_state_changed'', comma_list (map change_text changes))])
         else (snap, [])
     | None \<Rightarrow> (snap\<lparr>ds_last_loop_state := Some s\<rparr>, []))"

text \<open>Missing checkpoints are noted once a minute.\<close>

definition note_missing :: "instant \<Rightarrow> path \<Rightarrow> detection_snapshot \<Rightarrow> detection_snapshot \<times> event list" where
  "note_missing now p snap =
    (let should_log = (case ds_last_checkpoint_missing_log snap of
                         None \<Rightarrow> True
                       | Some prev \<Rightarrow> max 0 (now - prev) \<ge> 60 * NANOS)
     in if should_log then
          (snap\<lparr>ds_last_checkpoint_missing_log := Some now\<rparr>, [(''checkpoint_missing'', ''checkpoint not found: '' @ p)])
        else (snap, []))"

definition note_phase ::
  "string \<Rightarrow> arc_loop_state \<Rightarrow> path \<Rightarrow> detection_snapshot \<Rightarrow> detection_snapshot \<times> event list" where
  "note_phase phase s p snap =
    (if ds_last_effective_phase snap \<noteq> Some phase then
       (snap\<lparr>ds_last_effective_phase := Some phase, ds_last_checkpoint_path := Some p\<rparr>,
        [(''phase_change'',
          ''phase: '' @ (case ds_last_effective_phase snap of Some f \<Rightarrow> f | None \<Rightarrow> ''(none)'') @ '' '' @ right_arrow
            @ '' '' @ phase @ '' [arc_id='' @ (case arc_id s of Some i \<Rightarrow> i | None \<Rightarrow> ''unknown'')
            @ '' iteration='' @ iteration_text s @ '' checkpoint='' @ p @ '']'')])
     else (snap, []))"

text \<open>
  The text of an error of the checkpoint reader. Slicing it to 200 bytes panics (\<open>None\<close>) when the cut
  is inside a character: the byte there continues one.
\<close>

fun show_read_error :: "read_error \<Rightarrow> string" where
  "show_read_error (CheckpointNotFound p) = ''Checkpoint file not found: '' @ p"
| "show_read_error (OpenFailed p) = ''Failed to open checkpoint file: '' @ p"
| "show_read_error (ReadFailed p) = ''Failed to read checkpoint file: '' @ p"
| "show_read_error (MalformedJson p) = ''Failed to parse checkpoint JSON from '' @ p @ ''. Malformed JSON?''"
| "show_read_error (InvalidSchema p) = ''Failed to deserialize checkpoint from '' @ p @ ''. Invalid schema?''"
| "show_read_error MissingId = ''Checkpoint missing required field: id''"
| "show_read_error MissingPlanFile = ''Checkpoint missing required field: plan_file''"

definition continues_char :: "char \<Rightarrow> bool" where
  "continues_char c \<longleftrightarrow> (let n = (of_char c :: nat) in 128 \<le> n \<and> n < 192)"

definition slice_to :: "nat \<Rightarrow> string \<Rightarrow> string option" where
  "slice_to n s = (if length s < n \<or> n < length s \<and> continues_char (s ! n) then None else Some (take n s))"

definition truncate_error :: "string \<Rightarrow> string option" where
  "truncate_error msg = (if length msg > 200 then slice_to 200 msg else Some msg)"

text \<open>
  The phase by way of the loop state, with the new snapshot and the events. \<open>None\<close> is a panic, which
  ends the heartbeat task.
\<close>

definition read_phase_via_loop_state ::
  "('v, 'j) surroundings \<Rightarrow> instant \<Rightarrow> file_system \<Rightarrow> path \<Rightarrow> detection_snapshot \<Rightarrow>
    (string option \<times> detection_snapshot \<times> event list) option" where
  "read_phase_via_loop_state S now fs repo_dir snap =
    (case read_arc_loop_state (fs (loop_file repo_dir)) of
       Missing \<Rightarrow>
         Some (if \<not> ds_waiting_loop_state_logged snap
               then (None, snap\<lparr>ds_waiting_loop_state_logged := True\<rparr>,
                     [(''waiting_loop_state'', ''arc-phase-loop.local.md not found yet'')])
               else (None, snap, []))
     | Inactive \<Rightarrow> Some (None, snap, [])
     | Active s \<Rightarrow>
         let (snap1, ev1) = note_loop_state s snap;
             p = resolve_checkpoint_path repo_dir s
         in if \<not> file_exists fs p then
              (case note_missing now p snap1 of (snap2, ev2) \<Rightarrow> Some (None, snap2, ev1 @ ev2))
            else case read_checkpoint (su_parse_json S) (su_from_value S) fs p of
              Inr c \<Rightarrow>
                (case inferred_phase_name c of
                   None \<Rightarrow> Some (None, snap1, ev1)
                 | Some phase \<Rightarrow>
                     (case note_phase phase s p snap1 of (snap2, ev2) \<Rightarrow> Some (Some phase, snap2, ev1 @ ev2)))
            | Inl e \<Rightarrow>
                (case truncate_error (show_read_error e) of
                   None \<Rightarrow> None
                 | Some t \<Rightarrow> Some (None, snap1, ev1 @ [(''checkpoint_read_failed'', ''error reading checkpoint: '' @ t)])))"

section \<open>The phase by the look of the pane\<close>

definition after_first :: "string \<Rightarrow> string \<Rightarrow> string option" where
  "after_first pat s = map_option (\<lambda>b. drop (length b + length pat) s) (before_first pat s)"

text \<open>The outer option tells whether the scan returned; a marker with nothing after it returns nothing.\<close>

fun scan_marker :: "string list \<Rightarrow> string option option" where
  "scan_marker [] = None"
| "scan_marker (line # ls) =
    (case strip_prefix ''arc phase loop'' (to_lowercase line) of
       None \<Rightarrow> scan_marker ls
     | Some rest \<Rightarrow>
         (case after_first ''executing phase:'' rest of
            None \<Rightarrow> scan_marker ls
          | Some after \<Rightarrow> Some (case split_ws [] after of [] \<Rightarrow> None | w # _ \<Rightarrow> Some w)))"

definition coarse_phases :: "(string \<times> string) list" where
  "coarse_phases = [(''phase_1'', ''plan''), (''phase_2'', ''work''), (''phase_3'', ''review''), (''phase_4'', ''test''),
     (''phase_5'', ''ship'')]"

definition phase_from_pane_heuristic :: "string \<Rightarrow> string option" where
  "phase_from_pane_heuristic pane_content =
    (case scan_marker (take 30 (rev (str_lines pane_content))) of
       Some result \<Rightarrow> result
     | None \<Rightarrow>
         let tail = to_lowercase (join_lines (take 20 (rev (str_lines pane_content)))) in
         map_option snd (find (\<lambda>(marker, _). str_contains marker tail) coarse_phases))"

section \<open>Updating a run\<close>

text \<open>A phase that differs is set through \<open>get_mut\<close> and then staged with the status \<open>Running\<close>.\<close>

definition set_phase :: "env \<Rightarrow> utc \<Rightarrow> string \<Rightarrow> string \<Rightarrow> registry \<Rightarrow> registry \<times> bool" where
  "set_phase E now run_id phase r =
    (case hm_get (reg_runs r) run_id of
       None \<Rightarrow> (r, False)
     | Some e \<Rightarrow>
         if re_current_phase e \<noteq> Some phase then
           let r1 = progress_run run_id phase False r in
           (case stage_status_locked E now run_id Running (Some phase) None r1 of
              Inl _ \<Rightarrow> (r1, True)
            | Inr (_, r2) \<Rightarrow> (r2, True))
         else (r, False))"

definition mark_complete :: "env \<Rightarrow> utc \<Rightarrow> io_result \<Rightarrow> string \<Rightarrow> registry \<Rightarrow> registry \<times> event list" where
  "mark_complete E now flush run_id r =
    (case hm_get (reg_runs r) run_id of
       None \<Rightarrow> (r, [])
     | Some e \<Rightarrow>
         if re_status e \<noteq> Running then (r, [])
         else (snd (update_status E now flush run_id Succeeded (Some ''complete'') None r),
               [(''completed'', ''pipeline finished successfully'')]))"

definition update_phase_from_pane ::
  "('v, 'j) surroundings \<Rightarrow> utc \<Rightarrow> instant \<Rightarrow> io_result \<Rightarrow> file_system \<Rightarrow> string \<Rightarrow> string \<Rightarrow>
    registry \<Rightarrow> detection_snapshot \<Rightarrow> (registry \<times> detection_snapshot \<times> event list) option" where
  "update_phase_from_pane S now inst flush fs run_id pane_content r snap =
    (case (case hm_get (reg_runs r) run_id of
             None \<Rightarrow> Some (None, snap, [])
           | Some e \<Rightarrow> read_phase_via_loop_state S inst fs (re_repo_dir e) snap) of
       None \<Rightarrow> None
     | Some (checkpoint_phase, snap1, ev1) \<Rightarrow>
         let confirms = (checkpoint_phase = Some ''complete'');
             phase = (case checkpoint_phase of
                        Some p \<Rightarrow> Some p | None \<Rightarrow> phase_from_pane_heuristic pane_content);
             (r1, ev2) =
               (case phase of
                  None \<Rightarrow> (r, [])
                | Some p \<Rightarrow>
                    (case set_phase (su_env S) now run_id p r of
                       (r1, changed) \<Rightarrow>
                         (r1, if changed \<and> checkpoint_phase = None then [(''phase_change'', p)] else [])))
         in if \<not> confirms then Some (r1, snap1, ev1 @ ev2)
            else
              let ev3 = [(''completion_detected'',
                     if is_pipeline_complete pane_content
                     then ''pipeline completion detected via pane text pattern match (checkpoint-confirmed)''
                     else ''pipeline completion detected via checkpoint.json (pane text did not match heuristic)'')];
                  (r2, ev4) = mark_complete (su_env S) now flush run_id r1
              in Some (r2, snap1, ev1 @ ev2 @ ev3 @ ev4))"

section \<open>Which runs are monitored\<close>

lemma hm_get_filter_key: "hm_get (filter (\<lambda>(i, _). P i) m) i = (if P i then hm_get m i else None)"
  by (induction m) auto

lemma hm_get_remove_all: "hm_get (fold hm_remove is m) i = (if i \<in> set is then None else hm_get m i)"
  by (induction "is" arbitrary: m) auto

lemma hm_get_add_all: "hm_get (fold add_monitor is m) i = (if hm_get m i = None \<and> i \<in> set is then Some () else hm_get m i)"
  by (induction "is" arbitrary: m) (auto simp: add_monitor_def)

lemma run_ids_filter:
  assumes "runs_ok r"
  shows "i \<in> set (map re_run_id (filter P (hm_values (reg_runs r)))) \<longleftrightarrow>
    (\<exists>e. hm_get (reg_runs r) i = Some e \<and> P e)"
proof
  assume "i \<in> set (map re_run_id (filter P (hm_values (reg_runs r))))"
  then obtain e where e: "e \<in> set (hm_values (reg_runs r))" "P e" "re_run_id e = i" by auto
  have "hm_ok (reg_runs r)" using assms by (simp add: runs_ok_def)
  from hm_values_get [OF this e(1)] obtain k where k: "hm_get (reg_runs r) k = Some e" ..
  with runs_ok_get [OF assms k] e show "\<exists>e. hm_get (reg_runs r) i = Some e \<and> P e" by auto
next
  assume "\<exists>e. hm_get (reg_runs r) i = Some e \<and> P e"
  then obtain e where e: "hm_get (reg_runs r) i = Some e" "P e" by blast
  with runs_ok_get [OF assms e(1)] hm_get_in_values [OF e(1)]
  show "i \<in> set (map re_run_id (filter P (hm_values (reg_runs r))))" by force
qed

text \<open>
  After a tick exactly these runs have a monitor whose task has not ended: the active ones that
  have a session or had a monitor, and those the registry no longer knows that had one. So every
  running session is watched from the next tick on, and no run that has come to an end is.
\<close>
theorem tick_monitors_exact:
  assumes "runs_ok r"
  shows "hm_get (tick_monitors ended r m) i \<noteq> None \<longleftrightarrow>
    \<not> ended i \<and>
    (case hm_get (reg_runs r) i of
       None \<Rightarrow> hm_get m i \<noteq> None
     | Some e \<Rightarrow> is_active e \<and> (re_tmux_session e \<noteq> None \<or> hm_get m i \<noteq> None))"
  using run_ids_filter [OF assms, of i "\<lambda>e. \<not> is_active e"]
    run_ids_filter [OF assms, of i "\<lambda>e. is_active e \<and> re_tmux_session e \<noteq> None"]
  unfolding tick_monitors_def Let_def hm_get_filter_key hm_get_add_all hm_get_remove_all
    runs_with_session_def stopped_runs_def
  by (auto split: option.split)

theorem tick_monitors_exact_witness:
  "hm_get (tick_monitors (\<lambda>_. False) (d_registry busy_daemon) [(''x'', ())]) ''a'' \<noteq> None
   \<and> hm_get (tick_monitors (\<lambda>_. False) (d_registry busy_daemon) [(''x'', ())]) ''b'' = None"
proof -
  have ok: "runs_ok (d_registry busy_daemon)"
    unfolding runs_ok_def hm_ok_def by code_simp
  have a: "is_active (the_run ''a'' busy_daemon)" "re_tmux_session (the_run ''a'' busy_daemon) \<noteq> None"
    by code_simp+
  obtain b where b: "hm_get (reg_runs (d_registry busy_daemon)) ''b'' = Some b" "re_tmux_session b = None"
  proof -
    have "map_option re_tmux_session (hm_get (reg_runs (d_registry busy_daemon)) ''b'') = Some None" by code_simp
    then show thesis using that by blast
  qed
  have "hm_get [(''x'', ())] ''b'' = None" by simp
  with b have "\<not> hm_get (tick_monitors (\<lambda>_. False) (d_registry busy_daemon) [(''x'', ())]) ''b'' \<noteq> None"
    unfolding tick_monitors_exact [OF ok] by (simp del: map_of.simps)
  moreover have "hm_get (tick_monitors (\<lambda>_. False) (d_registry busy_daemon) [(''x'', ())]) ''a'' \<noteq> None"
    unfolding tick_monitors_exact [OF ok] using a busy_daemon_run(1) by simp
  ultimately show ?thesis by blast
qed

section \<open>What a tick can and cannot do to a run\<close>

lemma read_phase_in_order:
  "read_phase_via_loop_state S now fs repo snap = Some (Some p, snap', ev) \<Longrightarrow> p \<in> set PHASE_ORDER"
  by (auto simp: read_phase_via_loop_state_def Let_def dest: effective_phase_in_order
      split: LoopStateRead.splits option.splits sum.splits prod.splits if_splits)

lemma complete_is_no_phase: "''complete'' \<notin> set PHASE_ORDER"
  by code_simp

lemma set_phase_statuses:
  "set_phase E now i p r = (r', b) \<Longrightarrow> hm_get (reg_runs r') j = Some e' \<Longrightarrow> re_status e' = Succeeded \<Longrightarrow>
    \<exists>e. hm_get (reg_runs r) j = Some e \<and> re_status e = Succeeded"
  by (auto simp: set_phase_def progress_run_def progress_entry_def stage_status_locked_def staged_entry_def Let_def
      split: option.splits if_splits)

text \<open>
  The heartbeat never marks a run succeeded. Its completion branch asks whether the phase read from
  the checkpoint is \<open>complete\<close>, but a complete checkpoint has no effective phase and no phase has that
  name, so whatever the files and the pane say, no run becomes \<open>Succeeded\<close> in a tick.
\<close>
theorem heartbeat_never_completes:
  assumes "update_phase_from_pane S now inst flush fs run_id pane r snap = Some (r', snap', evs)"
    and "hm_get (reg_runs r') i = Some e'" and "re_status e' = Succeeded"
  shows "\<exists>e. hm_get (reg_runs r) i = Some e \<and> re_status e = Succeeded"
proof -
  have "cp \<noteq> Some ''complete''"
    if "(case hm_get (reg_runs r) run_id of None \<Rightarrow> Some (None, snap, [])
      | Some e \<Rightarrow> read_phase_via_loop_state S inst fs (re_repo_dir e) snap) = Some (cp, snap1, ev1)" for cp snap1 ev1
    using that complete_is_no_phase by (auto dest: read_phase_in_order split: option.splits)
  with assms show ?thesis
    by (auto simp: update_phase_from_pane_def Let_def split: option.splits prod.splits
        dest: set_phase_statuses)
qed

text \<open>A tick for run \<open>a\<close>, whose pane shows the work phase, while \<open>b\<close> has succeeded.\<close>

definition half_done :: registry where
  "half_done = d_registry (set_status plain_env 9 io_ok ''b'' Succeeded None None busy_daemon)"

definition working_pane :: string where
  "working_pane = ''running phase_2''"

theorem heartbeat_never_completes_witness:
  "\<exists>r' snap' evs. update_phase_from_pane (example_surroundings id) 9 0 io_ok (\<lambda>_. Absent) ''a'' working_pane
      half_done snapshot_default = Some (r', snap', evs)
    \<and> hm_get (reg_runs r') ''b'' \<noteq> None
    \<and> (\<exists>e. hm_get (reg_runs half_done) ''b'' = Some e \<and> re_status e = Succeeded)"
proof -
  let ?u = "update_phase_from_pane (example_surroundings id) 9 0 io_ok (\<lambda>_. Absent) ''a'' working_pane half_done
      snapshot_default"
  have a: "map_option re_repo_dir (hm_get (reg_runs half_done) ''a'') = Some ''/r''" by code_simp
  have w: "phase_from_pane_heuristic working_pane = Some ''work''" by code_simp
  have s: "map_option re_status (hm_get (reg_runs (fst (set_phase plain_env 9 ''a'' ''work'' half_done))) ''b'')
      = Some Succeeded" by code_simp
  have m: "read_phase_via_loop_state (example_surroundings id) 0 (\<lambda>_. Absent) repo snapshot_default
      = Some (None, snapshot_default\<lparr>ds_waiting_loop_state_logged := True\<rparr>,
          [(''waiting_loop_state'', ''arc-phase-loop.local.md not found yet'')])" for repo
    by (simp add: read_phase_via_loop_state_def read_arc_loop_state_def snapshot_default_def)
  obtain r' snap' evs where u: "?u = Some (r', snap', evs)"
      "r' = fst (set_phase plain_env 9 ''a'' ''work'' half_done)"
    using a w m
    by (cases "set_phase plain_env 9 ''a'' ''work'' half_done")
      (auto simp: update_phase_from_pane_def Let_def example_surroundings_def)
  moreover from s u(2) obtain e where e: "hm_get (reg_runs r') ''b'' = Some e" "re_status e = Succeeded" by auto
  ultimately show ?thesis using heartbeat_never_completes [OF u(1) e] by blast
qed


section \<open>Events mark changes\<close>

lemma diff_refl [simp]: "diff s s = []"
  by (simp add: diff_def)

text \<open>A snapshot for which the loop state is no news.\<close>

definition knows :: "arc_loop_state \<Rightarrow> detection_snapshot \<Rightarrow> bool" where
  "knows s snap \<longleftrightarrow> ds_loop_state_seen_once snap \<and>
     (\<exists>prev. ds_last_loop_state snap = Some prev \<and> diff prev s = [])"

lemma note_loop_state_knows: "knows s (fst (note_loop_state s snap))"
  by (auto simp: note_loop_state_def knows_def Let_def split: option.split)

lemma knows_nothing_new: "knows s snap \<Longrightarrow> note_loop_state s snap = (snap, [])"
  by (auto simp: note_loop_state_def knows_def)

lemma note_missing_keeps: "knows s snap \<Longrightarrow> knows s (fst (note_missing now p snap))"
  by (auto simp: note_missing_def knows_def Let_def)

lemma note_phase_keeps: "knows s snap \<Longrightarrow> knows s (fst (note_phase ph s' p snap))"
  by (auto simp: note_phase_def knows_def)

lemma note_phase_twice: "note_phase ph s p (fst (note_phase ph s p snap)) = (fst (note_phase ph s p snap), [])"
  by (simp add: note_phase_def)

text \<open>
  Events mark changes. When the files are read again as they were, whenever that is, the phase is
  the same, and no loop state, phase or waiting event is written again: only an unreadable checkpoint
  and, after a minute, a missing one are reported repeatedly.
\<close>
theorem events_mark_changes:
  assumes "read_phase_via_loop_state S now fs repo snap = Some (ph, snap1, ev)"
  shows "\<exists>snap2 ev2. read_phase_via_loop_state S now' fs repo snap1 = Some (ph, snap2, ev2)
    \<and> set (map fst ev2) \<subseteq> {''checkpoint_read_failed'', ''checkpoint_missing''}"
proof (cases "read_arc_loop_state (fs (loop_file repo))")
  case Missing
  with assms show ?thesis by (auto simp: read_phase_via_loop_state_def split: if_splits)
next
  case Inactive
  with assms show ?thesis by (auto simp: read_phase_via_loop_state_def)
next
  case (Active s)
  let ?p = "resolve_checkpoint_path repo s"
  let ?s1 = "fst (note_loop_state s snap)"
  have k: "knows s ?s1" by (rule note_loop_state_knows)
  show ?thesis
  proof (cases "file_exists fs ?p")
    case False
    with assms Active have ph: "ph = None" and s1: "snap1 = fst (note_missing now ?p ?s1)"
      by (auto simp: read_phase_via_loop_state_def Let_def split: prod.splits)
    have "note_loop_state s snap1 = (snap1, [])"
      unfolding s1 by (rule knows_nothing_new [OF note_missing_keeps [OF k]])
    with False Active ph show ?thesis
      by (simp add: read_phase_via_loop_state_def note_missing_def Let_def)
  next
    case True
    show ?thesis
    proof (cases "read_checkpoint (su_parse_json S) (su_from_value S) fs ?p")
      case (Inl e)
      with assms Active True have ph: "ph = None" and s1: "snap1 = ?s1"
        and t: "truncate_error (show_read_error e) \<noteq> None"
        by (auto simp: read_phase_via_loop_state_def Let_def split: prod.splits option.splits)
      with Inl Active True knows_nothing_new [OF k] show ?thesis
        by (auto simp: read_phase_via_loop_state_def Let_def)
    next
      case (Inr c)
      show ?thesis
      proof (cases "inferred_phase_name c")
        case None
        with assms Active True Inr have "ph = None" "snap1 = ?s1"
          by (auto simp: read_phase_via_loop_state_def Let_def split: prod.splits)
        with None Inr Active True knows_nothing_new [OF k] show ?thesis
          by (simp add: read_phase_via_loop_state_def)
      next
        case (Some q)
        with assms Active True Inr have ph: "ph = Some q" and s1: "snap1 = fst (note_phase q s ?p ?s1)"
          by (auto simp: read_phase_via_loop_state_def Let_def split: prod.splits)
        have "note_loop_state s snap1 = (snap1, [])"
          unfolding s1 by (rule knows_nothing_new [OF note_phase_keeps [OF k]])
        moreover have "note_phase q s ?p snap1 = (snap1, [])" unfolding s1 by (rule note_phase_twice)
        ultimately show ?thesis using ph Some Inr Active True by (simp add: read_phase_via_loop_state_def)
      qed
    qed
  qed
qed

theorem events_mark_changes_witness:
  "\<exists>snap2 ev2. read_phase_via_loop_state (example_surroundings id) 7 (\<lambda>_. Absent) ''/r''
      (snapshot_default\<lparr>ds_waiting_loop_state_logged := True\<rparr>) = Some (None, snap2, ev2)
    \<and> set (map fst ev2) \<subseteq> {''checkpoint_read_failed'', ''checkpoint_missing''}"
proof -
  have "read_phase_via_loop_state (example_surroundings id) 5 (\<lambda>_. Absent) ''/r'' snapshot_default
      = Some (None, snapshot_default\<lparr>ds_waiting_loop_state_logged := True\<rparr>,
          [(''waiting_loop_state'', ''arc-phase-loop.local.md not found yet'')])"
    by (simp add: read_phase_via_loop_state_def read_arc_loop_state_def snapshot_default_def)
  from events_mark_changes [OF this, of 7] show ?thesis .
qed

text \<open>
  Cutting an error text at 200 bytes panics inside a character: a checkpoint that cannot be read below a
  directory with a long accented name ends the heartbeat for all runs.
\<close>
theorem accented_path_panics:
  "truncate_error (show_read_error
     (ReadFailed (replicate 167 (CHR ''a'') @ concat (replicate 20 [CHR 0xC3, CHR 0xA9])))) = None"
proof -
  let ?p = "replicate 167 (CHR ''a'') @ concat (replicate 20 [CHR 0xC3, CHR 0xA9])"
  let ?m = "''Failed to read checkpoint file: '' @ ?p"
  have "length (concat (replicate 20 [CHR 0xC3, CHR 0xA9])) = 40" by (simp add: numeral_eq_Suc)
  then have len: "length ?m = 239" by simp
  have "?m ! 200 = ?p ! 168" by (simp add: nth_append)
  also have "\<dots> = concat (replicate 20 [CHR 0xC3, CHR 0xA9]) ! 1" by (simp add: nth_append)
  also have "\<dots> = CHR 0xA9" by (simp add: numeral_eq_Suc)
  finally have "continues_char (?m ! 200)" by (simp add: continues_char_def Let_def)
  with len show ?thesis by (simp add: truncate_error_def slice_to_def)
qed

end
