(* ===== verification/Phase_Nav.thy ===== *)
theory Phase_Nav
  imports Checkpoint
begin

text \<open>
  Where the pipeline was, is and will be (\<open>monitor/phase_nav.rs\<close>, with the queries on positions of
  \<open>checkpoint/schema.rs\<close>), and how long a phase may take (\<open>resolve_phase_timeout\<close> and
  \<open>resolve_phase_timeout_full\<close> of \<open>engine/phase_profile.rs\<close>). The reading of RFC 3339 texts and of
  JSON values is an argument.
\<close>

section \<open>Queries on a position\<close>

fun is_transitioning :: "phase_position \<Rightarrow> bool" where
  "is_transitioning (Transitioning _ _ _) = True"
| "is_transitioning _ = False"

fun has_failure :: "phase_position \<Rightarrow> bool" where
  "has_failure (FailedAt _ _) = True"
| "has_failure _ = False"

text \<open>\<open>num_seconds\<close> truncates towards zero.\<close>

definition num_seconds :: "int \<Rightarrow> int" where
  "num_seconds d = sgn d * (\<bar>d\<bar> div 1000000000)"

definition transition_gap_secs :: "(string \<Rightarrow> utc option) \<Rightarrow> utc \<Rightarrow> phase_position \<Rightarrow> nat option" where
  "transition_gap_secs parse_time now p =
    (case p of
       Transitioning _ (Some ts) _ \<Rightarrow>
         map_option (\<lambda>t. nat (max 0 (num_seconds (now - t)))) (parse_time ts)
     | _ \<Rightarrow> None)"

section \<open>Navigation\<close>

definition TRANSITION_NUDGE_SECS :: nat where "TRANSITION_NUDGE_SECS = 300"

definition TRANSITION_WARN_SECS :: nat where "TRANSITION_WARN_SECS = 480"

definition TRANSITION_KILL_SECS :: nat where "TRANSITION_KILL_SECS = 660"

definition FAILED_NUDGE_SECS :: nat where "FAILED_NUDGE_SECS = 360"

definition FAILED_WARN_SECS :: nat where "FAILED_WARN_SECS = 540"

definition FAILED_KILL_SECS :: nat where "FAILED_KILL_SECS = 720"

record phase_info =
  pi_name :: string
  pi_duration_secs :: "int option"

record phase_navigation =
  pn_prev :: "phase_info option"
  pn_current :: "phase_info option"
  pn_next :: "string option"
  pn_position :: phase_position

text \<open>The seconds between two times that are both there and both well-formed.\<close>

definition secs_from_to :: "(string \<Rightarrow> utc option) \<Rightarrow> string option \<Rightarrow> string option \<Rightarrow> int option" where
  "secs_from_to parse_time from_ts to_ts =
    (case (Option.bind from_ts parse_time, Option.bind to_ts parse_time) of
       (Some a, Some b) \<Rightarrow> Some (num_seconds (b - a))
     | _ \<Rightarrow> None)"

definition compute_phase_duration :: "(string \<Rightarrow> utc option) \<Rightarrow> 'j phase_status \<Rightarrow> int option" where
  "compute_phase_duration parse_time ps = secs_from_to parse_time (ps_started_at ps) (ps_completed_at ps)"

definition completed_info :: "(string \<Rightarrow> utc option) \<Rightarrow> 'j checkpoint \<Rightarrow> string \<Rightarrow> phase_info option" where
  "completed_info parse_time c p =
    (case hm_get (ck_phases c) p of
       None \<Rightarrow> None
     | Some ps \<Rightarrow>
         if ps_status ps = ''completed''
         then Some \<lparr>pi_name = p, pi_duration_secs = compute_phase_duration parse_time ps\<rparr> else None)"

definition find_prev_completed :: "(string \<Rightarrow> utc option) \<Rightarrow> 'j checkpoint \<Rightarrow> nat \<Rightarrow> phase_info option" where
  "find_prev_completed parse_time c before_idx =
     find_map (completed_info parse_time c) (rev (take before_idx PHASE_ORDER))"

definition find_next_pending :: "'j checkpoint \<Rightarrow> nat \<Rightarrow> string option" where
  "find_next_pending c start_idx = next_actionable_phase_after c start_idx"

definition compute_phase_navigation ::
  "(string \<Rightarrow> utc option) \<Rightarrow> utc \<Rightarrow> 'j checkpoint \<Rightarrow> phase_navigation" where
  "compute_phase_navigation parse_time now c =
    (let position = infer_phase_position c in
     case position of
       RunningAt phase started_at \<Rightarrow>
         \<lparr>pn_prev = Option.bind (phase_index phase) (find_prev_completed parse_time c),
          pn_current = Some \<lparr>pi_name = phase,
            pi_duration_secs = map_option (\<lambda>t. num_seconds (now - t)) (Option.bind started_at parse_time)\<rparr>,
          pn_next = Option.bind (phase_index phase) (\<lambda>ci. find_next_pending c (ci + 1)),
          pn_position = position\<rparr>
     | Transitioning last_completed last_completed_at next_pending \<Rightarrow>
         \<lparr>pn_prev = Some \<lparr>pi_name = last_completed,
            pi_duration_secs = Option.bind (hm_get (ck_phases c) last_completed)
              (\<lambda>ps. secs_from_to parse_time (ps_started_at ps) last_completed_at)\<rparr>,
          pn_current = None,
          pn_next = (if next_pending = [] then None else Some next_pending),
          pn_position = position\<rparr>
     | WaitingToStart first_pending \<Rightarrow>
         \<lparr>pn_prev = None, pn_current = None, pn_next = Some first_pending, pn_position = position\<rparr>
     | AllDone \<Rightarrow>
         \<lparr>pn_prev = find_map (completed_info parse_time c) (rev PHASE_ORDER),
          pn_current = None, pn_next = None, pn_position = position\<rparr>
     | FailedAt failed_phase next_pending \<Rightarrow>
         \<lparr>pn_prev = Option.bind (phase_index failed_phase) (find_prev_completed parse_time c),
          pn_current = Some \<lparr>pi_name = failed_phase, pi_duration_secs = None\<rparr>,
          pn_next = next_pending, pn_position = position\<rparr>
     | UnknownPosition \<Rightarrow>
         \<lparr>pn_prev = None, pn_current = None, pn_next = None, pn_position = position\<rparr>)"

section \<open>How long a phase may take\<close>

text \<open>
  A view of JSON values: a field of an object, and the value as a number, a truth value or a text.
\<close>

record 'j json_view =
  jv_get :: "'j \<Rightarrow> string \<Rightarrow> 'j option"
  jv_u64 :: "'j \<Rightarrow> nat option"
  jv_bool :: "'j \<Rightarrow> bool option"
  jv_str :: "'j \<Rightarrow> string option"

definition phase_time_ms :: "'j json_view \<Rightarrow> string \<Rightarrow> 'j checkpoint \<Rightarrow> nat option" where
  "phase_time_ms J phase_name c =
    Option.bind (ck_totals c) (\<lambda>t. Option.bind (jv_get J t ''phase_times'')
      (\<lambda>pt. Option.bind (jv_get J pt phase_name) (jv_u64 J)))"

definition resolve_phase_timeout :: "'j json_view \<Rightarrow> string \<Rightarrow> 'j checkpoint \<Rightarrow> nat \<Rightarrow> nat" where
  "resolve_phase_timeout J phase_name c fallback =
    (case phase_time_ms J phase_name c of
       Some ms \<Rightarrow> ms div 1000 + GRACE_BUFFER_SECS
     | None \<Rightarrow> fallback)"

definition reaction_key :: "string \<Rightarrow> string option" where
  "reaction_key phase_name =
    (if phase_name \<in> set [''work'', ''task_decomposition'', ''work_qa'', ''drift_review''] then Some ''work_incomplete''
     else if phase_name \<in> set [''mend'', ''mend_qa'', ''verify_mend''] then Some ''mend_findings_exceeded''
     else if phase_name \<in> set [''code_review'', ''code_review_qa''] then Some ''review_changes_requested''
     else None)"

definition escalate_ms :: "'j json_view \<Rightarrow> string \<Rightarrow> 'j checkpoint \<Rightarrow> nat option" where
  "escalate_ms J key c =
    Option.bind (ck_reactions c) (\<lambda>r. Option.bind (jv_get J r key)
      (\<lambda>x. Option.bind (jv_get J x ''escalate_after_ms'') (jv_u64 J)))"

definition resolve_phase_timeout_full :: "'j json_view \<Rightarrow> string \<Rightarrow> 'j checkpoint \<Rightarrow> PhaseProfile \<Rightarrow> nat" where
  "resolve_phase_timeout_full J phase_name c profile =
    (case phase_time_ms J phase_name c of
       Some ms \<Rightarrow> ms div 1000 + GRACE_BUFFER_SECS
     | None \<Rightarrow>
         (case Option.bind (reaction_key phase_name) (\<lambda>key. escalate_ms J key c) of
            Some ms \<Rightarrow> ms div 1000 + GRACE_BUFFER_SECS
          | None \<Rightarrow> pp_phase_timeout_secs profile))"

section \<open>What navigation shows\<close>

lemma find_map_rev_take:
  assumes "find_map f (rev (take n xs)) = Some y" and "n \<le> length xs"
  obtains i where "i < n" "f (xs ! i) = Some y" "\<And>k. i < k \<Longrightarrow> k < n \<Longrightarrow> f (xs ! k) = None"
  using assms
proof (induction n arbitrary: thesis)
  case (Suc n)
  then have t: "rev (take (Suc n) xs) = xs ! n # rev (take n xs)" by (simp add: take_Suc_conv_app_nth)
  show ?case
  proof (cases "f (xs ! n)")
    case None
    with Suc.prems t have "find_map f (rev (take n xs)) = Some y" "n \<le> length xs" by simp_all
    from Suc.IH [OF _ this] obtain i where "i < n" "f (xs ! i) = Some y" "\<And>k. i < k \<Longrightarrow> k < n \<Longrightarrow> f (xs ! k) = None"
      by blast
    with None Suc.prems(1) [of i] show ?thesis by (metis less_SucI less_SucE)
  next
    case (Some z)
    with Suc.prems(2) t have "f (xs ! n) = Some y" by simp
    then show ?thesis by (rule Suc.prems(1) [OF lessI]) simp
  qed
qed simp

lemma completed_info_Some:
  "completed_info parse_time c p = Some i \<Longrightarrow> status_of c p = Some ''completed'' \<and> pi_name i = p"
  "completed_info parse_time c p = None \<longleftrightarrow> status_of c p \<noteq> Some ''completed''"
  by (auto simp: completed_info_def status_of_def split: option.splits if_splits)

lemma prev_completed:
  assumes "find_prev_completed parse_time c n = Some i" and "n \<le> PHASE_COUNT"
  shows "\<exists>k < n. pi_name i = PHASE_ORDER ! k \<and> status_of c (PHASE_ORDER ! k) = Some ''completed''
    \<and> (\<forall>j. k < j \<and> j < n \<longrightarrow> status_of c (PHASE_ORDER ! j) \<noteq> Some ''completed'')"
proof -
  have "n \<le> length PHASE_ORDER" using assms(2) by (simp add: length_PHASE_ORDER PHASE_COUNT_eq)
  from find_map_rev_take [OF assms(1) [unfolded find_prev_completed_def] this]
  obtain k where "k < n" "completed_info parse_time c (PHASE_ORDER ! k) = Some i"
    "\<And>j. k < j \<Longrightarrow> j < n \<Longrightarrow> completed_info parse_time c (PHASE_ORDER ! j) = None" by blast
  then show ?thesis using completed_info_Some by blast
qed

lemma next_pending:
  assumes "find_next_pending c n = Some p" and "n \<le> PHASE_COUNT"
  shows "\<exists>k \<ge> n. k < PHASE_COUNT \<and> p = PHASE_ORDER ! k \<and> is_phase_actionable c p
    \<and> (\<forall>j. n \<le> j \<and> j < k \<longrightarrow> \<not> is_phase_actionable c (PHASE_ORDER ! j))"
proof -
  from assms(1) obtain i where i: "i < length (drop n PHASE_ORDER)" "is_phase_actionable c (drop n PHASE_ORDER ! i)"
      "p = drop n PHASE_ORDER ! i" "\<forall>j < i. \<not> is_phase_actionable c (drop n PHASE_ORDER ! j)"
    by (auto simp: find_next_pending_def next_actionable_phase_after_def find_Some_iff)
  then have "p = PHASE_ORDER ! (n + i)" "n + i < PHASE_COUNT"
    using assms(2) by (simp_all add: length_PHASE_ORDER PHASE_COUNT_eq)
  moreover have "\<not> is_phase_actionable c (PHASE_ORDER ! j)" if "n \<le> j" "j < n + i" for j
  proof -
    have "drop n PHASE_ORDER ! (j - n) = PHASE_ORDER ! j"
      using that assms(2) by (simp add: length_PHASE_ORDER PHASE_COUNT_eq)
    moreover have "j - n < i" using that by linarith
    ultimately show ?thesis using i(4) by metis
  qed
  ultimately show ?thesis using i(2,3) by (metis le_add1)
qed

text \<open>
  What navigation shows while a phase runs. The current phase is the first of the pipeline order
  that is in progress; the previous one shown is the last completed phase before it, shown exactly
  when there is one; the next one shown is the first phase after it that is pending and not to be
  skipped.
\<close>
theorem navigation_around_running_phase:
  assumes "infer_phase_position c = RunningAt p started_at"
    and nav: "compute_phase_navigation parse_time now c = nav"
  shows "\<exists>i < PHASE_COUNT. p = PHASE_ORDER ! i
    \<and> (case pn_prev nav of
         None \<Rightarrow> \<forall>j < i. status_of c (PHASE_ORDER ! j) \<noteq> Some ''completed''
       | Some q \<Rightarrow> \<exists>k < i. pi_name q = PHASE_ORDER ! k \<and> status_of c (PHASE_ORDER ! k) = Some ''completed''
           \<and> (\<forall>j. k < j \<and> j < i \<longrightarrow> status_of c (PHASE_ORDER ! j) \<noteq> Some ''completed''))
    \<and> (case pn_next nav of
         None \<Rightarrow> \<forall>j > i. j < PHASE_COUNT \<longrightarrow> \<not> is_phase_actionable c (PHASE_ORDER ! j)
       | Some q \<Rightarrow> \<exists>k > i. k < PHASE_COUNT \<and> q = PHASE_ORDER ! k \<and> is_phase_actionable c q
           \<and> (\<forall>j. i < j \<and> j < k \<longrightarrow> \<not> is_phase_actionable c (PHASE_ORDER ! j)))"
proof -
  have "p \<in> set PHASE_ORDER"
    using effective_phase_in_order [of c p] assms(1) by (simp add: inferred_phase_name_def)
  then obtain i where i: "phase_index p = Some i" using phase_index_None [of p] by blast
  then have p: "i < PHASE_COUNT" "p = PHASE_ORDER ! i"
    using phase_index_less phase_index_iff by (auto simp: length_PHASE_ORDER PHASE_COUNT_eq)
  have prev: "pn_prev nav = find_prev_completed parse_time c i"
    and nxt: "pn_next nav = find_next_pending c (Suc i)"
    using assms i by (auto simp: compute_phase_navigation_def Let_def)
  have "\<forall>j < i. status_of c (PHASE_ORDER ! j) \<noteq> Some ''completed''" if "pn_prev nav = None"
  proof (intro allI impI)
    fix j assume "j < i"
    then have "PHASE_ORDER ! j \<in> set (rev (take i PHASE_ORDER))"
      using p(1) by (auto simp: in_set_conv_nth length_PHASE_ORDER PHASE_COUNT_eq)
    with that show "status_of c (PHASE_ORDER ! j) \<noteq> Some ''completed''"
      unfolding prev find_prev_completed_def find_map_None completed_info_Some(2) by blast
  qed
  moreover have "\<forall>j > i. j < PHASE_COUNT \<longrightarrow> \<not> is_phase_actionable c (PHASE_ORDER ! j)" if "pn_next nav = None"
  proof (intro allI impI)
    fix j assume j: "i < j" "j < PHASE_COUNT"
    then have "PHASE_ORDER ! j = drop (Suc i) PHASE_ORDER ! (j - Suc i)" "j - Suc i < length (drop (Suc i) PHASE_ORDER)"
      by (simp_all add: length_PHASE_ORDER PHASE_COUNT_eq)
    then have "PHASE_ORDER ! j \<in> set (drop (Suc i) PHASE_ORDER)" by (metis nth_mem)
    with that show "\<not> is_phase_actionable c (PHASE_ORDER ! j)"
      unfolding nxt find_next_pending_def next_actionable_phase_after_def find_None_iff by blast
  qed
  ultimately show ?thesis
    using p prev_completed [of parse_time c i] next_pending [of c "Suc i"] prev nxt
    by (intro exI [of _ i]) (auto split: option.split simp: Suc_le_eq)
qed

text \<open>A pipeline at its second phase, the first completed.\<close>

definition at_second :: "unit checkpoint" where
  "at_second = (checkpoint_default ''t'')\<lparr>ck_phases :=
     [(PHASE_ORDER ! 0, phase_status_new ''completed''), (PHASE_ORDER ! 1, phase_status_new ''in_progress''),
      (PHASE_ORDER ! 3, phase_status_new ''pending'')]\<rparr>"

theorem navigation_around_running_phase_witness:
  "infer_phase_position at_second = RunningAt (PHASE_ORDER ! 1) None
   \<and> (\<exists>i < PHASE_COUNT. PHASE_ORDER ! 1 = PHASE_ORDER ! i)"
proof -
  have r: "infer_phase_position at_second = RunningAt (PHASE_ORDER ! 1) None" by code_simp
  from navigation_around_running_phase [OF r refl, of "\<lambda>_. None" 0] r show ?thesis by blast
qed

text \<open>Every resolved timeout is the profile's or comes with the grace buffer on top.\<close>
theorem resolved_timeout_has_grace:
  "resolve_phase_timeout_full J p c pr = pp_phase_timeout_secs pr
   \<or> (\<exists>ms. resolve_phase_timeout_full J p c pr = ms div 1000 + GRACE_BUFFER_SECS)"
  by (auto simp: resolve_phase_timeout_full_def split: option.split)

end
