(* ===== verification/Prompt_Accept.thy ===== *)
theory Prompt_Accept
  imports Crash_Loop
begin

text \<open>
  The automatic answer to permission prompts (\<open>monitor/prompt_accept.rs\<close>). The pane is a text and
  \<open>sent\<close> tells whether tmux took the Enter key.
\<close>

definition PROMPT_PATTERNS :: "string list" where
  "PROMPT_PATTERNS =
    [''? (y/n)'', ''? (yes/no)'', ''(y/n)'', ''(yes/no)'', ''allow tool'', ''allow edit'', ''allow write'',
     ''allow bash'', ''allow read'', ''allow mcp'', ''do you want to proceed'', ''do you want to continue'',
     ''press enter to continue'', ''press enter'', ''continue?'']"

definition SHELL_PROMPTS :: "string list" where
  "SHELL_PROMPTS = [heavy_angle, ''$ '', ''# '', ''% '']"

definition MAX_AUTO_ACCEPTS :: nat where "MAX_AUTO_ACCEPTS = 50"

record prompt_acceptor =
  pa_last_accept :: "instant option"
  pa_debounce :: nat
  pa_enabled :: bool
  pa_accept_count :: nat
  pa_limit_logged :: bool

definition prompt_acceptor_new :: "bool \<Rightarrow> nat \<Rightarrow> prompt_acceptor" where
  "prompt_acceptor_new enabled debounce_secs =
     \<lparr>pa_last_accept = None, pa_debounce = debounce_secs, pa_enabled = enabled, pa_accept_count = 0,
      pa_limit_logged = False\<rparr>"

definition last_visible_line :: "string \<Rightarrow> string" where
  "last_visible_line pane =
    (case find (\<lambda>l. trim l \<noteq> []) (rev (str_lines pane)) of
       Some l \<Rightarrow> to_lowercase l
     | None \<Rightarrow> [])"

definition permission_prompt :: "string \<Rightarrow> bool" where
  "permission_prompt pane \<longleftrightarrow>
    (let l = last_visible_line pane in
     \<not> list_ex (\<lambda>p. str_contains p l) SHELL_PROMPTS \<and> list_ex (\<lambda>p. str_contains p l) PROMPT_PATTERNS)"

definition check_and_accept :: "instant \<Rightarrow> bool \<Rightarrow> string \<Rightarrow> prompt_acceptor \<Rightarrow> bool \<times> prompt_acceptor" where
  "check_and_accept now sent pane a =
    (if \<not> pa_enabled a then (False, a)
     else if pa_accept_count a \<ge> MAX_AUTO_ACCEPTS then (False, a\<lparr>pa_limit_logged := True\<rparr>)
     else if \<not> permission_prompt pane then (False, a)
     else if (case pa_last_accept a of
                Some l \<Rightarrow> max 0 (now - l) < int (pa_debounce a) * NANOS | None \<Rightarrow> False) then (False, a)
     else if sent then
       (True, a\<lparr>pa_last_accept := Some now, pa_accept_count := pa_accept_count a + 1\<rparr>)
     else (False, a))"

section \<open>Bounds on the answers\<close>

text \<open>The times of the answers given while the panes are looked at one after another.\<close>

fun accepts :: "(instant \<times> bool \<times> string) list \<Rightarrow> prompt_acceptor \<Rightarrow> instant list" where
  "accepts [] a = []"
| "accepts ((now, sent, pane) # xs) a =
    (case check_and_accept now sent pane a of
       (True, a') \<Rightarrow> now # accepts xs a'
     | (False, a') \<Rightarrow> accepts xs a')"

text \<open>Answers keep a distance.\<close>

fun spaced :: "int \<Rightarrow> instant list \<Rightarrow> bool" where
  "spaced d (t # u # ts) \<longleftrightarrow> t + d \<le> u \<and> spaced d (u # ts)"
| "spaced d _ \<longleftrightarrow> True"

lemma check_and_accept_cases:
  assumes "check_and_accept now sent pane a = (b, a')"
  shows "pa_debounce a' = pa_debounce a"
    and "b \<Longrightarrow> pa_last_accept a' = Some now \<and> pa_accept_count a' = pa_accept_count a + 1
      \<and> pa_accept_count a < MAX_AUTO_ACCEPTS \<and> permission_prompt pane
      \<and> (\<forall>l. pa_last_accept a = Some l \<longrightarrow> int (pa_debounce a) * NANOS \<le> max 0 (now - l))"
    and "\<not> b \<Longrightarrow> pa_last_accept a' = pa_last_accept a \<and> pa_accept_count a' = pa_accept_count a"
  using assms by (auto simp: check_and_accept_def split: if_splits option.splits)

lemma accepts_bounded: "length (accepts xs a) \<le> MAX_AUTO_ACCEPTS - pa_accept_count a"
proof (induction xs a rule: accepts.induct)
  case (2 now sent pane xs a)
  obtain b a' where c: "check_and_accept now sent pane a = (b, a')" by fastforce
  note check_and_accept_cases [OF c]
  with 2 c show ?case by (cases b) fastforce+
qed simp

lemma accepts_spaced:
  assumes "0 < pa_debounce a"
  shows "spaced (int (pa_debounce a) * NANOS) ((case pa_last_accept a of Some l \<Rightarrow> [l] | None \<Rightarrow> []) @ accepts xs a)"
  using assms
proof (induction xs a rule: accepts.induct)
  case (1 a)
  then show ?case by (simp split: option.split)
next
  case (2 now sent pane xs a)
  obtain b a' where c: "check_and_accept now sent pane a = (b, a')" by fastforce
  note k = check_and_accept_cases [OF c]
  show ?case
  proof (cases b)
    case True
    from 2(1) [OF c [symmetric]] True k 2(3)
    have s: "spaced (int (pa_debounce a) * NANOS) (now # accepts xs a')" by simp
    show ?thesis
    proof (cases "pa_last_accept a")
      case (Some l)
      with True k(2) have "int (pa_debounce a) * NANOS \<le> max 0 (now - l)" by blast
      moreover have "0 < int (pa_debounce a) * NANOS" using 2(3) by (simp add: NANOS_def)
      ultimately have "l + int (pa_debounce a) * NANOS \<le> now" by linarith
      with s c True Some show ?thesis by simp
    qed (use s c True in simp)
  next
    case False
    with 2(2) [OF c [symmetric]] k 2(3) c show ?thesis by simp
  qed
qed

text \<open>
  Automatic answers are bounded. Whatever the panes show, an acceptor answers at most 50 prompts
  in its life, only while it is enabled, and two answers are at least the debounce time apart.
\<close>
theorem answers_are_bounded:
  assumes "0 < debounce_secs"
    and ts_def: "accepts xs (prompt_acceptor_new enabled debounce_secs) = ts"
  shows "length ts \<le> 50 \<and> spaced (int debounce_secs * NANOS) ts \<and> (\<not> enabled \<longrightarrow> ts = [])"
proof -
  have "accepts ys a = []" if "\<not> pa_enabled a" for ys a
    using that by (induction ys a rule: accepts.induct) (simp_all add: check_and_accept_def)
  then have "\<not> enabled \<longrightarrow> ts = []" by (simp flip: ts_def add: prompt_acceptor_new_def)
  moreover have "length ts \<le> 50"
    using accepts_bounded [of xs "prompt_acceptor_new enabled debounce_secs"]
    by (simp flip: ts_def add: prompt_acceptor_new_def MAX_AUTO_ACCEPTS_def)
  moreover have "spaced (int debounce_secs * NANOS) ts"
    using accepts_spaced [of "prompt_acceptor_new enabled debounce_secs" xs] assms(1)
    by (simp flip: ts_def add: prompt_acceptor_new_def)
  ultimately show ?thesis by blast
qed

theorem answers_are_bounded_witness:
  "spaced (5 * NANOS) (accepts [(0, True, ''Allow tool? (y/n)''), (1, True, ''Allow tool? (y/n)'')]
     (prompt_acceptor_new True 5))
   \<and> accepts [(0, True, ''Allow tool? (y/n)''), (1, True, ''Allow tool? (y/n)'')] (prompt_acceptor_new True 5) = [0]"
proof -
  have "accepts [(0, True, ''Allow tool? (y/n)''), (1, True, ''Allow tool? (y/n)'')] (prompt_acceptor_new True 5) = [0]"
    by code_simp
  from answers_are_bounded [OF _ this] this show ?thesis by simp
qed

text \<open>
  A prompt beginning with the heavy angle, as Claude Code draws the selected choice, counts as a shell
  prompt; and so does any question that mentions a price or a heading.
\<close>
theorem shell_guard_blocks_choices:
  "\<not> permission_prompt (heavy_angle @ '' 1. Yes, allow tool'') \<and> \<not> permission_prompt ''Allow bash: echo 5$ ?  (y/n)''
   \<and> permission_prompt ''Do you want to proceed? (y/n)''"
  by code_simp

end
