(* ===== verification/Poll_Loop.thy ===== *)
theory Poll_Loop
  imports Main
begin

text \<open>
  The interface of the loops that poll until something decides: a poll looks at what an event brings
  and either goes on or ends with an outcome; the loop polls until then. What every poll keeps, the
  loop keeps, and its outcome is that of one poll. The monitors of the daemon and of the foreground
  are such loops.
\<close>

locale poll_loop =
  fixes poll :: "'e \<Rightarrow> 's \<Rightarrow> 'o option \<times> 's"
    and loop :: "'e list \<Rightarrow> 's \<Rightarrow> 'o option \<times> 's"
  assumes loop_Nil: "loop [] s = (None, s)"
    and loop_Cons: "loop (e # es) s =
      (case poll e s of (Some out, s') \<Rightarrow> (Some out, s') | (None, s') \<Rightarrow> loop es s')"
begin

lemma loop_end: "poll e s = (Some out, s') \<Longrightarrow> loop (e # es) s = (Some out, s')"
  by (simp add: loop_Cons)

lemma loop_on: "poll e s = (None, s') \<Longrightarrow> loop (e # es) s = loop es s'"
  by (simp add: loop_Cons)

lemma loop_append:
  "loop (es @ fs) s = (case loop es s of (Some out, s') \<Rightarrow> (Some out, s') | (None, s') \<Rightarrow> loop fs s')"
  by (induction es arbitrary: s) (auto simp: loop_Nil loop_Cons split: option.split prod.split)

text \<open>What every poll of these events that goes on keeps, the loop keeps.\<close>

lemma loop_keeps_on:
  assumes "\<And>e s s'. e \<in> set es \<Longrightarrow> P s \<Longrightarrow> poll e s = (None, s') \<Longrightarrow> P s'"
  shows "P s \<Longrightarrow> loop es s = (None, s') \<Longrightarrow> P s'"
  using assms
proof (induction es arbitrary: s)
  case (Cons e es)
  obtain out t where p: "poll e s = (out, t)" by fastforce
  with Cons.prems(2) have n: "out = None" by (auto simp: loop_Cons split: option.splits)
  with p Cons.prems(1,3) have "P t" by (meson list.set_intros(1))
  moreover from p n Cons.prems(2) have "loop es t = (None, s')" by (simp add: loop_on)
  ultimately show ?case using Cons.IH Cons.prems(3) by (meson list.set_intros(2))
qed (simp add: loop_Nil)

text \<open>An outcome is that of one poll, from a state with everything the polls before it keep.\<close>

lemma loop_outcome_on:
  assumes "\<And>e s s'. e \<in> set es \<Longrightarrow> P s \<Longrightarrow> poll e s = (None, s') \<Longrightarrow> P s'"
  shows "P s \<Longrightarrow> loop es s = (Some out, s') \<Longrightarrow> \<exists>e t. e \<in> set es \<and> P t \<and> poll e t = (Some out, s')"
  using assms
proof (induction es arbitrary: s)
  case (Cons e es)
  obtain o' t where p: "poll e s = (o', t)" by fastforce
  show ?case
  proof (cases o')
    case None
    with p Cons.prems(1,3) have "P t" by (meson list.set_intros(1))
    moreover from p None Cons.prems(2) have "loop es t = (Some out, s')" by (simp add: loop_on)
    ultimately have "\<exists>e u. e \<in> set es \<and> P u \<and> poll e u = (Some out, s')"
      using Cons.IH Cons.prems(3) by (meson list.set_intros(2))
    then show ?thesis by auto
  next
    case (Some x)
    with p Cons.prems(2) have "x = out" "t = s'" by (simp_all add: loop_Cons)
    with p Some Cons.prems(1) show ?thesis by auto
  qed
qed (simp add: loop_Nil)

text \<open>The same when every poll keeps it, whatever its event.\<close>

lemma loop_keeps:
  assumes "\<And>e s s'. P s \<Longrightarrow> poll e s = (None, s') \<Longrightarrow> P s'"
  shows "P s \<Longrightarrow> loop es s = (None, s') \<Longrightarrow> P s'"
  by (rule loop_keeps_on [of es P]) (use assms in blast)+

lemma loop_outcome:
  assumes "\<And>e s s'. P s \<Longrightarrow> poll e s = (None, s') \<Longrightarrow> P s'"
  shows "P s \<Longrightarrow> loop es s = (Some out, s') \<Longrightarrow> \<exists>e t. e \<in> set es \<and> P t \<and> poll e t = (Some out, s')"
  by (rule loop_outcome_on [of es P]) (use assms in blast)+

end

end
