(* ===== verification/Run_Monitor.thy ===== *)
theory Run_Monitor
  imports Recovery Phase_Nav Prompt_Accept Poll_Loop
begin

text \<open>
  The monitor of one run (\<open>daemon/run_monitor.rs\<close>, with the signal files of \<open>commands/elden.rs\<close>): its
  state, every check of its poll and the poll itself, in the order of the code. What the world
  answers during a poll is a record; clocks and files are read anew by every step, so they are
  functions of the step, numbered in the order of execution: 0 signals, 1 pipeline timeout, 2
  session, 3 pane, 4 prompt, 5 completion text, 6 error evidence, 7 completion grace, 8 checkpoint,
  9 loop state, 10 artifacts, 11 process, 12 phase timeout, 13 transition gap, 14 failed phase, 15
  idleness, 16 kill gate, 17 status. What a poll does to the session is appended to a log; log lines
  and events are left out, and so are the fields no code reads.
\<close>

section \<open>State\<close>

datatype KillOutcomeKind = KillStuck | KillTimeout | KillError ErrorClass

record pending_kill =
  pk_reason :: string
  pk_outcome :: KillOutcomeKind
  pk_started_at :: instant
  pk_nudge_sent :: bool

datatype action = Nudge string | PressEnter | CrashDump string | KillSession | ClearSignals

record monitor =
  mo_repo_dir :: path
  mo_run_started_at :: instant
  mo_monitor_started_at :: instant
  mo_phase_started_at :: "instant option"
  mo_watchdog :: watchdog_config
  mo_current_phase :: "string option"
  mo_current_profile :: PhaseProfile
  mo_effective_phase_timeout :: nat
  mo_last_pane_hash :: u64
  mo_last_activity :: instant
  mo_nudge_count :: nat
  mo_last_checkpoint_activity :: instant
  mo_cached_checkpoint_path :: "path option"
  mo_error_confirm_since :: "(instant \<times> ErrorClass) option"
  mo_loop_state_ever_seen :: bool
  mo_loop_state_gone_since :: "instant option"
  mo_prev_loop_state :: "arc_loop_state option"
  mo_last_loop_state_change :: instant
  mo_last_artifact_scan :: instant
  mo_last_artifact_activity :: instant
  mo_last_artifact_snapshot :: "artifact_snapshot option"
  mo_pending_kill :: "pending_kill option"
  mo_completion_detected_at :: "instant option"
  mo_in_transition_since :: "instant option"
  mo_transition_nudge_count :: nat
  mo_in_failed_since :: "instant option"
  mo_failed_nudge_count :: nat
  mo_claude_pid :: "nat option"
  mo_last_process_gone_at :: "instant option"
  mo_consecutive_unreachable :: nat
  mo_cached_swarm_active :: bool
  mo_last_swarm_check :: instant
  mo_prompt_acceptor :: prompt_acceptor
  mo_last_status_log :: instant
  mo_poll_count :: nat
  mo_actions :: "action list"

text \<open>JSON, times, the hash of pane contents, and the floor of the clock.\<close>

record 'v sensors =
  se_parse_json :: "string \<Rightarrow> 'v option"
  se_from_value :: "'v \<Rightarrow> 'v checkpoint option"
  se_json :: "'v json_view"
  se_parse_time :: "string \<Rightarrow> utc option"
  se_hash_str :: "string \<Rightarrow> u64"
  se_floor :: int

datatype SessionProbe = ProbePresent | ProbeAbsent | ProbeUnreachable string

text \<open>
  The answers to one poll. The file age is that of the permission signal in seconds, \<open>None\<close> when
  there is none; the artifacts are those of the directory a checkpoint path is in; \<open>None\<close> for the
  teammates is that of \<open>check_swarm_activity\<close>.
\<close>

record tick_io =
  ti_clock :: "nat \<Rightarrow> instant"
  ti_utc :: utc
  ti_files :: "nat \<Rightarrow> file_system"
  ti_permission_age :: "nat option"
  ti_failure_pane :: string
  ti_probe :: SessionProbe
  ti_sync_ok :: bool
  ti_pane :: "string option"
  ti_enter_sent :: bool
  ti_alive :: "nat \<Rightarrow> nat \<Rightarrow> bool"
  ti_swarm :: "nat \<Rightarrow> nat \<Rightarrow> swarm_snapshot option"
  ti_artifacts :: "path \<Rightarrow> node"
  ti_online :: bool

text \<open>\<open>checked_sub\<close> with the present as the way out.\<close>

definition back_from :: "int \<Rightarrow> instant \<Rightarrow> int \<Rightarrow> instant" where
  "back_from clock_floor now dur = (case checked_sub clock_floor now dur of Some t \<Rightarrow> t | None \<Rightarrow> now)"

definition instant_from_started_at :: "int \<Rightarrow> instant \<Rightarrow> utc \<Rightarrow> utc \<Rightarrow> instant" where
  "instant_from_started_at clock_floor now now_utc started_at = back_from clock_floor now (max 0 (now_utc - started_at))"

definition monitor_new :: "int \<Rightarrow> instant \<Rightarrow> utc \<Rightarrow> run_entry \<Rightarrow> watchdog_config \<Rightarrow> monitor" where
  "monitor_new clock_floor now now_utc entry wd =
     \<lparr>mo_repo_dir = re_repo_dir entry,
      mo_run_started_at = instant_from_started_at clock_floor now now_utc (re_started_at entry),
      mo_monitor_started_at = now, mo_phase_started_at = None, mo_watchdog = wd, mo_current_phase = None,
      mo_current_profile = default_profile,
      mo_effective_phase_timeout = pp_phase_timeout_secs default_profile,
      mo_last_pane_hash = 0, mo_last_activity = now, mo_nudge_count = 0, mo_last_checkpoint_activity = now,
      mo_cached_checkpoint_path = None, mo_error_confirm_since = None, mo_loop_state_ever_seen = False,
      mo_loop_state_gone_since = None, mo_prev_loop_state = None, mo_last_loop_state_change = now,
      mo_last_artifact_scan = now, mo_last_artifact_activity = now, mo_last_artifact_snapshot = None,
      mo_pending_kill = None, mo_completion_detected_at = None, mo_in_transition_since = None,
      mo_transition_nudge_count = 0, mo_in_failed_since = None, mo_failed_nudge_count = 0,
      mo_claude_pid = re_claude_pid entry, mo_last_process_gone_at = None, mo_consecutive_unreachable = 0,
      mo_cached_swarm_active = False, mo_last_swarm_check = now,
      mo_prompt_acceptor = prompt_acceptor_new (wd_prompt_accept_enabled wd) (wd_prompt_accept_debounce_secs wd),
      mo_last_status_log = now, mo_poll_count = 0, mo_actions = []\<rparr>"

definition act :: "action \<Rightarrow> monitor \<Rightarrow> monitor" where
  "act a m = m\<lparr>mo_actions := mo_actions m @ [a]\<rparr>"

definition arm :: "instant \<Rightarrow> string \<Rightarrow> KillOutcomeKind \<Rightarrow> monitor \<Rightarrow> monitor" where
  "arm now reason kind m = m\<lparr>mo_pending_kill :=
     Some \<lparr>pk_reason = reason, pk_outcome = kind, pk_started_at = now, pk_nudge_sent = False\<rparr>\<rparr>"

definition detect_completion :: "instant \<Rightarrow> monitor \<Rightarrow> monitor" where
  "detect_completion now m =
    (if mo_completion_detected_at m = None then m\<lparr>mo_completion_detected_at := Some now\<rparr> else m)"

section \<open>Signals and the pipeline timeout\<close>

definition signal_dir :: "path \<Rightarrow> path" where
  "signal_dir base = path_join (path_join base ''.gw'') ''signals''"

definition read_signal :: "'v sensors \<Rightarrow> file_system \<Rightarrow> path \<Rightarrow> string \<Rightarrow> 'v option" where
  "read_signal E fs base name =
    (case fs (path_join (signal_dir base) name) of Readable s \<Rightarrow> se_parse_json E s | _ \<Rightarrow> None)"

definition is_permission_pending :: "nat option \<Rightarrow> bool" where
  "is_permission_pending age = (case age of Some secs \<Rightarrow> secs < 60 | None \<Rightarrow> False)"

definition signal_field :: "'v sensors \<Rightarrow> string \<Rightarrow> ('v \<Rightarrow> 'a option) \<Rightarrow> 'v \<Rightarrow> 'a option" where
  "signal_field E name as v = Option.bind (jv_get (se_json E) v name) as"

definition signal_summary :: "'v sensors \<Rightarrow> 'v \<Rightarrow> string" where
  "signal_summary E v =
    (case signal_field E ''error'' (jv_str (se_json E)) v of
       Some s \<Rightarrow> s
     | None \<Rightarrow>
         (case signal_field E ''reason'' (jv_str (se_json E)) v of
            Some s \<Rightarrow> s
          | None \<Rightarrow> ''stop-failure signal (no detail)''))"

definition check_signals :: "'v sensors \<Rightarrow> tick_io \<Rightarrow> monitor \<Rightarrow> monitor" where
  "check_signals E io m =
    (let now = ti_clock io 0; fs = ti_files io 0; base = mo_repo_dir m;
         stop = (case read_signal E fs base ''session-stop.json'' of
                   Some v \<Rightarrow> Some v | None \<Rightarrow> read_signal E fs base ''session-end.json'');
         m1 = (case stop of
                 Some v \<Rightarrow> if signal_field E ''is_complete'' (jv_bool (se_json E)) v = Some True
                           then detect_completion now m else m
               | None \<Rightarrow> m);
         m2 = (case read_signal E fs base ''stop-failure.json'' of
                 None \<Rightarrow> m1
               | Some v \<Rightarrow>
                   let m' = act ClearSignals m1 in
                   if mo_pending_kill m' \<noteq> None then m'
                   else
                     let cls = (case from_pane_output (ti_failure_pane io) True of
                                  Some c \<Rightarrow> c | None \<Rightarrow> ApiOverload)
                     in arm now (''stop-failure signal ['' @ class_name cls @ '']: '' @ signal_summary E v)
                          (KillError cls) m')
     in if is_permission_pending (ti_permission_age io) then m2\<lparr>mo_last_activity := now\<rparr> else m2)"

definition check_pipeline_timeout :: "tick_io \<Rightarrow> monitor \<Rightarrow> DaemonRunOutcome option" where
  "check_pipeline_timeout io m =
    (if max 0 (ti_clock io 1 - mo_run_started_at m) \<ge> int (wd_pipeline_timeout (mo_watchdog m)) * NANOS
     then Some (MonitorTimeout (''pipeline timeout exceeded ('' @ show_nat (wd_pipeline_timeout (mo_watchdog m)) @ ''s)''))
     else None)"

section \<open>Session and process\<close>

definition crash_clock_suffix :: "instant \<Rightarrow> monitor \<Rightarrow> string" where
  "crash_clock_suffix now m =
     ''monitor_age='' @ show_nat (age_secs now (mo_monitor_started_at m))
     @ ''s phase_age='' @ show_nat (case mo_phase_started_at m of Some t \<Rightarrow> age_secs now t | None \<Rightarrow> 0)
     @ ''s silence_pane='' @ show_nat (age_secs now (mo_last_activity m))
     @ ''s silence_checkpoint='' @ show_nat (age_secs now (mo_last_checkpoint_activity m)) @ ''s''"

definition crashed :: "string \<Rightarrow> monitor \<Rightarrow> DaemonRunOutcome option \<times> monitor" where
  "crashed reason m = (Some (MonitorCrashed reason), act (CrashDump reason) m)"

definition read_checkpoint_sync :: "'v sensors \<Rightarrow> tick_io \<Rightarrow> monitor \<Rightarrow> 'v checkpoint option \<times> monitor" where
  "read_checkpoint_sync E io m =
    (let (result, updated) =
           (if ti_sync_ok io
            then read_cached_checkpoint (se_parse_json E) (se_from_value E) (ti_files io 2) (mo_repo_dir m)
                   (mo_cached_checkpoint_path m)
            else (None, mo_cached_checkpoint_path m))
     in (result,
         if updated \<noteq> None \<and> mo_cached_checkpoint_path m = None
         then m\<lparr>mo_cached_checkpoint_path := updated\<rparr> else m))"

definition session_vanished :: "'v sensors \<Rightarrow> tick_io \<Rightarrow> monitor \<Rightarrow> DaemonRunOutcome option \<times> monitor" where
  "session_vanished E io m =
    (let now = ti_clock io 2; age = age_secs now (mo_monitor_started_at m) in
     if age < DAEMON_MIN_COMPLETION_AGE_SECS then
       crashed (''tmux session vanished at age '' @ show_nat age @ ''s (below min; ''
                @ crash_clock_suffix now m @ '')'') m
     else
       (case read_checkpoint_sync E io m of
          (Some c, m1) \<Rightarrow>
            if is_complete c \<and> is_near_completion c then (Some MonitorCompleted, m1)
            else
              let phase = (case inferred_phase_name c of
                             Some p \<Rightarrow> p
                           | None \<Rightarrow> (case current_phase c of Some p \<Rightarrow> p | None \<Rightarrow> ''unknown''))
              in crashed (''session ended during phase '' @ [CHR 0x27] @ phase @ [CHR 0x27] @ '' ('' @ crash_clock_suffix now m1 @ '')'') m1
        | (None, m1) \<Rightarrow>
            if mo_completion_detected_at m1 \<noteq> None then (Some MonitorCompleted, m1)
            else crashed (''tmux session vanished without completion evidence (''
                   @ crash_clock_suffix now m1 @ '')'') m1))"

definition UNREACHABLE_GRACE_TICKS :: nat where "UNREACHABLE_GRACE_TICKS = 3"

definition check_session_alive :: "'v sensors \<Rightarrow> tick_io \<Rightarrow> monitor \<Rightarrow> DaemonRunOutcome option \<times> monitor" where
  "check_session_alive E io m =
    (case ti_probe io of
       ProbePresent \<Rightarrow> (None, m\<lparr>mo_consecutive_unreachable := 0\<rparr>)
     | ProbeAbsent \<Rightarrow> session_vanished E io (m\<lparr>mo_consecutive_unreachable := 0\<rparr>)
     | ProbeUnreachable _ \<Rightarrow>
         let m1 = m\<lparr>mo_consecutive_unreachable := mo_consecutive_unreachable m + 1\<rparr> in
         if mo_consecutive_unreachable m1 \<ge> UNREACHABLE_GRACE_TICKS then session_vanished E io m1 else (None, m1))"

definition check_process_liveness :: "tick_io \<Rightarrow> monitor \<Rightarrow> DaemonRunOutcome option \<times> monitor" where
  "check_process_liveness io m =
    (case mo_claude_pid m of
       None \<Rightarrow> (None, m)
     | Some pid \<Rightarrow>
         let now = ti_clock io 11 in
         if ti_alive io 11 pid then (None, m\<lparr>mo_last_process_gone_at := None\<rparr>)
         else
           let first_gone = (case mo_last_process_gone_at m of Some t \<Rightarrow> t | None \<Rightarrow> now);
               m1 = m\<lparr>mo_last_process_gone_at := Some first_gone\<rparr>;
               gone_for = age_secs now first_gone
           in if gone_for \<ge> COMPLETION_GRACE_SECS
              then crashed (''claude pid '' @ show_nat pid @ '' gone for '' @ show_nat gone_for @ ''s (''
                     @ crash_clock_suffix now m1 @ '')'') m1
              else (None, m1))"


section \<open>The pane\<close>

definition update_activity_from_pane :: "'v sensors \<Rightarrow> instant \<Rightarrow> string \<Rightarrow> monitor \<Rightarrow> monitor" where
  "update_activity_from_pane E now pane m =
    (let h = se_hash_str E pane in
     if h \<noteq> mo_last_pane_hash m
     then m\<lparr>mo_last_pane_hash := h, mo_last_activity := now, mo_nudge_count := 0\<rparr> else m)"

definition pane_unchanged :: "instant \<Rightarrow> monitor \<Rightarrow> bool" where
  "pane_unchanged now m \<longleftrightarrow> age_secs now (mo_last_activity m) \<ge> wd_error_stall_threshold_secs (mo_watchdog m)"

definition check_prompt_accept :: "tick_io \<Rightarrow> string \<Rightarrow> monitor \<Rightarrow> bool \<times> monitor" where
  "check_prompt_accept io pane m =
    (case check_and_accept (ti_clock io 4) (ti_enter_sent io) pane (mo_prompt_acceptor m) of
       (answered, a) \<Rightarrow>
         (answered, (if answered then act PressEnter else id) (m\<lparr>mo_prompt_acceptor := a\<rparr>)))"

definition near_completion_at :: "'v sensors \<Rightarrow> file_system \<Rightarrow> path option \<Rightarrow> bool" where
  "near_completion_at E fs cached =
    (case cached of
       None \<Rightarrow> False
     | Some p \<Rightarrow>
         (case read_checkpoint (se_parse_json E) (se_from_value E) fs p of
            Inr c \<Rightarrow> is_near_completion c
          | Inl _ \<Rightarrow> False))"

definition check_pane_completion :: "'v sensors \<Rightarrow> tick_io \<Rightarrow> string \<Rightarrow> monitor \<Rightarrow> monitor" where
  "check_pane_completion E io pane m =
    (if \<not> is_pipeline_complete pane then m
     else if \<not> near_completion_at E (ti_files io 5) (mo_cached_checkpoint_path m) then m
     else detect_completion (ti_clock io 5) m)"

definition check_completion_grace :: "tick_io \<Rightarrow> monitor \<Rightarrow> DaemonRunOutcome option" where
  "check_completion_grace io m =
    (case mo_completion_detected_at m of
       None \<Rightarrow> None
     | Some t \<Rightarrow> if age_secs (ti_clock io 7) t \<ge> COMPLETION_GRACE_SECS then Some MonitorCompleted else None)"

section \<open>Error evidence\<close>

definition check_swarm_active :: "tick_io \<Rightarrow> nat \<Rightarrow> monitor \<Rightarrow> bool" where
  "check_swarm_active io k m =
    (case mo_claude_pid m of None \<Rightarrow> False | Some pid \<Rightarrow> ti_swarm io k pid \<noteq> None)"

definition refresh_swarm_activity :: "tick_io \<Rightarrow> monitor \<Rightarrow> monitor" where
  "refresh_swarm_activity io m =
    (if max 0 (ti_clock io 6 - mo_last_swarm_check m) < 15 * NANOS then m
     else m\<lparr>mo_last_swarm_check := ti_clock io 6, mo_cached_swarm_active := check_swarm_active io 6 m\<rparr>)"

definition evidence_of :: "tick_io \<Rightarrow> string \<Rightarrow> monitor \<Rightarrow> error_evidence" where
  "evidence_of io pane m =
    (let now = ti_clock io 6 in
     \<lparr>ev_keyword_match = (if pane_unchanged now m then from_pane_output pane True else None),
      ev_screen_stall_secs = age_secs now (mo_last_activity m),
      ev_checkpoint_stale_secs = Some (age_secs now (mo_last_checkpoint_activity m)),
      ev_process_alive = (case mo_claude_pid m of None \<Rightarrow> True | Some pid \<Rightarrow> ti_alive io 6 pid),
      ev_artifacts_active = (age_secs now (mo_last_artifact_activity m) < 60),
      ev_swarm_active = mo_cached_swarm_active m\<rparr>)"

text \<open>The confidence is fixed at 0.9, so the confirmation time is the one for high confidence.\<close>

definition confirm_secs :: "monitor \<Rightarrow> nat" where
  "confirm_secs m = max (wd_error_confirm_high_secs (mo_watchdog m)) KILL_GATE_MIN_SECS"

definition evaluate_error_evidence :: "tick_io \<Rightarrow> string \<Rightarrow> monitor \<Rightarrow> monitor" where
  "evaluate_error_evidence io pane m0 =
    (let m = refresh_swarm_activity io m0; now = ti_clock io 6 in
     case classify (evidence_of io pane m) of
       None \<Rightarrow> m\<lparr>mo_error_confirm_since := None\<rparr>
     | Some cls \<Rightarrow>
         (case mo_error_confirm_since m of
            None \<Rightarrow> m\<lparr>mo_error_confirm_since := Some (now, cls)\<rparr>
          | Some (start, prev_class) \<Rightarrow>
              if prev_class \<noteq> cls then m\<lparr>mo_error_confirm_since := Some (now, cls)\<rparr>
              else if age_secs now start \<ge> confirm_secs m \<and> mo_pending_kill m = None then
                arm now (''error evidence confirmed for '' @ show_nat (confirm_secs m) @ ''s (class ''
                         @ class_name cls @ '')'') (KillError cls) m
              else m))"

section \<open>The checkpoint\<close>

definition enter_phase :: "'v sensors \<Rightarrow> instant \<Rightarrow> 'v checkpoint \<Rightarrow> string option \<Rightarrow> monitor \<Rightarrow> monitor" where
  "enter_phase E now c new_phase m =
    (if new_phase = mo_current_phase m then m
     else
       let m1 = (case new_phase of
                   None \<Rightarrow> m
                 | Some p \<Rightarrow>
                     let profile = (case profile_for_phase p of Some x \<Rightarrow> x | None \<Rightarrow> default_profile) in
                     m\<lparr>mo_current_profile := profile,
                       mo_effective_phase_timeout := resolve_phase_timeout_full (se_json E) p c profile,
                       mo_phase_started_at := Some now\<rparr>)
       in m1\<lparr>mo_nudge_count := 0, mo_current_phase := new_phase\<rparr>)"

definition track_gaps :: "'v sensors \<Rightarrow> instant \<Rightarrow> utc \<Rightarrow> phase_position \<Rightarrow> monitor \<Rightarrow> monitor" where
  "track_gaps E now now_utc pos m =
    (let backdate = (case transition_gap_secs (se_parse_time E) now_utc pos of
                       Some s \<Rightarrow> back_from (se_floor E) now (int s * NANOS) | None \<Rightarrow> now)
     in if has_failure pos then
          (if mo_in_failed_since m = None then m\<lparr>mo_in_failed_since := Some backdate, mo_failed_nudge_count := 0\<rparr> else m)
            \<lparr>mo_in_transition_since := None, mo_transition_nudge_count := 0\<rparr>
        else if is_transitioning pos then
          (if mo_in_transition_since m = None
           then m\<lparr>mo_in_transition_since := Some backdate, mo_transition_nudge_count := 0\<rparr> else m)
            \<lparr>mo_in_failed_since := None, mo_failed_nudge_count := 0\<rparr>
        else m\<lparr>mo_in_transition_since := None, mo_transition_nudge_count := 0,
               mo_in_failed_since := None, mo_failed_nudge_count := 0\<rparr>)"

definition poll_checkpoint :: "'v sensors \<Rightarrow> tick_io \<Rightarrow> monitor \<Rightarrow> monitor" where
  "poll_checkpoint E io m =
    (case read_cached_checkpoint (se_parse_json E) (se_from_value E) (ti_files io 8) (mo_repo_dir m)
            (mo_cached_checkpoint_path m) of
       (None, _) \<Rightarrow> m
     | (Some c, cache) \<Rightarrow>
         let now = ti_clock io 8;
             nav = compute_phase_navigation (se_parse_time E) (ti_utc io) c;
             m1 = m\<lparr>mo_cached_checkpoint_path := cache, mo_last_checkpoint_activity := now\<rparr>;
             m2 = enter_phase E now c (effective_phase (pn_position nav)) m1
         in track_gaps E now (ti_utc io) (pn_position nav) m2)"

section \<open>The loop state\<close>

text \<open>The cached path moves with every reading.\<close>

definition read_checkpoint_now :: "'v sensors \<Rightarrow> file_system \<Rightarrow> monitor \<Rightarrow> 'v checkpoint option \<times> monitor" where
  "read_checkpoint_now E fs m =
    (case read_cached_checkpoint (se_parse_json E) (se_from_value E) fs (mo_repo_dir m) (mo_cached_checkpoint_path m) of
       (c, cache) \<Rightarrow> (c, m\<lparr>mo_cached_checkpoint_path := cache\<rparr>))"

definition loop_state_seen :: "instant \<Rightarrow> arc_loop_state \<Rightarrow> monitor \<Rightarrow> monitor" where
  "loop_state_seen now s m =
    (let changed = (case mo_prev_loop_state m of
           None \<Rightarrow> True
         | Some prev \<Rightarrow> ls_iteration prev \<noteq> ls_iteration s \<or> ls_session_id prev \<noteq> ls_session_id s
             \<or> ls_checkpoint_path prev \<noteq> ls_checkpoint_path s);
         m1 = m\<lparr>mo_loop_state_ever_seen := True, mo_loop_state_gone_since := None\<rparr>;
         m2 = (if changed then m1\<lparr>mo_last_loop_state_change := now, mo_last_activity := now\<rparr> else m1)
     in m2\<lparr>mo_prev_loop_state := Some s\<rparr>)"

definition warming_up :: "instant \<Rightarrow> bool \<Rightarrow> monitor \<Rightarrow> DaemonRunOutcome option" where
  "warming_up now stale_file m =
    (let age = age_secs now (mo_monitor_started_at m);
         warmup = wd_loop_state_warmup_secs (mo_watchdog m);
         screen_idle = age_secs now (mo_last_activity m);
         stale_hard_limit = min (2 ^ 64 - 1) (warmup * 2)
     in if stale_file \<and> age > stale_hard_limit \<and> screen_idle \<ge> wd_idle_kill_secs (mo_watchdog m) then
          Some (MonitorErrorDetected BootstrapError
            (''arc-phase-loop.local.md stuck at active=false after '' @ show_nat age @ ''s (hard limit ''
             @ show_nat stale_hard_limit @ ''s, screen idle '' @ show_nat screen_idle @ ''s)''))
        else if age \<ge> warmup \<and> screen_idle \<ge> wd_idle_kill_secs (mo_watchdog m) then
          Some (MonitorFailed ''bootstrap error: no loop state after warmup'')
        else None)"

definition poll_loop_state :: "'v sensors \<Rightarrow> tick_io \<Rightarrow> monitor \<Rightarrow> DaemonRunOutcome option \<times> monitor" where
  "poll_loop_state E io m =
    (let now = ti_clock io 9; fs = ti_files io 9; found = read_arc_loop_state (fs (loop_file (mo_repo_dir m))) in
     case active_state found of
       Some s \<Rightarrow> (None, loop_state_seen now s m)
     | None \<Rightarrow>
         if \<not> mo_loop_state_ever_seen m then (warming_up now (loop_file_exists found) m, m)
         else
           let gone_since = (case mo_loop_state_gone_since m of Some t \<Rightarrow> t | None \<Rightarrow> now);
               m1 = m\<lparr>mo_loop_state_gone_since := Some gone_since\<rparr>
           in if loop_file_exists found then
                (if age_secs now gone_since \<ge> COMPLETION_GRACE_SECS then
                   (case read_checkpoint_now E fs m1 of
                      (Some c, m2) \<Rightarrow>
                        if is_near_completion c then (Some MonitorCompleted, m2)
                        else (None, m2\<lparr>mo_loop_state_gone_since := None\<rparr>)
                    | (None, m2) \<Rightarrow> (None, m2\<lparr>mo_loop_state_gone_since := None\<rparr>))
                 else (None, m1))
              else if age_secs now gone_since \<ge> LOOP_STATE_GONE_GRACE_SECS then
                (case read_checkpoint_now E fs m1 of
                   (c, m2) \<Rightarrow>
                     if (case c of Some x \<Rightarrow> is_near_completion x | None \<Rightarrow> False) then (Some MonitorCompleted, m2)
                     else crashed (''arc-phase-loop state file deleted ('' @ crash_clock_suffix now m2 @ '')'') m2)
              else (None, m1))"

section \<open>Artifacts\<close>

definition has_parent :: "path \<Rightarrow> bool" where
  "has_parent p \<longleftrightarrow> path_components p \<noteq> [] \<and> path_components p \<noteq> [''/'']"

definition scan_artifacts :: "tick_io \<Rightarrow> monitor \<Rightarrow> monitor" where
  "scan_artifacts io m =
    (let now = ti_clock io 10 in
     if age_secs now (mo_last_artifact_scan m) < wd_artifact_scan_interval_secs (mo_watchdog m) then m
     else
       let m1 = m\<lparr>mo_last_artifact_scan := now\<rparr> in
       (case mo_cached_checkpoint_path m of
          None \<Rightarrow> m1
        | Some p \<Rightarrow>
            if \<not> has_parent p then m1
            else (case scan_artifact_dir (ti_artifacts io p) of
                    None \<Rightarrow> m1
                  | Some a \<Rightarrow>
                      (if mo_last_artifact_snapshot m1 \<noteq> Some a then m1\<lparr>mo_last_artifact_activity := now\<rparr> else m1)
                        \<lparr>mo_last_artifact_snapshot := Some a\<rparr>)))"

section \<open>Timeouts and escalation\<close>

definition check_phase_timeout :: "tick_io \<Rightarrow> monitor \<Rightarrow> monitor" where
  "check_phase_timeout io m =
    (case mo_phase_started_at m of
       None \<Rightarrow> m
     | Some t \<Rightarrow>
         let now = ti_clock io 12; elapsed = age_secs now t;
             budget = (if mo_effective_phase_timeout m > 0 then mo_effective_phase_timeout m
                       else pp_phase_timeout_secs (mo_current_profile m))
         in if elapsed \<ge> budget \<and> mo_pending_kill m = None then
              arm now (''phase '' @ (case mo_current_phase m of Some p \<Rightarrow> p | None \<Rightarrow> ''<unknown>'') @ '' exceeded ''
                       @ show_nat budget @ ''s budget (elapsed '' @ show_nat elapsed @ ''s)'') KillTimeout m
            else m)"

definition check_transition_gap :: "tick_io \<Rightarrow> monitor \<Rightarrow> monitor" where
  "check_transition_gap io m =
    (case mo_in_transition_since m of
       None \<Rightarrow> m
     | Some t \<Rightarrow>
         let now = ti_clock io 13; gap = age_secs now t in
         if gap > TRANSITION_KILL_SECS \<and> mo_pending_kill m = None then
           arm now (''transition gap '' @ show_nat gap @ ''s > '' @ show_nat TRANSITION_KILL_SECS @ ''s threshold'')
             KillStuck m
         else if gap > TRANSITION_WARN_SECS \<and> mo_transition_nudge_count m < 2 then
           act (Nudge ''are you stuck between phases? please continue to the next phase'')
             (m\<lparr>mo_transition_nudge_count := 2\<rparr>)
         else if gap > TRANSITION_NUDGE_SECS \<and> mo_transition_nudge_count m < 1 then
           act (Nudge ''please continue working'') (m\<lparr>mo_transition_nudge_count := 1\<rparr>)
         else m)"

definition check_failed_phase :: "tick_io \<Rightarrow> monitor \<Rightarrow> monitor" where
  "check_failed_phase io m =
    (case mo_in_failed_since m of
       None \<Rightarrow> m
     | Some t \<Rightarrow>
         let now = ti_clock io 14; gap = age_secs now t in
         if gap > FAILED_KILL_SECS \<and> mo_pending_kill m = None then
           arm now (''failed phase unresolved for '' @ show_nat gap @ ''s > '' @ show_nat FAILED_KILL_SECS
                    @ ''s threshold'') KillStuck m
         else if gap > FAILED_WARN_SECS \<and> mo_failed_nudge_count m < 2 then
           act (Nudge (''a phase has failed '' @ em_dash @ '' please check and continue or retry''))
             (m\<lparr>mo_failed_nudge_count := 2\<rparr>)
         else if gap > FAILED_NUDGE_SECS \<and> mo_failed_nudge_count m < 1 then
           act (Nudge ''please continue working'') (m\<lparr>mo_failed_nudge_count := 1\<rparr>)
         else m)"

definition check_idle :: "tick_io \<Rightarrow> monitor \<Rightarrow> monitor" where
  "check_idle io m =
    (let now = ti_clock io 15; idle = age_secs now (mo_last_activity m);
         kill_threshold = pp_idle_kill_secs (mo_current_profile m);
         nudge_threshold = pp_idle_nudge_secs (mo_current_profile m)
     in if idle > kill_threshold \<and> mo_pending_kill m = None then
          arm now (''idle for '' @ show_nat idle @ ''s (threshold '' @ show_nat kill_threshold @ ''s)'') KillStuck m
        else if idle > nudge_threshold * (mo_nudge_count m + 1) \<and> mo_nudge_count m < 3 then
          act (Nudge (if mo_nudge_count m = 0 then ''please continue''
                      else if mo_nudge_count m = 1 then ''are you stuck? please continue working''
                      else ''/compact''))
            (m\<lparr>mo_nudge_count := mo_nudge_count m + 1\<rparr>)
        else m)"

section \<open>The kill gate\<close>

fun kill_outcome :: "string \<Rightarrow> KillOutcomeKind \<Rightarrow> DaemonRunOutcome" where
  "kill_outcome reason KillStuck = MonitorStuck reason"
| "kill_outcome reason KillTimeout = MonitorTimeout reason"
| "kill_outcome reason (KillError cls) = MonitorErrorDetected cls reason"

definition has_recovery :: "tick_io \<Rightarrow> monitor \<Rightarrow> bool" where
  "has_recovery io m \<longleftrightarrow>
    (let now = ti_clock io 16 in
     age_secs now (mo_last_activity m) < KILL_GATE_RECOVERY_WINDOW_SECS
     \<or> age_secs now (mo_last_checkpoint_activity m) < KILL_GATE_RECOVERY_WINDOW_SECS
     \<or> age_secs now (mo_last_artifact_activity m) < KILL_GATE_RECOVERY_WINDOW_SECS
     \<or> age_secs now (mo_last_loop_state_change m) < KILL_GATE_RECOVERY_WINDOW_SECS
     \<or> check_swarm_active io 16 m \<or> \<not> ti_online io)"

definition evaluate_kill_gate :: "tick_io \<Rightarrow> monitor \<Rightarrow> DaemonRunOutcome option \<times> monitor" where
  "evaluate_kill_gate io m =
    (case mo_pending_kill m of
       None \<Rightarrow> (None, m)
     | Some pk \<Rightarrow>
         let gate_elapsed = age_secs (ti_clock io 16) (pk_started_at pk) in
         if has_recovery io m \<and> gate_elapsed > 10 then (None, m\<lparr>mo_pending_kill := None\<rparr>)
         else if gate_elapsed \<ge> KILL_GATE_MIN_SECS then
           (Some (kill_outcome (pk_reason pk) (pk_outcome pk)),
            (act KillSession (act (CrashDump (pk_reason pk)) m))\<lparr>mo_pending_kill := None\<rparr>)
         else if \<not> pk_nudge_sent pk \<and> gate_elapsed \<ge> KILL_GATE_MIN_SECS div 2 then
           (None, (act (Nudge ''please continue'') m)\<lparr>mo_pending_kill := Some (pk\<lparr>pk_nudge_sent := True\<rparr>)\<rparr>)
         else (None, m))"

definition log_status :: "tick_io \<Rightarrow> monitor \<Rightarrow> monitor" where
  "log_status io m =
    (if age_secs (ti_clock io 17) (mo_last_status_log m) < STATUS_LOG_INTERVAL_SECS then m
     else m\<lparr>mo_last_status_log := ti_clock io 17\<rparr>)"

section \<open>A poll and a run\<close>

text \<open>The steps on the pane; \<open>True\<close> tells that a prompt was answered, which ends the poll.\<close>

definition look_at_pane :: "'v sensors \<Rightarrow> tick_io \<Rightarrow> monitor \<Rightarrow> bool \<times> monitor" where
  "look_at_pane E io m =
    (case ti_pane io of
       None \<Rightarrow> (False, m)
     | Some pane \<Rightarrow>
         (case check_prompt_accept io pane (update_activity_from_pane E (ti_clock io 3) pane m) of
            (True, m1) \<Rightarrow> (True, m1)
          | (False, m1) \<Rightarrow> (False, evaluate_error_evidence io pane (check_pane_completion E io pane m1))))"

definition escalate :: "tick_io \<Rightarrow> monitor \<Rightarrow> monitor" where
  "escalate io m =
    (let m1 = check_failed_phase io (check_transition_gap io (check_phase_timeout io m)) in
     if mo_in_transition_since m1 = None \<and> mo_in_failed_since m1 = None then check_idle io m1 else m1)"

definition rest_of_tick :: "'v sensors \<Rightarrow> tick_io \<Rightarrow> monitor \<Rightarrow> DaemonRunOutcome option \<times> monitor" where
  "rest_of_tick E io m =
    (case check_completion_grace io m of
       Some out \<Rightarrow> (Some out, m)
     | None \<Rightarrow>
         (case poll_loop_state E io (poll_checkpoint E io m) of
            (Some out, m1) \<Rightarrow> (Some out, m1)
          | (None, m1) \<Rightarrow>
              (case check_process_liveness io (scan_artifacts io m1) of
                 (Some out, m2) \<Rightarrow> (Some out, m2)
               | (None, m2) \<Rightarrow>
                   (case evaluate_kill_gate io (escalate io m2) of
                      (Some out, m3) \<Rightarrow> (Some out, m3)
                    | (None, m3) \<Rightarrow> (None, log_status io m3)))))"

definition tick :: "'v sensors \<Rightarrow> tick_io \<Rightarrow> monitor \<Rightarrow> DaemonRunOutcome option \<times> monitor" where
  "tick E io m =
    (let m1 = check_signals E io (m\<lparr>mo_poll_count := mo_poll_count m + 1\<rparr>) in
     case check_pipeline_timeout io m1 of
       Some out \<Rightarrow> (Some out, m1)
     | None \<Rightarrow>
         (case check_session_alive E io m1 of
            (Some out, m2) \<Rightarrow> (Some out, m2)
          | (None, m2) \<Rightarrow>
              (case look_at_pane E io m2 of
                 (True, m3) \<Rightarrow> (None, m3)
               | (False, m3) \<Rightarrow> rest_of_tick E io m3)))"

datatype monitor_event = Cancel | Poll tick_io

fun run_monitor :: "'v sensors \<Rightarrow> monitor_event list \<Rightarrow> monitor \<Rightarrow> DaemonRunOutcome option \<times> monitor" where
  "run_monitor E [] m = (None, m)"
| "run_monitor E (Cancel # es) m = (Some MonitorCancelled, m)"
| "run_monitor E (Poll io # es) m =
    (case tick E io m of
       (Some out, m') \<Rightarrow> (Some out, m')
     | (None, m') \<Rightarrow> run_monitor E es m')"

text \<open>The loop polls until something decides.\<close>

fun monitor_step :: "'v sensors \<Rightarrow> monitor_event \<Rightarrow> monitor \<Rightarrow> DaemonRunOutcome option \<times> monitor" where
  "monitor_step E Cancel m = (Some MonitorCancelled, m)"
| "monitor_step E (Poll io) m = tick E io m"

interpretation rm: poll_loop "monitor_step E" "run_monitor E"
proof
  show "run_monitor E (e # es) m =
      (case monitor_step E e m of (Some out, s') \<Rightarrow> (Some out, s') | (None, m') \<Rightarrow> run_monitor E es m')" for e es m
    by (cases e) simp_all
qed simp

end
