(* ===== verification/Monitor_Laws.thy ===== *)
theory Monitor_Laws
  imports Run_Monitor
begin

text \<open>
  What the monitor of a run guarantees: which fields each step leaves alone, the well-formedness of
  its state, when it kills a session, when it reports completion, and when a recovered run is timed
  out again.
\<close>

section \<open>What the steps leave alone\<close>

definition killed :: "monitor \<Rightarrow> bool" where
  "killed m \<longleftrightarrow> KillSession \<in> set (mo_actions m)"

lemma killed_act [simp]: "killed (act a m) \<longleftrightarrow> a = KillSession \<or> killed m"
  by (auto simp: killed_def act_def)

lemma killed_arm [simp]: "killed (arm now reason kind m) = killed m"
  by (simp add: killed_def arm_def)

lemma act_sel [simp]:
  "mo_pending_kill (act a m) = mo_pending_kill m" "mo_completion_detected_at (act a m) = mo_completion_detected_at m"
  "mo_cached_checkpoint_path (act a m) = mo_cached_checkpoint_path m"
  "mo_last_checkpoint_activity (act a m) = mo_last_checkpoint_activity m"
  "mo_run_started_at (act a m) = mo_run_started_at m" "mo_watchdog (act a m) = mo_watchdog m"
  "mo_repo_dir (act a m) = mo_repo_dir m"
  by (simp_all add: act_def)

lemma arm_sel [simp]:
  "mo_pending_kill (arm now reason kind m)
     = Some \<lparr>pk_reason = reason, pk_outcome = kind, pk_started_at = now, pk_nudge_sent = False\<rparr>"
  "mo_completion_detected_at (arm now reason kind m) = mo_completion_detected_at m"
  "mo_cached_checkpoint_path (arm now reason kind m) = mo_cached_checkpoint_path m"
  "mo_last_checkpoint_activity (arm now reason kind m) = mo_last_checkpoint_activity m"
  "mo_run_started_at (arm now reason kind m) = mo_run_started_at m"
  "mo_watchdog (arm now reason kind m) = mo_watchdog m" "mo_repo_dir (arm now reason kind m) = mo_repo_dir m"
  by (simp_all add: arm_def)

lemma detect_completion_sel [simp]:
  "mo_pending_kill (detect_completion now m) = mo_pending_kill m" "killed (detect_completion now m) = killed m"
  "mo_cached_checkpoint_path (detect_completion now m) = mo_cached_checkpoint_path m"
  "mo_last_checkpoint_activity (detect_completion now m) = mo_last_checkpoint_activity m"
  "mo_run_started_at (detect_completion now m) = mo_run_started_at m"
  "mo_watchdog (detect_completion now m) = mo_watchdog m" "mo_repo_dir (detect_completion now m) = mo_repo_dir m"
  "mo_completion_detected_at (detect_completion now m) =
     (case mo_completion_detected_at m of None \<Rightarrow> Some now | Some t \<Rightarrow> Some t)"
  by (simp_all add: detect_completion_def killed_def split: option.split)

text \<open>An earlier detection of completion is kept, an earlier kill request too, or a new one is dated now.\<close>

definition keeps_detected :: "monitor \<Rightarrow> monitor \<Rightarrow> bool" where
  "keeps_detected m m' \<longleftrightarrow> (\<forall>t. mo_completion_detected_at m = Some t \<longrightarrow> mo_completion_detected_at m' = Some t)"

definition request_from :: "instant set \<Rightarrow> monitor \<Rightarrow> monitor \<Rightarrow> bool" where
  "request_from ts m m' \<longleftrightarrow> (case mo_pending_kill m' of
       None \<Rightarrow> mo_pending_kill m = None
     | Some pk \<Rightarrow> mo_pending_kill m = Some pk \<or> mo_pending_kill m = None \<and> pk_started_at pk \<in> ts)"

lemma request_from_refl [simp]: "request_from ts m m"
  by (simp add: request_from_def split: option.split)

lemma request_from_trans: "request_from ts m m' \<Longrightarrow> request_from ts m' m'' \<Longrightarrow> request_from ts m m''"
  by (auto simp: request_from_def split: option.splits)

lemma request_from_arm: "mo_pending_kill m = None \<Longrightarrow> now \<in> ts \<Longrightarrow> request_from ts m (arm now reason kind m)"
  by (simp add: request_from_def)

lemma request_from_same: "mo_pending_kill m' = mo_pending_kill m \<Longrightarrow> request_from ts m m'"
  by (simp add: request_from_def split: option.split)

text \<open>What all steps before the gate have in common; the cached path may only be found.\<close>

definition quiet :: "instant set \<Rightarrow> monitor \<Rightarrow> monitor \<Rightarrow> bool" where
  "quiet ts m m' \<longleftrightarrow> killed m' = killed m \<and> keeps_detected m m' \<and> request_from ts m m'
     \<and> mo_run_started_at m' = mo_run_started_at m \<and> mo_watchdog m' = mo_watchdog m \<and> mo_repo_dir m' = mo_repo_dir m"

lemma quiet_refl [simp]: "quiet ts m m"
  by (simp add: quiet_def keeps_detected_def)

lemma quiet_trans [trans]: "quiet ts m m' \<Longrightarrow> quiet ts m' m'' \<Longrightarrow> quiet ts m m''"
  by (auto simp: quiet_def keeps_detected_def intro: request_from_trans)

named_theorems quiet_intros "steps of the monitor that only observe, nudge or arm"

lemma quiet_same:
  "mo_actions m' = mo_actions m \<Longrightarrow> mo_completion_detected_at m' = mo_completion_detected_at m \<Longrightarrow>
    mo_pending_kill m' = mo_pending_kill m \<Longrightarrow> mo_run_started_at m' = mo_run_started_at m \<Longrightarrow>
    mo_watchdog m' = mo_watchdog m \<Longrightarrow> mo_repo_dir m' = mo_repo_dir m \<Longrightarrow> quiet ts m m'"
  by (simp add: quiet_def keeps_detected_def killed_def request_from_same)

lemma quiet_act: "quiet ts m m' \<Longrightarrow> a \<noteq> KillSession \<Longrightarrow> quiet ts m (act a m')"
  by (auto simp: quiet_def keeps_detected_def request_from_def)

lemma quiet_arm: "quiet ts m m' \<Longrightarrow> mo_pending_kill m' = None \<Longrightarrow> now \<in> ts \<Longrightarrow> quiet ts m (arm now reason kind m')"
  by (auto simp: quiet_def keeps_detected_def request_from_def split: option.splits)

lemma quiet_detect: "quiet ts m m' \<Longrightarrow> quiet ts m (detect_completion now m')"
  by (auto simp: quiet_def keeps_detected_def request_from_def)

definition tick_times :: "tick_io \<Rightarrow> instant set" where
  "tick_times io = ti_clock io ` {..17}"

lemma tick_time [simp, intro]: "k \<le> 17 \<Longrightarrow> ti_clock io k \<in> tick_times io"
  by (simp add: tick_times_def)

lemma quiet_signals [quiet_intros]: "quiet (tick_times io) m (check_signals E io m)"
proof -
  let ?ts = "tick_times io"
  have last: "quiet ?ts m (m'\<lparr>mo_last_activity := now\<rparr>)" if "quiet ?ts m m'" for m' now
    using that by (rule quiet_trans) (simp add: quiet_same)
  have t: "ti_clock io 0 \<in> ?ts" by simp
  show ?thesis
    unfolding check_signals_def Let_def
    by (auto split: option.split intro!: last quiet_act quiet_detect quiet_arm t)
qed

lemma quiet_sync:
  "read_checkpoint_sync E io m = (c, m') \<Longrightarrow> quiet ts m m'"
  by (auto simp: read_checkpoint_sync_def Let_def split: prod.splits if_splits intro!: quiet_same)

lemma quiet_vanished: "quiet ts m (snd (session_vanished E io m))"
proof -
  have "quiet ts m (snd (crashed r m'))" if "quiet ts m m'" for r m'
    using that by (simp add: crashed_def quiet_act)
  then show ?thesis
    by (auto simp: session_vanished_def Let_def split: prod.split option.split dest: quiet_sync)
qed

lemma quiet_alive [quiet_intros]: "quiet ts m (snd (check_session_alive E io m))"
proof -
  have "quiet ts m (snd (session_vanished E io (m\<lparr>mo_consecutive_unreachable := n\<rparr>)))" for n
    by (rule quiet_trans [OF _ quiet_vanished]) (simp add: quiet_same)
  then show ?thesis by (auto simp: check_session_alive_def Let_def quiet_same split: SessionProbe.split)
qed

lemma quiet_liveness [quiet_intros]: "quiet ts m (snd (check_process_liveness io m))"
  by (auto simp: check_process_liveness_def crashed_def Let_def quiet_same split: option.split intro!: quiet_act)

lemma quiet_activity [quiet_intros]: "quiet ts m (update_activity_from_pane E now pane m)"
  by (simp add: update_activity_from_pane_def Let_def quiet_same)

lemma quiet_prompt [quiet_intros]: "quiet ts m (snd (check_prompt_accept io pane m))"
  by (auto simp: check_prompt_accept_def split: prod.split intro!: quiet_act quiet_same)

lemma quiet_pane_completion [quiet_intros]: "quiet ts m (check_pane_completion E io pane m)"
  by (simp add: check_pane_completion_def quiet_detect)

lemma quiet_evidence [quiet_intros]: "quiet (tick_times io) m (evaluate_error_evidence io pane m)"
proof -
  let ?ts = "tick_times io"
  have r: "quiet ?ts m (refresh_swarm_activity io m)"
    by (simp add: refresh_swarm_activity_def quiet_same)
  have u: "quiet ?ts m (m'\<lparr>mo_error_confirm_since := x\<rparr>)" if "quiet ?ts m m'" for m' x
    using that by (rule quiet_trans) (simp add: quiet_same)
  have t: "ti_clock io 6 \<in> ?ts" by simp
  show ?thesis
    unfolding evaluate_error_evidence_def Let_def
    by (auto split: option.split intro!: r u quiet_arm t)
qed

lemma quiet_poll_checkpoint [quiet_intros]: "quiet ts m (poll_checkpoint E io m)"
  by (auto simp: poll_checkpoint_def enter_phase_def track_gaps_def Let_def quiet_same split: option.split prod.split)

lemma quiet_read_now: "read_checkpoint_now E fs m = (c, m') \<Longrightarrow> quiet ts m m'"
  by (auto simp: read_checkpoint_now_def split: prod.splits intro!: quiet_same)

lemma quiet_loop [quiet_intros]: "quiet ts m (snd (poll_loop_state E io m))"
proof -
  let ?m = "\<lambda>t. m\<lparr>mo_loop_state_gone_since := Some t\<rparr>"
  have g: "quiet ts m (?m t)" for t by (simp add: quiet_same)
  have r: "quiet ts m m'" if "read_checkpoint_now E fs (?m t) = (c, m')" for fs t c m'
    using quiet_trans [OF g quiet_read_now [OF that]] .
  have n: "quiet ts m (m'\<lparr>mo_loop_state_gone_since := x\<rparr>)" if "quiet ts m m'" for m' x
    using that by (rule quiet_trans) (simp add: quiet_same)
  have s: "quiet ts m (loop_state_seen now s m)" for now s
    by (simp add: loop_state_seen_def Let_def quiet_same)
  show ?thesis
    unfolding poll_loop_state_def Let_def
    by (auto simp: crashed_def split: option.split prod.split intro!: g s n quiet_act dest!: r)
qed

lemma quiet_artifacts [quiet_intros]: "quiet ts m (scan_artifacts io m)"
  by (auto simp: scan_artifacts_def Let_def quiet_same split: option.split)

lemma quiet_phase_timeout [quiet_intros]: "quiet (tick_times io) m (check_phase_timeout io m)"
  by (auto simp: check_phase_timeout_def Let_def split: option.split intro!: quiet_arm tick_time)

lemma quiet_transition [quiet_intros]: "quiet (tick_times io) m (check_transition_gap io m)"
  by (auto simp: check_transition_gap_def Let_def split: option.split intro!: quiet_arm quiet_act tick_time quiet_same)

lemma quiet_failed [quiet_intros]: "quiet (tick_times io) m (check_failed_phase io m)"
  by (auto simp: check_failed_phase_def Let_def split: option.split intro!: quiet_arm quiet_act tick_time quiet_same)

lemma quiet_idle [quiet_intros]: "quiet (tick_times io) m (check_idle io m)"
  by (auto simp: check_idle_def Let_def intro!: quiet_arm quiet_act tick_time quiet_same)

lemma quiet_escalate [quiet_intros]: "quiet (tick_times io) m (escalate io m)"
proof -
  let ?m = "check_failed_phase io (check_transition_gap io (check_phase_timeout io m))"
  have "quiet (tick_times io) m ?m" by (intro quiet_trans [OF quiet_trans [OF quiet_phase_timeout quiet_transition] quiet_failed])
  then show ?thesis unfolding escalate_def Let_def by (auto intro: quiet_trans quiet_idle)
qed

lemma quiet_pane [quiet_intros]: "quiet (tick_times io) m (snd (look_at_pane E io m))"
proof (cases "ti_pane io")
  case (Some pane)
  let ?m = "update_activity_from_pane E (ti_clock io 3) pane m"
  obtain b m1 where p: "check_prompt_accept io pane ?m = (b, m1)" by fastforce
  have m1: "quiet (tick_times io) m m1"
    using quiet_trans [OF quiet_activity quiet_prompt [of _ ?m io pane]] p by (metis snd_conv)
  then have "quiet (tick_times io) m (evaluate_error_evidence io pane (check_pane_completion E io pane m1))"
    by (meson quiet_trans quiet_pane_completion quiet_evidence)
  with m1 p Some show ?thesis by (simp add: look_at_pane_def split: bool.split)
qed (simp add: look_at_pane_def)

text \<open>The steps a poll takes before the kill gate, if it gets there.\<close>

definition before_gate :: "'v sensors \<Rightarrow> tick_io \<Rightarrow> monitor \<Rightarrow> monitor option" where
  "before_gate E io m =
    (let m1 = check_signals E io (m\<lparr>mo_poll_count := mo_poll_count m + 1\<rparr>) in
     if check_pipeline_timeout io m1 \<noteq> None then None
     else case check_session_alive E io m1 of
       (Some _, _) \<Rightarrow> None
     | (None, m2) \<Rightarrow>
         (case look_at_pane E io m2 of
            (True, _) \<Rightarrow> None
          | (False, m3) \<Rightarrow>
              if check_completion_grace io m3 \<noteq> None then None
              else case poll_loop_state E io (poll_checkpoint E io m3) of
                (Some _, _) \<Rightarrow> None
              | (None, m4) \<Rightarrow>
                  (case check_process_liveness io (scan_artifacts io m4) of
                     (Some _, _) \<Rightarrow> None
                   | (None, m5) \<Rightarrow> Some (escalate io m5))))"


lemma session_vanished_decides: "session_vanished E io m \<noteq> (None, m')"
  by (auto simp: session_vanished_def crashed_def Let_def split: prod.split option.split)

lemma alive_goes_on:
  "check_session_alive E io m = (None, m') \<Longrightarrow> mo_cached_checkpoint_path m' = mo_cached_checkpoint_path m"
  by (auto simp: check_session_alive_def session_vanished_decides Let_def split: SessionProbe.splits if_splits)

lemma signals_cached [simp]: "mo_cached_checkpoint_path (check_signals E io m) = mo_cached_checkpoint_path m"
  by (auto simp: check_signals_def Let_def split: option.split)

lemma pane_cached: "mo_cached_checkpoint_path (snd (look_at_pane E io m)) = mo_cached_checkpoint_path m"
proof -
  have "mo_cached_checkpoint_path (refresh_swarm_activity io m') = mo_cached_checkpoint_path m'" for m'
    by (simp add: refresh_swarm_activity_def)
  then have e: "mo_cached_checkpoint_path (evaluate_error_evidence io pane m') = mo_cached_checkpoint_path m'" for pane m'
    unfolding evaluate_error_evidence_def Let_def by (auto split: option.split)
  show ?thesis
    by (auto simp: look_at_pane_def check_prompt_accept_def update_activity_from_pane_def check_pane_completion_def
        e Let_def split: option.split prod.split bool.split)
qed

lemma activity_after_poll:
  "mo_last_checkpoint_activity (snd (poll_loop_state E io m)) = mo_last_checkpoint_activity m"
  "mo_last_checkpoint_activity (scan_artifacts io m) = mo_last_checkpoint_activity m"
  "mo_last_checkpoint_activity (snd (check_process_liveness io m)) = mo_last_checkpoint_activity m"
  "mo_last_checkpoint_activity (escalate io m) = mo_last_checkpoint_activity m"
proof -
  have r: "mo_last_checkpoint_activity m' = mo_last_checkpoint_activity m0"
    if "read_checkpoint_now E fs m0 = (c, m')" for fs c m' m0
    using that by (auto simp: read_checkpoint_now_def split: prod.splits)
  show "mo_last_checkpoint_activity (snd (poll_loop_state E io m)) = mo_last_checkpoint_activity m"
    unfolding poll_loop_state_def Let_def
    by (auto simp: crashed_def loop_state_seen_def Let_def split: option.split prod.split dest: r)
  have p: "mo_last_checkpoint_activity (check_phase_timeout io m') = mo_last_checkpoint_activity m'"
    "mo_last_checkpoint_activity (check_transition_gap io m') = mo_last_checkpoint_activity m'"
    "mo_last_checkpoint_activity (check_failed_phase io m') = mo_last_checkpoint_activity m'"
    "mo_last_checkpoint_activity (check_idle io m') = mo_last_checkpoint_activity m'" for m'
    by (simp_all add: check_phase_timeout_def check_transition_gap_def check_failed_phase_def check_idle_def Let_def
        split: option.split)
  then show "mo_last_checkpoint_activity (escalate io m) = mo_last_checkpoint_activity m"
    by (simp add: escalate_def Let_def)
qed (simp_all add: scan_artifacts_def check_process_liveness_def crashed_def Let_def split: option.split)

lemma before_gate_Some:
  assumes "before_gate E io m = Some g"
  obtains m3 where "quiet (tick_times io) m m3" "mo_cached_checkpoint_path m3 = mo_cached_checkpoint_path m"
    "g = escalate io (snd (check_process_liveness io (scan_artifacts io (snd (poll_loop_state E io (poll_checkpoint E io m3))))))"
proof -
  let ?ts = "tick_times io"
  let ?m0 = "m\<lparr>mo_poll_count := mo_poll_count m + 1\<rparr>"
  let ?m1 = "check_signals E io ?m0"
  have m1: "quiet ?ts m ?m1" by (rule quiet_trans [OF _ quiet_signals]) (simp add: quiet_same)
  obtain a m2 where a: "check_session_alive E io ?m1 = (a, m2)" by fastforce
  obtain b m3 where b: "look_at_pane E io m2 = (b, m3)" by fastforce
  obtain l m4 where l: "poll_loop_state E io (poll_checkpoint E io m3) = (l, m4)" by fastforce
  obtain q m5 where q: "check_process_liveness io (scan_artifacts io m4) = (q, m5)" by fastforce
  from assms a b l q have none: "a = None" "\<not> b" "l = None" "q = None" and g: "g = escalate io m5"
    unfolding before_gate_def Let_def by (auto split: if_splits option.splits bool.splits)
  have "quiet ?ts m m2" using quiet_trans [OF m1 quiet_alive [of ?ts ?m1 E io]] a by simp
  then have "quiet ?ts m m3" using quiet_trans [OF _ quiet_pane [of io m2 E]] b by (metis snd_conv)
  moreover have "mo_cached_checkpoint_path m3 = mo_cached_checkpoint_path m"
    using alive_goes_on [OF a [unfolded none]] pane_cached [of E io m2] b by simp
  moreover have "g = escalate io (snd (check_process_liveness io (scan_artifacts io (snd (poll_loop_state E io (poll_checkpoint E io m3))))))"
    using g l q by simp
  ultimately show thesis by (rule that)
qed

lemma quiet_before_gate:
  assumes "before_gate E io m = Some g"
  shows "quiet (tick_times io) m g"
proof -
  from before_gate_Some [OF assms] obtain m3 where m3: "quiet (tick_times io) m m3"
    and g: "g = escalate io (snd (check_process_liveness io (scan_artifacts io (snd (poll_loop_state E io (poll_checkpoint E io m3))))))"
    by blast
  show ?thesis unfolding g
    by (intro quiet_trans [OF _ quiet_escalate] quiet_trans [OF _ quiet_liveness] quiet_trans [OF _ quiet_artifacts]
        quiet_trans [OF _ quiet_loop] quiet_trans [OF _ quiet_poll_checkpoint] m3)
qed

lemma tick_gate:
  "before_gate E io m = Some g \<Longrightarrow> tick E io m =
    (case evaluate_kill_gate io g of (Some out, m3) \<Rightarrow> (Some out, m3) | (None, m3) \<Rightarrow> (None, log_status io m3))"
  unfolding before_gate_def tick_def rest_of_tick_def Let_def
  by (auto split: if_splits option.splits bool.splits prod.splits)

lemma tick_no_gate:
  assumes "before_gate E io m = None"
  shows "quiet (tick_times io) m (snd (tick E io m))"
proof -
  let ?ts = "tick_times io"
  let ?m0 = "m\<lparr>mo_poll_count := mo_poll_count m + 1\<rparr>"
  let ?m1 = "check_signals E io ?m0"
  have m1: "quiet ?ts m ?m1" by (rule quiet_trans [OF _ quiet_signals]) (simp add: quiet_same)
  obtain a m2 where a: "check_session_alive E io ?m1 = (a, m2)" by fastforce
  obtain b m3 where b: "look_at_pane E io m2 = (b, m3)" by fastforce
  obtain l m4 where l: "poll_loop_state E io (poll_checkpoint E io m3) = (l, m4)" by fastforce
  obtain q m5 where q: "check_process_liveness io (scan_artifacts io m4) = (q, m5)" by fastforce
  have m2: "quiet ?ts m m2" using quiet_trans [OF m1 quiet_alive [of ?ts ?m1 E io]] a by simp
  have m3: "quiet ?ts m m3" using quiet_trans [OF m2 quiet_pane [of io m2 E]] b by simp
  have m4: "quiet ?ts m m4"
    using quiet_trans [OF quiet_trans [OF m3 quiet_poll_checkpoint [of _ m3 E io]] quiet_loop [of _ "poll_checkpoint E io m3" E io]] l
    by simp
  have m5: "quiet ?ts m m5"
    using quiet_trans [OF quiet_trans [OF m4 quiet_artifacts [of _ m4 io]] quiet_liveness [of _ "scan_artifacts io m4" io]] q
    by simp
  from assms a b l q m1 m2 m3 m4 m5 show ?thesis
    unfolding before_gate_def tick_def rest_of_tick_def Let_def
    by (auto split: if_splits option.splits bool.splits)
qed

section \<open>When a session is killed\<close>

lemma log_status_sel [simp]:
  "mo_pending_kill (log_status io m) = mo_pending_kill m" "killed (log_status io m) = killed m"
  by (simp_all add: log_status_def killed_def)

text \<open>
  C24: a session is killed only after five minutes of silence. If a poll kills, a kill was requested at
  least 300 seconds before the gate looked, in an earlier poll unless this poll took that long
  itself; and at the gate the screen, the checkpoint, the artifacts and the loop state had all been
  silent for 30 seconds, no teammate was there and the network was up. The outcome is the one
  requested.
\<close>
theorem kill_needs_silence:
  assumes "tick E io m = (out, m')" and "killed m'" and "\<not> killed m"
  shows "\<exists>pk. out = Some (kill_outcome (pk_reason pk) (pk_outcome pk))
    \<and> 300 \<le> age_secs (ti_clock io 16) (pk_started_at pk)
    \<and> (mo_pending_kill m = Some pk \<or> pk_started_at pk \<in> tick_times io)
    \<and> 30 \<le> age_secs (ti_clock io 16) (mo_last_activity m')
    \<and> 30 \<le> age_secs (ti_clock io 16) (mo_last_checkpoint_activity m')
    \<and> 30 \<le> age_secs (ti_clock io 16) (mo_last_artifact_activity m')
    \<and> 30 \<le> age_secs (ti_clock io 16) (mo_last_loop_state_change m')
    \<and> \<not> check_swarm_active io 16 m' \<and> ti_online io"
proof (cases "before_gate E io m")
  case None
  with assms tick_no_gate [OF None] show ?thesis by (simp add: quiet_def)
next
  case (Some g)
  with quiet_before_gate have q: "quiet (tick_times io) m g" by blast
  with assms(3) have "\<not> killed g" by (simp add: quiet_def)
  moreover obtain o' m3 where e: "evaluate_kill_gate io g = (o', m3)" by fastforce
  moreover from this assms(1,2) tick_gate [OF Some] have "killed m3" by (cases o') auto
  ultimately obtain pk where pk: "mo_pending_kill g = Some pk" "\<not> has_recovery io g"
      "300 \<le> age_secs (ti_clock io 16) (pk_started_at pk)" "o' = Some (kill_outcome (pk_reason pk) (pk_outcome pk))"
    and m3: "m3 = (act KillSession (act (CrashDump (pk_reason pk)) g))\<lparr>mo_pending_kill := None\<rparr>"
    by (auto simp: evaluate_kill_gate_def Let_def KILL_GATE_MIN_SECS_def killed_def act_def
        split: option.splits if_splits)
  have "m' = m3" "out = o'" using assms(1) tick_gate [OF Some] e pk(4) by auto
  moreover have "mo_pending_kill m = Some pk \<or> pk_started_at pk \<in> tick_times io"
    using q pk(1) by (auto simp: quiet_def request_from_def)
  ultimately show ?thesis
    using pk m3 by (auto simp: has_recovery_def check_swarm_active_def act_def KILL_GATE_RECOVERY_WINDOW_SECS_def Let_def
        intro!: exI [of _ pk])
qed



text \<open>Where the outcome of a poll comes from.\<close>

lemma tick_outcomes:
  assumes "tick E io m = (Some out, m')"
  obtains (timeout) m1 where "quiet (tick_times io) m m1" "check_pipeline_timeout io m1 = Some out"
  | (session) m1 where "quiet (tick_times io) m m1" "check_session_alive E io m1 = (Some out, m')"
  | (grace) "quiet (tick_times io) m m'" "check_completion_grace io m' = Some out"
  | (loop) m3 where "quiet (tick_times io) m m3" "poll_loop_state E io m3 = (Some out, m')"
  | (process) m4 where "check_process_liveness io m4 = (Some out, m')"
  | (gate) g where "evaluate_kill_gate io g = (Some out, m')"
proof -
  let ?ts = "tick_times io"
  let ?m1 = "check_signals E io (m\<lparr>mo_poll_count := mo_poll_count m + 1\<rparr>)"
  have m1: "quiet ?ts m ?m1" by (rule quiet_trans [OF _ quiet_signals]) (simp add: quiet_same)
  obtain a m2 where a: "check_session_alive E io ?m1 = (a, m2)" by fastforce
  have m2: "quiet ?ts m m2" using quiet_trans [OF m1 quiet_alive [of ?ts ?m1 E io]] a by simp
  obtain b m3 where b: "look_at_pane E io m2 = (b, m3)" by fastforce
  have m3: "quiet ?ts m m3" using quiet_trans [OF m2 quiet_pane [of io m2 E]] b by simp
  obtain l m4 where l: "poll_loop_state E io (poll_checkpoint E io m3) = (l, m4)" by fastforce
  obtain q m5 where q: "check_process_liveness io (scan_artifacts io m4) = (q, m5)" by fastforce
  obtain k m6 where k: "evaluate_kill_gate io (escalate io m5) = (k, m6)" by fastforce
  show thesis
  proof (cases "check_pipeline_timeout io ?m1")
    case (Some x)
    with assms have "x = out" by (simp add: tick_def Let_def)
    with Some m1 show thesis by (intro timeout) auto
  next
    case t: None
    show thesis
    proof (cases a)
      case (Some x)
      with assms t a have "x = out" "m2 = m'" by (simp_all add: tick_def Let_def)
      with Some a m1 show thesis by (intro session) auto
    next
      case None
      with assms t a b have r: "\<not> b" "rest_of_tick E io m3 = (Some out, m')"
        by (auto simp: tick_def Let_def split: bool.splits)
      show thesis
      proof (cases "check_completion_grace io m3")
        case (Some x)
        with r have "x = out" "m3 = m'" by (simp_all add: rest_of_tick_def)
        with Some m3 show thesis by (intro grace) auto
      next
        case g: None
        show thesis
        proof (cases l)
          case (Some x)
          with r g l have "x = out" "m4 = m'" by (simp_all add: rest_of_tick_def)
          with Some l quiet_trans [OF m3 quiet_poll_checkpoint [of _ m3 E io]] show thesis by (intro loop) auto
        next
          case nl: None
          show thesis
          proof (cases q)
            case (Some x)
            with r g l nl q have "x = out" "m5 = m'" by (simp_all add: rest_of_tick_def)
            with Some q show thesis by (intro process) auto
          next
            case None
            with r g l nl q k have "k = Some out" "m6 = m'"
              by (simp_all add: rest_of_tick_def split: option.splits)
            with k show thesis by (intro gate) auto
          qed
        qed
      qed
    qed
  qed
qed

section \<open>Completion\<close>

lemma near_completion_read:
  assumes "read_checkpoint_now E fs m = (Some c, m')"
  shows "\<exists>cached. fst (read_cached_checkpoint (se_parse_json E) (se_from_value E) fs (mo_repo_dir m) cached) = Some c"
  using assms by (auto simp: read_checkpoint_now_def split: prod.splits intro!: exI [of _ "mo_cached_checkpoint_path m"])

lemma loop_completed:
  assumes "poll_loop_state E io m = (Some MonitorCompleted, m')"
  shows "\<exists>cached c. fst (read_cached_checkpoint (se_parse_json E) (se_from_value E) (ti_files io 9) (mo_repo_dir m) cached)
    = Some c \<and> is_near_completion c"
proof -
  have "\<exists>t c m2. read_checkpoint_now E (ti_files io 9) (m\<lparr>mo_loop_state_gone_since := Some t\<rparr>) = (Some c, m2)
      \<and> is_near_completion c"
    using assms unfolding poll_loop_state_def Let_def
    by (force simp: warming_up_def crashed_def Let_def split: option.splits prod.splits if_splits)
  then show ?thesis using near_completion_read by force
qed

lemma vanished_completed:
  assumes "session_vanished E io m = (Some MonitorCompleted, m')"
  shows "mo_completion_detected_at m \<noteq> None
    \<or> (\<exists>cached c. fst (read_cached_checkpoint (se_parse_json E) (se_from_value E) (ti_files io 2) (mo_repo_dir m) cached)
         = Some c \<and> is_near_completion c)"
  using assms
  by (auto simp: session_vanished_def read_checkpoint_sync_def crashed_def Let_def
      split: if_splits option.splits prod.splits) (metis fst_conv)+

text \<open>What a near-final checkpoint is read from, at some step of a poll.\<close>

definition nearly_done :: "'v sensors \<Rightarrow> tick_io \<Rightarrow> path \<Rightarrow> bool" where
  "nearly_done E io repo \<longleftrightarrow> (\<exists>k cached c. k \<in> {2, 9}
     \<and> fst (read_cached_checkpoint (se_parse_json E) (se_from_value E) (ti_files io k) repo cached) = Some c
     \<and> is_near_completion c)"

lemma alive_completed:
  assumes "check_session_alive E io m = (Some MonitorCompleted, m')"
  shows "ti_probe io \<noteq> ProbePresent \<and> (mo_completion_detected_at m \<noteq> None \<or> nearly_done E io (mo_repo_dir m))"
proof -
  have "\<exists>n. session_vanished E io (m\<lparr>mo_consecutive_unreachable := n\<rparr>) = (Some MonitorCompleted, m')"
    using assms by (auto simp: check_session_alive_def Let_def split: SessionProbe.splits if_splits)
  then obtain n where "session_vanished E io (m\<lparr>mo_consecutive_unreachable := n\<rparr>) = (Some MonitorCompleted, m')" ..
  from vanished_completed [OF this] have "mo_completion_detected_at m \<noteq> None \<or> nearly_done E io (mo_repo_dir m)"
    by (auto simp: nearly_done_def)
  moreover have "ti_probe io \<noteq> ProbePresent"
    using assms by (auto simp: check_session_alive_def)
  ultimately show ?thesis by blast
qed

text \<open>
  C26: a run is not reported complete without evidence. When a poll reports completion, either its
  checkpoint, read in this very poll, is near its end; or completion had been detected (by the signal of
  the session's end, or by the text in the pane together with such a checkpoint), and that at least 300
  seconds ago or the session is gone.
\<close>
theorem completion_needs_evidence:
  assumes "tick E io m = (Some MonitorCompleted, m')"
  shows "nearly_done E io (mo_repo_dir m)
    \<or> (\<exists>t. mo_completion_detected_at m' = Some t
         \<and> (300 \<le> age_secs (ti_clock io 7) t \<or> ti_probe io \<noteq> ProbePresent))"
  using assms
proof (cases rule: tick_outcomes)
  case (session m1)
  with alive_completed [of E io m1 m'] quiet_alive [of "tick_times io" m1 E io] show ?thesis
    by (auto simp: quiet_def keeps_detected_def)
next
  case grace
  then show ?thesis
    by (auto simp: check_completion_grace_def COMPLETION_GRACE_SECS_def split: option.splits if_splits)
next
  case (loop m3)
  with loop_completed [of E io m3 m'] show ?thesis by (auto simp: nearly_done_def quiet_def)
next
  case (gate g)
  have "kill_outcome r k \<noteq> MonitorCompleted" for r k by (cases k) auto
  with gate show ?thesis by (auto simp: evaluate_kill_gate_def Let_def split: option.splits if_splits)
qed (auto simp: check_pipeline_timeout_def check_process_liveness_def crashed_def Let_def
    split: option.splits if_splits)


section \<open>A well-formed state\<close>

text \<open>
  The counters stay below their limits and belong to a gap that is open; at most one gap is open; a loop
  state is remembered exactly when one has been seen; a phase that is shown has been timed.
\<close>

definition monitor_ok :: "monitor \<Rightarrow> bool" where
  "monitor_ok m \<longleftrightarrow> mo_nudge_count m \<le> 3 \<and> mo_transition_nudge_count m \<le> 2 \<and> mo_failed_nudge_count m \<le> 2
     \<and> (mo_in_transition_since m = None \<or> mo_in_failed_since m = None)
     \<and> (mo_in_transition_since m = None \<longrightarrow> mo_transition_nudge_count m = 0)
     \<and> (mo_in_failed_since m = None \<longrightarrow> mo_failed_nudge_count m = 0)
     \<and> pa_accept_count (mo_prompt_acceptor m) \<le> MAX_AUTO_ACCEPTS
     \<and> (mo_loop_state_ever_seen m \<longleftrightarrow> mo_prev_loop_state m \<noteq> None)
     \<and> (mo_current_phase m \<noteq> None \<longrightarrow> mo_phase_started_at m \<noteq> None)"

named_theorems ok_intros "steps that keep the monitor well-formed"

lemma ok_act [simp]: "monitor_ok (act a m) = monitor_ok m" "monitor_ok (arm now reason kind m) = monitor_ok m"
  "monitor_ok (detect_completion now m) = monitor_ok m"
  by (simp_all add: monitor_ok_def act_def arm_def detect_completion_def)

lemma ok_update [simp]:
  "monitor_ok (m\<lparr>mo_last_activity := t\<rparr>) = monitor_ok m" "monitor_ok (m\<lparr>mo_poll_count := n\<rparr>) = monitor_ok m"
  "monitor_ok (m\<lparr>mo_cached_checkpoint_path := p\<rparr>) = monitor_ok m"
  "monitor_ok (m\<lparr>mo_consecutive_unreachable := n\<rparr>) = monitor_ok m"
  "monitor_ok (m\<lparr>mo_last_process_gone_at := p'\<rparr>) = monitor_ok m"
  "monitor_ok (m\<lparr>mo_error_confirm_since := x\<rparr>) = monitor_ok m"
  "monitor_ok (m\<lparr>mo_loop_state_gone_since := p'\<rparr>) = monitor_ok m"
  "monitor_ok (m\<lparr>mo_pending_kill := k\<rparr>) = monitor_ok m"
  "monitor_ok (m\<lparr>mo_last_status_log := t\<rparr>) = monitor_ok m"
  "monitor_ok (m\<lparr>mo_last_checkpoint_activity := t\<rparr>) = monitor_ok m"
  by (simp_all add: monitor_ok_def)

lemma ok_signals [ok_intros]: "monitor_ok m \<Longrightarrow> monitor_ok (check_signals E io m)"
  by (auto simp: check_signals_def Let_def split: option.split)

lemma ok_alive [ok_intros]: "monitor_ok m \<Longrightarrow> monitor_ok (snd (check_session_alive E io m))"
proof -
  assume m: "monitor_ok m"
  have r: "monitor_ok (snd (read_checkpoint_sync E io m'))" if "monitor_ok m'" for m'
    using that by (simp add: read_checkpoint_sync_def Let_def split: prod.split)
  have "monitor_ok (snd (session_vanished E io m'))" if "monitor_ok m'" for m'
    using that r [OF that]
    by (cases "read_checkpoint_sync E io m'") (simp add: session_vanished_def crashed_def Let_def split: option.split)
  with m show ?thesis by (auto simp: check_session_alive_def Let_def split: SessionProbe.split)
qed

lemma ok_pane [ok_intros]: "monitor_ok m \<Longrightarrow> monitor_ok (snd (look_at_pane E io m))"
proof -
  assume m: "monitor_ok m"
  have a: "monitor_ok (update_activity_from_pane E now pane m')" if "monitor_ok m'" for now pane m'
    using that by (simp add: monitor_ok_def update_activity_from_pane_def Let_def)
  have p: "monitor_ok (snd (check_prompt_accept io pane m'))" if "monitor_ok m'" for pane m'
    using that by (auto simp: check_prompt_accept_def check_and_accept_def monitor_ok_def act_def split: prod.split)
  have c: "monitor_ok (check_pane_completion E io pane m')" if "monitor_ok m'" for pane m'
    using that by (simp add: check_pane_completion_def)
  have e: "monitor_ok (evaluate_error_evidence io pane m')" if "monitor_ok m'" for pane m'
  proof -
    have "monitor_ok (refresh_swarm_activity io m')" using that by (simp add: refresh_swarm_activity_def monitor_ok_def)
    then show ?thesis unfolding evaluate_error_evidence_def Let_def by (auto split: option.split)
  qed
  show ?thesis
  proof (cases "ti_pane io")
    case (Some pane)
    obtain b m1 where r: "check_prompt_accept io pane (update_activity_from_pane E (ti_clock io 3) pane m) = (b, m1)"
      by fastforce
    then have "monitor_ok m1" using p [OF a [OF m]] by (metis snd_conv)
    then show ?thesis using Some r c e by (simp add: look_at_pane_def split: bool.split)
  qed (simp add: look_at_pane_def m)
qed

lemma ok_checkpoint [ok_intros]: "monitor_ok m \<Longrightarrow> monitor_ok (poll_checkpoint E io m)"
proof -
  assume m: "monitor_ok m"
  have e: "monitor_ok (enter_phase E now c p m')" if "monitor_ok m'" for now c p m'
    using that by (simp add: enter_phase_def Let_def monitor_ok_def split: option.split)
  have g: "monitor_ok (track_gaps E now u pos m')" if "monitor_ok m'" for now u pos m'
    using that by (simp add: track_gaps_def Let_def monitor_ok_def)
  show ?thesis unfolding poll_checkpoint_def Let_def by (auto simp: m intro!: e g split: prod.split option.split)
qed

lemma ok_loop [ok_intros]: "monitor_ok m \<Longrightarrow> monitor_ok (snd (poll_loop_state E io m))"
proof -
  assume m: "monitor_ok m"
  have s: "monitor_ok (loop_state_seen now s m)" for now s
    using m by (simp add: loop_state_seen_def Let_def monitor_ok_def)
  have r: "monitor_ok m'" if "read_checkpoint_now E fs (m\<lparr>mo_loop_state_gone_since := t\<rparr>) = (c, m')" for fs t c m'
    using that m by (auto simp: read_checkpoint_now_def split: prod.splits)
  show ?thesis unfolding poll_loop_state_def Let_def
    by (auto simp: m s crashed_def split: option.split prod.split dest!: r)
qed

lemma ok_artifacts [ok_intros]: "monitor_ok m \<Longrightarrow> monitor_ok (scan_artifacts io m)"
  by (simp add: scan_artifacts_def monitor_ok_def Let_def split: option.split)

lemma ok_liveness [ok_intros]: "monitor_ok m \<Longrightarrow> monitor_ok (snd (check_process_liveness io m))"
  by (simp add: check_process_liveness_def crashed_def Let_def split: option.split)

lemma ok_status [ok_intros]: "monitor_ok m \<Longrightarrow> monitor_ok (log_status io m)"
  by (simp add: log_status_def)

lemma ok_gate [ok_intros]: "monitor_ok m \<Longrightarrow> monitor_ok (snd (evaluate_kill_gate io m))"
  by (simp add: evaluate_kill_gate_def Let_def split: option.split)

lemma ok_escalate [ok_intros]: "monitor_ok m \<Longrightarrow> monitor_ok (escalate io m)"
proof -
  assume m: "monitor_ok m"
  have t: "monitor_ok (check_phase_timeout io m')" if "monitor_ok m'" for m'
    using that by (simp add: check_phase_timeout_def Let_def split: option.split)
  have g: "monitor_ok (check_transition_gap io m')" if "monitor_ok m'" for m'
    using that by (auto simp: check_transition_gap_def Let_def split: option.split) (auto simp: monitor_ok_def)
  have f: "monitor_ok (check_failed_phase io m')" if "monitor_ok m'" for m'
    using that by (auto simp: check_failed_phase_def Let_def split: option.split) (auto simp: monitor_ok_def)
  have i: "monitor_ok (check_idle io m')" if "monitor_ok m'" for m'
    using that by (auto simp: check_idle_def Let_def) (auto simp: monitor_ok_def)
  show ?thesis using i [OF f [OF g [OF t [OF m]]]] f [OF g [OF t [OF m]]] by (simp add: escalate_def Let_def)
qed

lemma ok_tick:
  assumes "monitor_ok m"
  shows "monitor_ok (snd (tick E io m))"
proof -
  obtain m1 where m1_def: "check_signals E io (m\<lparr>mo_poll_count := mo_poll_count m + 1\<rparr>) = m1" by simp
  have m1: "monitor_ok m1" unfolding m1_def [symmetric] by (intro ok_signals) (simp add: assms)
  obtain a m2 where a: "check_session_alive E io m1 = (a, m2)" by fastforce
  have m2: "monitor_ok m2" using ok_alive [OF m1, of E io] a by simp
  obtain b m3 where b: "look_at_pane E io m2 = (b, m3)" by fastforce
  have m3: "monitor_ok m3" using ok_pane [OF m2, of E io] b by simp
  obtain l m4 where l: "poll_loop_state E io (poll_checkpoint E io m3) = (l, m4)" by fastforce
  have m4: "monitor_ok m4" using ok_loop [OF ok_checkpoint [OF m3], of E io E io] l by simp
  obtain q m5 where q: "check_process_liveness io (scan_artifacts io m4) = (q, m5)" by fastforce
  have m5: "monitor_ok m5" using ok_liveness [OF ok_artifacts [OF m4], of io io] q by simp
  obtain k m6 where k: "evaluate_kill_gate io (escalate io m5) = (k, m6)" by fastforce
  have m6: "monitor_ok m6" using ok_gate [OF ok_escalate [OF m5], of io io] k by simp
  show ?thesis
    using m1 m2 m3 m4 m5 m6 ok_status [OF m6]
    unfolding tick_def m1_def Let_def
    by (simp add: rest_of_tick_def a b l q k split: option.split bool.split)
qed

lemma monitor_ok_new: "monitor_ok (monitor_new clock_floor now u entry wd)"
  by (simp add: monitor_ok_def monitor_new_def prompt_acceptor_new_def)

text \<open>
  C27: the state of a monitor is well-formed as long as it polls: never more than three idle nudges
  since the screen last changed, two nudges in a gap between phases and two after a failed phase, no two
  gaps at once, at most 50 answered prompts, a remembered loop state exactly when one was seen, and a
  start time for the phase shown.
\<close>
theorem monitor_stays_well_formed:
  assumes "run_monitor E es (monitor_new clock_floor now u entry wd) = (None, m)"
  shows "monitor_ok m"
proof (rule rm.loop_keeps [where P = monitor_ok, OF _ monitor_ok_new assms])
  show "monitor_ok s'" if "monitor_ok s" "monitor_step E e s = (None, s')" for e s s'
    using that ok_tick [of s E] by (cases e) (auto, metis snd_conv)
qed

section \<open>A detected completion stays\<close>

text \<open>
  The end of a session, once signalled, is never withdrawn. However the run goes on afterwards, the
  first poll 300 seconds later that sees the session but no pane, and is not past the pipeline timeout,
  reports completion, whatever the checkpoint says.
\<close>
theorem signalled_end_is_final:
  assumes "mo_completion_detected_at m = Some t"
    and "run_monitor E es m = (None, m')"
    and "ti_probe io = ProbePresent" and "ti_pane io = None"
    and "300 \<le> age_secs (ti_clock io 7) t"
    and "max 0 (ti_clock io 1 - mo_run_started_at m) < int (wd_pipeline_timeout (mo_watchdog m)) * NANOS"
  shows "fst (tick E io m') = Some MonitorCompleted"
proof -
  let ?P = "\<lambda>s. mo_completion_detected_at s = Some t \<and> mo_run_started_at s = mo_run_started_at m
    \<and> mo_watchdog s = mo_watchdog m"
  have tick_keeps: "?P s'" if "?P s" "tick E x s = (None, s')" for x s s'
  proof (cases "before_gate E x s")
    case None
    with that tick_no_gate [OF None] show ?thesis by (simp add: quiet_def keeps_detected_def)
  next
    case (Some g)
    from quiet_before_gate [OF this] that(1) have "?P g" by (simp add: quiet_def keeps_detected_def)
    with that(2) tick_gate [OF Some] show ?thesis
      by (auto simp: evaluate_kill_gate_def log_status_def act_def Let_def split: option.splits prod.splits if_splits)
  qed
  have P: "?P m'"
  proof (rule rm.loop_keeps [where P = ?P, OF _ _ assms(2)])
    show "?P s'" if "?P s" "monitor_step E e s = (None, s')" for e s s'
    proof (cases e)
      case (Poll io)
      with that(2) have "tick E io s = (None, s')" by simp
      then show ?thesis by (rule tick_keeps [OF that(1)])
    qed (use that(2) in simp)
  qed (use assms(1) in simp)
  let ?m1 = "check_signals E io (m'\<lparr>mo_poll_count := mo_poll_count m' + 1\<rparr>)"
  have "quiet (tick_times io) m' ?m1" by (rule quiet_trans [OF _ quiet_signals]) (simp add: quiet_same)
  with P have P1: "?P ?m1" by (simp add: quiet_def keeps_detected_def)
  then have "check_pipeline_timeout io ?m1 = None" using assms(6)
    by (auto simp: check_pipeline_timeout_def le_max_iff_disj)
  moreover have "check_completion_grace io (?m1\<lparr>mo_consecutive_unreachable := 0\<rparr>) = Some MonitorCompleted"
    using P1 assms(5) by (simp add: check_completion_grace_def COMPLETION_GRACE_SECS_def)
  ultimately show ?thesis
    using assms(3,4) unfolding tick_def Let_def
    by (simp add: check_session_alive_def look_at_pane_def rest_of_tick_def)
qed

section \<open>A run past its time\<close>

text \<open>
  The pipeline timeout survives recovery. The monitor of a recovered run takes its start from the run's
  first start, so for a run older than the pipeline timeout every new monitor reports a timeout in its
  first poll, before it looks at the session: the recovered pipeline has no time at all.
\<close>
theorem recovered_run_times_out_at_once:
  assumes "int (wd_pipeline_timeout wd) * NANOS \<le> now_utc - re_started_at entry"
    and "clock_floor \<le> now - (now_utc - re_started_at entry)"
    and "now \<le> ti_clock io 1"
  shows "fst (run_monitor E (Poll io # es) (monitor_new clock_floor now now_utc entry wd))
    = Some (MonitorTimeout (''pipeline timeout exceeded ('' @ show_nat (wd_pipeline_timeout wd) @ ''s)''))"
proof -
  let ?m = "monitor_new clock_floor now now_utc entry wd"
  let ?m1 = "check_signals E io (?m\<lparr>mo_poll_count := mo_poll_count ?m + 1\<rparr>)"
  have "quiet (tick_times io) ?m ?m1" by (rule quiet_trans [OF _ quiet_signals]) (simp add: quiet_same)
  moreover have "0 \<le> int (wd_pipeline_timeout wd) * NANOS" by (simp add: NANOS_def)
  then have "mo_run_started_at ?m = now - (now_utc - re_started_at entry)"
    using assms(1,2) by (simp add: monitor_new_def instant_from_started_at_def back_from_def checked_sub_def)
  moreover have "mo_watchdog ?m = wd" by (simp add: monitor_new_def)
  ultimately have "check_pipeline_timeout io ?m1
      = Some (MonitorTimeout (''pipeline timeout exceeded ('' @ show_nat (wd_pipeline_timeout wd) @ ''s)''))"
    using assms(1,3) by (simp add: quiet_def check_pipeline_timeout_def)
  then show ?thesis by (simp add: tick_def Let_def)
qed

section \<open>Examples\<close>

definition plain_sensors :: "unit sensors" where
  "plain_sensors = \<lparr>se_parse_json = (\<lambda>_. Some ()), se_from_value = (\<lambda>_. Some ((checkpoint_default ''t'')\<lparr>ck_id := ''i'', ck_plan_file := ''p'', ck_completed_at := Some ''t''\<rparr>)),
     se_json = \<lparr>jv_get = (\<lambda>_ _. None), jv_u64 = (\<lambda>_. None), jv_bool = (\<lambda>_. None), jv_str = (\<lambda>_. None)\<rparr>,
     se_parse_time = (\<lambda>_. None), se_hash_str = (\<lambda>s. of_nat (length s)), se_floor = - (10 ^ 15)\<rparr>"

text \<open>A poll at one moment: the session is there, its pane cannot be captured, no signal is found.\<close>

definition poll_at :: "int \<Rightarrow> file_system \<Rightarrow> tick_io" where
  "poll_at secs fs = \<lparr>ti_clock = (\<lambda>_. secs * NANOS), ti_utc = 0, ti_files = (\<lambda>_. fs), ti_permission_age = None,
     ti_failure_pane = [], ti_probe = ProbePresent, ti_sync_ok = True, ti_pane = None, ti_enter_sent = False,
     ti_alive = (\<lambda>_ _. True), ti_swarm = (\<lambda>_ _. None), ti_artifacts = (\<lambda>_. OtherNode), ti_online = True\<rparr>"

definition day_watchdog :: watchdog_config where
  "day_watchdog = (su_watchdog quick_surroundings)\<lparr>wd_pipeline_timeout := 21600, wd_idle_kill_secs := 1800,
     wd_loop_state_warmup_secs := 300\<rparr>"

definition started_run :: run_entry where
  "started_run = (the_run ''a'' busy_daemon)\<lparr>re_started_at := 0, re_claude_pid := None\<rparr>"

definition waiting_monitor :: monitor where
  "waiting_monitor = (monitor_new (- (10 ^ 15)) 0 0 started_run day_watchdog)
     \<lparr>mo_pending_kill := Some \<lparr>pk_reason = ''idle'', pk_outcome = KillStuck, pk_started_at = 0, pk_nudge_sent = True\<rparr>\<rparr>"

lemma waiting_monitor_sel:
  "mo_repo_dir waiting_monitor = ''/r''" "mo_run_started_at waiting_monitor = 0" "mo_monitor_started_at waiting_monitor = 0"
  "mo_watchdog waiting_monitor = day_watchdog"
  by (simp_all add: waiting_monitor_def monitor_new_def started_run_def busy_daemon_run instant_from_started_at_def
      back_from_def checked_sub_def)

lemmas poll_defs = tick_def rest_of_tick_def check_signals_def read_signal_def is_permission_pending_def
  check_pipeline_timeout_def check_session_alive_def look_at_pane_def check_completion_grace_def poll_checkpoint_def
  read_cached_checkpoint_def poll_loop_state_def read_arc_loop_state_def warming_up_def scan_artifacts_def
  check_process_liveness_def escalate_def check_phase_timeout_def check_transition_gap_def check_failed_phase_def
  check_idle_def evaluate_kill_gate_def has_recovery_def check_swarm_active_def log_status_def

lemmas example_defs = plain_sensors_def poll_at_def day_watchdog_def quick_surroundings_def monitor_new_def
  started_run_def waiting_monitor_def instant_from_started_at_def back_from_def checked_sub_def
  default_profile_def age_secs_def NANOS_def KILL_GATE_MIN_SECS_def KILL_GATE_RECOVERY_WINDOW_SECS_def

lemma killed_at_400:
  "fst (tick plain_sensors (poll_at 400 (\<lambda>_. Absent)) waiting_monitor) = Some (MonitorStuck ''idle'')"
  "killed (snd (tick plain_sensors (poll_at 400 (\<lambda>_. Absent)) waiting_monitor))" "\<not> killed waiting_monitor"
  by (simp_all add: poll_defs example_defs busy_daemon_run killed_def act_def Let_def)

theorem kill_needs_silence_witness:
  "\<exists>pk. mo_pending_kill waiting_monitor = Some pk \<and> pk_outcome pk = KillStuck
    \<and> 300 \<le> age_secs (400 * NANOS) (pk_started_at pk)"
proof -
  let ?io = "poll_at 400 (\<lambda>_. Absent)"
  obtain m' where t: "tick plain_sensors ?io waiting_monitor = (Some (MonitorStuck ''idle''), m')" and k: "killed m'"
    using killed_at_400(1,2) by (metis prod.collapse)
  have "ti_clock ?io 16 = 400 * NANOS" by (simp add: poll_at_def)
  with kill_needs_silence [OF t k killed_at_400(3)] show ?thesis
    by (auto simp: waiting_monitor_def age_secs_def NANOS_def)
qed

definition checkpoint_there :: file_system where
  "checkpoint_there p = (if p = ''/c'' then Readable ''{}'' else Absent)"


definition ending_monitor :: monitor where
  "ending_monitor = waiting_monitor\<lparr>mo_pending_kill := None, mo_completion_detected_at := Some 0\<rparr>"

lemma ends_at_400: "fst (tick plain_sensors (poll_at 400 (\<lambda>_. Absent)) ending_monitor) = Some MonitorCompleted"
  by (simp add: ending_monitor_def poll_defs example_defs busy_daemon_run COMPLETION_GRACE_SECS_def Let_def)

theorem completion_needs_evidence_witness:
  "\<exists>m'. tick plain_sensors (poll_at 400 (\<lambda>_. Absent)) ending_monitor = (Some MonitorCompleted, m')
    \<and> (nearly_done plain_sensors (poll_at 400 (\<lambda>_. Absent)) ''/r''
       \<or> (\<exists>t. mo_completion_detected_at m' = Some t \<and> 300 \<le> age_secs (400 * NANOS) t))"
proof -
  let ?io = "poll_at 400 (\<lambda>_. Absent)"
  obtain m' where t: "tick plain_sensors ?io ending_monitor = (Some MonitorCompleted, m')"
    using ends_at_400 by (metis prod.collapse)
  have "mo_repo_dir ending_monitor = ''/r''" by (simp add: ending_monitor_def waiting_monitor_sel)
  moreover have "ti_clock ?io 7 = 400 * NANOS" "ti_probe ?io = ProbePresent" by (simp_all add: poll_at_def)
  ultimately show ?thesis using completion_needs_evidence [OF t] t by auto
qed

theorem signalled_end_is_final_witness:
  "fst (tick plain_sensors (poll_at 400 (\<lambda>_. Absent)) ending_monitor) = Some MonitorCompleted"
proof (rule signalled_end_is_final)
  show "mo_completion_detected_at ending_monitor = Some 0" by (simp add: ending_monitor_def)
  show "run_monitor plain_sensors [] ending_monitor = (None, ending_monitor)" by simp
qed (simp_all add: ending_monitor_def waiting_monitor_sel day_watchdog_def poll_at_def age_secs_def NANOS_def)

theorem monitor_stays_well_formed_witness:
  "\<exists>m. run_monitor plain_sensors [Poll (poll_at 10 (\<lambda>_. Absent))] (monitor_new (- (10 ^ 15)) 0 0 started_run day_watchdog)
     = (None, m) \<and> monitor_ok m"
proof -
  let ?m = "monitor_new (- (10 ^ 15)) 0 0 started_run day_watchdog"
  let ?es = "[Poll (poll_at 10 (\<lambda>_. Absent))]"
  have "fst (tick plain_sensors (poll_at 10 (\<lambda>_. Absent)) ?m) = None"
    by (simp add: poll_defs example_defs busy_daemon_run Let_def)
  then obtain m where "tick plain_sensors (poll_at 10 (\<lambda>_. Absent)) ?m = (None, m)" by (metis prod.collapse)
  then have r: "run_monitor plain_sensors ?es ?m = (None, m)" by simp
  from monitor_stays_well_formed [OF r] r show ?thesis by blast
qed

theorem recovered_run_times_out_at_once_witness:
  "fst (run_monitor plain_sensors [Poll (poll_at 5 (\<lambda>_. Absent))]
     (monitor_new (- (10 ^ 15)) 0 (30000 * NANOS) started_run day_watchdog))
   = Some (MonitorTimeout (''pipeline timeout exceeded ('' @ show_nat (wd_pipeline_timeout day_watchdog) @ ''s)''))"
  by (rule recovered_run_times_out_at_once)
    (simp_all add: started_run_def day_watchdog_def poll_at_def NANOS_def)

end
