(* ===== verification/Reconciler.thy ===== *)
theory Reconciler
  imports Heartbeat
begin

text \<open>
  The reconciliation of the registry with the tmux sessions when the daemon starts
  (\<open>daemon/reconciler.rs\<close>), with the start-up that loads the registry (\<open>daemon/mod.rs\<close>). Lists of
  sessions, \<open>meta.json\<close> files and the outcomes of writes are arguments; events and log lines are
  left out.
\<close>

section \<open>What is found at start-up\<close>

record reconcile_io =
  rc_now :: utc
  rc_lock :: "path \<Rightarrow> lock_io"
  rc_meta :: "string \<Rightarrow> run_entry option"
  rc_skip_plan_match :: bool
  rc_exists :: "path \<Rightarrow> bool"
  rc_flush :: "string \<Rightarrow> io_result"
  rc_kill :: "string \<Rightarrow> io_result"

record reconciliation_report =
  rr_recovered :: nat
  rr_adopted :: nat
  rr_cleaned_up :: nat
  rr_auto_resumed :: nat
  rr_marked_failed :: nat
  rr_respawned :: nat
  rr_sessions_scanned :: nat
  rr_collisions_resolved :: nat

definition empty_report :: reconciliation_report where
  "empty_report = \<lparr>rr_recovered = 0, rr_adopted = 0, rr_cleaned_up = 0, rr_auto_resumed = 0, rr_marked_failed = 0,
     rr_respawned = 0, rr_sessions_scanned = 0, rr_collisions_resolved = 0\<rparr>"

definition set_registry_of :: "registry \<Rightarrow> world \<Rightarrow> world" where
  "set_registry_of r w = w\<lparr>w_registry := r\<rparr>"

text \<open>A status update whose error is only logged.\<close>

definition try_status ::
  "env \<Rightarrow> reconcile_io \<Rightarrow> string \<Rightarrow> RunStatus \<Rightarrow> string option \<Rightarrow> string option \<Rightarrow> registry \<Rightarrow> bool \<times> registry" where
  "try_status E io run_id status phase err r =
    (case update_status E (rc_now io) (rc_flush io run_id) run_id status phase err r of
       (Inl _, r1) \<Rightarrow> (False, r1) | (Inr _, r1) \<Rightarrow> (True, r1))"

definition kill_tmux :: "reconcile_io \<Rightarrow> string \<Rightarrow> world \<Rightarrow> world" where
  "kill_tmux io name w = w\<lparr>w_sessions := kill_session (rc_kill io name) name (w_sessions w)\<rparr>"

section \<open>The steps\<close>

text \<open>Step 0: the locks of running runs; a lock that cannot be had is only logged.\<close>

definition reacquire_locks :: "env \<Rightarrow> reconcile_io \<Rightarrow> registry \<Rightarrow> registry" where
  "reacquire_locks E io r =
     fold (\<lambda>repo r. case acquire_repo_lock_for_adopt E (rc_lock io repo) repo r of Inl _ \<Rightarrow> r | Inr r1 \<Rightarrow> r1)
       (map ri_repo_dir (filter (\<lambda>i. ri_status i = Running) (list_runs (rc_now io) False r))) r"

definition list_gw_tmux_sessions :: "string list \<Rightarrow> string list" where
  "list_gw_tmux_sessions names = filter (prefix ''gw-'') names"

definition find_run_by_tmux_session :: "utc \<Rightarrow> string \<Rightarrow> registry \<Rightarrow> (string \<times> RunStatus) option" where
  "find_run_by_tmux_session now tmux r =
     map_option (\<lambda>i. (ri_run_id i, ri_status i))
       (find (\<lambda>i. ri_session_name i = tmux \<or> tmux = ''gw-'' @ ri_run_id i) (list_runs now True r))"

definition adopted_entry :: "string \<Rightarrow> run_entry \<Rightarrow> run_entry" where
  "adopted_entry tmux e = e\<lparr>re_tmux_session := Some tmux, re_status := Running, re_current_phase := Some ''adopted'',
     re_error_message := None, re_finished_at := None\<rparr>"

definition try_adopt_orphan ::
  "env \<Rightarrow> reconcile_io \<Rightarrow> file_system \<Rightarrow> string \<Rightarrow> registry \<Rightarrow> string option \<times> registry" where
  "try_adopt_orphan E io fs tmux r =
    (case strip_prefix ''gw-'' tmux of
       None \<Rightarrow> (None, r)
     | Some run_id \<Rightarrow>
         if hm_get (reg_runs r) run_id \<noteq> None then (Some run_id, r)
         else (case rc_meta io run_id of
             None \<Rightarrow> (None, r)
           | Some e \<Rightarrow>
               if \<not> rc_skip_plan_match io
                  \<and> (case active_state (read_arc_loop_state (fs (loop_file (re_repo_dir e)))) of
                       Some s \<Rightarrow> \<not> plans_match E (ls_plan_file s) (re_plan_path e) (re_repo_dir e)
                     | None \<Rightarrow> False)
               then (None, r)
               else
                 let entry = adopted_entry tmux e in
                 (case acquire_repo_lock_for_adopt E (rc_lock io (re_repo_dir entry)) (re_repo_dir entry) r of
                    Inl _ \<Rightarrow> (None, r)
                  | Inr r1 \<Rightarrow> (Some run_id, adopt None entry r1))))"

definition process_session ::
  "env \<Rightarrow> reconcile_io \<Rightarrow> file_system \<Rightarrow> string \<Rightarrow> world \<times> reconciliation_report \<Rightarrow> world \<times> reconciliation_report" where
  "process_session E io fs tmux st =
    (case st of (w, rep) \<Rightarrow>
      (case find_run_by_tmux_session (rc_now io) tmux (w_registry w) of
         Some (run_id, status) \<Rightarrow>
           if is_terminal status
           then (kill_tmux io tmux w, rep\<lparr>rr_cleaned_up := rr_cleaned_up rep + 1\<rparr>)
           else (w, rep\<lparr>rr_recovered := rr_recovered rep + 1\<rparr>)
       | None \<Rightarrow>
           (case try_adopt_orphan E io fs tmux (w_registry w) of
              (Some _, r1) \<Rightarrow> (set_registry_of r1 w, rep\<lparr>rr_adopted := rr_adopted rep + 1\<rparr>)
            | (None, r1) \<Rightarrow>
                (kill_tmux io tmux (set_registry_of r1 w), rep\<lparr>rr_cleaned_up := rr_cleaned_up rep + 1\<rparr>))))"

text \<open>Step 4: unfinished runs whose session is gone, except those that wait in a queue.\<close>

definition session_is_live :: "string list \<Rightarrow> run_info \<Rightarrow> bool" where
  "session_is_live live i \<longleftrightarrow> ''gw-'' @ ri_run_id i \<in> set live \<or> ri_session_name i \<in> set live"

definition find_stale_runs :: "utc \<Rightarrow> string list \<Rightarrow> registry \<Rightarrow> (string \<times> path) list" where
  "find_stale_runs now live r =
     map (\<lambda>i. (ri_run_id i, ri_repo_dir i))
       (filter (\<lambda>i. \<not> (ri_status i = Queued \<and> is_in_pending_queue r (ri_run_id i)) \<and> \<not> session_is_live live i)
         (list_runs now False r))"

definition check_checkpoint :: "('v, 'j) surroundings \<Rightarrow> file_system \<Rightarrow> path \<Rightarrow> bool" where
  "check_checkpoint S fs repo_dir \<longleftrightarrow>
     fst (read_cached_checkpoint (su_parse_json S) (su_from_value S) fs repo_dir None) \<noteq> None"

definition mark_session :: "string \<Rightarrow> bool \<Rightarrow> registry \<Rightarrow> registry" where
  "mark_session run_id reset r =
    (case hm_get (reg_runs r) run_id of
       None \<Rightarrow> r
     | Some e \<Rightarrow>
         r\<lparr>reg_runs := hm_insert run_id
             (e\<lparr>re_tmux_session := Some (''gw-'' @ run_id),
                re_crash_restarts := (if reset then 0 else re_crash_restarts e)\<rparr>) (reg_runs r)\<rparr>)"

definition lost_reason :: "string \<Rightarrow> string" where
  "lost_reason run_id = ''tmux session '' @ [CHR 0x27] @ ''gw-'' @ run_id @ [CHR 0x27]
     @ '' lost with no checkpoint '' @ em_dash @ '' marked failed by reconciler on daemon startup''"

definition process_stale ::
  "('v, 'j) surroundings \<Rightarrow> reconcile_io \<Rightarrow> file_system \<Rightarrow> string \<times> path \<Rightarrow>
    registry \<times> reconciliation_report \<Rightarrow> registry \<times> reconciliation_report" where
  "process_stale S io fs run st =
    (case (run, st) of ((run_id, repo_dir), (r, rep)) \<Rightarrow>
      if check_checkpoint S fs repo_dir then
        (snd (try_status (su_env S) io run_id Running (Some ''pending-recovery'') None (mark_session run_id False r)),
         rep\<lparr>rr_auto_resumed := rr_auto_resumed rep + 1\<rparr>)
      else if (case hm_get (reg_runs r) run_id of Some e \<Rightarrow> re_restartable e | None \<Rightarrow> False) then
        (snd (try_status (su_env S) io run_id Running (Some ''pending-respawn'') None (mark_session run_id True r)),
         rep\<lparr>rr_respawned := rr_respawned rep + 1\<rparr>)
      else
        (snd (try_status (su_env S) io run_id Failed None (Some (lost_reason run_id)) r),
         rep\<lparr>rr_marked_failed := rr_marked_failed rep + 1\<rparr>))"

text \<open>Step 4.5: unfinished runs that share a session name.\<close>

definition add_member :: "run_info \<Rightarrow> (string, string list) hash_map \<Rightarrow> (string, string list) hash_map" where
  "add_member i groups =
     hm_insert (ri_session_name i)
       ((case hm_get groups (ri_session_name i) of Some ids \<Rightarrow> ids | None \<Rightarrow> []) @ [ri_run_id i]) groups"

definition find_session_name_collisions :: "utc \<Rightarrow> registry \<Rightarrow> (string, string list) hash_map" where
  "find_session_name_collisions now r =
     filter (\<lambda>(_, ids). length ids > 1) (fold add_member (list_runs now False r) [])"

definition collision_reason :: "string \<Rightarrow> string \<Rightarrow> string" where
  "collision_reason session_name canonical_id =
     ''session_name '' @ [CHR 0x27] @ session_name @ [CHR 0x27] @ '' collision with canonical owner '' @ [CHR 0x27]
     @ canonical_id @ [CHR 0x27] @ '' '' @ em_dash @ '' resolved by reconciler''"

definition stop_ghost :: "env \<Rightarrow> reconcile_io \<Rightarrow> string \<Rightarrow> string \<Rightarrow> string \<Rightarrow> world \<times> nat \<Rightarrow> world \<times> nat" where
  "stop_ghost E io session_name canonical_id run_id st =
    (case st of (w, n) \<Rightarrow>
      if run_id = canonical_id then (w, n)
      else (case try_status E io run_id Stopped None (Some (collision_reason session_name canonical_id)) (w_registry w) of
          (False, r1) \<Rightarrow> (set_registry_of r1 w, n)
        | (True, r1) \<Rightarrow>
            let w1 = set_registry_of r1 w in
            (case Option.bind (hm_get (reg_runs r1) run_id) re_tmux_session of
               Some t \<Rightarrow> (if t \<noteq> session_name \<and> t \<in> set (w_sessions w1) then kill_tmux io t w1 else w1, n + 1)
             | None \<Rightarrow> (w1, n + 1))))"

definition resolve_group :: "env \<Rightarrow> reconcile_io \<Rightarrow> string \<times> string list \<Rightarrow> world \<times> nat \<Rightarrow> world \<times> nat" where
  "resolve_group E io grp st =
    (case strip_prefix ''gw-'' (fst grp) of
       Some canonical_id \<Rightarrow>
         if canonical_id \<in> set (snd grp) then fold (stop_ghost E io (fst grp) canonical_id) (snd grp) st else st
     | None \<Rightarrow> st)"

definition resolve_session_name_collisions :: "env \<Rightarrow> reconcile_io \<Rightarrow> world \<Rightarrow> world \<times> nat" where
  "resolve_session_name_collisions E io w =
     fold (resolve_group E io) (find_session_name_collisions (rc_now io) (w_registry w)) (w, 0)"

text \<open>Step 5: queued runs whose plan or repository is gone.\<close>

definition validate_pending :: "env \<Rightarrow> reconcile_io \<Rightarrow> pending_run \<Rightarrow> registry \<Rightarrow> registry" where
  "validate_pending E io p r =
    (let plan_ok = rc_exists io (pr_plan_path p); repo_ok = rc_exists io (pr_repo_dir p) in
     if \<not> plan_ok \<or> \<not> repo_ok then
       snd (try_status E io (pr_run_id p) Failed None
         (Some (''removed from queue by reconciler: plan_exists='' @ show_bool plan_ok @ '', repo_exists='' @ show_bool repo_ok))
         (snd (remove_pending_staged (pr_run_id p) r)))
     else r)"

definition reconcile ::
  "('v, 'j) surroundings \<Rightarrow> reconcile_io \<Rightarrow> file_system \<Rightarrow> world \<Rightarrow> reconciliation_report \<times> world" where
  "reconcile S io fs w =
    (let E = su_env S;
         w0 = set_registry_of (reacquire_locks E io (w_registry w)) w;
         live = list_gw_tmux_sessions (w_sessions w0);
         (w1, rep1) = fold (process_session E io fs) live (w0, empty_report\<lparr>rr_sessions_scanned := length live\<rparr>);
         (r2, rep2) = fold (process_stale S io fs) (find_stale_runs (rc_now io) live (w_registry w1)) (w_registry w1, rep1);
         (w3, n) = resolve_session_name_collisions E io (set_registry_of r2 w1);
         r4 = fold (validate_pending E io) (pending_entries (w_registry w3)) (w_registry w3)
     in (rep2\<lparr>rr_collisions_resolved := rr_collisions_resolved rep2 + n\<rparr>, set_registry_of r4 w3))"

text \<open>The start of the daemon: load the runs, restore the queues, reconcile.\<close>

definition start_daemon ::
  "('v, 'j) surroundings \<Rightarrow> reconcile_io \<Rightarrow> file_system \<Rightarrow> runs_dir \<Rightarrow> queue_wire \<Rightarrow> string list \<Rightarrow>
    string + reconciliation_report \<times> world" where
  "start_daemon S io fs dir wire sessions =
    (case load_from_disk dir of
       Inl e \<Rightarrow> Inl e
     | Inr r \<Rightarrow> Inr (reconcile S io fs \<lparr>w_registry = restore_queue wire r, w_sessions = sessions\<rparr>))"


section \<open>Nothing stale is left\<close>

text \<open>
  A run is settled when it has ended, waits in a queue, had a session at start-up, or is marked for the
  heartbeat to recover.
\<close>

definition settled :: "string list \<Rightarrow> registry \<Rightarrow> string \<Rightarrow> bool" where
  "settled live r i \<longleftrightarrow>
    (\<forall>e. hm_get (reg_runs r) i = Some e \<longrightarrow>
       is_terminal (re_status e)
       \<or> (re_status e = Queued \<and> is_in_pending_queue r i)
       \<or> ''gw-'' @ i \<in> set live \<or> re_session_name e \<in> set live
       \<or> (re_status e = Running \<and> re_tmux_session e = Some (''gw-'' @ i)))"

lemma fold_keeps: "P s \<Longrightarrow> (\<And>x s. P s \<Longrightarrow> P (f x s)) \<Longrightarrow> P (fold f xs s)"
  by (induction xs arbitrary: s) auto

lemma try_status_cases:
  "snd (try_status E io i s ph er r) =
    (case hm_get (reg_runs r) i of
       None \<Rightarrow> r
     | Some e \<Rightarrow>
         if re_status e \<le> s then
           r\<lparr>reg_runs := hm_insert i (staged_entry (rc_now io) s ph er e) (reg_runs r),
             reg_repo_locks :=
               (if is_terminal s then hm_remove (repo_hash E (re_repo_dir e)) (reg_repo_locks r) else reg_repo_locks r)\<rparr>
         else r)"
  by (simp add: try_status_def update_status_def stage_status_cases split: option.split)

lemma pending_of_queues [simp]:
  "is_in_pending_queue (r\<lparr>reg_runs := m\<rparr>) i = is_in_pending_queue r i"
  "is_in_pending_queue (r\<lparr>reg_repo_locks := l\<rparr>) i = is_in_pending_queue r i"
  by (simp_all add: is_in_pending_queue_def)

lemma try_status_pending [simp]:
  "is_in_pending_queue (snd (try_status E io i s ph er r)) j = is_in_pending_queue r j"
  by (simp add: try_status_cases split: option.split)

lemma try_status_others:
  "j \<noteq> i \<Longrightarrow> hm_get (reg_runs (snd (try_status E io i s ph er r))) j = hm_get (reg_runs r) j"
  by (simp add: try_status_cases split: option.split)

lemma every_status_can_end: "is_terminal s \<Longrightarrow> t \<le> s"
  by (cases s; cases t) (simp_all add: less_eq_RunStatus_def)

lemma try_end_settles:
  assumes "is_terminal s"
  shows "settled live (snd (try_status E io i s ph er r)) i"
  using assms every_status_can_end [OF assms]
  by (simp add: settled_def try_status_cases staged_entry_def split: option.split)

lemma settled_same:
  "hm_get (reg_runs r') j = hm_get (reg_runs r) j \<Longrightarrow> is_in_pending_queue r' j = is_in_pending_queue r j \<Longrightarrow>
    settled live r' j = settled live r j"
  by (simp add: settled_def)

lemma try_end_keeps:
  assumes "is_terminal s" and "settled live r j"
  shows "settled live (snd (try_status E io i s ph er r)) j"
proof (cases "j = i")
  case True
  then show ?thesis using try_end_settles [OF assms(1)] by simp
next
  case False
  then show ?thesis using assms(2) settled_same [OF try_status_others] by simp
qed

lemma mark_session_others [simp]:
  "j \<noteq> i \<Longrightarrow> hm_get (reg_runs (mark_session i b r)) j = hm_get (reg_runs r) j"
  by (simp add: mark_session_def split: option.split)

lemma mark_session_pending [simp]: "is_in_pending_queue (mark_session i b r) j = is_in_pending_queue r j"
  by (simp add: mark_session_def split: option.split)

lemma revive_settles:
  "settled live (snd (try_status E io i Running ph er (mark_session i b r))) i"
  by (auto simp: settled_def try_status_cases mark_session_def staged_entry_def backward_iff
      split: option.splits if_splits)

lemma process_stale_settles: "settled live (fst (process_stale S io fs (i, d) (r, rep))) i"
  by (simp add: process_stale_def revive_settles try_end_settles is_terminal_def)

lemma process_stale_others:
  "j \<noteq> i \<Longrightarrow> settled live (fst (process_stale S io fs (i, d) (r, rep))) j = settled live r j"
  by (rule settled_same) (simp_all add: process_stale_def try_status_others)

lemma stale_loop_settles:
  "settled live (fst st) j \<or> j \<in> fst ` set todo \<Longrightarrow>
    settled live (fst (fold (process_stale S io fs) todo st)) j"
proof (induction todo arbitrary: st)
  case Nil
  then show ?case by simp
next
  case (Cons run todo)
  obtain i d where run: "run = (i, d)" by (cases run)
  obtain r rep where st: "st = (r, rep)" by (cases st)
  have "settled live (fst (process_stale S io fs run st)) j \<or> j \<in> fst ` set todo"
    using Cons.prems process_stale_settles [of live S io fs i d r rep] process_stale_others [of j i live S io fs d r rep]
    by (cases "j = i") (auto simp: run st)
  from Cons.IH [OF this] show ?case by simp
qed

lemma stale_runs_cover:
  assumes "runs_ok r"
  shows "settled live r j \<or> j \<in> fst ` set (find_stale_runs now live r)"
proof (cases "settled live r j")
  case False
  then obtain e where e: "hm_get (reg_runs r) j = Some e" and open_run: "\<not> is_terminal (re_status e)"
    and waits: "\<not> (re_status e = Queued \<and> is_in_pending_queue r j)"
    and gone: "''gw-'' @ j \<notin> set live" "re_session_name e \<notin> set live"
    by (auto simp: settled_def)
  have id: "re_run_id e = j" by (rule runs_ok_get [OF assms e])
  have "is_active e" using open_run by (cases "re_status e") (auto simp: is_active_def is_terminal_def)
  then have "to_run_info now e \<in> set (list_runs now False r)"
    using hm_get_in_values [OF e] by (auto simp: list_runs_def)
  then have "(j, re_repo_dir e) \<in> set (find_stale_runs now live r)"
    using waits gone id by (force simp: find_stale_runs_def session_is_live_def to_run_info_def)
  then show ?thesis by force
qed simp


lemma adopt_lock_runs [simp]: "acquire_repo_lock_for_adopt E x p r = Inr r1 \<Longrightarrow> reg_runs r1 = reg_runs r"
  by (auto simp: acquire_repo_lock_for_adopt_def Let_def split: if_splits option.splits)

lemma reacquire_runs [simp]: "reg_runs (reacquire_locks E io r) = reg_runs r"
  unfolding reacquire_locks_def
  by (rule fold_keeps [of "\<lambda>r1. reg_runs r1 = reg_runs r"]) (auto split: sum.split)

lemma adopt_runs_ok: "runs_ok r \<Longrightarrow> runs_ok (adopt x e r)"
  by (rule runs_ok_insert [of r e "re_run_id e"]) (simp_all add: adopt_def)

lemma try_adopt_runs_ok:
  assumes "runs_ok r"
  shows "runs_ok (snd (try_adopt_orphan E io fs tmux r))"
  using runs_ok_same [OF assms adopt_lock_runs]
  by (simp add: try_adopt_orphan_def Let_def adopt_runs_ok assms split: option.split sum.split)

lemma process_session_runs_ok:
  "runs_ok (w_registry (fst st)) \<Longrightarrow> runs_ok (w_registry (fst (process_session E io fs tmux st)))"
  using try_adopt_runs_ok [of "w_registry (fst st)" E io fs tmux]
  by (auto simp: process_session_def set_registry_of_def kill_tmux_def split: prod.splits option.split)

lemma sessions_runs_ok:
  "runs_ok (w_registry (fst st)) \<Longrightarrow> runs_ok (w_registry (fst (fold (process_session E io fs) names st)))"
  by (rule fold_keeps [of "\<lambda>st. runs_ok (w_registry (fst st))"]) (auto intro: process_session_runs_ok)

text \<open>The later steps only end runs, so a settled run stays settled.\<close>

lemma stop_ghost_keeps:
  assumes "settled live (w_registry (fst st)) j"
  shows "settled live (w_registry (fst (stop_ghost E io s c i st))) j"
proof (cases "i = c")
  case False
  let ?t = "try_status E io i Stopped None (Some (collision_reason s c)) (w_registry (fst st))"
  have "w_registry (fst (stop_ghost E io s c i st)) = snd ?t"
    using False by (cases st; cases ?t)
      (simp add: stop_ghost_def set_registry_of_def kill_tmux_def Let_def split: bool.split option.split)
  then show ?thesis using try_end_keeps [OF _ assms, of Stopped] by (simp add: is_terminal_def)
qed (use assms in \<open>simp add: stop_ghost_def split: prod.split\<close>)

lemma resolve_group_keeps:
  assumes "settled live (w_registry (fst st)) j"
  shows "settled live (w_registry (fst (resolve_group E io grp st))) j"
proof -
  have "settled live (w_registry (fst (fold (stop_ghost E io s c) ids st))) j" for s c ids
    by (rule fold_keeps [of "\<lambda>st. settled live (w_registry (fst st)) j", OF assms stop_ghost_keeps])
  then show ?thesis using assms by (simp add: resolve_group_def split: option.split)
qed

lemma resolve_keeps:
  "settled live (w_registry w) j \<Longrightarrow> settled live (w_registry (fst (resolve_session_name_collisions E io w))) j"
  unfolding resolve_session_name_collisions_def
  by (rule fold_keeps [of "\<lambda>st. settled live (w_registry (fst st)) j", OF _ resolve_group_keeps]) auto

lemma removed_pending:
  "reg_runs (snd (remove_pending_staged i r)) = reg_runs r"
  "j \<noteq> i \<Longrightarrow> is_in_pending_queue (snd (remove_pending_staged i r)) j = is_in_pending_queue r j"
  by (force simp: remove_pending_staged_def remove_pending_without_snapshot_def stage_queue_locked_def Let_def
      is_in_pending_queue_def)+

lemma validate_keeps:
  assumes "settled live r j"
  shows "settled live (validate_pending E io p r) j"
proof (cases "j = pr_run_id p")
  case True
  then show ?thesis using assms try_end_settles [of Failed]
    by (simp add: validate_pending_def Let_def is_terminal_def)
next
  case False
  have "settled live (snd (remove_pending_staged (pr_run_id p) r)) j = settled live r j"
    by (rule settled_same) (simp_all add: removed_pending False)
  with assms have "settled live (snd (remove_pending_staged (pr_run_id p) r)) j" by simp
  from try_end_keeps [OF _ this, of Failed] show ?thesis
    using assms by (simp add: validate_pending_def Let_def is_terminal_def)
qed

text \<open>C28: After the reconciliation at start-up, whatever the registry on disk held and whichever
  sessions were lost, every run has ended, still waits in a queue, had a tmux session when the
  sessions were listed, or is Running under the session name that makes the heartbeat recover
  it.\<close>

theorem reconciliation_leaves_nothing_stale:
  assumes "runs_ok (w_registry w)"
    and "hm_get (reg_runs (w_registry (snd (reconcile S io fs w)))) i = Some e"
  shows "is_terminal (re_status e)
    \<or> (re_status e = Queued \<and> is_in_pending_queue (w_registry (snd (reconcile S io fs w))) i)
    \<or> ''gw-'' @ i \<in> set (list_gw_tmux_sessions (w_sessions w))
    \<or> re_session_name e \<in> set (list_gw_tmux_sessions (w_sessions w))
    \<or> (re_status e = Running \<and> re_tmux_session e = Some (''gw-'' @ i))"
proof -
  let ?w0 = "set_registry_of (reacquire_locks (su_env S) io (w_registry w)) w"
  let ?live = "list_gw_tmux_sessions (w_sessions w)"
  let ?s1 = "fold (process_session (su_env S) io fs) ?live (?w0, empty_report\<lparr>rr_sessions_scanned := length ?live\<rparr>)"
  let ?r1 = "w_registry (fst ?s1)"
  let ?r2 = "fst (fold (process_stale S io fs) (find_stale_runs (rc_now io) ?live ?r1) (?r1, snd ?s1))"
  let ?w3 = "fst (resolve_session_name_collisions (su_env S) io (set_registry_of ?r2 (fst ?s1)))"
  have final: "w_registry (snd (reconcile S io fs w))
      = fold (validate_pending (su_env S) io) (pending_entries (w_registry ?w3)) (w_registry ?w3)"
    by (simp add: reconcile_def Let_def set_registry_of_def split: prod.split)
  have ok0: "runs_ok (w_registry ?w0)" using assms(1) by (simp add: runs_ok_def set_registry_of_def)
  have ok1: "runs_ok ?r1" by (rule sessions_runs_ok) (use ok0 in simp)
  have "settled ?live ?r2 i" by (rule stale_loop_settles) (use stale_runs_cover [OF ok1] in simp)
  then have "settled ?live (w_registry ?w3) i"
    by (intro resolve_keeps) (simp add: set_registry_of_def)
  then have "settled ?live (fold (validate_pending (su_env S) io) (pending_entries (w_registry ?w3)) (w_registry ?w3)) i"
    by (rule fold_keeps [of "\<lambda>r. settled ?live r i", OF _ validate_keeps])
  then show ?thesis using assms(2) by (simp add: final settled_def)
qed


section \<open>Where it goes wrong\<close>

text \<open>Runs as \<open>meta.json\<close> keeps them, and a start at which every write and kill succeeds.\<close>

definition stored :: "string \<Rightarrow> RunStatus \<Rightarrow> string \<Rightarrow> string option \<Rightarrow> utc \<Rightarrow> run_entry" where
  "stored i status sess tmux since =
     \<lparr>re_run_id = i, re_plan_path = ''/r/'' @ i @ ''.md'', re_repo_dir = ''/r'', re_session_name = sess,
      re_tmux_session = tmux, re_status = status, re_current_phase = None, re_started_at = since,
      re_finished_at = None, re_crash_restarts = 0, re_config_dir = None, re_error_message = None,
      re_restartable = False, re_claude_pid = None, re_schedule_id = None, re_last_recovery_at = None,
      re_write_epoch = 0\<rparr>"

definition holding :: "run_entry list \<Rightarrow> registry" where
  "holding es = registry_new\<lparr>reg_runs := map (\<lambda>e. (re_run_id e, e)) es\<rparr>"

definition calm_start :: reconcile_io where
  "calm_start = \<lparr>rc_now = 10, rc_lock = (\<lambda>_. LockTaken), rc_meta = (\<lambda>_. None), rc_skip_plan_match = False,
     rc_exists = (\<lambda>_. True), rc_flush = (\<lambda>_. None), rc_kill = (\<lambda>_. None)\<rparr>"

text \<open>
  The start after a collision was resolved kills the session it was to protect. Two unfinished
  runs share the session \<open>gw-a\<close>, as older versions could leave them: the first start stops the newer,
  \<open>b\<close>, and keeps \<open>a\<close> and its session; on the next start the session is looked up under its name,
  the stopped \<open>b\<close> is found first because it is the newer, and the session \<open>a\<close> runs in is killed as left
  over.
\<close>
theorem second_start_kills_the_survivor:
  "let w0 = \<lparr>w_registry = holding [stored ''a'' Running ''gw-a'' (Some ''gw-a'') 1,
                                     stored ''b'' Running ''gw-a'' (Some ''gw-a'') 2],
             w_sessions = [''gw-a'']\<rparr>;
       w1 = snd (reconcile quick_surroundings calm_start (\<lambda>_. Absent) w0);
       w2 = snd (reconcile quick_surroundings calm_start (\<lambda>_. Absent) (w1\<lparr>w_registry := holding
              (hm_values (reg_runs (w_registry w1)))\<rparr>))
   in run_view (w_registry w1) ''a'' = Some (Running, ''/r'') \<and> run_view (w_registry w1) ''b'' = Some (Stopped, ''/r'')
      \<and> w_sessions w1 = [''gw-a'']
      \<and> run_view (w_registry w2) ''a'' = Some (Running, ''/r'') \<and> w_sessions w2 = []"
  by code_simp

text \<open>
  A start interrupted between the new session and the note of it leaves a run nobody watches. The
  entry is still \<open>Queued\<close> and without a session name, its session is alive: the reconciliation counts
  it as recovered and leaves it as it is, so the heartbeat gives it no monitor and the repository is
  not locked; the next submission starts a second session there.
\<close>
theorem interrupted_start_is_never_watched:
  "let w = \<lparr>w_registry = holding [stored ''a'' Queued ''gw-a'' None 1], w_sessions = [''gw-a'']\<rparr>;
       (rep, w') = reconcile quick_surroundings calm_start (\<lambda>_. Absent) w;
       (_, w2) = spawn_run plain_env all_well ''/r/c.md'' ''/r'' None None w'
   in rr_recovered rep = 1 \<and> run_view (w_registry w') ''a'' = Some (Queued, ''/r'')
      \<and> \<not> has_repo_lock plain_env (w_registry w') ''/r''
      \<and> tick_monitors (\<lambda>_. False) (w_registry w') [] = []
      \<and> length (w_sessions w2) = 2"
  by code_simp

definition ghost_beside_a_run :: world where
  "ghost_beside_a_run =
     \<lparr>w_registry = holding [stored ''a'' Running ''gw-a'' (Some ''gw-a'') 1, stored ''b'' Queued ''gw-b'' None 2],
      w_sessions = [''gw-a'']\<rparr>"

text \<open>
  The reconciliation starts a second run in a busy repository. Run \<open>a\<close> is up; the entry \<open>b\<close> is still
  \<open>Queued\<close> but waits in no queue, as a failed retry leaves it. The repository has a checkpoint, which
  is that of \<open>a\<close>, so \<open>b\<close> is marked Running for the heartbeat to recover.
\<close>
theorem reconcile_revives_a_ghost:
  "let S = quick_surroundings\<lparr>su_parse_json := (\<lambda>_. Some ()), su_from_value := (\<lambda>_. Some (merged (checkpoint_default ''t'')))\<rparr>;
       fs = (\<lambda>_. Absent)(loop_file ''/r'' := Readable (''---'' @ [CHR 0x0A] @ ''active: true'' @ [CHR 0x0A]
         @ ''checkpoint_path: /c'' @ [CHR 0x0A] @ ''plan_file: a.md'' @ [CHR 0x0A] @ ''---''), ''/c'' := Readable []);
       w' = snd (reconcile S calm_start fs ghost_beside_a_run)
   in run_view (w_registry w') ''a'' = Some (Running, ''/r'') \<and> run_view (w_registry w') ''b'' = Some (Running, ''/r'')
      \<and> tick_monitors (\<lambda>_. False) (w_registry w') [] = [(''a'', ()), (''b'', ())]"
  by code_simp

text \<open>
  Failing the ghost frees the lock of the run beside it. Without a checkpoint \<open>b\<close> is marked
  failed, which gives up the lock of the repository that step 0 took for \<open>a\<close>; the next submission
  starts a second session beside the live one.
\<close>
theorem failing_a_ghost_frees_the_lock:
  "let w' = snd (reconcile quick_surroundings calm_start (\<lambda>_. Absent) ghost_beside_a_run);
       (_, w2) = spawn_run plain_env all_well ''/r/c.md'' ''/r'' None None w'
   in has_repo_lock plain_env (reacquire_locks plain_env calm_start (w_registry ghost_beside_a_run)) ''/r''
      \<and> run_view (w_registry w') ''a'' = Some (Running, ''/r'') \<and> run_view (w_registry w') ''b'' = Some (Failed, ''/r'')
      \<and> \<not> has_repo_lock plain_env (w_registry w') ''/r'' \<and> length (w_sessions w2) = 2"
  by code_simp

theorem reconciliation_leaves_nothing_stale_witness:
  "re_status (the (hm_get (reg_runs (w_registry (snd (reconcile quick_surroundings calm_start (\<lambda>_. Absent)
     \<lparr>w_registry = holding [stored ''a'' Running ''gw-a'' (Some ''gw-a'') 1], w_sessions = []\<rparr>)))) ''a'')) = Failed"
proof -
  let ?w = "\<lparr>w_registry = holding [stored ''a'' Running ''gw-a'' (Some ''gw-a'') 1], w_sessions = []\<rparr>"
  let ?w' = "snd (reconcile quick_surroundings calm_start (\<lambda>_. Absent) ?w)"
  have ok: "runs_ok (w_registry ?w)" by (simp add: runs_ok_def holding_def stored_def hm_ok_def)
  have v: "map_option re_status (hm_get (reg_runs (w_registry ?w')) ''a'') = Some Failed" by code_simp
  then obtain e where e: "hm_get (reg_runs (w_registry ?w')) ''a'' = Some e" and s: "re_status e = Failed" by auto
  from reconciliation_leaves_nothing_stale [OF ok e] show ?thesis using e s by simp
qed

end
