(* ===== verification/Daemon_Home.thy ===== *)
theory Daemon_Home
  imports Registry_Steps
begin

text \<open>
  The directory of the daemon: its configuration and the clean-up of old runs (\<open>daemon/state.rs\<close>),
  and the snapshots taken of running sessions before a shutdown (\<open>daemon/drain.rs\<close>). Environment,
  directory listings and file operations are arguments, TOML and JSON parameters.
\<close>

section \<open>Configuration\<close>

definition DEFAULT_RETENTION :: nat where "DEFAULT_RETENTION = 50"
definition DEFAULT_SOCKET_NAME :: string where "DEFAULT_SOCKET_NAME = ''daemon.sock''"
definition DEFAULT_MAX_CONCURRENT_RUNS :: nat where "DEFAULT_MAX_CONCURRENT_RUNS = 4"
definition DEFAULT_SCHEDULE_INTERVAL :: nat where "DEFAULT_SCHEDULE_INTERVAL = 30"
definition DEFAULT_MAX_SCHEDULED_RUNS :: nat where "DEFAULT_MAX_SCHEDULED_RUNS = 2"

record global_config =
  gc_retention :: nat
  gc_socket_name :: string
  gc_max_concurrent_runs :: nat
  gc_schedule_interval_secs :: nat
  gc_max_scheduled_runs :: nat

definition global_config_default :: global_config where
  "global_config_default =
     \<lparr>gc_retention = DEFAULT_RETENTION, gc_socket_name = DEFAULT_SOCKET_NAME,
      gc_max_concurrent_runs = DEFAULT_MAX_CONCURRENT_RUNS,
      gc_schedule_interval_secs = DEFAULT_SCHEDULE_INTERVAL,
      gc_max_scheduled_runs = DEFAULT_MAX_SCHEDULED_RUNS\<rparr>"

definition gw_home :: "string option \<Rightarrow> path option \<Rightarrow> path" where
  "gw_home env_home home_dir =
    (case env_home of
       Some h \<Rightarrow> h
     | None \<Rightarrow> (case home_dir of Some h \<Rightarrow> path_join h ''.gw'' | None \<Rightarrow> ''/tmp/.gw''))"

text \<open>The directories are made in order; the first that fails ends it.\<close>

definition gw_dirs :: "path \<Rightarrow> path list" where
  "gw_dirs base = [base, path_join base ''runs'', path_join base ''repos'']"

fun make_dirs :: "(path \<Rightarrow> io_result) \<Rightarrow> path list \<Rightarrow> string + path list" where
  "make_dirs mk [] = Inr []"
| "make_dirs mk (d # ds) =
    (case mk d of
       Some e \<Rightarrow> Inl (''failed to create directory: '' @ d)
     | None \<Rightarrow> map_sum id (Cons d) (make_dirs mk ds))"

definition ensure_dirs :: "(path \<Rightarrow> io_result) \<Rightarrow> path \<Rightarrow> string + path list" where
  "ensure_dirs mk base = make_dirs mk (gw_dirs base)"

definition load_from :: "(string \<Rightarrow> global_config option) \<Rightarrow> (path \<Rightarrow> file_view) \<Rightarrow> path \<Rightarrow> string + global_config" where
  "load_from parse_toml fs base =
    (let p = path_join base ''config.toml'' in
     case fs p of
       Absent \<Rightarrow> Inr global_config_default
     | Readable s \<Rightarrow> (case parse_toml s of Some c \<Rightarrow> Inr c | None \<Rightarrow> Inl (''failed to parse '' @ p))
     | _ \<Rightarrow> Inl (''failed to read '' @ p))"

definition socket_path :: "path \<Rightarrow> global_config \<Rightarrow> path" where
  "socket_path home c = path_join home (gc_socket_name c)"

text \<open>The state of the network as it is shown.\<close>

datatype network_state = Online | WaitingForNetwork utc

fun show_network_state :: "utc \<Rightarrow> network_state \<Rightarrow> string" where
  "show_network_state now Online = ''online''"
| "show_network_state now (WaitingForNetwork since) =
    (let secs = nat (now - since) in
     if secs < 60 then ''waiting (since '' @ show_nat secs @ ''s ago)''
     else ''waiting (since '' @ show_nat (secs div 60) @ ''m ago)'')"

section \<open>Clean-up\<close>

text \<open>
  A run directory: when it was modified, the status its \<open>meta.json\<close> gives (\<open>None\<close> when it is missing
  or malformed), and the outcome of removing it.
\<close>

record run_dir =
  rd_path :: path
  rd_modified :: int
  rd_status :: "RunStatus option"
  rd_remove :: io_result

datatype runs_listing = NoRuns | ListingFailed string | Listed "run_dir list"

definition is_run_active :: "run_dir \<Rightarrow> bool" where
  "is_run_active d \<longleftrightarrow> rd_status d = Some Running \<or> rd_status d = Some Queued"

definition stays :: "run_dir \<Rightarrow> bool" where
  "stays d \<longleftrightarrow> is_run_active d \<or> rd_remove d \<noteq> None"

text \<open>The directories that are left.\<close>

definition cleanup_old_runs_in :: "runs_listing \<Rightarrow> nat \<Rightarrow> string + run_dir list" where
  "cleanup_old_runs_in l retention =
    (case l of
       NoRuns \<Rightarrow> Inr []
     | ListingFailed e \<Rightarrow> Inl ''failed to read runs directory''
     | Listed ds \<Rightarrow>
         if length ds \<le> retention then Inr ds
         else
           let oldest_first = sort_key rd_modified ds;
               to_remove = length ds - retention
           in Inr (filter stays (take to_remove oldest_first) @ drop to_remove oldest_first))"

section \<open>Snapshots\<close>

record session_snapshot =
  sn_run_id :: string
  sn_plan_path :: path
  sn_repo_dir :: path
  sn_phase :: "string option"
  sn_tmux_alive :: bool
  sn_pane_tail :: "string option"
  sn_drained_at :: string
  sn_crash_restarts :: nat

definition DRAIN_PANE_TAIL_LINES :: nat where "DRAIN_PANE_TAIL_LINES = 100"

record drain_io =
  dr_sessions :: "string list"
  dr_pane :: "string \<Rightarrow> string + string"
  dr_now :: "string \<Rightarrow> string"
  dr_write :: "string \<Rightarrow> io_result"

text \<open>The snapshot files by run.\<close>

type_synonym snapshot_files = "string \<Rightarrow> file_view"

definition pane_tail :: "string \<Rightarrow> string" where
  "pane_tail content =
    (let ls = str_lines content in join_lines (drop (length ls - DRAIN_PANE_TAIL_LINES) ls))"

definition snapshot_of :: "drain_io \<Rightarrow> run_entry \<Rightarrow> session_snapshot" where
  "snapshot_of io e =
    (let tmux = (case re_tmux_session e of Some t \<Rightarrow> t | None \<Rightarrow> []);
         alive = (tmux \<noteq> [] \<and> tmux \<in> set (dr_sessions io))
     in \<lparr>sn_run_id = re_run_id e, sn_plan_path = re_plan_path e, sn_repo_dir = re_repo_dir e,
         sn_phase = re_current_phase e, sn_tmux_alive = alive,
         sn_pane_tail = (if alive then (case dr_pane io tmux of Inr c \<Rightarrow> Some (pane_tail c) | Inl _ \<Rightarrow> None) else None),
         sn_drained_at = dr_now io (re_run_id e), sn_crash_restarts = re_crash_restarts e\<rparr>)"

definition write_snapshot ::
  "(session_snapshot \<Rightarrow> string) \<Rightarrow> drain_io \<Rightarrow> session_snapshot \<Rightarrow> snapshot_files \<Rightarrow> bool \<times> snapshot_files" where
  "write_snapshot to_json io s fs =
    (case dr_write io (sn_run_id s) of
       Some e \<Rightarrow> (False, fs)
     | None \<Rightarrow> (True, fs(sn_run_id s := Readable (to_json s))))"

definition drain_entry ::
  "(session_snapshot \<Rightarrow> string) \<Rightarrow> drain_io \<Rightarrow> run_entry \<Rightarrow> nat \<times> snapshot_files \<Rightarrow> nat \<times> snapshot_files" where
  "drain_entry to_json io e st =
    (case write_snapshot to_json io (snapshot_of io e) (snd st) of
       (ok, fs) \<Rightarrow> (if ok then fst st + 1 else fst st, fs))"

text \<open>The runs are taken in the order of the list, each as the registry has it.\<close>

definition running_entries :: "utc \<Rightarrow> registry \<Rightarrow> run_entry list" where
  "running_entries now r =
    List.map_filter (\<lambda>i. hm_get (reg_runs r) (ri_run_id i))
      (filter (\<lambda>i. ri_status i = Running) (list_runs now False r))"

definition drain_running_sessions ::
  "(session_snapshot \<Rightarrow> string) \<Rightarrow> drain_io \<Rightarrow> utc \<Rightarrow> registry \<Rightarrow> snapshot_files \<Rightarrow> nat \<times> snapshot_files" where
  "drain_running_sessions to_json io now r fs = fold (drain_entry to_json io) (running_entries now r) (0, fs)"

definition drain_single_session ::
  "(session_snapshot \<Rightarrow> string) \<Rightarrow> drain_io \<Rightarrow> string \<Rightarrow> registry \<Rightarrow> snapshot_files \<Rightarrow> bool \<times> snapshot_files" where
  "drain_single_session to_json io run_id r fs =
    (case hm_get (reg_runs r) run_id of
       None \<Rightarrow> (False, fs)
     | Some e \<Rightarrow> write_snapshot to_json io ((snapshot_of io e)\<lparr>sn_run_id := run_id\<rparr>) fs)"

definition read_snapshot :: "(string \<Rightarrow> session_snapshot option) \<Rightarrow> snapshot_files \<Rightarrow> string \<Rightarrow> session_snapshot option" where
  "read_snapshot parse_json fs run_id = (case fs run_id of Readable s \<Rightarrow> parse_json s | _ \<Rightarrow> None)"

definition clear_snapshot :: "io_result \<Rightarrow> string \<Rightarrow> snapshot_files \<Rightarrow> snapshot_files" where
  "clear_snapshot removal run_id fs = (if removal = None then fs(run_id := Absent) else fs)"


section \<open>What the clean-up removes\<close>

lemma take_drop_sorted:
  assumes "sorted (map f xs)" and "d \<in> set (take n xs)" and "k \<in> set (drop n xs)"
  shows "f d \<le> f k"
proof -
  have "sorted (map f (take n xs) @ map f (drop n xs))" using assms(1) by (simp flip: map_append)
  then show ?thesis using assms(2,3) by (auto simp: sorted_append)
qed

lemma cleanup_parts:
  assumes "cleanup_old_runs_in (Listed ds) retention = Inr left"
  shows "\<forall>d \<in> set ds. is_run_active d \<longrightarrow> d \<in> set left"
    and "set left \<subseteq> set ds"
    and "\<forall>d \<in> set ds - set left. retention \<le> length (filter (\<lambda>k. rd_modified d \<le> rd_modified k) left)"
    and "length left = (if length ds \<le> retention then length ds
      else retention + length (filter stays (take (length ds - retention) (sort_key rd_modified ds))))"
proof -
  let ?s = "sort_key rd_modified ds" and ?n = "length ds - retention"
  have all: "set (take ?n ?s) \<union> set (drop ?n ?s) = set ds"
    by (metis append_take_drop_id set_append set_sort)
  have left: "left = (if length ds \<le> retention then ds else filter stays (take ?n ?s) @ drop ?n ?s)"
    using assms by (simp add: cleanup_old_runs_in_def Let_def split: if_splits)
  show "\<forall>d \<in> set ds. is_run_active d \<longrightarrow> d \<in> set left" using all by (auto simp: left stays_def)
  show "set left \<subseteq> set ds" using all by (auto simp: left)
  show "length left = (if length ds \<le> retention then length ds
      else retention + length (filter stays (take ?n ?s)))" by (simp add: left)
  show "\<forall>d \<in> set ds - set left. retention \<le> length (filter (\<lambda>k. rd_modified d \<le> rd_modified k) left)"
  proof
    fix d assume d: "d \<in> set ds - set left"
    then have big: "\<not> length ds \<le> retention" by (auto simp: left)
    have "d \<in> set (take ?n ?s)" using d all big by (auto simp: left)
    then have "filter (\<lambda>k. rd_modified d \<le> rd_modified k) (drop ?n ?s) = drop ?n ?s"
      using take_drop_sorted [OF sorted_sort_key] by (auto simp: filter_id_conv)
    then show "retention \<le> length (filter (\<lambda>k. rd_modified d \<le> rd_modified k) left)"
      using big by (simp add: left)
  qed
qed

text \<open>
  The clean-up never removes a run that is active, and it removes a run only while the retained
  number of runs no older than it are left; what it leaves is the retained number and those of the
  oldest runs that are active or could not be removed.
\<close>
theorem cleanup_spares_active_runs:
  assumes "cleanup_old_runs_in (Listed ds) retention = Inr left"
  shows "(\<forall>d \<in> set ds. is_run_active d \<longrightarrow> d \<in> set left) \<and> set left \<subseteq> set ds
    \<and> (\<forall>d \<in> set ds - set left. retention \<le> length (filter (\<lambda>k. rd_modified d \<le> rd_modified k) left))
    \<and> length left = (if length ds \<le> retention then length ds
          else retention + length (filter stays (take (length ds - retention) (sort_key rd_modified ds))))"
  using cleanup_parts [OF assms] by blast

text \<open>
  An old run that is active is skipped, not replaced by the next oldest: more than the retained
  number of runs stay although some of them have ended.
\<close>
theorem active_runs_use_up_the_removals:
  "let up = \<lparr>rd_path = ''a'', rd_modified = 1, rd_status = Some Running, rd_remove = None\<rparr>;
       over = (\<lambda>p t. \<lparr>rd_path = p, rd_modified = t, rd_status = Some Succeeded, rd_remove = None\<rparr>)
   in map_sum id (map rd_path) (cleanup_old_runs_in (Listed [up, over ''b'' 2, over ''c'' 3]) 2)
      = (Inr [''a'', ''b'', ''c''] :: string + path list)"
  by code_simp

theorem cleanup_spares_active_runs_witness:
  "let ds = [\<lparr>rd_path = ''a'', rd_modified = 1, rd_status = Some Running, rd_remove = None\<rparr>,
             \<lparr>rd_path = ''b'', rd_modified = 2, rd_status = None, rd_remove = None\<rparr>]
   in \<exists>left. cleanup_old_runs_in (Listed ds) 0 = Inr left \<and> hd ds \<in> set left \<and> length left = 1"
proof -
  let ?ds = "[\<lparr>rd_path = ''a'', rd_modified = 1, rd_status = Some Running, rd_remove = None\<rparr>,
             \<lparr>rd_path = ''b'', rd_modified = 2, rd_status = None, rd_remove = None\<rparr>]"
  have "cleanup_old_runs_in (Listed ?ds) 0 = Inr [hd ?ds]" by code_simp
  from cleanup_spares_active_runs [OF this] this show ?thesis by (auto simp: is_run_active_def)
qed

section \<open>Snapshots are read back\<close>

lemma drain_fold:
  assumes "distinct (map re_run_id es)" and "\<forall>e \<in> set es. dr_write io (re_run_id e) = None"
  shows "fold (drain_entry to_json io) es (n, fs) =
    (n + length es,
     (\<lambda>i. case find (\<lambda>e. re_run_id e = i) es of Some e \<Rightarrow> Readable (to_json (snapshot_of io e)) | None \<Rightarrow> fs i))"
  using assms
proof (induction es arbitrary: n fs)
  case (Cons e es)
  have id: "sn_run_id (snapshot_of io e) = re_run_id e" by (simp add: snapshot_of_def Let_def)
  have other: "find (\<lambda>x. re_run_id x = re_run_id e) es = None"
    using Cons.prems(1) by (simp add: find_None_iff_all) (metis imageI)
  have "drain_entry to_json io e (n, fs) = (n + 1, fs(re_run_id e := Readable (to_json (snapshot_of io e))))"
    using Cons.prems(2) by (simp add: drain_entry_def write_snapshot_def id)
  then show ?case using Cons other by (auto simp: fun_eq_iff split: option.split)
qed simp

lemma distinct_map_sort: "distinct (map f (sort_key g xs)) = distinct (map f xs)"
  by (simp add: distinct_map)

lemma runs_distinct_ids: "runs_ok r \<Longrightarrow> distinct (map re_run_id (hm_values (reg_runs r)))"
proof -
  assume ok: "runs_ok r"
  then have "map re_run_id (hm_values (reg_runs r)) = map fst (reg_runs r)"
    by (auto simp: runs_ok_def)
  with ok show ?thesis by (simp add: runs_ok_def hm_ok_def del: map_map)
qed

lemma runs_ok_value:
  assumes "runs_ok r" and "e \<in> set (hm_values (reg_runs r))"
  shows "hm_get (reg_runs r) (re_run_id e) = Some e"
proof -
  obtain k where "hm_get (reg_runs r) k = Some e" using hm_values_get [OF _ assms(2)] assms(1) by (auto simp: runs_ok_def)
  then show ?thesis using runs_ok_get [OF assms(1)] by simp
qed

lemma map_filter_lookup:
  "(\<And>e. e \<in> set es \<Longrightarrow> f (g e) = Some e) \<Longrightarrow> List.map_filter f (map g es) = es"
  by (induction es) (simp_all add: List.map_filter_simps)

lemma running_entries_eq:
  assumes "runs_ok r"
  shows "running_entries now r =
    filter (\<lambda>e. re_status e = Running) (sort_key (\<lambda>e. - re_started_at e) (filter is_active (hm_values (reg_runs r))))"
proof -
  let ?s = "sort_key (\<lambda>e. - re_started_at e) (filter is_active (hm_values (reg_runs r)))"
  have "filter (\<lambda>i. ri_status i = Running) (list_runs now False r) =
      map (to_run_info now) (filter (\<lambda>e. re_status e = Running) ?s)"
    by (simp add: list_runs_def filter_map o_def to_run_info_def)
  moreover have "List.map_filter (\<lambda>i. hm_get (reg_runs r) (ri_run_id i))
      (map (to_run_info now) (filter (\<lambda>e. re_status e = Running) ?s)) = filter (\<lambda>e. re_status e = Running) ?s"
    by (rule map_filter_lookup) (auto simp: to_run_info_def runs_ok_value [OF assms])
  ultimately show ?thesis by (simp add: running_entries_def)
qed

lemma drained_parts:
  assumes "runs_ok r" and "\<forall>e \<in> set (hm_values (reg_runs r)). parse_json (to_json (snapshot_of io e)) = Some (snapshot_of io e)" and "\<forall>i. dr_write io i = None"
  shows "fst (drain_running_sessions to_json io now r fs) = count_running r"
    and "hm_get (reg_runs r) i = Some e \<Longrightarrow> re_status e = Running \<Longrightarrow>
      read_snapshot parse_json (snd (drain_running_sessions to_json io now r fs)) i = Some (snapshot_of io e)"
    and "hm_get (reg_runs r) i = None \<or> re_status (the (hm_get (reg_runs r) i)) \<noteq> Running \<Longrightarrow>
      snd (drain_running_sessions to_json io now r fs) i = fs i"
proof -
  let ?es = "running_entries now r"
  have in_es: "e \<in> set ?es \<longleftrightarrow> e \<in> set (hm_values (reg_runs r)) \<and> re_status e = Running" for e
    by (auto simp: running_entries_eq [OF assms(1)] is_active_def)
  have ids: "distinct (map re_run_id ?es)"
    using runs_distinct_ids [OF assms(1)]
    by (simp only: running_entries_eq [OF assms(1)]) (intro distinct_map_filter, simp only: distinct_map_sort, rule distinct_map_filter)
  have eq: "drain_running_sessions to_json io now r fs = (length ?es,
      (\<lambda>i. case find (\<lambda>e. re_run_id e = i) ?es of Some e \<Rightarrow> Readable (to_json (snapshot_of io e)) | None \<Rightarrow> fs i))"
    using drain_fold [OF ids, of io to_json 0 fs] assms(3) by (simp add: drain_running_sessions_def)
  have up: "(\<lambda>x. is_active x \<and> re_status x = Running) = (\<lambda>x. re_status x = Running)"
    by (auto simp: is_active_def)
  have "length ?es = count_running r"
    by (simp add: running_entries_eq [OF assms(1)] filter_sort count_running_def up del: filter_map)
  then show "fst (drain_running_sessions to_json io now r fs) = count_running r" by (simp add: eq)
  show "read_snapshot parse_json (snd (drain_running_sessions to_json io now r fs)) i = Some (snapshot_of io e)"
    if get: "hm_get (reg_runs r) i = Some e" and up: "re_status e = Running"
  proof -
    have "e \<in> set ?es" and "re_run_id e = i"
      using in_es up hm_get_in_values [OF get] runs_ok_get [OF assms(1) get] by auto
    then obtain x where x: "find (\<lambda>e. re_run_id e = i) ?es = Some x" by (cases "find (\<lambda>e. re_run_id e = i) ?es") (auto simp: find_None_iff_all)
    have "x \<in> set ?es" "re_run_id x = i" using find_SomeD [OF x] by auto
    then have "x = e" using ids \<open>e \<in> set ?es\<close> \<open>re_run_id e = i\<close> by (auto simp: distinct_map inj_on_def)
    moreover have "parse_json (to_json (snapshot_of io e)) = Some (snapshot_of io e)"
      using assms(2) hm_get_in_values [OF get] by (rule bspec)
    ultimately show ?thesis using x by (simp add: eq read_snapshot_def)
  qed
  show "snd (drain_running_sessions to_json io now r fs) i = fs i"
    if no: "hm_get (reg_runs r) i = None \<or> re_status (the (hm_get (reg_runs r) i)) \<noteq> Running"
  proof -
    have "re_run_id e \<noteq> i" if "e \<in> set ?es" for e
      using that no in_es runs_ok_value [OF assms(1)] by fastforce
    then have "find (\<lambda>e. re_run_id e = i) ?es = None" by (simp add: find_None_iff_all)
    then show ?thesis by (simp add: eq)
  qed
qed

text \<open>
  When every write succeeds, the snapshots taken at shutdown are those of the running runs: each
  is read back as it was taken, their number is that of the running runs, and the snapshots of all
  other runs stay as they were.
\<close>
theorem drained_sessions_are_read_back:
  assumes "runs_ok r" and "\<forall>e \<in> set (hm_values (reg_runs r)). parse_json (to_json (snapshot_of io e)) = Some (snapshot_of io e)" and "\<forall>i. dr_write io i = None"
    and "drain_running_sessions to_json io now r fs = (n, fs')"
  shows "n = count_running r
    \<and> (\<forall>i e. hm_get (reg_runs r) i = Some e \<longrightarrow>
        (if re_status e = Running then read_snapshot parse_json fs' i = Some (snapshot_of io e) else fs' i = fs i))
    \<and> (\<forall>i. hm_get (reg_runs r) i = None \<longrightarrow> fs' i = fs i)"
  using drained_parts [OF assms(1-3), where now = now and fs = fs] assms(4) by simp

definition drained_run :: run_entry where
  "drained_run =
     \<lparr>re_run_id = ''a'', re_plan_path = ''/r/a.md'', re_repo_dir = ''/r'', re_session_name = ''gw-a'',
      re_tmux_session = Some ''gw-a'', re_status = Running, re_current_phase = Some ''work'', re_started_at = 1,
      re_finished_at = None, re_crash_restarts = 0, re_config_dir = None, re_error_message = None,
      re_restartable = True, re_claude_pid = None, re_schedule_id = None, re_last_recovery_at = None,
      re_write_epoch = 0\<rparr>"

definition calm_drain :: drain_io where
  "calm_drain = \<lparr>dr_sessions = [''gw-a''], dr_pane = (\<lambda>_. Inr ''working''), dr_now = (\<lambda>_. ''t''), dr_write = (\<lambda>_. None)\<rparr>"

theorem drained_sessions_are_read_back_witness:
  "let r = registry_new\<lparr>reg_runs := [(''a'', drained_run)]\<rparr>;
       parse = (\<lambda>_. Some (snapshot_of calm_drain drained_run));
       (n, fs) = drain_running_sessions (\<lambda>_. ''{}'') calm_drain 5 r (\<lambda>_. Absent)
   in n = 1 \<and> read_snapshot parse fs ''a'' = Some (snapshot_of calm_drain drained_run)"
proof -
  let ?r = "registry_new\<lparr>reg_runs := [(''a'', drained_run)]\<rparr>"
  let ?parse = "\<lambda>_. Some (snapshot_of calm_drain drained_run)"
  obtain n fs where d: "drain_running_sessions (\<lambda>_. ''{}'') calm_drain 5 ?r (\<lambda>_. Absent) = (n, fs)" by force
  have "runs_ok ?r" by (simp add: runs_ok_def drained_run_def hm_ok_def)
  moreover have "\<forall>e \<in> set (hm_values (reg_runs ?r)). ?parse ((\<lambda>_. ''{}'') (snapshot_of calm_drain e)) = Some (snapshot_of calm_drain e)"
    by simp
  moreover have "\<forall>i. dr_write calm_drain i = None" by (simp add: calm_drain_def)
  ultimately have "n = count_running ?r
    \<and> (\<forall>i e. hm_get (reg_runs ?r) i = Some e \<longrightarrow>
        (if re_status e = Running then read_snapshot ?parse fs i = Some (snapshot_of calm_drain e) else fs i = Absent))
    \<and> (\<forall>i. hm_get (reg_runs ?r) i = None \<longrightarrow> fs i = Absent)"
    using d by (rule drained_sessions_are_read_back)
  then have "n = count_running ?r \<and> read_snapshot ?parse fs ''a'' = Some (snapshot_of calm_drain drained_run)"
    by (auto dest!: spec [of _ "''a''"] simp: drained_run_def)
  then show ?thesis using d by (simp add: count_running_def drained_run_def)
qed

end
