(* ===== verification/Daemon_Life.thy ===== *)
theory Daemon_Life
  imports Reconciler Daemon_Home Queue_Flush
begin

text \<open>
  The life of the daemon process (\<open>daemon/mod.rs\<close>): the crash-loop check over the files an unclean
  end leaves behind, the start and the shutdown, and the PID file with the lock that keeps a second
  daemon out. JSON is a parameter; what files and clocks answer is an argument.
\<close>

section \<open>The crash-loop check\<close>

record crash_loop_flag =
  clf_timestamp :: nat
  clf_crash_count :: nat
  clf_last_error :: "string option"
  clf_message :: string

text \<open>The serialisation of the two files.\<close>

record home_json =
  hj_history_json :: "crash_history \<Rightarrow> string"
  hj_parse_history :: "string \<Rightarrow> crash_history option"
  hj_flag_json :: "crash_loop_flag \<Rightarrow> string"
  hj_parse_flag :: "string \<Rightarrow> crash_loop_flag option"

record home_files =
  hf_marker :: bool
  hf_flag :: file_view
  hf_history :: file_view

record start_io =
  st_floor :: int
  st_instant :: instant
  st_epoch :: nat
  st_home :: path
  st_dirs :: io_result
  st_pid_open :: io_result
  st_pid_write :: io_result
  st_flag_write :: io_result
  st_persist :: io_result
  st_flag_remove :: io_result
  st_marker_write :: io_result

datatype start_error =
    StartPanicked
  | StartIo string
  | CrashLoopDetected nat string
  | AlreadyRunning string

definition crashloop_flag_path :: "path \<Rightarrow> path" where
  "crashloop_flag_path home = path_join home ''crashloop.flag''"

definition running_marker_path :: "path \<Rightarrow> path" where
  "running_marker_path home = path_join home ''daemon.running''"

definition read_crashloop_flag :: "home_json \<Rightarrow> file_view \<Rightarrow> crash_loop_flag option" where
  "read_crashloop_flag J f = (case f of Readable s \<Rightarrow> hj_parse_flag J s | _ \<Rightarrow> None)"

definition crashloop_message :: "path \<Rightarrow> nat \<Rightarrow> string" where
  "crashloop_message p n =
     ''Crash loop detected: '' @ show_nat n @ '' crashes within rolling window. launchd respawn halted. Inspect daemon.log and delete ''
     @ p @ '' after fixing the root cause.''"

text \<open>The file is staged beside its place and renamed: it is written whole or not at all.\<close>

definition write_crashloop_flag ::
  "home_json \<Rightarrow> start_io \<Rightarrow> nat \<Rightarrow> home_files \<Rightarrow> (string + unit) \<times> home_files" where
  "write_crashloop_flag J io n h =
    (case st_flag_write io of
       Some e \<Rightarrow> (Inl e, h)
     | None \<Rightarrow>
         (Inr (), h\<lparr>hf_flag := Readable (hj_flag_json J
            \<lparr>clf_timestamp = st_epoch io, clf_crash_count = n, clf_last_error = None,
             clf_message = crashloop_message (crashloop_flag_path (st_home io)) n\<rparr>)\<rparr>))"

definition crashes_in_window :: "detector \<Rightarrow> nat" where
  "crashes_in_window d = length (cl_crash_times d)"

definition persist_history :: "home_json \<Rightarrow> start_io \<Rightarrow> detector \<Rightarrow> home_files \<Rightarrow> home_files" where
  "persist_history J io d h =
     h\<lparr>hf_history := snd (persist (hj_history_json J) (st_persist io) (st_instant io) (st_epoch io) d (hf_history h))\<rparr>"

definition check_crash_loop ::
  "home_json \<Rightarrow> start_io \<Rightarrow> home_files \<Rightarrow> (start_error + unit) \<times> home_files" where
  "check_crash_loop J io h =
    (case load_history (hj_parse_history J) (st_floor io) (st_instant io) (st_epoch io) (hf_history h)
            (detector_new 5 120 300) of
       None \<Rightarrow> (Inl StartPanicked, h)
     | Some d \<Rightarrow>
         if \<not> hf_marker h then (Inr (), h)
         else
           (case record_restart (st_floor io) (st_instant io) d of
              (StopCrashLoop, d1) \<Rightarrow>
                (case write_crashloop_flag J io (crashes_in_window d1) h of
                   (Inl e, h1) \<Rightarrow> (Inl (StartIo e), h1)
                 | (Inr _, h1) \<Rightarrow>
                     (Inl (CrashLoopDetected (crashes_in_window d1) (crashloop_flag_path (st_home io))),
                      persist_history J io d1 h1))
            | (AllowRestart, d1) \<Rightarrow> (Inr (), persist_history J io d1 h)))"

definition clear_flag :: "start_io \<Rightarrow> home_files \<Rightarrow> home_files" where
  "clear_flag io h = (if hf_flag h \<noteq> Absent \<and> st_flag_remove io = None then h\<lparr>hf_flag := Absent\<rparr> else h)"

text \<open>
  The start up to the marker: \<open>owner\<close> is what the PID file says when another process holds its
  lock.
\<close>

definition enter_daemon ::
  "home_json \<Rightarrow> start_io \<Rightarrow> string option \<Rightarrow> home_files \<Rightarrow> (start_error + unit) \<times> home_files" where
  "enter_daemon J io owner h =
    (case st_dirs io of
       Some e \<Rightarrow> (Inl (StartIo e), h)
     | None \<Rightarrow>
         (case check_crash_loop J io h of
            (Inl e, h1) \<Rightarrow> (Inl e, h1)
          | (Inr _, h1) \<Rightarrow>
              let h2 = clear_flag io h1 in
              (case st_pid_open io of
                 Some e \<Rightarrow> (Inl (StartIo e), h2)
               | None \<Rightarrow>
                   (case owner of
                      Some pid \<Rightarrow> (Inl (AlreadyRunning (trim pid)), h2)
                    | None \<Rightarrow>
                        (case st_pid_write io of
                           Some e \<Rightarrow> (Inl (StartIo e), h2)
                         | None \<Rightarrow> (Inr (), if st_marker_write io = None then h2\<lparr>hf_marker := True\<rparr> else h2))))))"

text \<open>
  The end of a shutdown: an error of the clean-up of old runs is returned before the marker is
  removed.
\<close>

record stop_io =
  sp_cleanup :: "string + unit"
  sp_marker_remove :: io_result

definition leave_daemon :: "stop_io \<Rightarrow> home_files \<Rightarrow> (string + unit) \<times> home_files" where
  "leave_daemon io h =
    (case sp_cleanup io of
       Inl e \<Rightarrow> (Inl e, h)
     | Inr _ \<Rightarrow> (Inr (), if sp_marker_remove io = None then h\<lparr>hf_marker := False\<rparr> else h))"

text \<open>
  The shutdown once the server has ended and the drain tasks are done: snapshots, the queues (an
  error is only logged), then the rest.
\<close>

record shutdown_io =
  sh_drain :: drain_io
  sh_now :: utc
  sh_serializes :: bool
  sh_tmp :: tmp_io
  sh_rename :: rename_io
  sh_stop :: stop_io

definition shutdown_daemon ::
  "(session_snapshot \<Rightarrow> string) \<Rightarrow> shutdown_io \<Rightarrow> registry \<Rightarrow> snapshot_files \<Rightarrow> flush_state \<Rightarrow> home_files \<Rightarrow>
    (string + nat) \<times> registry \<times> snapshot_files \<times> flush_state \<times> home_files" where
  "shutdown_daemon to_json io r fs q h =
    (let (drained, fs1) = drain_running_sessions to_json (sh_drain io) (sh_now io) r fs;
         (snap, r1) = stage_queue_locked r;
         q1 = snd (flush_queue (sh_serializes io) (sh_tmp io) (sh_rename io) snap q);
         (res, h1) = leave_daemon (sh_stop io) h
     in (map_sum id (\<lambda>_. drained) res, r1, fs1, q1, h1))"

text \<open>
  One life of a daemon: a start and, when it succeeds, an end: a shutdown, or none when the process
  dies.
\<close>

definition live :: "home_json \<Rightarrow> start_io \<times> stop_io option \<Rightarrow> home_files \<Rightarrow> bool \<times> home_files" where
  "live J life h =
    (case enter_daemon J (fst life) None h of
       (Inl _, h1) \<Rightarrow> (False, h1)
     | (Inr _, h1) \<Rightarrow> (True, case snd life of None \<Rightarrow> h1 | Some io \<Rightarrow> snd (leave_daemon io h1)))"

fun lives :: "home_json \<Rightarrow> (start_io \<times> stop_io option) list \<Rightarrow> home_files \<Rightarrow> bool list \<times> home_files" where
  "lives J [] h = ([], h)"
| "lives J (l # ls) h =
    (case live J l h of (ok, h1) \<Rightarrow> (case lives J ls h1 of (oks, h2) \<Rightarrow> (ok # oks, h2)))"

section \<open>The PID file\<close>

text \<open>
  The file is overwritten in place, then cut to its new length; a reader may see it between the two.
\<close>

definition pwrite_at_zero :: "string \<Rightarrow> string \<Rightarrow> string" where
  "pwrite_at_zero new old = new @ drop (length new) old"

definition write_pid_states :: "nat \<Rightarrow> string \<Rightarrow> string list" where
  "write_pid_states pid old =
    (let written = pwrite_at_zero (show_nat pid) old
     in [old, written, take (length (show_nat pid)) written])"

definition read_pid :: "string \<Rightarrow> nat option" where
  "read_pid s = parse_u32 (trim s)"

text \<open>
  The lock belongs to the inode, the path may change: \<open>pf_path\<close> is the inode the path names, \<open>pf_fresh\<close>
  an inode not used yet, \<open>pf_open\<close> the processes that have opened the file and which inode, and
  \<open>pf_held\<close> the inodes locked and by whom. \<open>pf_unlinked\<close> counts removals of the path.
\<close>

record pid_lock =
  pf_path :: "nat option"
  pf_fresh :: nat
  pf_open :: "(nat, nat) hash_map"
  pf_held :: "(nat, nat) hash_map"
  pf_unlinked :: nat

definition no_pid_file :: pid_lock where
  "no_pid_file = \<lparr>pf_path = None, pf_fresh = 0, pf_open = [], pf_held = [], pf_unlinked = 0\<rparr>"

datatype pid_event = OpenPid nat | LockPid nat | UnlockPid nat | UnlinkPid

definition open_pid :: "nat \<Rightarrow> pid_lock \<Rightarrow> pid_lock" where
  "open_pid p s =
    (case pf_path s of
       Some n \<Rightarrow> s\<lparr>pf_open := hm_insert p n (pf_open s)\<rparr>
     | None \<Rightarrow> s\<lparr>pf_path := Some (pf_fresh s), pf_fresh := pf_fresh s + 1,
                   pf_open := hm_insert p (pf_fresh s) (pf_open s)\<rparr>)"

definition try_lock_exclusive :: "nat \<Rightarrow> pid_lock \<Rightarrow> bool \<times> pid_lock" where
  "try_lock_exclusive p s =
    (case hm_get (pf_open s) p of
       None \<Rightarrow> (False, s)
     | Some n \<Rightarrow>
         if hm_get (pf_held s) n \<noteq> None then (False, s)
         else (True, s\<lparr>pf_held := hm_insert n p (pf_held s)\<rparr>))"

text \<open>Unlocking, or the death of the process.\<close>

definition unlock_pid :: "nat \<Rightarrow> pid_lock \<Rightarrow> pid_lock" where
  "unlock_pid p s = s\<lparr>pf_held := filter (\<lambda>(_, q). q \<noteq> p) (pf_held s), pf_open := hm_remove p (pf_open s)\<rparr>"

definition unlink_pid :: "pid_lock \<Rightarrow> pid_lock" where
  "unlink_pid s = (if pf_path s = None then s else s\<lparr>pf_path := None, pf_unlinked := pf_unlinked s + 1\<rparr>)"

fun pid_step :: "pid_event \<Rightarrow> pid_lock \<Rightarrow> pid_lock" where
  "pid_step (OpenPid p) s = open_pid p s"
| "pid_step (LockPid p) s = snd (try_lock_exclusive p s)"
| "pid_step (UnlockPid p) s = unlock_pid p s"
| "pid_step UnlinkPid s = unlink_pid s"

definition daemons_running :: "pid_lock \<Rightarrow> nat list" where
  "daemons_running s = map snd (pf_held s)"


section \<open>Unclean ends\<close>

text \<open>What the theorems ask of the JSON of the history: the total is kept.\<close>

definition keeps_history :: "home_json \<Rightarrow> bool" where
  "keeps_history J \<longleftrightarrow>
    (\<forall>h. map_option ch_total_restarts (hj_parse_history J (hj_history_json J h)) = Some (ch_total_restarts h))"

definition total_in :: "home_json \<Rightarrow> home_files \<Rightarrow> nat" where
  "total_in J h = unat (file_total (hj_parse_history J) (hf_history h))"

lemma home_loaded_total:
  assumes "load_history parse fl i e f d = Some d1" and "cl_total_restarts d = 0"
  shows "cl_total_restarts d1 = file_total parse f" and "cl_max_total_restarts d1 = cl_max_total_restarts d"
  using assms
  by (auto simp: load_history_def load_record_def file_total_def Let_def split: file_view.splits option.splits if_splits)

lemma restart_total:
  "cl_total_restarts (snd (record_restart fl i d)) = cl_total_restarts d + 1"
  "cl_max_total_restarts (snd (record_restart fl i d)) = cl_max_total_restarts d"
  "fst (record_restart fl i d) = AllowRestart \<Longrightarrow> cl_total_restarts d + 1 < cl_max_total_restarts d"
  by (auto simp: record_restart_def record_restart_for_phase_def attribute_crash_def prune_def Let_def split: if_splits)

lemma daemon_detector: "cl_total_restarts (detector_new 5 120 300) = 0" "cl_max_total_restarts (detector_new 5 120 300) = 10"
  by (simp_all add: detector_new_def with_total_limit_def)

lemma persisted_total:
  assumes "keeps_history J"
  shows "file_total (hj_parse_history J) (hf_history (persist_history J io d h)) =
    (if st_persist io = None then cl_total_restarts d else file_total (hj_parse_history J) (hf_history h))"
  using assms
  by (auto simp: keeps_history_def persist_history_def persist_def file_total_def to_history_def
      split: option.split dest: spec [of _ "to_history (st_instant io) (st_epoch io) d"])

lemma persist_keeps [simp]: "hf_marker (persist_history J io d h) = hf_marker h"
  by (simp add: persist_history_def)

lemma write_flag_keeps [simp]:
  "hf_marker (snd (write_crashloop_flag J io n h)) = hf_marker h"
  "hf_history (snd (write_crashloop_flag J io n h)) = hf_history h"
  by (simp_all add: write_crashloop_flag_def split: option.split)

lemma clear_flag_keeps [simp]: "hf_marker (clear_flag io h) = hf_marker h" "hf_history (clear_flag io h) = hf_history h"
  by (simp_all add: clear_flag_def)

text \<open>The check: the marker stays, the total goes up by one or not at all, and below ten when it passes.\<close>

lemma check_keeps_marker: "hf_marker (snd (check_crash_loop J io h)) = hf_marker h"
proof (cases "load_history (hj_parse_history J) (st_floor io) (st_instant io) (st_epoch io) (hf_history h) (detector_new 5 120 300)")
  case (Some d)
  obtain dec d1 where r: "record_restart (st_floor io) (st_instant io) d = (dec, d1)" by (cases "record_restart (st_floor io) (st_instant io) d")
  obtain v h1 where w: "write_crashloop_flag J io (crashes_in_window d1) h = (v, h1)" by (cases "write_crashloop_flag J io (crashes_in_window d1) h")
  have "hf_marker h1 = hf_marker h" using write_flag_keeps(1) [of J io "crashes_in_window d1" h] w by simp
  then show ?thesis using Some r w
    by (cases dec; cases v) (simp_all add: check_crash_loop_def)
qed (simp add: check_crash_loop_def)

lemma check_without_marker:
  "\<not> hf_marker h \<Longrightarrow> snd (check_crash_loop J io h) = h"
  by (simp add: check_crash_loop_def split: option.split)

lemma check_total:
  assumes "keeps_history J" and "hf_marker h"
  defines "t \<equiv> file_total (hj_parse_history J)"
  shows "t (hf_history (snd (check_crash_loop J io h))) \<in> {t (hf_history h), t (hf_history h) + 1}
    \<and> (fst (check_crash_loop J io h) = Inr () \<longrightarrow> t (hf_history h) + 1 < 10)
    \<and> (fst (check_crash_loop J io h) = Inr () \<longrightarrow> st_persist io = None \<longrightarrow>
        t (hf_history (snd (check_crash_loop J io h))) = t (hf_history h) + 1)"
proof (cases "load_history (hj_parse_history J) (st_floor io) (st_instant io) (st_epoch io) (hf_history h) (detector_new 5 120 300)")
  case None
  then show ?thesis by (simp add: check_crash_loop_def)
next
  case (Some d)
  note d = home_loaded_total [OF Some daemon_detector(1), folded t_def]
  obtain dec d1 where r: "record_restart (st_floor io) (st_instant io) d = (dec, d1)"
    by (cases "record_restart (st_floor io) (st_instant io) d")
  have t: "cl_total_restarts d1 = t (hf_history h) + 1"
    using restart_total(1) [of "st_floor io" "st_instant io" d] r d(1) by simp
  note persisted = persisted_total [OF assms(1), folded t_def]
  show ?thesis
  proof (cases dec)
    case AllowRestart
    have "t (hf_history h) + 1 < 10"
      using restart_total(3) [of "st_floor io" "st_instant io" d] r AllowRestart d daemon_detector(2) by simp
    then show ?thesis using Some r AllowRestart assms(2) t by (simp add: check_crash_loop_def persisted)
  next
    case StopCrashLoop
    obtain v h1 where w: "write_crashloop_flag J io (crashes_in_window d1) h = (v, h1)"
      by (cases "write_crashloop_flag J io (crashes_in_window d1) h")
    have "hf_history h1 = hf_history h" using write_flag_keeps(2) [of J io "crashes_in_window d1" h] w by simp
    then show ?thesis using Some r StopCrashLoop assms(2) t w
      by (cases v) (simp_all add: check_crash_loop_def persisted)
  qed
qed

text \<open>A start ends before the check, after it without the marker, or with it.\<close>

lemma enter_outcomes:
  assumes "check_crash_loop J io h = (v, h1)"
  shows "(\<exists>e. enter_daemon J io owner h = (Inl e, h))
    \<or> (\<exists>e h2. enter_daemon J io owner h = (Inl e, h2) \<and> hf_history h2 = hf_history h1 \<and> hf_marker h2 = hf_marker h1)
    \<or> (v = Inr () \<and> owner = None \<and> (\<exists>h2. enter_daemon J io owner h = (Inr (), h2) \<and> hf_history h2 = hf_history h1
          \<and> hf_marker h2 = (hf_marker h1 \<or> st_marker_write io = None)))"
  using assms by (auto simp: enter_daemon_def Let_def split: sum.split option.split)

lemma worn_out:
  assumes "keeps_history J" and "hf_marker h" and "9 \<le> total_in J h" and "total_in J h + length ls < 2 ^ 32"
  shows "fst (lives J ls h) = replicate (length ls) False"
  using assms(2-4)
proof (induction ls arbitrary: h)
  case Nil
  then show ?case by simp
next
  case (Cons l ls)
  obtain v h1 where c: "check_crash_loop J (fst l) h = (v, h1)" by (cases "check_crash_loop J (fst l) h")
  let ?t = "file_total (hj_parse_history J)"
  note ct = check_total [OF assms(1) Cons.prems(1), of "fst l", unfolded c, simplified]
  have m: "hf_marker h1" using check_keeps_marker [of J "fst l" h] c Cons.prems(1) by simp
  have small: "unat (?t (hf_history h)) + 1 < 2 ^ 32" using Cons.prems(3) by (simp add: total_in_def)
  have next_total: "unat (?t (hf_history h) + 1) = unat (?t (hf_history h)) + 1"
    using small by (simp add: unat_plus_simple [THEN iffD1] no_olen_add_nat)
  have "\<not> ?t (hf_history h) + 1 < 10"
    using Cons.prems(2) next_total by (simp add: total_in_def word_less_nat_alt)
  then have v: "v \<noteq> Inr ()" using ct by auto
  have "9 \<le> total_in J h1 \<and> total_in J h1 + length ls < 2 ^ 32"
    using ct next_total Cons.prems by (auto simp: total_in_def)
  moreover obtain h2 where h2: "live J l h = (False, h2)"
    and "h2 = h \<or> hf_history h2 = hf_history h1 \<and> hf_marker h2"
    using enter_outcomes [OF c, of None] v m by (auto simp: live_def)
  ultimately have "fst (lives J ls h2) = replicate (length ls) False"
    using Cons m by (intro Cons.IH) (auto simp: total_in_def)
  then show ?case using h2 by (simp add: case_prod_beta)
qed

text \<open>
  Ten unclean ends in a lifetime are the last. Once nine restarts have been counted and the
  marker of an unclean end is there, no start succeeds, however much time passes between the
  attempts and whatever the disk answers: the total of restarts has no window and is never reset.
\<close>
theorem worn_out_daemon_never_starts:
  assumes "keeps_history J" and "hf_marker h" and "9 \<le> total_in J h" and "total_in J h + length ls < 2 ^ 32"
  shows "fst (lives J ls h) = replicate (length ls) False"
  by (rule worn_out [OF assms])

definition tidy :: "start_io \<times> stop_io option \<Rightarrow> bool" where
  "tidy life \<longleftrightarrow>
    (case snd life of Some io \<Rightarrow> sp_cleanup io = Inr () \<and> sp_marker_remove io = None | None \<Rightarrow> False)"

definition unclean_ends :: "bool list \<Rightarrow> (start_io \<times> stop_io option) list \<Rightarrow> nat" where
  "unclean_ends oks ls = length (filter (\<lambda>(ok, l). ok \<and> \<not> tidy l) (zip oks ls))"

lemma lives_Cons:
  "fst (lives J (l # ls) h) = fst (live J l h) # fst (lives J ls (snd (live J l h)))"
  by (simp add: case_prod_beta)

text \<open>
  Every life adds what it counts to the total and the marker together; the total passes nine only
  when a start is refused with the marker there.
\<close>

definition counted :: "home_json \<Rightarrow> home_files \<Rightarrow> nat" where
  "counted J h = total_in J h + (if hf_marker h then 1 else 0)"

lemma life_counts:
  assumes "keeps_history J" and "st_persist (fst l) = None" and "st_marker_write (fst l) = None"
    and "total_in J h \<le> 9" and "live J l h = (ok, h2)"
  shows "(if ok \<and> \<not> tidy l then 1 else 0) + counted J h \<le> counted J h2
    \<and> (total_in J h2 \<le> 9 \<or> (\<not> ok \<and> hf_marker h2 \<and> hf_marker h \<and> total_in J h2 = 10))"
proof -
  let ?t = "file_total (hj_parse_history J)"
  obtain v h1 where c: "check_crash_loop J (fst l) h = (v, h1)" by (cases "check_crash_loop J (fst l) h")
  have step: "unat (?t (hf_history h) + 1) = unat (?t (hf_history h)) + 1"
    using assms(4) by (simp add: total_in_def unat_plus_simple [THEN iffD1] no_olen_add_nat)
  have m1: "hf_marker h1 = hf_marker h" using check_keeps_marker [of J "fst l" h] c by simp
  have t1: "total_in J h1 = total_in J h \<or> hf_marker h \<and> total_in J h1 = total_in J h + 1"
    using check_total [OF assms(1), of h "fst l", unfolded c, simplified] check_without_marker [of h J "fst l", unfolded c] step
    by (cases "hf_marker h") (auto simp: total_in_def)
  have passed: "v = Inr () \<Longrightarrow> hf_marker h \<Longrightarrow> total_in J h1 = total_in J h + 1 \<and> total_in J h + 1 < 10"
    using check_total [OF assms(1), of h "fst l", unfolded c, simplified] step assms(2)
    by (auto simp: total_in_def word_less_nat_alt)
  consider (early) "h2 = h" "\<not> ok"
    | (refused) "hf_history h2 = hf_history h1" "hf_marker h2 = hf_marker h1" "\<not> ok"
    | (up) "v = Inr ()" "ok" "hf_history h2 = hf_history h1" "hf_marker h2 = (\<not> tidy l)"
    using enter_outcomes [OF c, of None] assms(3,5)
    by (auto simp: live_def leave_daemon_def tidy_def split: option.splits sum.splits)
  then show ?thesis
  proof cases
    case early
    then show ?thesis using assms(4) by simp
  next
    case refused
    then have "total_in J h2 = total_in J h1" by (simp add: total_in_def)
    then show ?thesis using refused m1 t1 assms(4) by (auto simp: counted_def)
  next
    case up
    then have "total_in J h2 = total_in J h1" by (simp add: total_in_def)
    then show ?thesis using up m1 t1 passed assms(4) by (auto simp: counted_def)
  qed
qed

lemma refused_count: "unclean_ends (replicate (length ls) False) ls = 0"
  by (auto simp: unclean_ends_def filter_empty_conv in_set_zip)

lemma unclean_ends_bound:
  assumes "keeps_history J"
    and "\<forall>l \<in> set ls. st_persist (fst l) = None \<and> st_marker_write (fst l) = None"
    and "length ls < 2 ^ 31" and "total_in J h \<le> 9"
  shows "unclean_ends (fst (lives J ls h)) ls + counted J h \<le> 10"
  using assms(2-4)
proof (induction ls arbitrary: h)
  case Nil
  then show ?case by (simp add: unclean_ends_def counted_def)
next
  case (Cons l ls)
  obtain ok h2 where l: "live J l h = (ok, h2)" by (cases "live J l h")
  have cnt: "unclean_ends (fst (lives J (l # ls) h)) (l # ls)
      = (if ok \<and> \<not> tidy l then 1 else 0) + unclean_ends (fst (lives J ls h2)) ls"
    by (simp add: unclean_ends_def lives_Cons l del: lives.simps)
  have "st_persist (fst l) = None" "st_marker_write (fst l) = None" using Cons.prems(1) by auto
  note lc = life_counts [OF assms(1) this Cons.prems(3) l]
  show ?case
  proof (cases "total_in J h2 \<le> 9")
    case True
    have "unclean_ends (fst (lives J ls h2)) ls + counted J h2 \<le> 10"
      by (rule Cons.IH) (use Cons.prems True in auto)
    then show ?thesis using cnt lc by linarith
  next
    case False
    then have *: "\<not> ok" "hf_marker h2" "hf_marker h" "total_in J h2 = 10" using lc by auto
    have "fst (lives J ls h2) = replicate (length ls) False"
      by (rule worn_out) (use assms(1) * Cons.prems in auto)
    then show ?thesis using cnt * refused_count [of ls] Cons.prems(3) by (simp add: counted_def)
  qed
qed


text \<open>
  Starting a daemon beside one that runs counts as a crash of the one that runs: its marker is
  there, and the check comes before the lock.
\<close>
theorem second_start_counts_as_a_crash:
  assumes "keeps_history J" and "hf_marker h" and "st_persist io = None" and "st_flag_write io = None"
    and "st_dirs io = None"
    and "load_history (hj_parse_history J) (st_floor io) (st_instant io) (st_epoch io) (hf_history h)
           (detector_new 5 120 300) = Some d"
  shows "(\<exists>e. fst (enter_daemon J io (Some pid) h) = Inl e)
    \<and> hf_marker (snd (enter_daemon J io (Some pid) h))
    \<and> file_total (hj_parse_history J) (hf_history (snd (enter_daemon J io (Some pid) h)))
        = file_total (hj_parse_history J) (hf_history h) + 1"
proof -
  obtain dec d1 where r: "record_restart (st_floor io) (st_instant io) d = (dec, d1)"
    by (cases "record_restart (st_floor io) (st_instant io) d")
  have "cl_total_restarts d1 = file_total (hj_parse_history J) (hf_history h) + 1"
    using restart_total(1) [of "st_floor io" "st_instant io" d] r home_loaded_total(1) [OF assms(6) daemon_detector(1)] by simp
  then show ?thesis using assms r
    by (cases dec)
      (simp_all add: enter_daemon_def Let_def check_crash_loop_def persisted_total write_crashloop_flag_def split: option.split)
qed

text \<open>The flag is only written and removed: deleting it, as its message asks, changes no verdict.\<close>
theorem flag_is_not_consulted:
  "fst (enter_daemon J io owner (h\<lparr>hf_flag := f\<rparr>)) = fst (enter_daemon J io owner h)"
proof -
  have "fst (check_crash_loop J io (h\<lparr>hf_flag := f\<rparr>)) = fst (check_crash_loop J io h)"
    by (auto simp: check_crash_loop_def write_crashloop_flag_def split: option.split prod.split CrashLoopDecision.split)
  then show ?thesis by (auto simp: enter_daemon_def Let_def split: prod.split sum.splits option.split)
qed

text \<open>
  A shutdown that cannot clean up old runs counts as a crash: the error is returned before the
  marker is removed.
\<close>
theorem failed_cleanup_leaves_the_marker:
  "sp_cleanup io = Inl e \<Longrightarrow> snd (leave_daemon io h) = h"
  by (simp add: leave_daemon_def)

section \<open>The contents of the PID file\<close>

lemma pwrite_prefix: "take (length new) (pwrite_at_zero new old) = new"
  by (simp add: pwrite_at_zero_def)

text \<open>
  The PID file that another daemon has left is never seen empty while it is rewritten, and it
  holds the new PID at the end; when the new PID is no shorter, it holds it from the first write on.
\<close>
theorem pid_file_is_never_empty:
  assumes "old \<noteq> []"
  shows "(\<forall>s \<in> set (write_pid_states pid old). s \<noteq> []) \<and> last (write_pid_states pid old) = show_nat pid
    \<and> (length old \<le> length (show_nat pid) \<longrightarrow> set (write_pid_states pid old) = {old, show_nat pid})"
  using assms show_nat_nonempty [of pid]
  by (auto simp: write_pid_states_def pwrite_prefix pwrite_at_zero_def Let_def)

theorem pid_file_is_never_empty_witness:
  "last (write_pid_states 999 ''12345'') = ''999'' \<and> [] \<notin> set (write_pid_states 999 ''12345'')"
proof -
  have "show_nat 999 = ''999''" by code_simp
  then show ?thesis using pid_file_is_never_empty [of "''12345''" 999] by auto
qed

text \<open>Between the write and the cut the file can hold a number that is neither PID, and it parses.\<close>
theorem interrupted_pid_write_names_another_process:
  "map read_pid (write_pid_states 999 ''12345'') = [Some 12345, Some 99945, Some 999]"
proof -
  have "write_pid_states 999 ''12345'' = [''12345'', ''99945'', ''999'']" by code_simp
  moreover have "trim ''12345'' = ''12345''" "trim ''99945'' = ''99945''" "trim ''999'' = ''999''" by code_simp+
  ultimately show ?thesis
    by (simp add: read_pid_def parse_u32_def parse_u64_def digit_value_def Let_def)
qed

section \<open>The lock of the PID file\<close>

definition pid_lock_ok :: "pid_lock \<Rightarrow> bool" where
  "pid_lock_ok s \<longleftrightarrow>
    distinct (map fst (pf_held s)) \<and> (\<forall>(n, _) \<in> set (pf_held s). n < pf_fresh s)
    \<and> (\<forall>(_, n) \<in> set (pf_open s). n < pf_fresh s)
    \<and> (case pf_path s of Some n \<Rightarrow> n < pf_fresh s \<and> pf_fresh s \<le> pf_unlinked s + 1 | None \<Rightarrow> pf_fresh s \<le> pf_unlinked s)"

lemma pid_lock_ok_new: "pid_lock_ok no_pid_file"
  by (simp add: pid_lock_ok_def no_pid_file_def)

lemma pid_lock_ok_open: "pid_lock_ok s \<Longrightarrow> pid_lock_ok (open_pid p s)"
  by (force simp: pid_lock_ok_def open_pid_def dest!: set_update_in split: option.splits)

lemma pid_lock_ok_lock: "pid_lock_ok s \<Longrightarrow> pid_lock_ok (snd (try_lock_exclusive p s))"
proof -
  assume ok: "pid_lock_ok s"
  show ?thesis
  proof (cases "hm_get (pf_open s) p")
    case None
    then show ?thesis using ok by (simp add: try_lock_exclusive_def)
  next
    case (Some n)
    then have n: "n < pf_fresh s" using ok map_of_SomeD [OF Some] by (auto simp: pid_lock_ok_def)
    show ?thesis
      using ok n Some distinct_update [of "pf_held s" n p]
      by (auto simp: pid_lock_ok_def try_lock_exclusive_def dest!: set_update_in split: option.splits)
  qed
qed

lemma pid_lock_ok_unlock: "pid_lock_ok s \<Longrightarrow> pid_lock_ok (unlock_pid p s)"
  by (auto simp: pid_lock_ok_def unlock_pid_def distinct_map_filter dest!: set_delete_in split: option.splits)

lemma pid_lock_ok_unlink: "pid_lock_ok s \<Longrightarrow> pid_lock_ok (unlink_pid s)"
  by (auto simp: pid_lock_ok_def unlink_pid_def split: option.splits)

lemma pid_lock_ok_step: "pid_lock_ok s \<Longrightarrow> pid_lock_ok (pid_step e s)"
  by (cases e) (simp_all add: pid_lock_ok_open pid_lock_ok_lock pid_lock_ok_unlock pid_lock_ok_unlink)

lemma pid_lock_ok_steps: "pid_lock_ok s \<Longrightarrow> pid_lock_ok (fold pid_step es s)"
  by (induction es arbitrary: s) (auto intro: pid_lock_ok_step)

text \<open>
  The PID file keeps a second daemon out as long as nobody removes it: after any sequence of
  opens, lock attempts, unlocks and removals, the daemons that hold a lock are at most one more than
  the removals of the file.
\<close>
theorem pid_lock_excludes:
  "length (daemons_running (fold pid_step es no_pid_file)) \<le> pf_unlinked (fold pid_step es no_pid_file) + 1"
proof -
  let ?s = "fold pid_step es no_pid_file"
  have ok: "pid_lock_ok ?s" by (rule pid_lock_ok_steps [OF pid_lock_ok_new])
  have "set (map fst (pf_held ?s)) \<subseteq> {..< pf_fresh ?s}" using ok by (auto simp: pid_lock_ok_def)
  then have "card (set (map fst (pf_held ?s))) \<le> pf_fresh ?s"
    using card_mono [of "{..< pf_fresh ?s}" "set (map fst (pf_held ?s))"] by simp
  moreover have "card (set (map fst (pf_held ?s))) = length (pf_held ?s)"
    using ok distinct_card [of "map fst (pf_held ?s)"] by (simp add: pid_lock_ok_def)
  moreover have "pf_fresh ?s \<le> pf_unlinked ?s + 1" using ok by (auto simp: pid_lock_ok_def split: option.splits)
  ultimately show ?thesis by (simp add: daemons_running_def)
qed

text \<open>
  \<open>gw daemon stop\<close> lets two daemons run. It removes the PID file as soon as the shutdown is
  acknowledged; the daemon still drains, holding its lock on a file that has no name any more, and a
  start then makes a new file and locks that.
\<close>
theorem stop_then_start_runs_two_daemons:
  "daemons_running (fold pid_step [OpenPid 1, LockPid 1, UnlinkPid, OpenPid 2, LockPid 2] no_pid_file) = [1, 2]"
  by code_simp

text \<open>The daemon itself unlocks before it removes the file: two starts in between both succeed.\<close>
theorem unlock_before_unlink_runs_two_daemons:
  "daemons_running (fold pid_step [OpenPid 1, LockPid 1, OpenPid 2, UnlockPid 1, LockPid 2, UnlinkPid, OpenPid 3, LockPid 3]
     no_pid_file) = [2, 3]"
  by code_simp

section \<open>Examples\<close>

definition total_json :: home_json where
  "total_json =
     \<lparr>hj_history_json = su_history_json (example_surroundings id),
      hj_parse_history = su_parse_history (example_surroundings id), hj_flag_json = (\<lambda>_. ''{}''), hj_parse_flag = (\<lambda>_. None)\<rparr>"

lemma total_json_keeps: "keeps_history total_json"
  using example_keeps_total [of id] by (simp add: keeps_history_def keeps_total_def total_json_def)

definition start_at :: "nat \<Rightarrow> start_io" where
  "start_at t = \<lparr>st_floor = 0, st_instant = int t * NANOS, st_epoch = t, st_home = ''/g'', st_dirs = None, st_pid_open = None, st_pid_write = None, st_flag_write = None,
     st_persist = None, st_flag_remove = None, st_marker_write = None\<rparr>"

definition fresh_home :: home_files where
  "fresh_home = \<lparr>hf_marker = False, hf_flag = Absent, hf_history = Absent\<rparr>"

theorem worn_out_daemon_never_starts_witness:
  "fst (lives total_json [(start_at 10, None), (start_at 100000, None)]
     \<lparr>hf_marker = True, hf_flag = Absent, hf_history = Readable ''9''\<rparr>) = [False, False]"
proof -
  let ?h = "\<lparr>hf_marker = True, hf_flag = Absent, hf_history = Readable ''9''\<rparr>"
  have "parse_u64 ''9'' = Some 9" by (simp add: parse_u64_def digit_value_def Let_def)
  then have "total_in total_json ?h = 9"
    by (simp add: total_in_def file_total_def total_json_def example_surroundings_def)
  then have "fst (lives total_json [(start_at 10, None), (start_at 100000, None)] ?h)
      = replicate (length [(start_at 10, None :: stop_io option), (start_at 100000, None)]) False"
    by (intro worn_out_daemon_never_starts [OF total_json_keeps]) simp_all
  then show ?thesis by (simp del: lives.simps)
qed


theorem second_start_counts_as_a_crash_witness:
  "file_total (hj_parse_history total_json)
     (hf_history (snd (enter_daemon total_json (start_at 5) (Some ''7'') (fresh_home\<lparr>hf_marker := True\<rparr>)))) = 1"
proof -
  have l: "load_history (hj_parse_history total_json) (st_floor (start_at 5)) (st_instant (start_at 5)) (st_epoch (start_at 5))
      (hf_history (fresh_home\<lparr>hf_marker := True\<rparr>)) (detector_new 5 120 300) = Some (detector_new 5 120 300)"
    by (simp add: load_history_def fresh_home_def)
  show ?thesis
    using second_start_counts_as_a_crash [OF total_json_keeps _ _ _ _ l, of "''7''"]
    by (simp add: start_at_def fresh_home_def file_total_def)
qed

theorem failed_cleanup_leaves_the_marker_witness:
  "hf_marker (snd (leave_daemon \<lparr>sp_cleanup = Inl ''denied'', sp_marker_remove = None\<rparr> (fresh_home\<lparr>hf_marker := True\<rparr>)))"
  using failed_cleanup_leaves_the_marker [of "\<lparr>sp_cleanup = Inl ''denied'', sp_marker_remove = None\<rparr>" "''denied''"]
  by simp

end
