(* ===== verification/Orchestrator.thy ===== *)
theory Orchestrator
  imports Recovery Poll_Loop
begin

text \<open>
  Runs in the foreground (\<open>engine/single_session/orchestrator.rs\<close>): what is done about a session that
  an earlier process left (\<open>monitor/session_owner.rs\<close>), the name of the new session, and the loop
  that attempts a session, decides on its outcome and starts another. The attempt itself, clocks and
  files are what each round brings; the message of a result is given by what it is made from.
\<close>

section \<open>The owner of a session\<close>

record session_owner =
  so_gw_pid :: nat
  so_owner_session :: string
  so_plan_file :: string
  so_claude_pid :: nat
  so_started_at :: nat
  so_gw_start_time :: nat

datatype OwnerCheck =
    NoPrevious
  | OrphanedAlive session_owner
  | OrphanedStaleClaude session_owner
  | OrphanedDead session_owner

text \<open>What is found: the parsed file, living sessions and processes, and the outcome of removing it.\<close>

record owner_io =
  oo_parse :: "string \<Rightarrow> session_owner option"
  oo_has_session :: "string \<Rightarrow> bool"
  oo_pid_alive :: "nat \<Rightarrow> bool"
  oo_remove :: io_result

definition read_session_owner :: "owner_io \<Rightarrow> file_view \<Rightarrow> session_owner option" where
  "read_session_owner io f = (case f of Readable s \<Rightarrow> oo_parse io s | _ \<Rightarrow> None)"

definition remove_session_owner :: "io_result \<Rightarrow> file_view \<Rightarrow> file_view" where
  "remove_session_owner removal f = (if f \<noteq> Absent \<and> removal = None then Absent else f)"

definition write_session_owner ::
  "(session_owner \<Rightarrow> string) \<Rightarrow> io_result \<Rightarrow> session_owner \<Rightarrow> file_view \<Rightarrow> (string + unit) \<times> file_view" where
  "write_session_owner to_json result owner f =
    (case result of Some e \<Rightarrow> (Inl e, f) | None \<Rightarrow> (Inr (), Readable (to_json owner)))"

text \<open>Whether the process of the previous owner lives, or its PID was reused, is only logged.\<close>

definition check_previous_owner :: "owner_io \<Rightarrow> file_view \<Rightarrow> OwnerCheck \<times> file_view" where
  "check_previous_owner io f =
    (case read_session_owner io f of
       None \<Rightarrow> (NoPrevious, f)
     | Some owner \<Rightarrow>
         if \<not> oo_has_session io (so_owner_session owner)
         then (OrphanedDead owner, remove_session_owner (oo_remove io) f)
         else if oo_pid_alive io (so_claude_pid owner) then (OrphanedAlive owner, f)
         else (OrphanedStaleClaude owner, f))"

section \<open>Before the loop\<close>

fun trim_dot_slash :: "string \<Rightarrow> string" where
  "trim_dot_slash (a # b # s) = (if a = CHR ''.'' \<and> b = CHR ''/'' then trim_dot_slash s else a # b # s)"
| "trim_dot_slash s = s"

record preflight_io =
  pf_plan_exists :: bool
  pf_disk :: io_result
  pf_cleanup :: io_result
  pf_owner :: owner_io
  pf_kill :: io_result
  pf_remove_loop :: io_result

text \<open>What the preparation changes: the owner file, the loop state file and the sessions.\<close>

record workspace =
  ws_owner :: file_view
  ws_fs :: file_system
  ws_sessions :: "string list"

definition kill_owned :: "preflight_io \<Rightarrow> session_owner \<Rightarrow> workspace \<Rightarrow> workspace" where
  "kill_owned io owner w =
     w\<lparr>ws_sessions := kill_session (pf_kill io) (so_owner_session owner) (ws_sessions w),
       ws_owner := remove_session_owner (oo_remove (pf_owner io)) (ws_owner w)\<rparr>"

definition settle_owner :: "preflight_io \<Rightarrow> string \<Rightarrow> workspace \<Rightarrow> (string \<times> nat) option \<times> workspace" where
  "settle_owner io plan w =
    (case check_previous_owner (pf_owner io) (ws_owner w) of
       (NoPrevious, f) \<Rightarrow> (None, w\<lparr>ws_owner := f\<rparr>)
     | (OrphanedDead _, f) \<Rightarrow> (None, w\<lparr>ws_owner := f\<rparr>)
     | (OrphanedStaleClaude owner, f) \<Rightarrow> (None, kill_owned io owner (w\<lparr>ws_owner := f\<rparr>))
     | (OrphanedAlive owner, f) \<Rightarrow>
         if trim_dot_slash (so_plan_file owner) = trim_dot_slash plan
         then (Some (so_owner_session owner, so_claude_pid owner), w\<lparr>ws_owner := f\<rparr>)
         else (None, kill_owned io owner (w\<lparr>ws_owner := f\<rparr>)))"

definition settle_loop_state ::
  "preflight_io \<Rightarrow> path \<Rightarrow> string \<Rightarrow> (string \<times> nat) option \<Rightarrow> workspace \<Rightarrow> workspace" where
  "settle_loop_state io dir plan adopted w =
    (case active_state (read_arc_loop_state (ws_fs w (loop_file dir))) of
       None \<Rightarrow> w
     | Some s \<Rightarrow>
         if trim_dot_slash (ls_plan_file s) \<noteq> trim_dot_slash plan \<and> adopted = None \<and> pf_remove_loop io = None
         then w\<lparr>ws_fs := (ws_fs w)(loop_file dir := Absent)\<rparr> else w)"

definition prepare_run ::
  "preflight_io \<Rightarrow> path \<Rightarrow> string \<Rightarrow> workspace \<Rightarrow> (string + (string \<times> nat) option) \<times> workspace" where
  "prepare_run io dir plan w =
    (if \<not> pf_plan_exists io then (Inl (''Plan file not found: '' @ plan), w)
     else case pf_disk io of
       Some e \<Rightarrow> (Inl e, w)
     | None \<Rightarrow>
         (case pf_cleanup io of
            Some e \<Rightarrow> (Inl e, w)
          | None \<Rightarrow>
              let (adopted, w1) = settle_owner io plan w
              in (Inr adopted, settle_loop_state io dir plan adopted w1)))"

text \<open>
  The name of the session, from the stem of the plan's file name. Characters are code points here
  (\<open>alnum\<close> are the alphanumeric ones), since a check counts the bytes of the name.
\<close>

definition sanitize_stem :: "(nat \<Rightarrow> bool) \<Rightarrow> nat list \<Rightarrow> nat list" where
  "sanitize_stem alnum stem =
     take 40 (map (\<lambda>c. if alnum c \<or> c = 45 \<or> c = 95 then c else 45) stem)"

definition code_points :: "string \<Rightarrow> nat list" where
  "code_points s = map of_char s"

definition session_name_for :: "(nat \<Rightarrow> bool) \<Rightarrow> nat list \<Rightarrow> nat \<Rightarrow> nat list" where
  "session_name_for alnum stem epoch =
     code_points ''gw-'' @ sanitize_stem alnum stem @ code_points (CHR ''-'' # show_nat (epoch mod 1000000))"

definition utf8_len :: "nat \<Rightarrow> nat" where
  "utf8_len c = (if c < 128 then 1 else if c < 2048 then 2 else if c < 65536 then 3 else 4)"

definition validate_session_id :: "(nat \<Rightarrow> bool) \<Rightarrow> nat list \<Rightarrow> string + unit" where
  "validate_session_id alnum name =
    (let n = sum_list (map utf8_len name) in
     if n > 64 then Inl (''Session ID too long: '' @ show_nat n @ '' (max 64 chars)'')
     else if \<not> list_all (\<lambda>c. alnum c \<or> c = 45 \<or> c = 95) name then Inl ''Session ID contains invalid characters''
     else Inr ())"

section \<open>Attempts\<close>

datatype SessionOutcome =
    SessionCompleted
  | SessionCrashed string
  | SessionFailed string string
  | SessionTimeout
  | SessionStuck
  | SessionError ErrorClass string

text \<open>How a run ended, with what its message is made from.\<close>

datatype pipeline_end =
    TimeoutExceeded | TimeoutAdopted | TimeoutReported
  | CompletedWell | CompletedAdopted | AlreadyComplete
  | FatalError string | FatalAdopted string
  | PhaseFailed string string | PhaseFailedAdopted string string
  | CrashLoop nat string | CrashLoopStuck nat | CrashLoopError ErrorClass nat string
  | CrashLoopAdopted nat SessionOutcome
  | RetriesUsed nat ErrorClass string

record pipeline_result =
  pl_success :: bool
  pl_duration :: nat
  pl_crash_restarts :: u32
  pl_message :: pipeline_end
  pl_session_name :: string

text \<open>
  One round: the time since the start (nanoseconds), what the attempt or the monitoring of an adopted
  session gives (with the owner file the attempt wrote, if it got so far), how long it took, the clocks and files afterwards, and the outcomes of writes.
\<close>

record round =
  rn_elapsed :: nat
  rn_attempt :: "string \<Rightarrow> (string + SessionOutcome) \<times> file_view option"
  rn_monitor :: "string \<Rightarrow> nat \<Rightarrow> string + SessionOutcome"
  rn_duration :: nat
  rn_now :: instant
  rn_epoch :: nat
  rn_fs :: file_system
  rn_end :: nat
  rn_owner_write :: io_result
  rn_owner_json :: string
  rn_persist :: io_result
  rn_clear :: io_result
  rn_remove_owner :: io_result

record orchestra =
  oc_detector :: detector
  oc_first_run :: bool
  oc_adopt :: "(string \<times> nat) option"
  oc_owner :: file_view
  oc_history :: file_view
  oc_commands :: "string list"
  oc_waits :: "nat list"

record run_setup =
  rs_config :: session_config
  rs_plan :: string
  rs_session :: string
  rs_watchdog :: watchdog_config
  rs_floor :: int

definition arc_command_of :: "run_setup \<Rightarrow> string" where
  "arc_command_of R = build_arc_command (rs_plan R) (rs_config R)"

definition result_of :: "run_setup \<Rightarrow> round \<Rightarrow> bool \<Rightarrow> pipeline_end \<Rightarrow> orchestra \<Rightarrow> pipeline_result" where
  "result_of R e ok m s =
     \<lparr>pl_success = ok, pl_duration = rn_end e, pl_crash_restarts = cl_total_restarts (oc_detector s),
      pl_message = m, pl_session_name = rs_session R\<rparr>"

definition note_health :: "run_setup \<Rightarrow> round \<Rightarrow> orchestra \<Rightarrow> orchestra" where
  "note_health R e s =
    (if rn_duration e \<ge> wd_crash_stability_secs (rs_watchdog R) * 1000000000
     then s\<lparr>oc_detector := record_healthy_tick (rn_now e) (oc_detector s)\<rparr> else s)"

definition forget_run :: "round \<Rightarrow> orchestra \<Rightarrow> orchestra" where
  "forget_run e s =
     s\<lparr>oc_owner := remove_session_owner (rn_remove_owner e) (oc_owner s),
       oc_history := (if rn_clear e = None then Absent else oc_history s)\<rparr>"

definition clear_crashes :: "round \<Rightarrow> orchestra \<Rightarrow> orchestra" where
  "clear_crashes e s = s\<lparr>oc_history := (if rn_clear e = None then Absent else oc_history s)\<rparr>"

definition count_restart ::
  "run_setup \<Rightarrow> round \<Rightarrow> string option \<Rightarrow> orchestra \<Rightarrow> CrashLoopDecision \<times> orchestra" where
  "count_restart R e phase s =
    (case record_restart_for_phase (rs_floor R) (rn_now e) phase (oc_detector s) of
       (dec, d) \<Rightarrow> (dec, s\<lparr>oc_detector := d, oc_first_run := False\<rparr>))"

definition wait_for :: "nat \<Rightarrow> orchestra \<Rightarrow> orchestra" where
  "wait_for secs s = s\<lparr>oc_waits := oc_waits s @ [secs]\<rparr>"

definition crashes_seen :: "orchestra \<Rightarrow> nat" where
  "crashes_seen s = length (cl_crash_times (oc_detector s))"

definition cooldown :: "run_setup \<Rightarrow> nat" where
  "cooldown R = wd_restart_cooldown_secs (rs_watchdog R)"

text \<open>Outcomes of an adopted session.\<close>

definition after_adopted ::
  "('v, 'j) surroundings \<Rightarrow> run_setup \<Rightarrow> round \<Rightarrow> SessionOutcome \<Rightarrow> orchestra \<Rightarrow>
    (string + pipeline_result) option \<times> orchestra" where
  "after_adopted S R e out s =
    (let retry =
       (\<lambda>_. case count_restart R e
                (current_phase_from_checkpoint (su_parse_json S) (su_from_value S) (rn_fs e) (sc_working_dir (rs_config R))) s of
          (StopCrashLoop, s1) \<Rightarrow> (Some (Inr (result_of R e False (CrashLoopAdopted (crashes_seen s1) out) s1)), s1)
        | (AllowRestart, s1) \<Rightarrow> (None, wait_for (cooldown R) s1))
     in case out of
       SessionCompleted \<Rightarrow>
         let s1 = forget_run e s in (Some (Inr (result_of R e True CompletedAdopted s1)), s1)
     | SessionError c reason \<Rightarrow>
         if skips_plan c then (Some (Inr (result_of R e False (FatalAdopted reason) s)), s) else retry ()
     | SessionTimeout \<Rightarrow> (Some (Inr (result_of R e False TimeoutAdopted s)), s)
     | SessionFailed p reason \<Rightarrow> (Some (Inr (result_of R e False (PhaseFailedAdopted p reason) s)), s)
     | _ \<Rightarrow> retry ())"

text \<open>Outcomes of an attempt.\<close>

definition after_attempt ::
  "('v, 'j) surroundings \<Rightarrow> run_setup \<Rightarrow> round \<Rightarrow> SessionOutcome \<Rightarrow> orchestra \<Rightarrow>
    (string + pipeline_result) option \<times> orchestra" where
  "after_attempt S R e out s =
    (case out of
       SessionCompleted \<Rightarrow>
         let s1 = forget_run e s in (Some (Inr (result_of R e True CompletedWell s1)), s1)
     | SessionFailed p reason \<Rightarrow> (Some (Inr (result_of R e False (PhaseFailed p reason) s)), s)
     | SessionTimeout \<Rightarrow> (Some (Inr (result_of R e False TimeoutReported s)), s)
     | SessionCrashed reason \<Rightarrow>
         (case count_restart R e None s of
            (StopCrashLoop, s1) \<Rightarrow>
              let s2 = clear_crashes e s1 in (Some (Inr (result_of R e False (CrashLoop (crashes_seen s2) reason) s2)), s2)
          | (AllowRestart, s1) \<Rightarrow> (None, wait_for (cooldown R) s1))
     | SessionStuck \<Rightarrow>
         (case count_restart R e None s of
            (StopCrashLoop, s1) \<Rightarrow> (Some (Inr (result_of R e False (CrashLoopStuck (crashes_seen s1)) s1)), s1)
          | (AllowRestart, s1) \<Rightarrow> (None, wait_for (cooldown R) s1))
     | SessionError c reason \<Rightarrow>
         if skips_plan c then (Some (Inr (result_of R e False (FatalError reason) s)), s)
         else
           (case count_restart R e None s of
              (StopCrashLoop, s1) \<Rightarrow> (Some (Inr (result_of R e False (CrashLoopError c (crashes_seen s1) reason) s1)), s1)
            | (AllowRestart, s1) \<Rightarrow>
                let n = unat (cl_total_restarts (oc_detector s1)) in
                if n \<ge> max_retries c then (Some (Inr (result_of R e False (RetriesUsed n c reason) s1)), s1)
                else
                  let s2 = s1\<lparr>oc_history := snd (persist (su_history_json S) (rn_persist e) (rn_now e) (rn_epoch e)
                                 (oc_detector s1) (oc_history s1))\<rparr>
                  in (None, wait_for (backoff_for_attempt c (n - 1)) s2)))"

text \<open>The command of the next attempt, or none when the pipeline is found complete.\<close>

definition next_command :: "('v, 'j) surroundings \<Rightarrow> run_setup \<Rightarrow> round \<Rightarrow> orchestra \<Rightarrow> string option" where
  "next_command S R e s =
    (if oc_first_run s then Some (arc_command_of R)
     else case resolve_restart_command (su_parse_json S) (su_from_value S) (rn_fs e) (sc_working_dir (rs_config R))
                 (rs_plan R) (rs_config R) (arc_command_of R) of
       Fresh cmd \<Rightarrow> Some cmd
     | ResumeWith cmd \<Rightarrow> Some cmd
     | AlreadyDone \<Rightarrow> None)"

definition run_round ::
  "('v, 'j) surroundings \<Rightarrow> run_setup \<Rightarrow> round \<Rightarrow> orchestra \<Rightarrow> (string + pipeline_result) option \<times> orchestra" where
  "run_round S R e s =
    (if rn_elapsed e > sc_pipeline_timeout (rs_config R) * 1000000000
     then (Some (Inr (result_of R e False TimeoutExceeded s)), s)
     else case oc_adopt s of
       Some (name, pid) \<Rightarrow>
         let s1 = s\<lparr>oc_adopt := None,
                    oc_owner := (if rn_owner_write e = None then Readable (rn_owner_json e) else oc_owner s)\<rparr>
         in (case rn_monitor e name pid of
               Inl err \<Rightarrow> (Some (Inl err), s1)
             | Inr out \<Rightarrow> after_adopted S R e out (note_health R e s1))
     | None \<Rightarrow>
         (case next_command S R e s of
            None \<Rightarrow> let s1 = forget_run e s in (Some (Inr (result_of R e True AlreadyComplete s1)), s1)
          | Some cmd \<Rightarrow>
              let s1 = s\<lparr>oc_commands := oc_commands s @ [cmd]\<rparr> in
              (case rn_attempt e cmd of
                 (res, wrote) \<Rightarrow>
                   let s2 = (case wrote of Some f \<Rightarrow> s1\<lparr>oc_owner := f\<rparr> | None \<Rightarrow> s1) in
                   (case res of
                      Inl err \<Rightarrow> (Some (Inl err), s2)
                    | Inr out \<Rightarrow> after_attempt S R e out (note_health R e s2)))))"

fun run_rounds ::
  "('v, 'j) surroundings \<Rightarrow> run_setup \<Rightarrow> round list \<Rightarrow> orchestra \<Rightarrow> (string + pipeline_result) option \<times> orchestra" where
  "run_rounds S R [] s = (None, s)"
| "run_rounds S R (e # es) s =
    (case run_round S R e s of (Some out, s') \<Rightarrow> (Some out, s') | (None, s') \<Rightarrow> run_rounds S R es s')"

interpretation orc: poll_loop "run_round S R" "run_rounds S R"
  by unfold_locales simp_all

definition orchestra_new :: "detector \<Rightarrow> (string \<times> nat) option \<Rightarrow> file_view \<Rightarrow> file_view \<Rightarrow> orchestra" where
  "orchestra_new d adopted owner history =
     \<lparr>oc_detector = d, oc_first_run = True, oc_adopt = adopted, oc_owner = owner, oc_history = history,
      oc_commands = [], oc_waits = []\<rparr>"

text \<open>A run: the preparation, the detector with the history on disk, and the rounds.\<close>

definition run_single_session ::
  "('v, 'j) surroundings \<Rightarrow> run_setup \<Rightarrow> preflight_io \<Rightarrow> instant \<Rightarrow> nat \<Rightarrow> file_view \<Rightarrow> round list \<Rightarrow> workspace \<Rightarrow>
    (string + pipeline_result) option" where
  "run_single_session S R io now epoch history es w =
    (case prepare_run io (sc_working_dir (rs_config R)) (rs_plan R) w of
       (Inl e, _) \<Rightarrow> Some (Inl e)
     | (Inr adopted, w1) \<Rightarrow>
         (case load_history (su_parse_history S) (rs_floor R) now epoch history (from_watchdog (rs_watchdog R)) of
            None \<Rightarrow> Some (Inl ''panicked'')
          | Some d \<Rightarrow> fst (run_rounds S R es (orchestra_new d adopted (ws_owner w1) history))))"

text \<open>A batch stops after the first plan that fails; an error ends it with no results.\<close>

fun run_batch :: "(string \<Rightarrow> string + pipeline_result) \<Rightarrow> string list \<Rightarrow> string + pipeline_result list" where
  "run_batch run [] = Inr []"
| "run_batch run (p # ps) =
    (case run p of
       Inl e \<Rightarrow> Inl e
     | Inr res \<Rightarrow> if pl_success res then map_sum id (Cons res) (run_batch run ps) else Inr [res])"


section \<open>The run ends\<close>

lemma restart_unhealthy:
  "record_restart_for_phase fl i ph d = (dec, d') \<Longrightarrow> cl_healthy_since d' = None"
proof -
  assume r: "record_restart_for_phase fl i ph d = (dec, d')"
  let ?d1 = "d\<lparr>cl_total_restarts := cl_total_restarts d + 1, cl_crash_times := cl_crash_times d @ [i],
                cl_healthy_since := None\<rparr>"
  have keeps: "cl_healthy_since (fst (attribute_crash ph x)) = cl_healthy_since x" for x
    by (simp add: attribute_crash_def record_phase_transition_def Let_def split: option.split)
  obtain d2 n where ac: "attribute_crash ph ?d1 = (d2, n)" by fastforce
  have "cl_healthy_since d2 = None" using keeps [of ?d1] by (simp add: ac)
  then show ?thesis using r unfolding record_restart_for_phase_def Let_def ac prod.case
    by (auto simp: prune_def Let_def split: if_splits)
qed

lemma count_restart_goes_on:
  "count_restart R e ph s = (AllowRestart, s') \<Longrightarrow>
    record_restart_for_phase (rs_floor R) (rn_now e) ph (oc_detector s) = (AllowRestart, oc_detector s')
    \<and> oc_history s' = oc_history s"
  by (auto simp: count_restart_def split: prod.splits)

lemma wait_for_keeps [simp]: "oc_detector (wait_for n s) = oc_detector s" "oc_history (wait_for n s) = oc_history s"
  by (simp_all add: wait_for_def)

text \<open>A round goes on only by a restart that the detector allows, from the detector with or without a tick.\<close>

lemma after_attempt_goes_on:
  assumes "after_attempt S R e out s = (None, s')"
  shows "record_restart_for_phase (rs_floor R) (rn_now e) None (oc_detector s) = (AllowRestart, oc_detector s')"
  using assms
  by (auto simp: after_attempt_def Let_def dest!: count_restart_goes_on
      split: SessionOutcome.splits prod.splits CrashLoopDecision.splits if_splits)

lemma after_adopted_goes_on:
  assumes "after_adopted S R e out s = (None, s')"
  shows "\<exists>ph. record_restart_for_phase (rs_floor R) (rn_now e) ph (oc_detector s) = (AllowRestart, oc_detector s')"
  using assms
  by (auto simp: after_adopted_def Let_def dest!: count_restart_goes_on
      split: SessionOutcome.splits prod.splits CrashLoopDecision.splits if_splits)

lemma note_health_cases:
  "oc_detector (note_health R e s) \<in> {oc_detector s, record_healthy_tick (rn_now e) (oc_detector s)}"
  by (simp add: note_health_def)

lemma round_goes_on:
  assumes "run_round S R e s = (None, s')"
  shows "\<exists>d ph. d \<in> {oc_detector s, record_healthy_tick (rn_now e) (oc_detector s)}
    \<and> record_restart_for_phase (rs_floor R) (rn_now e) ph d = (AllowRestart, oc_detector s')"
proof -
  have tick: "oc_detector s1 = oc_detector s \<Longrightarrow>
      record_restart_for_phase (rs_floor R) (rn_now e) ph (oc_detector (note_health R e s1)) = (AllowRestart, oc_detector s') \<Longrightarrow>
      ?thesis" for s1 ph
    using note_health_cases [of R e s1] by auto
  show ?thesis
  proof (cases "oc_adopt s")
    case (Some a)
    obtain name pid where a: "a = (name, pid)" by (cases a)
    let ?s1 = "s\<lparr>oc_adopt := None, oc_owner := (if rn_owner_write e = None then Readable (rn_owner_json e) else oc_owner s)\<rparr>"
    have "\<not> rn_elapsed e > sc_pipeline_timeout (rs_config R) * 1000000000"
      using assms by (auto simp: run_round_def)
    then have "run_round S R e s = (case rn_monitor e name pid of Inl err \<Rightarrow> (Some (Inl err), ?s1)
        | Inr out \<Rightarrow> after_adopted S R e out (note_health R e ?s1))"
      by (simp add: run_round_def Some a Let_def)
    with assms obtain out where "after_adopted S R e out (note_health R e ?s1) = (None, s')"
      by (cases "rn_monitor e name pid") simp_all
    from after_adopted_goes_on [OF this] obtain ph where
      "record_restart_for_phase (rs_floor R) (rn_now e) ph (oc_detector (note_health R e ?s1)) = (AllowRestart, oc_detector s')" ..
    then show ?thesis by (rule tick [rotated]) simp
  next
    case None
    obtain out s1 where "oc_detector s1 = oc_detector s"
      and "after_attempt S R e out (note_health R e s1) = (None, s')"
    proof -
      obtain cmd where cmd: "next_command S R e s = Some cmd"
        using assms None by (auto simp: run_round_def Let_def split: if_splits option.splits)
      obtain res wrote where at: "rn_attempt e cmd = (res, wrote)" by (cases "rn_attempt e cmd")
      let ?s1 = "s\<lparr>oc_commands := oc_commands s @ [cmd]\<rparr>"
      let ?s2 = "case wrote of Some f \<Rightarrow> ?s1\<lparr>oc_owner := f\<rparr> | None \<Rightarrow> ?s1"
      have d: "oc_detector ?s2 = oc_detector s" by (simp split: option.split)
      obtain out where "res = Inr out" "after_attempt S R e out (note_health R e ?s2) = (None, s')"
        using assms None cmd at by (auto simp: run_round_def Let_def split: if_splits sum.splits)
      then show ?thesis using that d by blast
    qed
    then show ?thesis by (intro tick [OF _ after_attempt_goes_on])
  qed
qed

lemma tick_limit [simp]: "cl_max_total_restarts (record_healthy_tick i d) = cl_max_total_restarts d"
  by (simp add: record_healthy_tick_def forget_crashes_def split: option.split)

lemma tick_first [simp]: "cl_healthy_since d = None \<Longrightarrow> cl_total_restarts (record_healthy_tick i d) = cl_total_restarts d"
  by (simp add: record_healthy_tick_def)

definition restarts_of :: "orchestra \<Rightarrow> nat" where
  "restarts_of s = unat (cl_total_restarts (oc_detector s))"

definition limit_in :: "orchestra \<Rightarrow> nat" where
  "limit_in s = unat (cl_max_total_restarts (oc_detector s))"

lemma limit_small: "limit_in s < 2 ^ 32"
proof -
  have "unat (cl_max_total_restarts (oc_detector s)) < 2 ^ LENGTH(32)" by (rule unsigned_less)
  then show ?thesis by (simp add: limit_in_def)
qed

lemma round_counts:
  assumes "run_round S R e s = (None, s')"
  shows "restarts_of s' < limit_in s" and "limit_in s' = limit_in s" and "cl_healthy_since (oc_detector s') = None"
    and "cl_healthy_since (oc_detector s) = None \<Longrightarrow> restarts_of s < limit_in s \<Longrightarrow> restarts_of s' = restarts_of s + 1"
proof -
  from round_goes_on [OF assms] obtain d ph where d: "d \<in> {oc_detector s, record_healthy_tick (rn_now e) (oc_detector s)}"
    and r: "record_restart_for_phase (rs_floor R) (rn_now e) ph d = (AllowRestart, oc_detector s')" by blast
  note a = allowed_restart [OF r]
  have lim: "cl_max_total_restarts d = cl_max_total_restarts (oc_detector s)" using d by auto
  show "restarts_of s' < limit_in s" using a lim by (simp add: restarts_of_def limit_in_def word_less_nat_alt)
  show "limit_in s' = limit_in s" using a lim by (simp add: limit_in_def)
  show "cl_healthy_since (oc_detector s') = None" by (rule restart_unhealthy [OF r])
  assume h: "cl_healthy_since (oc_detector s) = None" and low: "restarts_of s < limit_in s"
  have tot: "cl_total_restarts d = cl_total_restarts (oc_detector s)" using d h by auto
  have "restarts_of s + 1 < 2 ^ 32"
    using low limit_small [of s] by simp
  then show "restarts_of s' = restarts_of s + 1"
    using a(1) tot by (simp add: restarts_of_def unat_plus_simple [THEN iffD1] no_olen_add_nat)
qed

lemma rounds_count:
  assumes "run_rounds S R es s = (None, s')" and "cl_healthy_since (oc_detector s) = None" and "restarts_of s < limit_in s"
  shows "restarts_of s' = restarts_of s + length es \<and> restarts_of s' < limit_in s"
  using assms
proof (induction es arbitrary: s)
  case (Cons e es)
  obtain s1 where r: "run_round S R e s = (None, s1)" and rest: "run_rounds S R es s1 = (None, s')"
    using Cons.prems(1) by (auto split: prod.splits option.splits)
  note c = round_counts [OF r]
  have "restarts_of s' = restarts_of s1 + length es \<and> restarts_of s' < limit_in s1"
    by (rule Cons.IH [OF rest]) (use c in auto)
  then show ?case using c Cons.prems by simp
qed simp


text \<open>
  Time that a session runs well is not taken off the count: the tick that is to clear it comes once
  per attempt, and every restart starts the healthy period over. After any number of restarts of a
  run with no history the count is that number, however long each attempt lasted.
\<close>
theorem healthy_attempts_do_not_clear_the_count:
  assumes "run_rounds S R es s = (None, s')" and "cl_healthy_since (oc_detector s) = None"
    and "cl_total_restarts (oc_detector s) = 0" and "es \<noteq> []"
  shows "unat (cl_total_restarts (oc_detector s')) = length es"
proof -
  obtain e es' where es: "es = e # es'" using assms(4) by (cases es) auto
  with assms(1) obtain s1 where "run_round S R e s = (None, s1)" by (auto split: prod.splits option.splits)
  from round_counts(1) [OF this] have "0 < limit_in s" by simp
  then show ?thesis using rounds_count [OF assms(1,2)] assms(3) by (simp add: restarts_of_def)
qed

section \<open>How it ends\<close>

lemma success_of_round:
  assumes "run_round S R e s = (Some (Inr res), s')" and "pl_success res"
  shows "(\<exists>name pid. oc_adopt s = Some (name, pid) \<and> rn_monitor e name pid = Inr SessionCompleted)
    \<or> (\<exists>cmd. next_command S R e s = Some cmd \<and> fst (rn_attempt e cmd) = Inr SessionCompleted)
    \<or> (\<not> oc_first_run s \<and> resolve_restart_command (su_parse_json S) (su_from_value S) (rn_fs e)
          (sc_working_dir (rs_config R)) (rs_plan R) (rs_config R) (arc_command_of R) = AlreadyDone)"
proof -
  have adopted: "out = SessionCompleted" if "after_adopted S R e out t = (Some (Inr res), s')" for out t
    using that assms(2)
    by (auto simp: after_adopted_def Let_def result_of_def
        split: SessionOutcome.splits prod.splits CrashLoopDecision.splits if_splits)
  have attempt: "out = SessionCompleted" if "after_attempt S R e out t = (Some (Inr res), s')" for out t
    using that assms(2)
    by (auto simp: after_attempt_def Let_def result_of_def
        split: SessionOutcome.splits prod.splits CrashLoopDecision.splits if_splits)
  show ?thesis
  proof (cases "oc_adopt s")
    case (Some a)
    then show ?thesis using assms adopted
      by (cases a) (auto simp: run_round_def Let_def result_of_def split: if_splits sum.splits)
  next
    case None
    show ?thesis
    proof (cases "next_command S R e s")
      case none: None
      then show ?thesis by (auto simp: next_command_def split: if_splits RestartDecision.splits)
    next
      case (Some cmd)
      obtain r wrote where at: "rn_attempt e cmd = (r, wrote)" by (cases "rn_attempt e cmd")
      then have "r = Inr SessionCompleted"
        using assms None Some attempt
        by (auto simp: run_round_def Let_def result_of_def split: if_splits sum.splits)
      then show ?thesis using Some at by auto
    qed
  qed
qed

text \<open>
  A run succeeds only when an attempt or the adopted session reported completion, or a restart
  found the pipeline complete in the checkpoint.
\<close>
theorem success_needs_completion:
  assumes "run_rounds S R es s = (Some (Inr res), s')" and "pl_success res"
  shows "\<exists>e \<in> set es. (\<exists>name pid. rn_monitor e name pid = Inr SessionCompleted)
    \<or> (\<exists>cmd. fst (rn_attempt e cmd) = Inr SessionCompleted)
    \<or> resolve_restart_command (su_parse_json S) (su_from_value S) (rn_fs e)
          (sc_working_dir (rs_config R)) (rs_plan R) (rs_config R) (arc_command_of R) = AlreadyDone"
proof -
  from orc.loop_outcome [of "\<lambda>_. True", OF _ _ assms(1)] obtain e t
    where e: "e \<in> set es" "run_round S R e t = (Some (Inr res), s')" by auto
  from success_of_round [OF e(2) assms(2)] e(1) show ?thesis by blast
qed


text \<open>
  An error that may be retried ends the run as soon as the restarts of all kinds reach its
  limit: the count is not that of its class.
\<close>
theorem error_ends_a_restarted_run:
  assumes "\<not> skips_plan c" and "max_retries c \<le> unat (cl_total_restarts (oc_detector s) + 1)"
  shows "fst (after_attempt S R e (SessionError c reason) s) \<noteq> None"
proof -
  obtain dec s1 where r: "count_restart R e None s = (dec, s1)" by (cases "count_restart R e None s")
  show ?thesis
  proof (cases dec)
    case AllowRestart
    then have "cl_total_restarts (oc_detector s1) = cl_total_restarts (oc_detector s) + 1"
      using count_restart_goes_on [of R e None s s1] r allowed_restart(1) by blast
    then show ?thesis using r AllowRestart assms by (simp add: after_attempt_def)
  next
    case StopCrashLoop
    then show ?thesis using r assms(1) by (simp add: after_attempt_def)
  qed
qed

text \<open>
  Crashes are not written to the history: a run killed after any number of crashes and stuck
  sessions leaves the file as it found it.
\<close>

definition crashes_only :: "round \<Rightarrow> bool" where
  "crashes_only e \<longleftrightarrow>
    (\<forall>cmd out. fst (rn_attempt e cmd) = Inr out \<longrightarrow> out = SessionStuck \<or> (\<exists>reason. out = SessionCrashed reason))"

lemma after_crash_keeps_history:
  assumes "after_attempt S R e out s = (None, s')" and "out = SessionStuck \<or> (\<exists>reason. out = SessionCrashed reason)"
  shows "oc_history s' = oc_history s"
  using assms
  by (auto simp: after_attempt_def Let_def dest!: count_restart_goes_on split: prod.splits CrashLoopDecision.splits)

lemma after_adopted_keeps_history:
  "after_adopted S R e out s = (None, s') \<Longrightarrow> oc_history s' = oc_history s"
  by (auto simp: after_adopted_def Let_def dest!: count_restart_goes_on
      split: SessionOutcome.splits prod.splits CrashLoopDecision.splits if_splits)

lemma note_health_history [simp]: "oc_history (note_health R e s) = oc_history s"
  by (simp add: note_health_def)

lemma round_keeps_history:
  assumes "run_round S R e s = (None, s')" and "crashes_only e"
  shows "oc_history s' = oc_history s"
proof -
  have early: "\<not> rn_elapsed e > sc_pipeline_timeout (rs_config R) * 1000000000"
    using assms(1) by (auto simp: run_round_def)
  show ?thesis
  proof (cases "oc_adopt s")
    case (Some a)
    obtain name pid where a: "a = (name, pid)" by (cases a)
    show ?thesis using assms(1) early Some a
      by (cases "rn_monitor e name pid") (auto simp: run_round_def Let_def dest: after_adopted_keeps_history)
  next
    case None
    obtain cmd where cmd: "next_command S R e s = Some cmd"
      using assms(1) None early by (auto simp: run_round_def Let_def split: option.splits)
    obtain res wrote where at: "rn_attempt e cmd = (res, wrote)" by (cases "rn_attempt e cmd")
    obtain out where out: "res = Inr out" using assms(1) None early cmd at
      by (cases res) (auto simp: run_round_def Let_def)
    then have "out = SessionStuck \<or> (\<exists>reason. out = SessionCrashed reason)"
      using assms(2) at by (auto simp: crashes_only_def dest: spec [of _ cmd])
    from after_crash_keeps_history [OF _ this, of S R e "note_health R e _"] assms(1) None early cmd at out
    show ?thesis by (auto simp: run_round_def Let_def split: option.splits)
  qed
qed

theorem crashes_are_not_persisted:
  "run_rounds S R es s = (None, s') \<Longrightarrow> \<forall>e \<in> set es. crashes_only e \<Longrightarrow> oc_history s' = oc_history s"
proof (induction es arbitrary: s)
  case (Cons e es)
  obtain s1 where "run_round S R e s = (None, s1)" "run_rounds S R es s1 = (None, s')"
    using Cons.prems(1) by (auto split: prod.splits option.splits)
  then show ?case using Cons round_keeps_history by fastforce
qed simp

section \<open>Adoption\<close>

text \<open>
  C31: A session is adopted only when its owner file names it for the same plan and it and its Claude
  process live; a living session that is not adopted is killed before the loop starts (when the
  kill succeeds), and its owner file removed.
\<close>
theorem only_the_own_session_is_adopted:
  assumes "prepare_run io dir plan w = (Inr adopted, w')"
    and "read_session_owner (pf_owner io) (ws_owner w) = Some owner"
    and "pf_kill io = None" and "oo_remove (pf_owner io) = None"
  shows "adopted = (if oo_has_session (pf_owner io) (so_owner_session owner) \<and> oo_pid_alive (pf_owner io) (so_claude_pid owner)
                \<and> trim_dot_slash (so_plan_file owner) = trim_dot_slash plan
              then Some (so_owner_session owner, so_claude_pid owner) else None)
    \<and> (adopted = None \<and> oo_has_session (pf_owner io) (so_owner_session owner) \<longrightarrow>
         so_owner_session owner \<notin> set (ws_sessions w') \<and> ws_owner w' = Absent)"
proof -
  have keep: "ws_sessions (settle_loop_state io dir plan a x) = ws_sessions x"
    "ws_owner (settle_loop_state io dir plan a x) = ws_owner x" for a x
    by (simp_all add: settle_loop_state_def split: option.split)
  obtain w1 where "settle_owner io plan w = (adopted, w1)" and w': "w' = settle_loop_state io dir plan adopted w1"
    using assms(1) by (auto simp: prepare_run_def split: if_splits option.splits prod.splits)
  then show ?thesis using assms(2-4)
    by (auto simp: settle_owner_def check_previous_owner_def kill_owned_def remove_session_owner_def kill_session_def keep
        split: if_splits)
qed

section \<open>Session names\<close>

lemma length_show_nat: "n < 10 ^ k \<Longrightarrow> 0 < k \<Longrightarrow> length (show_nat n) \<le> k"
proof (induction k arbitrary: n)
  case (Suc k)
  show ?case
  proof (cases "n < 10")
    case True
    then show ?thesis by (subst show_nat.simps) simp
  next
    case False
    then have "0 < k" and "n div 10 < 10 ^ k" using Suc.prems by (cases k; simp add: less_mult_imp_div_less mult.commute)+
    from Suc.IH [OF this(2,1)] show ?thesis using False by (subst show_nat.simps) simp
  qed
qed simp

lemma ascii_bytes: "\<forall>c \<in> set xs. c < 128 \<Longrightarrow> sum_list (map utf8_len xs) = length xs"
  by (induction xs) (auto simp: utf8_len_def)

lemma digits_ascii: "c \<in> set (code_points (show_nat n)) \<Longrightarrow> 48 \<le> c \<and> c \<le> 57"
  by (auto simp: code_points_def dest!: show_nat_digits)

text \<open>The session name made from an ASCII plan name is always accepted when the session is spawned.\<close>
theorem ascii_names_are_accepted:
  assumes "\<forall>c. 48 \<le> c \<and> c \<le> 57 \<or> 97 \<le> c \<and> c \<le> 122 \<longrightarrow> alnum c" and "\<forall>c \<in> set stem. c < 128"
  shows "validate_session_id alnum (session_name_for alnum stem epoch) = Inr ()"
proof -
  let ?name = "session_name_for alnum stem epoch"
  have num: "length (show_nat (epoch mod 1000000)) \<le> 6" by (rule length_show_nat) simp_all
  have set_take: "set (sanitize_stem alnum stem) \<subseteq> (\<lambda>c. if alnum c \<or> c = 45 \<or> c = 95 then c else 45) ` set stem"
    unfolding sanitize_stem_def by (metis set_map set_take_subset)
  have gw: "code_points ''gw-'' = [103, 119, 45]" by (simp add: code_points_def)
  have dash: "code_points (CHR ''-'' # show_nat n) = 45 # code_points (show_nat n)" for n by (simp add: code_points_def)
  have "\<forall>c \<in> set ?name. c < 128" using set_take assms(2) digits_ascii
    by (fastforce simp: session_name_for_def gw dash split: if_splits)
  then have "sum_list (map utf8_len ?name) = length ?name" by (rule ascii_bytes)
  moreover have "length ?name \<le> 50" using num
    by (simp add: session_name_for_def gw dash sanitize_stem_def code_points_def)
  moreover have "list_all (\<lambda>c. alnum c \<or> c = 45 \<or> c = 95) ?name"
    using set_take assms(1) digits_ascii [of _ "epoch mod 1000000"]
    by (fastforce simp: session_name_for_def gw dash list_all_iff split: if_splits)
  ultimately show ?thesis by (simp add: validate_session_id_def Let_def)
qed

text \<open>
  A plan named with twenty-one characters of three bytes gets a name that every spawn refuses: the stem is cut to forty
  characters, the check counts bytes.
\<close>
theorem long_names_are_refused:
  "isl (validate_session_id (\<lambda>_. True) (session_name_for (\<lambda>_. True) (replicate 21 26085) 7))"
proof -
  have "sum_list (map utf8_len (code_points ''gw-'')) = 3" by (simp add: code_points_def utf8_len_def)
  moreover have "sanitize_stem (\<lambda>_. True) (replicate 21 26085) = replicate 21 26085"
    by (simp add: sanitize_stem_def map_replicate take_replicate)
  moreover have "sum_list (map utf8_len (replicate 21 26085)) = 63"
    by (simp only: map_replicate sum_list_replicate) (simp add: utf8_len_def)
  ultimately show ?thesis by (simp add: validate_session_id_def session_name_for_def Let_def)
qed

section \<open>Batches\<close>

text \<open>A batch runs the plans in order up to the first that fails, and that one only can be a failure.\<close>
theorem batch_stops_at_the_first_failure:
  "run_batch run ps = Inr rs \<Longrightarrow>
    length rs \<le> length ps \<and> map run (take (length rs) ps) = map Inr rs
    \<and> (\<forall>r \<in> set (butlast rs). pl_success r) \<and> (length rs < length ps \<longrightarrow> rs \<noteq> [] \<and> \<not> pl_success (last rs))"
proof (induction ps arbitrary: rs)
  case (Cons p ps)
  obtain r where r: "run p = Inr r" using Cons.prems by (cases "run p") auto
  show ?case
  proof (cases "pl_success r")
    case True
    obtain rs' where rs': "run_batch run ps = Inr rs'" "rs = r # rs'"
      using Cons.prems r True by (cases "run_batch run ps") auto
    show ?thesis using Cons.IH [OF rs'(1)] r rs' True by auto
  next
    case False
    then show ?thesis using Cons.prems r by auto
  qed
qed simp


section \<open>Examples\<close>

definition example_setup :: run_setup where
  "example_setup =
     \<lparr>rs_config = session_config_new 100 ''/r'', rs_plan = ''a.md'', rs_session = ''gw-a-7'',
      rs_watchdog = su_watchdog quick_surroundings, rs_floor = 0\<rparr>"

definition round_with :: "SessionOutcome \<Rightarrow> nat \<Rightarrow> round" where
  "round_with out duration =
     \<lparr>rn_elapsed = 0, rn_attempt = (\<lambda>_. (Inr out, None)), rn_monitor = (\<lambda>_ _. Inr out), rn_duration = duration,
      rn_now = 5, rn_epoch = 5, rn_fs = (\<lambda>_. Absent), rn_end = 1, rn_owner_write = None, rn_owner_json = ''{}'',
      rn_persist = None, rn_clear = None, rn_remove_owner = None\<rparr>"

definition fresh_orchestra :: orchestra where
  "fresh_orchestra = orchestra_new (with_total_limit 5 900 60 20) None Absent Absent"

lemmas orchestra_examples = example_setup_def round_with_def fresh_orchestra_def orchestra_new_def with_total_limit_def
  session_config_new_def


lemma one_long_crash:
  "\<exists>s'. run_rounds quick_surroundings example_setup [round_with (SessionCrashed ''x'') (10 ^ 18)] fresh_orchestra = (None, s')"
  by (simp add: orchestra_examples run_round_def next_command_def after_attempt_def count_restart_def note_health_def
      record_healthy_tick_def record_restart_for_phase_def attribute_crash_def prune_def checked_sub_def NANOS_def
      quick_surroundings_def word_le_nat_alt max_def Let_def)

theorem healthy_attempts_do_not_clear_the_count_witness:
  "unat (cl_total_restarts (oc_detector (snd (run_rounds quick_surroundings example_setup
     [round_with (SessionCrashed ''x'') (10 ^ 18)] fresh_orchestra)))) = 1"
proof -
  obtain s' where s': "run_rounds quick_surroundings example_setup [round_with (SessionCrashed ''x'') (10 ^ 18)] fresh_orchestra
      = (None, s')" using one_long_crash by blast
  from healthy_attempts_do_not_clear_the_count [OF this] show ?thesis
    by (simp only: s' snd_conv) (simp add: orchestra_examples)
qed

theorem success_needs_completion_witness:
  "\<exists>cmd. fst (rn_attempt (round_with SessionCompleted 0) cmd) = Inr SessionCompleted"
proof -
  have "\<exists>res s'. run_rounds quick_surroundings example_setup [round_with SessionCompleted 0] fresh_orchestra
      = (Some (Inr res), s') \<and> pl_success res"
    by (simp add: orchestra_examples run_round_def next_command_def after_attempt_def note_health_def Let_def result_of_def)
  then obtain res s' where "run_rounds quick_surroundings example_setup [round_with SessionCompleted 0] fresh_orchestra
      = (Some (Inr res), s')" "pl_success res" by blast
  from success_needs_completion [OF this] show ?thesis
    by (auto simp: round_with_def resolve_restart_command_def restart_checkpoint_path_def read_arc_loop_state_def
        try_checkpoint_from_inactive_def)
qed

definition left_by_another :: preflight_io where
  "left_by_another =
     \<lparr>pf_plan_exists = True, pf_disk = None, pf_cleanup = None,
      pf_owner = \<lparr>oo_parse = (\<lambda>_. Some \<lparr>so_gw_pid = 1, so_owner_session = ''gw-b-1'', so_plan_file = ''./b.md'', so_claude_pid = 2,
          so_started_at = 3, so_gw_start_time = 4\<rparr>), oo_has_session = (\<lambda>_. True), oo_pid_alive = (\<lambda>_. True), oo_remove = None\<rparr>,
      pf_kill = None, pf_remove_loop = None\<rparr>"

definition left_workspace :: workspace where
  "left_workspace = \<lparr>ws_owner = Readable ''{}'', ws_fs = (\<lambda>_. Absent), ws_sessions = [''gw-b-1'']\<rparr>"

theorem only_the_own_session_is_adopted_witness:
  "fst (prepare_run left_by_another ''/r'' ''b.md'' left_workspace) = Inr (Some (''gw-b-1'', 2))
   \<and> fst (prepare_run left_by_another ''/r'' ''a.md'' left_workspace) = Inr None
   \<and> ''gw-b-1'' \<notin> set (ws_sessions (snd (prepare_run left_by_another ''/r'' ''a.md'' left_workspace)))"
proof -
  let ?owner = "\<lparr>so_gw_pid = 1, so_owner_session = ''gw-b-1'', so_plan_file = ''./b.md'', so_claude_pid = 2,
     so_started_at = 3, so_gw_start_time = 4\<rparr>"
  have ready: "\<exists>x w1. prepare_run left_by_another ''/r'' plan left_workspace = (Inr x, w1)" for plan
    by (simp add: prepare_run_def left_by_another_def split: prod.split)
  have io: "read_session_owner (pf_owner left_by_another) (ws_owner left_workspace) = Some ?owner"
    "pf_kill left_by_another = None" "oo_remove (pf_owner left_by_another) = None"
    by (simp_all add: read_session_owner_def left_by_another_def left_workspace_def)
  have up: "oo_has_session (pf_owner left_by_another) s" "oo_pid_alive (pf_owner left_by_another) n" for s n
    by (simp_all add: left_by_another_def)
  obtain x w1 where p: "prepare_run left_by_another ''/r'' ''b.md'' left_workspace = (Inr x, w1)" using ready by blast
  obtain y w2 where q: "prepare_run left_by_another ''/r'' ''a.md'' left_workspace = (Inr y, w2)" using ready by blast
  from only_the_own_session_is_adopted [OF p io] only_the_own_session_is_adopted [OF q io]
  show ?thesis by (simp add: p q up)
qed

theorem ascii_names_are_accepted_witness:
  "validate_session_id (\<lambda>c. c \<noteq> 32) (session_name_for (\<lambda>c. c \<noteq> 32) (replicate 99 32) 12345678) = Inr ()"
  by (rule ascii_names_are_accepted) auto

theorem error_ends_a_restarted_run_witness:
  "fst (after_attempt quick_surroundings example_setup (round_with SessionStuck 0) (SessionError NetworkError ''x'')
     (fresh_orchestra\<lparr>oc_detector := (with_total_limit 5 900 60 20)\<lparr>cl_total_restarts := 2\<rparr>\<rparr>)) \<noteq> None"
  by (rule error_ends_a_restarted_run) (simp_all add: skips_plan_def)

theorem batch_stops_at_the_first_failure_witness:
  "let bad = \<lparr>pl_success = False, pl_duration = 0, pl_crash_restarts = 0, pl_message = TimeoutExceeded, pl_session_name = ''''\<rparr>
   in run_batch (\<lambda>_. Inr bad) [''a'', ''b''] = Inr [bad] \<and> length [bad] < length [''a'', ''b'']"
proof -
  let ?bad = "\<lparr>pl_success = False, pl_duration = 0, pl_crash_restarts = 0, pl_message = TimeoutExceeded, pl_session_name = ''''\<rparr>"
  have r: "run_batch (\<lambda>_. Inr ?bad) [''a'', ''b''] = Inr [?bad]" by simp
  from batch_stops_at_the_first_failure [OF r] r show ?thesis by simp
qed

end
