(* ===== verification/Foreground_Monitor.thy ===== *)
theory Foreground_Monitor
  imports Orchestrator Run_Monitor
begin

text \<open>
  The monitor of a session in the foreground (\<open>engine/single_session/monitor.rs\<close>): one attempt and
  the loop that watches it. The sections of a poll are functions from the state to a verdict and a
  state: go on with the next section, skip the rest of the poll (\<open>continue\<close>), or return an outcome. What the
  world answers is a record, with clocks and files as functions of the section: 0 signals, 1
  pipeline timeout, 2 session, 3 pane, 4 completion grace, 5 checkpoint, 6 loop state, 7 artifacts,
  8 completion text, 9 error evidence, 10 process, 11 status, 12 phase timeout, 13 transition gap,
  14 failed phase, 15 idleness, 16 kill gate. Log lines are left out; \<open>kill_session\<close> never fails.
\<close>

section \<open>State\<close>

record kill_request =
  kr_reason :: string
  kr_error_class :: "ErrorClass option"
  kr_outcome :: string
  kr_started_at :: instant
  kr_nudge_sent :: bool

record foreground =
  fg_dispatch_time :: instant
  fg_last_output_hash :: u64
  fg_last_activity :: instant
  fg_nudge_count :: nat
  fg_last_status_log :: instant
  fg_poll_count :: nat
  fg_last_checkpoint_poll :: instant
  fg_last_checkpoint_activity :: instant
  fg_consecutive_unreachable :: nat
  fg_last_checkpoint_hash :: "u64 option"
  fg_cached_checkpoint_path :: "path option"
  fg_last_process_gone_at :: "instant option"
  fg_last_artifact_scan :: instant
  fg_last_artifact_snapshot :: "artifact_snapshot option"
  fg_prompt_acceptor :: prompt_acceptor
  fg_last_artifact_activity :: instant
  fg_loop_state_ever_seen :: bool
  fg_loop_state_gone_since :: "instant option"
  fg_prev_loop_state :: "arc_loop_state option"
  fg_last_loop_state_change :: instant
  fg_pending_kill :: "kill_request option"
  fg_error_confirm_since :: "(instant \<times> ErrorClass) option"
  fg_claude_session_id :: "string option"
  fg_current_phase_name :: "string option"
  fg_current_profile :: PhaseProfile
  fg_phase_started_at :: "instant option"
  fg_effective_phase_timeout :: nat
  fg_in_transition_since :: "instant option"
  fg_transition_nudge_count :: nat
  fg_in_failed_since :: "instant option"
  fg_failed_nudge_count :: nat
  fg_completion_detected_at :: "instant option"
  fg_actions :: "action list"

text \<open>What stays the same, and the hash of a checkpoint's phase, completed count and gap.\<close>

record 'v fg_setup =
  fs_sensors :: "'v sensors"
  fs_hash_progress :: "string option \<times> nat \<times> bool \<Rightarrow> u64"
  fs_config :: session_config
  fs_watchdog :: watchdog_config
  fs_signal_base :: path
  fs_pipeline_start :: instant

record fg_io =
  fi_clock :: "nat \<Rightarrow> instant"
  fi_utc :: utc
  fi_files :: "nat \<Rightarrow> file_system"
  fi_permission_age :: "nat option"
  fi_failure_pane :: "string option"
  fi_probe :: SessionProbe
  fi_grace_probe :: SessionProbe
  fi_alive :: "nat \<Rightarrow> bool"
  fi_pane :: "string option"
  fi_enter_sent :: bool
  fi_is_dir :: "path \<Rightarrow> bool"
  fi_artifacts :: "path \<Rightarrow> node"
  fi_swarm :: "nat \<Rightarrow> swarm_snapshot option"

datatype verdict = GoOn | SkipRest | Return SessionOutcome

definition foreground_new :: "instant \<Rightarrow> watchdog_config \<Rightarrow> foreground" where
  "foreground_new now wd =
     \<lparr>fg_dispatch_time = now, fg_last_output_hash = 0, fg_last_activity = now, fg_nudge_count = 0,
      fg_last_status_log = now, fg_poll_count = 0, fg_last_checkpoint_poll = now,
      fg_last_checkpoint_activity = now, fg_consecutive_unreachable = 0, fg_last_checkpoint_hash = None,
      fg_cached_checkpoint_path = None, fg_last_process_gone_at = None, fg_last_artifact_scan = now,
      fg_last_artifact_snapshot = None,
      fg_prompt_acceptor = prompt_acceptor_new (wd_prompt_accept_enabled wd) (wd_prompt_accept_debounce_secs wd),
      fg_last_artifact_activity = now, fg_loop_state_ever_seen = False, fg_loop_state_gone_since = None,
      fg_prev_loop_state = None, fg_last_loop_state_change = now, fg_pending_kill = None,
      fg_error_confirm_since = None, fg_claude_session_id = None, fg_current_phase_name = None,
      fg_current_profile = default_profile, fg_phase_started_at = None,
      fg_effective_phase_timeout = pp_phase_timeout_secs default_profile, fg_in_transition_since = None,
      fg_transition_nudge_count = 0, fg_in_failed_since = None, fg_failed_nudge_count = 0,
      fg_completion_detected_at = None, fg_actions = []\<rparr>"

definition fg_do :: "action \<Rightarrow> foreground \<Rightarrow> foreground" where
  "fg_do a m = m\<lparr>fg_actions := fg_actions m @ [a]\<rparr>"

definition request_kill :: "instant \<Rightarrow> string \<Rightarrow> ErrorClass option \<Rightarrow> string \<Rightarrow> foreground \<Rightarrow> foreground" where
  "request_kill now reason cls outcome m =
    (if fg_pending_kill m = None
     then m\<lparr>fg_pending_kill := Some \<lparr>kr_reason = reason, kr_error_class = cls, kr_outcome = outcome,
              kr_started_at = now, kr_nudge_sent = False\<rparr>\<rparr>
     else m)"

definition note_completion :: "instant \<Rightarrow> foreground \<Rightarrow> foreground" where
  "note_completion now m =
    (if fg_completion_detected_at m = None then m\<lparr>fg_completion_detected_at := Some now\<rparr> else m)"

text \<open>A duration compared with whole seconds.\<close>

definition lasts_longer :: "instant \<Rightarrow> instant \<Rightarrow> nat \<Rightarrow> bool" where
  "lasts_longer now since secs \<longleftrightarrow> max 0 (now - since) > int secs * NANOS"

definition fg_age :: "instant \<Rightarrow> foreground \<Rightarrow> nat" where
  "fg_age now m = age_secs now (fg_dispatch_time m)"

definition fg_clock_suffix :: "instant \<Rightarrow> foreground \<Rightarrow> string" where
  "fg_clock_suffix now m =
     ''dispatch_age='' @ show_nat (fg_age now m)
     @ ''s phase_age='' @ show_nat (case fg_phase_started_at m of Some t \<Rightarrow> age_secs now t | None \<Rightarrow> 0)
     @ ''s silence_pane='' @ show_nat (age_secs now (fg_last_activity m))
     @ ''s silence_checkpoint='' @ show_nat (age_secs now (fg_last_checkpoint_activity m)) @ ''s''"

definition fg_read_checkpoint :: "'v fg_setup \<Rightarrow> file_system \<Rightarrow> foreground \<Rightarrow> 'v checkpoint option \<times> foreground" where
  "fg_read_checkpoint S fs m =
    (case read_cached_checkpoint (se_parse_json (fs_sensors S)) (se_from_value (fs_sensors S)) fs
            (sc_working_dir (fs_config S)) (fg_cached_checkpoint_path m) of
       (c, cache) \<Rightarrow> (c, m\<lparr>fg_cached_checkpoint_path := cache\<rparr>))"

definition checkpoint_done :: "'v checkpoint \<Rightarrow> bool" where
  "checkpoint_done c \<longleftrightarrow> is_complete c \<and> is_near_completion c"

definition phase_reached :: "'v checkpoint \<Rightarrow> string" where
  "phase_reached c =
    (case inferred_phase_name c of
       Some p \<Rightarrow> p
     | None \<Rightarrow> (case current_phase c of Some p \<Rightarrow> p | None \<Rightarrow> ''unknown''))"

definition the_or :: "'a \<Rightarrow> 'a option \<Rightarrow> 'a" where
  "the_or d v = (case v of Some x \<Rightarrow> x | None \<Rightarrow> d)"

definition quoted :: "string \<Rightarrow> string" where
  "quoted s = [CHR 0x27] @ s @ [CHR 0x27]"

section \<open>Signals, the pipeline timeout and the session\<close>

definition fg_signals :: "'v fg_setup \<Rightarrow> fg_io \<Rightarrow> foreground \<Rightarrow> verdict \<times> foreground" where
  "fg_signals S io m =
    (let E = fs_sensors S; now = fi_clock io 0; fs = fi_files io 0; base = fs_signal_base S;
         stop = (case read_signal E fs base ''session-stop.json'' of
                   Some v \<Rightarrow> Some v | None \<Rightarrow> read_signal E fs base ''session-end.json'');
         m1 = (case stop of
                 Some v \<Rightarrow> if signal_field E ''is_complete'' (jv_bool (se_json E)) v = Some True
                           then note_completion now m else m
               | None \<Rightarrow> m);
         m2 = (case read_signal E fs base ''stop-failure.json'' of
                 None \<Rightarrow> m1
               | Some v \<Rightarrow>
                   let m' = fg_do ClearSignals m1;
                       from_session = (case signal_field E ''session_id'' (jv_str (se_json E)) v of
                                         Some s \<Rightarrow> s | None \<Rightarrow> ''unknown'');
                       is_current = (case fg_claude_session_id m' of
                           Some cid \<Rightarrow> from_session = cid \<or> from_session = ''unknown'' \<or> cid = ''unknown''
                         | None \<Rightarrow> True);
                       cls = (case from_pane_output (case fi_failure_pane io of Some p \<Rightarrow> p | None \<Rightarrow> '''') True of
                                Some c \<Rightarrow> c | None \<Rightarrow> ApiOverload)
                   in if \<not> is_current then m'
                      else request_kill now
                             (''StopFailure signal: '' @ class_name cls @ '' (session='' @ from_session
                              @ '', may be teammate '' @ em_dash @ '' waiting '' @ show_nat (KILL_GATE_MIN_SECS div 60)
                              @ ''m for recovery)'') (Some cls) ''error'' m')
     in (GoOn, if is_permission_pending (fi_permission_age io) then m2\<lparr>fg_last_activity := now\<rparr> else m2))"

definition fg_pipeline_timeout :: "'v fg_setup \<Rightarrow> fg_io \<Rightarrow> foreground \<Rightarrow> verdict \<times> foreground" where
  "fg_pipeline_timeout S io m =
    (GoOn,
     if lasts_longer (fi_clock io 1) (fs_pipeline_start S) (sc_pipeline_timeout (fs_config S))
     then request_kill (fi_clock io 1) ''Pipeline timeout exceeded'' None ''timeout'' m else m)"

definition MIN_SESSION_DURATION_SECS :: nat where "MIN_SESSION_DURATION_SECS = 30"

definition fg_vanished :: "'v fg_setup \<Rightarrow> fg_io \<Rightarrow> foreground \<Rightarrow> verdict \<times> foreground" where
  "fg_vanished S io m =
    (let now = fi_clock io 2; age = fg_age now m; clocks = (\<lambda>m. fg_clock_suffix now m @ '')'') in
     if age < MIN_SESSION_DURATION_SECS then
       (Return (SessionCrashed (''Session exited after only '' @ show_nat age @ ''s '' @ em_dash
                                @ '' Claude Code likely failed to start ('' @ clocks m)), m)
     else if fi_alive io 2 then
       (Return (SessionCrashed (''Tmux session disappeared but process still alive ('' @ clocks m)), m)
     else
       (case fg_read_checkpoint S (fi_files io 2) m of
          (Some c, m1) \<Rightarrow>
            if checkpoint_done c then (Return SessionCompleted, m1)
            else (Return (SessionCrashed (''Session ended during phase '' @ quoted (phase_reached c) @ '' (''
                                          @ clocks m1)), m1)
        | (None, m1) \<Rightarrow>
            if age \<ge> FOREGROUND_MIN_COMPLETION_AGE_SECS then
              (Return (SessionCrashed (''Session ran '' @ show_nat (age div 60) @ ''m but produced no checkpoint ''
                                       @ em_dash @ '' cannot confirm completion ('' @ clocks m1)), m1)
            else
              (Return (SessionCrashed (''Session ended after '' @ show_nat age
                                       @ ''s with no checkpoint (too short for completion; '' @ clocks m1)), m1)))"

definition fg_session :: "'v fg_setup \<Rightarrow> fg_io \<Rightarrow> foreground \<Rightarrow> verdict \<times> foreground" where
  "fg_session S io m =
    (case fi_probe io of
       ProbePresent \<Rightarrow> (GoOn, m\<lparr>fg_consecutive_unreachable := 0, fg_last_process_gone_at := None\<rparr>)
     | ProbeAbsent \<Rightarrow> fg_vanished S io (m\<lparr>fg_consecutive_unreachable := 0\<rparr>)
     | ProbeUnreachable _ \<Rightarrow>
         let m1 = m\<lparr>fg_consecutive_unreachable := fg_consecutive_unreachable m + 1\<rparr> in
         if fg_consecutive_unreachable m1 \<ge> UNREACHABLE_GRACE_TICKS then fg_vanished S io m1
         else (SkipRest, m1))"

section \<open>The pane and the grace after completion\<close>

definition fg_pane :: "'v fg_setup \<Rightarrow> fg_io \<Rightarrow> string \<Rightarrow> foreground \<Rightarrow> verdict \<times> foreground" where
  "fg_pane S io pane m =
    (let now = fi_clock io 3; h = se_hash_str (fs_sensors S) pane in
     case check_and_accept now (fi_enter_sent io) pane (fg_prompt_acceptor m) of
       (True, a) \<Rightarrow>
         (SkipRest, fg_do PressEnter (m\<lparr>fg_prompt_acceptor := a, fg_last_activity := now, fg_last_output_hash := h\<rparr>))
     | (False, a) \<Rightarrow>
         let m1 = m\<lparr>fg_prompt_acceptor := a\<rparr> in
         (GoOn, if h \<noteq> fg_last_output_hash m1
                then m1\<lparr>fg_last_output_hash := h, fg_last_activity := now, fg_nudge_count := 0\<rparr> else m1))"

definition fg_status_due :: "instant \<Rightarrow> foreground \<Rightarrow> foreground" where
  "fg_status_due now m =
    (if age_secs now (fg_last_status_log m) \<ge> STATUS_LOG_INTERVAL_SECS then m\<lparr>fg_last_status_log := now\<rparr> else m)"

definition fg_grace :: "fg_io \<Rightarrow> foreground \<Rightarrow> verdict \<times> foreground" where
  "fg_grace io m =
    (case fg_completion_detected_at m of
       None \<Rightarrow> (GoOn, m)
     | Some completed_at \<Rightarrow>
         let now = fi_clock io 4 in
         if age_secs now completed_at \<ge> COMPLETION_GRACE_SECS then (Return SessionCompleted, fg_do KillSession m)
         else
           (case fi_grace_probe io of
              ProbePresent \<Rightarrow> (SkipRest, fg_status_due now (m\<lparr>fg_consecutive_unreachable := 0\<rparr>))
            | ProbeAbsent \<Rightarrow> (Return SessionCompleted, m\<lparr>fg_consecutive_unreachable := 0\<rparr>)
            | ProbeUnreachable _ \<Rightarrow>
                let m1 = m\<lparr>fg_consecutive_unreachable := fg_consecutive_unreachable m + 1\<rparr> in
                if fg_consecutive_unreachable m1 \<ge> UNREACHABLE_GRACE_TICKS then (Return SessionCompleted, m1)
                else (SkipRest, fg_status_due now m1)))"

section \<open>The checkpoint\<close>

definition fg_enter_phase :: "'v fg_setup \<Rightarrow> instant \<Rightarrow> 'v checkpoint \<Rightarrow> string option \<Rightarrow> foreground \<Rightarrow> foreground" where
  "fg_enter_phase S now c inferred m =
    (if inferred = fg_current_phase_name m then m
     else
       let m1 = (case Option.bind inferred profile_for_phase of
                   None \<Rightarrow> m
                 | Some profile \<Rightarrow>
                     m\<lparr>fg_effective_phase_timeout :=
                         resolve_phase_timeout_full (se_json (fs_sensors S)) (the_or ''unknown'' inferred) c profile,
                       fg_current_profile := profile, fg_phase_started_at := Some now,
                       fg_in_transition_since := None\<rparr>)
       in m1\<lparr>fg_current_phase_name := inferred\<rparr>)"

definition fg_gaps :: "instant \<Rightarrow> phase_position \<Rightarrow> foreground \<Rightarrow> foreground" where
  "fg_gaps now pos m =
    (if has_failure pos then
       (if fg_in_failed_since m = None then m\<lparr>fg_in_failed_since := Some now, fg_failed_nudge_count := 0\<rparr> else m)
         \<lparr>fg_in_transition_since := None, fg_transition_nudge_count := 0\<rparr>
     else if is_transitioning pos then
       (if fg_in_transition_since m = None
        then m\<lparr>fg_in_transition_since := Some now, fg_transition_nudge_count := 0\<rparr> else m)
         \<lparr>fg_in_failed_since := None, fg_failed_nudge_count := 0\<rparr>
     else m\<lparr>fg_in_transition_since := None, fg_transition_nudge_count := 0,
            fg_in_failed_since := None, fg_failed_nudge_count := 0\<rparr>)"

definition fg_checkpoint :: "'v fg_setup \<Rightarrow> fg_io \<Rightarrow> foreground \<Rightarrow> verdict \<times> foreground" where
  "fg_checkpoint S io m =
    (let now = fi_clock io 5 in
     if age_secs now (fg_last_checkpoint_poll m) < wd_checkpoint_poll_interval_secs (fs_watchdog S) then (GoOn, m)
     else
       (GoOn,
        (case fg_read_checkpoint S (fi_files io 5) (m\<lparr>fg_last_checkpoint_poll := now\<rparr>) of
           (None, m1) \<Rightarrow> m1
         | (Some c, m1) \<Rightarrow>
             let m2 = (if checkpoint_done c then note_completion now m1 else m1);
                 pos = pn_position (compute_phase_navigation (se_parse_time (fs_sensors S)) (fi_utc io) c);
                 inferred = effective_phase pos;
                 h = fs_hash_progress S (inferred, count_by_status c ''completed'', is_transitioning pos);
                 m3 = (if fg_last_checkpoint_hash m2 \<noteq> Some h then m2\<lparr>fg_last_checkpoint_activity := now\<rparr> else m2)
                        \<lparr>fg_last_checkpoint_hash := Some h\<rparr>
             in fg_gaps now pos (fg_enter_phase S now c inferred m3))))"

section \<open>The loop state\<close>

definition fg_loop_seen :: "instant \<Rightarrow> arc_loop_state \<Rightarrow> foreground \<Rightarrow> foreground" where
  "fg_loop_seen now s m =
    (let m1 = m\<lparr>fg_loop_state_ever_seen := True, fg_loop_state_gone_since := None,
                fg_claude_session_id := Some (ls_session_id s)\<rparr>;
         m2 = (case fg_prev_loop_state m1 of
                 Some prev \<Rightarrow>
                   if prev \<noteq> s then m1\<lparr>fg_last_loop_state_change := now, fg_last_activity := now\<rparr> else m1
               | None \<Rightarrow> m1)
     in m2\<lparr>fg_prev_loop_state := Some s\<rparr>)"

text \<open>The state file is gone, or inactive, for longer than the grace.\<close>

definition fg_loop_ended :: "'v fg_setup \<Rightarrow> fg_io \<Rightarrow> bool \<Rightarrow> foreground \<Rightarrow> verdict \<times> foreground" where
  "fg_loop_ended S io on_disk m =
    (let now = fi_clock io 6; age = fg_age now m;
         by_age = (\<lambda>m1.
           if age \<ge> FOREGROUND_MIN_COMPLETION_AGE_SECS then (GoOn, note_completion now m1)
           else
             let reason = ''arc-phase-loop.local.md gone after only '' @ show_nat age @ ''s with no checkpoint (''
                          @ fg_clock_suffix now m1 @ '')''
             in (Return (SessionCrashed reason), fg_do KillSession (fg_do (CrashDump reason) m1)))
     in case fg_read_checkpoint S (fi_files io 6) m of
          (None, m1) \<Rightarrow> by_age m1
        | (Some c, m1) \<Rightarrow>
            if checkpoint_done c \<or> on_disk then by_age (note_completion now m1)
            else
              let reason = ''arc-phase-loop.local.md deleted during phase '' @ quoted (phase_reached c) @ '' (''
                           @ fg_clock_suffix now m1 @ '')''
              in (Return (SessionCrashed reason), fg_do KillSession (fg_do (CrashDump reason) m1)))"

definition fg_warmup :: "'v fg_setup \<Rightarrow> instant \<Rightarrow> bool \<Rightarrow> foreground \<Rightarrow> verdict \<times> foreground" where
  "fg_warmup S now on_disk m =
    (let warmup = wd_loop_state_warmup_secs (fs_watchdog S); age = fg_age now m;
         screen_idle = age_secs now (fg_last_activity m); screen_active = (screen_idle < warmup);
         give_up = (\<lambda>reason.
           (Return (SessionError BootstrapError reason), fg_do KillSession (fg_do (CrashDump reason) m)))
     in if \<not> lasts_longer now (fg_dispatch_time m) warmup then (GoOn, m)
        else if screen_active \<or> on_disk then
          (if on_disk \<and> \<not> screen_active \<and> age > warmup * 2
           then give_up (''arc-phase-loop.local.md stuck at active=false after '' @ show_nat age @ ''s (hard limit ''
                         @ show_nat (warmup * 2) @ ''s, screen idle '' @ show_nat screen_idle @ ''s) '' @ em_dash
                         @ '' Rune failed to initialize'')
           else (GoOn, m))
        else give_up (''arc-phase-loop.local.md never appeared after '' @ show_nat age @ ''s (warmup ''
                      @ show_nat warmup @ ''s, screen idle '' @ show_nat screen_idle @ ''s) '' @ em_dash
                      @ '' Rune failed to initialize''))"

definition fg_loop :: "'v fg_setup \<Rightarrow> fg_io \<Rightarrow> foreground \<Rightarrow> verdict \<times> foreground" where
  "fg_loop S io m =
    (let now = fi_clock io 6;
         found = read_arc_loop_state (fi_files io 6 (loop_file (sc_working_dir (fs_config S))))
     in case active_state found of
          Some s \<Rightarrow> (GoOn, fg_loop_seen now s m)
        | None \<Rightarrow>
            if \<not> fg_loop_state_ever_seen m then fg_warmup S now (loop_file_exists found) m
            else
              let gone = (case fg_loop_state_gone_since m of Some t \<Rightarrow> t | None \<Rightarrow> now);
                  m1 = m\<lparr>fg_prev_loop_state := None, fg_loop_state_gone_since := Some gone\<rparr>
              in if age_secs now gone < LOOP_STATE_GONE_GRACE_SECS then (GoOn, m1)
                 else fg_loop_ended S io (loop_file_exists found) m1)"

section \<open>Artifacts, completion text and error evidence\<close>

definition fg_artifacts :: "'v fg_setup \<Rightarrow> fg_io \<Rightarrow> foreground \<Rightarrow> verdict \<times> foreground" where
  "fg_artifacts S io m =
    (let now = fi_clock io 7 in
     if age_secs now (fg_last_artifact_scan m) < wd_artifact_scan_interval_secs (fs_watchdog S) then (GoOn, m)
     else
       let m1 = m\<lparr>fg_last_artifact_scan := now\<rparr> in
       (GoOn,
        (case find_artifact_dir_cached (fi_is_dir io) (fg_cached_checkpoint_path m1) (sc_working_dir (fs_config S)) of
           None \<Rightarrow> m1
         | Some d \<Rightarrow>
             (case scan_artifact_dir (fi_artifacts io d) of
                None \<Rightarrow> m1
              | Some a \<Rightarrow>
                  if fg_last_artifact_snapshot m1 \<noteq> Some a
                  then m1\<lparr>fg_last_artifact_activity := now, fg_last_artifact_snapshot := Some a\<rparr> else m1))))"

definition PANE_COMPLETION_MIN_ELAPSED_SECS :: nat where "PANE_COMPLETION_MIN_ELAPSED_SECS = 180"

definition fg_completion_text :: "'v fg_setup \<Rightarrow> fg_io \<Rightarrow> string \<Rightarrow> foreground \<Rightarrow> verdict \<times> foreground" where
  "fg_completion_text S io pane m =
    (let now = fi_clock io 8 in
     if fg_age now m \<ge> PANE_COMPLETION_MIN_ELAPSED_SECS \<and> is_pipeline_complete pane then
       (case fg_read_checkpoint S (fi_files io 8) m of
          (c, m1) \<Rightarrow>
            (GoOn, if (case c of Some x \<Rightarrow> is_near_completion x | None \<Rightarrow> False) then note_completion now m1 else m1))
     else (GoOn, m))"

definition teammates_work :: "swarm_snapshot option \<Rightarrow> bool" where
  "teammates_work s = (case s of Some x \<Rightarrow> has_working_teammates x | None \<Rightarrow> False)"

text \<open>The pane is searched for keywords when its hash is the last one.\<close>

definition fg_evidence :: "'v fg_setup \<Rightarrow> fg_io \<Rightarrow> string \<Rightarrow> foreground \<Rightarrow> error_evidence" where
  "fg_evidence S io pane m =
    (let now = fi_clock io 9 in
     \<lparr>ev_keyword_match =
        (if se_hash_str (fs_sensors S) pane = fg_last_output_hash m then from_pane_output pane True else None),
      ev_screen_stall_secs = age_secs now (fg_last_activity m),
      ev_checkpoint_stale_secs = Some (age_secs now (fg_last_checkpoint_activity m)),
      ev_process_alive = fi_alive io 9,
      ev_artifacts_active = (age_secs now (fg_last_artifact_activity m) < wd_error_stall_threshold_secs (fs_watchdog S)),
      ev_swarm_active = teammates_work (fi_swarm io 9)\<rparr>)"

definition confirmation_secs :: "'v fg_setup \<Rightarrow> int \<Rightarrow> nat" where
  "confirmation_secs S conf =
    (if conf \<ge> 8 then max (wd_error_confirm_high_secs (fs_watchdog S)) KILL_GATE_MIN_SECS
     else max (wd_error_confirm_medium_secs (fs_watchdog S)) KILL_GATE_MIN_SECS)"

definition show_tenths :: "int \<Rightarrow> string" where
  "show_tenths d = show_nat (nat d div 10) @ ''.'' @ show_nat (nat d mod 10)"

definition fg_error :: "'v fg_setup \<Rightarrow> fg_io \<Rightarrow> string \<Rightarrow> foreground \<Rightarrow> verdict \<times> foreground" where
  "fg_error S io pane m =
    (let now = fi_clock io 9; ev = fg_evidence S io pane m; conf = confidence ev in
     case classify ev of
       None \<Rightarrow> (GoOn, m\<lparr>fg_error_confirm_since := None\<rparr>)
     | Some cls \<Rightarrow>
         (case fg_error_confirm_since m of
            None \<Rightarrow> (GoOn, m\<lparr>fg_error_confirm_since := Some (now, cls)\<rparr>)
          | Some (start, prev_class) \<Rightarrow>
              if prev_class \<noteq> cls then
                (SkipRest,
                 (if skips_plan cls
                  then request_kill now (''Fatal error detected during confirmation: '' @ class_name cls @ '' (was ''
                                         @ class_name prev_class @ '')'') (Some cls) ''error'' m
                  else m)\<lparr>fg_error_confirm_since := Some (now, cls)\<rparr>)
              else
                let waited = age_secs now start in
                (GoOn,
                 if waited \<ge> confirmation_secs S conf
                 then request_kill now (''Error pattern confirmed: '' @ class_name cls @ '' (confidence=''
                        @ show_tenths conf @ '', observed='' @ show_nat waited @ ''s, stall=''
                        @ show_nat (ev_screen_stall_secs ev) @ ''s)'') (Some cls) ''error'' m
                 else m)))"

section \<open>The process\<close>

definition CRASH_GRACE_SECS :: nat where "CRASH_GRACE_SECS = 300"

definition fg_process :: "'v fg_setup \<Rightarrow> nat \<Rightarrow> fg_io \<Rightarrow> foreground \<Rightarrow> verdict \<times> foreground" where
  "fg_process S pid io m =
    (let now = fi_clock io 10 in
     if fi_alive io 10 then (GoOn, m)
     else case fg_last_process_gone_at m of
       None \<Rightarrow> (SkipRest, m\<lparr>fg_last_process_gone_at := Some now\<rparr>)
     | Some gone_at \<Rightarrow>
         let gone = age_secs now gone_at in
         if gone < CRASH_GRACE_SECS then (SkipRest, m)
         else
           let age = fg_age now m;
               m1 = fg_do KillSession (fg_do (CrashDump (''Claude process (pid='' @ show_nat pid @ '') died after ''
                      @ show_nat gone @ ''s grace'')) m)
           in if age < MIN_SESSION_DURATION_SECS then
                (Return (SessionCrashed (''Claude process died after only '' @ show_nat age @ ''s (''
                                         @ fg_clock_suffix now m1 @ '')'')), m1)
              else
                (case fg_read_checkpoint S (fi_files io 10) m1 of
                   (Some c, m2) \<Rightarrow>
                     if checkpoint_done c then (Return SessionCompleted, m2)
                     else (Return (SessionCrashed (''Claude process died during phase '' @ quoted (phase_reached c)
                                                   @ '' ('' @ fg_clock_suffix now m2 @ '')'')), m2)
                 | (None, m2) \<Rightarrow>
                     if age \<ge> FOREGROUND_MIN_COMPLETION_AGE_SECS then (Return SessionCompleted, m2)
                     else (Return (SessionCrashed (''Claude process died after '' @ show_nat age
                             @ ''s with no checkpoint (too short for completion; '' @ fg_clock_suffix now m2 @ '')'')),
                           m2)))"

section \<open>Timeouts and escalation\<close>

definition fg_status :: "fg_io \<Rightarrow> foreground \<Rightarrow> verdict \<times> foreground" where
  "fg_status io m = (GoOn, fg_status_due (fi_clock io 11) m)"

definition phase_label :: "foreground \<Rightarrow> string" where
  "phase_label m = the_or ''unknown'' (fg_current_phase_name m)"

definition fg_phase_timeout :: "fg_io \<Rightarrow> foreground \<Rightarrow> verdict \<times> foreground" where
  "fg_phase_timeout io m =
    (GoOn,
     (case fg_phase_started_at m of
        None \<Rightarrow> m
      | Some t \<Rightarrow>
          let now = fi_clock io 12; elapsed = age_secs now t in
          if elapsed > fg_effective_phase_timeout m
          then request_kill now (''Phase '' @ quoted (phase_label m) @ '' timeout: '' @ show_nat elapsed @ ''s > ''
                                 @ show_nat (fg_effective_phase_timeout m) @ ''s budget'') None ''stuck'' m
          else m))"

definition fg_transition :: "fg_io \<Rightarrow> foreground \<Rightarrow> verdict \<times> foreground" where
  "fg_transition io m =
    (GoOn,
     (case fg_in_transition_since m of
        None \<Rightarrow> m
      | Some t \<Rightarrow>
          let now = fi_clock io 13; gap = age_secs now t in
          if gap > TRANSITION_KILL_SECS
          then request_kill now (''Transition gap timeout: '' @ show_nat gap @ ''s between phases'') None ''stuck'' m
          else if gap > TRANSITION_WARN_SECS \<and> fg_transition_nudge_count m < 2
          then fg_do (Nudge ''are you stuck between phases? please continue to the next phase'')
                 (m\<lparr>fg_transition_nudge_count := 2\<rparr>)
          else if gap > TRANSITION_NUDGE_SECS \<and> fg_transition_nudge_count m < 1
          then fg_do (Nudge ''please continue working'') (m\<lparr>fg_transition_nudge_count := 1\<rparr>)
          else m))"

definition fg_failed :: "fg_io \<Rightarrow> foreground \<Rightarrow> verdict \<times> foreground" where
  "fg_failed io m =
    (GoOn,
     (case fg_in_failed_since m of
        None \<Rightarrow> m
      | Some t \<Rightarrow>
          let now = fi_clock io 14; gap = age_secs now t in
          if gap > FAILED_KILL_SECS
          then request_kill now (''Failed phase '' @ quoted (phase_label m) @ '' not recovered: '' @ show_nat gap @ ''s'')
                 None ''stuck'' m
          else if gap > FAILED_WARN_SECS \<and> fg_failed_nudge_count m < 2
          then fg_do (Nudge (''a phase has failed '' @ em_dash @ '' please check and continue or retry''))
                 (m\<lparr>fg_failed_nudge_count := 2\<rparr>)
          else if gap > FAILED_NUDGE_SECS \<and> fg_failed_nudge_count m < 1
          then fg_do (Nudge ''please continue working'') (m\<lparr>fg_failed_nudge_count := 1\<rparr>)
          else m))"

fun category_name :: "PhaseCategory \<Rightarrow> string" where
  "category_name Planning = ''Planning''"
| "category_name Work = ''Work''"
| "category_name Quality = ''Quality''"
| "category_name Remediation = ''Remediation''"
| "category_name Testing = ''Testing''"
| "category_name Deploy = ''Deploy''"
| "category_name Ship = ''Ship''"

definition idle_nudge :: "nat \<Rightarrow> string" where
  "idle_nudge n = (if n = 1 then ''please continue''
                   else if n = 2 then ''are you stuck? please continue working'' else ''/compact'')"

definition fg_idle :: "fg_io \<Rightarrow> foreground \<Rightarrow> verdict \<times> foreground" where
  "fg_idle io m =
    (let now = fi_clock io 15; idle = age_secs now (fg_last_activity m); profile = fg_current_profile m;
         m1 = (if lasts_longer now (fg_last_activity m) (pp_idle_kill_secs profile)
               then request_kill now (''Session idle '' @ show_nat idle @ ''s > '' @ show_nat (pp_idle_kill_secs profile)
                                      @ ''s '' @ category_name (pp_category profile) @ '' limit'') None ''stuck'' m
               else m)
     in (GoOn,
         if idle > pp_idle_nudge_secs profile * (fg_nudge_count m1 + 1) \<and> fg_nudge_count m1 < 3
         then fg_do (Nudge (idle_nudge (fg_nudge_count m1 + 1))) (m1\<lparr>fg_nudge_count := fg_nudge_count m1 + 1\<rparr>)
         else m1))"

section \<open>The kill gate\<close>

definition fg_recovery :: "fg_io \<Rightarrow> foreground \<Rightarrow> bool" where
  "fg_recovery io m \<longleftrightarrow>
    (let now = fi_clock io 16 in
     age_secs now (fg_last_activity m) < 30 \<or> age_secs now (fg_last_checkpoint_activity m) < 30
     \<or> age_secs now (fg_last_artifact_activity m) < 30 \<or> age_secs now (fg_last_loop_state_change m) < 30
     \<or> teammates_work (fi_swarm io 16))"

definition requested_outcome :: "kill_request \<Rightarrow> SessionOutcome" where
  "requested_outcome k =
    (if kr_outcome k = ''error'' then SessionError (the_or ApiOverload (kr_error_class k)) (kr_reason k)
     else if kr_outcome k = ''timeout'' then SessionTimeout else SessionStuck)"

definition fg_gate :: "fg_io \<Rightarrow> foreground \<Rightarrow> verdict \<times> foreground" where
  "fg_gate io m =
    (case fg_pending_kill m of
       None \<Rightarrow> (GoOn, m)
     | Some k \<Rightarrow>
         let waited = age_secs (fi_clock io 16) (kr_started_at k) in
         if fg_recovery io m \<and> waited > 10 then (GoOn, m\<lparr>fg_pending_kill := None\<rparr>)
         else if waited \<ge> KILL_GATE_MIN_SECS then
           (Return (requested_outcome k), fg_do KillSession (fg_do (CrashDump (kr_reason k)) m))
         else if \<not> kr_nudge_sent k \<and> waited \<ge> KILL_GATE_MIN_SECS div 2 then
           (GoOn, (fg_do (Nudge ''please continue'') m)\<lparr>fg_pending_kill := Some (k\<lparr>kr_nudge_sent := True\<rparr>)\<rparr>)
         else (GoOn, m))"

section \<open>A poll and the loop\<close>

definition then_run ::
  "verdict \<times> foreground \<Rightarrow> (foreground \<Rightarrow> verdict \<times> foreground) \<Rightarrow> verdict \<times> foreground" where
  "then_run r f = (case r of (GoOn, m) \<Rightarrow> f m | _ \<Rightarrow> r)"

definition in_order :: "(foreground \<Rightarrow> verdict \<times> foreground) list \<Rightarrow> foreground \<Rightarrow> verdict \<times> foreground" where
  "in_order fs m = foldl then_run (GoOn, m) fs"

definition before_pane :: "'v fg_setup \<Rightarrow> fg_io \<Rightarrow> (foreground \<Rightarrow> verdict \<times> foreground) list" where
  "before_pane S io = [fg_signals S io, fg_pipeline_timeout S io, fg_session S io]"

definition with_pane :: "'v fg_setup \<Rightarrow> nat \<Rightarrow> fg_io \<Rightarrow> string \<Rightarrow> (foreground \<Rightarrow> verdict \<times> foreground) list" where
  "with_pane S pid io pane =
    [fg_pane S io pane, fg_grace io, fg_checkpoint S io, fg_loop S io, fg_artifacts S io,
     fg_completion_text S io pane, fg_error S io pane, fg_process S pid io, fg_status io,
     fg_phase_timeout io, fg_transition io, fg_failed io, fg_idle io, fg_gate io]"

definition fg_poll :: "'v fg_setup \<Rightarrow> nat \<Rightarrow> fg_io \<Rightarrow> foreground \<Rightarrow> verdict \<times> foreground" where
  "fg_poll S pid io m =
     in_order (before_pane S io
               @ (case fi_pane io of None \<Rightarrow> [] | Some pane \<Rightarrow> with_pane S pid io pane))
       (m\<lparr>fg_poll_count := fg_poll_count m + 1\<rparr>)"

definition outcome_of :: "verdict \<Rightarrow> SessionOutcome option" where
  "outcome_of v = (case v of Return out \<Rightarrow> Some out | _ \<Rightarrow> None)"

definition fg_step :: "'v fg_setup \<Rightarrow> nat \<Rightarrow> fg_io \<Rightarrow> foreground \<Rightarrow> SessionOutcome option \<times> foreground" where
  "fg_step S pid io m = map_prod outcome_of id (fg_poll S pid io m)"

fun monitor_session :: "'v fg_setup \<Rightarrow> nat \<Rightarrow> fg_io list \<Rightarrow> foreground \<Rightarrow> SessionOutcome option \<times> foreground" where
  "monitor_session S pid [] m = (None, m)"
| "monitor_session S pid (io # ios) m =
    (case fg_step S pid io m of (Some out, m') \<Rightarrow> (Some out, m') | (None, m') \<Rightarrow> monitor_session S pid ios m')"

interpretation fgm: poll_loop "fg_step S pid" "monitor_session S pid"
  by unfold_locales simp_all

section \<open>An attempt\<close>

record attempt_io =
  at_had_session :: bool
  at_pre_cleanup :: io_result
  at_spawn :: "string + nat"
  at_owner_write :: io_result
  at_owner_json :: "nat \<Rightarrow> string"
  at_dispatch :: io_result
  at_start :: instant
  at_polls :: "fg_io list"

text \<open>
  The result, when the polls suffice for one, with the owner file if it was written and what was done
  to the session. The error of an attempt is that of the clean-up.
\<close>

definition run_session_attempt ::
  "'v fg_setup \<Rightarrow> attempt_io \<Rightarrow> (string + SessionOutcome) option \<times> file_view option \<times> action list" where
  "run_session_attempt S io =
    (let a0 = (if at_had_session io then [KillSession] else []) in
     case at_pre_cleanup io of
       Some e \<Rightarrow> (Some (Inl e), None, a0)
     | None \<Rightarrow>
         let a1 = a0 @ [ClearSignals] in
         (case at_spawn io of
            Inl e \<Rightarrow> (Some (Inr (SessionCrashed (''Failed to spawn session: '' @ e))), None, a1)
          | Inr pid \<Rightarrow>
              let owner = (if at_owner_write io = None then Some (Readable (at_owner_json io pid)) else None) in
              (case at_dispatch io of
                 Some e \<Rightarrow>
                   let reason = ''Failed to send command: '' @ e in
                   (Some (Inr (SessionCrashed reason)), owner, a1 @ [CrashDump reason, KillSession])
               | None \<Rightarrow>
                   (case monitor_session S pid (at_polls io) (foreground_new (at_start io) (fs_watchdog S)) of
                      (out, m) \<Rightarrow> (map_option Inr out, owner, a1 @ fg_actions m)))))"

end
