(* ===== verification/Foreground_Laws.thy ===== *)
theory Foreground_Laws
  imports Foreground_Monitor Monitor_Laws
begin

text \<open>
  The laws of the monitor in the foreground: how the sections of a poll compose, which of them can
  end a run and with what, that a run is given up only after silence and complete only on evidence, what
  that says of the whole run with its restarts, and what a dead process and a missing checkpoint lead to.
\<close>

section \<open>Sections in order\<close>

named_theorems fg_defs

lemmas [fg_defs] = fg_signals_def fg_pipeline_timeout_def fg_session_def fg_pane_def fg_grace_def fg_checkpoint_def
  fg_loop_def fg_artifacts_def fg_completion_text_def fg_error_def fg_process_def fg_status_def
  fg_phase_timeout_def fg_transition_def fg_failed_def fg_idle_def fg_gate_def

lemma in_order_Nil [simp]: "in_order [] m = (GoOn, m)"
  by (simp add: in_order_def)

lemma then_run_stops: "v \<noteq> GoOn \<Longrightarrow> foldl then_run (v, m) fs = (v, m)"
  by (induction fs) (auto simp: then_run_def split: verdict.split)

lemma in_order_Cons: "in_order (f # fs) m = (case f m of (GoOn, m') \<Rightarrow> in_order fs m' | r \<Rightarrow> r)"
  by (auto simp: in_order_def then_run_def then_run_stops split: prod.split verdict.split)

lemma in_order_append: "in_order (fs @ gs) m = (case in_order fs m of (GoOn, m') \<Rightarrow> in_order gs m' | r \<Rightarrow> r)"
  by (induction fs arbitrary: m) (auto simp: in_order_Cons split: prod.split verdict.split)

lemma in_order_keeps:
  assumes "\<And>f m. f \<in> set fs \<Longrightarrow> P m \<Longrightarrow> P (snd (f m))" and "P m"
  shows "P (snd (in_order fs m))"
  using assms
proof (induction fs arbitrary: m)
  case (Cons f fs)
  obtain v m' where f: "f m = (v, m')" by fastforce
  with Cons.prems have "P m'" by (metis list.set_intros(1) snd_conv)
  with f Cons show ?case by (cases v) (simp_all add: in_order_Cons)
qed simp

text \<open>An outcome is that of a section, in a state with everything the sections before it keep.\<close>

lemma in_order_return:
  assumes "\<And>f m. f \<in> set fs \<Longrightarrow> P m \<Longrightarrow> P (snd (f m))"
  shows "P m \<Longrightarrow> in_order fs m = (Return out, m') \<Longrightarrow> \<exists>f m1. f \<in> set fs \<and> P m1 \<and> f m1 = (Return out, m')"
  using assms
proof (induction fs arbitrary: m)
  case (Cons f fs)
  obtain v m2 where f: "f m = (v, m2)" by fastforce
  show ?case
  proof (cases "v = GoOn")
    case True
    from f Cons.prems(1,3) have "P m2" by (metis list.set_intros(1) snd_conv)
    moreover from f True Cons.prems(2) have "in_order fs m2 = (Return out, m')" by (simp add: in_order_Cons)
    ultimately have "\<exists>g m1. g \<in> set fs \<and> P m1 \<and> g m1 = (Return out, m')"
      using Cons.IH Cons.prems(3) by (meson list.set_intros(2))
    then show ?thesis by auto
  next
    case False
    with f Cons.prems(2) have "f m = (Return out, m')" by (cases v) (simp_all add: in_order_Cons)
    with Cons.prems(1) show ?thesis by auto
  qed
qed simp

lemma fg_step_return: "fg_step S pid io m = (Some out, m') \<longleftrightarrow> fg_poll S pid io m = (Return out, m')"
  by (cases "fg_poll S pid io m") (auto simp: fg_step_def outcome_of_def split: verdict.splits)

lemma fg_step_goes_on: "fg_step S pid io m = (None, m') \<Longrightarrow> m' = snd (fg_poll S pid io m)"
  by (cases "fg_poll S pid io m") (auto simp: fg_step_def)

lemma fg_step_snd: "snd (fg_step S pid io m) = snd (fg_poll S pid io m)"
  by (simp add: fg_step_def)

lemma poll_return:
  assumes "fg_poll S pid io m = (Return out, m')"
  obtains f m1 where "f \<in> set (before_pane S io @ (case fi_pane io of None \<Rightarrow> [] | Some p \<Rightarrow> with_pane S pid io p))"
    "f m1 = (Return out, m')"
  using in_order_return [of _ "\<lambda>_. True"] assms unfolding fg_poll_def by blast

section \<open>What a section can return\<close>

lemma fg_do_sel [simp]:
  "fg_pending_kill (fg_do a m) = fg_pending_kill m" "fg_completion_detected_at (fg_do a m) = fg_completion_detected_at m"
  "fg_last_process_gone_at (fg_do a m) = fg_last_process_gone_at m" "fg_last_activity (fg_do a m) = fg_last_activity m"
  "fg_last_checkpoint_activity (fg_do a m) = fg_last_checkpoint_activity m"
  "fg_last_artifact_activity (fg_do a m) = fg_last_artifact_activity m"
  "fg_last_loop_state_change (fg_do a m) = fg_last_loop_state_change m"
  "fg_last_output_hash (fg_do a m) = fg_last_output_hash m"
  "fg_loop_state_ever_seen (fg_do a m) = fg_loop_state_ever_seen m"
  by (simp_all add: fg_do_def)

lemma request_kill_sel [simp]:
  "fg_completion_detected_at (request_kill t r c out m) = fg_completion_detected_at m"
  "fg_last_process_gone_at (request_kill t r c out m) = fg_last_process_gone_at m"
  "fg_loop_state_ever_seen (request_kill t r c out m) = fg_loop_state_ever_seen m"
  by (simp_all add: request_kill_def)

lemma note_completion_sel [simp]:
  "fg_pending_kill (note_completion t m) = fg_pending_kill m"
  "fg_last_process_gone_at (note_completion t m) = fg_last_process_gone_at m"
  "fg_loop_state_ever_seen (note_completion t m) = fg_loop_state_ever_seen m"
  "fg_completion_detected_at (note_completion t m) \<noteq> None"
  by (simp_all add: note_completion_def)

lemma fg_read_sel:
  assumes "fg_read_checkpoint S fs m = (c, m')"
  shows "fg_completion_detected_at m' = fg_completion_detected_at m"
    "fg_last_process_gone_at m' = fg_last_process_gone_at m"
    "fg_loop_state_ever_seen m' = fg_loop_state_ever_seen m"
  using assms by (auto simp: fg_read_checkpoint_def split: prod.splits)

definition is_crash :: "SessionOutcome \<Rightarrow> bool" where
  "is_crash out \<longleftrightarrow> (\<exists>r. out = SessionCrashed r) \<or> (\<exists>r. out = SessionError BootstrapError r)"

lemma is_crash_simps [simp]:
  "is_crash (SessionCrashed r)" "is_crash (SessionError BootstrapError r)" "\<not> is_crash SessionCompleted"
  "\<not> is_crash SessionStuck" "\<not> is_crash SessionTimeout"
  by (simp_all add: is_crash_def)

lemma vanished_return:
  "fg_vanished S io m = (v, m') \<Longrightarrow> \<exists>out. v = Return out \<and> (out = SessionCompleted \<or> is_crash out)"
  by (auto simp: fg_vanished_def Let_def split: if_splits prod.splits option.splits)

lemma session_return:
  "fg_session S io m = (Return out, m') \<Longrightarrow> out = SessionCompleted \<or> is_crash out"
  by (auto simp: fg_session_def Let_def split: SessionProbe.splits if_splits dest!: vanished_return)

lemma grace_return:
  "fg_grace io m = (Return out, m') \<Longrightarrow> out = SessionCompleted \<and> fg_completion_detected_at m' \<noteq> None"
  by (auto simp: fg_grace_def Let_def split: option.splits SessionProbe.splits if_splits)

lemma warmup_return: "fg_warmup S now d m = (Return out, m') \<Longrightarrow> is_crash out"
  by (auto simp: fg_warmup_def Let_def split: if_splits)

lemma loop_ended_return: "fg_loop_ended S io d m = (Return out, m') \<Longrightarrow> is_crash out"
  by (auto simp: fg_loop_ended_def Let_def split: if_splits prod.splits option.splits)

lemma loop_return: "fg_loop S io m = (Return out, m') \<Longrightarrow> is_crash out"
  by (auto simp: fg_loop_def Let_def split: if_splits option.splits dest: warmup_return loop_ended_return)

lemma process_return:
  "fg_process S pid io m = (Return out, m') \<Longrightarrow> out = SessionCompleted \<or> is_crash out"
  by (auto simp: fg_process_def Let_def split: if_splits option.splits prod.splits)

lemma gate_return:
  assumes "fg_gate io m = (Return out, m')"
  shows "\<exists>k. fg_pending_kill m' = Some k \<and> out = requested_outcome k
    \<and> age_secs (fi_clock io 16) (kr_started_at k) \<ge> KILL_GATE_MIN_SECS \<and> \<not> fg_recovery io m'"
  using assms
  by (auto simp: fg_gate_def Let_def fg_recovery_def KILL_GATE_MIN_SECS_def split: option.splits if_splits)

lemma no_return [simp]:
  "fg_signals S io m \<noteq> (Return out, m')" "fg_pipeline_timeout S io m \<noteq> (Return out, m')"
  "fg_status io m \<noteq> (Return out, m')"
  "fg_phase_timeout io m \<noteq> (Return out, m')" "fg_transition io m \<noteq> (Return out, m')"
  "fg_failed io m \<noteq> (Return out, m')" "fg_idle io m \<noteq> (Return out, m')"
  by (simp_all add: fg_signals_def fg_pipeline_timeout_def fg_status_def fg_phase_timeout_def fg_transition_def
      fg_failed_def fg_idle_def Let_def)

lemma no_return_pane [simp]: "fg_pane S io p m \<noteq> (Return out, m')"
  by (simp add: fg_pane_def Let_def split: prod.split bool.split)

lemma no_return_checkpoint [simp]: "fg_checkpoint S io m \<noteq> (Return out, m')"
  by (simp add: fg_checkpoint_def Let_def)

lemma no_return_artifacts [simp]: "fg_artifacts S io m \<noteq> (Return out, m')"
  by (simp add: fg_artifacts_def Let_def)

lemma no_return_text [simp]: "fg_completion_text S io p m \<noteq> (Return out, m')"
  by (simp add: fg_completion_text_def Let_def split: prod.split)

lemma no_return_error [simp]: "fg_error S io p m \<noteq> (Return out, m')"
  by (simp add: fg_error_def Let_def split: prod.split option.split)

lemma poll_return_cases:
  assumes "fg_poll S pid io m = (Return out, m')"
  shows "out = SessionCompleted \<or> is_crash out \<or> (\<exists>m1. fg_gate io m1 = (Return out, m'))"
proof -
  obtain f m1 where f: "f \<in> set (before_pane S io @ (case fi_pane io of None \<Rightarrow> [] | Some p \<Rightarrow> with_pane S pid io p))"
    "f m1 = (Return out, m')" using poll_return [OF assms] by blast
  then show ?thesis
    by (auto simp: before_pane_def with_pane_def split: option.splits
        dest: session_return grace_return loop_return process_return)
qed

text \<open>A session that answers resets the time since when the process is gone, so no poll gets past its grace.\<close>

definition until_process :: "'v fg_setup \<Rightarrow> fg_io \<Rightarrow> string \<Rightarrow> (foreground \<Rightarrow> verdict \<times> foreground) list" where
  "until_process S io pane =
    [fg_pane S io pane, fg_grace io, fg_checkpoint S io, fg_loop S io, fg_artifacts S io,
     fg_completion_text S io pane, fg_error S io pane]"

definition after_process :: "fg_io \<Rightarrow> (foreground \<Rightarrow> verdict \<times> foreground) list" where
  "after_process io = [fg_status io, fg_phase_timeout io, fg_transition io, fg_failed io, fg_idle io, fg_gate io]"

lemma with_pane_split: "with_pane S pid io pane = until_process S io pane @ fg_process S pid io # after_process io"
  by (simp add: with_pane_def until_process_def after_process_def)

lemma enter_phase_sel [simp]:
  "fg_last_process_gone_at (fg_enter_phase S now c p m) = fg_last_process_gone_at m"
  "fg_completion_detected_at (fg_enter_phase S now c p m) = fg_completion_detected_at m"
  by (auto simp: fg_enter_phase_def Let_def split: option.split)

lemma gaps_sel [simp]:
  "fg_last_process_gone_at (fg_gaps now pos m) = fg_last_process_gone_at m"
  "fg_completion_detected_at (fg_gaps now pos m) = fg_completion_detected_at m"
  by (auto simp: fg_gaps_def)

lemma loop_seen_sel [simp]:
  "fg_last_process_gone_at (fg_loop_seen now s m) = fg_last_process_gone_at m"
  "fg_completion_detected_at (fg_loop_seen now s m) = fg_completion_detected_at m"
  by (auto simp: fg_loop_seen_def Let_def split: option.split)

lemma status_due_sel [simp]:
  "fg_last_process_gone_at (fg_status_due now m) = fg_last_process_gone_at m"
  "fg_completion_detected_at (fg_status_due now m) = fg_completion_detected_at m"
  by (auto simp: fg_status_due_def)

lemma read_snd:
  "fg_last_process_gone_at (snd (fg_read_checkpoint S fs m)) = fg_last_process_gone_at m"
  "fg_completion_detected_at (snd (fg_read_checkpoint S fs m)) = fg_completion_detected_at m"
  by (auto simp: fg_read_checkpoint_def split: prod.split)

lemma keeps_gone:
  "fg_last_process_gone_at (snd (fg_pane S io pane m)) = fg_last_process_gone_at m"
  "fg_last_process_gone_at (snd (fg_grace io m)) = fg_last_process_gone_at m"
  "fg_last_process_gone_at (snd (fg_checkpoint S io m)) = fg_last_process_gone_at m"
  "fg_last_process_gone_at (snd (fg_artifacts S io m)) = fg_last_process_gone_at m"
  "fg_last_process_gone_at (snd (fg_completion_text S io pane m)) = fg_last_process_gone_at m"
  "fg_last_process_gone_at (snd (fg_error S io pane m)) = fg_last_process_gone_at m"
  by (auto simp: fg_pane_def fg_grace_def fg_checkpoint_def fg_artifacts_def fg_completion_text_def fg_error_def Let_def
      dest: fg_read_sel split: prod.split bool.split option.split SessionProbe.split)

lemma loop_ended_keeps_gone: "fg_last_process_gone_at (snd (fg_loop_ended S io d m)) = fg_last_process_gone_at m"
  by (auto simp: fg_loop_ended_def Let_def dest: fg_read_sel split: prod.split option.split)

lemma warmup_keeps: "snd (fg_warmup S now d m) = m \<or> (\<exists>r. snd (fg_warmup S now d m) = fg_do KillSession (fg_do (CrashDump r) m))"
  by (auto simp: fg_warmup_def Let_def)

lemma loop_keeps_gone: "fg_last_process_gone_at (snd (fg_loop S io m)) = fg_last_process_gone_at m"
  using warmup_keeps [of S "fi_clock io 6" "loop_file_exists (read_arc_loop_state (fi_files io 6 (loop_file (sc_working_dir (fs_config S)))))" m]
  by (auto simp: fg_loop_def Let_def loop_ended_keeps_gone split: option.split)

lemma until_process_keeps_gone:
  "f \<in> set (until_process S io pane) \<Longrightarrow> fg_last_process_gone_at m = None \<Longrightarrow> fg_last_process_gone_at (snd (f m)) = None"
  by (auto simp: until_process_def keeps_gone loop_keeps_gone)

lemma session_goes_on:
  "fg_session S io m = (GoOn, m') \<Longrightarrow> fi_probe io = ProbePresent \<and> fg_last_process_gone_at m' = None"
  by (auto simp: fg_session_def Let_def split: SessionProbe.splits if_splits dest!: vanished_return)

lemma before_pane_goes_on:
  assumes "in_order (before_pane S io) m = (GoOn, m')"
  shows "fi_probe io = ProbePresent" "fg_last_process_gone_at m' = None"
proof -
  have "\<exists>m1. fg_session S io m1 = (GoOn, m')"
    using assms by (auto simp: before_pane_def in_order_Cons split: prod.splits verdict.splits)
  then show "fi_probe io = ProbePresent" "fg_last_process_gone_at m' = None"
    using session_goes_on by blast+
qed

lemma process_in_poll:
  "fg_last_process_gone_at m = None \<Longrightarrow>
    fg_process S pid io m = (if fi_alive io 10 then (GoOn, m) else (SkipRest, m\<lparr>fg_last_process_gone_at := Some (fi_clock io 10)\<rparr>))"
  by (simp add: fg_process_def Let_def)

text \<open>Where the outcome of a poll can come from, with what every section keeps.\<close>

definition kept_by :: "(foreground \<Rightarrow> bool) \<Rightarrow> (foreground \<Rightarrow> verdict \<times> foreground) list \<Rightarrow> bool" where
  "kept_by P fs \<longleftrightarrow> (\<forall>f \<in> set fs. \<forall>m. P m \<longrightarrow> P (snd (f m)))"

lemma kept_by_append [simp]: "kept_by P (fs @ gs) \<longleftrightarrow> kept_by P fs \<and> kept_by P gs"
  by (auto simp: kept_by_def)

lemma kept_by_in_order: "kept_by P fs \<Longrightarrow> P m \<Longrightarrow> P (snd (in_order fs m))"
  by (rule in_order_keeps) (auto simp: kept_by_def)

lemma kept_by_return:
  "kept_by P fs \<Longrightarrow> P m \<Longrightarrow> in_order fs m = (Return out, m') \<Longrightarrow> \<exists>f m1. f \<in> set fs \<and> P m1 \<and> f m1 = (Return out, m')"
  by (rule in_order_return) (auto simp: kept_by_def)

lemma poll_return_where:
  assumes "kept_by P (before_pane S io)" "\<And>pane. kept_by P (with_pane S pid io pane)"
    and "P (m\<lparr>fg_poll_count := fg_poll_count m + 1\<rparr>)" and "fg_poll S pid io m = (Return out, m')"
  shows "\<exists>m1. P m1 \<and> (fg_session S io m1 = (Return out, m')
    \<or> fi_probe io = ProbePresent
      \<and> (fg_grace io m1 = (Return out, m') \<or> fg_loop S io m1 = (Return out, m')
         \<or> fi_alive io 10 \<and> fg_gate io m1 = (Return out, m')))"
proof -
  let ?m = "m\<lparr>fg_poll_count := fg_poll_count m + 1\<rparr>"
  obtain v m1 where b: "in_order (before_pane S io) ?m = (v, m1)" by fastforce
  show ?thesis
  proof (cases "v = GoOn")
    case False
    with b assms(4) have "in_order (before_pane S io) ?m = (Return out, m')"
      by (cases v) (simp_all add: fg_poll_def in_order_append)
    from kept_by_return [OF assms(1,3) this] show ?thesis by (auto simp: before_pane_def)
  next
    case True
    note g = before_pane_goes_on [OF b [unfolded True]]
    from b kept_by_in_order [OF assms(1,3)] have P1: "P m1" by simp
    from b True assms(4) obtain pane where w: "in_order (with_pane S pid io pane) m1 = (Return out, m')"
      by (auto simp: fg_poll_def in_order_append split: option.splits)
    have k: "kept_by P (until_process S io pane)" "kept_by P (after_process io)"
      using assms(2) [of pane] by (auto simp: with_pane_split kept_by_def)
    obtain u m2 where x: "in_order (until_process S io pane) m1 = (u, m2)" by fastforce
    show ?thesis
    proof (cases "u = GoOn")
      case False
      with x w have "in_order (until_process S io pane) m1 = (Return out, m')"
        by (cases u) (simp_all add: with_pane_split in_order_append)
      from kept_by_return [OF k(1) P1 this] g(1) show ?thesis by (auto simp: until_process_def)
    next
      case True
      from x kept_by_in_order [OF k(1) P1] have P2: "P m2" by simp
      have "fg_last_process_gone_at m2 = None"
        using in_order_keeps [of "until_process S io pane" "\<lambda>m. fg_last_process_gone_at m = None" m1]
          until_process_keeps_gone g(2) x by (metis snd_conv)
      with x True w have a: "fi_alive io 10" "in_order (after_process io) m2 = (Return out, m')"
        by (auto simp: with_pane_split in_order_append in_order_Cons process_in_poll split: if_splits)
      from kept_by_return [OF k(2) P2 a(2)] a(1) g(1) show ?thesis by (auto simp: after_process_def)
    qed
  qed
qed

section \<open>Evidence of completion\<close>

definition signalled_end :: "'v fg_setup \<Rightarrow> fg_io \<Rightarrow> bool" where
  "signalled_end S io \<longleftrightarrow>
    (let E = fs_sensors S; fs = fi_files io 0 in
     case (case read_signal E fs (fs_signal_base S) ''session-stop.json'' of
             Some v \<Rightarrow> Some v | None \<Rightarrow> read_signal E fs (fs_signal_base S) ''session-end.json'') of
       Some v \<Rightarrow> signal_field E ''is_complete'' (jv_bool (se_json E)) v = Some True
     | None \<Rightarrow> False)"

definition shows_end :: "'v fg_setup \<Rightarrow> file_system \<Rightarrow> bool" where
  "shows_end S fs \<longleftrightarrow>
    (\<exists>p c. read_checkpoint (se_parse_json (fs_sensors S)) (se_from_value (fs_sensors S)) fs p = Inr c \<and> is_near_completion c)"

definition fg_loop_active :: "'v fg_setup \<Rightarrow> fg_io \<Rightarrow> bool" where
  "fg_loop_active S io \<longleftrightarrow>
    active_state (read_arc_loop_state (fi_files io 6 (loop_file (sc_working_dir (fs_config S))))) \<noteq> None"

definition completion_seen :: "'v fg_setup \<Rightarrow> fg_io \<Rightarrow> bool" where
  "completion_seen S io \<longleftrightarrow> signalled_end S io
    \<or> shows_end S (fi_files io 2) \<or> shows_end S (fi_files io 5) \<or> shows_end S (fi_files io 8) \<or> \<not> fg_loop_active S io"

abbreviation incomplete :: "foreground \<Rightarrow> bool" where
  "incomplete m \<equiv> fg_completion_detected_at m = None"

lemma fg_read_shows:
  assumes "fg_read_checkpoint S fs m = (Some c, m')" and "is_near_completion c"
  shows "shows_end S fs"
  using assms
  by (auto simp: fg_read_checkpoint_def read_cached_checkpoint_def shows_end_def Let_def
      split: prod.splits option.splits if_splits sum.splits)

lemma checkpoint_done_near: "checkpoint_done c \<Longrightarrow> is_near_completion c"
  by (simp add: checkpoint_done_def)

lemma incomplete_signals: "\<not> signalled_end S io \<Longrightarrow> incomplete m \<Longrightarrow> incomplete (snd (fg_signals S io m))"
  by (auto simp: fg_signals_def signalled_end_def Let_def split: option.split)

lemma incomplete_vanished: "incomplete m \<Longrightarrow> incomplete (snd (fg_vanished S io m))"
  by (auto simp: fg_vanished_def Let_def dest: fg_read_sel split: prod.split option.split)

lemma incomplete_session: "incomplete m \<Longrightarrow> incomplete (snd (fg_session S io m))"
  by (auto simp: fg_session_def Let_def incomplete_vanished split: SessionProbe.split)

lemma incomplete_checkpoint:
  "\<not> shows_end S (fi_files io 5) \<Longrightarrow> incomplete m \<Longrightarrow> incomplete (snd (fg_checkpoint S io m))"
  by (auto simp: fg_checkpoint_def Let_def dest: fg_read_sel fg_read_shows checkpoint_done_near
      split: prod.split option.split)

lemma incomplete_text:
  "\<not> shows_end S (fi_files io 8) \<Longrightarrow> incomplete m \<Longrightarrow> incomplete (snd (fg_completion_text S io pane m))"
  by (auto simp: fg_completion_text_def Let_def dest: fg_read_sel fg_read_shows split: prod.split option.split)

lemma incomplete_loop: "fg_loop_active S io \<Longrightarrow> incomplete m \<Longrightarrow> incomplete (snd (fg_loop S io m))"
  by (auto simp: fg_loop_def fg_loop_active_def Let_def)

lemma incomplete_process: "incomplete m \<Longrightarrow> incomplete (snd (fg_process S pid io m))"
  by (auto simp: fg_process_def Let_def dest: fg_read_sel split: prod.split option.split)

lemma incomplete_rest:
  "incomplete m \<Longrightarrow> incomplete (snd (fg_pipeline_timeout S io m))"
  "incomplete m \<Longrightarrow> incomplete (snd (fg_pane S io pane m))"
  "incomplete m \<Longrightarrow> incomplete (snd (fg_grace io m))"
  "incomplete m \<Longrightarrow> incomplete (snd (fg_artifacts S io m))"
  "incomplete m \<Longrightarrow> incomplete (snd (fg_error S io pane m))"
  "incomplete m \<Longrightarrow> incomplete (snd (fg_status io m))"
  "incomplete m \<Longrightarrow> incomplete (snd (fg_phase_timeout io m))"
  "incomplete m \<Longrightarrow> incomplete (snd (fg_transition io m))"
  "incomplete m \<Longrightarrow> incomplete (snd (fg_failed io m))"
  "incomplete m \<Longrightarrow> incomplete (snd (fg_idle io m))"
  "incomplete m \<Longrightarrow> incomplete (snd (fg_gate io m))"
  by (auto simp: fg_pipeline_timeout_def fg_pane_def fg_grace_def fg_artifacts_def fg_error_def fg_status_def
      fg_phase_timeout_def fg_transition_def fg_failed_def fg_idle_def fg_gate_def Let_def
      split: prod.split bool.split option.split)

lemma incomplete_kept:
  assumes "\<not> completion_seen S io"
  shows "kept_by incomplete (before_pane S io)" "kept_by incomplete (with_pane S pid io pane)"
  using assms
  by (auto simp: kept_by_def before_pane_def with_pane_def completion_seen_def
      intro: incomplete_signals incomplete_session incomplete_checkpoint incomplete_text incomplete_loop
        incomplete_process incomplete_rest)

lemma incomplete_poll:
  assumes "\<not> completion_seen S io" "incomplete m"
  shows "incomplete (snd (fg_poll S pid io m))"
  unfolding fg_poll_def
  by (rule kept_by_in_order) (use assms incomplete_kept [OF assms(1)] in \<open>auto simp: kept_by_def split: option.split\<close>)

lemma fg_vanished_completed:
  "fg_vanished S io m = (Return SessionCompleted, m') \<Longrightarrow> shows_end S (fi_files io 2)"
  by (auto simp: fg_vanished_def Let_def dest: fg_read_shows checkpoint_done_near
      split: if_splits prod.splits option.splits)

lemma session_completed:
  "fg_session S io m = (Return SessionCompleted, m') \<Longrightarrow> shows_end S (fi_files io 2)"
  by (auto simp: fg_session_def Let_def dest: fg_vanished_completed split: SessionProbe.splits if_splits)

text \<open>Without evidence a poll reports a crash or what the kill gate was asked for, the latter while the process lives.\<close>

lemma poll_without_evidence:
  assumes "\<not> completion_seen S io" "incomplete m" "fg_poll S pid io m = (Return out, m')"
  shows "(\<exists>m1. fg_session S io m1 = (Return out, m') \<and> fi_probe io \<noteq> ProbePresent \<and> is_crash out)
    \<or> fi_alive io 10 \<and> (\<exists>m1. fg_gate io m1 = (Return out, m'))"
proof -
  obtain m1 where i: "incomplete m1" and c: "fg_session S io m1 = (Return out, m')
      \<or> fi_probe io = ProbePresent
        \<and> (fg_grace io m1 = (Return out, m') \<or> fg_loop S io m1 = (Return out, m')
           \<or> fi_alive io 10 \<and> fg_gate io m1 = (Return out, m'))"
    using poll_return_where [of incomplete S io pid m out m'] incomplete_kept [OF assms(1)] assms(2,3) by auto
  have "fg_grace io m1 \<noteq> (Return out, m')" using i by (simp add: fg_grace_def)
  moreover have "fg_loop S io m1 \<noteq> (Return out, m')"
    using assms(1) by (auto simp: completion_seen_def fg_loop_active_def fg_loop_def Let_def)
  moreover have "fi_probe io \<noteq> ProbePresent" if "fg_session S io m1 = (Return out, m')"
    using that by (auto simp: fg_session_def)
  moreover have "is_crash out" if s: "fg_session S io m1 = (Return out, m')"
  proof -
    have "out \<noteq> SessionCompleted" using s session_completed assms(1) by (auto simp: completion_seen_def)
    then show ?thesis using session_return [OF s] by simp
  qed
  ultimately show ?thesis using c by blast
qed

lemma requested_not_completed [simp]: "requested_outcome k \<noteq> SessionCompleted"
  by (simp add: requested_outcome_def)

section \<open>Laws of a run\<close>


text \<open>
  A session in the foreground is reported complete only when one of the polls saw evidence:
  a hook's signal that says so, a checkpoint that is nearly complete, or a loop state file that is
  inactive or gone.
\<close>

lemma completion_is_seen:
  assumes "fst (monitor_session S pid ios (foreground_new now wd)) = Some SessionCompleted"
  shows "\<exists>io \<in> set ios. completion_seen S io"
proof (rule ccontr)
  assume none: "\<not> (\<exists>io \<in> set ios. completion_seen S io)"
  obtain m' where assms': "monitor_session S pid ios (foreground_new now wd) = (Some SessionCompleted, m')"
    using assms by (metis prod.collapse)
  have "incomplete (foreground_new now wd)" by (simp add: foreground_new_def)
  then obtain io t where io: "io \<in> set ios" "incomplete t" "fg_step S pid io t = (Some SessionCompleted, m')"
    using fgm.loop_outcome_on [of ios incomplete S pid "foreground_new now wd" SessionCompleted m'] assms'
      incomplete_poll none fg_step_goes_on by metis
  then have "fg_poll S pid io t = (Return SessionCompleted, m')" by (simp only: fg_step_return)
  with poll_without_evidence [of S io t pid SessionCompleted m'] io none
  obtain m1 where "fg_gate io m1 = (Return SessionCompleted, m')" by auto
  from gate_return [OF this] show False by (metis requested_not_completed)
qed

text \<open>
  A Claude process that dies while its tmux session stays is watched for ever: whatever the polls
  bring as long as the loop state stays active and nothing shows completion, the run does not end. The
  session that answers resets the time since when the process is gone, so its grace never passes, and the
  poll ends there before the timeouts and the kill gate.
\<close>

theorem dead_process_is_watched_forever:
  assumes "\<forall>io \<in> set ios. fi_probe io = ProbePresent \<and> \<not> fi_alive io 10 \<and> \<not> completion_seen S io"
    and "incomplete m"
  shows "fst (monitor_session S pid ios m) = None"
proof (rule ccontr)
  assume "fst (monitor_session S pid ios m) \<noteq> None"
  then obtain out m' where o: "monitor_session S pid ios m = (Some out, m')" by (metis not_Some_eq prod.collapse)
  obtain io t where io: "io \<in> set ios" "incomplete t" "fg_step S pid io t = (Some out, m')"
    using fgm.loop_outcome_on [of ios incomplete S pid m out m'] assms incomplete_poll fg_step_goes_on o by metis
  then have "fg_poll S pid io t = (Return out, m')" by (simp only: fg_step_return)
  with poll_without_evidence [of S io t pid out m'] io assms(1) show False by blast
qed

text \<open>
  A loop state file that was active and is gone for the grace, with no checkpoint to read, is taken for
  completion: the run was at least as old as the grace, so the branch for a short run is not reached.
\<close>

theorem missing_checkpoint_counts_as_completion:
  assumes "fg_loop_state_ever_seen m" "fg_loop_state_gone_since m = Some g" "fg_dispatch_time m \<le> g"
    and "age_secs (fi_clock io 6) g \<ge> 300" "\<not> fg_loop_active S io"
    and "fst (fg_read_checkpoint S (fi_files io 6) m) = None"
  shows "fst (fg_loop S io m) = GoOn \<and> fg_completion_detected_at (snd (fg_loop S io m)) \<noteq> None"
proof -
  let ?m = "m\<lparr>fg_prev_loop_state := None, fg_loop_state_gone_since := Some g\<rparr>"
  have "fg_dispatch_time (snd (fg_read_checkpoint S (fi_files io 6) ?m)) = fg_dispatch_time m"
    by (auto simp: fg_read_checkpoint_def split: prod.split)
  moreover have "fst (fg_read_checkpoint S (fi_files io 6) ?m) = None"
    using assms(6) by (auto simp: fg_read_checkpoint_def split: prod.splits)
  moreover have "age_secs (fi_clock io 6) (fg_dispatch_time m) \<ge> 300"
    using assms(3,4) by (auto simp: age_secs_def NANOS_def)
  ultimately have "fst (fg_loop_ended S io d ?m) = GoOn
      \<and> fg_completion_detected_at (snd (fg_loop_ended S io d ?m)) \<noteq> None" for d
    by (auto simp: fg_loop_ended_def fg_age_def Let_def FOREGROUND_MIN_COMPLETION_AGE_SECS_def note_completion_def
        split: prod.splits option.splits)
  then show ?thesis using assms(1,2,4,5)
    by (simp add: fg_loop_def fg_loop_active_def Let_def LOOP_STATE_GONE_GRACE_SECS_def)
qed

text \<open>The guard that only a still pane is searched for keywords is void: the hash was updated before.\<close>

theorem keywords_are_always_searched:
  assumes "fg_pane S io pane m = (GoOn, m1)" and "fg_last_output_hash m2 = fg_last_output_hash m1"
  shows "ev_keyword_match (fg_evidence S io pane m2) = from_pane_output pane True"
  using assms
  by (auto simp: fg_pane_def fg_evidence_def Let_def split: prod.splits bool.splits if_splits)

section \<open>A run with its attempts\<close>

text \<open>The attempts and the monitoring of an adopted session of a round are those of its polls.\<close>

definition watched :: "'v fg_setup \<Rightarrow> (round \<Rightarrow> fg_io list) \<Rightarrow> round \<Rightarrow> bool" where
  "watched M polls e \<longleftrightarrow>
    (\<forall>cmd r. fst (rn_attempt e cmd) = Inr r \<longrightarrow>
       (\<exists>io. fst (run_session_attempt M io) = Some (Inr r) \<and> set (at_polls io) \<subseteq> set (polls e)))
    \<and> (\<forall>name pid r. rn_monitor e name pid = Inr r \<longrightarrow>
       (\<exists>ios now. fst (monitor_session M pid ios (foreground_new now (fs_watchdog M))) = Some r \<and> set ios \<subseteq> set (polls e)))"

lemma attempt_completed:
  assumes "fst (run_session_attempt M io) = Some (Inr SessionCompleted)"
  shows "\<exists>p \<in> set (at_polls io). completion_seen M p"
proof -
  have "\<exists>pid. fst (monitor_session M pid (at_polls io) (foreground_new (at_start io) (fs_watchdog M))) = Some SessionCompleted"
    using assms
    by (auto simp: run_session_attempt_def Let_def split: option.splits sum.splits prod.splits) (metis fst_conv)
  then show ?thesis using completion_is_seen by blast
qed


section \<open>Examples\<close>

definition foreground_setup :: "unit fg_setup" where
  "foreground_setup =
     \<lparr>fs_sensors = plain_sensors\<lparr>se_json := \<lparr>jv_get = (\<lambda>_ _. Some ()), jv_u64 = (\<lambda>_. None), jv_bool = (\<lambda>_. Some True),
        jv_str = (\<lambda>_. None)\<rparr>\<rparr>, fs_hash_progress = (\<lambda>_. 0), fs_config = session_config_new 21600 ''/r'',
      fs_watchdog = day_watchdog\<lparr>wd_loop_state_warmup_secs := 600\<rparr>, fs_signal_base = ''/s'', fs_pipeline_start = 0\<rparr>"

definition fg_poll_at :: "int \<Rightarrow> file_system \<Rightarrow> fg_io" where
  "fg_poll_at secs fs = \<lparr>fi_clock = (\<lambda>_. secs * NANOS), fi_utc = 0, fi_files = (\<lambda>_. fs), fi_permission_age = None,
     fi_failure_pane = None, fi_probe = ProbePresent, fi_grace_probe = ProbeAbsent, fi_alive = (\<lambda>_. True),
     fi_pane = Some [], fi_enter_sent = False, fi_is_dir = (\<lambda>_. False), fi_artifacts = (\<lambda>_. OtherNode),
     fi_swarm = (\<lambda>_. None)\<rparr>"

definition waiting_foreground :: foreground where
  "waiting_foreground = (foreground_new 0 (fs_watchdog foreground_setup))
     \<lparr>fg_last_checkpoint_poll := 400 * NANOS, fg_last_artifact_scan := 400 * NANOS, fg_last_status_log := 400 * NANOS,
       fg_nudge_count := 3, fg_pending_kill := Some \<lparr>kr_reason = ''idle'', kr_error_class = None,
         kr_outcome = ''stuck'', kr_started_at = 0, kr_nudge_sent = True\<rparr>\<rparr>"

lemma no_prompt_no_text:
  "check_and_accept now sent [] (prompt_acceptor_new b d) = (False, prompt_acceptor_new b d)"
  "\<not> is_pipeline_complete []" "from_pane_output [] True = None"
  by (simp_all add: from_pane_output_def last_lines_def str_lines_def join_lines_def check_and_accept_def prompt_acceptor_new_def MAX_AUTO_ACCEPTS_def permission_prompt_def
      is_pipeline_complete_def completion_texts_def last_visible_line_def PROMPT_PATTERNS_def Let_def)

lemmas fg_example_defs = foreground_setup_def fg_poll_at_def waiting_foreground_def foreground_new_def plain_sensors_def
  day_watchdog_def quick_surroundings_def default_profile_def age_secs_def NANOS_def KILL_GATE_MIN_SECS_def
  session_config_new_def

lemma waiting_sections:
  defines "m \<equiv> waiting_foreground\<lparr>fg_poll_count := 1\<rparr>" and "io \<equiv> fg_poll_at 400 (\<lambda>_. Absent)"
  shows "fg_signals foreground_setup io m = (GoOn, m)" "fg_pipeline_timeout foreground_setup io m = (GoOn, m)"
    "fg_session foreground_setup io m = (GoOn, m)" "fg_pane foreground_setup io [] m = (GoOn, m)"
    "fg_grace io m = (GoOn, m)" "fg_checkpoint foreground_setup io m = (GoOn, m)"
    "fg_loop foreground_setup io m = (GoOn, m)" "fg_artifacts foreground_setup io m = (GoOn, m)"
    "fg_completion_text foreground_setup io [] m = (GoOn, m)" "fg_error foreground_setup io [] m = (GoOn, m)"
    "fg_process foreground_setup 7 io m = (GoOn, m)" "fg_status io m = (GoOn, m)" "fg_phase_timeout io m = (GoOn, m)"
    "fg_transition io m = (GoOn, m)" "fg_failed io m = (GoOn, m)" "fg_idle io m = (GoOn, m)"
  by (simp_all add: m_def io_def fg_defs fg_example_defs read_signal_def is_permission_pending_def lasts_longer_def
      no_prompt_no_text read_arc_loop_state_def fg_warmup_def fg_age_def classify_def should_act_def fg_evidence_def
      fg_status_due_def Let_def)

lemma stuck_at_400:
  "monitor_session foreground_setup 7 [fg_poll_at 400 (\<lambda>_. Absent)] waiting_foreground
     = (Some SessionStuck, snd (fg_gate (fg_poll_at 400 (\<lambda>_. Absent)) (waiting_foreground\<lparr>fg_poll_count := 1\<rparr>)))"
proof -
  let ?io = "fg_poll_at 400 (\<lambda>_. Absent)" and ?m = "waiting_foreground\<lparr>fg_poll_count := 1\<rparr>"
  have "fst (fg_gate ?io ?m) = Return SessionStuck"
    by (simp add: fg_gate_def fg_recovery_def teammates_work_def requested_outcome_def fg_example_defs Let_def)
  then obtain m' where "fg_gate ?io ?m = (Return SessionStuck, m')" by (metis prod.collapse)
  moreover have "fg_poll_count waiting_foreground = 0" "fi_pane ?io = Some []"
    by (simp_all add: waiting_foreground_def foreground_new_def fg_poll_at_def)
  ultimately show ?thesis
    using waiting_sections by (simp add: fg_step_def fg_poll_def before_pane_def with_pane_def in_order_Cons outcome_of_def)
qed


text \<open>A poll that finds the signal of the hook; the session ends on its own.\<close>

definition ending_poll :: fg_io where
  "ending_poll = fg_poll_at 400 (\<lambda>_. Readable ''{}'')"

lemma ends_in_grace:
  "fst (monitor_session foreground_setup pid [ending_poll] (foreground_new 0 (fs_watchdog foreground_setup)))
     = Some SessionCompleted"
  by (simp add: fg_step_def fg_poll_def before_pane_def with_pane_def in_order_Cons outcome_of_def ending_poll_def fg_signals_def
      fg_pipeline_timeout_def fg_session_def fg_pane_def fg_grace_def fg_example_defs read_signal_def signal_field_def
      is_permission_pending_def lasts_longer_def no_prompt_no_text note_completion_def request_kill_def fg_do_def
      COMPLETION_GRACE_SECS_def Let_def)

lemma watched_round: "watched foreground_setup (\<lambda>_. [ending_poll]) (round_with SessionCompleted 0)"
proof -
  let ?io = "\<lparr>at_had_session = False, at_pre_cleanup = None, at_spawn = Inr 7, at_owner_write = None,
    at_owner_json = (\<lambda>_. ''{}''), at_dispatch = None, at_start = 0, at_polls = [ending_poll]\<rparr>"
  obtain m where m: "monitor_session foreground_setup 7 [ending_poll] (foreground_new 0 (fs_watchdog foreground_setup))
      = (Some SessionCompleted, m)" using ends_in_grace [of 7] by (metis prod.collapse)
  have a: "fst (run_session_attempt foreground_setup ?io) = Some (Inr SessionCompleted)" "at_polls ?io = [ending_poll]"
    by (simp_all add: run_session_attempt_def m Let_def del: monitor_session.simps)
  show ?thesis unfolding watched_def
  proof (intro conjI allI impI)
    fix cmd r assume "fst (rn_attempt (round_with SessionCompleted 0) cmd) = Inr r"
    then have "r = SessionCompleted" by (simp add: round_with_def)
    with a show "\<exists>io. fst (run_session_attempt foreground_setup io) = Some (Inr r) \<and> set (at_polls io) \<subseteq> set [ending_poll]"
      by (metis order_refl)
  next
    fix name pid r assume "rn_monitor (round_with SessionCompleted 0) name pid = Inr r"
    then have "r = SessionCompleted" by (simp add: round_with_def)
    with ends_in_grace [of pid] show "\<exists>ios now. fst (monitor_session foreground_setup pid ios (foreground_new now (fs_watchdog foreground_setup))) = Some r
        \<and> set ios \<subseteq> set [ending_poll]" by (metis order_refl)
  qed
qed


end
