(* ===== verification/Completion.thy ===== *)
theory Completion
  imports Run_Monitor
begin

text \<open>
  The detector of the end of a phase group (\<open>engine/completion.rs\<close>): its configuration, its state and
  one tick, which looks at the pane and at the checkpoint and gives an event. The clock and the
  files are read anew by the parts of a tick: 0 the timeout, 1 the pane, 2 the checkpoint, 3 the
  prompt, 4 idleness.
\<close>

section \<open>Configuration and state\<close>

record completion_config =
  cc_poll_interval :: nat
  cc_idle_nudge_after :: nat
  cc_idle_kill_after :: nat
  cc_prompt_grace_period :: nat
  cc_phase_timeout :: nat

definition completion_config_default :: completion_config where
  "completion_config_default =
     \<lparr>cc_poll_interval = 3, cc_idle_nudge_after = 180, cc_idle_kill_after = 300, cc_prompt_grace_period = 5,
      cc_phase_timeout = 30 * 60\<rparr>"

definition for_group :: "nat \<Rightarrow> nat \<Rightarrow> nat \<Rightarrow> completion_config" where
  "for_group timeout_min idle_nudge_sec idle_kill_sec =
     \<lparr>cc_poll_interval = 3, cc_idle_nudge_after = idle_nudge_sec, cc_idle_kill_after = idle_kill_sec,
      cc_prompt_grace_period = 5, cc_phase_timeout = timeout_min * 60\<rparr>"

record 'j completion_state =
  cs_started_at :: instant
  cs_last_checkpoint :: "'j checkpoint option"
  cs_last_pane_hash :: "u64 option"
  cs_last_activity :: instant
  cs_nudged :: bool
  cs_prompt_detected_at :: "instant option"
  cs_starting_phase_sequence :: "nat option"
  cs_last_checkpoint_activity :: instant
  cs_last_checkpoint_hash :: "u64 option"

definition completion_state_new :: "instant \<Rightarrow> 'j completion_state" where
  "completion_state_new now =
     \<lparr>cs_started_at = now, cs_last_checkpoint = None, cs_last_pane_hash = None, cs_last_activity = now,
      cs_nudged = False, cs_prompt_detected_at = None, cs_starting_phase_sequence = None,
      cs_last_checkpoint_activity = now, cs_last_checkpoint_hash = None\<rparr>"

datatype CompletionEvent =
    GroupCompleted
  | PhaseFailedEvent string
  | StillRunning
  | NudgeDue
  | StuckEvent
  | TimeoutEvent
  | PromptReturned
  | ErrorDetected ErrorClass

text \<open>
  What does not change: the configuration, the phases of the group, the hash of pane contents and that of the
  names and statuses of the phases that the checkpoint has.
\<close>

record completion_setup =
  cq_config :: completion_config
  cq_phases :: "string list"
  cq_hash_pane :: "string \<Rightarrow> u64"
  cq_hash_statuses :: "(string \<times> string) list \<Rightarrow> u64"

text \<open>What a tick sees; \<open>ck_read\<close> is the outcome of reading the checkpoint.\<close>

record 'j completion_io =
  ck_clock :: "nat \<Rightarrow> instant"
  ck_pane :: string
  ck_read :: "nat \<Rightarrow> string + 'j checkpoint"

section \<open>Queries\<close>

definition done_in :: "'j checkpoint \<Rightarrow> string \<Rightarrow> bool" where
  "done_in c p \<longleftrightarrow>
    (case hm_get (ck_phases c) p of
       Some ps \<Rightarrow> ps_status ps = ''completed'' \<or> ps_status ps = ''skipped''
     | None \<Rightarrow> False)"

definition is_group_complete :: "string list \<Rightarrow> 'j checkpoint \<Rightarrow> bool" where
  "is_group_complete phases c \<longleftrightarrow> list_all (done_in c) phases"

definition find_failed_phase :: "string list \<Rightarrow> 'j checkpoint \<Rightarrow> string option" where
  "find_failed_phase phases c =
     find (\<lambda>p. case hm_get (ck_phases c) p of Some ps \<Rightarrow> ps_status ps = ''failed'' | None \<Rightarrow> False) phases"

definition detect_prompt :: "string \<Rightarrow> bool" where
  "detect_prompt pane =
    (case find (\<lambda>l. trim l \<noteq> []) (rev (str_lines pane)) of
       Some line \<Rightarrow> str_contains heavy_angle line
     | None \<Rightarrow> False)"

definition statuses_of :: "string list \<Rightarrow> 'j checkpoint \<Rightarrow> (string \<times> string) list" where
  "statuses_of phases c =
     List.map_filter (\<lambda>p. map_option (\<lambda>ps. (p, ps_status ps)) (hm_get (ck_phases c) p)) phases"

fun first_running :: "'j checkpoint \<Rightarrow> string list \<Rightarrow> string option" where
  "first_running c [] = None"
| "first_running c (p # ps) =
    (case hm_get (ck_phases c) p of
       None \<Rightarrow> Some p
     | Some s \<Rightarrow> if ps_status s = ''in_progress'' \<or> ps_status s = ''pending'' then Some p else first_running c ps)"

definition current_running_phase :: "completion_setup \<Rightarrow> 'j completion_state \<Rightarrow> string option" where
  "current_running_phase Q s = Option.bind (cs_last_checkpoint s) (\<lambda>c. first_running c (cq_phases Q))"

definition has_advanced_past_group :: "completion_setup \<Rightarrow> 'j completion_state \<Rightarrow> bool" where
  "has_advanced_past_group Q s =
    (case Option.bind (cs_last_checkpoint s) effective_phase_sequence of
       None \<Rightarrow> False
     | Some n \<Rightarrow>
         if cq_phases Q = [] then False
         else (case phase_index (last (cq_phases Q)) of Some i \<Rightarrow> n > i | None \<Rightarrow> False))"

section \<open>A tick\<close>

definition longer_than :: "instant \<Rightarrow> instant \<Rightarrow> nat \<Rightarrow> bool" where
  "longer_than now since secs \<longleftrightarrow> max 0 (now - since) > int secs * NANOS"

definition pane_signal :: "completion_setup \<Rightarrow> 'j completion_io \<Rightarrow> 'j completion_state \<Rightarrow> bool \<times> 'j completion_state" where
  "pane_signal Q io s =
    (let h = cq_hash_pane Q (ck_pane io); changed = (cs_last_pane_hash s \<noteq> Some h) in
     (changed,
      (if changed then s\<lparr>cs_last_activity := ck_clock io 1, cs_nudged := False, cs_prompt_detected_at := None\<rparr> else s)
        \<lparr>cs_last_pane_hash := Some h\<rparr>))"

definition checkpoint_signal ::
  "completion_setup \<Rightarrow> 'j completion_io \<Rightarrow> 'j completion_state \<Rightarrow> CompletionEvent option \<times> 'j completion_state" where
  "checkpoint_signal Q io s =
    (case ck_read io 2 of
       Inl _ \<Rightarrow> (None, s)
     | Inr c \<Rightarrow>
         let s1 = (if cs_starting_phase_sequence s = None
                   then s\<lparr>cs_starting_phase_sequence := effective_phase_sequence c\<rparr> else s)
         in if is_group_complete (cq_phases Q) c then (Some GroupCompleted, s1)
            else (case find_failed_phase (cq_phases Q) c of
                    Some p \<Rightarrow> (Some (PhaseFailedEvent p), s1)
                  | None \<Rightarrow>
                      let h = cq_hash_statuses Q (statuses_of (cq_phases Q) c);
                          s2 = (if cs_last_checkpoint_hash s1 \<noteq> Some h
                                then s1\<lparr>cs_last_checkpoint_activity := ck_clock io 2\<rparr> else s1)
                      in (None, s2\<lparr>cs_last_checkpoint_hash := Some h, cs_last_checkpoint := Some c\<rparr>)))"

definition prompt_signal ::
  "completion_setup \<Rightarrow> 'j completion_io \<Rightarrow> 'j completion_state \<Rightarrow> CompletionEvent option \<times> 'j completion_state" where
  "prompt_signal Q io s =
    (if \<not> detect_prompt (ck_pane io) then (None, s)
     else case cs_prompt_detected_at s of
       None \<Rightarrow> (None, s\<lparr>cs_prompt_detected_at := Some (ck_clock io 3)\<rparr>)
     | Some t \<Rightarrow>
         if longer_than (ck_clock io 3) t (cc_prompt_grace_period (cq_config Q)) then
           (Some (case ck_read io 3 of
                    Inr c \<Rightarrow> if is_group_complete (cq_phases Q) c then GroupCompleted else PromptReturned
                  | Inl _ \<Rightarrow> PromptReturned), s)
         else (None, s))"

text \<open>The times of staleness are taken at the end of the signal they belong to.\<close>

definition completion_evidence ::
  "'j completion_io \<Rightarrow> bool \<Rightarrow> 'j completion_state \<Rightarrow> error_evidence" where
  "completion_evidence io changed s =
     \<lparr>ev_keyword_match = (if changed then None else from_pane_output (ck_pane io) True),
      ev_screen_stall_secs = age_secs (ck_clock io 1) (cs_last_activity s),
      ev_checkpoint_stale_secs = Some (age_secs (ck_clock io 2) (cs_last_checkpoint_activity s)),
      ev_process_alive = True, ev_artifacts_active = False, ev_swarm_active = False\<rparr>"

definition idle_event :: "completion_setup \<Rightarrow> 'j completion_io \<Rightarrow> bool \<Rightarrow> 'j completion_state \<Rightarrow> CompletionEvent" where
  "idle_event Q io changed s =
    (if changed then StillRunning
     else if longer_than (ck_clock io 4) (cs_last_activity s) (cc_idle_kill_after (cq_config Q)) then StuckEvent
     else if longer_than (ck_clock io 4) (cs_last_activity s) (cc_idle_nudge_after (cq_config Q)) \<and> \<not> cs_nudged s
     then NudgeDue
     else StillRunning)"

definition completion_tick ::
  "completion_setup \<Rightarrow> 'j completion_io \<Rightarrow> 'j completion_state \<Rightarrow> CompletionEvent \<times> 'j completion_state" where
  "completion_tick Q io s =
    (if longer_than (ck_clock io 0) (cs_started_at s) (cc_phase_timeout (cq_config Q)) then (TimeoutEvent, s)
     else case pane_signal Q io s of (changed, s1) \<Rightarrow>
       (case checkpoint_signal Q io s1 of
          (Some ev, s2) \<Rightarrow> (ev, s2)
        | (None, s2) \<Rightarrow>
            (case prompt_signal Q io s2 of
               (Some ev, s3) \<Rightarrow> (ev, s3)
             | (None, s3) \<Rightarrow>
                 (case classify (completion_evidence io changed s3) of
                    Some cls \<Rightarrow> (ErrorDetected cls, s3)
                  | None \<Rightarrow> (idle_event Q io changed s3, s3)))))"

definition mark_nudged :: "'j completion_state \<Rightarrow> 'j completion_state" where
  "mark_nudged s = s\<lparr>cs_nudged := True\<rparr>"

end
