(* ===== verification/Phase_Config.thy ===== *)
theory Phase_Config
  imports Phase_Order GW_Prelude
begin

text \<open>
  The configuration of phase groups (\<open>config/phase_config.rs\<close>): groups and settings, the checks on
  them, and where the file is looked for. TOML is outside the model: a configuration is what
  parsing gave.
\<close>

record phase_settings =
  st_default_timeout_min :: nat
  st_max_retries_per_phase :: nat
  st_cleanup_between_phases :: bool
  st_idle_nudge_after_sec :: nat
  st_idle_kill_after_sec :: nat

record phase_group =
  gr_name :: string
  gr_label :: string
  gr_phases :: "string list"
  gr_skill_command :: string
  gr_timeout_min :: nat
  gr_skip_if :: "string option"

record phase_config =
  pc_settings :: phase_settings
  pc_groups :: "phase_group list"

definition KNOWN_PHASES :: "string list" where
  "KNOWN_PHASES =
    [''forge'', ''forge_qa'', ''plan_review'', ''plan_refine'', ''verification'',
     ''semantic_verification'', ''design_extraction'', ''design_prototype'', ''task_decomposition'',
     ''work'',
     ''work_qa'', ''drift_review'', ''storybook_verification'', ''design_verification'', ''design_verification_qa'',
     ''ux_verification'', ''gap_analysis'', ''gap_analysis_qa'', ''codex_gap_analysis'', ''gap_remediation'',
     ''inspect'', ''inspect_fix'', ''verify_inspect'',
     ''goldmask_verification'', ''code_review'', ''code_review_qa'', ''goldmask_correlation'', ''mend'', ''mend_qa'',
     ''verify_mend'',
     ''design_iteration'', ''test'', ''test_qa'',
     ''test_coverage_critique'', ''deploy_verify'', ''pre_ship_validation'', ''release_quality_check'', ''ship'',
     ''bot_review_wait'', ''pr_comment_resolution'', ''merge'']"

datatype config_error =
    DuplicateGroup string
  | UnknownPhase string string
  | DuplicatePhase string string
  | ZeroTimeout

fun check_names :: "phase_group list \<Rightarrow> string set \<Rightarrow> config_error option" where
  "check_names [] seen = None"
| "check_names (g # gs) seen =
    (if gr_name g \<in> seen then Some (DuplicateGroup (gr_name g)) else check_names gs (insert (gr_name g) seen))"

fun check_phases :: "(string \<times> string) list \<Rightarrow> string set \<Rightarrow> config_error option" where
  "check_phases [] seen = None"
| "check_phases ((g, p) # ps) seen =
    (if p \<notin> set KNOWN_PHASES then Some (UnknownPhase p g)
     else if p \<in> seen then Some (DuplicatePhase p g)
     else check_phases ps (insert p seen))"

definition phases_with_group :: "phase_config \<Rightarrow> (string \<times> string) list" where
  "phases_with_group cfg = concat (map (\<lambda>g. map (Pair (gr_name g)) (gr_phases g)) (pc_groups cfg))"

definition validate_phase_config :: "phase_config \<Rightarrow> config_error + unit" where
  "validate_phase_config cfg =
    (case check_names (pc_groups cfg) {} of
       Some e \<Rightarrow> Inl e
     | None \<Rightarrow>
         (case check_phases (phases_with_group cfg) {} of
            Some e \<Rightarrow> Inl e
          | None \<Rightarrow> if st_default_timeout_min (pc_settings cfg) = 0 then Inl ZeroTimeout else Inr ()))"

definition get_group :: "phase_config \<Rightarrow> string \<Rightarrow> phase_group option" where
  "get_group cfg name = find (\<lambda>g. gr_name g = name) (pc_groups cfg)"

definition total_phases :: "phase_config \<Rightarrow> nat" where
  "total_phases cfg = sum_list (map (\<lambda>g. length (gr_phases g)) (pc_groups cfg))"

definition total_timeout_min :: "phase_config \<Rightarrow> nat" where
  "total_timeout_min cfg = sum_list (map gr_timeout_min (pc_groups cfg))"

text \<open>Where the file is: that of the command line, that of the project, the shipped one, or none.\<close>

datatype path_kind = NoFile | PlainFile | Directory

definition resolve_config :: "(path \<Rightarrow> path_kind) \<Rightarrow> path option \<Rightarrow> path \<Rightarrow> string + path option" where
  "resolve_config kind cli_path cwd =
    (let local = path_join cwd ''greater-will.toml'';
         shipped = path_join (path_join cwd ''config'') ''default-phases.toml'';
         fallback = Inr (if kind local \<noteq> NoFile then Some local
                         else if kind shipped \<noteq> NoFile then Some shipped else None)
     in case cli_path of
          None \<Rightarrow> fallback
        | Some p \<Rightarrow>
            (case kind p of
               NoFile \<Rightarrow> Inl (''Config file not found at specified path: '' @ p)
             | Directory \<Rightarrow>
                 let f = path_join p ''greater-will.toml'' in
                 if kind f \<noteq> NoFile then Inr (Some f) else fallback
             | PlainFile \<Rightarrow> Inr (Some p)))"

section \<open>What a valid configuration is\<close>

lemma KNOWN_PHASES_eq: "KNOWN_PHASES = PHASE_ORDER"
  by (simp add: KNOWN_PHASES_def PHASE_ORDER_def)

lemma check_names_None: "check_names gs seen = None \<longleftrightarrow> distinct (map gr_name gs) \<and> set (map gr_name gs) \<inter> seen = {}"
  by (induction gs arbitrary: seen) auto

lemma check_phases_None:
  "check_phases ps seen = None \<longleftrightarrow>
    distinct (map snd ps) \<and> set (map snd ps) \<inter> seen = {} \<and> set (map snd ps) \<subseteq> set KNOWN_PHASES"
proof (induction ps arbitrary: seen)
  case (Cons a ps)
  then show ?case by (cases a) (auto simp del: KNOWN_PHASES_def)
qed simp

lemma phases_with_group_snd: "map snd (phases_with_group cfg) = concat (map gr_phases (pc_groups cfg))"
  by (simp add: phases_with_group_def map_concat comp_def)

lemma validate_phase_config_None:
  "validate_phase_config cfg = Inr () \<longleftrightarrow>
    check_names (pc_groups cfg) {} = None \<and> check_phases (phases_with_group cfg) {} = None
    \<and> st_default_timeout_min (pc_settings cfg) \<noteq> 0"
  by (simp add: validate_phase_config_def split: option.splits)

text \<open>
  A configuration is accepted exactly when the names of its groups are distinct, its phases
  are phases of the arc and none occurs twice, within a group or across groups, and the default
  timeout is not zero. The list of known phases is the order of the phases.
\<close>

theorem validate_phase_config_exact:
  "validate_phase_config cfg = Inr () \<longleftrightarrow>
    distinct (map gr_name (pc_groups cfg))
    \<and> distinct (concat (map gr_phases (pc_groups cfg)))
    \<and> set (concat (map gr_phases (pc_groups cfg))) \<subseteq> set PHASE_ORDER
    \<and> st_default_timeout_min (pc_settings cfg) \<noteq> 0"
  by (simp add: validate_phase_config_None check_names_None check_phases_None phases_with_group_snd KNOWN_PHASES_eq
      del: map_concat)

text \<open>
  An accepted configuration may have a group without phases, which the executor refuses
  only when its turn comes.
\<close>

theorem empty_group_is_accepted:
  "validate_phase_config \<lparr>pc_settings = \<lparr>st_default_timeout_min = 30, st_max_retries_per_phase = 3,
       st_cleanup_between_phases = False, st_idle_nudge_after_sec = 180, st_idle_kill_after_sec = 300\<rparr>,
     pc_groups = [\<lparr>gr_name = ''A'', gr_label = [], gr_phases = [], gr_skill_command = [], gr_timeout_min = 1,
       gr_skip_if = None\<rparr>]\<rparr> = Inr ()"
  by (simp add: validate_phase_config_def phases_with_group_def)

end
