(* ===== verification/Phase_Executor.thy ===== *)
theory Phase_Executor
  imports Completion Phase_Config
begin

text \<open>
  The execution of a plan in phase groups, each in a session of its own
  (\<open>engine/phase_executor.rs\<close>): one attempt at a group with its watching loop, the attempts of a
  group with their retries, and the groups of a plan. What an attempt meets is a record; what it
  does is appended to a log. Durations and console output are left out.
\<close>

section \<open>Results\<close>

datatype PhaseGroupState =
    PgPending | PgPreFlight | PgSpawning | PgWaitingReady | PgDispatching | PgRunning | PgCompleting
  | PgSucceeded
  | PgFailed nat ErrorClass
  | PgSkipped

fun pg_is_terminal :: "PhaseGroupState \<Rightarrow> bool" where
  "pg_is_terminal PgSucceeded = True"
| "pg_is_terminal (PgFailed _ _) = True"
| "pg_is_terminal PgSkipped = True"
| "pg_is_terminal _ = False"

fun pg_is_success :: "PhaseGroupState \<Rightarrow> bool" where
  "pg_is_success PgSucceeded = True"
| "pg_is_success PgSkipped = True"
| "pg_is_success _ = False"

definition pg_failed :: "PhaseGroupState \<Rightarrow> bool" where
  "pg_failed s \<longleftrightarrow> pg_is_terminal s \<and> \<not> pg_is_success s"

record phase_group_result =
  gx_group_name :: string
  gx_state :: PhaseGroupState
  gx_session_id :: "string option"
  gx_pid :: "nat option"
  gx_retries :: nat
  gx_error_message :: "string option"
  gx_phases :: "string list"

record executor_config =
  ec_mock :: bool
  ec_dry_run :: bool
  ec_max_concurrent_sessions :: nat

definition executor_config_new :: executor_config where
  "executor_config_new = \<lparr>ec_mock = False, ec_dry_run = False, ec_max_concurrent_sessions = 1\<rparr>"

datatype 'j effect =
    CleanedUp
  | WroteCheckpoint "'j checkpoint"
  | Spawned string
  | SentCommand string
  | SentNudge
  | Dumped string
  | KilledSession
  | PostCleaned
  | Slept nat

section \<open>Watching a group\<close>

text \<open>A poll: the capture of the pane with what the detector sees, and the checkpoint read when the prompt is back.\<close>

record 'j group_poll =
  gp_capture :: "string + 'j completion_io"
  gp_reread :: "string + 'j checkpoint"

record 'j watching =
  wa_detector :: "'j completion_state"
  wa_nudge_sent :: bool
  wa_last_pane :: string
  wa_log :: "'j effect list"

datatype watch_end = GroupDone | GroupFailed ErrorClass string | WatchError string

definition add_log :: "'j effect list \<Rightarrow> 'j watching \<Rightarrow> 'j watching" where
  "add_log es w = w\<lparr>wa_log := wa_log w @ es\<rparr>"

definition give_up :: "ErrorClass \<Rightarrow> string \<Rightarrow> string \<Rightarrow> 'j watching \<Rightarrow> watch_end option \<times> 'j watching" where
  "give_up cls dump reason w = (Some (GroupFailed cls reason), add_log [Dumped dump, KilledSession] w)"

definition group_step :: "completion_setup \<Rightarrow> 'j group_poll \<Rightarrow> 'j watching \<Rightarrow> watch_end option \<times> 'j watching" where
  "group_step Q p w =
    (case gp_capture p of
       Inl e \<Rightarrow> (Some (WatchError e), w)
     | Inr io \<Rightarrow>
         let w1 = (if ck_pane io \<noteq> wa_last_pane w then w\<lparr>wa_nudge_sent := False, wa_last_pane := ck_pane io\<rparr> else w)
         in case completion_tick Q io (wa_detector w1) of (ev, det) \<Rightarrow>
           let w2 = w1\<lparr>wa_detector := det\<rparr> in
           (case ev of
              GroupCompleted \<Rightarrow> (Some GroupDone, w2)
            | PhaseFailedEvent ph \<Rightarrow>
                give_up Crash (''Phase '' @ ph @ '' failed'') (''Phase '' @ ph @ '' failed'') w2
            | TimeoutEvent \<Rightarrow> give_up Timeout ''Phase timeout'' ''Phase timeout'' w2
            | StuckEvent \<Rightarrow> give_up Stuck ''Session stuck (idle too long)'' ''Session stuck (idle too long)'' w2
            | ErrorDetected c \<Rightarrow>
                give_up c (''Error detected: '' @ class_name c) (''Error detected: '' @ class_name c) w2
            | NudgeDue \<Rightarrow>
                (None, if wa_nudge_sent w2 then w2
                       else add_log [SentNudge] (w2\<lparr>wa_nudge_sent := True, wa_detector := mark_nudged det\<rparr>))
            | PromptReturned \<Rightarrow>
                (case gp_reread p of
                   Inr c \<Rightarrow> if is_group_complete (cq_phases Q) c then (Some GroupDone, w2) else (None, w2)
                 | Inl _ \<Rightarrow> (None, w2))
            | StillRunning \<Rightarrow> (None, w2)))"

fun watch_group ::
  "completion_setup \<Rightarrow> 'j group_poll list \<Rightarrow> 'j watching \<Rightarrow> watch_end option \<times> 'j watching" where
  "watch_group Q [] w = (None, w)"
| "watch_group Q (p # ps) w =
    (case group_step Q p w of (Some out, w') \<Rightarrow> (Some out, w') | (None, w') \<Rightarrow> watch_group Q ps w')"

interpretation wg: poll_loop "group_step Q" "watch_group Q"
  by unfold_locales simp_all

section \<open>One attempt\<close>

record 'j attempt =
  ga_sessions :: nat
  ga_cleanup :: io_result
  ga_remaining :: nat
  ga_health :: io_result
  ga_read :: "string + 'j checkpoint"
  ga_now :: "string \<Rightarrow> string"
  ga_write :: io_result
  ga_spawn :: "string + nat"
  ga_prompt :: io_result
  ga_send :: io_result
  ga_start :: instant
  ga_polls :: "'j group_poll list"
  ga_post :: io_result

record executor_env =
  ev_hash_pane :: "string \<Rightarrow> u64"
  ev_hash_statuses :: "(string \<times> string) list \<Rightarrow> u64"
  ev_settings :: phase_settings
  ev_config :: executor_config
  ev_plan_hash :: string

definition session_id_of :: "executor_env \<Rightarrow> phase_group \<Rightarrow> string" where
  "session_id_of E g = ''gw-'' @ ev_plan_hash E @ ''-'' @ gr_name g"

definition detector_setup :: "executor_env \<Rightarrow> phase_group \<Rightarrow> completion_setup" where
  "detector_setup E g =
     \<lparr>cq_config = for_group (gr_timeout_min g) (st_idle_nudge_after_sec (ev_settings E)) (st_idle_kill_after_sec (ev_settings E)),
      cq_phases = gr_phases g, cq_hash_pane = ev_hash_pane E, cq_hash_statuses = ev_hash_statuses E\<rparr>"

definition result_for ::
  "executor_env \<Rightarrow> phase_group \<Rightarrow> PhaseGroupState \<Rightarrow> nat option \<Rightarrow> string option \<Rightarrow> phase_group_result" where
  "result_for E g st pid msg =
     \<lparr>gx_group_name = gr_name g, gx_state = st, gx_session_id = Some (session_id_of E g), gx_pid = pid, gx_retries = 0,
      gx_error_message = msg, gx_phases = gr_phases g\<rparr>"

text \<open>The budget of sessions and the health of the system; the clean-up runs once.\<close>

definition group_preflight :: "executor_env \<Rightarrow> phase_group \<Rightarrow> 'j attempt \<Rightarrow> (string + unit) \<times> 'j effect list" where
  "group_preflight E g a =
    (let most = ec_max_concurrent_sessions (ev_config E); cleaned = (if ga_cleanup a = None then [CleanedUp] else []) in
     if ga_sessions a \<ge> most then
       (case ga_cleanup a of
          Some e \<Rightarrow> (Inl e, [])
        | None \<Rightarrow>
            if ga_remaining a \<ge> most then
              (Inl (''Cannot start group '' @ [CHR 0x27] @ gr_name g @ [CHR 0x27] @ '': '' @ show_nat (ga_remaining a)
                    @ '' active sessions >= max_concurrent_sessions ('' @ show_nat most @ '')''), cleaned)
            else (case ga_health a of Some e \<Rightarrow> (Inl e, cleaned) | None \<Rightarrow> (Inr (), cleaned)))
     else
       (case ga_health a of
          Some e \<Rightarrow> (Inl e, [])
        | None \<Rightarrow> (case ga_cleanup a of Some e \<Rightarrow> (Inl e, []) | None \<Rightarrow> (Inr (), cleaned))))"

text \<open>From the prompt to the end of the session; the log is that so far.\<close>

definition run_in_session ::
  "executor_env \<Rightarrow> phase_group \<Rightarrow> 'j attempt \<Rightarrow> nat \<Rightarrow> 'j effect list \<Rightarrow>
    (string + phase_group_result) option \<times> 'j effect list" where
  "run_in_session E g a pid log =
    (let mock = ec_mock (ev_config E) in
     case (if mock then None else ga_prompt a) of
       Some e \<Rightarrow>
         let reason = ''Timeout waiting for prompt: '' @ e in
         (Some (Inr (result_for E g (PgFailed 0 Crash) (Some pid) (Some reason))), log @ [Dumped reason, KilledSession])
     | None \<Rightarrow>
         (case (if mock then None else ga_send a) of
            Some e \<Rightarrow> (Some (Inl e), log)
          | None \<Rightarrow>
              let sent = (if mock then log else log @ [SentCommand (gr_skill_command g)]);
                  w = \<lparr>wa_detector = completion_state_new (ga_start a), wa_nudge_sent = False, wa_last_pane = [], wa_log = sent\<rparr>
              in case watch_group (detector_setup E g) (ga_polls a) w of
                   (None, w') \<Rightarrow> (None, wa_log w')
                 | (Some (WatchError e), w') \<Rightarrow> (Some (Inl e), wa_log w')
                 | (Some (GroupFailed cls reason), w') \<Rightarrow>
                     (Some (Inr (result_for E g (PgFailed 0 cls) (Some pid) (Some reason))), wa_log w')
                 | (Some GroupDone, w') \<Rightarrow>
                     let over = wa_log w' @ [KilledSession] in
                     (case ga_post a of
                        Some e \<Rightarrow> (Some (Inl e), over)
                      | None \<Rightarrow> (Some (Inr (result_for E g PgSucceeded (Some pid) None)), over @ [PostCleaned]))))"

definition execute_group_once ::
  "executor_env \<Rightarrow> phase_group \<Rightarrow> 'j attempt \<Rightarrow> (string + phase_group_result) option \<times> 'j effect list" where
  "execute_group_once E g a =
    (case group_preflight E g a of
       (Inl e, log) \<Rightarrow> (Some (Inl e), log)
     | (Inr _, log) \<Rightarrow>
         if ec_dry_run (ev_config E) then (Some (Inr (result_for E g PgSucceeded None None)), log)
         else
           (case ga_read a of
              Inl e \<Rightarrow> (Some (Inl e), log)
            | Inr c \<Rightarrow>
                (case gr_phases g of
                   [] \<Rightarrow> (Some (Inl (''Phase group '' @ [CHR 0x27] @ gr_name g @ [CHR 0x27] @ '' must have at least one phase'')), log)
                 | p # _ \<Rightarrow>
                     (case ga_write a of
                        Some e \<Rightarrow> (Some (Inl e), log)
                      | None \<Rightarrow>
                          let wrote = log @ [WroteCheckpoint (mark_phases_completed_before (ga_now a) c p)] in
                          (case ga_spawn a of
                             Inl e \<Rightarrow>
                               (Some (Inr (result_for E g (PgFailed 0 Crash) None (Some (''Failed to spawn session: '' @ e)))), wrote)
                           | Inr pid \<Rightarrow> run_in_session E g a pid (wrote @ [Spawned (session_id_of E g)]))))))"

section \<open>The attempts of a group\<close>

record 'j group_state =
  gs_coordinator :: coordinator
  gs_retries :: nat
  gs_log :: "'j effect list"

text \<open>An attempt with the time at which its failure is counted.\<close>

definition attempt_step ::
  "executor_env \<Rightarrow> phase_group \<Rightarrow> 'j attempt \<times> instant \<Rightarrow> 'j group_state \<Rightarrow>
    (string + phase_group_result) option option \<times> 'j group_state" where
  "attempt_step E g a s =
    (case execute_group_once E g (fst a) of (out, log) \<Rightarrow>
       let s1 = s\<lparr>gs_log := gs_log s @ log\<rparr> in
       (case out of
          None \<Rightarrow> (Some None, s1)
        | Some (Inl e) \<Rightarrow> (Some (Some (Inl e)), s1)
        | Some (Inr r) \<Rightarrow>
            (case gx_state r of
               PgFailed _ cls \<Rightarrow>
                 (case should_retry (snd a) (gr_name g) cls (gs_coordinator s1) of (dec, co) \<Rightarrow>
                    let s2 = s1\<lparr>gs_coordinator := co\<rparr>; n = gs_retries s2 in
                    (case dec of
                       RetryAfter secs \<Rightarrow> (None, s2\<lparr>gs_retries := n + 1, gs_log := gs_log s2 @ [Slept secs]\<rparr>)
                     | SkipPlan \<Rightarrow>
                         (Some (Some (Inr ((result_for E g (PgFailed n cls) None (Some (''Fatal error: '' @ class_name cls)))
                            \<lparr>gx_retries := n\<rparr>))), s2)
                     | Exhausted \<Rightarrow> (Some (Some (Inr (r\<lparr>gx_retries := n, gx_state := PgFailed n cls\<rparr>))), s2)))
             | _ \<Rightarrow> (Some (Some (Inr r)), s1))))"

text \<open>The inner \<open>None\<close> is an attempt whose polls did not decide, the outer one a want of attempts.\<close>

fun group_attempts ::
  "executor_env \<Rightarrow> phase_group \<Rightarrow> ('j attempt \<times> instant) list \<Rightarrow> 'j group_state \<Rightarrow>
    (string + phase_group_result) option option \<times> 'j group_state" where
  "group_attempts E g [] s = (None, s)"
| "group_attempts E g (a # as) s =
    (case attempt_step E g a s of (Some out, s') \<Rightarrow> (Some out, s') | (None, s') \<Rightarrow> group_attempts E g as s')"

interpretation ga: poll_loop "attempt_step E g" "group_attempts E g"
  by unfold_locales simp_all

section \<open>The groups of a plan\<close>

definition should_skip_group :: "string \<Rightarrow> string + 'j checkpoint \<Rightarrow> string list \<Rightarrow> bool" where
  "should_skip_group skip_if found phases =
    (case found of
       Inl _ \<Rightarrow> False
     | Inr c \<Rightarrow>
         let skipped = (\<lambda>p. case hm_get (ck_phases c) p of Some ps \<Rightarrow> ps_status ps = ''skipped'' | None \<Rightarrow> False) in
         if skip_if = ''no_work_needed'' \<and> skipped ''work'' then True
         else if skip_if = ''design_not_needed'' \<and> skipped ''design_extraction'' then True
         else phases \<noteq> [] \<and> list_all (is_phase_done_or_will_skip c) phases)"

definition skipped_result :: "phase_group \<Rightarrow> phase_group_result" where
  "skipped_result g =
     \<lparr>gx_group_name = gr_name g, gx_state = PgSkipped, gx_session_id = None, gx_pid = None, gx_retries = 0,
      gx_error_message = None, gx_phases = gr_phases g\<rparr>"

text \<open>What a group meets: the checkpoint read for its condition, and its attempts.\<close>

record 'j group_run =
  gn_found :: "string + 'j checkpoint"
  gn_attempts :: "('j attempt \<times> instant) list"

definition execute_group ::
  "executor_env \<Rightarrow> phase_group \<Rightarrow> 'j group_run \<Rightarrow> coordinator \<times> 'j effect list \<Rightarrow>
    (string + phase_group_result) option \<times> coordinator \<times> 'j effect list" where
  "execute_group E g run s =
    (if (case gr_skip_if g of Some cond \<Rightarrow> should_skip_group cond (gn_found run) (gr_phases g) | None \<Rightarrow> False)
     then (Some (Inr (skipped_result g)), s)
     else case group_attempts E g (gn_attempts run)
            \<lparr>gs_coordinator = fst s, gs_retries = 0, gs_log = snd s\<rparr> of
       (out, s') \<Rightarrow> (Option.bind out id, gs_coordinator s', gs_log s'))"

fun execute_groups ::
  "executor_env \<Rightarrow> (string \<Rightarrow> 'j group_run) \<Rightarrow> phase_group list \<Rightarrow> coordinator \<times> 'j effect list \<Rightarrow>
    (string + phase_group_result list) option \<times> coordinator \<times> 'j effect list" where
  "execute_groups E runs [] s = (Some (Inr []), s)"
| "execute_groups E runs (g # gs) s =
    (case execute_group E g (runs (gr_name g)) s of
       (None, s1) \<Rightarrow> (None, s1)
     | (Some (Inl e), s1) \<Rightarrow> (Some (Inl e), s1)
     | (Some (Inr r), s1) \<Rightarrow>
         if pg_failed (gx_state r) then (Some (Inr [r]), s1)
         else (case execute_groups E runs gs (reset_group (gr_name g) (fst s1), snd s1) of
                 (out, s2) \<Rightarrow> (map_option (map_sum id (Cons r)) out, s2)))"

text \<open>The checkpoint at the start: read if there is one, made afresh otherwise.\<close>

record 'j plan_start =
  pz_exists :: bool
  pz_read :: "string + 'j checkpoint"
  pz_mkdir :: io_result
  pz_now :: string
  pz_arc_dir :: string
  pz_write :: io_result

definition load_or_create_checkpoint :: "executor_env \<Rightarrow> string \<Rightarrow> 'j plan_start \<Rightarrow> string + 'j checkpoint" where
  "load_or_create_checkpoint E plan z =
    (if pz_exists z then pz_read z
     else case pz_mkdir z of
       Some e \<Rightarrow> Inl (''Failed to create arc directory: '' @ e)
     | None \<Rightarrow> Inr (create_fresh_checkpoint (pz_now z) (''arc-'' @ ev_plan_hash E) plan (Some (pz_arc_dir z))))"

definition execute_plan ::
  "executor_env \<Rightarrow> string \<Rightarrow> phase_group list \<Rightarrow> 'j plan_start \<Rightarrow> (string \<Rightarrow> 'j group_run) \<Rightarrow>
    (string + phase_group_result list) option \<times> 'j effect list" where
  "execute_plan E plan groups z runs =
    (case load_or_create_checkpoint E plan z of
       Inl e \<Rightarrow> (Some (Inl e), [])
     | Inr c \<Rightarrow>
         (case pz_write z of
            Some e \<Rightarrow> (Some (Inl e), [])
          | None \<Rightarrow>
              (case execute_groups E runs groups (coordinator_new, [WroteCheckpoint c]) of (out, _, log) \<Rightarrow> (out, log))))"

end
