(* ===== verification/Phase_Executor_Laws.thy ===== *)
theory Phase_Executor_Laws
  imports Phase_Executor
begin

text \<open>
  What the execution of a plan in groups promises: attempts end at the timeout of the group and are at
  most five, a group counts as succeeded only when a poll saw all its phases done, and a session is not
  left behind by an attempt that gives a result.
\<close>

section \<open>The timeout of a group\<close>

lemma signals_started [simp]:
  "cs_started_at (snd (pane_signal Q io s)) = cs_started_at s"
  "cs_started_at (snd (checkpoint_signal Q io s)) = cs_started_at s"
  "cs_started_at (snd (prompt_signal Q io s)) = cs_started_at s"
  "cs_started_at (mark_nudged s) = cs_started_at s"
  by (simp_all add: pane_signal_def checkpoint_signal_def prompt_signal_def mark_nudged_def Let_def
      split: sum.split option.split)

lemma tick_started: "cs_started_at (snd (completion_tick Q io s)) = cs_started_at s"
proof -
  obtain ch s1 where 1: "pane_signal Q io s = (ch, s1)" by fastforce
  obtain o2 s2 where 2: "checkpoint_signal Q io s1 = (o2, s2)" by fastforce
  obtain o3 s3 where 3: "prompt_signal Q io s2 = (o3, s3)" by fastforce
  have "cs_started_at s1 = cs_started_at s" "cs_started_at s2 = cs_started_at s1" "cs_started_at s3 = cs_started_at s2"
    using signals_started(1) [of Q io s] signals_started(2) [of Q io s1] signals_started(3) [of Q io s2] 1 2 3 by simp_all
  then show ?thesis by (simp add: completion_tick_def 1 2 3 split: option.split)
qed

definition past_timeout :: "completion_setup \<Rightarrow> instant \<Rightarrow> 'j completion_io \<Rightarrow> bool" where
  "past_timeout Q t0 io \<longleftrightarrow> longer_than (ck_clock io 0) t0 (cc_phase_timeout (cq_config Q))"

text \<open>A poll that decides whatever the session does: it is after the timeout, or the pane cannot be read.\<close>

definition deciding_poll :: "completion_setup \<Rightarrow> instant \<Rightarrow> 'j group_poll \<Rightarrow> bool" where
  "deciding_poll Q t0 p \<longleftrightarrow> (case gp_capture p of Inl _ \<Rightarrow> True | Inr io \<Rightarrow> past_timeout Q t0 io)"

lemma add_log_sel [simp]:
  "wa_detector (add_log es w) = wa_detector w" "wa_nudge_sent (add_log es w) = wa_nudge_sent w"
  "wa_last_pane (add_log es w) = wa_last_pane w" "wa_log (add_log es w) = wa_log w @ es"
  by (simp_all add: add_log_def)

lemma group_step_started:
  "group_step Q p w = (None, w') \<Longrightarrow> cs_started_at (wa_detector w') = cs_started_at (wa_detector w)"
  using tick_started [of Q "projr (gp_capture p)" "wa_detector w"]
  by (auto simp: group_step_def give_up_def Let_def split: sum.splits prod.splits CompletionEvent.splits if_splits)

lemma group_step_decides:
  "deciding_poll Q (cs_started_at (wa_detector w)) p \<Longrightarrow> fst (group_step Q p w) \<noteq> None"
  by (auto simp: deciding_poll_def past_timeout_def group_step_def completion_tick_def give_up_def Let_def
      split: sum.splits)

lemma watch_group_decides:
  assumes "p \<in> set ps" "deciding_poll Q (cs_started_at (wa_detector w)) p"
  shows "fst (watch_group Q ps w) \<noteq> None"
proof
  assume "fst (watch_group Q ps w) = None"
  then obtain w' where w: "watch_group Q ps w = (None, w')" by (cases "watch_group Q ps w") simp
  from assms(1) obtain as bs where ps: "ps = as @ p # bs" by (auto simp: in_set_conv_decomp)
  with w obtain v where v: "watch_group Q as w = (None, v)"
    by (auto simp: wg.loop_append split: option.splits prod.splits)
  have "cs_started_at (wa_detector v) = cs_started_at (wa_detector w)"
    by (rule wg.loop_keeps [OF _ _ v, of "\<lambda>v. cs_started_at (wa_detector v) = cs_started_at (wa_detector w)"])
      (simp_all add: group_step_started)
  with assms(2) have "fst (group_step Q p v) \<noteq> None" by (intro group_step_decides) simp
  with w ps v show False by (auto simp: wg.loop_append split: option.splits prod.splits)
qed

section \<open>The attempts of a group\<close>

text \<open>An attempt whose session, if it comes to one, is polled beyond the timeout.\<close>

definition watched_long_enough :: "executor_env \<Rightarrow> phase_group \<Rightarrow> 'j attempt \<Rightarrow> bool" where
  "watched_long_enough E g a \<longleftrightarrow> list_ex (deciding_poll (detector_setup E g) (ga_start a)) (ga_polls a)"

lemma session_decides:
  assumes "watched_long_enough E g a"
  shows "fst (run_in_session E g a pid log) \<noteq> None"
proof -
  let ?w = "\<lambda>l. \<lparr>wa_detector = completion_state_new (ga_start a), wa_nudge_sent = False, wa_last_pane = [], wa_log = l\<rparr>"
  from assms obtain p where p: "p \<in> set (ga_polls a)" "deciding_poll (detector_setup E g) (ga_start a) p"
    by (auto simp: watched_long_enough_def list_ex_iff)
  have "cs_started_at (wa_detector (?w l)) = ga_start a" for l by (simp add: completion_state_new_def)
  with p watch_group_decides have d: "fst (watch_group (detector_setup E g) (ga_polls a) (?w l)) \<noteq> None" for l by metis
  obtain out w' where w: "watch_group (detector_setup E g) (ga_polls a)
      (?w (if ec_mock (ev_config E) then log else log @ [SentCommand (gr_skill_command g)])) = (Some out, w')"
    using d by (metis eq_fst_iff option.exhaust)
  then show ?thesis
    by (cases out; cases "ec_mock (ev_config E)") (simp_all add: run_in_session_def Let_def split: option.split)
qed

lemma attempt_decides: "watched_long_enough E g a \<Longrightarrow> fst (execute_group_once E g a) \<noteq> None"
  using session_decides [of E g a]
  by (simp add: execute_group_once_def Let_def split: prod.split sum.split list.split option.split)

lemma attempt_step_retries:
  assumes "watched_long_enough E g (fst a)" "attempt_step E g a s = (None, s')"
  shows "retry_count (gr_name g) (gs_coordinator s) < 4
    \<and> retry_count (gr_name g) (gs_coordinator s') = retry_count (gr_name g) (gs_coordinator s) + 1"
proof -
  obtain out log where e: "execute_group_once E g (fst a) = (out, log)" by fastforce
  with attempt_decides [OF assms(1)] obtain r' where "out = Some r'" by auto
  with e assms(2) obtain r n cls where r: "out = Some (Inr r)" "gx_state r = PgFailed n cls"
    by (auto simp: attempt_step_def Let_def split: sum.splits PhaseGroupState.splits)
  have m: "max_retries cls \<le> 4" by (cases cls) simp_all
  show ?thesis
    using assms(2) e r m
    by (cases rule: should_retry_cases [of cls "snd a" "gr_name g" "gs_coordinator s"])
      (auto simp: attempt_step_def Let_def split: prod.splits)
qed

lemma attempt_step_definite:
  assumes "watched_long_enough E g (fst a)" "attempt_step E g a s = (Some out, s')"
  shows "out \<noteq> None"
  using assms attempt_decides [OF assms(1)]
  by (auto simp: attempt_step_def Let_def split: prod.splits option.splits sum.splits PhaseGroupState.splits
      RetryDecision.splits)

lemma attempts_end:
  assumes "list_all (\<lambda>a. watched_long_enough E g (fst a)) as"
    "length as + retry_count (gr_name g) (gs_coordinator s) \<ge> 5"
  shows "retry_count (gr_name g) (gs_coordinator s) \<le> 4 \<longrightarrow>
    (\<exists>r s'. group_attempts E g as s = (Some (Some r), s'))"
  using assms
proof (induction as arbitrary: s)
  case (Cons a as)
  obtain out s' where st: "attempt_step E g a s = (out, s')" by fastforce
  show ?case
  proof (cases out)
    case None
    with attempt_step_retries [of E g a s s'] st Cons.prems
    have "retry_count (gr_name g) (gs_coordinator s') \<le> 4"
      "length as + retry_count (gr_name g) (gs_coordinator s') \<ge> 5" by auto
    with Cons.IH [of s'] Cons.prems(1) None st show ?thesis by simp
  next
    case (Some x)
    with attempt_step_definite [of E g a s x s'] st Cons.prems(1) show ?thesis by auto
  qed
qed simp

text \<open>
  C34: A group ends. When the session of every attempt is polled until after the timeout of the group,
  five attempts give the group a result, or an error, whatever the sessions do: every attempt is decided
  at the latest by its timeout, and no class of failure is retried more than four times.
\<close>

theorem group_ends:
  assumes "list_all (\<lambda>a. watched_long_enough E g (fst a)) (gn_attempts run)" "length (gn_attempts run) \<ge> 5"
  shows "\<exists>r co log. execute_group E g run (coordinator_new, l) = (Some r, co, log)"
proof -
  have "retry_count (gr_name g) coordinator_new = 0" by (simp add: retry_count_def coordinator_new_def)
  then obtain r s' where "group_attempts E g (gn_attempts run) \<lparr>gs_coordinator = coordinator_new, gs_retries = 0, gs_log = l\<rparr>
      = (Some (Some r), s')"
    using attempts_end [of E g "gn_attempts run" "\<lparr>gs_coordinator = coordinator_new, gs_retries = 0, gs_log = l\<rparr>"] assms
    by auto
  then show ?thesis by (auto simp: execute_group_def)
qed

section \<open>What a success means\<close>

text \<open>The checkpoints a poll looks at.\<close>

definition poll_shows :: "'j group_poll \<Rightarrow> 'j checkpoint \<Rightarrow> bool" where
  "poll_shows p c \<longleftrightarrow>
    (\<exists>io. gp_capture p = Inr io \<and> (ck_read io 2 = Inr c \<or> ck_read io 3 = Inr c)) \<or> gp_reread p = Inr c"

definition seen_done :: "phase_group \<Rightarrow> 'j group_run \<Rightarrow> bool" where
  "seen_done g run \<longleftrightarrow>
    (\<exists>a \<in> set (gn_attempts run). \<exists>p \<in> set (ga_polls (fst a)). \<exists>c. poll_shows p c \<and> is_group_complete (gr_phases g) c)"

lemma tick_completed:
  "completion_tick Q io s = (GroupCompleted, s') \<Longrightarrow>
    \<exists>c. (ck_read io 2 = Inr c \<or> ck_read io 3 = Inr c) \<and> is_group_complete (cq_phases Q) c"
  by (auto simp: completion_tick_def checkpoint_signal_def prompt_signal_def idle_event_def Let_def
      split: if_splits prod.splits option.splits sum.splits)

lemma group_step_done:
  "group_step Q p w = (Some GroupDone, w') \<Longrightarrow> \<exists>c. poll_shows p c \<and> is_group_complete (cq_phases Q) c"
  by (auto simp: group_step_def give_up_def Let_def poll_shows_def dest!: tick_completed
      split: sum.splits prod.splits CompletionEvent.splits if_splits)

lemma watch_group_done:
  assumes "watch_group Q ps w = (Some GroupDone, w')"
  shows "\<exists>p \<in> set ps. \<exists>c. poll_shows p c \<and> is_group_complete (cq_phases Q) c"
  using wg.loop_outcome_on [of ps "\<lambda>_. True" Q w GroupDone w'] assms group_step_done by metis

lemma result_for_sel [simp]:
  "gx_group_name (result_for E g st pid m) = gr_name g" "gx_state (result_for E g st pid m) = st"
  by (simp_all add: result_for_def)

lemma session_result:
  assumes "run_in_session E g a pid l = (Some (Inr r), log)"
  shows "gx_group_name r = gr_name g
    \<and> (gx_state r = PgSucceeded \<and> (\<exists>p \<in> set (ga_polls a). \<exists>c. poll_shows p c \<and> is_group_complete (gr_phases g) c)
       \<or> (\<exists>cls. gx_state r = PgFailed 0 cls))"
  using assms watch_group_done [where Q = "detector_setup E g" and ps = "ga_polls a"]
  by (fastforce simp: run_in_session_def Let_def detector_setup_def
      split: option.splits prod.splits watch_end.splits if_splits)

lemma attempt_result:
  assumes "execute_group_once E g a = (Some (Inr r), log)" "\<not> ec_dry_run (ev_config E)"
  shows "gx_group_name r = gr_name g
    \<and> (gx_state r = PgSucceeded \<and> (\<exists>p \<in> set (ga_polls a). \<exists>c. poll_shows p c \<and> is_group_complete (gr_phases g) c)
       \<or> (\<exists>cls. gx_state r = PgFailed 0 cls))"
  using assms session_result [of E g a]
  by (auto simp: execute_group_once_def Let_def split: prod.splits sum.splits option.splits list.splits)

lemma attempt_step_result:
  assumes "attempt_step E g a s = (Some (Some (Inr r)), s')" "\<not> ec_dry_run (ev_config E)"
  shows "gx_group_name r = gr_name g
    \<and> (gx_state r = PgSucceeded \<and> (\<exists>p \<in> set (ga_polls (fst a)). \<exists>c. poll_shows p c \<and> is_group_complete (gr_phases g) c)
       \<or> pg_failed (gx_state r))"
  using assms attempt_result [of E g "fst a"]
  by (fastforce simp: attempt_step_def Let_def pg_failed_def
      split: prod.splits option.splits sum.splits PhaseGroupState.splits RetryDecision.splits)

text \<open>A group that does not stop the plan.\<close>

definition covered :: "(string \<Rightarrow> 'j group_run) \<Rightarrow> phase_group \<Rightarrow> phase_group_result \<Rightarrow> bool" where
  "covered runs g r \<longleftrightarrow>
    gx_group_name r = gr_name g
    \<and> (gx_state r = PgSkipped \<and> gr_skip_if g \<noteq> None
          \<and> should_skip_group (the (gr_skip_if g)) (gn_found (runs (gr_name g))) (gr_phases g)
       \<or> gx_state r = PgSucceeded \<and> seen_done g (runs (gr_name g)))"

lemma group_result:
  assumes "execute_group E g (runs (gr_name g)) s = (Some (Inr r), s')" "\<not> ec_dry_run (ev_config E)"
    "\<not> pg_failed (gx_state r)"
  shows "covered runs g r"
proof (cases "case gr_skip_if g of Some cond \<Rightarrow> should_skip_group cond (gn_found (runs (gr_name g))) (gr_phases g) | None \<Rightarrow> False")
  case True
  with assms(1) show ?thesis
    by (auto simp: execute_group_def covered_def skipped_result_def split: option.splits)
next
  case False
  with assms(1) obtain t where
    "group_attempts E g (gn_attempts (runs (gr_name g))) \<lparr>gs_coordinator = fst s, gs_retries = 0, gs_log = snd s\<rparr>
      = (Some (Some (Inr r)), t)"
    by (auto simp: execute_group_def split: prod.splits simp: bind_eq_Some_conv simp del: group_attempts.simps)
  from ga.loop_outcome_on [OF _ TrueI this] obtain a u where
    "a \<in> set (gn_attempts (runs (gr_name g)))" "attempt_step E g a u = (Some (Some (Inr r)), t)" by blast
  with attempt_step_result [of E g a u r t] assms(2,3) show ?thesis by (auto simp: covered_def seen_done_def)
qed

text \<open>
  C35: A plan whose results have no failure has a result for each of its groups, in their order, and each group was
  passed over because its condition held of the checkpoint, or a poll of one of its sessions saw a
  checkpoint with all phases of the group completed or skipped.
\<close>

theorem plan_success_covers_groups:
  assumes "execute_groups E runs groups s = (Some (Inr rs), s')" "\<not> ec_dry_run (ev_config E)"
    "list_all (\<lambda>r. \<not> pg_failed (gx_state r)) rs"
  shows "list_all2 (covered runs) groups rs"
  using assms
proof (induction groups arbitrary: s rs s')
  case (Cons g gs)
  from Cons.prems(1,3) obtain r s1 out s2 where
    g: "execute_group E g (runs (gr_name g)) s = (Some (Inr r), s1)" "\<not> pg_failed (gx_state r)"
    and r: "execute_groups E runs gs (reset_group (gr_name g) (fst s1), snd s1) = (out, s2)"
      "map_option (map_sum id (Cons r)) out = Some (Inr rs)"
    by (auto split: prod.splits option.splits sum.splits if_splits)
  from r(2) obtain rs' where rs: "out = Some (Inr rs')" "rs = r # rs'"
    by (cases out; cases "the out") auto
  with Cons.IH [of _ rs' s2] r(1) Cons.prems(2,3) have "list_all2 (covered runs) gs rs'" by simp
  with group_result [of E g runs s r s1] g Cons.prems(2) rs show ?case by simp
qed simp

section \<open>Sessions left behind\<close>

definition session_open :: "'j effect list \<Rightarrow> bool" where
  "session_open es = fold (\<lambda>e b. case e of Spawned _ \<Rightarrow> True | KilledSession \<Rightarrow> False | _ \<Rightarrow> b) es False"

lemma session_open_append: "\<not> session_open xs \<Longrightarrow> session_open (xs @ ys) = session_open ys"
  by (simp add: session_open_def)

lemma group_step_closes:
  "group_step Q p w = (Some (GroupFailed cls m), w') \<Longrightarrow> \<not> session_open (wa_log w')"
  by (auto simp: group_step_def give_up_def Let_def session_open_def
      split: sum.splits prod.splits CompletionEvent.splits if_splits)

lemma session_closed:
  assumes "run_in_session E g a pid l = (Some (Inr r), log)"
  shows "\<not> session_open log"
proof -
  have w: "\<not> session_open (wa_log w')" if "watch_group Q ps w = (Some (GroupFailed cls m), w')" for Q ps w cls m w'
    using wg.loop_outcome [of "\<lambda>_. True" Q w ps "GroupFailed cls m" w'] that group_step_closes by metis
  show ?thesis
    using assms
    by (auto simp: run_in_session_def Let_def session_open_def [of "_ @ _"] dest: w
        split: option.splits prod.splits watch_end.splits if_splits)
qed

lemma preflight_closed: "\<not> session_open (snd (group_preflight E g a))"
  by (simp add: group_preflight_def session_open_def Let_def split: option.split)

lemma attempt_closed:
  assumes "execute_group_once E g a = (Some (Inr r), log)"
  shows "\<not> session_open log"
  using assms session_closed [of E g a] preflight_closed [of E g a]
  by (auto simp: execute_group_once_def Let_def session_open_append session_open_def [of "[_]"]
      split: prod.splits sum.splits option.splits list.splits if_splits)

lemma attempt_step_closed:
  assumes "attempt_step E g a s = (out, s')" "out = None \<or> (\<exists>r. out = Some (Some (Inr r)))"
    "\<not> session_open (gs_log s)"
  shows "\<not> session_open (gs_log s')"
  using assms attempt_closed [of E g "fst a"]
  by (auto simp: attempt_step_def Let_def session_open_append session_open_def [of "[_]"]
      split: prod.splits option.splits sum.splits PhaseGroupState.splits RetryDecision.splits)

lemma group_closed:
  assumes "execute_group E g run s = (Some (Inr r), s')" "\<not> session_open (snd s)"
  shows "\<not> session_open (snd s')"
proof (cases "case gr_skip_if g of Some cond \<Rightarrow> should_skip_group cond (gn_found run) (gr_phases g) | None \<Rightarrow> False")
  case True
  with assms show ?thesis by (simp add: execute_group_def)
next
  case False
  let ?s = "\<lparr>gs_coordinator = fst s, gs_retries = 0, gs_log = snd s\<rparr>"
  from False assms(1) obtain t where t: "group_attempts E g (gn_attempts run) ?s = (Some (Some (Inr r)), t)" "snd s' = gs_log t"
    by (auto simp: execute_group_def split: prod.splits simp: bind_eq_Some_conv simp del: group_attempts.simps)
  have "\<exists>a u. a \<in> set (gn_attempts run) \<and> \<not> session_open (gs_log u) \<and> attempt_step E g a u = (Some (Some (Inr r)), t)"
  proof (rule ga.loop_outcome_on [OF _ _ t(1)])
    show "\<not> session_open (gs_log u')" if "\<not> session_open (gs_log u)" "attempt_step E g a u = (None, u')" for a u u'
      by (rule attempt_step_closed [OF that(2) _ that(1)]) simp
  qed (simp add: assms(2))
  with attempt_step_closed t(2) show ?thesis by fastforce
qed


section \<open>Retries that cannot succeed\<close>

lemma start_keeps_failure:
  assumes "phase_index t = Some i" "\<forall>q \<in> set ps. \<not> phase_before i q"
  shows "find_failed_phase ps (mark_phases_completed_before now c t) = find_failed_phase ps c"
proof -
  have "(case hm_get (ck_phases (mark_phases_completed_before now c t)) q of Some s \<Rightarrow> ps_status s = ''failed'' | None \<Rightarrow> False)
      = (case hm_get (ck_phases c) q of Some s \<Rightarrow> ps_status s = ''failed'' | None \<Rightarrow> False)" if "q \<in> set ps" for q
  proof -
    have "status_of (mark_phases_completed_before now c t) q = Some ''failed'' \<longleftrightarrow> status_of c q = Some ''failed''"
      using handover_status [OF assms(1), of now c q] that assms(2) by simp
    then show ?thesis by (cases "hm_get (ck_phases c) q";
        cases "hm_get (ck_phases (mark_phases_completed_before now c t)) q") (simp_all add: status_of_def)
  qed
  then show ?thesis unfolding find_failed_phase_def by (intro find_cong) auto
qed

lemma find_failed_not_complete: "find_failed_phase ps c = Some ph \<Longrightarrow> \<not> is_group_complete ps c"
proof -
  assume "find_failed_phase ps c = Some ph"
  then have "ph \<in> set ps" "\<not> done_in c ph"
    by (auto simp: find_failed_phase_def find_Some_iff done_in_def split: option.splits)
  then show ?thesis by (auto simp: is_group_complete_def list_all_iff)
qed

lemma failed_tick:
  assumes "\<not> past_timeout Q (cs_started_at s) io" "ck_read io 2 = Inr c" "find_failed_phase (cq_phases Q) c = Some ph"
  shows "fst (completion_tick Q io s) = PhaseFailedEvent ph"
  using assms find_failed_not_complete [OF assms(3)]
  by (simp add: completion_tick_def past_timeout_def checkpoint_signal_def Let_def split: prod.split)

text \<open>
  A phase that the checkpoint has as failed makes every retry of its group fail: nothing before the new
  session takes the phase back, and the first poll, right after the command is sent, finds it failed.
\<close>

theorem failed_phase_defeats_retries:
  assumes "group_preflight E g a = (Inr (), l)" "\<not> ec_dry_run (ev_config E)" "ga_write a = None" "ga_spawn a = Inr pid"
    "ga_prompt a = None" "ga_send a = None"
    and c: "ga_read a = Inr c" "find_failed_phase (gr_phases g) c = Some ph"
    and g: "gr_phases g = t # ts" "phase_index t = Some i" "\<forall>q \<in> set (t # ts). \<not> phase_before i q"
    and p: "ga_polls a = p # ps" "gp_capture p = Inr io" "ck_read io 2 = Inr (mark_phases_completed_before (ga_now a) c t)"
      "\<not> past_timeout (detector_setup E g) (ga_start a) io"
  shows "fst (execute_group_once E g a)
    = Some (Inr (result_for E g (PgFailed 0 Crash) (Some pid) (Some (''Phase '' @ ph @ '' failed''))))"
proof -
  have f: "find_failed_phase (cq_phases (detector_setup E g)) (mark_phases_completed_before (ga_now a) c t) = Some ph"
    using start_keeps_failure [OF g(2), of "t # ts" "ga_now a" c] c(2) g(1,3) by (simp add: detector_setup_def)
  have "fst (completion_tick (detector_setup E g) io (completion_state_new (ga_start a))) = PhaseFailedEvent ph"
    by (rule failed_tick [OF _ p(3) f]) (use p(4) in \<open>simp add: completion_state_new_def\<close>)
  then have t: "fst (group_step (detector_setup E g) p w) = Some (GroupFailed Crash (''Phase '' @ ph @ '' failed''))"
    if "wa_detector w = completion_state_new (ga_start a)" for w
    using p(2) that by (auto simp: group_step_def give_up_def Let_def split: prod.split)
  have "fst (watch_group (detector_setup E g) (ga_polls a) w) = Some (GroupFailed Crash (''Phase '' @ ph @ '' failed''))"
    if "wa_detector w = completion_state_new (ga_start a)" for w
    using t [OF that] p(1) by (auto split: prod.splits option.splits)
  then have w: "\<exists>w'. watch_group (detector_setup E g) (ga_polls a) w
      = (Some (GroupFailed Crash (''Phase '' @ ph @ '' failed'')), w')"
    if "wa_detector w = completion_state_new (ga_start a)" for w
    using that by (metis prod.collapse)
  have "fst (run_in_session E g a pid m)
      = Some (Inr (result_for E g (PgFailed 0 Crash) (Some pid) (Some (''Phase '' @ ph @ '' failed''))))" for m
  proof -
    obtain w' where "watch_group (detector_setup E g) (ga_polls a)
        \<lparr>wa_detector = completion_state_new (ga_start a), wa_nudge_sent = False, wa_last_pane = [],
         wa_log = (if ec_mock (ev_config E) then m else m @ [SentCommand (gr_skill_command g)])\<rparr>
        = (Some (GroupFailed Crash (''Phase '' @ ph @ '' failed'')), w')"
      using w by fastforce
    with assms(5,6) show ?thesis
      by (cases "ec_mock (ev_config E)") (simp_all add: run_in_session_def Let_def)
  qed
  with assms(1-4) c(1) g(1) show ?thesis by (simp add: execute_group_once_def Let_def)
qed

text \<open>When the pane cannot be read, the error leaves with the session still there.\<close>

theorem capture_error_leaves_session:
  assumes "ga_prompt a = None" "ga_send a = None" "ga_polls a = p # ps" "gp_capture p = Inl e"
  shows "run_in_session E g a pid (m @ [Spawned sid])
    = (Some (Inl e), m @ [Spawned sid] @ (if ec_mock (ev_config E) then [] else [SentCommand (gr_skill_command g)]))
    \<and> session_open (snd (run_in_session E g a pid (m @ [Spawned sid])))"
  using assms by (simp add: run_in_session_def Let_def group_step_def session_open_def)

section \<open>Instances\<close>

definition example_env :: executor_env where
  "example_env =
     \<lparr>ev_hash_pane = (\<lambda>_. 0), ev_hash_statuses = (\<lambda>_. 0),
      ev_settings = \<lparr>st_default_timeout_min = 30, st_max_retries_per_phase = 3, st_cleanup_between_phases = True,
        st_idle_nudge_after_sec = 180, st_idle_kill_after_sec = 300\<rparr>,
      ev_config = executor_config_new, ev_plan_hash = ''00''\<rparr>"

definition example_group :: phase_group where
  "example_group =
     \<lparr>gr_name = ''C'', gr_label = [], gr_phases = [''work''], gr_skill_command = ''/rune:arc'', gr_timeout_min = 1,
      gr_skip_if = None\<rparr>"

definition example_checkpoint :: "unit checkpoint" where
  "example_checkpoint = mark_phases_completed_before (\<lambda>_. [])
     (create_fresh_checkpoint [] ''arc-00'' ''p.md'' None) ''drift_review''"

definition example_attempt :: "nat \<Rightarrow> unit attempt" where
  "example_attempt secs =
     \<lparr>ga_sessions = 0, ga_cleanup = None, ga_remaining = 0, ga_health = None, ga_read = Inr example_checkpoint,
      ga_now = (\<lambda>_. []), ga_write = None, ga_spawn = Inr 7, ga_prompt = None, ga_send = None, ga_start = 0,
      ga_polls = [\<lparr>gp_capture = Inr \<lparr>ck_clock = (\<lambda>_. int secs * NANOS), ck_pane = [], ck_read = (\<lambda>_. Inr example_checkpoint)\<rparr>,
        gp_reread = Inl []\<rparr>],
      ga_post = None\<rparr>"

theorem group_ends_witness:
  "\<exists>r co log. execute_group example_env example_group
     \<lparr>gn_found = Inl [], gn_attempts = replicate 5 (example_attempt 100, 0)\<rparr> (coordinator_new, []) = (Some r, co, log)"
  by (rule group_ends)
    (simp_all add: watched_long_enough_def example_attempt_def deciding_poll_def past_timeout_def longer_than_def
      detector_setup_def for_group_def example_group_def NANOS_def list_all_iff)

lemma example_done: "is_group_complete [''work''] example_checkpoint"
proof -
  have i: "phase_index ''drift_review'' = Some 11" by code_simp
  have "phase_before 11 ''work''" by code_simp
  with handover_status [OF i, of "\<lambda>_. []" "create_fresh_checkpoint [] ''arc-00'' ''p.md'' None :: unit checkpoint" "''work''"]
  show ?thesis
    by (auto simp: is_group_complete_def done_in_def example_checkpoint_def status_of_def split: if_splits)
qed

lemma example_plan:
  "\<exists>co log. execute_groups example_env (\<lambda>_. \<lparr>gn_found = Inl [], gn_attempts = [(example_attempt 10, 0)]\<rparr>)
     [example_group] (coordinator_new, []) = (Some (Inr [result_for example_env example_group PgSucceeded (Some 7) None]), co, log)"
  by (simp add: execute_group_def attempt_step_def execute_group_once_def group_preflight_def run_in_session_def
      example_env_def example_group_def executor_config_new_def Let_def pg_failed_def group_step_def completion_tick_def
      longer_than_def for_group_def detector_setup_def completion_state_new_def NANOS_def pane_signal_def
      checkpoint_signal_def example_done example_attempt_def)

theorem plan_success_covers_groups_witness:
  "list_all2 (covered (\<lambda>_. \<lparr>gn_found = Inl [], gn_attempts = [(example_attempt 10, 0)]\<rparr>)) [example_group]
     [result_for example_env example_group PgSucceeded (Some 7) None]"
proof -
  obtain co log where e: "execute_groups example_env (\<lambda>_. \<lparr>gn_found = Inl [], gn_attempts = [(example_attempt 10, 0)]\<rparr>)
     [example_group] (coordinator_new, []) = (Some (Inr [result_for example_env example_group PgSucceeded (Some 7) None]), co, log)"
    using example_plan by blast
  show ?thesis
    by (rule plan_success_covers_groups [OF e]) (simp_all add: example_env_def executor_config_new_def pg_failed_def)
qed


end
