(* ===== verification/Cleanup.thy ===== *)
theory Cleanup
  imports Daemon_Types
begin

text \<open>
  Clean-up before, between and after sessions (\<open>cleanup/\<close>): the sessions of gw and which of them are
  stale, the processes below a pane, how they are killed, and the gate on memory and load. The process
  table, tmux's answers and what becomes of a signal are arguments.
\<close>

section \<open>Sessions\<close>

definition GW_SESSION_PREFIX :: string where "GW_SESSION_PREFIX = ''gw-''"

definition STALE_THRESHOLD_SECS :: nat where "STALE_THRESHOLD_SECS = 600"

text \<open>The answer of \<open>list-sessions\<close>: no tmux, an error to run it, its output, or its complaint.\<close>

datatype tmux_answer = NoTmux | CannotRun string | Answered string | Refused string

definition list_gw_sessions :: "tmux_answer \<Rightarrow> string + string list" where
  "list_gw_sessions a =
    (case a of
       NoTmux \<Rightarrow> Inr []
     | CannotRun e \<Rightarrow> Inl (''Failed to run tmux: '' @ e)
     | Refused err \<Rightarrow>
         if list_ex (\<lambda>w. str_contains w err) [''no server running'', ''no sessions'', ''No such file or directory'']
         then Inr [] else Inl (''tmux list-sessions failed: '' @ err)
     | Answered out \<Rightarrow> Inr (filter (prefix GW_SESSION_PREFIX) (str_lines out)))"

text \<open>What tmux and the system say of a session; \<open>None\<close> where there is no answer.\<close>

record session_facts =
  sf_pane_pid :: "nat option"
  sf_created :: "nat option"
  sf_kill :: io_result

definition I32_MAX :: nat where "I32_MAX = 2147483647"

definition is_pid_alive :: "(nat \<Rightarrow> bool) \<Rightarrow> nat \<Rightarrow> bool" where
  "is_pid_alive answers pid \<longleftrightarrow> pid \<le> I32_MAX \<and> answers pid"

definition is_session_stale :: "(nat \<Rightarrow> bool) \<Rightarrow> nat \<Rightarrow> session_facts \<Rightarrow> nat \<Rightarrow> bool" where
  "is_session_stale answers now_secs f threshold =
    (if (case sf_pane_pid f of Some pid \<Rightarrow> is_pid_alive answers pid | None \<Rightarrow> False) then False
     else case sf_created f of
       Some created \<Rightarrow> now_secs - created \<ge> threshold
     | None \<Rightarrow> True)"

definition tmux_kill_session :: "string \<Rightarrow> tmux_answer \<Rightarrow> string + unit" where
  "tmux_kill_session name a =
    (case a of
       Answered _ \<Rightarrow> Inr ()
     | Refused err \<Rightarrow>
         if list_ex (\<lambda>w. str_contains w err) [''can'' @ [CHR 0x27] @ ''t find session'', ''no session'', ''no server running'']
         then Inr ()
         else Inl (''Failed to kill session '' @ [CHR 0x27] @ name @ [CHR 0x27] @ '': '' @ err)
     | NoTmux \<Rightarrow> Inl ''tmux not found''
     | CannotRun e \<Rightarrow> Inl e)"

text \<open>The sessions killed, in order.\<close>

definition cleanup_stale_sessions ::
  "(nat \<Rightarrow> bool) \<Rightarrow> nat \<Rightarrow> (string \<Rightarrow> session_facts) \<Rightarrow> tmux_answer \<Rightarrow> string + string list" where
  "cleanup_stale_sessions answers now_secs facts a =
     map_sum id
       (filter (\<lambda>s. is_session_stale answers now_secs (facts s) STALE_THRESHOLD_SECS \<and> sf_kill (facts s) = None))
       (list_gw_sessions a)"

definition kill_all_gw_sessions :: "(string \<Rightarrow> session_facts) \<Rightarrow> tmux_answer \<Rightarrow> string + string list" where
  "kill_all_gw_sessions facts a = map_sum id (filter (\<lambda>s. sf_kill (facts s) = None)) (list_gw_sessions a)"

definition get_sessions_status ::
  "(nat \<Rightarrow> bool) \<Rightarrow> (string \<Rightarrow> session_facts) \<Rightarrow> tmux_answer \<Rightarrow> string + (string \<times> bool) list" where
  "get_sessions_status answers facts a =
     map_sum id
       (map (\<lambda>s. (s, case sf_pane_pid (facts s) of Some pid \<Rightarrow> is_pid_alive answers pid | None \<Rightarrow> False)))
       (list_gw_sessions a)"

definition startup_cleanup ::
  "(nat \<Rightarrow> bool) \<Rightarrow> nat \<Rightarrow> (string \<Rightarrow> session_facts) \<Rightarrow> tmux_answer \<Rightarrow> string + string list" where
  "startup_cleanup answers now_secs facts a = cleanup_stale_sessions answers now_secs facts a"

section \<open>Processes below a process\<close>

text \<open>The process table: PIDs with their parents. The stack has its top in front.\<close>

type_synonym process_table = "(nat \<times> nat option) list"

definition children_of :: "process_table \<Rightarrow> nat \<Rightarrow> nat list" where
  "children_of table parent = map fst (filter (\<lambda>(_, p). p = Some parent) table)"

definition push_kid :: "nat \<Rightarrow> nat \<Rightarrow> nat list \<times> nat list \<Rightarrow> nat list \<times> nat list" where
  "push_kid root kid s =
    (case s of (result, stack) \<Rightarrow>
       if kid \<noteq> root \<and> kid \<notin> set result then (result @ [kid], kid # stack) else (result, stack))"

lemma push_kids:
  "fold (push_kid root) kids (result, stack) = (result', stack') \<Longrightarrow>
    set result' = set result \<union> (set kids - {root}) \<and> set stack' = set stack \<union> (set kids - {root} - set result)
    \<and> (distinct result \<longrightarrow> distinct result')
    \<and> (result' = result \<and> stack' = stack \<or> set result \<subset> set result')"
proof (induction kids arbitrary: result stack)
  case (Cons k ks)
  obtain r1 s1 where p: "push_kid root k (result, stack) = (r1, s1)" by fastforce
  from Cons.prems p have "fold (push_kid root) ks (r1, s1) = (result', stack')" by simp
  note ih = Cons.IH [OF this]
  from p have "r1 = result \<and> s1 = stack \<and> (k = root \<or> k \<in> set result)
      \<or> r1 = result @ [k] \<and> s1 = k # stack \<and> k \<noteq> root \<and> k \<notin> set result"
    by (auto simp: push_kid_def split: if_splits)
  then show ?case
  proof
    assume "r1 = result \<and> s1 = stack \<and> (k = root \<or> k \<in> set result)"
    with ih show ?thesis by auto
  next
    assume a: "r1 = result @ [k] \<and> s1 = k # stack \<and> k \<noteq> root \<and> k \<notin> set result"
    with ih have "k \<in> set result'" by simp
    with a ih show ?thesis by auto
  qed
qed simp

function dfs :: "process_table \<Rightarrow> nat \<Rightarrow> nat list \<Rightarrow> nat list \<Rightarrow> nat list" where
  "dfs table root result [] = result"
| "dfs table root result (parent # stack) =
    (case fold (push_kid root) (children_of table parent) (result, stack) of
       (result', stack') \<Rightarrow> dfs table root result' stack')"
  by pat_completeness auto

termination
proof (relation "measures [\<lambda>(table, root, result, stack). card (fst ` set table - set result),
    \<lambda>(table, root, result, stack). length stack]")
  fix table :: process_table and root parent stack and result :: "nat list" and result' stack'
  assume x: "(result', stack') = fold (push_kid root) (children_of table parent) (result, stack)"
  have kids: "set (children_of table parent) \<subseteq> fst ` set table" by (auto simp: children_of_def)
  have f: "fold (push_kid root) (children_of table parent) (result, stack) = (result', stack')" using x by simp
  note p = push_kids [OF f, THEN conjunct1] push_kids [OF f, THEN conjunct2, THEN conjunct2, THEN conjunct2]
  have "card (fst ` set table - set result') < card (fst ` set table - set result)" if "set result \<subset> set result'"
  proof (rule psubset_card_mono)
    show "fst ` set table - set result' \<subset> fst ` set table - set result" 
    proof -
      from that have sub: "set result \<subseteq> set result'" by (rule psubset_imp_subset)
      from that obtain q where q: "q \<in> set result'" "q \<notin> set result" by blast
      with p(1) kids have "q \<in> fst ` set table" by auto
      with q sub show ?thesis by auto
    qed
  qed simp
  moreover have "length stack' < length (parent # stack)" if "result' = result \<and> stack' = stack" using that by simp
  ultimately show "((table, root, result', stack'), table, root, result, parent # stack)
      \<in> measures [\<lambda>(table, root, result, stack). card (fst ` set table - set result),
        \<lambda>(table, root, result, stack). length stack]"
    using p(2) by (auto simp del: card_Diff_subset)
qed simp

definition collect_descendants :: "process_table \<Rightarrow> nat \<Rightarrow> nat list" where
  "collect_descendants table root = dfs table root [] [root]"

section \<open>Killing processes\<close>

datatype kill_signal = SigTerm nat | SigKill nat

definition signal_all :: "(nat \<Rightarrow> kill_signal) \<Rightarrow> nat list \<Rightarrow> kill_signal list" where
  "signal_all sig pids = map sig (filter (\<lambda>p. p \<le> I32_MAX) pids)"

text \<open>The signals in their order, and the count reported; \<open>alive\<close> is asked after two seconds.\<close>

definition kill_process_tree :: "process_table \<Rightarrow> (nat \<Rightarrow> bool) \<Rightarrow> nat \<Rightarrow> kill_signal list \<times> nat" where
  "kill_process_tree table alive root =
    (let below = collect_descendants table root; tree = below @ [root];
         still = filter (is_pid_alive alive) tree;
         terms = signal_all SigTerm tree
     in if still = [] then (terms, length tree - length still)
        else (terms @ signal_all SigKill still, length below + 1))"

text \<open>
  The processes of stale sessions. The first answers are those while the sessions are looked at, the
  second those after the wait; whether a session is asked to end is given by its name.
\<close>

fun kill_owned_sessions ::
  "process_table \<Rightarrow> (nat \<Rightarrow> bool) \<Rightarrow> nat \<Rightarrow> (string \<Rightarrow> session_facts) \<Rightarrow> (string \<Rightarrow> nat option) \<Rightarrow> string list \<Rightarrow>
    nat list \<times> string list" where
  "kill_owned_sessions table answers now_secs facts pid_again [] = ([], [])"
| "kill_owned_sessions table answers now_secs facts pid_again (s # ss) =
    (let rest = kill_owned_sessions table answers now_secs facts pid_again ss in
     if \<not> is_session_stale answers now_secs (facts s) 600 then rest
     else case pid_again s of
       None \<Rightarrow> (fst rest, s # snd rest)
     | Some pane \<Rightarrow>
         if \<not> is_pid_alive answers pane then rest
         else (filter (\<lambda>p. p \<le> I32_MAX) (collect_descendants table pane @ [pane]) @ fst rest, s # snd rest))"

definition kill_gw_owned_claude_processes ::
  "process_table \<Rightarrow> (nat \<Rightarrow> bool) \<Rightarrow> (nat \<Rightarrow> bool) \<Rightarrow> nat \<Rightarrow> (string \<Rightarrow> session_facts) \<Rightarrow> (string \<Rightarrow> nat option) \<Rightarrow>
    tmux_answer \<Rightarrow> string + nat list \<times> kill_signal list \<times> string list" where
  "kill_gw_owned_claude_processes table answers later now_secs facts pid_again a =
     map_sum id
       (\<lambda>sessions. case kill_owned_sessions table answers now_secs facts pid_again sessions of
          (pids, gone) \<Rightarrow> (pids, map SigTerm pids @ signal_all SigKill (filter (is_pid_alive later) pids), gone))
       (list_gw_sessions a)"

text \<open>Before a phase: stale sessions, then the processes of stale sessions.\<close>

definition pre_phase_cleanup :: "io_result \<Rightarrow> io_result \<Rightarrow> io_result" where
  "pre_phase_cleanup stale owned = (case stale of Some e \<Rightarrow> Some e | None \<Rightarrow> owned)"

text \<open>After a phase: the signals and whether nothing is left; the tables are those before and after.\<close>

definition post_phase_cleanup :: "process_table \<Rightarrow> process_table \<Rightarrow> nat \<Rightarrow> kill_signal list \<times> bool" where
  "post_phase_cleanup before after pane =
    (let remaining = collect_descendants before pane in
     if remaining = [] then ([], True)
     else (signal_all SigKill remaining, collect_descendants after pane = []))"

definition verify_cleanup :: "process_table \<Rightarrow> process_table \<Rightarrow> nat \<Rightarrow> kill_signal list \<times> bool" where
  "verify_cleanup before after pid =
    (let remaining = collect_descendants before pid in
     if remaining = [] then ([], True)
     else (map SigKill remaining, collect_descendants after pid = []))"

section \<open>Owned processes\<close>

type_synonym owned_registry = "(string, nat) hash_map"

definition register_owned :: "string \<Rightarrow> nat \<Rightarrow> owned_registry \<Rightarrow> owned_registry" where
  "register_owned s pid r = hm_insert s pid r"

definition unregister_owned :: "string \<Rightarrow> owned_registry \<Rightarrow> owned_registry" where
  "unregister_owned s r = hm_remove s r"

definition is_owned :: "nat \<Rightarrow> owned_registry \<Rightarrow> bool" where
  "is_owned pid r \<longleftrightarrow> pid \<in> set (hm_values r)"

definition kill_all_owned ::
  "process_table \<Rightarrow> (nat \<Rightarrow> bool) \<Rightarrow> (nat \<Rightarrow> bool) \<Rightarrow> owned_registry \<Rightarrow> (kill_signal list \<times> nat) \<times> owned_registry" where
  "kill_all_owned table answers later r =
    (let trees = map (kill_process_tree table later) (filter (is_pid_alive answers) (hm_values r))
     in ((concat (map fst trees), sum_list (map snd trees)), []))"

section \<open>The gate on memory and load\<close>

text \<open>Bytes of memory; the load in hundredths of a per cent.\<close>

record system_load =
  sl_available_ram :: nat
  sl_cpu_usage :: nat

record health_check =
  hc_min_free_ram :: nat
  hc_max_cpu :: nat
  hc_wait_timeout :: nat
  hc_check_interval :: nat

definition MIN_FREE_RAM_MB :: nat where "MIN_FREE_RAM_MB = 500"

definition MAX_CPU :: nat where "MAX_CPU = 9000"

definition health_check_default :: health_check where
  "health_check_default =
     \<lparr>hc_min_free_ram = MIN_FREE_RAM_MB * 1024 * 1024, hc_max_cpu = MAX_CPU, hc_wait_timeout = 60, hc_check_interval = 5\<rparr>"

definition with_thresholds :: "nat \<Rightarrow> nat \<Rightarrow> health_check" where
  "with_thresholds min_ram_mb max_cpu =
     health_check_default\<lparr>hc_min_free_ram := min_ram_mb * 1024 * 1024, hc_max_cpu := max_cpu\<rparr>"

definition has_sufficient_ram :: "system_load \<Rightarrow> bool" where
  "has_sufficient_ram l \<longleftrightarrow> sl_available_ram l div 1024 div 1024 \<ge> MIN_FREE_RAM_MB"

definition has_acceptable_cpu :: "system_load \<Rightarrow> bool" where
  "has_acceptable_cpu l \<longleftrightarrow> sl_cpu_usage l < MAX_CPU"

definition is_healthy :: "health_check \<Rightarrow> system_load \<Rightarrow> bool" where
  "is_healthy h l \<longleftrightarrow> has_sufficient_ram l \<and> has_acceptable_cpu l"

text \<open>The numbers in the reason are left out.\<close>

definition quick_check :: "health_check \<Rightarrow> system_load \<Rightarrow> string + system_load" where
  "quick_check h l =
    (if is_healthy h l then Inr l
     else Inl (''System unhealthy: '' @
       (if \<not> has_acceptable_cpu l then ''CPU usage too high'' else ''Insufficient RAM'')))"

text \<open>The loads found at the checks with the seconds since the start, until one is healthy or the time is over.\<close>

fun wait_for_health :: "health_check \<Rightarrow> (system_load \<times> nat) list \<Rightarrow> (nat + system_load) option" where
  "wait_for_health h [] = None"
| "wait_for_health h ((l, elapsed) # ls) =
    (if is_healthy h l then Some (Inr l)
     else if elapsed \<ge> hc_wait_timeout h then Some (Inl (hc_wait_timeout h))
     else wait_for_health h ls)"

section \<open>The traversal finds exactly the descendants\<close>

definition parent_of :: "process_table \<Rightarrow> (nat \<times> nat) set" where
  "parent_of table = {(p, c). (c, Some p) \<in> set table}"

lemma children_of_set: "set (children_of table p) = parent_of table `` {p}"
  by (force simp: children_of_def parent_of_def)

lemma dfs_sound:
  assumes "set result \<subseteq> (parent_of table)\<^sup>+ `` {root} - {root}" "set stack \<subseteq> insert root (set result)"
  shows "set (dfs table root result stack) \<subseteq> (parent_of table)\<^sup>+ `` {root} - {root}"
  using assms
proof (induction table root result stack rule: dfs.induct)
  case (2 table root result parent stack)
  obtain r s where f: "fold (push_kid root) (children_of table parent) (result, stack) = (r, s)" by fastforce
  have "parent = root \<or> (root, parent) \<in> (parent_of table)\<^sup>+" using "2.prems" by auto
  then have kids: "set (children_of table parent) \<subseteq> (parent_of table)\<^sup>+ `` {root}"
    by (auto simp: children_of_set intro: trancl_into_trancl)
  have "set r \<subseteq> (parent_of table)\<^sup>+ `` {root} - {root}" "set s \<subseteq> insert root (set r)"
    using push_kids [OF f] "2.prems" kids by auto
  with "2.IH" [OF f [symmetric]] f show ?case by simp
qed simp

lemma dfs_complete:
  assumes "\<forall>p \<in> insert root (set result) - set stack. parent_of table `` {p} \<subseteq> insert root (set result)"
  shows "set result \<subseteq> set (dfs table root result stack)
    \<and> (\<forall>p \<in> insert root (set (dfs table root result stack)).
          parent_of table `` {p} \<subseteq> insert root (set (dfs table root result stack)))"
  using assms
proof (induction table root result stack rule: dfs.induct)
  case (2 table root result parent stack)
  obtain r s where f: "fold (push_kid root) (children_of table parent) (result, stack) = (r, s)" by fastforce
  note k = push_kids [OF f, unfolded children_of_set]
  have "\<forall>p \<in> insert root (set r) - set s. parent_of table `` {p} \<subseteq> insert root (set r)"
  proof
    fix p assume p: "p \<in> insert root (set r) - set s"
    show "parent_of table `` {p} \<subseteq> insert root (set r)"
    proof (cases "p = parent")
      case False
      with p k have "p \<in> insert root (set result) - set (parent # stack)" by auto
      with "2.prems" k show ?thesis by blast
    qed (use k in auto)
  qed
  with "2.IH" [OF f [symmetric]] f k show ?case by auto
qed simp

lemma dfs_distinct: "distinct result \<Longrightarrow> distinct (dfs table root result stack)"
proof (induction table root result stack rule: dfs.induct)
  case (2 table root result parent stack)
  obtain r s where f: "fold (push_kid root) (children_of table parent) (result, stack) = (r, s)" by fastforce
  with push_kids [OF f] "2.IH" [OF f [symmetric]] "2.prems" show ?case by simp
qed simp

lemma descendants_set: "set (collect_descendants table root) = (parent_of table)\<^sup>+ `` {root} - {root}"
proof -
  let ?D = "set (collect_descendants table root)"
  have c: "\<forall>p \<in> insert root ?D. parent_of table `` {p} \<subseteq> insert root ?D"
    using dfs_complete [of root "[]" "[root]" table] by (simp add: collect_descendants_def)
  have "(root, p) \<in> (parent_of table)\<^sup>+ \<Longrightarrow> p \<in> insert root ?D" for p
    by (induction rule: trancl_induct) (use c in blast)+
  moreover have "?D \<subseteq> (parent_of table)\<^sup>+ `` {root} - {root}"
    using dfs_sound [of "[]" table root "[root]"] by (simp add: collect_descendants_def)
  ultimately show ?thesis by auto
qed


theorem descendants_once: "distinct (collect_descendants table root)"
  unfolding collect_descendants_def by (rule dfs_distinct) simp

text \<open>
  The processes of stale sessions are never killed: a session is stale only when its pane has no
  living process, and without one nothing is done.
\<close>

theorem no_owned_process_is_killed:
  assumes "\<forall>s. pid_again s = sf_pane_pid (facts s)"
  shows "fst (kill_owned_sessions table answers now_secs facts pid_again ss) = []"
  using assms
  by (induction ss) (auto simp: is_session_stale_def Let_def split: option.split)

text \<open>The thresholds of a health check are not looked at.\<close>

theorem thresholds_are_ignored: "wait_for_health (with_thresholds ram cpu) ls = wait_for_health health_check_default ls"
proof -
  have "hc_wait_timeout (with_thresholds ram cpu) = hc_wait_timeout health_check_default"
    by (simp add: with_thresholds_def)
  then show ?thesis by (induction ls) (auto simp: is_healthy_def)
qed

end
