(* ===== verification/Batch.thy ===== *)
theory Batch
  imports Phase_Executor Daemon_Life Cleanup
begin

text \<open>
  The batch runner (\<open>batch/\<close>): the state that is saved, the circuit breaker, the run over a queue of
  plans with everything that can end it early, resuming, and the lock that keeps a second instance out.
  What a plan meets is given by its position; whether a save succeeds by the number of saves before it.
\<close>

section \<open>The state\<close>

datatype PlanOutcome = Passed | Failed_Plan | Skipped_Plan

record plan_result =
  bp_plan :: string
  bp_outcome :: PlanOutcome
  bp_duration :: nat
  bp_completed_at :: utc
  bp_error :: "string option"
  bp_transient :: bool

record breaker_state =
  bk_consecutive_failures :: nat
  bk_max_failures :: nat
  bk_tripped :: bool

record batch_state =
  bt_batch_id :: string
  bt_plans :: "string list"
  bt_current_index :: nat
  bt_results :: "plan_result list"
  bt_breaker :: breaker_state
  bt_started_at :: utc
  bt_updated_at :: utc

definition batch_new :: "utc \<Rightarrow> string \<Rightarrow> string list \<Rightarrow> batch_state" where
  "batch_new now stamp plans =
     \<lparr>bt_batch_id = ''batch-'' @ stamp, bt_plans = plans, bt_current_index = 0, bt_results = [],
      bt_breaker = \<lparr>bk_consecutive_failures = 0, bk_max_failures = 3, bk_tripped = False\<rparr>,
      bt_started_at = now, bt_updated_at = now\<rparr>"

definition with_max_failures :: "nat \<Rightarrow> batch_state \<Rightarrow> batch_state" where
  "with_max_failures n b = b\<lparr>bt_breaker := (bt_breaker b)\<lparr>bk_max_failures := n\<rparr>\<rparr>"

definition breaker_after :: "plan_result \<Rightarrow> breaker_state \<Rightarrow> breaker_state" where
  "breaker_after r k =
    (case bp_outcome r of
       Passed \<Rightarrow> k\<lparr>bk_consecutive_failures := 0, bk_tripped := False\<rparr>
     | Failed_Plan \<Rightarrow>
         if bp_transient r then k
         else let n = bk_consecutive_failures k + 1 in
           k\<lparr>bk_consecutive_failures := n,
             bk_tripped := (if bk_max_failures k > 0 \<and> n \<ge> bk_max_failures k then True else bk_tripped k)\<rparr>
     | Skipped_Plan \<Rightarrow> k)"

definition record_result :: "plan_result \<Rightarrow> batch_state \<Rightarrow> batch_state" where
  "record_result r b =
    (let b1 = b\<lparr>bt_breaker := breaker_after r (bt_breaker b)\<rparr> in
     if bt_current_index b1 \<ge> length (bt_plans b1) then b1
     else b1\<lparr>bt_results := bt_results b1 @ [r], bt_current_index := bt_current_index b1 + 1\<rparr>)"

definition is_circuit_broken :: "batch_state \<Rightarrow> bool" where
  "is_circuit_broken b \<longleftrightarrow> bk_tripped (bt_breaker b)"

definition has_remaining :: "batch_state \<Rightarrow> bool" where
  "has_remaining b \<longleftrightarrow> bt_current_index b < length (bt_plans b)"

definition next_plan :: "batch_state \<Rightarrow> string option" where
  "next_plan b = (if bt_current_index b < length (bt_plans b) then Some (bt_plans b ! bt_current_index b) else None)"

section \<open>The timeout of a plan\<close>

definition DEFAULT_PLAN_TIMEOUT_SECS :: nat where "DEFAULT_PLAN_TIMEOUT_SECS = 3 * 60 * 60"

text \<open>In a build without overflow checks the product wraps; with them it panics.\<close>

definition parse_plan_timeout :: "string option \<Rightarrow> nat" where
  "parse_plan_timeout var =
    (case var of
       None \<Rightarrow> DEFAULT_PLAN_TIMEOUT_SECS
     | Some v \<Rightarrow>
         let s = trim v;
             (num, multiplier) =
               (if s \<noteq> [] \<and> last s = CHR ''h'' then (butlast s, 3600)
                else if s \<noteq> [] \<and> last s = CHR ''m'' then (butlast s, 60)
                else if s \<noteq> [] \<and> last s = CHR ''s'' then (butlast s, 1)
                else (s, 1))
         in case parse_u64 num of
              Some n \<Rightarrow> (n * multiplier) mod 2 ^ 64
            | None \<Rightarrow> DEFAULT_PLAN_TIMEOUT_SECS)"

section \<open>One plan\<close>

record batch_io =
  bi_disk :: "nat \<Rightarrow> io_result"
  bi_cleanup :: "nat \<Rightarrow> io_result"
  bi_exists :: "nat \<Rightarrow> bool"
  bi_exec :: "nat \<Rightarrow> string + phase_group_result list"
  bi_took :: "nat \<Rightarrow> nat"
  bi_now :: "nat \<Rightarrow> utc"
  bi_save :: "nat \<Rightarrow> io_result"
  bi_saved_at :: "nat \<Rightarrow> utc"

definition result_of :: "string \<Rightarrow> PlanOutcome \<Rightarrow> nat \<Rightarrow> utc \<Rightarrow> string option \<Rightarrow> bool \<Rightarrow> plan_result" where
  "result_of plan out took now err tr =
     \<lparr>bp_plan = plan, bp_outcome = out, bp_duration = took, bp_completed_at = now, bp_error = err, bp_transient = tr\<rparr>"

definition transient_group :: "phase_group_result \<Rightarrow> bool" where
  "transient_group r \<longleftrightarrow> (case gx_state r of PgFailed _ c \<Rightarrow> c = ApiOverload \<or> c = NetworkError | _ \<Rightarrow> False)"

text \<open>The duration is in seconds.\<close>

definition execute_batch_plan :: "batch_io \<Rightarrow> nat \<Rightarrow> nat \<Rightarrow> string \<Rightarrow> plan_result" where
  "execute_batch_plan io timeout i plan =
    (if \<not> bi_exists io i
     then result_of plan Failed_Plan 0 (bi_now io i) (Some (''Plan file not found: '' @ plan)) False
     else case bi_exec io i of
       Inr rs \<Rightarrow>
         if list_ex (\<lambda>r. pg_failed (gx_state r)) rs
         then result_of plan Failed_Plan (bi_took io i) (bi_now io i)
                (Some (join_with ''; '' (List.map_filter gx_error_message rs))) (list_ex transient_group rs)
         else result_of plan Passed (bi_took io i) (bi_now io i) None False
     | Inl e \<Rightarrow>
         result_of plan Failed_Plan (bi_took io i) (bi_now io i)
           (Some (if bi_took io i \<ge> timeout then ''Plan timed out after '' @ show_nat (bi_took io i) @ ''s: '' @ e else e)) False)"

section \<open>The run\<close>

text \<open>The runner with the file on disk, the saves so far and the plans handed to the executor.\<close>

record batch_runner =
  br_state :: batch_state
  br_disk :: "batch_state option"
  br_saves :: nat
  br_executed :: "string list"

definition save_batch :: "batch_io \<Rightarrow> batch_runner \<Rightarrow> string option \<times> batch_runner" where
  "save_batch io r =
    (let r1 = r\<lparr>br_state := (br_state r)\<lparr>bt_updated_at := bi_saved_at io (br_saves r)\<rparr>, br_saves := br_saves r + 1\<rparr> in
     case bi_save io (br_saves r) of
       Some e \<Rightarrow> (Some e, r1)
     | None \<Rightarrow> (None, r1\<lparr>br_disk := Some (br_state r1)\<rparr>))"

definition recorded :: "plan_result \<Rightarrow> batch_runner \<Rightarrow> batch_runner" where
  "recorded x r = r\<lparr>br_state := record_result x (br_state r)\<rparr>"

definition breaker_skip :: "batch_io \<Rightarrow> string \<Rightarrow> batch_runner \<Rightarrow> batch_runner" where
  "breaker_skip io plan r =
     recorded (result_of plan Skipped_Plan 0 (bi_now io (bt_current_index (br_state r)))
       (Some ''Circuit breaker tripped'') False) r"

text \<open>The error that ended the run early, if one did.\<close>

fun batch_loop :: "batch_io \<Rightarrow> nat \<Rightarrow> string list \<Rightarrow> batch_runner \<Rightarrow> string option \<times> batch_runner" where
  "batch_loop io timeout [] r = (None, r)"
| "batch_loop io timeout (plan # queue) r =
    (let i = bt_current_index (br_state r) in
     if is_circuit_broken (br_state r) then
       (case save_batch io (breaker_skip io plan r) of
          (Some e, r1) \<Rightarrow> (Some e, r1)
        | (None, r1) \<Rightarrow> save_batch io (fold (breaker_skip io) queue r1))
     else case bi_disk io i of
       Some e \<Rightarrow>
         (case save_batch io
            (recorded (result_of plan Failed_Plan 0 (bi_now io i) (Some (''Disk space check failed: '' @ e)) False) r) of
            (Some e, r1) \<Rightarrow> (Some e, r1)
          | (None, r1) \<Rightarrow> batch_loop io timeout queue r1)
     | None \<Rightarrow>
         (case (if bt_results (br_state r) \<noteq> [] then bi_cleanup io i else None) of
            Some e \<Rightarrow> (Some (''Inter-plan cleanup failed: '' @ e), r)
          | None \<Rightarrow>
              (case save_batch io
                 (recorded (execute_batch_plan io timeout i plan) (r\<lparr>br_executed := br_executed r @ [plan]\<rparr>)) of
                 (Some e, r1) \<Rightarrow> (Some e, r1)
               | (None, r1) \<Rightarrow> batch_loop io timeout queue r1)))"

record batch_summary =
  bs_batch_id :: string
  bs_passed :: nat
  bs_failed :: nat
  bs_skipped :: nat
  bs_results :: "plan_result list"

definition build_summary :: "batch_state \<Rightarrow> batch_summary" where
  "build_summary b =
    (let count = (\<lambda>out. length (filter (\<lambda>r. bp_outcome r = out) (bt_results b))) in
     \<lparr>bs_batch_id = bt_batch_id b, bs_passed = count Passed, bs_failed = count Failed_Plan,
      bs_skipped = count Skipped_Plan, bs_results = bt_results b\<rparr>)"

definition run_batch_queue ::
  "batch_io \<Rightarrow> nat \<Rightarrow> string list \<Rightarrow> batch_runner \<Rightarrow> (string + batch_summary) \<times> batch_runner" where
  "run_batch_queue io timeout queue r =
    (case save_batch io r of
       (Some e, r1) \<Rightarrow> (Inl e, r1)
     | (None, r1) \<Rightarrow>
         (case batch_loop io timeout queue r1 of
            (Some e, r2) \<Rightarrow> (Inl e, r2)
          | (None, r2) \<Rightarrow> (Inr (build_summary (br_state r2)), r2)))"

definition runner_new :: "batch_state option \<Rightarrow> utc \<Rightarrow> string \<Rightarrow> string list \<Rightarrow> batch_runner \<times> string list" where
  "runner_new disk now stamp plans =
     (\<lparr>br_state = batch_new now stamp plans, br_disk = disk, br_saves = 0, br_executed = []\<rparr>, plans)"

text \<open>Resuming reads the file after the lock is taken; the queue is what the index has not passed.\<close>

definition resume_batch :: "bool \<Rightarrow> io_result \<Rightarrow> string + batch_state \<Rightarrow> string + batch_runner \<times> string list" where
  "resume_batch found lock content =
    (if \<not> found then Inl ''No batch state found at .gw/batch-state.json. Nothing to resume.''
     else case lock of
       Some e \<Rightarrow> Inl (''Failed to acquire instance lock for resume: '' @ e)
     | None \<Rightarrow>
         (case content of
            Inl e \<Rightarrow> Inl (''Failed to load batch state for resume: '' @ e)
          | Inr b \<Rightarrow>
              Inr (\<lparr>br_state = b, br_disk = Some b, br_saves = 0, br_executed = []\<rparr>,
                   drop (bt_current_index b) (bt_plans b))))"

section \<open>The instance lock\<close>

text \<open>
  The lock file in terms of opens, locks and removals: \<open>acquire\<close> gives up at once and closes the file,
  a blocking acquire opens the file and waits, and a dropped lock removes the file before it is closed.
\<close>

definition instance_acquire :: "nat \<Rightarrow> pid_lock \<Rightarrow> bool \<times> pid_lock" where
  "instance_acquire p s =
    (case try_lock_exclusive p (open_pid p s) of
       (True, s') \<Rightarrow> (True, s')
     | (False, s') \<Rightarrow> (False, unlock_pid p s'))"

definition instance_wait :: "nat \<Rightarrow> pid_lock \<Rightarrow> pid_lock" where
  "instance_wait p s = open_pid p s"

definition instance_granted :: "nat \<Rightarrow> pid_lock \<Rightarrow> bool \<times> pid_lock" where
  "instance_granted p s = try_lock_exclusive p s"

definition instance_release :: "pid_lock \<Rightarrow> pid_lock" where
  "instance_release s = unlink_pid s"

definition instance_drop :: "nat \<Rightarrow> pid_lock \<Rightarrow> pid_lock" where
  "instance_drop p s = unlock_pid p (unlink_pid s)"

text \<open>What the start of a run does with the owner on file, before it waits for the lock.\<close>

definition plans_equivalent :: "(path \<Rightarrow> path option) \<Rightarrow> path \<Rightarrow> path \<Rightarrow> path \<Rightarrow> bool" where
  "plans_equivalent canonicalize a b cwd =
    (let canon = (\<lambda>p. let whole = (if prefix ''/'' p then p else path_join cwd p) in
                   case canonicalize whole of Some c \<Rightarrow> c | None \<Rightarrow> whole)
     in path_components (canon a) = path_components (canon b))"

definition may_queue ::
  "(path \<Rightarrow> path option) \<Rightarrow> (nat \<times> path) option \<Rightarrow> (nat \<Rightarrow> bool) \<Rightarrow> path option \<Rightarrow> path \<Rightarrow> bool" where
  "may_queue canonicalize owner alive plan_hint cwd \<longleftrightarrow>
    (case owner of
       None \<Rightarrow> True
     | Some (pid, plan_file) \<Rightarrow>
         \<not> (is_pid_alive alive pid
            \<and> (case plan_hint of Some p \<Rightarrow> plans_equivalent canonicalize p plan_file cwd | None \<Rightarrow> False)))"

section \<open>Resuming loses nothing\<close>

definition batch_ok :: "batch_state \<Rightarrow> bool" where
  "batch_ok b \<longleftrightarrow>
    bt_current_index b \<le> length (bt_plans b) \<and> map bp_plan (bt_results b) = take (bt_current_index b) (bt_plans b)"

text \<open>The runner is at a plan: its state is in order, and so is the one on disk, which is at most as far.\<close>

definition runner_at :: "string list \<Rightarrow> nat \<Rightarrow> string list \<Rightarrow> batch_runner \<Rightarrow> bool" where
  "runner_at plans start queue r \<longleftrightarrow>
    batch_ok (br_state r) \<and> bt_plans (br_state r) = plans \<and> queue = drop (bt_current_index (br_state r)) plans
    \<and> (\<exists>b. br_disk r = Some b \<and> batch_ok b \<and> bt_plans b = plans \<and> start \<le> bt_current_index b
         \<and> bt_current_index b \<le> bt_current_index (br_state r)
         \<and> length (br_executed r) + start \<le> bt_current_index b)"

text \<open>When a run has stopped, at most the last plan executed is missing on disk.\<close>

definition runner_stopped :: "string list \<Rightarrow> nat \<Rightarrow> batch_runner \<Rightarrow> bool" where
  "runner_stopped plans start r \<longleftrightarrow>
    (\<exists>b. br_disk r = Some b \<and> batch_ok b \<and> bt_plans b = plans \<and> start \<le> bt_current_index b
       \<and> length (br_executed r) + start \<le> bt_current_index b + 1)"

lemma at_stopped: "runner_at plans start queue r \<Longrightarrow> runner_stopped plans start r"
  by (auto simp: runner_at_def runner_stopped_def)

lemma record_result_next:
  assumes "batch_ok b" "drop (bt_current_index b) (bt_plans b) = bp_plan x # queue"
  shows "batch_ok (record_result x b) \<and> bt_plans (record_result x b) = bt_plans b
    \<and> bt_current_index (record_result x b) = bt_current_index b + 1
    \<and> drop (Suc (bt_current_index b)) (bt_plans b) = queue"
proof -
  let ?i = "bt_current_index b"
  from assms(2) have i: "?i < length (bt_plans b)" by (metis drop_eq_Nil2 list.distinct(1) not_le)
  with assms(2) have "bt_plans b ! ?i = bp_plan x" "drop (Suc ?i) (bt_plans b) = queue"
    by (metis list.inject Cons_nth_drop_Suc)+
  with assms(1) i show ?thesis by (simp add: batch_ok_def record_result_def Let_def take_Suc_conv_app_nth)
qed

text \<open>A result has been recorded and is not saved yet.\<close>

definition runner_due :: "string list \<Rightarrow> nat \<Rightarrow> string list \<Rightarrow> batch_runner \<Rightarrow> bool" where
  "runner_due plans start queue r \<longleftrightarrow>
    batch_ok (br_state r) \<and> bt_plans (br_state r) = plans \<and> queue = drop (bt_current_index (br_state r)) plans
    \<and> length (br_executed r) + start \<le> bt_current_index (br_state r) \<and> start \<le> bt_current_index (br_state r)
    \<and> runner_stopped plans start r"

lemma at_due: "runner_at plans start queue r \<Longrightarrow> runner_due plans start queue r"
  using at_stopped [of plans start queue r] by (auto simp: runner_at_def runner_due_def)

lemma recorded_due:
  assumes "runner_at plans start (bp_plan x # queue) r" "length ex \<le> 1"
  shows "runner_due plans start queue (recorded x (r\<lparr>br_executed := br_executed r @ ex\<rparr>))"
proof -
  from assms(1) have r: "batch_ok (br_state r)" "drop (bt_current_index (br_state r)) (bt_plans (br_state r)) = bp_plan x # queue"
    "bt_plans (br_state r) = plans"
    by (simp_all add: runner_at_def)
  from assms(1) obtain b where b: "br_disk r = Some b" "batch_ok b" "bt_plans b = plans" "start \<le> bt_current_index b"
    "bt_current_index b \<le> bt_current_index (br_state r)" "length (br_executed r) + start \<le> bt_current_index b"
    unfolding runner_at_def by blast
  note n = record_result_next [OF r(1,2)]
  have "runner_stopped plans start (recorded x (r\<lparr>br_executed := br_executed r @ ex\<rparr>))"
    using b assms(2) by (simp add: runner_stopped_def recorded_def)
  with n r(3) b assms(2) show ?thesis by (simp add: runner_due_def recorded_def)
qed

lemma save_due:
  assumes "runner_due plans start queue r" "save_batch io r = (e, r')"
  shows "(case e of None \<Rightarrow> runner_at plans start queue r' | Some _ \<Rightarrow> runner_stopped plans start r')"
proof (cases "bi_save io (br_saves r)")
  case None
  with assms(2) have r': "e = None" "br_state r' = (br_state r)\<lparr>bt_updated_at := bi_saved_at io (br_saves r)\<rparr>"
    "br_disk r' = Some (br_state r')" "br_executed r' = br_executed r"
    by (auto simp: save_batch_def Let_def)
  have "batch_ok (br_state r')" using assms(1) r'(2) by (auto simp: runner_due_def batch_ok_def)
  with assms(1) r' show ?thesis by (simp add: runner_due_def runner_at_def)
next
  case (Some x)
  with assms(2) have "e = Some x" "br_disk r' = br_disk r" "br_executed r' = br_executed r"
    by (auto simp: save_batch_def Let_def)
  with assms(1) show ?thesis by (simp add: runner_due_def runner_stopped_def)
qed

lemma result_of_plan [simp]: "bp_plan (result_of plan out took now err tr) = plan"
  by (simp add: result_of_def)

lemma batch_plan_plan [simp]: "bp_plan (execute_batch_plan io timeout i plan) = plan"
  by (simp add: execute_batch_plan_def split: sum.split)

lemma breaker_skips:
  "runner_at plans start (plan # queue) r \<Longrightarrow> runner_at plans start queue (breaker_skip io plan r)"
proof -
  assume at: "runner_at plans start (plan # queue) r"
  let ?x = "result_of plan Skipped_Plan 0 (bi_now io (bt_current_index (br_state r))) (Some ''Circuit breaker tripped'') False"
  have "batch_ok (record_result ?x (br_state r)) \<and> bt_plans (record_result ?x (br_state r)) = plans
      \<and> bt_current_index (record_result ?x (br_state r)) = Suc (bt_current_index (br_state r))
      \<and> drop (Suc (bt_current_index (br_state r))) plans = queue"
    using record_result_next [of "br_state r" ?x queue] at by (simp add: runner_at_def)
  moreover obtain b where "br_disk r = Some b" "batch_ok b" "bt_plans b = plans" "start \<le> bt_current_index b"
    "bt_current_index b \<le> bt_current_index (br_state r)" "length (br_executed r) + start \<le> bt_current_index b"
    using at unfolding runner_at_def by blast
  ultimately show ?thesis by (simp add: runner_at_def breaker_skip_def recorded_def)
qed

lemma breaker_skips_all:
  "runner_at plans start queue r \<Longrightarrow> runner_at plans start [] (fold (breaker_skip io) queue r)"
  by (induction queue arbitrary: r) (auto dest: breaker_skips)

lemma batch_loop_stops:
  "runner_at plans start queue r \<Longrightarrow> batch_loop io timeout queue r = (e, r') \<Longrightarrow>
    (case e of None \<Rightarrow> runner_at plans start [] r' | Some _ \<Rightarrow> runner_stopped plans start r')"
proof (induction queue arbitrary: r)
  case (Cons plan queue)
  let ?i = "bt_current_index (br_state r)"
  have next': ?case
    if x: "bp_plan x = plan" "length ex \<le> 1"
      and l: "batch_loop io timeout (plan # queue) r =
        (case save_batch io (recorded x (r\<lparr>br_executed := br_executed r @ ex\<rparr>)) of
           (Some e, r1) \<Rightarrow> (Some e, r1) | (None, r1) \<Rightarrow> batch_loop io timeout queue r1)" for x ex
  proof -
    obtain e1 r1 where s: "save_batch io (recorded x (r\<lparr>br_executed := br_executed r @ ex\<rparr>)) = (e1, r1)" by fastforce
    have "(case e1 of None \<Rightarrow> runner_at plans start queue r1 | Some _ \<Rightarrow> runner_stopped plans start r1)"
      by (rule save_due [OF recorded_due [OF _ x(2)] s]) (use Cons.prems(1) x(1) in simp)
    with Cons.IH [of r1] Cons.prems(2) l s show ?thesis by (cases e1) auto
  qed
  show ?case
  proof (cases "is_circuit_broken (br_state r)")
    case True
    obtain e1 r1 where s: "save_batch io (breaker_skip io plan r) = (e1, r1)" by fastforce
    note s1 = save_due [OF at_due [OF breaker_skips [OF Cons.prems(1)]] s]
    show ?thesis
    proof (cases e1)
      case None
      with s1 have "runner_at plans start [] (fold (breaker_skip io) queue r1)" by (simp add: breaker_skips_all)
      from save_due [OF at_due [OF this], of io e r'] True s None Cons.prems(2) show ?thesis by simp
    qed (use s1 True s Cons.prems(2) in auto)
  next
    case False
    show ?thesis
    proof (cases "bi_disk io ?i")
      case (Some d)
      show ?thesis
        by (rule next' [of "result_of plan Failed_Plan 0 (bi_now io ?i) (Some (''Disk space check failed: '' @ d)) False" "[]"])
          (use False Some in \<open>simp_all add: Let_def\<close>)
    next
      case None
      show ?thesis
      proof (cases "if bt_results (br_state r) \<noteq> [] then bi_cleanup io ?i else None")
        case (Some c)
        with False None Cons.prems(2) have "e = Some (''Inter-plan cleanup failed: '' @ c)" "r' = r" by (auto simp: Let_def)
        with at_stopped [OF Cons.prems(1)] show ?thesis by simp
      next
        case clean: None
        show ?thesis
          by (rule next' [of "execute_batch_plan io timeout ?i plan" "[plan]"])
            (use False None clean in \<open>simp_all add: Let_def\<close>)
      qed
    qed
  qed
qed simp

lemma run_stops:
  assumes "runner_at plans start queue r" "run_batch_queue io timeout queue r = (out, r')"
  shows "(case out of Inr _ \<Rightarrow> runner_at plans start [] r' | Inl _ \<Rightarrow> runner_stopped plans start r')"
proof -
  obtain e1 r1 where s: "save_batch io r = (e1, r1)" by fastforce
  note s1 = save_due [OF at_due [OF assms(1)] s]
  show ?thesis
  proof (cases e1)
    case None
    obtain e2 r2 where l: "batch_loop io timeout queue r1 = (e2, r2)" by fastforce
    from s1 None have "runner_at plans start queue r1" by simp
    from batch_loop_stops [OF this l] s None l assms(2) show ?thesis by (cases e2) (auto simp: run_batch_queue_def)
  qed (use s s1 assms(2) in \<open>auto simp: run_batch_queue_def\<close>)
qed

lemma resumed_at:
  assumes "batch_ok b"
  shows "\<exists>r. resume_batch True None (Inr b) = Inr (r, drop (bt_current_index b) (bt_plans b))
    \<and> runner_at (bt_plans b) (bt_current_index b) (drop (bt_current_index b) (bt_plans b)) r"
  using assms by (simp add: resume_batch_def runner_at_def)

text \<open>A batch over its lives: each resumes from the file of the one before and runs until it ends or stops.\<close>

fun batch_lives :: "nat \<Rightarrow> batch_io list \<Rightarrow> batch_state \<Rightarrow> batch_state \<times> string list" where
  "batch_lives timeout [] b = (b, [])"
| "batch_lives timeout (io # ios) b =
    (case resume_batch True None (Inr b) of
       Inl _ \<Rightarrow> (b, [])
     | Inr (r, queue) \<Rightarrow>
         (case run_batch_queue io timeout queue r of (_, r') \<Rightarrow>
            (case br_disk r' of
               None \<Rightarrow> (b, br_executed r')
             | Some b1 \<Rightarrow> (case batch_lives timeout ios b1 of (b2, ex) \<Rightarrow> (b2, br_executed r' @ ex)))))"

text \<open>
  C37: A batch can be stopped and resumed any number of times. The file always has results for a prefix of
  the plans, in their order, so that resuming goes on with the first plan without one; and each life
  executes at most one plan more than the file advances.
\<close>

theorem batch_survives_restarts:
  assumes "batch_ok b" "batch_lives timeout ios b = (b', executed)"
  shows "batch_ok b' \<and> bt_plans b' = bt_plans b \<and> bt_current_index b \<le> bt_current_index b'
    \<and> length executed + bt_current_index b \<le> bt_current_index b' + length ios"
  using assms
proof (induction ios arbitrary: b executed)
  case (Cons io ios)
  obtain r where r: "resume_batch True None (Inr b) = Inr (r, drop (bt_current_index b) (bt_plans b))"
    "runner_at (bt_plans b) (bt_current_index b) (drop (bt_current_index b) (bt_plans b)) r"
    using resumed_at [OF Cons.prems(1)] by blast
  obtain out r' where run: "run_batch_queue io timeout (drop (bt_current_index b) (bt_plans b)) r = (out, r')" by fastforce
  have "runner_stopped (bt_plans b) (bt_current_index b) r'"
    using run_stops [OF r(2) run] at_stopped by (cases out) auto
  then obtain b1 where b1: "br_disk r' = Some b1" "batch_ok b1" "bt_plans b1 = bt_plans b"
    "bt_current_index b \<le> bt_current_index b1" "length (br_executed r') + bt_current_index b \<le> bt_current_index b1 + 1"
    by (auto simp: runner_stopped_def)
  obtain b2 ex where l: "batch_lives timeout ios b1 = (b2, ex)" by fastforce
  with Cons.prems(2) r(1) run b1(1) have "b' = b2" "executed = br_executed r' @ ex" by simp_all
  with Cons.IH [OF b1(2)] l b1 show ?case by fastforce
qed simp

text \<open>
  A batch that runs to its end has one result for each plan, in the order of the plans, and its
  summary counts each of them as passed, failed or skipped.
\<close>

theorem finished_batch_accounts_for_all:
  assumes "batch_ok b" "resume_batch True None (Inr b) = Inr (r, queue)"
    "run_batch_queue io timeout queue r = (Inr sm, r')"
  shows "map bp_plan (bs_results sm) = bt_plans b
    \<and> bs_passed sm + bs_failed sm + bs_skipped sm = length (bt_plans b)"
proof -
  from resumed_at [OF assms(1)] assms(2) have at: "runner_at (bt_plans b) (bt_current_index b) queue r" by auto
  from run_stops [OF at assms(3)] have e: "runner_at (bt_plans b) (bt_current_index b) [] r'" by simp
  then have m: "map bp_plan (bt_results (br_state r')) = bt_plans b"
    by (auto simp: runner_at_def batch_ok_def)
  have s: "sm = build_summary (br_state r')"
    using assms(3) by (auto simp: run_batch_queue_def split: prod.splits option.splits)
  have "length (filter (\<lambda>r. bp_outcome r = Passed) rs) + length (filter (\<lambda>r. bp_outcome r = Failed_Plan) rs)
      + length (filter (\<lambda>r. bp_outcome r = Skipped_Plan) rs) = length rs" for rs
  proof (induction rs)
    case (Cons r rs)
    then show ?case by (cases "bp_outcome r") simp_all
  qed simp
  with m s show ?thesis by (simp add: build_summary_def Let_def flip: m)
qed

section \<open>The circuit breaker\<close>

definition counted_failure :: "plan_result \<Rightarrow> bool" where
  "counted_failure r \<longleftrightarrow> bp_outcome r = Failed_Plan \<and> \<not> bp_transient r"

definition failures_since_pass :: "plan_result list \<Rightarrow> nat" where
  "failures_since_pass rs = length (filter counted_failure (takeWhile (\<lambda>r. bp_outcome r \<noteq> Passed) (rev rs)))"

lemma breaker_fold:
  "bt_breaker (fold record_result rs b) = fold breaker_after rs (bt_breaker b)"
  by (induction rs arbitrary: b) (simp_all add: record_result_def Let_def)

text \<open>
  C38: The breaker is tripped exactly when at least the maximum of failures that count have been recorded since
  the last plan that passed; failures that are transient and plans that were skipped do not
  interrupt the count.
\<close>

theorem breaker_trips_exactly:
  "is_circuit_broken (fold record_result rs (with_max_failures m (batch_new now stamp plans)))
    \<longleftrightarrow> m > 0 \<and> failures_since_pass rs \<ge> m"
proof -
  let ?k = "bt_breaker (with_max_failures m (batch_new now stamp plans))"
  have "bk_max_failures (fold breaker_after rs ?k) = m \<and> bk_consecutive_failures (fold breaker_after rs ?k) = failures_since_pass rs
      \<and> (bk_tripped (fold breaker_after rs ?k) \<longleftrightarrow> m > 0 \<and> failures_since_pass rs \<ge> m)"
  proof (induction rs rule: rev_induct)
    case Nil
    show ?case by (simp add: failures_since_pass_def with_max_failures_def batch_new_def) auto
  next
    case (snoc r rs)
    then show ?case
      by (cases "bp_outcome r") (auto simp: failures_since_pass_def breaker_after_def counted_failure_def Let_def)
  qed
  then show ?thesis by (simp add: is_circuit_broken_def breaker_fold)
qed

section \<open>The instance lock does not exclude\<close>

text \<open>
  A dropped lock removes the file: the instance that waited gets the lock of a file without a name, and the next
  one makes a new file and locks that.
\<close>

theorem instance_lock_admits_two:
  "daemons_running
     (snd (instance_acquire 3 (snd (instance_granted 2 (instance_drop 1 (instance_wait 2 (snd (instance_acquire 1 no_pid_file))))))))
   = [2, 3]"
  by code_simp

text \<open>The timeout of a plan overflows.\<close>

theorem plan_timeout_wraps: "parse_plan_timeout (Some ''5124095576030432h'') = 3584"
proof -
  have "trim ''5124095576030432h'' = ''5124095576030432h''" by code_simp
  then show ?thesis by (simp add: parse_plan_timeout_def parse_u64_def digit_value_def Let_def)
qed

section \<open>Instances\<close>

text \<open>Two plans; the save after the first one fails, and a second life repeats it.\<close>

definition example_batch :: batch_state where
  "example_batch = batch_new 0 ''20260101-000000'' [''a.md'', ''b.md'']"

definition example_batch_io :: "nat option \<Rightarrow> batch_io" where
  "example_batch_io fail =
     \<lparr>bi_disk = (\<lambda>_. None), bi_cleanup = (\<lambda>_. None), bi_exists = (\<lambda>_. True), bi_exec = (\<lambda>_. Inr []), bi_took = (\<lambda>_. 1),
      bi_now = (\<lambda>_. 0), bi_save = (\<lambda>n. if fail = Some n then Some ''no space'' else None), bi_saved_at = (\<lambda>_. 0)\<rparr>"

lemma example_batch_ok: "batch_ok example_batch"
  by (simp add: batch_ok_def example_batch_def batch_new_def)

lemma example_lives:
  "snd (batch_lives 10800 [example_batch_io (Some 1), example_batch_io None] example_batch) = [''a.md'', ''a.md'', ''b.md'']"
  by (simp add: example_batch_def example_batch_io_def batch_new_def resume_batch_def run_batch_queue_def save_batch_def
      recorded_def record_result_def breaker_after_def execute_batch_plan_def result_of_def is_circuit_broken_def Let_def)

theorem batch_survives_restarts_witness:
  "bt_current_index (fst (batch_lives 10800 [example_batch_io (Some 1), example_batch_io None] example_batch)) \<ge> 1"
proof -
  obtain b' ex where l: "batch_lives 10800 [example_batch_io (Some 1), example_batch_io None] example_batch = (b', ex)"
    by fastforce
  from batch_survives_restarts [OF example_batch_ok l] example_lives l show ?thesis
    by (simp add: example_batch_def batch_new_def del: batch_lives.simps)
qed

theorem finished_batch_accounts_for_all_witness:
  "\<exists>sm r'. run_batch_queue (example_batch_io None) 10800 [''a.md'', ''b.md'']
       \<lparr>br_state = example_batch, br_disk = Some example_batch, br_saves = 0, br_executed = []\<rparr> = (Inr sm, r')
     \<and> map bp_plan (bs_results sm) = [''a.md'', ''b.md'']"
proof -
  let ?r = "\<lparr>br_state = example_batch, br_disk = Some example_batch, br_saves = 0, br_executed = []\<rparr>"
  have res: "resume_batch True None (Inr example_batch) = Inr (?r, [''a.md'', ''b.md''])"
    by (simp add: resume_batch_def example_batch_def batch_new_def)
  have "\<exists>sm r'. run_batch_queue (example_batch_io None) 10800 [''a.md'', ''b.md''] ?r = (Inr sm, r')"
    by (simp add: example_batch_def example_batch_io_def batch_new_def run_batch_queue_def save_batch_def
        recorded_def record_result_def breaker_after_def execute_batch_plan_def result_of_def is_circuit_broken_def Let_def)
  then obtain sm r' where run: "run_batch_queue (example_batch_io None) 10800 [''a.md'', ''b.md''] ?r = (Inr sm, r')" by blast
  from finished_batch_accounts_for_all [OF example_batch_ok res run]
  have "map bp_plan (bs_results sm) = [''a.md'', ''b.md'']" by (simp add: example_batch_def batch_new_def)
  with run show ?thesis by (intro exI conjI)
qed

end
