(* ===== verification/Session_Spawn.thy ===== *)
theory Session_Spawn
  imports Run_Monitor Orchestrator Session_Util "HOL-Library.Product_Lexorder" "HOL-Library.List_Lexorder"
    "HOL-Library.Multiset"
begin

text \<open>
  tmux sessions: asking whether one is there, starting Claude in one and typing into it
  (\<open>session/spawn.rs\<close>), and prompts, output and crash dumps (\<open>session/detect.rs\<close>). What tmux answers is an
  argument; what is asked of it is a list of operations.
\<close>

definition quoted :: "string \<Rightarrow> string" where
  "quoted s = [CHR 0x27] @ s @ [CHR 0x27]"

definition em_dash :: string where
  "em_dash = [CHR 0xE2, CHR 0x80, CHR 0x94]"

section \<open>Is the session there?\<close>

text \<open>What becomes of one \<open>has-session\<close>: an exit code of success or not, or none.\<close>

datatype probe_try = ProbeExit bool | ProbeTimeout | ProbeWaitError string | ProbeSpawnError string

definition MAX_ATTEMPTS :: nat where "MAX_ATTEMPTS = 3"

definition CMD_TIMEOUT :: nat where "CMD_TIMEOUT = 5"

definition probe_error :: "nat \<Rightarrow> probe_try \<Rightarrow> string option \<Rightarrow> string option" where
  "probe_error attempt t last_error =
    (case t of
       ProbeExit _ \<Rightarrow> last_error
     | ProbeTimeout \<Rightarrow>
         Some (''tmux has-session timed out after '' @ show_nat CMD_TIMEOUT @ ''s (attempt '' @ show_nat (attempt + 1)
           @ ''/'' @ show_nat MAX_ATTEMPTS @ '')'')
     | ProbeWaitError e \<Rightarrow> Some (''tmux has-session wait error: '' @ e)
     | ProbeSpawnError e \<Rightarrow> Some (''tmux has-session spawn error: '' @ e))"

fun probe_from :: "(nat \<Rightarrow> probe_try) \<Rightarrow> nat list \<Rightarrow> bool \<Rightarrow> string option \<Rightarrow> SessionProbe" where
  "probe_from tmux [] saw_absent last_error =
    (if saw_absent then ProbeAbsent
     else ProbeUnreachable (case last_error of Some e \<Rightarrow> e | None \<Rightarrow> ''tmux unreachable for all attempts''))"
| "probe_from tmux (n # ns) saw_absent last_error =
    (if tmux n = ProbeExit True then ProbePresent
     else probe_from tmux ns (saw_absent \<or> tmux n = ProbeExit False) (probe_error n (tmux n) last_error))"

definition probe_session :: "(nat \<Rightarrow> probe_try) \<Rightarrow> SessionProbe" where
  "probe_session tmux = probe_from tmux [0..<MAX_ATTEMPTS] False None"

definition has_session :: "(nat \<Rightarrow> probe_try) \<Rightarrow> bool" where
  "has_session tmux \<longleftrightarrow> probe_session tmux = ProbePresent"

section \<open>Typing into a session\<close>

text \<open>Everything is typed into the first pane of the first window.\<close>

datatype tmux_op =
    NewSession string path
  | SendText string string
  | SendKey string string

definition main_pane :: "string \<Rightarrow> string" where
  "main_pane session_id = session_id @ '':0.0''"

text \<open>Operations one after another until one fails; each has a name for its error.\<close>

fun send_all :: "(nat \<Rightarrow> io_result) \<Rightarrow> nat \<Rightarrow> (string \<times> tmux_op) list \<Rightarrow> io_result \<times> tmux_op list" where
  "send_all tmux n [] = (None, [])"
| "send_all tmux n ((what, op) # ops) =
    (case tmux n of
       Some e \<Rightarrow> (Some (''tmux send-keys failed ('' @ what @ ''): '' @ trim e), [op])
     | None \<Rightarrow> (case send_all tmux (n + 1) ops of (out, sent) \<Rightarrow> (out, op # sent)))"

definition send_keys_with_workaround :: "(nat \<Rightarrow> io_result) \<Rightarrow> string \<Rightarrow> string \<Rightarrow> io_result \<times> tmux_op list" where
  "send_keys_with_workaround tmux session_id line =
     send_all tmux 0
       [(''text'', SendText (main_pane session_id) line), (''Escape'', SendKey (main_pane session_id) ''Escape''),
        (''Enter'', SendKey (main_pane session_id) ''Enter'')]"

definition send_simple_command :: "(nat \<Rightarrow> io_result) \<Rightarrow> string \<Rightarrow> string \<Rightarrow> io_result \<times> tmux_op list" where
  "send_simple_command tmux session_id cmd =
     send_all tmux 0
       [(''text'', SendText (main_pane session_id) cmd), (''Enter'', SendKey (main_pane session_id) ''Enter'')]"

section \<open>Starting Claude\<close>

record spawn_config =
  sn_session_id :: string
  sn_working_dir :: path
  sn_config_dir :: "path option"
  sn_claude_path :: string
  sn_mock :: bool

definition spawn_config_new :: "string \<Rightarrow> string \<Rightarrow> path \<Rightarrow> path option \<Rightarrow> spawn_config" where
  "spawn_config_new plan_hash group_name working_dir config_dir =
     \<lparr>sn_session_id = ''gw-'' @ plan_hash @ ''-'' @ group_name, sn_working_dir = working_dir,
      sn_config_dir = config_dir, sn_claude_path = ''claude'', sn_mock = False\<rparr>"

text \<open>Characters are code points: \<open>decode\<close> gives those of a string, \<open>alnum\<close> the alphanumeric ones.\<close>

record unicode =
  un_decode :: "string \<Rightarrow> nat list"
  un_alnum :: "nat \<Rightarrow> bool"

definition validate_executable_path :: "unicode \<Rightarrow> string \<Rightarrow> string + unit" where
  "validate_executable_path U p =
    (if p = [] then Inl ''executable path is empty''
     else if \<not> list_all (\<lambda>c. un_alnum U c \<or> c \<in> set (code_points ''-_/.'')) (un_decode U p)
     then Inl (''executable path contains unsafe characters: '' @ p)
     else Inr ())"

definition claude_command :: "unicode \<Rightarrow> path option \<Rightarrow> string \<Rightarrow> string + string" where
  "claude_command U config_dir claude_path =
    (let env = (case config_dir of
                  None \<Rightarrow> []
                | Some dir \<Rightarrow>
                    if path_file_name dir = Some ''.claude'' then []
                    else ''CLAUDE_CONFIG_DIR='' @ shell_escape dir @ '' '')
     in case validate_executable_path U claude_path of
          Inl e \<Rightarrow> Inl e
        | Inr _ \<Rightarrow> Inr (env @ claude_path @ '' --dangerously-skip-permissions''))"

definition start_claude ::
  "unicode \<Rightarrow> (nat \<Rightarrow> io_result) \<Rightarrow> string \<Rightarrow> path option \<Rightarrow> string \<Rightarrow> io_result \<times> tmux_op list" where
  "start_claude U tmux session_id config_dir claude_path =
    (case claude_command U config_dir claude_path of
       Inl e \<Rightarrow> (Some e, [])
     | Inr cmd \<Rightarrow> send_simple_command tmux session_id cmd)"

definition start_mock_session :: "(nat \<Rightarrow> io_result) \<Rightarrow> string \<Rightarrow> io_result \<times> tmux_op list" where
  "start_mock_session tmux session_id =
     send_keys_with_workaround tmux session_id
       (''echo '' @ quoted ''Mock Claude session ready'' @ '' && sleep 3600'')"

text \<open>The first line of \<open>list-panes\<close>; a session that is not there has none.\<close>

definition get_pane_pid :: "string \<Rightarrow> string + string \<Rightarrow> string + nat" where
  "get_pane_pid session_id answer =
    (case answer of
       Inl e \<Rightarrow> Inl (''Failed to get pane PID: '' @ e)
     | Inr out \<Rightarrow>
         (case str_lines out of
            [] \<Rightarrow> Inl (''No pane found for session '' @ quoted session_id)
          | l # _ \<Rightarrow> (case parse_u32 (trim l) of Some n \<Rightarrow> Inr n | None \<Rightarrow> Inl (''Invalid PID: '' @ trim l))))"

definition get_claude_pid :: "string + nat \<Rightarrow> (nat \<Rightarrow> string option) \<Rightarrow> nat option" where
  "get_claude_pid pane pgrep =
    (case pane of
       Inl _ \<Rightarrow> None
     | Inr shell_pid \<Rightarrow>
         (case pgrep shell_pid of
            None \<Rightarrow> None
          | Some out \<Rightarrow> (case str_lines out of l # _ \<Rightarrow> parse_u32 (trim l) | [] \<Rightarrow> None)))"

definition is_claude_alive :: "string + nat \<Rightarrow> (nat \<Rightarrow> string option) \<Rightarrow> bool" where
  "is_claude_alive pane pgrep \<longleftrightarrow> get_claude_pid pane pgrep \<noteq> None"

record spawn_io =
  sx_probe :: "nat \<Rightarrow> probe_try"
  sx_create :: io_result
  sx_send :: "nat \<Rightarrow> io_result"
  sx_pane :: "string + string"

text \<open>Operations that were tried and succeeded, or the last one that failed.\<close>

definition spawn_claude_session :: "unicode \<Rightarrow> spawn_io \<Rightarrow> spawn_config \<Rightarrow> (string + nat) \<times> tmux_op list" where
  "spawn_claude_session U io c =
    (let sid = sn_session_id c in
     case validate_session_id (un_alnum U) (un_decode U sid) of
       Inl e \<Rightarrow> (Inl e, [])
     | Inr _ \<Rightarrow>
         (case probe_session (sx_probe io) of
            ProbePresent \<Rightarrow> (Inl (''Session '' @ quoted sid @ '' already exists''), [])
          | ProbeUnreachable reason \<Rightarrow>
              (Inl (''Cannot verify session '' @ quoted sid @ '' state '' @ em_dash @ '' tmux unreachable: '' @ reason
                 @ ''. Refusing to spawn to avoid duplicate-session race.''), [])
          | ProbeAbsent \<Rightarrow>
              (case sx_create io of
                 Some e \<Rightarrow> (Inl (''Failed to create tmux session '' @ quoted sid @ '': '' @ e), [])
               | None \<Rightarrow>
                   (case (if sn_mock c then start_mock_session (sx_send io) sid
                          else start_claude U (sx_send io) sid (sn_config_dir c) (sn_claude_path c)) of
                      (out, ops) \<Rightarrow>
                        (case out of
                           Some e \<Rightarrow> (Inl e, NewSession sid (sn_working_dir c) # ops)
                         | None \<Rightarrow> (get_pane_pid sid (sx_pane io), NewSession sid (sn_working_dir c) # ops))))))"

section \<open>Prompts\<close>

definition PROMPT_CHECK_LINES :: nat where "PROMPT_CHECK_LINES = 5"

definition has_prompt_in_content :: "string \<Rightarrow> bool" where
  "has_prompt_in_content content =
     list_ex (str_contains heavy_angle) (take PROMPT_CHECK_LINES (rev (str_lines content)))"

definition get_last_non_empty_line :: "string \<Rightarrow> string option" where
  "get_last_non_empty_line content = find (\<lambda>l. trim l \<noteq> []) (rev (str_lines content))"

definition has_prompt_in_last_line :: "string + string \<Rightarrow> string + bool" where
  "has_prompt_in_last_line pane =
     map_sum id (\<lambda>c. case get_last_non_empty_line c of Some l \<Rightarrow> str_contains heavy_angle l | None \<Rightarrow> False) pane"

text \<open>
  Polls with the time since the start at each: at most \<open>timeout\<close>, then an error. Nothing is decided
  while the polls go on.
\<close>

fun wait_for_prompt :: "string \<Rightarrow> int \<Rightarrow> (int \<times> (string + string)) list \<Rightarrow> io_result option" where
  "wait_for_prompt sid timeout [] = None"
| "wait_for_prompt sid timeout ((elapsed, pane) # ps) =
    (if elapsed \<ge> timeout then Some (Some (''Timeout waiting for prompt in session '' @ quoted sid))
     else case pane of
       Inl e \<Rightarrow> Some (Some (''Failed to capture pane: '' @ e))
     | Inr content \<Rightarrow> if has_prompt_in_content content then Some None else wait_for_prompt sid timeout ps)"

text \<open>The variant of \<open>session/detect.rs\<close> looks at the last line that is not empty and gives a truth value.\<close>

fun wait_for_last_line :: "int \<Rightarrow> (int \<times> (string + string)) list \<Rightarrow> (string + bool) option" where
  "wait_for_last_line timeout [] = None"
| "wait_for_last_line timeout ((elapsed, pane) # ps) =
    (if elapsed \<ge> timeout then Some (Inr False)
     else case has_prompt_in_last_line pane of
       Inl e \<Rightarrow> Some (Inl e)
     | Inr b \<Rightarrow> if b then Some (Inr True) else wait_for_last_line timeout ps)"

section \<open>Changes of the output\<close>

record prompt_detector =
  pd_last_hash :: "u64 option"
  pd_last_change :: instant
  pd_last_content :: "string option"

record output_update =
  ou_changed :: bool
  ou_hash :: u64
  ou_idle :: int
  ou_has_prompt :: bool

record output_velocity =
  ov_current_hash :: u64
  ov_last_hash :: "u64 option"
  ov_idle :: int
  ov_content_length :: nat

definition prompt_detector_new :: "instant \<Rightarrow> prompt_detector" where
  "prompt_detector_new now = \<lparr>pd_last_hash = None, pd_last_change = now, pd_last_content = None\<rparr>"

definition detector_update ::
  "(string \<Rightarrow> u64) \<Rightarrow> instant \<Rightarrow> string + string \<Rightarrow> prompt_detector \<Rightarrow> (string + output_update) \<times> prompt_detector" where
  "detector_update hash now pane d =
    (case pane of
       Inl e \<Rightarrow> (Inl e, d)
     | Inr content \<Rightarrow>
         let h = hash content;
             changed = (case pd_last_hash d of Some old \<Rightarrow> h \<noteq> old | None \<Rightarrow> True);
             d1 = (if changed then d\<lparr>pd_last_change := now\<rparr> else d);
             d2 = d1\<lparr>pd_last_hash := Some h, pd_last_content := Some content\<rparr>
         in (Inr \<lparr>ou_changed = changed, ou_hash = h, ou_idle = max 0 (now - pd_last_change d2),
                  ou_has_prompt = has_prompt_in_content content\<rparr>, d2))"

definition compute_velocity ::
  "(string \<Rightarrow> u64) \<Rightarrow> instant \<Rightarrow> string + string \<Rightarrow> prompt_detector \<Rightarrow> string + output_velocity" where
  "compute_velocity hash now pane d =
     map_sum id (\<lambda>content. \<lparr>ov_current_hash = hash content, ov_last_hash = pd_last_hash d,
       ov_idle = max 0 (now - pd_last_change d), ov_content_length = length content\<rparr>) pane"

definition velocity_is_idle :: "int \<Rightarrow> output_velocity \<Rightarrow> bool" where
  "velocity_is_idle threshold v \<longleftrightarrow>
    (case ov_last_hash v of Some old \<Rightarrow> ov_current_hash v = old \<and> ov_idle v > threshold | None \<Rightarrow> False)"

definition velocity_is_active :: "output_velocity \<Rightarrow> bool" where
  "velocity_is_active v \<longleftrightarrow> (case ov_last_hash v of Some old \<Rightarrow> ov_current_hash v \<noteq> old | None \<Rightarrow> True)"

definition detector_is_idle ::
  "(string \<Rightarrow> u64) \<Rightarrow> instant \<Rightarrow> int \<Rightarrow> string + string \<Rightarrow> prompt_detector \<Rightarrow> string + bool" where
  "detector_is_idle hash now threshold pane d =
     map_sum id (\<lambda>content. case pd_last_hash d of
       Some old \<Rightarrow> hash content = old \<and> max 0 (now - pd_last_change d) > threshold | None \<Rightarrow> False) pane"

section \<open>Crash dumps\<close>

text \<open>The text of a dump, and which files are left; a file has its time, its name and whether it can be removed.\<close>

definition dump_text :: "string \<Rightarrow> string \<Rightarrow> string \<Rightarrow> string + string \<Rightarrow> string" where
  "dump_text session_id stamp reason scrollback =
    (let nl = [CHR 0x0A];
         header = ''=== GW CRASH DUMP ==='' @ nl @ ''Session:   '' @ session_id @ nl @ ''Timestamp: '' @ stamp @ nl
           @ ''Reason:    '' @ reason @ nl @ ''====================='' @ nl @ nl
     in case scrollback of
          Inr content \<Rightarrow>
            if trim content = [] then header @ ''(scrollback empty '' @ em_dash @ '' tmux pane produced no output)'' @ nl else header @ content
        | Inl e \<Rightarrow> header @ ''(scrollback unavailable: '' @ e @ '')'' @ nl)"

type_synonym dump_file = "nat \<times> nat list"

text \<open>Oldest first, by name where times agree; \<open>removable\<close> are the files that can be removed.\<close>

definition rotate_crash_dumps :: "(dump_file \<Rightarrow> bool) \<Rightarrow> nat \<Rightarrow> dump_file list \<Rightarrow> dump_file list" where
  "rotate_crash_dumps removable keep files =
    (if length files \<le> keep then files
     else let sorted = sort files; n = length files - keep
       in filter (\<lambda>f. \<not> removable f) (take n sorted) @ drop n sorted)"

section \<open>What a probe means\<close>

lemma probe_from_exact:
  "probe_from tmux ns a l = ProbePresent \<longleftrightarrow> (\<exists>n \<in> set ns. tmux n = ProbeExit True)"
  "probe_from tmux ns a l = ProbeAbsent \<longleftrightarrow>
    (\<forall>n \<in> set ns. tmux n \<noteq> ProbeExit True) \<and> (a \<or> (\<exists>n \<in> set ns. tmux n = ProbeExit False))"
  by (induction ns arbitrary: a l) auto

lemma probe_tries: "(\<exists>n \<in> set [0..<MAX_ATTEMPTS]. P n) \<longleftrightarrow> (\<exists>n < 3. P n)"
  by (auto simp: MAX_ATTEMPTS_def)

text \<open>
  A probe says that a session is there exactly when one of three tries succeeds, that it is gone exactly when
  none succeeds and tmux answered at least one, and that tmux is unreachable exactly when no try
  was answered: a tmux that hangs never counts as a session that is gone.
\<close>

theorem probe_is_exact:
  "(probe_session tmux = ProbePresent \<longleftrightarrow> (\<exists>n < 3. tmux n = ProbeExit True))
    \<and> (probe_session tmux = ProbeAbsent \<longleftrightarrow>
         (\<forall>n < 3. tmux n \<noteq> ProbeExit True) \<and> (\<exists>n < 3. tmux n = ProbeExit False))
    \<and> ((\<exists>e. probe_session tmux = ProbeUnreachable e) \<longleftrightarrow> (\<forall>n < 3. \<forall>b. tmux n \<noteq> ProbeExit b))"
proof -
  have p: "probe_session tmux = ProbePresent \<longleftrightarrow> (\<exists>n < 3. tmux n = ProbeExit True)"
    unfolding probe_session_def probe_from_exact(1) probe_tries ..
  have "(\<forall>n \<in> set [0..<MAX_ATTEMPTS]. tmux n \<noteq> ProbeExit True) \<longleftrightarrow> (\<forall>n < 3. tmux n \<noteq> ProbeExit True)"
    using probe_tries [of "\<lambda>n. tmux n = ProbeExit True"] by blast
  then have a: "probe_session tmux = ProbeAbsent \<longleftrightarrow>
      (\<forall>n < 3. tmux n \<noteq> ProbeExit True) \<and> (\<exists>n < 3. tmux n = ProbeExit False)"
    unfolding probe_session_def probe_from_exact(2) probe_tries by simp
  have "(\<exists>e. probe_session tmux = ProbeUnreachable e)
      \<longleftrightarrow> probe_session tmux \<noteq> ProbePresent \<and> probe_session tmux \<noteq> ProbeAbsent"
    by (cases "probe_session tmux") auto
  also have "\<dots> \<longleftrightarrow> (\<forall>n < 3. \<forall>b. tmux n \<noteq> ProbeExit b)"
    unfolding p a by (metis (full_types))
  finally show ?thesis using p a by blast
qed

section \<open>The command that starts Claude\<close>

text \<open>
  What is known of characters: an ASCII byte of a string is one of its characters, and blanks, quotes
  and backslashes are not alphanumeric.
\<close>

definition plain_unicode :: "unicode \<Rightarrow> bool" where
  "plain_unicode U \<longleftrightarrow>
    (\<forall>s. \<forall>c \<in> set s. of_char c < (128 :: nat) \<longrightarrow> of_char c \<in> set (un_decode U s))
    \<and> \<not> un_alnum U 32 \<and> \<not> un_alnum U 39 \<and> \<not> un_alnum U 92"

lemma safe_path_chars:
  assumes "plain_unicode U" "validate_executable_path U p = Inr ()"
  shows "p \<noteq> [] \<and> CHR 0x20 \<notin> set p \<and> CHR 0x27 \<notin> set p \<and> CHR 0x5C \<notin> set p"
proof -
  from assms(2) have p: "p \<noteq> []" "\<forall>c \<in> set (un_decode U p). un_alnum U c \<or> c \<in> set (code_points ''-_/.'')"
    by (auto simp: validate_executable_path_def list_all_iff split: if_splits)
  have "c \<notin> set p" if "of_char c < (128 :: nat)" "\<not> un_alnum U (of_char c)" "of_char c \<notin> set (code_points ''-_/.'')" for c
    using assms(1) p(2) that unfolding plain_unicode_def by blast
  from this [of "CHR 0x20"] this [of "CHR 0x27"] this [of "CHR 0x5C"] p(1) assms(1) show ?thesis
    by (simp add: plain_unicode_def code_points_def)
qed

lemma sh_words_plain:
  "CHR 0x20 \<notin> set p \<Longrightarrow> CHR 0x27 \<notin> set p \<Longrightarrow> CHR 0x5C \<notin> set p \<Longrightarrow> p \<noteq> [] \<Longrightarrow>
    sh_words False cur (p @ rest) = sh_words False (Some (or_empty cur @ p)) rest"
proof (induction p arbitrary: cur)
  case (Cons c p)
  then show ?case by (cases p) auto
qed simp

text \<open>
  The command that starts Claude has exactly the words it should: the path of the executable and the
  flag, after an assignment of the configuration directory where there is one that is not the default. No
  directory and no path that passes the check can add a word or a second command.
\<close>

theorem claude_command_has_exact_words:
  assumes "plain_unicode U" "claude_command U config_dir p = Inr cmd"
  shows "sh_words False None cmd =
    Some ((case config_dir of
             Some dir \<Rightarrow> if path_file_name dir = Some ''.claude'' then [] else [''CLAUDE_CONFIG_DIR='' @ dir]
           | None \<Rightarrow> []) @ [p, ''--dangerously-skip-permissions''])"
proof -
  from assms(2) have v: "validate_executable_path U p = Inr ()"
    by (auto simp: claude_command_def Let_def split: sum.splits)
  note safe = safe_path_chars [OF assms(1) v]
  have tail: "sh_words False None (p @ '' --dangerously-skip-permissions'') = Some [p, ''--dangerously-skip-permissions'']"
    using safe by (simp add: sh_words_plain or_empty_def)
  have env: "sh_words False None (''CLAUDE_CONFIG_DIR='' @ shell_escape dir @ '' '' @ rest)
      = map_option (\<lambda>ws. (''CLAUDE_CONFIG_DIR='' @ dir) # ws) (sh_words False None rest)" for dir rest
  proof -
    have "sh_words False None (''CLAUDE_CONFIG_DIR='' @ shell_escape dir @ '' '' @ rest)
        = sh_words False (Some ''CLAUDE_CONFIG_DIR='') (shell_escape dir @ '' '' @ rest)"
      by (simp add: or_empty_def)
    also have "\<dots> = sh_words False (Some (''CLAUDE_CONFIG_DIR='' @ dir)) ('' '' @ rest)"
      by (simp only: sh_words_shell_escape or_empty_Some)
    finally show ?thesis by simp
  qed
  show ?thesis
  proof (cases config_dir)
    case None
    with assms(2) v tail show ?thesis by (simp add: claude_command_def)
  next
    case (Some dir)
    with assms(2) v have "cmd = (if path_file_name dir = Some ''.claude'' then []
        else ''CLAUDE_CONFIG_DIR='' @ shell_escape dir @ '' '') @ p @ '' --dangerously-skip-permissions''"
      by (simp add: claude_command_def Let_def)
    with Some tail env [of dir "p @ '' --dangerously-skip-permissions''"] show ?thesis by simp
  qed
qed

section \<open>A start that fails\<close>

text \<open>
  When Claude cannot be started, or its PID cannot be read, the new tmux session stays, and every later start
  under the same name is refused as long as it is there.
\<close>

theorem failed_start_leaves_session:
  assumes "spawn_claude_session U io c = (Inl e, ops)" "ops \<noteq> []"
  shows "NewSession (sn_session_id c) (sn_working_dir c) \<in> set ops
    \<and> (probe_session (sx_probe io') = ProbePresent \<longrightarrow> (\<exists>e'. spawn_claude_session U io' c = (Inl e', [])))"
  using assms
  by (auto simp: spawn_claude_session_def Let_def split: sum.splits SessionProbe.splits option.splits prod.splits)

section \<open>Prompts behind blank lines\<close>

text \<open>The last five lines are looked at, empty or not: below a prompt at the top of the pane it is not seen.\<close>

theorem prompt_above_blank_lines_is_missed:
  "\<not> has_prompt_in_content (heavy_angle @ replicate 6 (CHR 0x0A))
    \<and> get_last_non_empty_line (heavy_angle @ replicate 6 (CHR 0x0A)) = Some heavy_angle"
  by code_simp

lemma wait_for_prompt_ends:
  "(t, pane) \<in> set ps \<Longrightarrow> t \<ge> timeout \<Longrightarrow> wait_for_prompt sid timeout ps \<noteq> None"
  by (induction ps) (auto split: sum.split)

section \<open>Rotating the dumps\<close>

text \<open>The newest \<open>keep\<close> dumps are kept, and when every file can be removed, only those.\<close>

theorem rotation_keeps_the_newest:
  assumes "\<forall>f. removable f"
  shows "length (rotate_crash_dumps removable keep files) = min keep (length files)
    \<and> mset (rotate_crash_dumps removable keep files) \<subseteq># mset files
    \<and> (\<forall>f \<in># mset files - mset (rotate_crash_dumps removable keep files). \<forall>g \<in> set (rotate_crash_dumps removable keep files). f \<le> g)"
proof (cases "length files \<le> keep")
  case False
  let ?n = "length files - keep"
  have r: "rotate_crash_dumps removable keep files = drop ?n (sort files)"
  proof -
    have "filter (\<lambda>f. \<not> removable f) xs = []" for xs using assms by (intro filter_False) blast
    with False show ?thesis by (simp only: rotate_crash_dumps_def Let_def if_False append_Nil)
  qed
  have m: "mset files = mset (take ?n (sort files)) + mset (drop ?n (sort files))"
    by (metis append_take_drop_id mset_append mset_sort)
  have "f \<le> g" if "f \<in> set (take ?n (sort files))" "g \<in> set (drop ?n (sort files))" for f g
    using that sorted_sort [of files] by (metis append_take_drop_id sorted_append)
  with r m False show ?thesis by simp
qed (simp add: rotate_crash_dumps_def)
section \<open>Instances\<close>

definition ascii_unicode :: unicode where
  "ascii_unicode = \<lparr>un_decode = code_points, un_alnum = (\<lambda>c. 48 \<le> c \<and> c < 58 \<or> 65 \<le> c \<and> c < 91 \<or> 97 \<le> c \<and> c < 123)\<rparr>"

lemma ascii_plain: "plain_unicode ascii_unicode"
  by (simp add: plain_unicode_def ascii_unicode_def code_points_def)

theorem claude_command_has_exact_words_witness:
  "\<exists>cmd. claude_command ascii_unicode (Some ''/x y'') ''claude'' = Inr cmd
    \<and> sh_words False None cmd = Some [''CLAUDE_CONFIG_DIR=/x y'', ''claude'', ''--dangerously-skip-permissions'']"
proof -
  have "path_file_name ''/x y'' \<noteq> Some ''.claude''" by code_simp
  moreover have "list_all (\<lambda>c. un_alnum ascii_unicode c \<or> c \<in> set (code_points ''-_/.'')) (un_decode ascii_unicode ''claude'')"
    by (simp add: ascii_unicode_def code_points_def)
  ultimately obtain cmd where c: "claude_command ascii_unicode (Some ''/x y'') ''claude'' = Inr cmd"
    "path_file_name ''/x y'' \<noteq> Some ''.claude''"
    by (simp add: claude_command_def validate_executable_path_def)
  from claude_command_has_exact_words [OF ascii_plain c(1)] c show ?thesis by simp
qed

end
