(* ===== verification/Trackers.thy ===== *)
theory Trackers
  imports Run_Monitor
begin

text \<open>
  The stand-alone trackers of a session: idleness with nudges (\<open>monitor/nudge.rs\<close>) and the differences
  between checkpoints (\<open>monitor/checkpoint_poll.rs\<close>). The hash of a pane and the clock are arguments.
\<close>

section \<open>Nudges\<close>

record nudge_config =
  nc_idle_nudge_after :: nat
  nc_idle_kill_after :: nat
  nc_message :: string

definition nudge_config_new :: "nat \<Rightarrow> nat \<Rightarrow> nudge_config" where
  "nudge_config_new nudge_secs kill_secs =
     \<lparr>nc_idle_nudge_after = nudge_secs, nc_idle_kill_after = kill_secs, nc_message = ''please continue''\<rparr>"

definition nudge_config_default :: nudge_config where
  "nudge_config_default = \<lparr>nc_idle_nudge_after = 180, nc_idle_kill_after = 300, nc_message = ''please continue''\<rparr>"

datatype NudgeState = NudgeActive | ShouldNudge | Nudged | NudgeStuck

record nudge_manager =
  nm_last_hash :: "u64 option"
  nm_last_change :: instant
  nm_nudged :: bool
  nm_nudge_count :: nat

definition nudge_manager_new :: "instant \<Rightarrow> nudge_manager" where
  "nudge_manager_new now = \<lparr>nm_last_hash = None, nm_last_change = now, nm_nudged = False, nm_nudge_count = 0\<rparr>"

text \<open>The state of a session whose content has not changed for a time.\<close>

definition idle_state :: "int \<Rightarrow> nat \<Rightarrow> nat \<Rightarrow> bool \<Rightarrow> NudgeState" where
  "idle_state idle nudge_after kill_after nudged =
    (if idle > int kill_after * NANOS then NudgeStuck
     else if idle > int nudge_after * NANOS \<and> \<not> nudged then ShouldNudge
     else if nudged then Nudged
     else NudgeActive)"

definition nudge_update :: "nudge_config \<Rightarrow> u64 \<Rightarrow> instant \<Rightarrow> nudge_manager \<Rightarrow> NudgeState \<times> nudge_manager" where
  "nudge_update cfg current_hash now m =
    (let changed = (case nm_last_hash m of Some h \<Rightarrow> current_hash \<noteq> h | None \<Rightarrow> True) in
     if changed
     then (NudgeActive, m\<lparr>nm_last_change := now, nm_nudged := False, nm_last_hash := Some current_hash\<rparr>)
     else (idle_state (max 0 (now - nm_last_change m)) (nc_idle_nudge_after cfg) (nc_idle_kill_after cfg) (nm_nudged m), m))"

definition send_nudge :: "io_result \<Rightarrow> nudge_manager \<Rightarrow> io_result \<times> nudge_manager" where
  "send_nudge sent m =
    (case sent of
       Some e \<Rightarrow> (Some e, m)
     | None \<Rightarrow> (None, m\<lparr>nm_nudged := True, nm_nudge_count := nm_nudge_count m + 1\<rparr>))"

definition nudge_reset :: "instant \<Rightarrow> nudge_manager \<Rightarrow> nudge_manager" where
  "nudge_reset now m = m\<lparr>nm_last_hash := None, nm_last_change := now, nm_nudged := False\<rparr>"

text \<open>Whatever the hashes, the quick check says no.\<close>

definition is_session_idle :: "u64 option \<Rightarrow> u64 \<Rightarrow> bool \<times> u64" where
  "is_session_idle previous current_hash =
    ((case previous of Some prev \<Rightarrow> if current_hash = prev then False else False | None \<Rightarrow> False), current_hash)"

section \<open>Several sessions\<close>

record idle_entry =
  id_last_hash :: "u64 option"
  id_last_change :: instant
  id_nudged :: bool

type_synonym idle_tracker = "(string, idle_entry) hash_map"

definition idle_update ::
  "u64 \<Rightarrow> instant \<Rightarrow> nat \<Rightarrow> nat \<Rightarrow> string \<Rightarrow> idle_tracker \<Rightarrow> NudgeState \<times> idle_tracker" where
  "idle_update h now nudge_after kill_after sid t =
    (let e = (case hm_get t sid of
                Some e \<Rightarrow> e | None \<Rightarrow> \<lparr>id_last_hash = None, id_last_change = now, id_nudged = False\<rparr>) in
     if id_last_hash e \<noteq> Some h
     then (NudgeActive, hm_insert sid \<lparr>id_last_hash = Some h, id_last_change = now, id_nudged = False\<rparr> t)
     else (idle_state (max 0 (now - id_last_change e)) nudge_after kill_after (id_nudged e), hm_insert sid e t))"

definition idle_mark_nudged :: "string \<Rightarrow> idle_tracker \<Rightarrow> idle_tracker" where
  "idle_mark_nudged sid t =
    (case hm_get t sid of Some e \<Rightarrow> hm_insert sid (e\<lparr>id_nudged := True\<rparr>) t | None \<Rightarrow> t)"

definition idle_remove :: "string \<Rightarrow> idle_tracker \<Rightarrow> idle_tracker" where
  "idle_remove sid t = hm_remove sid t"

section \<open>Differences between checkpoints\<close>

record phase_change =
  pc_phase :: string
  pc_old_status :: string
  pc_new_status :: string

datatype CheckpointDiff =
    NotStarted
  | CheckpointNotFound
  | Started string string
  | Progressed string string
  | PhasesChanged "phase_change list"
  | CheckpointCompleted
  | NoChange

record 'j checkpoint_watcher =
  cw_last_checkpoint :: "'j checkpoint option"
  cw_starting_sequence :: "nat option"
  cw_poll_count :: nat

definition watcher_new :: "'j checkpoint_watcher" where
  "watcher_new = \<lparr>cw_last_checkpoint = None, cw_starting_sequence = None, cw_poll_count = 0\<rparr>"

text \<open>The name of the phase, inferred from the statuses or else from the sequence number.\<close>

definition shown_phase :: "'j checkpoint \<Rightarrow> string" where
  "shown_phase c =
    (case inferred_phase_name c of
       Some p \<Rightarrow> p
     | None \<Rightarrow> (case current_phase c of Some p \<Rightarrow> p | None \<Rightarrow> ''unknown''))"

definition find_changed_phases :: "'j checkpoint \<Rightarrow> 'j checkpoint \<Rightarrow> phase_change list" where
  "find_changed_phases old new =
     List.map_filter (\<lambda>(p, s).
       case hm_get (ck_phases old) p of
         Some o' \<Rightarrow>
           if ps_status o' \<noteq> ps_status s
           then Some \<lparr>pc_phase = p, pc_old_status = ps_status o', pc_new_status = ps_status s\<rparr> else None
       | None \<Rightarrow> Some \<lparr>pc_phase = p, pc_old_status = ''none'', pc_new_status = ps_status s\<rparr>) (ck_phases new)"

definition sequence_or_zero :: "'j checkpoint \<Rightarrow> nat" where
  "sequence_or_zero c = (case effective_phase_sequence c of Some n \<Rightarrow> n | None \<Rightarrow> 0)"

definition compute_diff :: "'j checkpoint \<Rightarrow> 'j checkpoint \<Rightarrow> CheckpointDiff" where
  "compute_diff old new =
    (if is_complete new then CheckpointCompleted
     else if sequence_or_zero new > sequence_or_zero old then Progressed (shown_phase old) (shown_phase new)
     else let changed = find_changed_phases old new in
       if changed \<noteq> [] then PhasesChanged changed else NoChange)"

text \<open>A poll; \<open>None\<close> where the file is missing or cannot be read.\<close>

definition watcher_poll :: "'j checkpoint option \<Rightarrow> 'j checkpoint_watcher \<Rightarrow> CheckpointDiff \<times> 'j checkpoint_watcher" where
  "watcher_poll current w =
    (let w1 = w\<lparr>cw_poll_count := cw_poll_count w + 1\<rparr> in
     case (current, cw_last_checkpoint w1) of
       (None, None) \<Rightarrow> (NotStarted, w1)
     | (Some c, None) \<Rightarrow>
         (Started (ck_id c) (shown_phase c),
          w1\<lparr>cw_starting_sequence := effective_phase_sequence c, cw_last_checkpoint := Some c\<rparr>)
     | (None, Some _) \<Rightarrow> (CheckpointNotFound, w1\<lparr>cw_last_checkpoint := None\<rparr>)
     | (Some c, Some prev) \<Rightarrow> (compute_diff prev c, w1\<lparr>cw_last_checkpoint := Some c\<rparr>))"

definition read_current :: "bool \<Rightarrow> string + 'j checkpoint \<Rightarrow> 'j checkpoint option" where
  "read_current exists content =
    (if \<not> exists then None else case content of Inr c \<Rightarrow> Some c | Inl _ \<Rightarrow> None)"

definition watcher_has_progressed :: "'j checkpoint option \<Rightarrow> 'j checkpoint_watcher \<Rightarrow> bool" where
  "watcher_has_progressed current w =
    (case (current, cw_starting_sequence w) of
       (Some c, Some start) \<Rightarrow> sequence_or_zero c > start
     | _ \<Rightarrow> False)"

definition done_status :: "'j checkpoint \<Rightarrow> string \<Rightarrow> bool" where
  "done_status c p \<longleftrightarrow>
    (case hm_get (ck_phases c) p of Some s \<Rightarrow> ps_status s = ''completed'' \<or> ps_status s = ''skipped'' | None \<Rightarrow> False)"

definition watcher_phase_complete :: "'j checkpoint option \<Rightarrow> string \<Rightarrow> bool" where
  "watcher_phase_complete current p \<longleftrightarrow> (case current of Some c \<Rightarrow> done_status c p | None \<Rightarrow> False)"

definition watcher_group_complete :: "'j checkpoint option \<Rightarrow> string list \<Rightarrow> bool" where
  "watcher_group_complete current ps \<longleftrightarrow> (case current of Some c \<Rightarrow> list_all (done_status c) ps | None \<Rightarrow> False)"

record checkpoint_counts =
  cn_arc_id :: string
  cn_current_phase :: "string option"
  cn_phase_sequence :: "nat option"
  cn_completed :: nat
  cn_skipped :: nat
  cn_pending :: nat
  cn_in_progress :: nat
  cn_failed :: nat

definition watcher_summary :: "'j checkpoint option \<Rightarrow> checkpoint_counts option" where
  "watcher_summary current =
     map_option (\<lambda>c.
       \<lparr>cn_arc_id = ck_id c,
        cn_current_phase = (case inferred_phase_name c of Some p \<Rightarrow> Some p | None \<Rightarrow> current_phase c),
        cn_phase_sequence = effective_phase_sequence c,
        cn_completed = count_by_status c ''completed'', cn_skipped = count_by_status c ''skipped'',
        cn_pending = count_by_status c ''pending'', cn_in_progress = count_by_status c ''in_progress'',
        cn_failed = count_by_status c ''failed''\<rparr>) current"

definition total_tracked :: "checkpoint_counts \<Rightarrow> nat" where
  "total_tracked n = cn_completed n + cn_skipped n + cn_pending n + cn_in_progress n + cn_failed n"

section \<open>The trackers agree\<close>

text \<open>An entry of the tracker of several sessions, as a manager of its own.\<close>

definition entry_matches :: "nudge_manager \<Rightarrow> idle_entry option \<Rightarrow> bool" where
  "entry_matches m e \<longleftrightarrow>
    (case e of
       None \<Rightarrow> nm_last_hash m = None
     | Some x \<Rightarrow> id_last_hash x \<noteq> None \<and> nm_last_hash m = id_last_hash x \<and> nm_last_change m = id_last_change x
         \<and> nm_nudged m = id_nudged x)"

text \<open>
  The tracker of several sessions keeps for each of them what a manager of its own would: an update gives
  the same state, and the other sessions are as before.
\<close>

theorem tracker_refines_manager:
  assumes "entry_matches m (hm_get t sid)"
  shows "fst (idle_update h now (nc_idle_nudge_after cfg) (nc_idle_kill_after cfg) sid t) = fst (nudge_update cfg h now m)
    \<and> entry_matches (snd (nudge_update cfg h now m))
        (hm_get (snd (idle_update h now (nc_idle_nudge_after cfg) (nc_idle_kill_after cfg) sid t)) sid)
    \<and> (\<forall>s. s \<noteq> sid \<longrightarrow>
          hm_get (snd (idle_update h now (nc_idle_nudge_after cfg) (nc_idle_kill_after cfg) sid t)) s = hm_get t s)"
  using assms
  by (cases "hm_get t sid") (auto simp: entry_matches_def idle_update_def nudge_update_def Let_def split: option.splits)

section \<open>What the watcher reports\<close>

lemma changed_phases_exact:
  "find_changed_phases old new = [] \<longleftrightarrow>
    (\<forall>(p, s) \<in> set (ck_phases new). \<exists>o'. hm_get (ck_phases old) p = Some o' \<and> ps_status o' = ps_status s)"
  by (auto simp: find_changed_phases_def map_filter_def filter_empty_conv split: option.splits if_splits)

text \<open>A checkpoint that cannot be read for one poll starts the watch afresh, and progress made meanwhile is not reported.\<close>

theorem gap_hides_progress:
  "fst (watcher_poll (Some c2) (snd (watcher_poll None (snd (watcher_poll (Some c1) w))))) = Started (ck_id c2) (shown_phase c2)"
  by (cases "cw_last_checkpoint w") (simp_all add: watcher_poll_def Let_def)

end
