(* ===== verification/Elden.thy ===== *)
theory Elden
  imports Phase_Order GW_Prelude
begin

text \<open>
  The hooks of Claude Code (\<open>commands/elden.rs\<close>): the session id they use, the context they print, the
  signal files they leave for the monitors and how those read them, and the registration of the hooks in
  the settings file. JSON is data here; its text is outside the model.
\<close>

section \<open>JSON\<close>

datatype json = JNull | JBool bool | JNum string | JStr string | JArr "json list" | JObj "(string \<times> json) list"

definition j_get :: "json \<Rightarrow> string \<Rightarrow> json option" where
  "j_get j k = (case j of JObj o' \<Rightarrow> hm_get o' k | _ \<Rightarrow> None)"

definition as_str :: "json \<Rightarrow> string option" where
  "as_str j = (case j of JStr s \<Rightarrow> Some s | _ \<Rightarrow> None)"

definition str_at :: "json \<Rightarrow> string \<Rightarrow> string \<Rightarrow> string" where
  "str_at j k dflt = (case Option.bind (j_get j k) as_str of Some s \<Rightarrow> s | None \<Rightarrow> dflt)"

section \<open>The session id\<close>

datatype HookSource = Startup | Resume | Compact | UnknownSource

record hook_input =
  hk_session_id :: "string option"
  hk_source :: "HookSource option"

definition first_line :: "string \<Rightarrow> string" where
  "first_line content = (case str_lines content of l # _ \<Rightarrow> trim l | [] \<Rightarrow> [])"

text \<open>The environment, the file and the input, in this order.\<close>

definition resolve_session_id :: "string option \<Rightarrow> string option \<Rightarrow> hook_input option \<Rightarrow> string" where
  "resolve_session_id env file input =
    (case env of
       Some (c # cs) \<Rightarrow> c # cs
     | _ \<Rightarrow>
         (case map_option first_line file of
            Some (c # cs) \<Rightarrow> c # cs
          | _ \<Rightarrow>
              (case Option.bind input hk_session_id of
                 Some (c # cs) \<Rightarrow> c # cs
               | _ \<Rightarrow> ''unknown'')))"

definition persist_session_id :: "string \<Rightarrow> string \<Rightarrow> string" where
  "persist_session_id session_id now = session_id @ [CHR 0x0A] @ now @ [CHR 0x0A]"

definition read_persisted_session_id :: "string option \<Rightarrow> string option" where
  "read_persisted_session_id file =
    (case file of
       None \<Rightarrow> None
     | Some content \<Rightarrow> (case str_lines content of [] \<Rightarrow> None | l # _ \<Rightarrow> if trim l = [] then None else Some (trim l)))"

text \<open>What comes from the input: the bytes of one read of at most 4096.\<close>

definition read_hook_input :: "(string \<Rightarrow> hook_input option) \<Rightarrow> string option \<Rightarrow> hook_input option" where
  "read_hook_input parse input =
    (case input of
       None \<Rightarrow> None
     | Some bytes \<Rightarrow>
         if bytes = [] then None
         else let trimmed = trim (take 4096 bytes) in if trimmed = [] then None else parse trimmed)"

section \<open>The arc's checkpoint\<close>

record arc_checkpoint_info =
  ac_plan_file :: string
  ac_current_phase :: string
  ac_completed :: nat
  ac_total :: nat
  ac_terminal_phase_completed :: bool

definition status_in :: "json \<Rightarrow> string" where
  "status_in v = str_at v ''status'' []"

definition done_value :: "json \<Rightarrow> bool" where
  "done_value v \<longleftrightarrow> status_in v = ''completed'' \<or> status_in v = ''skipped''"

text \<open>From the JSON of the checkpoint that the loop state names; \<open>None\<close> where there is none.\<close>

definition detect_arc_checkpoint :: "json option \<Rightarrow> arc_checkpoint_info option" where
  "detect_arc_checkpoint found =
    (case found of
       None \<Rightarrow> None
     | Some c \<Rightarrow>
         (case j_get c ''phases'' of
            Some (JObj phases) \<Rightarrow>
              Some \<lparr>ac_plan_file = str_at c ''plan_file'' ''unknown'',
                ac_current_phase =
                  (case find (\<lambda>p. case hm_get phases p of Some v \<Rightarrow> \<not> done_value v | None \<Rightarrow> False) PHASE_ORDER of
                     Some p \<Rightarrow> p | None \<Rightarrow> ''all_complete''),
                ac_completed = length (filter done_value (map snd phases)),
                ac_total = length phases,
                ac_terminal_phase_completed =
                  (case Option.bind (phase_at (PHASE_COUNT - 1)) (hm_get phases) of
                     Some v \<Rightarrow> Option.bind (j_get v ''status'') as_str = Some ''completed''
                   | None \<Rightarrow> False)\<rparr>
          | _ \<Rightarrow> None))"

section \<open>Signals\<close>

text \<open>The number of phases is written as a JSON number.\<close>

definition checkpoint_json :: "arc_checkpoint_info option \<Rightarrow> json" where
  "checkpoint_json info =
    (case info of
       None \<Rightarrow> JNull
     | Some ci \<Rightarrow> JObj [(''plan_file'', JStr (ac_plan_file ci)), (''current_phase'', JStr (ac_current_phase ci)),
         (''completed'', JNum (show_nat (ac_completed ci))), (''total'', JNum (show_nat (ac_total ci)))])"

definition stop_signal :: "string \<Rightarrow> string \<Rightarrow> arc_checkpoint_info option \<Rightarrow> json" where
  "stop_signal session_id now info =
     JObj [(''event'', JStr ''stop''), (''session_id'', JStr session_id), (''timestamp'', JStr now),
       (''checkpoint'', checkpoint_json info)]"

definition stop_failure_signal :: "string \<Rightarrow> string \<Rightarrow> arc_checkpoint_info option \<Rightarrow> json" where
  "stop_failure_signal session_id now info =
     JObj [(''event'', JStr ''stop_failure''), (''session_id'', JStr session_id), (''timestamp'', JStr now),
       (''checkpoint'', checkpoint_json info)]"

definition arc_is_complete :: "arc_checkpoint_info option \<Rightarrow> bool" where
  "arc_is_complete info \<longleftrightarrow>
    (case info of
       None \<Rightarrow> False
     | Some ci \<Rightarrow> ac_terminal_phase_completed ci \<or> ac_completed ci \<ge> ac_total ci \<and> ac_total ci > 0)"

definition session_end_signal :: "string \<Rightarrow> string \<Rightarrow> arc_checkpoint_info option \<Rightarrow> json" where
  "session_end_signal session_id now info =
     JObj [(''event'', JStr ''session_end''), (''session_id'', JStr session_id), (''timestamp'', JStr now),
       (''is_complete'', JBool (arc_is_complete info)), (''checkpoint'', checkpoint_json info)]"

definition permission_signal :: "string \<Rightarrow> string \<Rightarrow> json" where
  "permission_signal session_id now =
     JObj [(''event'', JStr ''permission_request''), (''session_id'', JStr session_id), (''timestamp'', JStr now)]"

text \<open>The file an event writes and what it writes.\<close>

definition execute_event ::
  "string \<Rightarrow> string \<Rightarrow> string \<Rightarrow> arc_checkpoint_info option \<Rightarrow> (string \<times> json) option" where
  "execute_event event session_id now info =
    (if event = ''stop'' then Some (''session-stop.json'', stop_signal session_id now info)
     else if event = ''stop-failure'' then Some (''stop-failure.json'', stop_failure_signal session_id now info)
     else if event = ''session-end'' then Some (''session-end.json'', session_end_signal session_id now info)
     else if event = ''permission'' then Some (''permission-pending.json'', permission_signal session_id now)
     else None)"

text \<open>The files of a signal directory; what is not JSON counts as absent.\<close>

type_synonym signal_files = "string \<rightharpoonup> json"

definition read_signal_for_session :: "signal_files \<Rightarrow> string \<Rightarrow> string \<Rightarrow> json option" where
  "read_signal_for_session dir filename expected =
    (case dir filename of
       None \<Rightarrow> None
     | Some signal \<Rightarrow>
         let s = str_at signal ''session_id'' [] in
         if s = expected \<or> s = ''unknown'' \<or> expected = ''unknown'' then Some signal else None)"

definition permission_is_pending :: "nat option \<Rightarrow> bool" where
  "permission_is_pending age_secs = (case age_secs of Some n \<Rightarrow> n < 60 | None \<Rightarrow> False)"

definition SIGNAL_FILES :: "string list" where
  "SIGNAL_FILES = [''session-stop.json'', ''stop-failure.json'', ''session-end.json'', ''permission-pending.json'']"

definition clear_signals_from :: "signal_files \<Rightarrow> signal_files" where
  "clear_signals_from dir = dir |` (- set SIGNAL_FILES)"

section \<open>Registering the hooks\<close>

definition HOOK_MARKER :: string where "HOOK_MARKER = ''gw elden''"

definition REQUIRED_HOOKS :: "(string \<times> string) list" where
  "REQUIRED_HOOKS =
    [(''SessionStart'', ''gw elden''), (''PreCompact'', ''gw elden''), (''Stop'', ''gw elden --event stop''),
     (''StopFailure'', ''gw elden --event stop-failure''), (''SessionEnd'', ''gw elden --event session-end''),
     (''PermissionRequest'', ''gw elden --event permission'')]"

definition gw_command :: "json \<Rightarrow> bool" where
  "gw_command hook = (case Option.bind (j_get hook ''command'') as_str of Some c \<Rightarrow> str_contains HOOK_MARKER c | None \<Rightarrow> False)"

definition gw_entry :: "json \<Rightarrow> bool" where
  "gw_entry entry = (case j_get entry ''hooks'' of Some (JArr hooks) \<Rightarrow> list_ex gw_command hooks | _ \<Rightarrow> False)"

definition hooks_of :: "json \<Rightarrow> string \<Rightarrow> json option" where
  "hooks_of settings event = Option.bind (j_get settings ''hooks'') (\<lambda>h. j_get h event)"

definition has_gw_hook :: "json \<Rightarrow> string \<Rightarrow> bool" where
  "has_gw_hook settings event = (case hooks_of settings event of Some (JArr es) \<Rightarrow> list_ex gw_entry es | _ \<Rightarrow> False)"

definition hook_entry :: "string \<Rightarrow> json" where
  "hook_entry command =
     JObj [(''matcher'', JStr []), (''hooks'', JArr [JObj [(''type'', JStr ''command''), (''command'', JStr command)]])]"

definition install_hook :: "string \<times> string \<Rightarrow> (string, json) hash_map \<Rightarrow> (string, json) hash_map" where
  "install_hook ec hooks =
    (case hm_get hooks (fst ec) of
       Some (JArr es) \<Rightarrow> hm_insert (fst ec) (JArr (es @ [hook_entry (snd ec)])) hooks
     | _ \<Rightarrow> hm_insert (fst ec) (JArr [hook_entry (snd ec)]) hooks)"

definition install_settings :: "json \<Rightarrow> string + json" where
  "install_settings settings =
    (let missing = filter (\<lambda>(e, _). \<not> has_gw_hook settings e) REQUIRED_HOOKS in
     if missing = [] then Inr settings
     else case settings of
       JObj obj \<Rightarrow>
         let obj1 = (if hm_get obj ''hooks'' = None then hm_insert ''hooks'' (JObj []) obj else obj) in
         (case hm_get obj1 ''hooks'' of
            Some (JObj hooks) \<Rightarrow> Inr (JObj (hm_insert ''hooks'' (JObj (fold install_hook missing hooks)) obj1))
          | _ \<Rightarrow> Inl ''hooks is not an object'')
     | _ \<Rightarrow> Inl ''settings.json root is not an object'')"

definition remove_gw_hooks :: "string \<Rightarrow> (string, json) hash_map \<Rightarrow> bool \<times> (string, json) hash_map" where
  "remove_gw_hooks event hooks =
    (case hm_get hooks event of
       Some (JArr es) \<Rightarrow>
         let kept = filter (\<lambda>e. \<not> gw_entry e) es in
         (length kept < length es, if kept = [] then hm_remove event hooks else hm_insert event (JArr kept) hooks)
     | _ \<Rightarrow> (False, hooks))"

definition remove_all_hooks :: "string list \<Rightarrow> (string, json) hash_map \<Rightarrow> bool \<times> (string, json) hash_map" where
  "remove_all_hooks events hooks =
     fold (\<lambda>e (removed, h). case remove_gw_hooks e h of (r, h') \<Rightarrow> (removed \<or> r, h')) events (False, hooks)"

text \<open>The settings that are written, if anything was removed.\<close>

definition uninstall_settings :: "json \<Rightarrow> json option" where
  "uninstall_settings settings =
    (case settings of
       JObj obj \<Rightarrow>
         (case hm_get obj ''hooks'' of
            Some (JObj hooks) \<Rightarrow>
              (case remove_all_hooks (map fst REQUIRED_HOOKS) hooks of
                 (removed, hooks') \<Rightarrow> if removed then Some (JObj (hm_insert ''hooks'' (JObj hooks') obj)) else None)
          | _ \<Rightarrow> None)
     | _ \<Rightarrow> None)"

text \<open>Installing with its files: the settings read and parsed if the file is there.\<close>

definition install_io :: "io_result \<Rightarrow> bool \<Rightarrow> string + json \<Rightarrow> io_result \<Rightarrow> string + json" where
  "install_io mkdir exists content write =
    (case mkdir of
       Some e \<Rightarrow> Inl (''Failed to create .claude: '' @ e)
     | None \<Rightarrow>
         (case (if exists then content else Inr (JObj [])) of
            Inl e \<Rightarrow> Inl e
          | Inr s \<Rightarrow>
              if list_all (\<lambda>(e, _). has_gw_hook s e) REQUIRED_HOOKS then Inr s
              else case install_settings s of
                Inl e \<Rightarrow> Inl e
              | Inr s' \<Rightarrow> (case write of Some e \<Rightarrow> Inl (''Failed to write .claude/settings.json: '' @ e) | None \<Rightarrow> Inr s')))"

section \<open>Installing and uninstalling\<close>

lemma j_get_JObj [simp]: "j_get (JObj o') k = hm_get o' k"
  by (simp add: j_get_def)

lemma contains_itself: "str_contains s (s @ t)"
  unfolding str_contains_iff by (rule exI [of _ "[]"], rule exI [of _ t]) simp

lemma installed_commands: "\<forall>(e, c) \<in> set REQUIRED_HOOKS. str_contains HOOK_MARKER c"
proof -
  have "str_contains ''gw elden'' (''gw elden'' @ t)" for t by (rule contains_itself)
  from this [of "[]"] this [of "'' --event stop''"] this [of "'' --event stop-failure''"] this [of "'' --event session-end''"]
    this [of "'' --event permission''"]
  show ?thesis by (simp add: REQUIRED_HOOKS_def HOOK_MARKER_def)
qed

lemma hook_entry_gw: "str_contains HOOK_MARKER c \<Longrightarrow> gw_entry (hook_entry c)"
  by (simp add: gw_entry_def hook_entry_def gw_command_def as_str_def)

text \<open>The value of an event after installing: the new entry after those that were there.\<close>

definition added :: "json option \<Rightarrow> string \<Rightarrow> json" where
  "added old c = (case old of Some (JArr es) \<Rightarrow> JArr (es @ [hook_entry c]) | _ \<Rightarrow> JArr [hook_entry c])"

lemma install_hook_get: "hm_get (install_hook ec h) k = (if k = fst ec then Some (added (hm_get h k) (snd ec)) else hm_get h k)"
  by (auto simp: install_hook_def added_def split: option.split json.split)

lemma install_hooks_get:
  "distinct (map fst ecs) \<Longrightarrow>
    hm_get (fold install_hook ecs h) k =
      (case hm_get ecs k of Some c \<Rightarrow> Some (added (hm_get h k) c) | None \<Rightarrow> hm_get h k)"
proof (induction ecs arbitrary: h)
  case (Cons ec ecs)
  then have "fst ec \<notin> set (map fst ecs)" by simp
  then have "hm_get ecs (fst ec) = None" by (simp add: map_of_eq_None_iff)
  with Cons show ?case by (cases ec) (auto simp: install_hook_get split: option.split)
qed simp

lemma required_distinct: "distinct (map fst REQUIRED_HOOKS)"
  by (simp add: REQUIRED_HOOKS_def)

lemma missing_get:
  "hm_get (filter (\<lambda>(e, _). P e) ecs) k = (if P k then hm_get ecs k else None)"
  by (induction ecs) auto

text \<open>Installing, exactly: the events that lack a hook get one, and nothing else changes.\<close>

lemma install_settings_get:
  assumes "install_settings s = Inr s'"
  shows "hooks_of s' e =
      (case hm_get REQUIRED_HOOKS e of
         Some c \<Rightarrow> if has_gw_hook s e then hooks_of s e else Some (added (hooks_of s e) c)
       | None \<Rightarrow> hooks_of s e)"
    and "k \<noteq> ''hooks'' \<Longrightarrow> j_get s' k = j_get s k"
proof -
  let ?m = "filter (\<lambda>(e, _). \<not> has_gw_hook s e) REQUIRED_HOOKS"
  show "hooks_of s' e =
      (case hm_get REQUIRED_HOOKS e of
         Some c \<Rightarrow> if has_gw_hook s e then hooks_of s e else Some (added (hooks_of s e) c)
       | None \<Rightarrow> hooks_of s e)"
  proof (cases "?m = []")
    case True
    with assms have "s' = s" by (simp add: install_settings_def Let_def)
    moreover have "has_gw_hook s e" if "hm_get REQUIRED_HOOKS e = Some c" for c
      using True map_of_SomeD [OF that] by (auto simp: filter_empty_conv)
    ultimately show ?thesis by (simp split: option.split)
  next
    case False
    with assms obtain obj where s: "s = JObj obj" by (auto simp: install_settings_def Let_def split: json.splits)
    let ?o = "if hm_get obj ''hooks'' = None then hm_insert ''hooks'' (JObj []) obj else obj"
    from False assms s obtain hooks where h: "hm_get ?o ''hooks'' = Some (JObj hooks)"
      "s' = JObj (hm_insert ''hooks'' (JObj (fold install_hook ?m hooks)) ?o)"
      by (auto simp: install_settings_def Let_def split: option.splits json.splits if_splits)
    have old: "hooks_of s e = hm_get hooks e"
      using h(1) s by (auto simp: hooks_of_def split: if_splits option.splits)
    have "distinct (map fst ?m)" using required_distinct by (rule distinct_map_filter)
    then show ?thesis using h(2) old
      by (simp add: hooks_of_def install_hooks_get missing_get split: option.split)
  qed
  show "j_get s' k = j_get s k" if "k \<noteq> ''hooks''"
    using assms that by (auto simp: install_settings_def Let_def split: json.splits option.splits if_splits)
qed

lemma installed_all:
  assumes "install_settings s = Inr s'" "(e, c) \<in> set REQUIRED_HOOKS"
  shows "has_gw_hook s' e"
proof -
  have g: "hm_get REQUIRED_HOOKS e = Some c" using assms(2) required_distinct by simp
  have "gw_entry (hook_entry c)" using assms(2) installed_commands hook_entry_gw by auto
  moreover have "hooks_of s' e = (if has_gw_hook s e then hooks_of s e else Some (added (hooks_of s e) c))"
    using install_settings_get(1) [OF assms(1)] g by simp
  ultimately show ?thesis
    by (auto simp: has_gw_hook_def added_def split: option.splits json.splits if_splits)
qed

text \<open>
  Installing the hooks gives every required event one, keeps the entries a user has for any event, in front,
  and all other settings, and a second installation changes nothing.
\<close>

theorem install_is_complete_and_idempotent:
  assumes "install_settings s = Inr s'"
  shows "(\<forall>(e, c) \<in> set REQUIRED_HOOKS. has_gw_hook s' e) \<and> install_settings s' = Inr s'
    \<and> (\<forall>e es. hooks_of s e = Some (JArr es) \<longrightarrow> (\<exists>new. hooks_of s' e = Some (JArr (es @ new))))
    \<and> (\<forall>k. k \<noteq> ''hooks'' \<longrightarrow> j_get s' k = j_get s k)"
proof (intro conjI allI impI)
  show all: "\<forall>(e, c) \<in> set REQUIRED_HOOKS. has_gw_hook s' e" using installed_all [OF assms] by auto
  then have "filter (\<lambda>(e, _). \<not> has_gw_hook s' e) REQUIRED_HOOKS = []" by (auto simp: filter_empty_conv)
  then show "install_settings s' = Inr s'" by (simp add: install_settings_def Let_def)
next
  fix e es assume "hooks_of s e = Some (JArr es)"
  then show "\<exists>new. hooks_of s' e = Some (JArr (es @ new))"
    using install_settings_get(1) [OF assms, of e]
    by (cases "hm_get REQUIRED_HOOKS e"; cases "has_gw_hook s e") (auto simp: added_def)
qed (use install_settings_get(2) [OF assms] in simp)

section \<open>Uninstalling takes the installation back\<close>

text \<open>An event as a user may have it: no entry, or entries none of which is of gw.\<close>

definition user_event :: "json \<Rightarrow> string \<Rightarrow> bool" where
  "user_event s e \<longleftrightarrow>
    (case hooks_of s e of None \<Rightarrow> True | Some (JArr es) \<Rightarrow> es \<noteq> [] \<and> \<not> list_ex gw_entry es | _ \<Rightarrow> False)"

definition cleaned :: "json option \<Rightarrow> json option" where
  "cleaned old =
    (case old of
       Some (JArr es) \<Rightarrow> let kept = filter (\<lambda>e. \<not> gw_entry e) es in if kept = [] then None else Some (JArr kept)
     | _ \<Rightarrow> old)"

lemma remove_gw_hooks_get:
  "hm_get (snd (remove_gw_hooks e h)) k = (if k = e then cleaned (hm_get h e) else hm_get h k)"
  by (auto simp: remove_gw_hooks_def cleaned_def Let_def split: option.split json.split)

lemma cleaned_idem: "cleaned (cleaned x) = cleaned x"
  by (auto simp: cleaned_def Let_def split: option.split json.split)

lemma remove_fold_get:
  "hm_get (snd (fold (\<lambda>e (removed, h). case remove_gw_hooks e h of (r, h') \<Rightarrow> (removed \<or> r, h')) es (b, h))) k
    = (if k \<in> set es then cleaned (hm_get h k) else hm_get h k)"
proof (induction es arbitrary: b h)
  case (Cons e es)
  obtain r h' where r: "remove_gw_hooks e h = (r, h')" by fastforce
  with remove_gw_hooks_get [of e h k] have "hm_get h' k = (if k = e then cleaned (hm_get h e) else hm_get h k)" by simp
  with Cons.IH [of "b \<or> r" h'] r show ?case by (auto simp: cleaned_idem)
qed simp

lemma remove_fold_flag:
  "fst (fold (\<lambda>e (removed, h). case remove_gw_hooks e h of (r, h') \<Rightarrow> (removed \<or> r, h')) es (True, h))"
  by (induction es arbitrary: h) (auto split: prod.split)

lemma added_cleaned:
  assumes "gw_entry (hook_entry c)" "case old of None \<Rightarrow> True | Some (JArr es) \<Rightarrow> es \<noteq> [] \<and> \<not> list_ex gw_entry es | _ \<Rightarrow> False"
  shows "cleaned (Some (added old c)) = old"
  using assms by (auto simp: cleaned_def added_def list_ex_iff filter_empty_conv Let_def filter_id_conv split: option.splits json.splits)


text \<open>A command of the user in the same entry is removed with the one of gw.\<close>

theorem uninstall_removes_user_command:
  "uninstall_settings (JObj [(''hooks'', JObj [(''Stop'', JArr [JObj [(''hooks'',
      JArr [JObj [(''command'', JStr ''notify-send done'')], JObj [(''command'', JStr ''gw elden --event stop'')]])]])])])
   = Some (JObj [(''hooks'', JObj [])])"
  by code_simp

section \<open>The session id never changes\<close>

text \<open>
  Once an id has been written for a directory, every later session gets that one, whatever id Claude
  Code gives it.
\<close>

theorem first_session_id_sticks:
  assumes "str_lines (persist_session_id sid now) = [sid, now]" "trim sid = sid" "sid \<noteq> []"
  shows "resolve_session_id None (Some (persist_session_id sid now)) input = sid"
  using assms by (cases sid) (simp_all add: resolve_session_id_def first_line_def)

theorem first_session_id_sticks_witness:
  "resolve_session_id None (Some (persist_session_id ''a1'' ''now'')) (Some \<lparr>hk_session_id = Some ''b2'', hk_source = None\<rparr>) = ''a1''"
  by (rule first_session_id_sticks) code_simp+

text \<open>An input of more than one read is cut, and what is left does not parse.\<close>

theorem long_input_is_cut:
  "length bytes > 4096 \<Longrightarrow> parse (trim (take 4096 bytes)) = None \<Longrightarrow> read_hook_input parse (Some bytes) = None"
  by (auto simp: read_hook_input_def Let_def)

section \<open>Signals and their readers\<close>

theorem signals_are_read_back:
  assumes "execute_event ev sid now info = Some (f, j)" "expected = sid \<or> sid = ''unknown'' \<or> expected = ''unknown''"
  shows "read_signal_for_session (dir(f \<mapsto> j)) f expected = Some j"
  using assms
  by (auto simp: execute_event_def read_signal_for_session_def str_at_def as_str_def stop_signal_def stop_failure_signal_def
      session_end_signal_def permission_signal_def split: if_splits)

theorem cleared_signals_are_gone:
  "execute_event ev sid now info = Some (f, j) \<Longrightarrow> clear_signals_from (dir(f \<mapsto> j)) f = None"
  by (auto simp: execute_event_def clear_signals_from_def SIGNAL_FILES_def split: if_splits)

section \<open>Instances\<close>

text \<open>Settings with a model and a hook of the user's own.\<close>

definition example_settings :: json where
  "example_settings =
     JObj [(''model'', JStr ''opus''),
       (''hooks'', JObj [(''Stop'', JArr [JObj [(''hooks'', JArr [JObj [(''command'', JStr ''say done'')]])]])])]"

lemma example_install: "\<exists>s'. install_settings example_settings = Inr s'"
  by (simp add: install_settings_def example_settings_def Let_def)

theorem install_is_complete_and_idempotent_witness:
  "\<exists>s'. install_settings example_settings = Inr s' \<and> install_settings s' = Inr s' \<and> j_get s' ''model'' = Some (JStr ''opus'')"
proof -
  from example_install obtain s' where s: "install_settings example_settings = Inr s'" by blast
  have "j_get example_settings ''model'' = Some (JStr ''opus'')" by (simp add: example_settings_def)
  with install_is_complete_and_idempotent [OF s] s show ?thesis by auto
qed


end
