(* ===== verification/GitHub_Issues.thy ===== *)
theory GitHub_Issues
  imports Orchestrator Protocol
begin

text \<open>
  Runs of GitHub issues (\<open>github/mod.rs\<close>): recognising an issue among the plans, the plan file made from
  it, and the slug of its title. What the \<open>gh\<close> command answers and the files are arguments. Titles that
  are cut by bytes are lists of code points; \<open>alnum\<close> are the alphanumeric ones.
\<close>

section \<open>Recognising an issue\<close>

record github_issue =
  gi_owner :: string
  gi_repo :: string
  gi_number :: nat

definition short_ref :: "github_issue \<Rightarrow> string" where
  "short_ref i = gi_owner i @ ''/'' @ gi_repo i @ ''#'' @ show_nat (gi_number i)"

text \<open>\<open>str::split_once\<close> at a character.\<close>

definition split_once :: "char \<Rightarrow> string \<Rightarrow> (string \<times> string) option" where
  "split_once c s =
    (if c \<in> set s then Some (takeWhile (\<lambda>x. x \<noteq> c) s, tl (dropWhile (\<lambda>x. x \<noteq> c) s)) else None)"

definition issue_of :: "string \<Rightarrow> string \<Rightarrow> nat \<Rightarrow> github_issue" where
  "issue_of owner repo n = \<lparr>gi_owner = owner, gi_repo = repo, gi_number = n\<rparr>"

definition parse_issue_path :: "string \<Rightarrow> github_issue option" where
  "parse_issue_path rest =
    (case split_on (CHR ''/'') rest of
       owner # repo # kind # num # _ \<Rightarrow>
         if kind = ''issues'' then
           (case parse_u64 num of
              None \<Rightarrow> None
            | Some n \<Rightarrow> if owner \<noteq> [] \<and> repo \<noteq> [] then Some (issue_of owner repo n) else None)
         else None
     | _ \<Rightarrow> None)"

definition parse_shorthand :: "string \<Rightarrow> github_issue option" where
  "parse_shorthand t =
    (case split_once (CHR ''#'') t of
       None \<Rightarrow> None
     | Some (repo_part, num) \<Rightarrow>
         (case split_once (CHR ''/'') repo_part of
            None \<Rightarrow> None
          | Some (owner, repo) \<Rightarrow>
              (case parse_u64 num of
                 None \<Rightarrow> None
               | Some n \<Rightarrow>
                   if owner \<noteq> [] \<and> repo \<noteq> [] \<and> CHR ''/'' \<notin> set owner then Some (issue_of owner repo n) else None)))"

definition parse_github_issue_url :: "string \<Rightarrow> github_issue option" where
  "parse_github_issue_url input =
    (let t = trim input;
         after = (case strip_prefix ''https://github.com/'' t of
             Some r \<Rightarrow> Some r
           | None \<Rightarrow> strip_prefix ''http://github.com/'' t)
     in case after of Some rest \<Rightarrow> parse_issue_path rest | None \<Rightarrow> parse_shorthand t)"

definition is_github_issue_url :: "string \<Rightarrow> bool" where
  "is_github_issue_url input \<longleftrightarrow> parse_github_issue_url input \<noteq> None"

section \<open>Fetching an issue\<close>

text \<open>
  What \<open>gh auth status\<close> says, and what \<open>gh issue view\<close> says: an error to run it, its complaint, output
  that is no JSON, or the fields of the answer that have the right type.
\<close>

datatype gh_auth = GhMissing | GhLoggedOut string | GhReady

record gh_json =
  gj_title :: "string option"
  gj_body :: "string option"
  gj_labels :: "string option list option"
  gj_url :: "string option"

datatype gh_view = ViewFailed string | ViewRefused string | ViewUnparsed | ViewJson gh_json

record issue_data =
  is_title :: string
  is_body :: string
  is_labels :: "string list"
  is_url :: string

definition preflight_gh :: "gh_auth \<Rightarrow> io_result" where
  "preflight_gh a =
    (case a of
       GhMissing \<Rightarrow> Some (backtick ''gh'' @ '' CLI is required but not found.'')
     | GhLoggedOut err \<Rightarrow> Some (backtick ''gh'' @ '' CLI is not authenticated. Details: '' @ trim err)
     | GhReady \<Rightarrow> None)"

definition fetch_issue :: "gh_auth \<Rightarrow> gh_view \<Rightarrow> github_issue \<Rightarrow> string + issue_data" where
  "fetch_issue a v i =
    (case preflight_gh a of
       Some e \<Rightarrow> Inl e
     | None \<Rightarrow>
         (case v of
            ViewFailed e \<Rightarrow> Inl (''Failed to execute '' @ backtick ''gh issue view'')
          | ViewRefused err \<Rightarrow> Inl (''Failed to fetch issue '' @ short_ref i @ '': '' @ trim err)
          | ViewUnparsed \<Rightarrow> Inl (''Failed to parse '' @ backtick ''gh'' @ '' JSON output'')
          | ViewJson j \<Rightarrow>
              Inr \<lparr>is_title = (case gj_title j of Some t \<Rightarrow> t | None \<Rightarrow> ''Untitled''),
                   is_body = (case gj_body j of Some b \<Rightarrow> b | None \<Rightarrow> []),
                   is_labels = (case gj_labels j of Some ls \<Rightarrow> List.map_filter id ls | None \<Rightarrow> []),
                   is_url = (case gj_url j of Some u \<Rightarrow> u | None \<Rightarrow> [])\<rparr>))"

section \<open>The slug of a title\<close>

definition byte_len :: "nat list \<Rightarrow> nat" where
  "byte_len cs = sum_list (map utf8_len cs)"

interpretation bytes: text_width byte_len
  by unfold_locales (simp add: byte_len_def)

text \<open>\<open>&s[..n]\<close> on a string of code points: nothing (a panic) unless a character ends at byte \<open>n\<close>.\<close>

fun take_bytes :: "nat \<Rightarrow> nat list \<Rightarrow> nat list option" where
  "take_bytes n [] = (if n = 0 then Some [] else None)"
| "take_bytes n (c # cs) =
    (if n = 0 then Some []
     else if utf8_len c \<le> n then map_option (Cons c) (take_bytes (n - utf8_len c) cs) else None)"

text \<open>The result so far, and whether the last character was a dash.\<close>

fun collapse_dashes :: "nat list \<Rightarrow> bool \<Rightarrow> nat list \<Rightarrow> nat list" where
  "collapse_dashes result prev_dash [] = result"
| "collapse_dashes result prev_dash (c # cs) =
    (if c = 45 then collapse_dashes (if \<not> prev_dash \<and> result \<noteq> [] then result @ [45] else result) True cs
     else collapse_dashes (result @ [c]) False cs)"

definition before_last_dash :: "nat list \<Rightarrow> nat list" where
  "before_last_dash cs =
    (if 45 \<in> set cs then rev (tl (dropWhile (\<lambda>c. c \<noteq> 45) (rev cs))) else cs)"

text \<open>The title is given by the characters of its lower case. No result is a panic.\<close>

definition slugify :: "(nat \<Rightarrow> bool) \<Rightarrow> nat list \<Rightarrow> nat \<Rightarrow> nat list option" where
  "slugify alnum lowered max_len =
    (let slug = map (\<lambda>c. if alnum c then c else 45) lowered;
         result = rev (dropWhile (\<lambda>c. c = 45) (rev (collapse_dashes [] False slug)))
     in if byte_len result > max_len then map_option before_last_dash (take_bytes max_len result) else Some result)"

section \<open>The plan of an issue\<close>

definition quoted_label :: "string \<Rightarrow> string" where
  "quoted_label l = [CHR 0x22] @ l @ [CHR 0x22]"

definition escape_title :: "string \<Rightarrow> string" where
  "escape_title s = concat (map (\<lambda>c. if c = CHR 0x22 then [CHR 0x5C, CHR 0x22] else [c]) s)"

definition format_plan :: "issue_data \<Rightarrow> github_issue \<Rightarrow> string" where
  "format_plan d i =
    (let nl = [CHR 0x0A]; q = [CHR 0x22]; title = escape_title (is_title d);
         labels = (if is_labels d = [] then []
           else nl @ ''labels: ['' @ join_with '', '' (map quoted_label (is_labels d)) @ '']'')
     in ''---'' @ nl
        @ ''title: '' @ q @ title @ q @ nl
        @ ''source: github-issue'' @ nl
        @ ''issue: '' @ q @ short_ref i @ q @ nl
        @ ''url: '' @ q @ is_url d @ q @ labels @ nl
        @ ''---'' @ nl @ nl
        @ ''# '' @ title @ nl @ nl
        @ ''> Source: ['' @ short_ref i @ ''](''  @ is_url d @ '')'' @ nl @ nl
        @ ''## Description'' @ nl @ nl
        @ (if is_body d = [] then ''_No description provided._'' else is_body d) @ nl @ nl
        @ ''## Acceptance Criteria'' @ nl @ nl
        @ ''<!-- Extracted from the issue. Review and adjust before running. -->'' @ nl @ nl
        @ ''- [ ] Implementation satisfies the issue requirements'' @ nl
        @ ''- [ ] Tests cover the new behavior'' @ nl
        @ ''- [ ] No regressions introduced'' @ nl)"

text \<open>The plan's path and what is written there; an existing plan is used as it is. No result is a panic.\<close>

record plan_files =
  pf_mkdir :: io_result
  pf_there :: "path \<Rightarrow> bool"
  pf_write :: io_result
  pf_date :: string
  pf_lower :: "string \<Rightarrow> nat list"
  pf_alnum :: "nat \<Rightarrow> bool"
  pf_utf8 :: "nat list \<Rightarrow> string"

definition generate_plan_from_issue ::
  "plan_files \<Rightarrow> path \<Rightarrow> github_issue \<Rightarrow> issue_data \<Rightarrow> (string + path \<times> string option) option" where
  "generate_plan_from_issue f dir i d =
    (let plans_dir = path_join dir ''plans'' in
     case pf_mkdir f of
       Some e \<Rightarrow> Some (Inl (''Failed to create plans directory: '' @ plans_dir))
     | None \<Rightarrow>
         (case slugify (pf_alnum f) (pf_lower f (is_title d)) 50 of
            None \<Rightarrow> None
          | Some slug \<Rightarrow>
              let file = pf_date f @ ''-issue-'' @ show_nat (gi_number i) @ ''-'' @ pf_utf8 f slug @ ''.md'';
                  p = path_join plans_dir file
              in if pf_there f p then Some (Inr (p, None))
                 else case pf_write f of
                   Some e \<Rightarrow> Some (Inl (''Failed to write plan file: '' @ p))
                 | None \<Rightarrow> Some (Inr (p, Some (format_plan d i)))))"

text \<open>The plans with each issue replaced by the plan made from it, which \<open>plan_of\<close> gives.\<close>

fun resolve_github_urls :: "(github_issue \<Rightarrow> string + path) \<Rightarrow> string list \<Rightarrow> string + string list" where
  "resolve_github_urls plan_of [] = Inr []"
| "resolve_github_urls plan_of (p # ps) =
    (case parse_github_issue_url p of
       Some i \<Rightarrow>
         (case plan_of i of Inl e \<Rightarrow> Inl e | Inr q \<Rightarrow> map_sum id (Cons q) (resolve_github_urls plan_of ps))
     | None \<Rightarrow> map_sum id (Cons p) (resolve_github_urls plan_of ps))"

section \<open>Laws of the recognition\<close>

lemma split_once_append: "c \<notin> set xs \<Longrightarrow> split_once c (xs @ c # ys) = Some (xs, ys)"
  by (auto simp: split_once_def takeWhile_append dropWhile_append)

lemma split_on_append: "d \<notin> set xs \<Longrightarrow> split_on d (xs @ d # ys) = xs # split_on d ys"
  by (induction xs) auto

lemma split_on_single: "d \<notin> set xs \<Longrightarrow> split_on d xs = [xs]"
  by (induction xs) auto

text \<open>The characters GitHub allows in the names of owners and repositories.\<close>

definition name_char :: "char \<Rightarrow> bool" where
  "name_char c \<longleftrightarrow> plain_byte c \<and> c \<noteq> CHR ''/'' \<and> c \<noteq> CHR ''#'' \<and> c \<noteq> CHR '':''"

lemma name_charD: "list_all name_char s \<Longrightarrow> CHR ''/'' \<notin> set s \<and> CHR ''#'' \<notin> set s \<and> CHR '':'' \<notin> set s"
  by (auto simp: list_all_iff name_char_def)

lemma digits_plain: "list_all plain_byte (show_nat n)"
proof -
  have "plain_byte c" if "c \<in> set (show_nat n)" for c
  proof -
    from show_nat_digits [OF that] obtain d :: nat where "d < 10" "c = char_of (48 + d)" by blast
    then show ?thesis by (simp add: plain_byte_def)
  qed
  then show ?thesis by (simp add: list_all_iff)
qed

lemma digits_no_slash: "CHR ''/'' \<notin> set (show_nat n)"
proof
  assume "CHR ''/'' \<in> set (show_nat n)"
  from show_nat_digits [OF this] obtain d :: nat where "d < 10" "CHR ''/'' = char_of (48 + d)" by blast
  then have "(of_char (CHR ''/'') :: nat) = of_char (char_of (48 + d :: nat) :: char)" by simp
  with \<open>d < 10\<close> show False by simp
qed

lemma plain_trim: "s \<noteq> [] \<Longrightarrow> list_all plain_byte s \<Longrightarrow> trim s = s"
  by (rule trim_plain) (auto simp: list_all_iff)

lemma names_plain: "list_all name_char s \<Longrightarrow> list_all plain_byte s"
  by (auto simp: list_all_iff name_char_def)

lemma no_scheme:
  assumes "CHR '':'' \<notin> set owner"
  shows "strip_prefix ''https://github.com/'' (owner @ CHR ''/'' # t) = None"
    and "strip_prefix ''http://github.com/'' (owner @ CHR ''/'' # t) = None"
proof -
  have a: False if "prefix (pre @ CHR '':'' # post) (owner @ CHR ''/'' # t)" "CHR ''/'' \<notin> set pre" for pre post
  proof -
    from that(1) obtain zs where "owner @ CHR ''/'' # t = (pre @ CHR '':'' # post) @ zs" by (auto simp: prefix_def)
    with assms that(2) show False by (auto simp: append_eq_append_conv2 Cons_eq_append_conv append_eq_Cons_conv)
  qed
  from a [of "''https''" "''//github.com/''"] a [of "''http''" "''//github.com/''"]
  show "strip_prefix ''https://github.com/'' (owner @ CHR ''/'' # t) = None"
    and "strip_prefix ''http://github.com/'' (owner @ CHR ''/'' # t) = None"
    by (auto simp: strip_prefix_def)
qed

text \<open>Both forms of an issue are read back: the short reference, and the address of its page.\<close>

theorem issues_are_recognised:
  assumes "gi_owner i \<noteq> []" "gi_repo i \<noteq> []" "list_all name_char (gi_owner i)" "list_all name_char (gi_repo i)"
    and "gi_number i < 2 ^ 64"
  shows "parse_github_issue_url (short_ref i) = Some i"
    and "parse_github_issue_url (''https://github.com/'' @ gi_owner i @ ''/'' @ gi_repo i @ ''/issues/'' @ show_nat (gi_number i)) = Some i"
proof -
  note names = name_charD [OF assms(3)] name_charD [OF assms(4)]
  have i: "issue_of (gi_owner i) (gi_repo i) (gi_number i) = i" by (simp add: issue_of_def)
  have n: "parse_u64 (show_nat (gi_number i)) = Some (gi_number i)" using assms(5) by (rule parse_u64_show_nat)
  have plain: "list_all plain_byte (''/#:https.cmgiubroe'' @ gi_owner i @ gi_repo i @ show_nat (gi_number i))"
    using names_plain [OF assms(3)] names_plain [OF assms(4)] digits_plain by (simp add: plain_byte_def)
  let ?t = "gi_owner i @ CHR ''/'' # gi_repo i @ CHR ''#'' # show_nat (gi_number i)"
  have "trim ?t = ?t" by (rule plain_trim) (use plain in auto)
  moreover have "parse_shorthand ?t = Some i"
    using names assms(1,2) split_once_append [of "CHR ''#''" "gi_owner i @ CHR ''/'' # gi_repo i"]
    by (simp add: parse_shorthand_def split_once_append n i)
  ultimately show "parse_github_issue_url (short_ref i) = Some i"
    using names by (simp add: parse_github_issue_url_def short_ref_def Let_def no_scheme)
  let ?r = "gi_owner i @ CHR ''/'' # gi_repo i @ CHR ''/'' # ''issues'' @ CHR ''/'' # show_nat (gi_number i)"
  have "trim (''https://github.com/'' @ ?r) = ''https://github.com/'' @ ?r"
    by (rule plain_trim) (use plain in auto)
  moreover have "parse_issue_path ?r = Some i"
    using names assms(1,2) digits_no_slash
    by (simp add: parse_issue_path_def split_on_append split_on_single n i del: append_Cons)
  ultimately show "parse_github_issue_url (''https://github.com/'' @ gi_owner i @ ''/'' @ gi_repo i @ ''/issues/'' @ show_nat (gi_number i)) = Some i"
    by (simp add: parse_github_issue_url_def Let_def strip_prefix_def)
qed

text \<open>
  A plan whose path has a number sign before a number is taken for an issue of a repository named by the
  path, whether or not the file is there.
\<close>

theorem plan_path_is_taken_for_issue:
  "parse_github_issue_url ''plans/sub/fix#12'' = Some (issue_of ''plans'' ''sub/fix'' 12)"
proof -
  have "trim ''plans/sub/fix#12'' = ''plans/sub/fix#12''" by (rule plain_trim) (simp_all add: plain_byte_def)
  moreover have "parse_u64 ''12'' = Some 12" by (simp add: parse_u64_def digit_value_def)
  ultimately show ?thesis
    by (simp add: parse_github_issue_url_def Let_def strip_prefix_def parse_shorthand_def split_once_def)
qed

text \<open>The plans that are no issues stay as they are, at their places.\<close>

theorem resolving_keeps_plans:
  "resolve_github_urls plan_of plans = Inr qs \<Longrightarrow>
    list_all2 (\<lambda>p q. case parse_github_issue_url p of None \<Rightarrow> q = p | Some i \<Rightarrow> plan_of i = Inr q) plans qs"
proof (induction plans arbitrary: qs)
  case (Cons p ps)
  show ?case
  proof (cases "resolve_github_urls plan_of ps")
    case (Inr rest)
    from Cons.IH [OF Inr] Inr Cons.prems show ?thesis
      by (cases "parse_github_issue_url p") (auto split: sum.splits)
  qed (use Cons.prems in \<open>auto split: option.splits sum.splits\<close>)
qed simp

section \<open>Laws of the slug\<close>

abbreviation no_double_dash :: "nat list \<Rightarrow> bool" where
  "no_double_dash s \<equiv> successively (\<lambda>a b. \<not> (a = 45 \<and> b = 45)) s"

definition neat_slug :: "nat list \<Rightarrow> bool" where
  "neat_slug s \<longleftrightarrow> no_double_dash s \<and> (s \<noteq> [] \<longrightarrow> hd s \<noteq> 45)"

lemma collapse_neat:
  "neat_slug r \<Longrightarrow> (r \<noteq> [] \<and> last r = 45 \<longrightarrow> prev) \<Longrightarrow>
    neat_slug (collapse_dashes r prev cs) \<and> set (collapse_dashes r prev cs) \<subseteq> set r \<union> set cs"
proof (induction r prev cs rule: collapse_dashes.induct)
  case (2 r prev c cs)
  show ?case
  proof (cases "c = 45")
    case True
    define r1 where "r1 = (if \<not> prev \<and> r \<noteq> [] then r @ [45] else r)"
    have "neat_slug r1" using 2(3,4) by (auto simp: r1_def neat_slug_def successively_append_iff)
    moreover have "set r1 \<subseteq> set r \<union> {45}" by (auto simp: r1_def)
    ultimately show ?thesis using True 2(1) [OF True] by (auto simp: r1_def [symmetric])
  next
    case False
    have "neat_slug (r @ [c])" using 2(3) False by (auto simp: neat_slug_def successively_append_iff hd_append)
    with 2(2) [OF False] False show ?thesis by auto
  qed
qed simp

lemma neat_prefix: "neat_slug s \<Longrightarrow> prefix t s \<Longrightarrow> neat_slug t"
  by (auto simp: neat_slug_def prefix_def successively_append_iff hd_append split: if_splits)

lemma trimmed_prefix: "prefix (rev (dropWhile P (rev s))) s"
  using suffix_dropWhile [of P "rev s"] by (simp add: suffix_to_prefix)

lemma trimmed_last: "rev (dropWhile P (rev s)) \<noteq> [] \<Longrightarrow> \<not> P (last (rev (dropWhile P (rev s))))"
  by (simp add: last_rev hd_dropWhile)

lemma take_bytes_prefix: "take_bytes n s = Some t \<Longrightarrow> prefix t s \<and> byte_len t = n"
proof (induction n s arbitrary: t rule: take_bytes.induct)
  case (2 n c cs)
  then show ?case by (auto simp: byte_len_def split: if_splits)
qed (auto simp: byte_len_def split: if_splits)

lemma before_last_dash:
  assumes "neat_slug short"
  shows "prefix (before_last_dash short) short" and "before_last_dash short \<noteq> [] \<longrightarrow> last (before_last_dash short) \<noteq> 45"
proof -
  have "prefix (before_last_dash short) short \<and> (before_last_dash short \<noteq> [] \<longrightarrow> last (before_last_dash short) \<noteq> 45)"
  proof (cases "45 \<in> set short")
    case True
    then obtain us vs where c: "short = us @ 45 # vs" "45 \<notin> set vs" by (meson split_list_last)
    then have "before_last_dash short = us" by (auto simp: before_last_dash_def dropWhile_append)
    moreover have "us \<noteq> [] \<longrightarrow> last us \<noteq> 45" using assms c(1) by (auto simp: neat_slug_def successively_append_iff)
    ultimately show ?thesis using c(1) by simp
  next
    case False
    then show ?thesis using last_in_set by (fastforce simp: before_last_dash_def)
  qed
  then show "prefix (before_last_dash short) short" and "before_last_dash short \<noteq> [] \<longrightarrow> last (before_last_dash short) \<noteq> 45"
    by auto
qed

text \<open>
  A slug has at most the given number of bytes, only alphanumeric characters and dashes, no two dashes in
  a row and none at its ends.
\<close>

theorem slug_is_clean:
  assumes "slugify alnum lowered n = Some s"
  shows "byte_len s \<le> n" and "\<forall>c \<in> set s. alnum c \<or> c = 45"
    and "no_double_dash s" and "s \<noteq> [] \<longrightarrow> hd s \<noteq> 45 \<and> last s \<noteq> 45"
proof -
  define full where "full = collapse_dashes [] False (map (\<lambda>c. if alnum c then c else 45) lowered)"
  define result where "result = rev (dropWhile (\<lambda>c. c = 45) (rev full))"
  have "neat_slug []" by (simp add: neat_slug_def)
  from collapse_neat [OF this, of False "map (\<lambda>c. if alnum c then c else 45) lowered"]
  have neat: "neat_slug full" and "set full \<subseteq> (\<lambda>c. if alnum c then c else 45) ` set lowered"
    by (simp_all add: full_def)
  have "alnum c \<or> c = 45" if "c \<in> set full" for c
  proof -
    from that \<open>set full \<subseteq> _\<close> obtain x where "c = (if alnum x then x else 45)" by blast
    then show ?thesis by (cases "alnum x") simp_all
  qed
  then have "\<forall>c \<in> set full. alnum c \<or> c = 45" by blast
  note full = neat this
  have p: "prefix result full" unfolding result_def by (rule trimmed_prefix)
  have l: "result \<noteq> [] \<longrightarrow> last result \<noteq> 45"
    unfolding result_def using trimmed_last [of "\<lambda>c. c = 45" full] by simp
  have s: "prefix s result \<and> byte_len s \<le> n \<and> (s \<noteq> [] \<longrightarrow> last s \<noteq> 45)"
  proof (cases "byte_len result > n")
    case True
    with assms obtain short where c: "take_bytes n result = Some short" "s = before_last_dash short"
      by (auto simp: slugify_def Let_def full_def [symmetric] result_def [symmetric])
    from take_bytes_prefix [OF c(1)] have "prefix short result" "byte_len short = n" by auto
    moreover from this p full(1) have "neat_slug short" using neat_prefix prefix_order.trans by blast
    ultimately have "prefix s short" "byte_len s \<le> n" "s \<noteq> [] \<longrightarrow> last s \<noteq> 45"
      using before_last_dash [of short] bytes.width_prefix [of s short] c(2) by auto
    with \<open>prefix short result\<close> show ?thesis using prefix_order.trans by blast
  next
    case False
    with assms l show ?thesis by (simp add: slugify_def Let_def full_def [symmetric] result_def [symmetric])
  qed
  with p full have "neat_slug s" "set s \<subseteq> set full"
    using neat_prefix prefix_order.trans set_mono_prefix by blast+
  with s full(2) show "byte_len s \<le> n" and "\<forall>c \<in> set s. alnum c \<or> c = 45"
    and "no_double_dash s" and "s \<noteq> [] \<longrightarrow> hd s \<noteq> 45 \<and> last s \<noteq> 45"
    by (auto simp: neat_slug_def)
qed

text \<open>
  The cut is by bytes and stops the program inside a character: a title of seventeen characters of three
  bytes each.
\<close>

theorem long_title_panics: "slugify (\<lambda>_. True) (replicate 17 26085) 50 = None"
proof -
  have "collapse_dashes r prev (replicate n 26085) = r @ replicate n 26085" for r prev n
    by (induction n arbitrary: r prev) (simp_all add: replicate_app_Cons_same)
  then have "rev (dropWhile (\<lambda>c. c = 45) (rev (collapse_dashes [] False (replicate 17 (26085 :: nat))))) = replicate 17 26085"
    by simp
  moreover have "byte_len (replicate 17 26085) = 51"
    by (simp add: byte_len_def sum_list_replicate utf8_len_def)
  moreover have "take_bytes (3 * k + 2) (replicate (Suc k) 26085) = None" for k
    by (induction k) (simp_all add: utf8_len_def)
  from this [of 16] have "take_bytes 50 (replicate 17 26085) = None" by (simp del: replicate.simps)
  ultimately show ?thesis by (simp add: slugify_def Let_def map_replicate)
qed

end
