(* ===== verification/Run_Command.thy ===== *)
theory Run_Command
  imports Batch GitHub_Issues
begin

text \<open>
  The command that runs plans (\<open>commands/run.rs\<close>): which way a run takes, the checks before it, and
  what each way comes to. Git, tmux, the expansion of patterns, the plan made of an issue and the
  answers of the daemon are arguments; console output is left out, and long messages are cut to their first
  sentence.
\<close>

section \<open>The checks before a run\<close>

datatype git_answer = NoGit | GitFailed | GitStatus string

text \<open>The lines of the status that are not blank are the uncommitted changes; ten are shown.\<close>

definition preflight_git_clean :: "git_answer \<Rightarrow> io_result" where
  "preflight_git_clean g =
    (case g of
       GitStatus status \<Rightarrow>
         let dirty = filter (\<lambda>l. trim l \<noteq> []) (str_lines status); shown = min (length dirty) 10; nl = [CHR 0x0A] in
         if dirty = [] then None
         else Some (''Git working tree has '' @ show_nat (length dirty) @ '' uncommitted change(s):'' @ nl
           @ concat (map (\<lambda>l. ''  '' @ l @ nl) (take shown dirty))
           @ (if length dirty > shown then ''  ... and '' @ show_nat (length dirty - shown) @ '' more'' @ nl else [])
           @ nl @ ''Commit or stash your changes before running, or use --allow-dirty to bypass.'')
     | _ \<Rightarrow> None)"

datatype tmux_version = TmuxMissing | TmuxBroken | TmuxThere

definition preflight_tmux :: "tmux_version \<Rightarrow> io_result" where
  "preflight_tmux t =
    (case t of
       TmuxMissing \<Rightarrow>
         Some ''tmux is required but not found. Install with: brew install tmux (macOS) or apt install tmux (Linux)''
     | TmuxBroken \<Rightarrow> Some ''tmux check failed. Please verify tmux is installed correctly.''
     | TmuxThere \<Rightarrow> None)"

datatype lock_file = LockMissing | LockUnreadable | LockFree | LockHeld

definition check_daemon_repo_lock :: "lock_file \<Rightarrow> io_result" where
  "check_daemon_repo_lock l =
    (if l = LockHeld then Some ''This repository has an active daemon-managed run.'' else None)"

definition preflight_mock :: "tmux_version \<Rightarrow> nat option \<Rightarrow> path \<Rightarrow> io_result" where
  "preflight_mock t mode p =
    (case preflight_tmux t of
       Some e \<Rightarrow> Some e
     | None \<Rightarrow>
         (case mode of
            None \<Rightarrow> Some (''Mock script not found: '' @ p)
          | Some m \<Rightarrow>
              if and m 73 = 0 then Some (''Mock script is not executable. Run: chmod +x '' @ p) else None))"

section \<open>Patterns\<close>

text \<open>What a pattern expands to: not a pattern at all, or paths, some of which cannot be read.\<close>

definition is_pattern :: "string \<Rightarrow> bool" where
  "is_pattern p \<longleftrightarrow> CHR ''*'' \<in> set p \<or> CHR ''?'' \<in> set p \<or> CHR 0x5B \<in> set p"

fun expand_plan_globs :: "(string \<Rightarrow> (string + string) list option) \<Rightarrow> string list \<Rightarrow> string + string list" where
  "expand_plan_globs glob [] = Inr []"
| "expand_plan_globs glob (p # ps) =
    (let rest = expand_plan_globs glob ps in
     if is_pattern p then
       (case glob p of
          Some found \<Rightarrow>
            let paths = List.map_filter (\<lambda>r. case r of Inr q \<Rightarrow> Some q | Inl _ \<Rightarrow> None) found in
            if paths = [] then Inl (''No plan files matched pattern: '' @ p) else map_sum id ((@) paths) rest
        | None \<Rightarrow> map_sum id (Cons p) rest)
     else map_sum id (Cons p) rest)"

section \<open>Handing plans to the daemon\<close>

text \<open>Whether a plan is there, and what the daemon says to the request; an error ends the loop.\<close>

fun delegate_to_daemon ::
  "(path \<Rightarrow> bool) \<Rightarrow> (Request \<Rightarrow> string + Response) \<Rightarrow> path \<Rightarrow> path option \<Rightarrow> nat \<Rightarrow> string list \<Rightarrow>
    io_result \<times> (Request \<times> Response) list" where
  "delegate_to_daemon there send cwd config_dir verbose [] = (None, [])"
| "delegate_to_daemon there send cwd config_dir verbose (plan # plans) =
    (let p = (if prefix ''/'' plan then plan else path_join cwd plan);
         req = SubmitRun p cwd None config_dir verbose
     in if \<not> there p then (Some (''Plan file not found: '' @ p), [])
        else case send req of
          Inl e \<Rightarrow> (Some e, [])
        | Inr resp \<Rightarrow>
            (case delegate_to_daemon there send cwd config_dir verbose plans of
               (out, log) \<Rightarrow> (out, (req, resp) # log)))"

section \<open>Which way a run takes\<close>

record run_args =
  ra_plans :: "string list"
  ra_dry_run :: bool
  ra_mock :: "path option"
  ra_group :: "string option"
  ra_config_dir :: "path option"
  ra_resume :: bool
  ra_multi_group :: bool
  ra_allow_dirty :: bool
  ra_foreground :: bool
  ra_verbose :: nat

record run_world =
  rw_env_config_dir :: "string option"
  rw_daemon :: bool
  rw_git :: git_answer
  rw_issue_plan :: "github_issue \<Rightarrow> string + path"
  rw_glob :: "string \<Rightarrow> (string + string) list option"
  rw_kind :: "path \<Rightarrow> path_kind"
  rw_load :: "path option \<Rightarrow> string + phase_config"
  rw_cwd :: path

datatype run_way =
    WayDaemon "string list" "path option" nat
  | WayDryRun "string list" phase_config "string option"
  | WayMock "string list" path phase_config "string option"
  | WayGroups "string list" phase_config "string option" "path option" bool
  | WaySingle "string list" "path option" bool

definition effective_config_dir :: "run_args \<Rightarrow> run_world \<Rightarrow> path option" where
  "effective_config_dir a w =
    (case ra_config_dir a of
       Some d \<Rightarrow> Some d
     | None \<Rightarrow> (case rw_env_config_dir w of Some v \<Rightarrow> if v = [] then None else Some v | None \<Rightarrow> None))"

definition load_phase_config :: "path option \<Rightarrow> run_world \<Rightarrow> string + phase_config" where
  "load_phase_config dir w =
    (case resolve_config (rw_kind w) dir (rw_cwd w) of
       Inl e \<Rightarrow> Inl e
     | Inr found \<Rightarrow>
         (case rw_load w found of
            Inl e \<Rightarrow> Inl e
          | Inr cfg \<Rightarrow> (case validate_phase_config cfg of Inl _ \<Rightarrow> Inl ''Invalid phase configuration'' | Inr _ \<Rightarrow> Inr cfg)))"

definition route_run :: "run_args \<Rightarrow> run_world \<Rightarrow> string + run_way" where
  "route_run a w =
    (let dir = effective_config_dir a w in
     if \<not> ra_foreground a \<and> \<not> ra_dry_run a \<and> ra_mock a = None \<and> rw_daemon w
     then Inr (WayDaemon (ra_plans a) dir (ra_verbose a))
     else case (if \<not> ra_dry_run a \<and> ra_mock a = None \<and> \<not> ra_allow_dirty a then preflight_git_clean (rw_git w) else None) of
       Some e \<Rightarrow> Inl e
     | None \<Rightarrow>
         (case resolve_github_urls (rw_issue_plan w) (ra_plans a) of
            Inl e \<Rightarrow> Inl (''Failed to resolve GitHub issue URL(s): '' @ e)
          | Inr plans \<Rightarrow>
              (case expand_plan_globs (rw_glob w) plans of
                 Inl e \<Rightarrow> Inl e
               | Inr expanded \<Rightarrow>
                   (case load_phase_config dir w of
                      Inl e \<Rightarrow> Inl e
                    | Inr cfg \<Rightarrow>
                        Inr (if ra_dry_run a then WayDryRun expanded cfg (ra_group a)
                             else case ra_mock a of
                               Some m \<Rightarrow> WayMock expanded m cfg (ra_group a)
                             | None \<Rightarrow>
                                 if ra_multi_group a then WayGroups expanded cfg (ra_group a) dir (ra_resume a)
                                 else WaySingle expanded dir (ra_resume a))))))"

section \<open>One session per plan\<close>

text \<open>
  Resuming one plan: the active loop state's checkpoint, whether it is there, what reading it gives, and
  the artifacts on disk.
\<close>

record 'j resume_io =
  ri_active :: "path option"
  ri_exists :: bool
  ri_read :: "string + 'j checkpoint"
  ri_sha256 :: "string \<Rightarrow> string"
  ri_files :: file_system
  ri_arc_dir :: path

definition check_resume :: "'j resume_io \<Rightarrow> string list \<Rightarrow> io_result" where
  "check_resume io plans =
    (case ri_active io of
       None \<Rightarrow>
         Some (''No active arc state found for plan: '' @ (case plans of p # _ \<Rightarrow> p | [] \<Rightarrow> ''<unknown>''))
     | Some cp \<Rightarrow>
         if \<not> ri_exists io then Some (''Loop state exists but checkpoint not written yet: '' @ cp)
         else case ri_read io of
           Inl e \<Rightarrow> Some e
         | Inr c \<Rightarrow>
             (case next_actionable_phase c of
                None \<Rightarrow> Some ''Arc already completed (all phases done). Start a fresh run without --resume.''
              | Some _ \<Rightarrow>
                  let v = validate_before_resume (ri_sha256 io) (ri_files io) c (ri_arc_dir io) in
                  if can_resume v then None
                  else Some (''Pre-resume validation failed. '' @ show_nat (length (rv_errors v)) @ '' critical artifact(s) missing.'')))"

text \<open>The result of the session of one plan, or of the batch: success, or the message of a failure.\<close>

record 'j single_io =
  sg_lock :: lock_file
  sg_owner :: "(nat \<times> path) option"
  sg_alive :: "nat \<Rightarrow> bool"
  sg_canonicalize :: "path \<Rightarrow> path option"
  sg_acquire :: io_result
  sg_tmux :: tmux_version
  sg_resume :: "'j resume_io"
  sg_one :: "string \<Rightarrow> string + bool \<times> string"
  sg_batch :: "string list \<Rightarrow> string + bool list"

definition run_single :: "'j single_io \<Rightarrow> path \<Rightarrow> string list \<Rightarrow> bool \<Rightarrow> io_result" where
  "run_single io cwd plans resume =
    (case check_daemon_repo_lock (sg_lock io) of
       Some e \<Rightarrow> Some e
     | None \<Rightarrow>
         if \<not> may_queue (sg_canonicalize io) (sg_owner io) (sg_alive io) (case plans of p # _ \<Rightarrow> Some p | [] \<Rightarrow> None) cwd
         then Some ''Plan is already running on this repo''
         else case sg_acquire io of
           Some e \<Rightarrow> Some (''Failed to acquire gw instance lock: '' @ e)
         | None \<Rightarrow>
             (case preflight_tmux (sg_tmux io) of
                Some e \<Rightarrow> Some e
              | None \<Rightarrow>
                  (case (if resume \<and> length plans = 1 then check_resume (sg_resume io) plans else None) of
                     Some e \<Rightarrow> Some e
                   | None \<Rightarrow>
                       (case plans of
                          [p] \<Rightarrow>
                            (case sg_one io p of
                               Inl e \<Rightarrow> Some e
                             | Inr (success, message) \<Rightarrow> if success then None else Some message)
                        | _ \<Rightarrow>
                            (case sg_batch io plans of
                               Inl e \<Rightarrow> Some e
                             | Inr rs \<Rightarrow>
                                 let failed = length rs - length (filter id rs) in
                                 if failed > 0 then Some (show_nat failed @ '' plan(s) failed'') else None)))))"

section \<open>One session per group\<close>

datatype group_way =
    GroupsResume phase_config
  | GroupsBatch "string list" phase_config
  | GroupsReal "string list" phase_config

definition only_group :: "string \<Rightarrow> phase_config \<Rightarrow> phase_config" where
  "only_group g cfg = cfg\<lparr>pc_groups := filter (\<lambda>x. gr_name x = g) (pc_groups cfg)\<rparr>"

definition route_groups ::
  "lock_file \<Rightarrow> string list \<Rightarrow> phase_config \<Rightarrow> string option \<Rightarrow> bool \<Rightarrow> string + group_way" where
  "route_groups lock plans cfg grp resume =
    (case check_daemon_repo_lock lock of
       Some e \<Rightarrow> Inl e
     | None \<Rightarrow>
         (case grp of
            Some g \<Rightarrow>
              if g \<notin> set (map gr_name (pc_groups cfg))
              then Inl (''Unknown group '' @ [CHR 0x27] @ g @ [CHR 0x27] @ ''. Valid groups: ''
                @ join_with '', '' (map gr_name (pc_groups cfg)))
              else let c = only_group g cfg in
                if pc_groups c = [] then Inl ''No groups remaining after filter''
                else Inr (if resume then GroupsResume c else if length plans > 1 then GroupsBatch plans c else GroupsReal plans c)
          | None \<Rightarrow>
              Inr (if resume then GroupsResume cfg else if length plans > 1 then GroupsBatch plans cfg else GroupsReal plans cfg)))"

text \<open>The plans one after another until one fails; each is given by whether it is there and its results.\<close>

fun run_plans :: "(string \<Rightarrow> bool) \<Rightarrow> (string \<Rightarrow> string + phase_group_result list) \<Rightarrow> string list \<Rightarrow> io_result \<times> string list" where
  "run_plans there run [] = (None, [])"
| "run_plans there run (p # ps) =
    (if \<not> there p then (Some (''Plan file not found: '' @ p), [])
     else case run p of
       Inl e \<Rightarrow> (Some e, [p])
     | Inr rs \<Rightarrow>
         if list_ex (\<lambda>r. pg_failed (gx_state r)) rs then (Some ''One or more plans failed'', [p])
         else (case run_plans there run ps of (out, did) \<Rightarrow> (out, p # did)))"

definition run_real ::
  "tmux_version \<Rightarrow> io_result \<Rightarrow> (string \<Rightarrow> bool) \<Rightarrow> (string \<Rightarrow> string + phase_group_result list) \<Rightarrow>
    string list \<Rightarrow> io_result \<times> string list" where
  "run_real t cleanup there run plans =
    (case preflight_tmux t of
       Some e \<Rightarrow> (Some e, [])
     | None \<Rightarrow> (case cleanup of Some e \<Rightarrow> (Some e, []) | None \<Rightarrow> run_plans there run plans))"

definition batch_verdict :: "string \<Rightarrow> string + batch_summary \<Rightarrow> io_result" where
  "batch_verdict what out =
    (case out of
       Inl e \<Rightarrow> Some e
     | Inr s \<Rightarrow> if bs_failed s > 0 then Some (show_nat (bs_failed s) @ '' plan(s) failed in '' @ what) else None)"

section \<open>The mock way\<close>

text \<open>A session of the wrapper around tmux (\<open>session/tmux.rs\<close>) needs a name that is safe to type.\<close>

definition tmux_new :: "(nat \<Rightarrow> bool) \<Rightarrow> nat list \<Rightarrow> string + nat list" where
  "tmux_new alnum name =
    (if byte_len name > 64 then Inl (''Session name too long: '' @ show_nat (byte_len name) @ '' (max 64 chars)'')
     else if \<not> list_all (\<lambda>c. alnum c \<or> c = 45 \<or> c = 95) name
     then Inl ''Session name contains invalid characters''
     else Inr name)"

text \<open>The groups whose script is run, as plan and group; a group with a condition is always passed over.\<close>

definition mock_groups :: "string list \<Rightarrow> phase_config \<Rightarrow> string option \<Rightarrow> (string \<times> phase_group) list" where
  "mock_groups plans cfg grp =
     concat (map (\<lambda>p. map (Pair p) (filter (\<lambda>g. (case grp of Some n \<Rightarrow> gr_name g = n | None \<Rightarrow> True) \<and> gr_skip_if g = None)
       (pc_groups cfg))) plans)"

text \<open>Polls with the time since the start in milliseconds and whether the session is there.\<close>

fun wait_for_session_completion :: "nat \<Rightarrow> (nat \<times> bool) list \<Rightarrow> io_result option" where
  "wait_for_session_completion timeout_min [] = None"
| "wait_for_session_completion timeout_min ((elapsed, there) # ps) =
    (if \<not> there then Some None
     else if elapsed > timeout_min * 60 * 1000 then Some (Some (''timed out after '' @ show_nat timeout_min @ '' minutes''))
     else wait_for_session_completion timeout_min ps)"

section \<open>Laws\<close>

text \<open>
  With a daemon running, what the command was told about resuming, groups and a dirty tree has no effect:
  the plans are submitted as they are, patterns and issue URLs included.
\<close>

theorem delegation_ignores_options:
  assumes "\<not> ra_foreground a" "\<not> ra_dry_run a" "ra_mock a = None" "rw_daemon w"
  shows "route_run (a\<lparr>ra_resume := r, ra_multi_group := m, ra_group := g, ra_allow_dirty := d\<rparr>) w
    = Inr (WayDaemon (ra_plans a) (effective_config_dir a w) (ra_verbose a))"
  using assms by (simp add: route_run_def effective_config_dir_def)

text \<open>A submission the daemon refuses does not make the command fail.\<close>

theorem refused_submissions_count_as_success:
  "(\<And>p. there p) \<Longrightarrow> fst (delegate_to_daemon there (\<lambda>_. Inr (ErrorResponse c m)) cwd dir v plans) = None
    \<and> length (snd (delegate_to_daemon there (\<lambda>_. Inr (ErrorResponse c m)) cwd dir v plans)) = length plans"
  by (induction plans) (auto simp: Let_def split: prod.split)

lemma expand_literal: "\<not> is_pattern p \<Longrightarrow> expand_plan_globs glob (p # ps) = map_sum id (Cons p) (expand_plan_globs glob ps)"
  by (simp add: Let_def)

text \<open>
  Every plan that was run was there, and all before the last one succeeded; without an error all were run.
\<close>

theorem run_plans_stops_at_first_failure:
  assumes "run_plans there run plans = (out, did)"
  shows "prefix did plans \<and> list_all there did
    \<and> list_all (\<lambda>p. \<exists>rs. run p = Inr rs \<and> \<not> list_ex (\<lambda>r. pg_failed (gx_state r)) rs) (butlast did)
    \<and> (out = None \<longrightarrow> did = plans \<and> list_all (\<lambda>p. \<exists>rs. run p = Inr rs \<and> \<not> list_ex (\<lambda>r. pg_failed (gx_state r)) rs) plans)"
  using assms
proof (induction plans arbitrary: out did)
  case (Cons p ps)
  show ?case
  proof (cases "there p \<and> (\<exists>rs. run p = Inr rs \<and> \<not> list_ex (\<lambda>r. pg_failed (gx_state r)) rs)")
    case True
    obtain out' did' where r: "run_plans there run ps = (out', did')" by fastforce
    with True Cons.prems have "out = out'" "did = p # did'" by auto
    with Cons.IH [OF r] True show ?thesis by auto
  next
    case False
    with Cons.prems show ?thesis by (auto split: if_splits sum.splits)
  qed
qed simp

text \<open>With a group that exists, only its group is left.\<close>

theorem only_the_group_is_run:
  assumes "route_groups lock plans cfg (Some g) resume = Inr way"
  shows "\<exists>c. way \<in> {GroupsResume c, GroupsBatch plans c, GroupsReal plans c} \<and> pc_groups c \<noteq> [] \<and> (\<forall>x \<in> set (pc_groups c). gr_name x = g)"
  using assms
  by (auto simp: route_groups_def only_group_def Let_def split: option.splits if_splits)

end
