(* ===== verification/Run_Log.thy ===== *)
theory Run_Log
  imports GW_Prelude
begin

text \<open>
  The log of runs with its rotation (\<open>log/jsonl.rs\<close>). The directory has the current file in slot 0 and
  the rotated files \<open>.1\<close>, \<open>.2\<close> and so on in the slots after it; which renames succeed is an argument, and
  so is the JSON text of an entry. The log of a pane is rotated in the same way, with one older file.
\<close>

section \<open>Rotation\<close>

type_synonym log_dir = "nat \<Rightarrow> string option"

definition MAX_LOG_SIZE :: nat where "MAX_LOG_SIZE = 10485760"

definition MAX_ROTATED_FILES :: nat where "MAX_ROTATED_FILES = 5"

definition rename_slot :: "(nat \<Rightarrow> bool) \<Rightarrow> nat \<Rightarrow> log_dir \<Rightarrow> log_dir" where
  "rename_slot renamed i d =
    (case d i of
       None \<Rightarrow> d
     | Some c \<Rightarrow> if renamed i then d(i := None, i + 1 := Some c) else d)"

definition rotate_log :: "bool \<Rightarrow> (nat \<Rightarrow> bool) \<Rightarrow> log_dir \<Rightarrow> log_dir" where
  "rotate_log removed renamed d =
    (let cleared = (if removed then d(MAX_ROTATED_FILES := None) else d);
         shifted = fold (rename_slot renamed) (rev [1..<MAX_ROTATED_FILES]) cleared
     in rename_slot renamed 0 shifted)"

section \<open>Appending an entry\<close>

record log_io =
  li_mkdir :: io_result
  li_metadata :: bool
  li_removed :: bool
  li_renamed :: "nat \<Rightarrow> bool"
  li_open :: io_result
  li_write :: io_result

definition append_run_log :: "log_io \<Rightarrow> string + string \<Rightarrow> log_dir \<Rightarrow> io_result \<times> log_dir" where
  "append_run_log io entry d =
    (case li_mkdir io of
       Some e \<Rightarrow> (Some e, d)
     | None \<Rightarrow>
         let full = (case d 0 of Some c \<Rightarrow> li_metadata io \<and> length c \<ge> MAX_LOG_SIZE | None \<Rightarrow> False);
             d1 = (if full then rotate_log (li_removed io) (li_renamed io) d else d)
         in case entry of
           Inl e \<Rightarrow> (Some e, d1)
         | Inr json \<Rightarrow>
             (case li_open io of
                Some e \<Rightarrow> (Some e, d1)
              | None \<Rightarrow>
                  let before = (case d1 0 of Some c \<Rightarrow> c | None \<Rightarrow> []) in
                  (case li_write io of
                     Some e \<Rightarrow> (Some e, d1(0 := Some before))
                   | None \<Rightarrow> (None, d1(0 := Some (before @ json @ [CHR 0x0A]))))))"

section \<open>Laws\<close>

lemma four_slots: "rev [1..<MAX_ROTATED_FILES] = [4, 3, 2, 1]"
  by (simp add: MAX_ROTATED_FILES_def upt_rec)

lemma rename_slot_works:
  "renamed i \<Longrightarrow> d (i + 1) = None \<Longrightarrow> rename_slot renamed i d = d(i := None, i + 1 := d i)"
  by (auto simp: rename_slot_def fun_eq_iff split: option.split)

text \<open>A rotation without failures moves every file one slot on; only the oldest is lost.\<close>

theorem rotation_shifts:
  assumes "\<And>i. renamed i"
  shows "rotate_log True renamed d = (\<lambda>i. if i = 0 then None else if i \<le> 5 then d (i - 1) else d i)"
proof
  fix i :: nat
  have e: "rotate_log True renamed d
      = d(5 := None, 4 := None, 5 := d 4, 3 := None, 4 := d 3, 2 := None, 3 := d 2, 1 := None, 2 := d 1, 0 := None, 1 := d 0)"
    unfolding rotate_log_def four_slots
    by (simp add: Let_def MAX_ROTATED_FILES_def rename_slot_works assms fun_upd_twist del: One_nat_def)
  consider "i = 0" | "i = 1" | "i = 2" | "i = 3" | "i = 4" | "i = 5" | "i > 5" by linarith
  then show "rotate_log True renamed d i = (if i = 0 then None else if i \<le> 5 then d (i - 1) else d i)"
    unfolding e by cases simp_all
qed

text \<open>
  A rename that fails does not end the rotation: the file behind it is renamed onto it, and its
  contents are lost although newer slots are not full.
\<close>

theorem failed_rename_loses_a_file:
  assumes "\<And>i. renamed i \<longleftrightarrow> i \<noteq> 4" and "d 3 = Some c"
  shows "rotate_log True renamed d 4 = Some c"
    and "rotate_log True renamed d 5 = None"
  using assms(2)
  unfolding rotate_log_def four_slots
  by (simp_all add: Let_def MAX_ROTATED_FILES_def rename_slot_def assms(1) split: option.split)

text \<open>As long as the size can be asked for and renames succeed, no file grows beyond the maximum and one entry.\<close>

definition logs_bounded :: "nat \<Rightarrow> log_dir \<Rightarrow> bool" where
  "logs_bounded n d \<longleftrightarrow> (\<forall>i c. d i = Some c \<longrightarrow> length c < MAX_LOG_SIZE + n)"

theorem appends_keep_logs_bounded:
  assumes "logs_bounded n d" and "li_metadata io" "li_removed io" "\<And>i. li_renamed io i"
    and "\<And>json. entry = Inr json \<Longrightarrow> length json < n"
  shows "logs_bounded n (snd (append_run_log io entry d))"
proof -
  define full where "full = (case d 0 of Some c \<Rightarrow> li_metadata io \<and> length c \<ge> MAX_LOG_SIZE | None \<Rightarrow> False)"
  define d1 where "d1 = (if full then rotate_log (li_removed io) (li_renamed io) d else d)"
  define before where "before = (case d1 0 of Some c \<Rightarrow> c | None \<Rightarrow> [])"
  have d1: "logs_bounded n d1"
    using assms(1,3) rotation_shifts [of "li_renamed io" d] assms(4)
    by (auto simp: d1_def logs_bounded_def)
  have "length before < MAX_LOG_SIZE"
    using assms(2,3) rotation_shifts [of "li_renamed io" d] assms(4)
    by (auto simp: before_def d1_def full_def MAX_LOG_SIZE_def split: option.split)
  with d1 assms(5) show ?thesis
    unfolding append_run_log_def full_def [symmetric] Let_def d1_def [symmetric] before_def [symmetric]
    using assms(1) by (auto simp: logs_bounded_def before_def split: option.split sum.split dest: assms(5))
qed

section \<open>The log of the pane\<close>

text \<open>
  The heartbeat appends what it captured of a pane (\<open>daemon/heartbeat.rs\<close>); the log has one older file, which
  a rotation replaces.
\<close>

definition PANE_LOG_ROTATE_BYTES :: nat where "PANE_LOG_ROTATE_BYTES = 10485760"

record pane_io =
  pi_mkdir :: io_result
  pi_metadata :: bool
  pi_renamed :: bool
  pi_open :: io_result

definition capture_header :: string where
  "capture_header = ''--- heartbeat capture ---'' @ [CHR 0x0A]"

definition append_pane_log :: "pane_io \<Rightarrow> string \<Rightarrow> string option \<times> string option \<Rightarrow> string option \<times> string option" where
  "append_pane_log io content d =
    (case pi_mkdir io of
       Some _ \<Rightarrow> d
     | None \<Rightarrow>
         let d1 = (case fst d of
             Some c \<Rightarrow> if pi_metadata io \<and> length c > PANE_LOG_ROTATE_BYTES \<and> pi_renamed io then (None, Some c) else d
           | None \<Rightarrow> d)
         in case pi_open io of
           Some _ \<Rightarrow> d1
         | None \<Rightarrow> (Some ((case fst d1 of Some c \<Rightarrow> c | None \<Rightarrow> []) @ capture_header @ content), snd d1))"

text \<open>The whole of what is kept, oldest first.\<close>

definition pane_text :: "string option \<times> string option \<Rightarrow> string" where
  "pane_text d = (case snd d of Some c \<Rightarrow> c | None \<Rightarrow> []) @ (case fst d of Some c \<Rightarrow> c | None \<Rightarrow> [])"

text \<open>
  A capture that can be written is at the end of what is kept; what goes is only the older file, and only
  when the newer one is beyond the limit.
\<close>

theorem pane_capture_is_kept:
  assumes "pi_mkdir io = None" and "pi_open io = None"
  shows "suffix (capture_header @ content) (pane_text (append_pane_log io content d))"
    and "pane_text (append_pane_log io content d) = pane_text d @ capture_header @ content
      \<or> (\<exists>c. fst d = Some c \<and> length c > PANE_LOG_ROTATE_BYTES
           \<and> pane_text (append_pane_log io content d) = c @ capture_header @ content)"
  using assms
  by (cases d; auto simp: append_pane_log_def pane_text_def Let_def suffix_def split: option.split)+

text \<open>As long as the size can be asked for and renames succeed, the log stays within the limit and one capture.\<close>

theorem pane_log_is_bounded:
  assumes "pi_metadata io" "pi_renamed io" and "\<forall>c. fst d = Some c \<longrightarrow> length c \<le> PANE_LOG_ROTATE_BYTES + n"
    and "length (capture_header @ content) \<le> n"
  shows "\<forall>c. fst (append_pane_log io content d) = Some c \<longrightarrow> length c \<le> PANE_LOG_ROTATE_BYTES + n"
  using assms
  by (cases d) (auto simp: append_pane_log_def Let_def split: option.split if_splits)

end
