(* ===== verification/Client.thy ===== *)
theory Client
  imports Protocol
begin

text \<open>
  The client of the daemon (\<open>client/socket.rs\<close>) and the commands that stop runs (\<open>commands/stop.rs\<close>) and edit
  the queue (\<open>commands/queue.rs\<close>): what is sent, and what comes of each answer. The socket and the terminal
  are arguments; printed text is left out.
\<close>

section \<open>The socket\<close>

text \<open>
  What the client meets: its configuration gives the path of the socket, connecting succeeds, fails or
  takes too long, and so does reading the answer.
\<close>

datatype connect_answer = Connected | ConnectRefused string | ConnectTimeout

datatype 'r read_answer = GotAnswer 'r | ReadFailed string | NoAnswer

record 'r client_world =
  cw_config :: "string + path"
  cw_there :: bool
  cw_runtime :: bool
  cw_connect :: connect_answer
  cw_write :: io_result
  cw_read :: "'r read_answer"

text \<open>The probe reads without a limit: nothing means that it never returns.\<close>

definition is_daemon_running :: "'r client_world \<Rightarrow> bool option" where
  "is_daemon_running w =
    (case cw_config w of
       Inl _ \<Rightarrow> Some False
     | Inr _ \<Rightarrow>
         if \<not> cw_there w \<or> \<not> cw_runtime w then Some False
         else case cw_connect w of
           Connected \<Rightarrow>
             (case cw_write w of
                Some _ \<Rightarrow> Some False
              | None \<Rightarrow> (case cw_read w of GotAnswer _ \<Rightarrow> Some True | ReadFailed _ \<Rightarrow> Some False | NoAnswer \<Rightarrow> None))
         | _ \<Rightarrow> Some False)"

definition client_new :: "'r client_world \<Rightarrow> string + path" where
  "client_new w = cw_config w"

definition client_send :: "'r client_world \<Rightarrow> path \<Rightarrow> string + 'r" where
  "client_send w socket =
    (if \<not> cw_runtime w then Inl ''no runtime''
     else if \<not> cw_there w then Inl (''Daemon socket not found at '' @ socket)
     else case cw_connect w of
       ConnectTimeout \<Rightarrow> Inl (''Connection to daemon timed out after '' @ show_nat 5 @ ''s.'')
     | ConnectRefused e \<Rightarrow> Inl (''Cannot connect to daemon at '' @ socket @ '': '' @ e)
     | Connected \<Rightarrow>
         (case cw_write w of
            Some e \<Rightarrow> Inl e
          | None \<Rightarrow>
              (case cw_read w of
                 NoAnswer \<Rightarrow> Inl (''Daemon did not respond within '' @ show_nat 30 @ ''s. It may be busy processing a run.'')
               | ReadFailed e \<Rightarrow> Inl e
               | GotAnswer r \<Rightarrow> Inr r)))"

text \<open>The answers of a stream that are handled; the last one may be that with which the handler ends it.\<close>

fun stream_answers :: "('r \<Rightarrow> bool) \<Rightarrow> (string + 'r) list \<Rightarrow> 'r list" where
  "stream_answers on_chunk [] = []"
| "stream_answers on_chunk (Inl e # rest) = []"
| "stream_answers on_chunk (Inr r # rest) = r # (if on_chunk r then stream_answers on_chunk rest else [])"

definition send_streaming :: "'r client_world \<Rightarrow> path \<Rightarrow> ('r \<Rightarrow> bool) \<Rightarrow> (string + 'r) list \<Rightarrow> io_result \<times> 'r list" where
  "send_streaming w socket on_chunk answers =
    (if \<not> cw_runtime w then (Some ''no runtime'', [])
     else if \<not> cw_there w then (Some (''Daemon socket not found at '' @ socket), [])
     else case cw_connect w of
       ConnectTimeout \<Rightarrow> (Some (''Connection to daemon timed out after '' @ show_nat 5 @ ''s''), [])
     | ConnectRefused e \<Rightarrow> (Some (''Cannot connect to daemon: '' @ e), [])
     | Connected \<Rightarrow> (case cw_write w of Some e \<Rightarrow> (Some e, []) | None \<Rightarrow> (None, stream_answers on_chunk answers)))"

section \<open>Stopping runs\<close>

text \<open>The first eight bytes of an identifier, or all of it when a character goes on after them.\<close>

definition short_id :: "string \<Rightarrow> string" where
  "short_id i =
    (case drop 8 i of
       c # _ \<Rightarrow> if 128 \<le> (of_char c :: nat) \<and> (of_char c :: nat) < 192 then i else take 8 i
     | [] \<Rightarrow> i)"

definition equal_ignoring_case :: "string \<Rightarrow> string \<Rightarrow> bool" where
  "equal_ignoring_case a b \<longleftrightarrow> map lower_byte a = map lower_byte b"

definition confirms :: "string \<Rightarrow> bool" where
  "confirms input \<longleftrightarrow> equal_ignoring_case (trim input) ''y''"

definition stop_request :: "bool \<Rightarrow> string \<Rightarrow> Request" where
  "stop_request detach run_id = (if detach then DetachRun run_id else StopRun run_id)"

text \<open>What the command does: kill a session itself, send a request, or nothing.\<close>

datatype stop_action = KillDirectly string | SendStop Request | NothingDone

definition stop_one :: "bool \<Rightarrow> string \<Rightarrow> bool \<Rightarrow> bool \<Rightarrow> string \<Rightarrow> stop_action" where
  "stop_one daemon input force detach run_id =
    (if \<not> daemon then KillDirectly (''gw-'' @ run_id)
     else if \<not> force \<and> \<not> confirms input then NothingDone
     else SendStop (stop_request detach run_id))"

text \<open>The command fails only when there is no answer.\<close>

definition stop_command ::
  "bool \<Rightarrow> string \<Rightarrow> (Request \<Rightarrow> string + Response) \<Rightarrow> bool \<Rightarrow> bool \<Rightarrow> string \<Rightarrow> stop_action \<times> io_result" where
  "stop_command daemon input send force detach run_id =
    (let a = stop_one daemon input force detach run_id in
     (a, case a of SendStop req \<Rightarrow> (case send req of Inl e \<Rightarrow> Some e | Inr _ \<Rightarrow> None) | _ \<Rightarrow> None))"

definition is_active_run :: "run_info \<Rightarrow> bool" where
  "is_active_run r \<longleftrightarrow> ri_status r = Running \<or> ri_status r = Queued"

fun count_stopped :: "(Request \<Rightarrow> string + Response) \<Rightarrow> Request list \<Rightarrow> nat \<times> nat" where
  "count_stopped send [] = (0, 0)"
| "count_stopped send (q # qs) =
    (case count_stopped send qs of
       (stopped, failed) \<Rightarrow>
         (case send q of Inr (OkMessage _) \<Rightarrow> (stopped + 1, failed) | _ \<Rightarrow> (stopped, failed + 1)))"

text \<open>The requests after the list, with the counts printed; an error to get the list is the result.\<close>

definition stop_all ::
  "bool \<Rightarrow> string \<Rightarrow> (Request \<Rightarrow> string + Response) \<Rightarrow> bool \<Rightarrow> bool \<Rightarrow> io_result \<times> Request list \<times> nat \<times> nat" where
  "stop_all daemon input send force detach =
    (if \<not> daemon then (None, [], 0, 0)
     else case send (ListRuns False) of
       Inl e \<Rightarrow> (Some e, [], 0, 0)
     | Inr (RunList runs) \<Rightarrow>
         let targets = filter is_active_run runs in
         if targets = [] \<or> \<not> force \<and> \<not> confirms input then (None, [], 0, 0)
         else let reqs = map (\<lambda>r. stop_request detach (ri_run_id r)) targets in (None, reqs, count_stopped send reqs)
     | Inr _ \<Rightarrow> (None, [], 0, 0))"

section \<open>The queue\<close>

text \<open>Only the entries of one repository, when one is given; a path that cannot be resolved is taken as it is.\<close>

definition queue_listing :: "(path \<Rightarrow> path option) \<Rightarrow> path option \<Rightarrow> queued_run_info list \<Rightarrow> queued_run_info list" where
  "queue_listing canonicalize repo entries =
    (case repo of
       None \<Rightarrow> entries
     | Some d \<Rightarrow>
         let c = (case canonicalize d of Some c \<Rightarrow> c | None \<Rightarrow> d) in filter (\<lambda>e. path_eq (qi_repo_dir e) c) entries)"

definition queue_clear_request :: "bool \<Rightarrow> path \<Rightarrow> Request" where
  "queue_clear_request all cwd = ClearQueueOf (if all then None else Some cwd)"

section \<open>Laws\<close>

text \<open>What a stream hands to its handler are the answers up to the first error or the one that ends it.\<close>

lemma stream_answers_prefix:
  "prefix (map Inr (stream_answers on_chunk answers)) answers"
  by (induction on_chunk answers rule: stream_answers.induct) auto

theorem stream_ends_with_its_handler:
  "list_all on_chunk (butlast (stream_answers on_chunk answers))"
proof (induction on_chunk answers rule: stream_answers.induct)
  case (3 on_chunk r rest)
  then show ?case by (cases "on_chunk r") auto
qed simp_all

text \<open>
  A daemon that accepts connections and does not answer makes every command wait for ever: the probe
  that comes before each request has no limit on the answer, unlike the request itself.
\<close>

theorem silent_daemon_hangs_the_probe:
  assumes "cw_config w = Inr socket" "cw_there w" "cw_runtime w" "cw_connect w = Connected" "cw_write w = None" "cw_read w = NoAnswer"
  shows "is_daemon_running w = None" and "\<exists>e. client_send w socket = Inl e"
  using assms by (simp_all add: is_daemon_running_def client_send_def)

lemma counted_all: "fst (count_stopped send qs) + snd (count_stopped send qs) = length qs"
  by (induction qs) (auto split: prod.split sum.split Response.split)

text \<open>
  With an answer and a confirmation, exactly the running and the queued runs are asked to stop, each once,
  in the order of the list, and each is counted as stopped or as failed.
\<close>

theorem stop_all_reaches_every_active_run:
  assumes "send (ListRuns False) = Inr (RunList runs)" and "force \<or> confirms input"
    and "stop_all True input send force detach = (out, reqs, stopped, failed)"
  shows "out = None" and "reqs = map (\<lambda>r. stop_request detach (ri_run_id r)) (filter is_active_run runs)"
    and "stopped + failed = length (filter is_active_run runs)"
  using assms counted_all [of send "map (\<lambda>r. stop_request detach (ri_run_id r)) (filter is_active_run runs)"]
  by (auto simp: stop_all_def Let_def split: if_splits)

text \<open>Without a confirmation nothing is sent to a daemon that runs.\<close>

theorem stop_needs_confirmation:
  "\<not> confirms input \<Longrightarrow> stop_one True input False detach run_id = NothingDone
    \<and> fst (snd (stop_all True input send False detach)) = []"
  by (auto simp: stop_one_def stop_all_def Let_def split: sum.split Response.split)

end
