(* ===== verification/Service.thy ===== *)
theory Service
  imports Client Checkpoint Cleanup
begin

text \<open>
  The commands that manage the daemon (\<open>commands/daemon.rs\<close>), schedules (\<open>commands/schedule.rs\<close>), the replay
  of a checkpoint (\<open>commands/replay.rs\<close>), and the clean-up command (\<open>commands/clean.rs\<close>). Whether the daemon runs, what it answers, what \<open>launchctl\<close> does and the
  outcomes of writes are arguments; printed text is left out.
\<close>

section \<open>The service of the daemon\<close>

text \<open>The service file, whether launchd has it loaded, and the PID file.\<close>

record service =
  sv_plist :: "string option"
  sv_loaded :: bool
  sv_pid_file :: "string option"

record service_io =
  si_ensure :: io_result
  si_exe :: "string + path"
  si_spawn :: "string + nat"
  si_config :: "string + path"
  si_pid_write :: io_result
  si_pid_remove :: bool
  si_launch_dir :: io_result
  si_log_dir :: io_result
  si_plist_write :: io_result
  si_plist_remove :: io_result
  si_launchctl :: "string + bool"

datatype start_way = AlreadyRunning | InForeground nat | InBackground "string list"

definition start_args :: "nat \<Rightarrow> string list" where
  "start_args verbose =
     [''daemon'', ''start'', ''--foreground'']
     @ (if verbose = 0 then [] else if verbose = 1 then [''-v''] else if verbose = 2 then [''-vv''] else [''-vvv''])"

definition service_start :: "service_io \<Rightarrow> bool \<Rightarrow> bool \<Rightarrow> nat \<Rightarrow> service \<Rightarrow> (string + start_way) \<times> service" where
  "service_start io up foreground verbose s =
    (case si_ensure io of
       Some e \<Rightarrow> (Inl e, s)
     | None \<Rightarrow>
         if up then (Inr AlreadyRunning, s)
         else if foreground then (Inr (InForeground verbose), s)
         else case si_exe io of
           Inl e \<Rightarrow> (Inl ''failed to determine executable path'', s)
         | Inr exe \<Rightarrow>
             (case si_spawn io of
                Inl e \<Rightarrow> (Inl ''failed to spawn daemon process'', s)
              | Inr pid \<Rightarrow>
                  (case si_config io of
                     Inl e \<Rightarrow> (Inl e, s)
                   | Inr _ \<Rightarrow>
                       (case si_pid_write io of
                          Some e \<Rightarrow> (Inl ''failed to write PID file'', s)
                        | None \<Rightarrow> (Inr (InBackground (exe # start_args verbose)), s\<lparr>sv_pid_file := Some (show_nat pid)\<rparr>)))))"

definition is_service_loaded :: "service \<Rightarrow> bool" where
  "is_service_loaded s \<longleftrightarrow> sv_plist s \<noteq> None \<and> sv_loaded s"

definition unload_service :: "service_io \<Rightarrow> service \<Rightarrow> service" where
  "unload_service io s =
    (if sv_plist s \<noteq> None \<and> si_launchctl io = Inr True then s\<lparr>sv_loaded := False\<rparr> else s)"

definition service_stop :: "service_io \<Rightarrow> bool \<Rightarrow> string + Response \<Rightarrow> service \<Rightarrow> io_result \<times> service" where
  "service_stop io up answer s =
    (if \<not> up then (None, s)
     else case answer of
       Inl e \<Rightarrow> (Some e, s)
     | Inr r \<Rightarrow>
         let s1 = (case r of
             OkMessage _ \<Rightarrow> if si_pid_remove io then s\<lparr>sv_pid_file := None\<rparr> else s
           | _ \<Rightarrow> s)
         in (None, if is_service_loaded s then unload_service io s1 else s1))"

text \<open>Polls until the daemon and its socket are gone, or the deadline: the time and what is still there.\<close>

fun wait_for_daemon_down :: "nat \<Rightarrow> (nat \<times> bool \<times> bool) list \<Rightarrow> bool option" where
  "wait_for_daemon_down deadline [] = None"
| "wait_for_daemon_down deadline ((now, up, socket) # ps) =
    (if \<not> now < deadline then Some False
     else if \<not> up \<and> \<not> socket then Some True
     else wait_for_daemon_down deadline ps)"

text \<open>Whether the daemon runs is asked twice, before and after the stop; the wait changes nothing.\<close>

definition service_restart ::
  "service_io \<Rightarrow> bool \<Rightarrow> string + Response \<Rightarrow> bool \<Rightarrow> service \<Rightarrow> (string + start_way) \<times> service" where
  "service_restart io up answer still s =
    (if up
     then (case service_stop io up answer s of
             (Some e, s1) \<Rightarrow> (Inl e, s1)
           | (None, s1) \<Rightarrow> service_start io still False 0 s1)
     else service_start io still False 0 s)"

definition xml_string :: "string \<Rightarrow> string" where
  "xml_string x = ''<string>'' @ x @ ''</string>''"

text \<open>The service file, its lines without their indentation.\<close>

definition plist_content :: "path \<Rightarrow> path \<Rightarrow> path \<Rightarrow> string" where
  "plist_content exe out err = join_lines
     ([''<?xml version='' @ [CHR 0x22] @ ''1.0'' @ [CHR 0x22] @ '' encoding='' @ [CHR 0x22] @ ''UTF-8'' @ [CHR 0x22] @ ''?>'',
       ''<!DOCTYPE plist PUBLIC '' @ [CHR 0x22] @ ''-//Apple//DTD PLIST 1.0//EN'' @ [CHR 0x22] @ '' '' @ [CHR 0x22]
         @ ''http://www.apple.com/DTDs/PropertyList-1.0.dtd'' @ [CHR 0x22] @ ''>'',
       ''<plist version='' @ [CHR 0x22] @ ''1.0'' @ [CHR 0x22] @ ''>'', ''<dict>'',
       ''<key>Label</key>'', xml_string ''com.greater-will.daemon'',
       ''<key>ProgramArguments</key>'', ''<array>'', xml_string exe]
      @ map xml_string (start_args 0)
      @ [''</array>'', ''<key>RunAtLoad</key>'', ''<true/>'', ''<key>KeepAlive</key>'', ''<true/>'',
         ''<key>AbandonProcessGroup</key>'', ''<true/>'', ''<key>ProcessType</key>'', xml_string ''Interactive'',
         ''<key>StandardOutPath</key>'', xml_string out, ''<key>StandardErrorPath</key>'', xml_string err,
         ''</dict>'', ''</plist>''])"

definition service_install :: "service_io \<Rightarrow> path \<Rightarrow> service \<Rightarrow> io_result \<times> service" where
  "service_install io log_dir s =
    (case si_launch_dir io of
       Some e \<Rightarrow> (Some ''failed to create LaunchAgents directory'', s)
     | None \<Rightarrow>
         (case si_exe io of
            Inl e \<Rightarrow> (Some ''failed to determine executable path'', s)
          | Inr exe \<Rightarrow>
              (case si_log_dir io of
                 Some e \<Rightarrow> (Some ''failed to create log directory'', s)
               | None \<Rightarrow>
                   (case si_plist_write io of
                      Some e \<Rightarrow> (Some ''failed to write plist'', s)
                    | None \<Rightarrow>
                        let s1 = s\<lparr>sv_plist := Some (plist_content exe (path_join log_dir ''daemon.stdout.log'')
                              (path_join log_dir ''daemon.stderr.log''))\<rparr>
                        in case si_launchctl io of
                          Inl e \<Rightarrow> (Some ''failed to run launchctl load'', s1)
                        | Inr success \<Rightarrow>
                            if success then (None, s1\<lparr>sv_loaded := True\<rparr>) else (Some ''launchctl load failed'', s1)))))"

definition service_uninstall :: "service_io \<Rightarrow> service \<Rightarrow> io_result \<times> service" where
  "service_uninstall io s =
    (if sv_plist s = None then (None, s)
     else case si_launchctl io of
       Inl e \<Rightarrow> (Some ''failed to run launchctl unload'', s)
     | Inr success \<Rightarrow>
         let s1 = (if success then s\<lparr>sv_loaded := False\<rparr> else s) in
         (case si_plist_remove io of
            Some e \<Rightarrow> (Some ''failed to remove plist'', s1)
          | None \<Rightarrow> (None, s1\<lparr>sv_plist := None\<rparr>)))"

definition format_duration :: "nat \<Rightarrow> string" where
  "format_duration secs =
    (let days = secs div 86400; hours = secs mod 86400 div 3600; mins = secs mod 3600 div 60; s = secs mod 60 in
     if days > 0 then show_nat days @ ''d '' @ show_nat hours @ ''h '' @ show_nat mins @ ''m''
     else if hours > 0 then show_nat hours @ ''h '' @ show_nat mins @ ''m '' @ show_nat s @ ''s''
     else if mins > 0 then show_nat mins @ ''m '' @ show_nat s @ ''s''
     else show_nat s @ ''s'')"

section \<open>Schedules\<close>

text \<open>The request to add a schedule; no result is a panic of the duration's parser.\<close>

definition schedule_add_request ::
  "(string \<Rightarrow> path option) \<Rightarrow> path option \<Rightarrow> (string \<Rightarrow> utc option) \<Rightarrow> string \<Rightarrow>
    string option \<Rightarrow> string option \<Rightarrow> string option \<Rightarrow> string option \<Rightarrow> path option \<Rightarrow> (string + Request) option" where
  "schedule_add_request canonicalize cwd parse_time plan cron at_time after label config_dir =
    (case canonicalize plan of
       None \<Rightarrow> Some (Inl (''plan file not found: '' @ plan))
     | Some p \<Rightarrow>
         (case cwd of
            None \<Rightarrow> Some (Inl ''failed to get current directory'')
          | Some repo \<Rightarrow>
              let request = (\<lambda>kind. AddSchedule p repo kind config_dir 0 label) in
              (case cron of
                 Some expr \<Rightarrow>
                   (case normalize_cron_expression expr of
                      Inl n \<Rightarrow> Some (Inl (''invalid cron expression with '' @ show_nat n @ '' fields''))
                    | Inr normalized \<Rightarrow> Some (Inr (request (Cron normalized))))
               | None \<Rightarrow>
                   (case at_time of
                      Some t \<Rightarrow>
                        (case parse_time t of
                           None \<Rightarrow> Some (Inl (''invalid ISO 8601 time: '' @ t))
                         | Some u \<Rightarrow> Some (Inr (request (OneShot u))))
                    | None \<Rightarrow>
                        (case after of
                           Some d \<Rightarrow>
                             map_option (\<lambda>r. case r of Inl _ \<Rightarrow> Inl ''invalid duration'' | Inr secs \<Rightarrow> Inr (request (Delayed secs)))
                               (parse_duration_suffix d)
                         | None \<Rightarrow> Some (Inl ''must specify one of --cron, --at, or --after''))))))"

section \<open>Replaying a checkpoint\<close>

text \<open>
  The checkpoint file and the directory it is in, the artifacts on disk, and the run of a plan that is
  resumed, which gives success or the message of its failure.
\<close>

record 'j replay_io =
  rp_exists :: bool
  rp_read :: "string + 'j checkpoint"
  rp_sha256 :: "string \<Rightarrow> string"
  rp_files :: file_system
  rp_arc_dir :: "path option"
  rp_plan_there :: "path \<Rightarrow> bool"
  rp_run :: "path \<Rightarrow> string + bool \<times> string"

definition replay_blocked :: "'j replay_io \<Rightarrow> 'j checkpoint \<Rightarrow> io_result" where
  "replay_blocked io c =
    (case rp_arc_dir io of
       None \<Rightarrow> Some ''Cannot determine arc directory from checkpoint path''
     | Some d \<Rightarrow>
         if can_resume (validate_before_resume (rp_sha256 io) (rp_files io) c d) then None
         else Some ''Pre-resume validation failed'')"

definition replay :: "'j replay_io \<Rightarrow> path \<Rightarrow> bool \<Rightarrow> bool \<Rightarrow> io_result" where
  "replay io file resume force =
    (if \<not> rp_exists io then Some (''Checkpoint file not found: '' @ file)
     else case rp_read io of
       Inl e \<Rightarrow> Some e
     | Inr c \<Rightarrow>
         if \<not> resume then None
         else case next_actionable_phase c of
           None \<Rightarrow> Some ''All phases are completed or skipped. Nothing to resume.''
         | Some _ \<Rightarrow>
             (case (if force then None else replay_blocked io c) of
                Some e \<Rightarrow> Some e
              | None \<Rightarrow>
                  if \<not> rp_plan_there io (ck_plan_file c)
                  then Some (''Plan file not found: '' @ ck_plan_file c @ ''. Cannot resume.'')
                  else case rp_run io (ck_plan_file c) of
                    Inl e \<Rightarrow> Some e
                  | Inr (success, message) \<Rightarrow> if success then None else Some (''Resume failed: '' @ message)))"

section \<open>Cleaning up\<close>

text \<open>
  All sessions, then the processes of stale ones, then what is left; the list of sessions is asked for
  three times.
\<close>

definition clean_command ::
  "process_table \<Rightarrow> (nat \<Rightarrow> bool) \<Rightarrow> (nat \<Rightarrow> bool) \<Rightarrow> nat \<Rightarrow> (string \<Rightarrow> session_facts) \<Rightarrow> (string \<Rightarrow> nat option) \<Rightarrow>
    tmux_answer \<Rightarrow> tmux_answer \<Rightarrow> tmux_answer \<Rightarrow> string + string list \<times> nat list \<times> (string \<times> bool) list" where
  "clean_command table answers later now_secs facts pid_again first second third =
    (case kill_all_gw_sessions facts first of
       Inl e \<Rightarrow> Inl e
     | Inr sessions \<Rightarrow>
         (case kill_gw_owned_claude_processes table answers later now_secs facts pid_again second of
            Inl e \<Rightarrow> Inl e
          | Inr (pids, _, _) \<Rightarrow>
              map_sum id (\<lambda>left. (sessions, pids, left)) (get_sessions_status answers facts third)))"

section \<open>Laws\<close>

text \<open>
  A restart of a daemon that runs as a service stops the service for good: the daemon it starts is a
  child of the command, without verbosity, and launchd does not know of it.
\<close>

theorem restart_disables_the_service:
  assumes "is_service_loaded s" and "si_launchctl io = Inr True"
    and "service_restart io True (Inr (OkMessage m)) False s = (Inr way, s')"
  shows "\<not> is_service_loaded s'" and "sv_plist s' = sv_plist s"
    and "\<exists>exe. way = InBackground [exe, ''daemon'', ''start'', ''--foreground'']"
  using assms
  by (auto simp: service_restart_def service_stop_def service_start_def is_service_loaded_def unload_service_def
      Let_def start_args_def split: option.splits sum.splits if_splits)

text \<open>Installing and uninstalling gives back the state before, when both succeed.\<close>

theorem uninstall_undoes_service:
  assumes "sv_plist s = None" "\<not> sv_loaded s"
    and "service_install io1 d s = (None, s1)" and "service_uninstall io2 s1 = (None, s2)" and "si_launchctl io2 = Inr True"
  shows "is_service_loaded s1" and "s2 = s"
  using assms
  by (auto simp: service_install_def service_uninstall_def is_service_loaded_def Let_def
      split: option.splits sum.splits if_splits)

text \<open>An installation that launchd refuses fails and leaves its file.\<close>

theorem refused_install_leaves_its_file:
  assumes "si_launch_dir io = None" "si_exe io = Inr exe" "si_log_dir io = None" "si_plist_write io = None"
    and "si_launchctl io = Inr False"
  shows "\<exists>e. fst (service_install io d s) = Some e" and "sv_plist (snd (service_install io d s)) \<noteq> None"
  using assms by (simp_all add: service_install_def Let_def)

text \<open>
  The checkpoint that is given is validated, but what is resumed is only named by its plan: the run finds its
  checkpoint by the loop state of the working directory.
\<close>

theorem replay_resumes_by_plan_only:
  assumes "rp_exists io" and "rp_read io = Inr c" and "next_actionable_phase c \<noteq> None"
    and "rp_plan_there io (ck_plan_file c)"
  shows "replay io file True True
    = (case rp_run io (ck_plan_file c) of
         Inl e \<Rightarrow> Some e
       | Inr (success, message) \<Rightarrow> if success then None else Some (''Resume failed: '' @ message))"
  using assms by (auto simp: replay_def)

text \<open>Of the three kinds of schedule the first that is given counts, the others are not looked at.\<close>

theorem cron_goes_first:
  "schedule_add_request canonicalize cwd parse_time plan (Some expr) at_time after label config_dir
    = schedule_add_request canonicalize cwd parse_time plan (Some expr) None None label config_dir"
  by (simp add: schedule_add_request_def Let_def split: option.split sum.split)

text \<open>
  The clean-up kills no process below the sessions: once the sessions are gone none is listed, and one that
  is still listed is left alone while its pane has a living process.
\<close>

theorem cleaning_kills_no_process:
  assumes "clean_command table answers later now_secs facts pid_again first second third = Inr (sessions, pids, left)"
    and "\<forall>s. pid_again s = sf_pane_pid (facts s)"
  shows "pids = []"
proof -
  from assms(1) have "\<exists>ss. pids = fst (kill_owned_sessions table answers now_secs facts pid_again ss)"
    by (cases "list_gw_sessions second"; cases "get_sessions_status answers facts third")
      (auto simp: clean_command_def kill_gw_owned_claude_processes_def split: sum.splits prod.splits, metis fst_conv)
  then show ?thesis using no_owned_process_is_killed [OF assms(2)] by metis
qed

end
