(* ===== verification/Listing.thy ===== *)
theory Listing
  imports Client Orchestrator
begin

text \<open>
  What is shown of runs: the rows of \<open>gw ps\<close> with their order and widths (\<open>commands/ps.rs\<close>), and the history
  read from the directories of runs (\<open>commands/history.rs\<close>). Texts that are cut are lists of code points,
  whose widths on the terminal are an argument; colours and borders are left out.
\<close>

section \<open>Running and queued runs\<close>

definition filter_runs :: "bool \<Rightarrow> bool \<Rightarrow> run_info list \<Rightarrow> run_info list" where
  "filter_runs only_up only_failed runs =
    (if \<not> only_up \<and> \<not> only_failed then runs
     else filter (\<lambda>r. only_up \<and> ri_status r = Running \<or> only_failed \<and> ri_status r = Failed) runs)"

definition row_key :: "run_info \<Rightarrow> nat" where
  "row_key r = (case ri_status r of Running \<Rightarrow> 0 | Queued \<Rightarrow> 1 | _ \<Rightarrow> 2)"

text \<open>The rows sorted by their key, with the slice from the first to the last queued row reversed.\<close>

definition ps_rows :: "run_info list \<Rightarrow> run_info list" where
  "ps_rows runs =
    (let rows = sort_key row_key runs in
     case (position_of (\<lambda>r. row_key r = 1) rows, position_of (\<lambda>r. row_key r = 1) (rev rows)) of
       (Some s, Some k) \<Rightarrow>
         let e = length rows - k in take s rows @ rev (drop s (take e rows)) @ drop e rows
     | _ \<Rightarrow> rows)"

section \<open>Texts that are cut to a width\<close>

definition ELLIPSIS :: nat where "ELLIPSIS = 8230"

definition display_width :: "(nat \<Rightarrow> nat) \<Rightarrow> nat list \<Rightarrow> nat" where
  "display_width w s = sum_list (map w s)"

interpretation columns: text_width "display_width w"
  by unfold_locales (simp add: display_width_def)

text \<open>The longest beginning whose width is at most the budget.\<close>

fun fitting :: "(nat \<Rightarrow> nat) \<Rightarrow> nat \<Rightarrow> nat \<Rightarrow> nat list \<Rightarrow> nat list" where
  "fitting w budget used [] = []"
| "fitting w budget used (c # cs) =
    (if used + w c > budget then [] else c # fitting w budget (used + w c) cs)"

definition truncate_with_ellipsis :: "(nat \<Rightarrow> nat) \<Rightarrow> nat list \<Rightarrow> nat \<Rightarrow> nat list" where
  "truncate_with_ellipsis w s budget =
    (if display_width w s \<le> budget then s
     else if budget \<le> 1 then [ELLIPSIS]
     else fitting w (budget - 1) 0 s @ [ELLIPSIS])"

definition truncate_middle :: "(nat \<Rightarrow> nat) \<Rightarrow> nat list \<Rightarrow> nat \<Rightarrow> nat list" where
  "truncate_middle w s budget =
    (if display_width w s \<le> budget then s
     else if budget \<le> 1 then [ELLIPSIS]
     else let remaining = budget - 1; head_budget = remaining div 3; tail_budget = remaining - head_budget
       in fitting w head_budget 0 s @ [ELLIPSIS] @ rev (fitting w tail_budget 0 (rev s)))"

section \<open>The widths of the columns\<close>

text \<open>A row by its cells; the cell of the status without colours.\<close>

record ps_row =
  pr_id :: "nat list"
  pr_tmux :: "nat list"
  pr_status :: "nat list"
  pr_plan :: "nat list"
  pr_repo :: "nat list"
  pr_phase :: "nat list"
  pr_uptime :: "nat list"

definition column_width :: "(nat \<Rightarrow> nat) \<Rightarrow> (ps_row \<Rightarrow> nat list) \<Rightarrow> nat \<Rightarrow> ps_row list \<Rightarrow> nat" where
  "column_width w cell header rows = max (fold max (map (display_width w \<circ> cell) rows) 0) header"

definition chrome_width :: "bool \<Rightarrow> nat" where
  "chrome_width narrow = (let n = (if narrow then 6 else 7) in (n + 1) + n * 2)"

definition fixed_width :: "(nat \<Rightarrow> nat) \<Rightarrow> bool \<Rightarrow> ps_row list \<Rightarrow> nat" where
  "fixed_width w narrow rows =
     column_width w pr_id 2 rows + column_width w pr_tmux 4 rows + column_width w pr_status 6 rows
     + column_width w pr_phase 5 rows + column_width w pr_uptime 6 rows + chrome_width narrow"

text \<open>The budgets of the plan and of the repository.\<close>

definition column_budgets :: "bool \<Rightarrow> nat \<Rightarrow> nat \<times> nat" where
  "column_budgets narrow flexible =
    (if narrow then (flexible, 0)
     else let plan = flexible * 3 div 5 in (max plan 4, max (flexible - plan) 4))"

definition fit_row :: "(nat \<Rightarrow> nat) \<Rightarrow> bool \<Rightarrow> nat \<times> nat \<Rightarrow> ps_row \<Rightarrow> ps_row" where
  "fit_row w narrow b r =
    (let r1 = r\<lparr>pr_plan := truncate_middle w (pr_plan r) (fst b)\<rparr> in
     if narrow then r1 else r1\<lparr>pr_repo := truncate_with_ellipsis w (pr_repo r) (snd b)\<rparr>)"

definition column_widths :: "(nat \<Rightarrow> nat) \<Rightarrow> bool \<Rightarrow> ps_row list \<Rightarrow> nat list" where
  "column_widths w narrow rows =
     [column_width w pr_id 2 rows, column_width w pr_tmux 4 rows, column_width w pr_status 6 rows, column_width w pr_plan 4 rows]
     @ (if narrow then [] else [column_width w pr_repo 4 rows])
     @ [column_width w pr_phase 5 rows, column_width w pr_uptime 6 rows]"

definition ps_table :: "(nat \<Rightarrow> nat) \<Rightarrow> nat \<Rightarrow> ps_row list \<Rightarrow> ps_row list \<times> nat list" where
  "ps_table w cols rows =
    (let term_width = (if cols = 0 then 120 else cols); narrow = term_width < 60;
         flexible = term_width - fixed_width w narrow rows;
         fitted = map (fit_row w narrow (column_budgets narrow flexible)) rows
     in (fitted, column_widths w narrow fitted))"

definition format_uptime :: "nat \<Rightarrow> string" where
  "format_uptime secs =
    (if secs < 60 then show_nat secs @ ''s''
     else if secs < 3600 then show_nat (secs div 60) @ ''m '' @ show_nat (secs mod 60) @ ''s''
     else show_nat (secs div 3600) @ ''h '' @ (let m = secs mod 3600 div 60 in if m < 10 then ''0'' @ show_nat m else show_nat m) @ ''m'')"

definition abbreviate_home :: "path option \<Rightarrow> path \<Rightarrow> string" where
  "abbreviate_home home p =
    (case home of
       Some h \<Rightarrow> if prefix h p then ''~'' @ drop (length h) p else p
     | None \<Rightarrow> p)"

section \<open>The history\<close>

text \<open>The stored entries, those that cannot be read or parsed left out, newest first.\<close>

definition load_all_runs :: "run_entry option list \<Rightarrow> run_entry list" where
  "load_all_runs metas = sort_key (\<lambda>r. - re_started_at r) (List.map_filter id metas)"

definition parse_status_filter :: "string \<Rightarrow> string + RunStatus" where
  "parse_status_filter s =
    (let l = to_lowercase s in
     if l \<in> {''succeeded'', ''success'', ''ok''} then Inr Succeeded
     else if l \<in> {''failed'', ''fail'', ''error''} then Inr Failed
     else if l \<in> {''stopped'', ''stop''} then Inr Stopped
     else if l \<in> {''running'', ''run''} then Inr Running
     else if l \<in> {''queued'', ''queue''} then Inr Queued
     else Inl (''Unknown status '' @ [CHR 0x27] @ s @ [CHR 0x27] @ ''. Use: succeeded, failed, stopped, running, queued''))"

definition list_history ::
  "(path \<Rightarrow> string) \<Rightarrow> run_entry list \<Rightarrow> nat \<Rightarrow> string option \<Rightarrow> string option \<Rightarrow> string + run_entry list" where
  "list_history lossy runs limit status repo =
    (if runs = [] then Inr []
     else case (case status of None \<Rightarrow> Inr None | Some s \<Rightarrow> map_sum id Some (parse_status_filter s)) of
       Inl e \<Rightarrow> Inl e
     | Inr target \<Rightarrow>
         Inr (take limit
           (filter (\<lambda>r. (case repo of Some q \<Rightarrow> str_contains (to_lowercase q) (to_lowercase (lossy (re_repo_dir r))) | None \<Rightarrow> True))
             (filter (\<lambda>r. case target of Some t \<Rightarrow> re_status r = t | None \<Rightarrow> True) runs))))"

definition history_find :: "run_entry list \<Rightarrow> string \<Rightarrow> string + run_entry" where
  "history_find runs pre =
    (if pre = [] then Inl ''Run ID cannot be empty''
     else case filter (\<lambda>r. prefix (to_lowercase pre) (to_lowercase (re_run_id r))) runs of
       [] \<Rightarrow> Inl (''No run found matching '' @ [CHR 0x27] @ pre @ [CHR 0x27])
     | [r] \<Rightarrow> Inr r
     | rs \<Rightarrow> Inl (''Ambiguous run ID '' @ [CHR 0x27] @ pre @ [CHR 0x27] @ '' matches '' @ show_nat (length rs) @ '' runs.''))"

definition tail_lines :: "nat option \<Rightarrow> 'a list \<Rightarrow> 'a list" where
  "tail_lines n xs = (case n of Some k \<Rightarrow> drop (length xs - k) xs | None \<Rightarrow> xs)"

definition history_duration :: "utc \<Rightarrow> run_entry \<Rightarrow> string" where
  "history_duration now r =
     format_uptime (secs_between (case re_finished_at r of Some t \<Rightarrow> t | None \<Rightarrow> now) (re_started_at r))"

text \<open>The counts of completed, failed, skipped and other phases.\<close>

definition count_phases :: "(string \<times> string) list \<Rightarrow> nat \<times> nat \<times> nat \<times> nat" where
  "count_phases phases =
    (let n = (\<lambda>p. length (filter (p \<circ> snd) phases)) in
     (n (\<lambda>s. s = ''completed''), n (\<lambda>s. s = ''failed''), n (\<lambda>s. s = ''skipped''),
      n (\<lambda>s. s \<notin> {''completed'', ''failed'', ''skipped''})))"

text \<open>Cutting by bytes: the result so far against the maximal length.\<close>

fun cut_chars :: "nat \<Rightarrow> nat list \<Rightarrow> nat list \<Rightarrow> nat list" where
  "cut_chars max_len result [] = result"
| "cut_chars max_len result (c # cs) =
    (if sum_list (map utf8_len result) + 1 \<ge> max_len then result @ [ELLIPSIS]
     else cut_chars max_len (result @ [c]) cs)"

definition history_truncate :: "nat list \<Rightarrow> nat \<Rightarrow> nat list" where
  "history_truncate s max_len =
    (if sum_list (map utf8_len s) \<le> max_len then s
     else if max_len \<le> 1 then [ELLIPSIS]
     else cut_chars max_len [] s)"

section \<open>Laws of the rows\<close>

lemma position_append:
  "\<forall>x \<in> set xs. \<not> p x \<Longrightarrow> position_of p (xs @ ys) = map_option (\<lambda>i. length xs + i) (position_of p ys)"
proof (induction xs)
  case Nil
  show ?case by (simp add: option.map_ident)
next
  case (Cons x xs)
  then show ?case by (simp add: option.map_comp comp_def)
qed

lemma row_key_cases: "row_key r = 0 \<or> row_key r = 1 \<or> row_key r = 2"
  by (simp add: row_key_def split: RunStatus.split)

lemma sorted_rows:
  "sorted (map row_key rs) \<Longrightarrow>
    rs = filter (\<lambda>r. row_key r = 0) rs @ filter (\<lambda>r. row_key r = 1) rs @ filter (\<lambda>r. row_key r = 2) rs"
proof (induction rs)
  case (Cons r rs)
  then have ih: "rs = filter (\<lambda>r. row_key r = 0) rs @ filter (\<lambda>r. row_key r = 1) rs @ filter (\<lambda>r. row_key r = 2) rs"
    and above: "\<forall>x \<in> set rs. row_key r \<le> row_key x" by simp_all
  have low: "filter (\<lambda>x. row_key x = k) rs = []" if "k < row_key r" for k
    using that above by (auto simp: filter_empty_conv)
  consider "row_key r = 0" | "row_key r = 1" | "row_key r = 2" using row_key_cases [of r] by (elim disjE)
  then show ?case
  proof cases
    case 1
    with ih show ?thesis by simp
  next
    case 2
    with ih low [of 0] show ?thesis by simp
  next
    case 3
    with ih low [of 0] low [of 1] show ?thesis by simp
  qed
qed simp

text \<open>
  The running runs come first, in the order of the list, then the queued ones in the reverse order, which
  is that in which they will be started, then the others.
\<close>

theorem ps_rows_exact:
  "ps_rows runs = filter (\<lambda>r. ri_status r = Running) runs @ rev (filter (\<lambda>r. ri_status r = Queued) runs)
     @ filter (\<lambda>r. ri_status r \<notin> {Running, Queued}) runs"
proof -
  define A B C where "A = filter (\<lambda>r. row_key r = 0) runs" and "B = filter (\<lambda>r. row_key r = 1) runs"
    and "C = filter (\<lambda>r. row_key r = 2) runs"
  have "sort_key row_key runs = A @ B @ C"
    using sorted_rows [of "sort_key row_key runs"] by (simp add: sort_key_stable A_def B_def C_def)
  moreover have "\<forall>x \<in> set A. row_key x \<noteq> 1" "\<forall>x \<in> set C. row_key x \<noteq> 1" "\<forall>x \<in> set B. row_key x = 1"
    by (auto simp: A_def B_def C_def)
  ultimately have "ps_rows runs = A @ rev B @ C"
  proof (cases B)
    case Nil
    with \<open>\<forall>x \<in> set A. row_key x \<noteq> 1\<close> \<open>\<forall>x \<in> set C. row_key x \<noteq> 1\<close> have "position_of (\<lambda>r. row_key r = 1) (A @ B @ C) = None"
      unfolding position_None by auto
    note none = this
    have "ps_rows runs = A @ B @ C" unfolding ps_rows_def \<open>sort_key row_key runs = A @ B @ C\<close> Let_def none by simp
    with Nil show ?thesis by simp
  next
    case (Cons b bs)
    have "position_of (\<lambda>r. row_key r = 1) (A @ B @ C) = Some (length A)"
      using \<open>\<forall>x \<in> set A. row_key x \<noteq> 1\<close> \<open>\<forall>x \<in> set B. row_key x = 1\<close> Cons by (simp add: position_append)
    moreover have "position_of (\<lambda>r. row_key r = 1) (rev (A @ B @ C)) = Some (length C)"
    proof -
      obtain c cs where r: "rev B = c # cs" using Cons by (cases "rev B") auto
      with \<open>\<forall>x \<in> set B. row_key x = 1\<close> have "row_key c = 1" by (metis list.set_intros(1) set_rev)
      with r \<open>\<forall>x \<in> set C. row_key x \<noteq> 1\<close> show ?thesis by (simp add: position_append)
    qed
    ultimately show ?thesis using \<open>sort_key row_key runs = A @ B @ C\<close> by (simp add: ps_rows_def Let_def)
  qed
  moreover have "A = filter (\<lambda>r. ri_status r = Running) runs" "B = filter (\<lambda>r. ri_status r = Queued) runs"
    "C = filter (\<lambda>r. ri_status r \<notin> {Running, Queued}) runs"
    unfolding A_def B_def C_def by (rule filter_cong [OF refl], rename_tac r, case_tac "ri_status r", simp_all add: row_key_def)+
  ultimately show ?thesis by simp
qed

section \<open>Laws of the widths\<close>

lemma fitting_prefix: "prefix (fitting w b u s) s"
  by (induction w b u s rule: fitting.induct) auto

lemma fitting_width: "u \<le> b \<Longrightarrow> u + display_width w (fitting w b u s) \<le> b"
proof (induction w b u s rule: fitting.induct)
  case (2 w b u c cs)
  then show ?case by (auto simp: display_width_def add.assoc)
qed (simp add: display_width_def)

lemma display_width_simps [simp]:
  "display_width w [] = 0" "display_width w (x # xs) = w x + display_width w xs"
  "display_width w (xs @ ys) = display_width w xs + display_width w ys"
  "display_width w (rev xs) = display_width w xs"
  by (simp_all add: display_width_def rev_map [symmetric])

text \<open>A cut text fits the budget, and it is a beginning and an end of the text that do not overlap.\<close>

theorem truncate_middle_fits:
  assumes "w ELLIPSIS = 1" and "1 \<le> budget"
  shows "display_width w (truncate_middle w s budget) \<le> budget"
    and "truncate_middle w s budget \<noteq> s \<and> 1 < budget \<Longrightarrow>
      \<exists>a m b. s = a @ m @ b \<and> truncate_middle w s budget = a @ [ELLIPSIS] @ b"
proof -
  define h where "h = (budget - 1) div 3"
  define a where "a = fitting w h 0 s"
  define b where "b = rev (fitting w (budget - 1 - h) 0 (rev s))"
  have h: "h \<le> budget - 1" by (simp add: h_def)
  have wa: "display_width w a \<le> h" using fitting_width [of 0 h w s] by (simp add: a_def)
  have wb: "display_width w b \<le> budget - 1 - h" using fitting_width [of 0 "budget - 1 - h" w "rev s"] by (simp add: b_def)
  have t: "truncate_middle w s budget
      = (if display_width w s \<le> budget then s else if budget \<le> 1 then [ELLIPSIS] else a @ [ELLIPSIS] @ b)"
    by (simp add: truncate_middle_def Let_def a_def b_def h_def)
  show "display_width w (truncate_middle w s budget) \<le> budget"
    using t wa wb h assms by auto
  assume x: "truncate_middle w s budget \<noteq> s \<and> 1 < budget"
  then have big: "budget < display_width w s" using t by (auto split: if_splits)
  have "prefix a s" unfolding a_def by (rule fitting_prefix)
  moreover have "suffix b s" using fitting_prefix [of w "budget - 1 - h" "0" "rev s"] by (simp add: b_def suffix_to_prefix)
  moreover have "display_width w a + display_width w b < display_width w s" using wa wb h big by linarith
  ultimately obtain m where "s = a @ m @ b" using columns.ends_do_not_overlap by blast
  with t x big show "\<exists>a m b. s = a @ m @ b \<and> truncate_middle w s budget = a @ [ELLIPSIS] @ b" by auto
qed

lemma truncate_end_fits: "w ELLIPSIS = 1 \<Longrightarrow> 1 \<le> budget \<Longrightarrow> display_width w (truncate_with_ellipsis w s budget) \<le> budget"
  using fitting_width [of 0 "budget - 1" w s] by (auto simp: truncate_with_ellipsis_def)

lemma column_width_le:
  "column_width w cell h rows \<le> b \<longleftrightarrow> h \<le> b \<and> (\<forall>r \<in> set rows. display_width w (cell r) \<le> b)"
proof -
  have "fold max xs z \<le> b \<longleftrightarrow> z \<le> b \<and> (\<forall>x \<in> set xs. x \<le> b)" for xs and z :: nat
    by (induction xs arbitrary: z) auto
  then show ?thesis by (auto simp: column_width_def)
qed

lemma column_width_fit:
  assumes "\<And>r. cell (fit_row w narrow b r) = cell r"
  shows "column_width w cell h (map (fit_row w narrow b) rows) = column_width w cell h rows"
  using assms by (simp add: column_width_def comp_def)

lemma fit_row_sel [simp]:
  "pr_id (fit_row w narrow b r) = pr_id r" "pr_tmux (fit_row w narrow b r) = pr_tmux r"
  "pr_status (fit_row w narrow b r) = pr_status r" "pr_phase (fit_row w narrow b r) = pr_phase r"
  "pr_uptime (fit_row w narrow b r) = pr_uptime r"
  "pr_plan (fit_row w narrow b r) = truncate_middle w (pr_plan r) (fst b)"
  "\<not> narrow \<Longrightarrow> pr_repo (fit_row w narrow b r) = truncate_with_ellipsis w (pr_repo r) (snd b)"
  by (simp_all add: fit_row_def Let_def)

text \<open>
  The table with its borders is not wider than the terminal, as soon as there is room for the columns that
  are not cut and the headers of the others.
\<close>

theorem ps_table_fits:
  assumes "w ELLIPSIS = 1" and "cols \<noteq> 0"
    and "fixed_width w (cols < 60) rows + (if cols < 60 then 4 else 8) \<le> cols"
  shows "sum_list (snd (ps_table w cols rows)) + chrome_width (cols < 60) \<le> cols"
proof -
  define flex where "flex = cols - fixed_width w (cols < 60) rows"
  define b where "b = column_budgets (cols < 60) flex"
  define fitted where "fitted = map (fit_row w (cols < 60) b) rows"
  have flex: "(if cols < 60 then 4 else 8) \<le> flex" using assms(3) by (simp add: flex_def)
  have b: "4 \<le> fst b" "\<not> cols < 60 \<longrightarrow> 4 \<le> snd b \<and> fst b + snd b \<le> flex" "cols < 60 \<longrightarrow> fst b \<le> flex"
    using flex by (auto simp: b_def column_budgets_def Let_def)
  have plan: "column_width w pr_plan 4 fitted \<le> fst b"
    unfolding column_width_le fitted_def using b(1) truncate_middle_fits(1) [of w "fst b"] assms(1) by auto
  have repo: "\<not> cols < 60 \<longrightarrow> column_width w pr_repo 4 fitted \<le> snd b"
    unfolding column_width_le fitted_def using b(2) truncate_end_fits [of w "snd b"] assms(1) by auto
  have same: "column_width w cell h fitted = column_width w cell h rows"
    if "\<And>r. cell (fit_row w (cols < 60) b r) = cell r" for cell h
    unfolding fitted_def using that by (rule column_width_fit)
  have "snd (ps_table w cols rows) = column_widths w (cols < 60) fitted"
    using assms(2) by (simp add: ps_table_def Let_def fitted_def b_def flex_def)
  with plan repo b(2,3) flex show ?thesis
    by (auto simp: column_widths_def same fixed_width_def flex_def split: if_splits)
qed

section \<open>Laws of the history\<close>

text \<open>A run is found exactly when it is the only one whose identifier begins so, case aside.\<close>

theorem found_by_prefix:
  "history_find runs pre = Inr r \<longleftrightarrow>
    pre \<noteq> [] \<and> filter (\<lambda>r. prefix (to_lowercase pre) (to_lowercase (re_run_id r))) runs = [r]"
  by (auto simp: history_find_def split: list.split)

text \<open>What is listed are the stored runs that pass the filters, newest first, at most the given number.\<close>

theorem history_is_newest_first:
  assumes "list_history lossy (load_all_runs metas) limit status repo = Inr shown"
  shows "length shown \<le> limit" and "sorted_wrt (\<lambda>a b. re_started_at a \<ge> re_started_at b) shown"
    and "\<forall>r \<in> set shown. Some r \<in> set metas"
proof -
  have sorted: "sorted_wrt (\<lambda>a b. re_started_at a \<ge> re_started_at b) (load_all_runs metas)"
    unfolding load_all_runs_def
    using sorted_sort_key [of "\<lambda>r. - re_started_at r" "List.map_filter id metas"] by (simp add: sorted_map)
  from assms obtain p q where s: "shown = take limit (filter p (filter q (load_all_runs metas)))"
    by (auto simp: list_history_def split: if_splits sum.splits)
  from s show "length shown \<le> limit" by simp
  from s sorted show "sorted_wrt (\<lambda>a b. re_started_at a \<ge> re_started_at b) shown"
    by (simp add: sorted_wrt_take sorted_wrt_filter)
  have "set shown \<subseteq> set (load_all_runs metas)" using s by (auto dest: in_set_takeD)
  then show "\<forall>r \<in> set shown. Some r \<in> set metas"
    by (auto simp: load_all_runs_def map_filter_def)
qed

lemma cut_chars_length:
  "length r + 1 \<le> n \<Longrightarrow> length (cut_chars n r cs) \<le> n \<or> False"
proof (induction n r cs rule: cut_chars.induct)
  case (2 n r c cs)
  have one: "length xs \<le> sum_list (map utf8_len xs)" for xs
    by (induction xs) (auto simp: utf8_len_def)
  from 2 one [of r] show ?case by auto
qed simp

text \<open>A cut text of the history has at most the given number of characters.\<close>

theorem history_cells_fit: "1 \<le> n \<Longrightarrow> length (history_truncate s n) \<le> n"
proof -
  have "length s \<le> sum_list (map utf8_len s)" by (induction s) (auto simp: utf8_len_def)
  then show "1 \<le> n \<Longrightarrow> length (history_truncate s n) \<le> n"
    using cut_chars_length [of "[]" n s] by (auto simp: history_truncate_def)
qed

end
