(* ===== verification/Connections.thy ===== *)
theory Connections
  imports Server_Laws Daemon_Life Cleanup
begin

text \<open>
  The socket of the daemon (\<open>daemon/server.rs\<close>): what is done about a socket that is there already, the
  requests of one connection, and where following a log begins. Processes, files and the network are
  arguments.
\<close>

section \<open>Listening\<close>

text \<open>
  A socket is stale when the PID file beside it is missing, cannot be read or parsed, or names a process
  that is gone. The result says whether the socket is there afterwards.
\<close>

definition socket_is_stale :: "(nat \<Rightarrow> bool) \<Rightarrow> file_view \<Rightarrow> bool" where
  "socket_is_stale answers pid_file =
    (case pid_file of
       Readable s \<Rightarrow> (case read_pid s of Some p \<Rightarrow> \<not> is_pid_alive answers p | None \<Rightarrow> True)
     | _ \<Rightarrow> True)"

definition cleanup_stale_socket :: "(nat \<Rightarrow> bool) \<Rightarrow> file_view \<Rightarrow> io_result \<Rightarrow> bool \<Rightarrow> io_result \<times> bool" where
  "cleanup_stale_socket answers pid_file remove there =
    (if \<not> there then (None, False)
     else if socket_is_stale answers pid_file then
       (case remove of Some e \<Rightarrow> (Some ''failed to remove stale socket file'', True) | None \<Rightarrow> (None, False))
     else
       (Some (''Another daemon is already running''
          @ (case pid_file of
               Readable s \<Rightarrow> (case read_pid s of Some p \<Rightarrow> '' (PID '' @ show_nat p @ '')'' | None \<Rightarrow> [])
             | _ \<Rightarrow> [])
          @ ''. Run '' @ backtick ''gw daemon stop'' @ '' first.''), True))"

record listen_io =
  ln_remove :: io_result
  ln_bind :: io_result
  ln_mode :: io_result

text \<open>The start of the server up to its loop.\<close>

definition server_listen :: "(nat \<Rightarrow> bool) \<Rightarrow> file_view \<Rightarrow> listen_io \<Rightarrow> bool \<Rightarrow> io_result \<times> bool" where
  "server_listen answers pid_file io there =
    (case cleanup_stale_socket answers pid_file (ln_remove io) there of
       (Some e, t) \<Rightarrow> (Some e, t)
     | (None, t) \<Rightarrow>
         (case ln_bind io of
            Some e \<Rightarrow> (Some ''failed to bind socket'', t)
          | None \<Rightarrow>
              (case ln_mode io of
                 Some e \<Rightarrow> (Some ''failed to set 0600 permissions on socket'', True)
               | None \<Rightarrow> (None, True))))"

definition cleanup_socket :: "io_result \<Rightarrow> bool \<Rightarrow> bool" where
  "cleanup_socket removed there = (there \<and> removed \<noteq> None)"

text \<open>
  The start of a daemon from its PID file on: the process writes its own PID into the file, whose lock it
  holds, and then starts the server. \<open>old\<close> is what the file said before.
\<close>

definition daemon_listens :: "(nat \<Rightarrow> bool) \<Rightarrow> nat \<Rightarrow> string \<Rightarrow> listen_io \<Rightarrow> bool \<Rightarrow> io_result \<times> bool" where
  "daemon_listens answers pid old io there =
     server_listen answers (Readable (last (write_pid_states pid old))) io there"

section \<open>A connection\<close>

text \<open>
  What happens on a connection: the daemon is cancelled, a request arrives (with what the world answers while
  it is handled, and whether its response can be written), reading fails, or no request comes in time.
\<close>

datatype conn_event =
    ConnCancelled
  | ConnRequest dispatch_io Request bool
  | ConnReadError
  | ConnTimeout

text \<open>The responses, the log that is followed from then on, and the server.\<close>

fun handle_connection ::
  "env \<Rightarrow> packages \<Rightarrow> nat \<Rightarrow> conn_event list \<Rightarrow> server \<Rightarrow> (Response list \<times> (string \<times> nat option \<times> bool) option) \<times> server" where
  "handle_connection E pk cap [] sv = (([], None), sv)"
| "handle_connection E pk cap (ConnCancelled # es) sv = (([], None), sv)"
| "handle_connection E pk cap (ConnReadError # es) sv = (([], None), sv)"
| "handle_connection E pk cap (ConnTimeout # es) sv = (([ErrorResponse InternalError ''request timeout''], None), sv)"
| "handle_connection E pk cap (ConnRequest io req written # es) sv =
    (case (case req of GetLogs i True tail pane \<Rightarrow> Some (i, tail, pane) | _ \<Rightarrow> None) of
       Some f \<Rightarrow> (([], Some f), sv)
     | None \<Rightarrow>
         (case dispatch_request E pk io cap req sv of
            (None, sv1) \<Rightarrow> (([], None), sv1)
          | (Some r, sv1) \<Rightarrow>
              if \<not> written then (([], None), sv1)
              else (case handle_connection E pk cap es sv1 of ((rs, f), sv2) \<Rightarrow> ((r # rs, f), sv2))))"

text \<open>
  The begin of a follow mode: the run, what is sent at first, and where the ticks begin. The file is read
  twice, for its tail and for its size.
\<close>

definition follow_begin ::
  "nat option \<Rightarrow> file_view \<Rightarrow> file_view \<Rightarrow> string \<times> follow_state" where
  "follow_begin tail first second =
    (read_log_tail first tail,
     \<lparr>fs_offset = (case file_size second of Some n \<Rightarrow> n | None \<Rightarrow> 0), fs_pending = []\<rparr>)"

definition handle_follow_logs ::
  "path \<Rightarrow> string \<times> nat option \<times> bool \<Rightarrow> (path \<Rightarrow> file_view) \<Rightarrow> (path \<Rightarrow> file_view) \<Rightarrow> server \<Rightarrow>
    Response + (string \<times> path \<times> Response list \<times> follow_state)" where
  "handle_follow_logs home f first second sv =
    (case f of (run_id, tail, pane) \<Rightarrow>
       (case find_by_prefix run_id (sv_registry sv) of
          None \<Rightarrow> Inl (no_run run_id)
        | Some e \<Rightarrow>
            let p = log_path home (re_run_id e) pane; (data, st) = follow_begin tail (first p) (second p)
            in Inr (re_run_id e, p, if data = [] then [] else [LogChunk (re_run_id e) data], st)))"

section \<open>Laws of the socket\<close>

lemma own_pid_is_read:
  assumes "pid < 2 ^ 32"
  shows "read_pid (last (write_pid_states pid old)) = Some pid"
proof -
  have "last (write_pid_states pid old) = show_nat pid"
    by (simp add: write_pid_states_def pwrite_at_zero_def Let_def)
  moreover have "plain_byte c" if "c \<in> set (show_nat pid)" for c
  proof -
    from show_nat_digits [OF that] obtain d :: nat where "d < 10" "c = char_of (48 + d)" by blast
    then show ?thesis by (simp add: plain_byte_def)
  qed
  then have "trim (show_nat pid) = show_nat pid" by (intro trim_plain) (simp_all add: show_nat_nonempty)
  ultimately show ?thesis using assms by (simp add: read_pid_def parse_u32_show_nat)
qed

text \<open>
  A socket that an unclean end left behind locks every later daemon out. The daemon that starts has just
  written its own PID into the file, so it takes itself for the one that owns the socket; the socket
  stays, whatever the files answer.
\<close>

theorem left_socket_locks_the_daemon_out:
  assumes "pid < 2 ^ 31" and "answers pid"
  shows "\<exists>e. daemon_listens answers pid old io True = (Some e, True)"
proof -
  have "is_pid_alive answers pid" using assms by (simp add: is_pid_alive_def I32_MAX_def)
  moreover have "read_pid (last (write_pid_states pid old)) = Some pid" using assms(1) by (intro own_pid_is_read) simp
  ultimately show ?thesis
    by (simp add: daemon_listens_def server_listen_def cleanup_stale_socket_def socket_is_stale_def)
qed

theorem left_socket_locks_the_daemon_out_witness: "\<exists>e. daemon_listens (\<lambda>_. True) 4711 ''815'' io True = (Some e, True)"
  by (rule left_socket_locks_the_daemon_out) simp_all

text \<open>Without a socket a daemon listens whenever it can bind.\<close>

theorem fresh_socket_is_bound:
  "ln_bind io = None \<Longrightarrow> ln_mode io = None \<Longrightarrow> daemon_listens answers pid old io False = (None, True)"
  by (simp add: daemon_listens_def server_listen_def cleanup_stale_socket_def)

section \<open>Laws of a connection\<close>

text \<open>The identifiers each request would give are new when it is handled.\<close>

fun fresh_along :: "env \<Rightarrow> packages \<Rightarrow> nat \<Rightarrow> conn_event list \<Rightarrow> server \<Rightarrow> bool" where
  "fresh_along E pk cap (ConnRequest io req written # es) sv \<longleftrightarrow>
     fresh_ids io sv \<and> fresh_along E pk cap es (snd (dispatch_request E pk io cap req sv))"
| "fresh_along E pk cap _ sv = True"

lemma connection_evolves:
  "fresh_along E pk cap es sv \<Longrightarrow> evolves E (sv_registry sv) (sv_registry (snd (handle_connection E pk cap es sv)))"
proof (induction E pk cap es sv rule: handle_connection.induct)
  case (5 E pk cap io req written es sv)
  obtain r sv1 where d: "dispatch_request E pk io cap req sv = (r, sv1)" by fastforce
  from "5.prems" dispatch_evolves [of io sv E pk cap req] d
  have step: "evolves E (sv_registry sv) (sv_registry sv1)" and f: "fresh_along E pk cap es sv1" by simp_all
  show ?case
  proof (cases "(case req of GetLogs i True tail pane \<Rightarrow> Some (i, tail, pane) | _ \<Rightarrow> None)")
    case None
    then show ?thesis using "5.IH" [OF None d [symmetric]] d step f
      by (cases r; cases written) (auto split: prod.split intro: evolves_trans)
  qed simp
qed simp_all

text \<open>
  A whole connection, with all its requests, changes the registry only by sequences of its operations: the
  invariant of the registry survives it and no status goes back.
\<close>

theorem connection_preserves_registry:
  assumes "fresh_along E pk cap es sv"
  shows "(reg_inv E (sv_registry sv) \<longrightarrow> reg_inv E (sv_registry (snd (handle_connection E pk cap es sv))))
    \<and> runs_grow (sv_registry sv) (sv_registry (snd (handle_connection E pk cap es sv)))"
  using connection_evolves [OF assms] evolves_inv evolves_grows by blast

text \<open>
  At most one response goes out for each request and one more for a timeout.
\<close>

theorem responses_are_bounded:
  "length (fst (fst (handle_connection E pk cap es sv))) \<le> length es"
proof (induction E pk cap es sv rule: handle_connection.induct)
  case (5 E pk cap io req written es sv)
  show ?case
  proof (cases "(case req of GetLogs i True tail pane \<Rightarrow> Some (i, tail, pane) | _ \<Rightarrow> None)")
    case None
    then show ?thesis using "5.IH" [OF None]
      by (cases "dispatch_request E pk io cap req sv"; cases "fst (dispatch_request E pk io cap req sv)"; cases written)
        (force split: prod.split)+
  qed simp
qed simp_all

text \<open>
  What is appended to a log between the two reads at the begin of a follow mode is never sent: it is not in
  the first chunk, and the ticks begin behind it.
\<close>

theorem lines_between_the_reads_are_lost:
  assumes "follow_begin None (Readable s) (Readable (s @ t)) = (data, st)"
    and "follow [Readable (s @ t @ u)] st = (chunks, st')"
  shows "data = read_log_tail (Readable s) None" and "concat chunks @ fs_pending st' = u"
proof -
  from assms(1) have st: "fs_offset st = length (s @ t)" "fs_pending st = []" and "data = read_log_tail (Readable s) None"
    by (auto simp: follow_begin_def)
  then show "data = read_log_tail (Readable s) None" by simp
  have "prefix (s @ t) (s @ t @ u)" by simp
  from follow_tick_grows [OF this st(1)] assms(2) st(2) show "concat chunks @ fs_pending st' = u"
    by (auto split: prod.splits option.splits)
qed

end
