(* ===== verification/Disk_Write.thy ===== *)
theory Disk_Write
  imports GW_Prelude
begin

text \<open>
  How the program replaces a file: the checkpoint writer (\<open>checkpoint/writer.rs\<close>) and the other places
  that write a temporary file and rename it over the target (\<open>daemon/registry.rs\<close>,
  \<open>daemon/schedule.rs\<close>, \<open>daemon/drain.rs\<close>, \<open>batch/state.rs\<close>, \<open>engine/crash_loop.rs\<close>,
  \<open>monitor/session_owner.rs\<close>). A routine is the list of its calls on the disk. A call may fail, a write
  after a part of its bytes; the routine returns at the first failure, and a process that dies leaves
  the disk as the failure at that call does. The disk also keeps, for every path, what a power loss may
  leave there: the bytes are certain only after \<open>sync_all\<close>, and the rename itself may be lost. The two
  locales state the pattern without and with the sync; every routine is an interpretation of one.
\<close>

section \<open>The disk\<close>

record disk =
  dk_live :: "path \<Rightarrow> string option"
  dk_kept :: "path \<Rightarrow> string option \<Rightarrow> bool"

datatype disk_call =
    MakeDirs path
  | Create path
  | Write path string
  | Sync path
  | Rename path path
  | Remove path

text \<open>
  \<open>fs::rename\<close> replaces the target in one step, so a power loss leaves the target's old entry or the
  new one.
\<close>

fun apply_call :: "disk_call \<Rightarrow> disk \<Rightarrow> disk" where
  "apply_call (MakeDirs _) d = d"
| "apply_call (Create p) d =
     d\<lparr>dk_live := (dk_live d)(p := Some []), dk_kept := (dk_kept d)(p := \<lambda>_. True)\<rparr>"
| "apply_call (Write p s) d =
     d\<lparr>dk_live := (dk_live d)(p := map_option (\<lambda>t. t @ s) (dk_live d p)),
       dk_kept := (dk_kept d)(p := \<lambda>_. True)\<rparr>"
| "apply_call (Sync p) d =
     d\<lparr>dk_kept := (dk_kept d)(p := \<lambda>v. v = None \<or> v = dk_live d p)\<rparr>"
| "apply_call (Rename a b) d =
     (if a = b then d else
      d\<lparr>dk_live := (dk_live d)(a := None, b := dk_live d a),
        dk_kept := (dk_kept d)(a := (\<lambda>v. v = None \<or> dk_kept d a v),
                               b := (\<lambda>v. dk_kept d b v \<or> (v \<noteq> None \<and> dk_kept d a v)))\<rparr>)"
| "apply_call (Remove p) d =
     d\<lparr>dk_live := (dk_live d)(p := None), dk_kept := (dk_kept d)(p := \<lambda>v. v = None \<or> dk_kept d p v)\<rparr>"

text \<open>A call that fails: only a write may have had a part of its effect.\<close>

fun partial_call :: "nat \<Rightarrow> disk_call \<Rightarrow> disk \<Rightarrow> disk" where
  "partial_call k (Write p s) d = apply_call (Write p (take k s)) d"
| "partial_call k _ d = d"

text \<open>
  The calls from the \<open>i\<close>-th on. \<open>faults i\<close> is \<open>Some k\<close> where the call fails, or the process dies in it,
  after \<open>k\<close> bytes.
\<close>

fun run_calls :: "(nat \<Rightarrow> nat option) \<Rightarrow> nat \<Rightarrow> disk_call list \<Rightarrow> disk \<Rightarrow> bool \<times> disk" where
  "run_calls faults i [] d = (True, d)"
| "run_calls faults i (c # cs) d =
     (case faults i of
        Some k \<Rightarrow> (False, partial_call k c d)
      | None \<Rightarrow> run_calls faults (Suc i) cs (apply_call c d))"

section \<open>The routines\<close>

text \<open>
  \<open>write_to_file\<close> and \<open>fsync_file\<close>: the writer's buffer hands the document on in pieces, the newline
  last; the file is opened again for the sync.
\<close>

definition write_to_file_calls :: "string list \<Rightarrow> path \<Rightarrow> disk_call list" where
  "write_to_file_calls pieces p = Create p # map (Write p) pieces"

definition fsync_file_calls :: "path \<Rightarrow> disk_call list" where
  "fsync_file_calls p = [Sync p]"

definition write_checkpoint_with_tmp_calls :: "path option \<Rightarrow> string list \<Rightarrow> path \<Rightarrow> path \<Rightarrow> disk_call list" where
  "write_checkpoint_with_tmp_calls missing_parent pieces target tmp =
    (case missing_parent of None \<Rightarrow> [] | Some d \<Rightarrow> [MakeDirs d])
      @ write_to_file_calls pieces tmp @ fsync_file_calls tmp @ [Rename tmp target]"

definition TMP_SUFFIX :: string where "TMP_SUFFIX = ''.tmp''"

definition write_checkpoint_calls :: "path option \<Rightarrow> string list \<Rightarrow> path \<Rightarrow> disk_call list" where
  "write_checkpoint_calls missing_parent pieces p =
     write_checkpoint_with_tmp_calls missing_parent pieces p (p @ TMP_SUFFIX)"

text \<open>
  \<open>backup_checkpoint\<close>: the copy is written in place, with no temporary file and no sync.
\<close>

definition backup_checkpoint_calls :: "disk \<Rightarrow> path \<Rightarrow> path \<Rightarrow> disk_call list" where
  "backup_checkpoint_calls d p backup_path =
    (case dk_live d p of None \<Rightarrow> [] | Some contents \<Rightarrow> [Create backup_path, Write backup_path contents])"

text \<open>
  \<open>RunRegistry::write_meta\<close>, \<open>ScheduleRegistry::save\<close> and \<open>write_snapshot\<close>; \<open>write_all\<close> hands its
  bytes on in as many pieces as the system takes them.
\<close>

definition write_meta_calls :: "path \<Rightarrow> string list \<Rightarrow> disk_call list" where
  "write_meta_calls run_dir pieces =
     [MakeDirs run_dir, Create (run_dir @ ''/meta.json.tmp'')]
      @ map (Write (run_dir @ ''/meta.json.tmp'')) pieces @
     [Sync (run_dir @ ''/meta.json.tmp''), Rename (run_dir @ ''/meta.json.tmp'') (run_dir @ ''/meta.json'')]"

definition schedule_save_calls :: "path \<Rightarrow> string list \<Rightarrow> disk_call list" where
  "schedule_save_calls home pieces =
     [Create (home @ ''/schedules.json.tmp'')]
      @ map (Write (home @ ''/schedules.json.tmp'')) pieces @
     [Sync (home @ ''/schedules.json.tmp''),
      Rename (home @ ''/schedules.json.tmp'') (home @ ''/schedules.json'')]"

definition write_snapshot_calls :: "path \<Rightarrow> string list \<Rightarrow> disk_call list" where
  "write_snapshot_calls run_dir pieces =
     [MakeDirs run_dir, Create (run_dir @ ''/snapshot.json.tmp'')]
      @ map (Write (run_dir @ ''/snapshot.json.tmp'')) pieces @
     [Sync (run_dir @ ''/snapshot.json.tmp''),
      Rename (run_dir @ ''/snapshot.json.tmp'') (run_dir @ ''/snapshot.json'')]"

text \<open>\<open>BatchState::save\<close>: \<open>fs::write\<close> creates and writes, then the file is opened again for the sync.\<close>

definition batch_save_calls :: "string list \<Rightarrow> disk_call list" where
  "batch_save_calls pieces =
     [MakeDirs ''.gw'', Create ''.gw/batch-state.json.tmp'']
      @ map (Write ''.gw/batch-state.json.tmp'') pieces @
     [Sync ''.gw/batch-state.json.tmp'', Rename ''.gw/batch-state.json.tmp'' ''.gw/batch-state.json'']"

text \<open>\<open>write_session_owner\<close> and \<open>CrashLoopDetector::persist\<close>: no sync before the rename.\<close>

definition session_owner_calls :: "path \<Rightarrow> string list \<Rightarrow> disk_call list" where
  "session_owner_calls dir pieces =
     [MakeDirs (dir @ ''/.gw''), Create (dir @ ''/.gw/session-owner.json.tmp'')]
      @ map (Write (dir @ ''/.gw/session-owner.json.tmp'')) pieces @
     [Rename (dir @ ''/.gw/session-owner.json.tmp'') (dir @ ''/.gw/session-owner.json'')]"

definition crash_history_calls :: "path \<Rightarrow> string list \<Rightarrow> disk_call list" where
  "crash_history_calls dir pieces =
     [MakeDirs (dir @ ''/.gw''), Create (dir @ ''/.gw/crash-history.json.tmp'')]
      @ map (Write (dir @ ''/.gw/crash-history.json.tmp'')) pieces @
     [Rename (dir @ ''/.gw/crash-history.json.tmp'') (dir @ ''/.gw/crash-history.json'')]"

text \<open>
  When its rename is what failed, \<open>persist\<close> removes the temporary file, and ignores the outcome
  (\<open>removed\<close>).
\<close>

definition persist_on_disk ::
  "(nat \<Rightarrow> nat option) \<Rightarrow> bool \<Rightarrow> path \<Rightarrow> string list \<Rightarrow> disk \<Rightarrow> bool \<times> disk" where
  "persist_on_disk faults removed dir pieces d =
    (let (ok, d1) = run_calls faults 0 (crash_history_calls dir pieces) d in
     if (\<forall>i < length pieces + 2. faults i = None) \<and> faults (length pieces + 2) \<noteq> None \<and> removed
     then (ok, apply_call (Remove (dir @ ''/.gw/crash-history.json.tmp'')) d1)
     else (ok, d1))"

section \<open>Replacing a file\<close>

text \<open>A call that leaves everything but \<open>tmp\<close> as it is.\<close>

fun spares :: "path \<Rightarrow> disk_call \<Rightarrow> bool" where
  "spares tmp (MakeDirs _) \<longleftrightarrow> True"
| "spares tmp (Create p) \<longleftrightarrow> p = tmp"
| "spares tmp (Write p _) \<longleftrightarrow> p = tmp"
| "spares tmp (Sync p) \<longleftrightarrow> p = tmp"
| "spares tmp (Rename _ _) \<longleftrightarrow> False"
| "spares tmp (Remove _) \<longleftrightarrow> False"

lemma apply_spares:
  assumes "spares tmp c" "q \<noteq> tmp"
  shows "dk_live (apply_call c d) q = dk_live d q \<and> dk_kept (apply_call c d) q = dk_kept d q"
  using assms by (cases c) auto

lemma partial_spares:
  assumes "spares tmp c" "q \<noteq> tmp"
  shows "dk_live (partial_call k c d) q = dk_live d q \<and> dk_kept (partial_call k c d) q = dk_kept d q"
  using assms by (cases c) auto

lemma run_spares:
  assumes "\<forall>c\<in>set cs. spares tmp c" "q \<noteq> tmp" "run_calls faults i cs d = (ok, d1)"
  shows "dk_live d1 q = dk_live d q \<and> dk_kept d1 q = dk_kept d q"
  using assms
proof (induction cs arbitrary: i d)
  case (Cons c cs)
  have c: "spares tmp c" using Cons.prems(1) by simp
  show ?case
  proof (cases "faults i")
    case None
    then show ?thesis using Cons apply_spares [OF c Cons.prems(2), of d] by simp
  next
    case (Some k)
    then show ?thesis using Cons.prems(3) partial_spares [OF c Cons.prems(2), of k d] by auto
  qed
qed simp

lemma run_append:
  "run_calls faults i (xs @ ys) d =
    (let (ok, d1) = run_calls faults i xs d in
     if ok then run_calls faults (i + length xs) ys d1 else (False, d1))"
proof (induction xs arbitrary: i d)
  case (Cons x xs)
  then show ?case by (cases "faults i") (simp_all split: prod.split)
qed simp

lemma writes_append:
  assumes "dk_live d p = Some t" "run_calls faults i (map (Write p) pieces) d = (True, d1)"
  shows "dk_live d1 p = Some (t @ concat pieces)"
  using assms
proof (induction pieces arbitrary: i d t)
  case (Cons a pieces)
  then show ?case using Cons.IH [of "apply_call (Write p a) d" "t @ a" "Suc i"]
    by (simp split: option.splits)
qed simp

lemma writes_unsure:
  assumes "dk_kept d p = (\<lambda>_. True)" "run_calls faults i (map (Write p) pieces) d = (True, d1)"
  shows "dk_kept d1 p = (\<lambda>_. True)"
  using assms
proof (induction pieces arbitrary: i d)
  case (Cons a pieces)
  then show ?case using Cons.IH [of "apply_call (Write p a) d" "Suc i"]
    by (simp split: option.splits)
qed simp

text \<open>
  The pattern: calls that touch nothing, the temporary file created and written, some more calls on it
  alone, and the rename.
\<close>

locale replacing_write =
  fixes calls :: "string list \<Rightarrow> disk_call list"
    and before_calls after_calls :: "disk_call list"
    and tmp target :: path
  assumes shape: "calls pieces = before_calls @ (Create tmp # map (Write tmp) pieces) @ after_calls @ [Rename tmp target]"
    and before_spares: "c \<in> set before_calls \<Longrightarrow> spares tmp c"
    and after_syncs: "c \<in> set after_calls \<Longrightarrow> c = Sync tmp"
    and other_file: "tmp \<noteq> target"
begin

definition staging :: "string list \<Rightarrow> disk_call list" where
  "staging pieces = before_calls @ (Create tmp # map (Write tmp) pieces) @ after_calls"

lemma calls_split: "calls pieces = staging pieces @ [Rename tmp target]"
  by (simp add: shape staging_def)

lemma staging_spares: "\<forall>c\<in>set (staging pieces). spares tmp c"
  using before_spares by (fastforce simp: staging_def dest: after_syncs)

lemma syncs_keep_live:
  assumes "\<forall>c\<in>set cs. c = Sync tmp" "run_calls faults i cs d = (True, d1)"
  shows "dk_live d1 = dk_live d"
  using assms by (induction cs arbitrary: i d) (auto split: option.splits)

lemma staged_contents:
  assumes "run_calls faults i (staging pieces) d = (True, d1)"
  shows "dk_live d1 tmp = Some (concat pieces)"
proof -
  obtain d2 d3 where b: "run_calls faults i before_calls d = (True, d2)"
    and w: "run_calls faults (i + length before_calls) (Create tmp # map (Write tmp) pieces) d2 = (True, d3)"
    and a: "run_calls faults (i + length before_calls + length (Create tmp # map (Write tmp) pieces)) after_calls d3 = (True, d1)"
    using assms unfolding staging_def run_append
    by (auto simp del: run_calls.simps(2) split: prod.splits if_splits)
  have "dk_live d3 tmp = Some (concat pieces)"
    using w writes_append [of "apply_call (Create tmp) d2" tmp "[]"] by (auto split: option.splits)
  then show ?thesis using syncs_keep_live [OF _ a] after_syncs by metis
qed

text \<open>
  Whatever fails, and wherever the process dies: the target is what it was, or the whole new document;
  it is the new one exactly when the routine returns \<open>Ok\<close>.
\<close>

lemma old_or_new:
  assumes "run_calls faults i (calls pieces) d = (ok, d1)"
  shows "dk_live d1 target = (if ok then Some (concat pieces) else dk_live d target)"
    and "ok \<Longrightarrow> dk_live d1 tmp = None"
    and "q \<noteq> tmp \<Longrightarrow> q \<noteq> target \<Longrightarrow> dk_live d1 q = dk_live d q"
proof -
  obtain ok0 d0 where s: "run_calls faults i (staging pieces) d = (ok0, d0)" by fastforce
  note sp = run_spares [OF staging_spares _ s]
  have t: "dk_live d0 target = dk_live d target" using sp [of target] other_file by simp
  show "dk_live d1 target = (if ok then Some (concat pieces) else dk_live d target)"
    using assms s t staged_contents [of faults i pieces d d0] other_file unfolding calls_split run_append
    by (auto split: option.splits if_splits)
  show "dk_live d1 tmp = None" if "ok"
    using assms s other_file that unfolding calls_split run_append by (auto split: option.splits if_splits)
  show "dk_live d1 q = dk_live d q" if "q \<noteq> tmp" "q \<noteq> target"
    using assms s sp [of q] that unfolding calls_split run_append by (auto split: option.splits if_splits)
qed

end

text \<open>With the sync between the last write and the rename, also a power loss leaves one or the other.\<close>

locale synced_write = replacing_write +
  assumes synced: "after_calls = [Sync tmp]"
begin

lemma staged_is_kept:
  assumes "run_calls faults i (staging pieces) d = (True, d1)"
  shows "dk_kept d1 tmp v \<Longrightarrow> v = None \<or> v = Some (concat pieces)"
proof -
  have "staging pieces = (before_calls @ Create tmp # map (Write tmp) pieces) @ [Sync tmp]"
    unfolding staging_def unfolding synced by simp
  then obtain d2 where d1: "d1 = apply_call (Sync tmp) d2"
    using assms by (auto simp: run_append simp del: append_assoc split: prod.splits if_splits option.splits)
  then have "dk_kept d1 tmp v \<longleftrightarrow> v = None \<or> v = dk_live d1 tmp" by simp
  then show "dk_kept d1 tmp v \<Longrightarrow> v = None \<or> v = Some (concat pieces)"
    using staged_contents [OF assms] by auto
qed

lemma power_loss_leaves_old_or_new:
  assumes "run_calls faults i (calls pieces) d = (ok, d1)" "dk_kept d1 target v"
  shows "dk_kept d target v \<or> v = Some (concat pieces)"
proof -
  obtain ok0 d0 where s: "run_calls faults i (staging pieces) d = (ok0, d0)" by fastforce
  have t: "dk_kept d0 target = dk_kept d target"
    using run_spares [OF staging_spares _ s, of target] other_file by simp
  show ?thesis
    using assms s t staged_is_kept [of faults i pieces d d0 v] other_file unfolding calls_split run_append
    by (auto split: option.splits if_splits)
qed

end

text \<open>Without it, a power loss after the routine returned \<open>Ok\<close> may leave the target with any contents.\<close>

locale unsynced_write = replacing_write +
  assumes unsynced: "after_calls = []"
begin

lemma power_loss_leaves_anything:
  assumes "run_calls faults i (calls pieces) d = (True, d1)"
  shows "dk_kept d1 target (Some s)"
proof -
  have "staging pieces = before_calls @ Create tmp # map (Write tmp) pieces"
    unfolding staging_def unfolding unsynced by simp
  then obtain j d2 d0 where w: "run_calls faults j (map (Write tmp) pieces) (apply_call (Create tmp) d2) = (True, d0)"
    and d1: "d1 = apply_call (Rename tmp target) d0"
    using assms unfolding calls_split
    by (auto simp: run_append simp del: append_assoc append.assoc split: prod.splits if_splits option.splits)
  have "dk_kept d0 tmp = (\<lambda>_. True)" using writes_unsure [OF _ w] by simp
  then show ?thesis using d1 other_file by simp
qed

end

section \<open>Every routine is one or the other\<close>

lemma not_longer [simp]: "p @ TMP_SUFFIX \<noteq> p"
  by (simp add: TMP_SUFFIX_def)

lemma other_suffix [simp]: "TMP_SUFFIX \<noteq> []"
  by (simp add: TMP_SUFFIX_def)

interpretation ckpt: synced_write "\<lambda>pieces. write_checkpoint_calls mp pieces p"
  "case mp of None \<Rightarrow> [] | Some d \<Rightarrow> [MakeDirs d]" "[Sync (p @ TMP_SUFFIX)]" "p @ TMP_SUFFIX" p for mp p
  by unfold_locales
    (auto simp: write_checkpoint_calls_def write_checkpoint_with_tmp_calls_def write_to_file_calls_def
      fsync_file_calls_def split: option.splits)

interpretation meta: synced_write "write_meta_calls run_dir" "[MakeDirs run_dir]"
  "[Sync (run_dir @ ''/meta.json.tmp'')]" "run_dir @ ''/meta.json.tmp''" "run_dir @ ''/meta.json''" for run_dir
  by unfold_locales (auto simp: write_meta_calls_def)

interpretation sched: synced_write "schedule_save_calls home" "[]"
  "[Sync (home @ ''/schedules.json.tmp'')]" "home @ ''/schedules.json.tmp''" "home @ ''/schedules.json''" for home
  by unfold_locales (auto simp: schedule_save_calls_def)

interpretation snap: synced_write "write_snapshot_calls run_dir" "[MakeDirs run_dir]"
  "[Sync (run_dir @ ''/snapshot.json.tmp'')]" "run_dir @ ''/snapshot.json.tmp''" "run_dir @ ''/snapshot.json''" for run_dir
  by unfold_locales (auto simp: write_snapshot_calls_def)

interpretation bsave: synced_write batch_save_calls "[MakeDirs ''.gw'']"
  "[Sync ''.gw/batch-state.json.tmp'']" "''.gw/batch-state.json.tmp''" "''.gw/batch-state.json''"
  by unfold_locales (auto simp: batch_save_calls_def)

interpretation owner: unsynced_write "session_owner_calls dir" "[MakeDirs (dir @ ''/.gw'')]" "[]"
  "dir @ ''/.gw/session-owner.json.tmp''" "dir @ ''/.gw/session-owner.json''" for dir
  by unfold_locales (auto simp: session_owner_calls_def)

interpretation hist: unsynced_write "crash_history_calls dir" "[MakeDirs (dir @ ''/.gw'')]" "[]"
  "dir @ ''/.gw/crash-history.json.tmp''" "dir @ ''/.gw/crash-history.json''" for dir
  by unfold_locales (auto simp: crash_history_calls_def)

text \<open>
  The promise of the checkpoint writer, for every failure and every moment at which the process dies or
  the power goes: the file is what it was, or the new document in full, and after \<open>Ok\<close> it is the new one.
\<close>

theorem checkpoint_is_replaced_whole:
  assumes "run_calls faults 0 (write_checkpoint_calls mp pieces p) d = (ok, d1)"
  shows "dk_live d1 p = (if ok then Some (concat pieces) else dk_live d p)"
    and "dk_kept d1 p v \<Longrightarrow> dk_kept d p v \<or> v = Some (concat pieces)"
    and "q \<noteq> p \<Longrightarrow> q \<noteq> p @ TMP_SUFFIX \<Longrightarrow> dk_live d1 q = dk_live d q"
  using ckpt.old_or_new [OF assms] ckpt.power_loss_leaves_old_or_new [OF assms] by blast+

text \<open>
  A retry after a failure needs no clean-up: what the failed attempt left in the temporary file does not
  reach the target.
\<close>

theorem retry_after_failure:
  assumes "run_calls faults 0 (write_checkpoint_calls mp pieces p) d = (False, d1)"
    and "run_calls (\<lambda>_. None) 0 (write_checkpoint_calls None pieces2 p) d1 = (ok, d2)"
  shows "ok \<longrightarrow> dk_live d2 p = Some (concat pieces2)"
  using ckpt.old_or_new(1) [OF assms(2)] by simp

text \<open>
  The owner file and the crash history are renamed into place unsynced: a power loss after \<open>Ok\<close> may leave
  any contents there, the file that was valid before is gone.
\<close>

theorem owner_file_may_be_torn:
  assumes "run_calls faults 0 (session_owner_calls dir pieces) d = (True, d1)"
  shows "dk_kept d1 (dir @ ''/.gw/session-owner.json'') (Some s)"
  by (rule owner.power_loss_leaves_anything [OF assms])

theorem crash_history_may_be_torn:
  assumes "run_calls faults 0 (crash_history_calls dir pieces) d = (True, d1)"
  shows "dk_kept d1 (dir @ ''/.gw/crash-history.json'') (Some s)"
  by (rule hist.power_loss_leaves_anything [OF assms])

text \<open>The backup is written in place: a failure loses the backup there was.\<close>

theorem failed_backup_loses_the_old_one:
  assumes "dk_live d p = Some new" "dk_live d (p @ ''.bak'') = Some old"
  shows "dk_live (snd (run_calls (\<lambda>i. if i = 1 then Some 0 else None) 0
           (backup_checkpoint_calls d p (p @ ''.bak'')) d)) (p @ ''.bak'') = Some []"
  using assms by (simp add: backup_checkpoint_calls_def)

theorem backup_is_a_copy:
  assumes "dk_live d p = Some c" "p \<noteq> b"
    and "run_calls faults 0 (backup_checkpoint_calls d p b) d = (ok, d1)"
  shows "dk_live d1 p = Some c" "ok \<Longrightarrow> dk_live d1 b = Some c"
  using assms by (auto simp: backup_checkpoint_calls_def split: option.splits)

end
