(* ===== verification/Hook_Context.thy ===== *)
theory Hook_Context
  imports Elden Batch
begin

text \<open>
  What the session-start hook prints for the session to read (\<open>commands/elden.rs\<close>): the full context
  of a fresh session and the brief one after a resume or a compaction, as the list of printed lines,
  from the batch state the batch runner left on disk and the checkpoint of the arc.
\<close>

section \<open>The batch state, as the hook reads it\<close>

text \<open>The durations are those of the batch state; \<open>show_secs\<close> prints one rounded to seconds.\<close>

record mini_plan_result =
  mr_plan :: string
  mr_outcome :: string
  mr_duration :: nat

record mini_batch_state =
  mb_batch_id :: string
  mb_plans :: "string list"
  mb_current_index :: nat
  mb_results :: "mini_plan_result list"

text \<open>\<open>parse\<close> is \<open>serde_json::from_str\<close>.\<close>

definition detect_batch_state :: "(string \<Rightarrow> mini_batch_state option) \<Rightarrow> file_view \<Rightarrow> mini_batch_state option" where
  "detect_batch_state parse file = (case file of Readable content \<Rightarrow> parse content | _ \<Rightarrow> None)"

section \<open>The context\<close>

definition backquoted :: "string \<Rightarrow> string" where
  "backquoted s = [CHR 0x60] @ s @ [CHR 0x60]"

definition outcome_icon :: "string \<Rightarrow> string" where
  "outcome_icon out =
    (if out = ''Passed'' then ''OK'' else if out = ''Failed'' then ''FAIL''
     else if out = ''Skipped'' then ''SKIP'' else ''?'')"

definition result_line :: "(nat \<Rightarrow> string) \<Rightarrow> mini_plan_result \<Rightarrow> string" where
  "result_line show_secs r =
     ''- ['' @ outcome_icon (mr_outcome r) @ ''] '' @ mr_plan r @ '' ('' @ show_secs (mr_duration r) @ ''s)''"

definition plan_at :: "mini_batch_state \<Rightarrow> string option" where
  "plan_at b = (if mb_current_index b < length (mb_plans b) then Some (mb_plans b ! mb_current_index b) else None)"

definition batch_lines :: "(nat \<Rightarrow> string) \<Rightarrow> mini_batch_state \<Rightarrow> string list" where
  "batch_lines show_secs b =
     [''## Current Batch'', [], ''- Batch ID: '' @ mb_batch_id b,
      ''- Progress: '' @ show_nat (mb_current_index b) @ ''/'' @ show_nat (length (mb_plans b)) @ '' plans'']
     @ (case plan_at b of
          Some p \<Rightarrow>
            [''- Current plan: '' @ backquoted p, [], ''## Instructions'', [],
             ''Run the arc pipeline for the current plan:'', [CHR 0x60, CHR 0x60, CHR 0x60],
             ''/rune:arc '' @ p @ '' --resume'', [CHR 0x60, CHR 0x60, CHR 0x60]]
        | None \<Rightarrow> [''- Status: All plans completed''])
     @ (let recent = take 3 (rev (mb_results b)) in
        if recent = [] then [] else [[], ''## Recent Results'', []] @ map (result_line show_secs) recent)"

definition single_session_lines :: "string list" where
  "single_session_lines =
     [''## Mode: Single Session'', [],
      ''No active batch detected. This session is running in single-session mode.'',
      ''Greater-Will will restart this session with '' @ backquoted ''--resume'' @ '' if it crashes.'']"

definition resume_line :: "arc_checkpoint_info \<Rightarrow> string" where
  "resume_line info =
     ''Resume from phase '' @ backquoted (ac_current_phase info) @ ''. Run '' @ backquoted ''/rune:arc --resume''
       @ '' to continue.''"

definition checkpoint_lines :: "arc_checkpoint_info option \<Rightarrow> string list" where
  "checkpoint_lines found =
    (case found of
       None \<Rightarrow> []
     | Some info \<Rightarrow>
         [[], ''## Arc Checkpoint'', [], ''- Plan: '' @ backquoted (ac_plan_file info),
          ''- Phase: '' @ ac_current_phase info,
          ''- Completed: '' @ show_nat (ac_completed info) @ ''/'' @ show_nat (ac_total info)]
         @ (if ac_completed info < ac_total info then [[], resume_line info] else []))"

definition protocol_lines :: "string list" where
  "protocol_lines =
     [[], ''## Protocol'', [],
      ''- Do NOT exit the session manually '' @ em_dash @ '' Greater-Will manages the lifecycle'',
      ''- If stuck, Greater-Will will nudge after 5 minutes and restart after 10 minutes'',
      ''- All work is persisted via git commits and Rune checkpoints'']"

definition print_full_context ::
  "(nat \<Rightarrow> string) \<Rightarrow> mini_batch_state option \<Rightarrow> arc_checkpoint_info option \<Rightarrow> string \<Rightarrow> string list" where
  "print_full_context show_secs batch found session_id =
     [''[Greater-Will] session:'' @ session_id, [], ''# Greater-Will Managed Session'', [],
      ''You are running inside a Greater-Will orchestrated tmux session.'',
      ''Greater-Will monitors this session for crashes, stuck states, and timeouts.'', []]
     @ (case batch of Some b \<Rightarrow> batch_lines show_secs b | None \<Rightarrow> single_session_lines)
     @ checkpoint_lines found @ protocol_lines"

definition source_str :: "HookSource \<Rightarrow> string" where
  "source_str s = (case s of HookSource.Resume \<Rightarrow> ''resume'' | HookSource.Compact \<Rightarrow> ''compact'' | _ \<Rightarrow> ''unknown'')"

definition print_brief_context ::
  "mini_batch_state option \<Rightarrow> arc_checkpoint_info option \<Rightarrow> string \<Rightarrow> HookSource \<Rightarrow> string list" where
  "print_brief_context batch found session_id source =
     [''[Greater-Will] session:'' @ session_id @ '' source:'' @ source_str source @ '' '' @ em_dash
        @ '' Managed session, crash recovery active.'']
     @ (case batch of
          Some b \<Rightarrow>
            (case plan_at b of
               Some p \<Rightarrow> [''Current plan: '' @ backquoted p @ ''. Continue with '' @ backquoted ''/rune:arc --resume'' @ ''.'']
             | None \<Rightarrow> [])
        | None \<Rightarrow>
            (case found of
               Some info \<Rightarrow>
                 [''Plan: '' @ backquoted (ac_plan_file info) @ '', phase: '' @ ac_current_phase info
                    @ ''. Continue with '' @ backquoted ''/rune:arc --resume'' @ ''.'']
             | None \<Rightarrow> []))"

text \<open>
  \<open>execute\<close>: what the session identifier's file then holds, and the lines. \<open>env\<close> is the environment's
  identifier, \<open>id_file\<close> what can be read of the file, \<open>input\<close> the bytes on standard input, \<open>written\<close>
  whether the file could be written.
\<close>

definition execute_start ::
  "(string \<Rightarrow> hook_input option) \<Rightarrow> (string \<Rightarrow> mini_batch_state option) \<Rightarrow> (nat \<Rightarrow> string) \<Rightarrow>
    string option \<Rightarrow> string option \<Rightarrow> string option \<Rightarrow> bool \<Rightarrow> string \<Rightarrow> file_view \<Rightarrow> json option \<Rightarrow>
    string option \<times> string list" where
  "execute_start parse_input parse_batch show_secs env id_file input written now batch_file checkpoint =
    (let hook_input = read_hook_input parse_input input;
         session_id = resolve_session_id env id_file hook_input;
         id_file1 = (if written then Some (persist_session_id session_id now) else id_file);
         source = (case Option.bind hook_input hk_source of Some s \<Rightarrow> s | None \<Rightarrow> HookSource.Startup);
         batch = detect_batch_state parse_batch batch_file;
         found = detect_arc_checkpoint checkpoint
     in (id_file1,
         (if source = HookSource.Compact \<or> source = HookSource.Resume
          then print_brief_context batch found session_id source
          else print_full_context show_secs batch found session_id)))"

section \<open>What a session learns\<close>

text \<open>The hook's view of a batch state that the runner saved.\<close>

fun outcome_name :: "PlanOutcome \<Rightarrow> string" where
  "outcome_name Passed = ''Passed''"
| "outcome_name Failed_Plan = ''Failed''"
| "outcome_name Skipped_Plan = ''Skipped''"

definition mini_of :: "batch_state \<Rightarrow> mini_batch_state" where
  "mini_of b =
     \<lparr>mb_batch_id = bt_batch_id b, mb_plans = bt_plans b, mb_current_index = bt_current_index b,
      mb_results = map (\<lambda>r. \<lparr>mr_plan = bp_plan r, mr_outcome = outcome_name (bp_outcome r),
                              mr_duration = bp_duration r\<rparr>) (bt_results b)\<rparr>"

lemma plan_at_mini [simp]: "plan_at (mini_of b) = next_plan b"
  by (simp add: plan_at_def mini_of_def next_plan_def)

text \<open>Both contexts name the plan that the batch runner runs next.\<close>

theorem contexts_name_the_next_plan:
  assumes "next_plan b = Some p"
  shows "''/rune:arc '' @ p @ '' --resume'' \<in> set (print_full_context show_secs (Some (mini_of b)) found sid)"
    and "''Current plan: '' @ backquoted p @ ''. Continue with '' @ backquoted ''/rune:arc --resume'' @ ''.''
           \<in> set (print_brief_context (Some (mini_of b)) found sid source)"
  using assms by (simp_all add: print_full_context_def batch_lines_def print_brief_context_def)

text \<open>
  The full context says to resume exactly when the checkpoint it shows has unfinished phases. No other
  line starts like the one that says so.
\<close>

definition says_resume :: "string \<Rightarrow> bool" where
  "says_resume l \<longleftrightarrow> prefix ''Resume from phase '' l"

lemma not_says_resume [simp]:
  "\<not> says_resume []"
  "c \<noteq> CHR ''R'' \<Longrightarrow> \<not> says_resume (c # l)"
  "c \<noteq> CHR ''e'' \<Longrightarrow> \<not> says_resume (CHR ''R'' # c # l)"
  by (simp_all add: says_resume_def)

lemma resume_line_says [simp]: "says_resume (resume_line info)"
  by (simp add: says_resume_def resume_line_def)

lemma no_resume_in_batch: "\<forall>l\<in>set (batch_lines show_secs b). \<not> says_resume l"
proof -
  have "\<not> says_resume (result_line show_secs r)" for r by (simp add: result_line_def)
  then show ?thesis by (cases "plan_at b") (simp_all add: batch_lines_def Let_def)
qed

lemma no_resume_in_single: "\<forall>l\<in>set single_session_lines. \<not> says_resume l"
  by (simp add: single_session_lines_def)

lemma no_resume_in_protocol: "\<forall>l\<in>set protocol_lines. \<not> says_resume l"
  by (simp add: protocol_lines_def)

lemma resume_in_checkpoint:
  "(\<exists>l\<in>set (checkpoint_lines found). says_resume l) \<longleftrightarrow>
    (\<exists>info. found = Some info \<and> ac_completed info < ac_total info)"
  by (cases found) (simp_all add: checkpoint_lines_def bex_Un ex_disj_distrib conj_disj_distribR)

theorem full_context_resumes_unfinished:
  "(\<exists>l\<in>set (print_full_context show_secs batch found sid). says_resume l) \<longleftrightarrow>
    (\<exists>info. found = Some info \<and> ac_completed info < ac_total info)"
proof -
  have batch: "\<not> (\<exists>l\<in>set (case batch of Some b \<Rightarrow> batch_lines show_secs b | None \<Rightarrow> single_session_lines). says_resume l)"
    using no_resume_in_batch no_resume_in_single by (simp split: option.split)
  have "(\<exists>l\<in>set (print_full_context show_secs batch found sid). says_resume l) \<longleftrightarrow>
      (\<exists>l\<in>set (checkpoint_lines found). says_resume l)"
    unfolding print_full_context_def set_append bex_Un using batch no_resume_in_protocol by simp
  then show ?thesis by (simp only: resume_in_checkpoint)
qed

text \<open>
  The state of a batch stays on disk when the batch is over, and the brief context prefers it to the
  checkpoint: from then on a resumed or compacted session in the directory is told nothing of its plan,
  however far its arc is, while without the file it would be.
\<close>

theorem finished_batch_hides_the_checkpoint:
  assumes "\<not> has_remaining b"
  shows "length (print_brief_context (Some (mini_of b)) found sid source) = 1"
    and "length (print_brief_context None (Some info) sid source) = 2"
  using assms by (simp_all add: print_brief_context_def next_plan_def has_remaining_def)

text \<open>The identifier that is printed is the one that is written for the hooks to come.\<close>

lemma context_head:
  "prefix (''[Greater-Will] session:'' @ sid) (hd (print_brief_context batch found sid source))"
  "prefix (''[Greater-Will] session:'' @ sid) (hd (print_full_context show_secs batch found sid))"
  by (simp_all add: print_brief_context_def print_full_context_def)

theorem printed_session_is_persisted:
  assumes "execute_start parse_input parse_batch show_secs env id_file input True now batch_file checkpoint = (f, ls)"
  shows "\<exists>sid. prefix (''[Greater-Will] session:'' @ sid) (hd ls) \<and> f = Some (persist_session_id sid now)"
proof (intro exI conjI)
  let ?sid = "resolve_session_id env id_file (read_hook_input parse_input input)"
  show "prefix (''[Greater-Will] session:'' @ ?sid) (hd ls)"
    using assms context_head [of ?sid] unfolding execute_start_def Let_def prod.inject
    by (metis (no_types, lifting))
  show "f = Some (persist_session_id ?sid now)"
    using assms by (simp add: execute_start_def Let_def)
qed

end
