(* ===== verification/Spec2Isabelle.thy ===== *)
theory Spec2Isabelle
  imports Phase_Order Checkpoint Registry_Locks Registry_Queues Queue_Flush Executor Schedule Server_Laws Crash_Loop Retry
    Loop_State Session_Util Watchdog Recovery Heartbeat Phase_Nav Prompt_Accept Run_Monitor Monitor_Laws Reconciler Daemon_Home Daemon_Life Orchestrator Foreground_Laws
    Phase_Executor_Laws Cleanup Batch Session_Spawn Trackers Elden Run_Command GitHub_Issues Run_Log Client Service Listing Connections Disk_Write Hook_Context
begin

text \<open>
  \<^bold>\<open>Greater-will (\<open>gw\<close>)\<close> runs the plans of a development project through a pipeline of 41 phases (the
  "arc") that Claude Code works through in a tmux session. The program starts the session, watches it,
  decides when it has finished, failed or stopped moving, starts it again after a crash, and keeps all of
  this apart for several repositories. It has three ways of running: a daemon with a queue, schedules and a
  socket; a foreground run of one session per plan; and the older way of one session per group of phases,
  also as a batch of plans. This development models the program below \<open>src/src\<close>.

  \<^bold>\<open>How the parts interact.\<close> A client sends a request over the socket (Client, Protocol). The server
  (Server) checks it and calls the registry (Registry) and the executor (Executor), which starts tmux
  sessions. The heartbeat (Heartbeat) gives each running run a monitor (Run_Monitor); the outcome of a
  monitor is handled by the recovery (Recovery), which asks the crash-loop detector (Crash_Loop), waits, and
  starts the session again or ends the run, and ending a run drains the queue. Snapshots of the queue are
  written outside the mutex (Queue_Flush). At start the daemon takes its PID file (Daemon_Life), loads the
  registry and reconciles it with the sessions that are alive (Reconciler). The pipeline itself writes a
  checkpoint and a loop state; they are read by Checkpoint, Phase_Nav and Loop_State. In the foreground the
  orchestrator (Orchestrator) does what the recovery does in the daemon, with its own monitor
  (Foreground_Monitor); Phase_Executor and Batch are the older way. Run_Command chooses between the ways.

  \<^bold>\<open>Conventions.\<close> A \<open>HashMap\<close> is an association list with distinct keys whose order is arbitrary
  (\<open>hm_ok\<close>); a string is its UTF-8 bytes, and a text of code points where the code counts characters; a
  \<open>u64\<close> that can wrap is a \<open>64 word\<close>, other unsigned numbers are \<open>nat\<close> with truncated
  subtraction where the code saturates; times are numbers in nanoseconds, seconds or milliseconds, as stated
  with each record. Errors are values: \<open>io_result\<close> is nothing or a message, \<open>string + 'a\<close> a
  \<open>Result\<close>, and an \<open>option\<close> around it a computation that can panic or does not return. What tmux, the disk, the
  clock, the network and the process table answer is an argument; a record of such answers stands for one
  section of code, and lists or functions of them for what changes from section to section. JSON, TOML, RFC
  3339, regular expressions, cron, hashing and file locking are parameters, with what is needed of them as
  named hypotheses (a decoder that inverts its encoder, a canonical path that is a fixed point).
\<close>

text \<open>
  \<^bold>\<open>The pipeline and its files.\<close>
  \<^item> Phase_Order (\<open>checkpoint/phase_order.rs\<close>, \<open>engine/phase_profile.rs\<close>): the phases, their groups, categories and
    profiles. Lemmas: the groups partition the order and refine the categories.
  \<^item> Checkpoint (\<open>checkpoint/{schema,reader,writer}.rs\<close>): the record \<open>checkpoint\<close>, the inference of the
    position, the edits of a handover, validation before a resume, creation and completion of phases. The
    inference is proved equal to an index specification, the handover to resume at its target, and the
    counter of phases to agree with the inferred position; validation is characterised exactly.
  \<^item> Phase_Nav (\<open>monitor/phase_nav.rs\<close>): the phases behind, at and ahead of the position, and the resolution of
    timeouts.
  \<^item> Loop_State (\<open>monitor/loop_state.rs\<close>): the front matter of the state file, with a round trip; Session_Util
    (\<open>engine/single_session/{util,mod}.rs\<close>): the commands typed, the decision to restart, activity and artifacts.
  \<^item> Phase_Config (\<open>config/phase_config.rs\<close>) and Watchdog (\<open>config/watchdog.rs\<close>): configuration, its checks and ranges.

  \<^bold>\<open>The daemon.\<close>
  \<^item> Daemon_Types, Registry (\<open>daemon/{protocol,registry}.rs\<close>): the record \<open>registry\<close> with one definition per
    operation. Registry_Steps makes each operation under the mutex a constructor of \<open>reg_op\<close> and the
    histories the inductive \<open>reg_trace\<close>; invariants are proved by rule induction. Registry_Locks: exclusion
    per repository and the discipline it needs. Registry_Queues: the queue of a repository refines a FIFO
    queue (locale \<open>fifo_queue\<close>), nothing overtakes, and the queues survive the round trip through
    \<open>queue.json\<close>.
  \<^item> Queue_Flush: flushes as interleaved atomic actions (\<open>reaches\<close>), with what every interleaving keeps.
  \<^item> Executor (\<open>daemon/executor.rs\<close>), Server, Server_Laws, Connections, Log_Stream (\<open>daemon/server.rs\<close>), Protocol
    (\<open>daemon/protocol.rs\<close>): starting, stopping and draining; a definition per request; streaming of logs and
    framing of messages; the socket and whole connections. Requests are proved to change the registry only by sequences of its operations, so
    what holds along every history holds after them.
  \<^item> Schedule (\<open>daemon/schedule.rs\<close>): the schedule registry and its loop as interleaved steps.
  \<^item> Crash_Loop (\<open>engine/crash_loop.rs\<close>), Retry (\<open>engine/retry.rs\<close>), Recovery and Heartbeat
    (\<open>daemon/{heartbeat,network}.rs\<close>): the decision of the detector equals its specification; outcomes
    are handled by sequences of registry operations between the waits, and other tasks may act during the
    waits; recoveries of a run that keeps crashing are bounded.
  \<^item> Run_Monitor, Monitor_Laws (\<open>daemon/run_monitor.rs\<close>), Prompt_Accept (\<open>monitor/prompt_accept.rs\<close>): every check
    of a poll in its order; when the monitor kills, when it reports completion, and its type invariant.
  \<^item> Reconciler, Daemon_Home, Daemon_Life (\<open>daemon/{reconciler,state,drain,mod}.rs\<close>, \<open>commands/daemon.rs\<close>): the
    start, the directory, the PID file with its lock as interleaved actions, and the end.

  \<^bold>\<open>The foreground and the older way.\<close>
  \<^item> Orchestrator, Foreground_Monitor, Foreground_Laws (\<open>engine/single_session/\<close>, \<open>monitor/session_owner.rs\<close>):
    rounds of attempts and the sections of a poll; runs end, success needs evidence.
  \<^item> Completion (\<open>engine/completion.rs\<close>), Phase_Executor, Phase_Executor_Laws (\<open>engine/phase_executor.rs\<close>), Batch
    (\<open>batch/\<close>): groups of phases in sessions of their own; attempts end, a plan that succeeds covers its
    groups, sessions are killed, and a batch survives restarts.
  \<^item> Cleanup (\<open>cleanup/\<close>), Session_Spawn (\<open>session/{spawn,detect}.rs\<close>), Trackers
    (\<open>monitor/{nudge,checkpoint_poll}.rs\<close>), Elden (\<open>commands/elden.rs\<close>), Run_Command (\<open>commands/run.rs\<close>),
    GitHub_Issues (\<open>github/mod.rs\<close>), Run_Log (\<open>log/jsonl.rs\<close> and the log of panes), Client (\<open>client/socket.rs\<close>,
    \<open>commands/{stop,queue}.rs\<close>), Service
    (\<open>commands/{daemon,schedule,replay,clean}.rs\<close>) and Listing (\<open>commands/{ps,history}.rs\<close>).
  \<^item> Hook_Context (\<open>commands/elden.rs\<close>): the context printed for a session. Disk_Write: every routine that
    replaces a file by a rename, as its calls on a disk that can fail, with processes that die and power that
    is lost; with the sync the file is always old or new in full, without it a power loss can leave anything.

  \<^bold>\<open>Interfaces.\<close> \<open>keyed_store\<close> (GW_Prelude) is what the components use of a map, provided by association
  lists. \<open>fifo_queue\<close> (Registry_Queues) is what submissions and drains rely on, provided by the queue of a
  repository in the registry. \<open>poll_loop\<close> (Poll_Loop) is the contract of every loop that polls until
  something decides; the monitor of the daemon, the monitor and the rounds of the foreground, the watching of
  a group and the attempts of a group provide it, and what a poll keeps is lifted to their loops there.
  \<open>text_width\<close> (GW_Prelude) is what cutting a text relies on, provided by the bytes of a text (GitHub_Issues) and
  by its columns on the terminal (Listing).

  \<^bold>\<open>Loops, bounds and fuel.\<close> There is no fuel: recursion is structural or has a measure (the process tree, the
  scanning of strings). A loop over time is a function of the list of what it meets, one element per poll,
  and gives nothing when the list ends before it decides. Where the program promises an end it is proved for
  every list that is long enough: a group by its timeout and its attempts, a run in the foreground by the
  limit of the crash detector, the lives of a daemon by the same limit.

  \<^bold>\<open>What fails.\<close> Where the program does not do what its comments say, the development proves it on the model,
  in the same theory, with a concrete state or for all states; examples are the lock released by a queued
  run's end, flushes that roll back, a monitor whose kill gate never fires while the checkpoint can be read,
  a daemon that refuses to start after ten unclean ends, a socket left behind that locks every later daemon
  out, and two instances that hold one lock.

  \<^bold>\<open>Not modelled.\<close> Output on the terminal (tables of \<open>status\<close>, \<open>logs\<close> and \<open>replay\<close>, progress bars, colours)
  and log lines, which no decision reads; the parsing of the command line, done by a package; signal handlers
  and the set-up of tasks and logging in \<open>main.rs\<close> and \<open>daemon/mod.rs\<close>; the
  events file, which is only appended to. Test code and the embedded default configuration are data and are not
  translated.
\<close>

end
